(* ===== verification/Prelude.thy ===== *)
theory Prelude
  imports Main "HOL-Library.Word"
begin

unbundle bit_operations_syntax

text \<open>
  Shared vocabulary of the development: bytes and C strings, the outcome type of a C routine
  and the state-and-outcome combinators the components are written with.

  A C routine that leaves through \<open>goto exit\<close> is a computation in \<open>('s, 'e, 'a) comp\<close>: it
  takes the state it may change and returns an outcome together with the new state, on the
  error paths too. An outcome \<open>Inl (Code e)\<close> is the returned error code \<open>e\<close>,
  \<open>Inl (Dangling e)\<close> is the error code \<open>e\<close> returned after the routine has freed an object that
  one of its out-parameters still points to, and \<open>Inl Fault\<close> is a run that left the defined
  behaviour of C (an access outside its object, a second \<open>free\<close>).
\<close>

section \<open>Bytes and C strings\<close>

type_synonym byte = "8 word"
type_synonym bytes = "byte list"

definition cstr :: "string \<Rightarrow> bytes" where
  "cstr s = map (\<lambda>c. word_of_nat (of_char c)) s"

text \<open>The C string that starts at the head of a memory region: the bytes before the first NUL.\<close>

definition c_string :: "bytes \<Rightarrow> bytes" where
  "c_string m = takeWhile (\<lambda>b. b \<noteq> 0) m"

section \<open>Outcomes and computations\<close>

datatype 'e stop = Code 'e | Dangling 'e | Fault

type_synonym ('e, 'a) res = "'e stop + 'a"
type_synonym ('s, 'e, 'a) comp = "'s \<Rightarrow> ('e stop + 'a) \<times> 's"

definition ok :: "'a \<Rightarrow> ('s, 'e, 'a) comp" where
  "ok x s = (Inr x, s)"

definition fail :: "'e stop \<Rightarrow> ('s, 'e, 'a) comp" where
  "fail e s = (Inl e, s)"

definition bindE :: "('s, 'e, 'a) comp \<Rightarrow> ('a \<Rightarrow> ('s, 'e, 'b) comp) \<Rightarrow> ('s, 'e, 'b) comp" where
  "bindE m k s = (case m s of (Inl e, t) \<Rightarrow> (Inl e, t) | (Inr x, t) \<Rightarrow> k x t)"

text \<open>Go on when the condition holds, leave with an error when it does not.\<close>

definition ensure :: "bool \<Rightarrow> 'e stop \<Rightarrow> ('s, 'e, unit) comp" where
  "ensure b e s = (if b then (Inr (), s) else (Inl e, s))"

text \<open>Change the state and go on.\<close>

definition modify :: "('s \<Rightarrow> 's) \<Rightarrow> ('s, 'e, unit) comp" where
  "modify f s = (Inr (), f s)"

text \<open>Read the state and go on.\<close>

definition asks :: "('s \<Rightarrow> 'a) \<Rightarrow> ('s, 'e, 'a) comp" where
  "asks f s = (Inr (f s), s)"

text \<open>
  \<open>rescue m h\<close> runs \<open>m\<close> and hands its error, if any, to \<open>h\<close>; \<open>on_error h m\<close> only translates
  the error; \<open>ignore m\<close> runs \<open>m\<close> and goes on whatever it returned (the code logs and
  continues), except that an undefined run stays undefined.
\<close>

definition rescue ::
    "('s, 'e, 'a) comp \<Rightarrow> ('e stop \<Rightarrow> ('s, 'f, 'a) comp) \<Rightarrow> ('s, 'f, 'a) comp" where
  "rescue m h s = (case m s of (Inl e, t) \<Rightarrow> h e t | (Inr x, t) \<Rightarrow> (Inr x, t))"

definition on_error :: "('e stop \<Rightarrow> 'f stop) \<Rightarrow> ('s, 'e, 'a) comp \<Rightarrow> ('s, 'f, 'a) comp" where
  "on_error h m s = (case m s of (Inl e, t) \<Rightarrow> (Inl (h e), t) | (Inr x, t) \<Rightarrow> (Inr x, t))"

definition ignore :: "('s, 'e, 'a) comp \<Rightarrow> ('s, 'f, unit) comp" where
  "ignore m s = (case m s of (Inl Fault, t) \<Rightarrow> (Inl Fault, t) | (_, t) \<Rightarrow> (Inr (), t))"

text \<open>A computation that touches no state, and one that returns a value without failing.\<close>

definition pure_res :: "('e, 'a) res \<Rightarrow> ('s, 'e, 'a) comp" where
  "pure_res r s = (r, s)"

definition bindR :: "('e, 'a) res \<Rightarrow> ('a \<Rightarrow> ('e, 'b) res) \<Rightarrow> ('e, 'b) res" where
  "bindR r k = (case r of Inl e \<Rightarrow> Inl e | Inr x \<Rightarrow> k x)"

definition ensureR :: "bool \<Rightarrow> 'e stop \<Rightarrow> ('e, unit) res" where
  "ensureR b e = (if b then Inr () else Inl e)"

definition on_errorR :: "('e stop \<Rightarrow> 'f stop) \<Rightarrow> ('e, 'a) res \<Rightarrow> ('f, 'a) res" where
  "on_errorR h r = (case r of Inl e \<Rightarrow> Inl (h e) | Inr x \<Rightarrow> Inr x)"

text \<open>
  How a caller that returns code \<open>c\<close> for any error of a callee sees it. \<open>as_code\<close> is a caller
  that does not look at the callee's out-parameters again, \<open>as_freeing\<close> one that frees them
  on its own exit path, so that a dangling one is freed a second time.
\<close>

fun as_code :: "'f \<Rightarrow> 'e stop \<Rightarrow> 'f stop" where
  "as_code c Fault = Fault"
| "as_code c (Code e) = Code c"
| "as_code c (Dangling e) = Code c"

fun as_freeing :: "'f \<Rightarrow> 'e stop \<Rightarrow> 'f stop" where
  "as_freeing c Fault = Fault"
| "as_freeing c (Code e) = Code c"
| "as_freeing c (Dangling e) = Fault"

text \<open>A caller that passes the code on and does not look at the out-parameters again.\<close>

fun settle :: "'e stop \<Rightarrow> 'e stop" where
  "settle Fault = Fault"
| "settle (Code e) = Code e"
| "settle (Dangling e) = Code e"

named_theorems comp_defs \<open>the combinators, for symbolic execution of a routine\<close>

lemmas [comp_defs] = ok_def fail_def bindE_def ensure_def modify_def asks_def rescue_def
  on_error_def ignore_def pure_res_def bindR_def ensureR_def on_errorR_def

lemma bindE_Inr: "m s = (Inr x, t) \<Longrightarrow> bindE m k s = k x t"
  by (simp add: bindE_def)

lemma bindE_Inl: "m s = (Inl e, t) \<Longrightarrow> bindE m k s = (Inl e, t)"
  by (simp add: bindE_def)

lemma bindE_eq_Inr:
  "bindE m k s = (Inr y, u) \<longleftrightarrow> (\<exists>x t. m s = (Inr x, t) \<and> k x t = (Inr y, u))"
  by (auto simp: bindE_def split: prod.splits sum.splits)

lemma ensure_eq_Inr: "ensure b e s = (Inr u, t) \<longleftrightarrow> b \<and> t = s"
  by (auto simp: ensure_def)

lemma on_error_eq_Inr: "on_error h m s = (Inr x, t) \<longleftrightarrow> m s = (Inr x, t)"
  by (auto simp: on_error_def split: prod.splits sum.splits)

lemma pure_res_eq_Inr: "pure_res r s = (Inr x, t) \<longleftrightarrow> r = Inr x \<and> t = s"
  by (auto simp: pure_res_def)

lemma ok_eq_Inr: "ok x s = (Inr y, t) \<longleftrightarrow> y = x \<and> t = s"
  by (auto simp: ok_def)

lemma modify_eq_Inr: "modify f s = (Inr y, t) \<longleftrightarrow> t = f s"
  by (auto simp: modify_def)

lemma asks_eq_Inr: "asks f s = (Inr y, t) \<longleftrightarrow> y = f s \<and> t = s"
  by (auto simp: asks_def)

lemma bindR_eq_Inr: "bindR r k = Inr y \<longleftrightarrow> (\<exists>x. r = Inr x \<and> k x = Inr y)"
  by (auto simp: bindR_def split: sum.splits)

lemma ensureR_eq_Inr: "ensureR b e = Inr u \<longleftrightarrow> b"
  by (auto simp: ensureR_def)

lemma on_errorR_eq_Inr: "on_errorR h r = Inr x \<longleftrightarrow> r = Inr x"
  by (auto simp: on_errorR_def split: sum.splits)

named_theorems succeeds \<open>inversion of a routine that returned success\<close>

lemmas [succeeds] = bindE_eq_Inr ensure_eq_Inr on_error_eq_Inr pure_res_eq_Inr ok_eq_Inr
  modify_eq_Inr asks_eq_Inr bindR_eq_Inr ensureR_eq_Inr on_errorR_eq_Inr

text \<open>
  What a routine may do to the state on any of its paths, errors included, as a reflexive and
  transitive relation between the state before and after.
\<close>

definition frames :: "('s \<Rightarrow> 's \<Rightarrow> bool) \<Rightarrow> ('s, 'e, 'a) comp \<Rightarrow> bool" where
  "frames R m \<longleftrightarrow> (\<forall>s r t. m s = (r, t) \<longrightarrow> R s t)"

lemma framesD: "frames R m \<Longrightarrow> m s = (r, t) \<Longrightarrow> R s t"
  by (simp add: frames_def)

locale state_frame =
  fixes R :: "'s \<Rightarrow> 's \<Rightarrow> bool"
  assumes R_refl: "R s s"
    and R_trans: "R s t \<Longrightarrow> R t u \<Longrightarrow> R s u"
begin

lemma frames_leaf:
  "frames R (ok x)" "frames R (fail e)" "frames R (ensure b e)" "frames R (asks f)"
  "frames R (pure_res r)"
  using R_refl by (auto simp: frames_def ok_def fail_def ensure_def asks_def pure_res_def)

lemma frames_modify: "(\<And>s. R s (f s)) \<Longrightarrow> frames R (modify f)"
  by (auto simp: frames_def modify_def)

lemma frames_bindE:
  assumes "frames R m" and "\<And>x. frames R (k x)"
  shows "frames R (bindE m k)"
  unfolding frames_def
proof (intro allI impI)
  fix s r u
  assume run: "bindE m k s = (r, u)"
  obtain r1 t where m: "m s = (r1, t)" by force
  show "R s u"
  proof (cases r1)
    case (Inl e)
    then show ?thesis using run m framesD [OF assms(1) m] by (simp add: bindE_def)
  next
    case (Inr x)
    then have "k x t = (r, u)" using run m by (simp add: bindE_def)
    from framesD [OF assms(2) this] framesD [OF assms(1) m] show ?thesis by (blast intro: R_trans)
  qed
qed

lemma frames_rescue:
  assumes "frames R m" and "\<And>e. frames R (h e)"
  shows "frames R (rescue m h)"
  unfolding frames_def
proof (intro allI impI)
  fix s r u
  assume run: "rescue m h s = (r, u)"
  obtain r1 t where m: "m s = (r1, t)" by force
  show "R s u"
  proof (cases r1)
    case (Inr x)
    then show ?thesis using run m framesD [OF assms(1) m] by (simp add: rescue_def)
  next
    case (Inl e)
    then have "h e t = (r, u)" using run m by (simp add: rescue_def)
    from framesD [OF assms(2) this] framesD [OF assms(1) m] show ?thesis by (blast intro: R_trans)
  qed
qed

lemma frames_on_error: "frames R m \<Longrightarrow> frames R (on_error h m)"
  by (auto simp: frames_def on_error_def split: prod.splits sum.splits)

lemma frames_ignore: "frames R m \<Longrightarrow> frames R (ignore m)"
  by (fastforce simp: frames_def ignore_def split: prod.splits sum.splits stop.splits)

lemma frames_if: "frames R m \<Longrightarrow> frames R m' \<Longrightarrow> frames R (if b then m else m')"
  by simp

lemma frames_option: "frames R m \<Longrightarrow> (\<And>x. frames R (k x)) \<Longrightarrow> frames R (case v of None \<Rightarrow> m | Some x \<Rightarrow> k x)"
  by (cases v) simp_all

lemma frames_prod: "(\<And>x y. frames R (k x y)) \<Longrightarrow> frames R (case v of (x, y) \<Rightarrow> k x y)"
  by (cases v) simp_all

lemmas frame_rules = frames_leaf frames_bindE frames_rescue frames_on_error frames_ignore frames_if
  frames_option frames_prod

end

text \<open>Arithmetic in a \<open>uint32_t\<close> on natural numbers.\<close>

definition u32 :: "nat \<Rightarrow> nat" where "u32 n = n mod 2 ^ 32"

lemma u32_less [simp]: "n < 2 ^ 32 \<Longrightarrow> u32 n = n"
  by (simp add: u32_def)

section \<open>Lists\<close>

lemma cstr_Nil [simp]: "cstr [] = []"
  by (simp add: cstr_def)

lemma length_cstr [simp]: "length (cstr s) = length s"
  by (simp add: cstr_def)

lemma c_string_append_NUL: "0 \<notin> set xs \<Longrightarrow> c_string (xs @ 0 # ys) = xs"
  unfolding c_string_def by (subst takeWhile_append2) auto

section \<open>Words\<close>

text \<open>A value that was widened and cut back to its width is unchanged.\<close>

lemma ucast_widen_byte [simp]: "(ucast (ucast (x :: byte) :: 64 word) :: byte) = x"
  by (rule bit_word_eqI) (simp add: bit_simps)

lemma ucast_widen_32 [simp]: "(ucast (ucast (x :: 32 word) :: 64 word) :: 32 word) = x"
  by (rule bit_word_eqI) (simp add: bit_simps)

lemma ucast_byte_of_widen_32 [simp]:
  "(ucast (ucast (x :: 32 word) :: 64 word) :: byte) = ucast x"
  by (rule bit_word_eqI) (simp add: bit_simps)

lemma unat_widen_byte [simp]: "unat (ucast (x :: byte) :: 64 word) = unat x"
  using unsigned_less [of x, where ?'a = nat] by (simp add: unsigned_ucast_eq take_bit_nat_eq_self)

lemma unat_widen_32 [simp]: "unat (ucast (x :: 32 word) :: 64 word) = unat x"
  using unsigned_less [of x, where ?'a = nat] by (simp add: unsigned_ucast_eq take_bit_nat_eq_self)

lemma byte_less_256 [simp]: "unat (x :: byte) < 256"
  using unsigned_less [of x, where ?'a = nat] by simp

end
