(* ===== verification/WosBase.thy ===== *)
theory WosBase
  imports Prelude
begin

text \<open>
  The WeeveCommon platform layer: what a weeve component sees of the C library
  (\<open>malloc\<close>, \<open>stdio\<close>), the memory routines of \<open>wosMemoryLibC.c\<close>, the string routines of
  \<open>wosStringLibC.c\<close> and the buffer macro of \<open>wosCommon.h\<close>.

  The world holds the environment's choices. \<open>w_faults\<close> is the stream of outcomes of the
  library calls that may fail, in the order they are made (\<open>True\<close>: the call succeeds);
  \<open>w_junk\<close> is what fresh memory happens to hold, \<open>w_short\<close> how much of its data a failing
  \<open>fwrite\<close> leaves behind, \<open>w_files\<close> the files of the working directory, and \<open>w_prng\<close> the
  library's random generator. A world is calm when no library call fails.
\<close>

record 'p world =
  w_faults :: "nat \<Rightarrow> bool"
  w_junk :: byte
  w_short :: nat
  w_files :: "bytes \<Rightarrow> bytes option"
  w_prng :: 'p

definition libc_call :: "('p, 'z) world_scheme \<Rightarrow> bool \<times> ('p, 'z) world_scheme" where
  "libc_call w = (w_faults w 0, w\<lparr>w_faults := (\<lambda>n. w_faults w (Suc n))\<rparr>)"

definition calm :: "('p, 'z) world_scheme \<Rightarrow> bool" where
  "calm w \<longleftrightarrow> w_faults w = (\<lambda>_. True)"

lemma calm_libc_call [simp]: "calm w \<Longrightarrow> libc_call w = (True, w)"
  by (simp add: calm_def libc_call_def)

lemma calm_update [simp]:
  "calm (w\<lparr>w_files := f\<rparr>) = calm w" "calm (w\<lparr>w_prng := p\<rparr>) = calm w"
  by (simp_all add: calm_def)

lemma libc_call_keeps [simp]:
  "libc_call w = (b, w') \<Longrightarrow> w_files w' = w_files w"
  "libc_call w = (b, w') \<Longrightarrow> w_prng w' = w_prng w"
  "libc_call w = (b, w') \<Longrightarrow> w_short w' = w_short w"
  "libc_call w = (b, w') \<Longrightarrow> w_junk w' = w_junk w"
  by (auto simp: libc_call_def)

section \<open>Buffers (wosTypes.h, wosCommon.h)\<close>

text \<open>
  A \<open>WosBuffer_t *\<close>: \<open>None\<close> is a NULL pointer or a buffer whose data pointer is NULL (the code
  tests both at once), \<open>Some bs\<close> a buffer of \<open>length bs\<close> bytes.
\<close>

type_synonym wos_buffer = "bytes option"

definition WOS_IS_VALID_BUFFER :: "wos_buffer \<Rightarrow> bool" where
  "WOS_IS_VALID_BUFFER b = (case b of None \<Rightarrow> False | Some bs \<Rightarrow> length bs \<noteq> 0)"

lemma valid_buffer_Some [simp]: "WOS_IS_VALID_BUFFER (Some bs) \<longleftrightarrow> bs \<noteq> []"
  by (simp add: WOS_IS_VALID_BUFFER_def)

lemma valid_buffer_None [simp]: "\<not> WOS_IS_VALID_BUFFER None"
  by (simp add: WOS_IS_VALID_BUFFER_def)

lemma valid_buffer_iff: "WOS_IS_VALID_BUFFER b \<longleftrightarrow> (\<exists>bs. b = Some bs \<and> bs \<noteq> [])"
  by (cases b) auto

lemma valid_bufferE:
  assumes "WOS_IS_VALID_BUFFER b"
  obtains bs where "b = Some bs" and "bs \<noteq> []"
  using assms by (cases b) auto

section \<open>Memory (wosMemoryLibC.c)\<close>

definition wosMemAlloc ::
    "nat \<Rightarrow> ('p, 'z) world_scheme \<Rightarrow> bytes option \<times> ('p, 'z) world_scheme" where
  "wosMemAlloc sz w =
     (if sz = 0 then (None, w)
      else case libc_call w of
        (True, w') \<Rightarrow> (Some (replicate sz (w_junk w')), w')
      | (False, w') \<Rightarrow> (None, w'))"

text \<open>An allocation whose failure makes the caller leave with \<open>e\<close>.\<close>

definition alloc :: "nat \<Rightarrow> 'e stop \<Rightarrow> (('p, 'z) world_scheme, 'e, bytes) comp" where
  "alloc sz e w = (case wosMemAlloc sz w of
     (None, w') \<Rightarrow> (Inl e, w') | (Some m, w') \<Rightarrow> (Inr m, w'))"

text \<open>\<open>wosMemSet(s + off, c, n)\<close> and \<open>wosMemCopy(dest + off, src, n)\<close>; an access outside the
  object is a fault.\<close>

definition wosMemSet :: "bytes option \<Rightarrow> nat \<Rightarrow> byte \<Rightarrow> nat \<Rightarrow> ('e, bytes option) res" where
  "wosMemSet s off c n = (case s of
     None \<Rightarrow> Inr None
   | Some m \<Rightarrow> if off + n \<le> length m
               then Inr (Some (take off m @ replicate n c @ drop (off + n) m)) else Inl Fault)"

definition wosMemCopy ::
    "bytes option \<Rightarrow> nat \<Rightarrow> bytes option \<Rightarrow> nat \<Rightarrow> ('e, bytes option) res" where
  "wosMemCopy dest off src n = (case (dest, src) of
     (Some d, Some s) \<Rightarrow>
       if off + n \<le> length d \<and> n \<le> length s
       then Inr (Some (take off d @ take n s @ drop (off + n) d)) else Inl Fault
   | _ \<Rightarrow> Inr dest)"

definition wosMemComparison :: "bytes option \<Rightarrow> bytes option \<Rightarrow> nat \<Rightarrow> ('e, int) res" where
  "wosMemComparison a b len = (case (a, b) of
     (None, _) \<Rightarrow> Inr (- 1)
   | (_, None) \<Rightarrow> Inr 1
   | (Some x, Some y) \<Rightarrow>
       if len \<le> length x \<and> len \<le> length y
       then (case filter (\<lambda>(p, q). p \<noteq> q) (zip (take len x) (take len y)) of
               [] \<Rightarrow> Inr 0
             | (p, q) # _ \<Rightarrow> Inr (if p < q then - 1 else 1))
       else Inl Fault)"

definition diff_bits :: "bytes \<Rightarrow> bytes \<Rightarrow> nat \<Rightarrow> byte" where
  "diff_bits x y len = fold (\<lambda>i ret. ret OR (x ! i XOR y ! i)) [0..<len] 0"

definition one_bit :: "byte \<Rightarrow> byte" where
  "one_bit r0 =
     (let r1 = r0 OR drop_bit 4 r0;
          r2 = r1 OR drop_bit 2 r1;
          r3 = r2 OR drop_bit 1 r2
      in r3 AND 1)"

definition wosMemComparisonConstTime ::
    "bytes option \<Rightarrow> bytes option \<Rightarrow> nat \<Rightarrow> ('e, byte) res" where
  "wosMemComparisonConstTime a b len = (case (a, b) of
     (Some x, Some y) \<Rightarrow>
       if len \<le> length x \<and> len \<le> length y then Inr (one_bit (diff_bits x y len))
       else Inl Fault
   | _ \<Rightarrow> Inr 1)"

lemma wosMemAlloc_0 [simp]: "wosMemAlloc 0 w = (None, w)"
  by (simp add: wosMemAlloc_def)

lemma calm_wosMemAlloc [simp]:
  "calm w \<Longrightarrow> 0 < n \<Longrightarrow> wosMemAlloc n w = (Some (replicate n (w_junk w)), w)"
  by (simp add: wosMemAlloc_def)

lemma calm_alloc [simp]:
  "calm w \<Longrightarrow> 0 < n \<Longrightarrow> alloc n e w = (Inr (replicate n (w_junk w)), w)"
  by (simp add: alloc_def)

lemma alloc_eq_Inr:
  "alloc n e w = (Inr m, w') \<Longrightarrow> length m = n \<and> w_files w' = w_files w \<and> w_prng w' = w_prng w"
  by (auto simp: alloc_def wosMemAlloc_def split: if_splits prod.splits bool.splits option.splits)

lemma wosMemCopy_at_end:
  "length d = off + k \<Longrightarrow> length s = n \<Longrightarrow> n \<le> k \<Longrightarrow>
   wosMemCopy (Some d) off (Some s) n = Inr (Some (take off d @ s @ drop (off + n) d))"
  by (simp add: wosMemCopy_def)

lemma diff_bits_Suc: "diff_bits x y (Suc n) = diff_bits x y n OR (x ! n XOR y ! n)"
  by (simp add: diff_bits_def)

lemma xor_zero_iff: "(a :: byte) XOR b = 0 \<longleftrightarrow> a = b"
  by (auto simp: bit_eq_iff bit_simps)

lemma diff_bits_eq_0: "diff_bits x y n = 0 \<longleftrightarrow> (\<forall>i<n. x ! i = y ! i)"
proof (induction n)
  case 0
  show ?case by (simp add: diff_bits_def)
next
  case (Suc n)
  have "diff_bits x y (Suc n) = 0 \<longleftrightarrow> diff_bits x y n = 0 \<and> x ! n XOR y ! n = 0"
    by (simp add: diff_bits_Suc or_eq_0_iff)
  then show ?case using Suc by (auto simp: less_Suc_eq xor_zero_iff)
qed

lemma one_bit_0: "bit (one_bit r) 0 \<longleftrightarrow> r \<noteq> 0"
proof -
  have "bit (one_bit r) 0 \<longleftrightarrow> (\<exists>i<8. bit r i)"
    by (auto simp: one_bit_def Let_def bit_simps eval_nat_numeral less_Suc_eq)
  also have "\<dots> \<longleftrightarrow> r \<noteq> 0"
    by (auto simp: bit_eq_iff dest: bit_imp_le_length)
  finally show ?thesis .
qed

lemma one_bit_cases: "one_bit r = (if r = 0 then 0 else 1)"
proof -
  have "one_bit r = of_bool (bit (one_bit r) 0)"
    by (simp add: one_bit_def Let_def bit_0 and_one_eq mod_2_eq_odd even_or_iff)
  then show ?thesis by (simp add: one_bit_0)
qed

lemma take_eq_nth_iff:
  "n \<le> length x \<Longrightarrow> n \<le> length y \<Longrightarrow> take n x = take n y \<longleftrightarrow> (\<forall>i<n. x ! i = y ! i)"
  by (auto simp: list_eq_iff_nth_eq)

text \<open>
  The constant-time comparison decides equality: it answers 0 exactly on equal data and never
  anything but 0 or 1.
\<close>

lemma const_time_decides:
  assumes "len \<le> length x" and "len \<le> length y"
  shows "wosMemComparisonConstTime (Some x) (Some y) len
           = Inr (if take len x = take len y then 0 else 1)"
  using assms by (simp add: wosMemComparisonConstTime_def one_bit_cases diff_bits_eq_0
      take_eq_nth_iff)

section \<open>Strings (wosStringLibC.c)\<close>

text \<open>
  A \<open>WosString_t\<close> is the memory it points to, up to but without the terminating NUL the
  allocation ends with; the memory itself may hold an earlier NUL, and the library's string
  functions stop there.
\<close>

type_synonym wos_string = "bytes option"

definition wosStringLength :: "wos_string \<Rightarrow> nat" where
  "wosStringLength s = (case s of None \<Rightarrow> 0 | Some m \<Rightarrow> length (c_string m))"

definition WOS_IS_VALID_STRING :: "wos_string \<Rightarrow> bool" where
  "WOS_IS_VALID_STRING s \<longleftrightarrow> s \<noteq> None \<and> wosStringLength s \<noteq> 0"

fun strcmp :: "bytes \<Rightarrow> bytes \<Rightarrow> int" where
  "strcmp [] [] = 0"
| "strcmp [] (y # ys) = - 1"
| "strcmp (x # xs) [] = 1"
| "strcmp (x # xs) (y # ys) = (if x < y then - 1 else if y < x then 1 else strcmp xs ys)"

definition wosStringComparison :: "wos_string \<Rightarrow> wos_string \<Rightarrow> int" where
  "wosStringComparison a b = (case (a, b) of
     (None, _) \<Rightarrow> - 1
   | (_, None) \<Rightarrow> 1
   | (Some x, Some y) \<Rightarrow> strcmp (c_string x) (c_string y))"

definition wosStringConcatenate ::
    "wos_string \<Rightarrow> wos_string \<Rightarrow> ('p, 'z) world_scheme \<Rightarrow> wos_string \<times> ('p, 'z) world_scheme" where
  "wosStringConcatenate a b w =
     (if \<not> WOS_IS_VALID_STRING a \<or> \<not> WOS_IS_VALID_STRING b then (None, w)
      else case wosMemAlloc (wosStringLength a + wosStringLength b + 1) w of
        (None, w') \<Rightarrow> (None, w')
      | (Some _, w') \<Rightarrow> (Some (c_string (the a) @ c_string (the b)), w'))"

lemma strcmp_eq_0 [simp]: "strcmp x y = 0 \<longleftrightarrow> x = y"
  by (induction x y rule: strcmp.induct) auto

lemma strcmp_antisym: "strcmp x y = - strcmp y x"
  by (induction x y rule: strcmp.induct) auto

lemma wosStringComparison_eq_0:
  "wosStringComparison a b = 0 \<longleftrightarrow> (\<exists>x y. a = Some x \<and> b = Some y \<and> c_string x = c_string y)"
  by (cases a; cases b) (auto simp: wosStringComparison_def)

lemma valid_string_Some [simp]: "WOS_IS_VALID_STRING (Some m) \<longleftrightarrow> c_string m \<noteq> []"
  by (simp add: WOS_IS_VALID_STRING_def wosStringLength_def)

lemma valid_string_None [simp]: "\<not> WOS_IS_VALID_STRING None"
  by (simp add: WOS_IS_VALID_STRING_def)

lemma valid_string_iff: "WOS_IS_VALID_STRING s \<longleftrightarrow> (\<exists>m. s = Some m \<and> c_string m \<noteq> [])"
  by (cases s) auto

end
