(* ===== verification/CborApi.thy ===== *)
theory CborApi
  imports WosBase
begin

text \<open>
  The interface of tinycbor, the CBOR library the message code is written against. Its code is
  not part of the repository, so it is a parameter: a record of the calls the code makes, over
  an encoder type \<open>'e\<close> and an iterator type \<open>'v\<close>. An error is a non-zero \<open>CborError\<close>.

  \<open>cbor_law\<close> states what the code relies on (RFC 7049 sizes, and that an array that was
  written is read back item by item): given room for the items, the encoder succeeds and
  writes two container bytes plus the size of every item; and the iterators walk over the
  written bytes item by item.
\<close>

record ('e, 'v) cbor_api =
  cbor_encoder_init :: "nat \<Rightarrow> 'e"
  cbor_encoder_create_array :: "'e \<Rightarrow> nat + ('e \<times> 'e)"
  cbor_encode_uint :: "'e \<Rightarrow> 64 word \<Rightarrow> nat + 'e"
  cbor_encode_byte_string :: "'e \<Rightarrow> bytes \<Rightarrow> nat + 'e"
  cbor_encode_text_stringz :: "'e \<Rightarrow> bytes \<Rightarrow> nat + 'e"
  cbor_encoder_close_container_checked :: "'e \<Rightarrow> 'e \<Rightarrow> nat + 'e"
  cbor_encoder_get_buffer :: "'e \<Rightarrow> bytes"
  cbor_parser_init :: "bytes \<Rightarrow> nat + 'v"
  cbor_value_is_array :: "'v \<Rightarrow> bool"
  cbor_value_enter_container :: "'v \<Rightarrow> nat + 'v"
  cbor_value_is_unsigned_integer :: "'v \<Rightarrow> bool"
  cbor_value_get_uint64 :: "'v \<Rightarrow> nat + 64 word"
  cbor_value_is_byte_string :: "'v \<Rightarrow> bool"
  cbor_value_dup_byte_string :: "'v \<Rightarrow> nat + (bytes \<times> 'v)"
  cbor_value_is_text_string :: "'v \<Rightarrow> bool"
  cbor_value_dup_text_string :: "'v \<Rightarrow> nat + (bytes \<times> byte \<times> 'v)"
  cbor_value_copy_text_string :: "'v \<Rightarrow> nat \<Rightarrow> nat + bytes"
  cbor_value_advance :: "'v \<Rightarrow> nat + 'v"
  cbor_value_advance_fixed :: "'v \<Rightarrow> nat + 'v"

section \<open>Items, and an array of items\<close>

datatype cbor_item = CUint "64 word" | CBytes bytes | CText bytes

text \<open>The bytes an unsigned head of value \<open>n\<close> takes (RFC 7049, section 2.1).\<close>

definition head_length :: "nat \<Rightarrow> nat" where
  "head_length n = (if n \<le> 23 then 1 else if n \<le> 255 then 2 else if n \<le> 65535 then 3
     else if n \<le> 4294967295 then 5 else 9)"

fun item_length :: "cbor_item \<Rightarrow> nat" where
  "item_length (CUint n) = head_length (unat n)"
| "item_length (CBytes b) = head_length (length b) + length b"
| "item_length (CText t) = head_length (length t) + length t"

text \<open>Text is passed as a C string, so it has no NUL of its own; lengths fit in 32 bits.\<close>

fun item_ok :: "cbor_item \<Rightarrow> bool" where
  "item_ok (CUint n) = True"
| "item_ok (CBytes b) = (length b < 2 ^ 32)"
| "item_ok (CText t) = (length t < 2 ^ 32 \<and> 0 \<notin> set t)"

definition array_length :: "cbor_item list \<Rightarrow> nat" where
  "array_length xs = 2 + sum_list (map item_length xs)"

fun encode_item :: "('e, 'v) cbor_api \<Rightarrow> 'e \<Rightarrow> cbor_item \<Rightarrow> nat + 'e" where
  "encode_item C e (CUint n) = cbor_encode_uint C e n"
| "encode_item C e (CBytes b) = cbor_encode_byte_string C e b"
| "encode_item C e (CText t) = cbor_encode_text_stringz C e t"

fun encode_items :: "('e, 'v) cbor_api \<Rightarrow> 'e \<Rightarrow> cbor_item list \<Rightarrow> nat + 'e" where
  "encode_items C e [] = Inr e"
| "encode_items C e (x # xs) =
     (case encode_item C e x of Inl err \<Rightarrow> Inl err | Inr e' \<Rightarrow> encode_items C e' xs)"

definition encode_array :: "('e, 'v) cbor_api \<Rightarrow> nat \<Rightarrow> cbor_item list \<Rightarrow> nat + bytes" where
  "encode_array C cap xs =
     (case cbor_encoder_create_array C (cbor_encoder_init C cap) of
        Inl err \<Rightarrow> Inl err
      | Inr (enc, arr) \<Rightarrow>
          (case encode_items C arr xs of
             Inl err \<Rightarrow> Inl err
           | Inr arr' \<Rightarrow>
               (case cbor_encoder_close_container_checked C enc arr' of
                  Inl err \<Rightarrow> Inl err
                | Inr enc' \<Rightarrow> Inr (cbor_encoder_get_buffer C enc'))))"

fun walks :: "('e, 'v) cbor_api \<Rightarrow> 'v \<Rightarrow> cbor_item list \<Rightarrow> bool" where
  "walks C v [] = True"
| "walks C v (CUint n # xs) =
     (cbor_value_is_unsigned_integer C v \<and> cbor_value_get_uint64 C v = Inr n \<and>
      (\<exists>v'. cbor_value_advance C v = Inr v' \<and> cbor_value_advance_fixed C v = Inr v' \<and>
            walks C v' xs))"
| "walks C v (CBytes b # xs) =
     (cbor_value_is_byte_string C v \<and>
      (\<exists>v'. cbor_value_dup_byte_string C v = Inr (b, v') \<and> cbor_value_advance C v = Inr v' \<and>
            walks C v' xs))"
| "walks C v (CText t # xs) =
     (cbor_value_is_text_string C v \<and>
      (\<forall>cap. length t < cap \<longrightarrow> cbor_value_copy_text_string C v cap = Inr t) \<and>
      (\<exists>v'. cbor_value_dup_text_string C v = Inr (t, 0, v') \<and> cbor_value_advance C v = Inr v' \<and>
            walks C v' xs))"

definition decodes :: "('e, 'v) cbor_api \<Rightarrow> bytes \<Rightarrow> cbor_item list \<Rightarrow> bool" where
  "decodes C bs xs \<longleftrightarrow>
     (\<exists>v a. cbor_parser_init C bs = Inr v \<and> cbor_value_is_array C v \<and>
            cbor_value_enter_container C v = Inr a \<and> walks C a xs)"

definition cbor_law :: "('e, 'v) cbor_api \<Rightarrow> bool" where
  "cbor_law C \<longleftrightarrow>
     (\<forall>cap xs. list_all item_ok xs \<longrightarrow> array_length xs \<le> cap \<longrightarrow>
        (\<exists>bs. encode_array C cap xs = Inr bs \<and> length bs = array_length xs \<and> decodes C bs xs))"

lemma cbor_lawE:
  assumes "cbor_law C" and "list_all item_ok xs" and "array_length xs \<le> cap"
  obtains bs where "encode_array C cap xs = Inr bs" and "length bs = array_length xs"
    and "decodes C bs xs" and "bs \<noteq> []"
proof -
  from assms obtain bs where *: "encode_array C cap xs = Inr bs" "length bs = array_length xs"
    "decodes C bs xs"
    unfolding cbor_law_def by blast
  then have "bs \<noteq> []" by (auto simp: array_length_def)
  with * show thesis using that by blast
qed

lemma head_length_pos [simp]: "0 < head_length n"
  by (simp add: head_length_def)

lemma head_length_le: "n < 2 ^ 32 \<Longrightarrow> head_length n \<le> 5"
  by (simp add: head_length_def)

text \<open>An error of the library is a generic message error for the code.\<close>

datatype msg_error =
    WOS_MSG_ERROR
  | WOS_MSG_ERROR_BAD_PARAMS
  | WOS_MSG_ERROR_OUT_OF_MEMORY
  | WOS_MSG_ERROR_BAD_MESSAGE
  | WOS_MSG_ERROR_BAD_FORMAT

definition cbor_try :: "nat + 'a \<Rightarrow> (msg_error, 'a) res" where
  "cbor_try r = (case r of Inl _ \<Rightarrow> Inl (Code WOS_MSG_ERROR) | Inr x \<Rightarrow> Inr x)"

lemma cbor_try_Inr [simp]: "cbor_try (Inr x) = Inr x"
  by (simp add: cbor_try_def)

lemma cbor_try_Inl [simp]: "cbor_try (Inl e) = Inl (Code WOS_MSG_ERROR)"
  by (simp add: cbor_try_def)

end
