(* ===== verification/MsgCborUtils.thy ===== *)
theory MsgCborUtils
  imports CborApi
begin

text \<open>
  \<open>WeeveCommon/src/msg/cbor/msgCborUtils.c\<close>: reading one item from an iterator, and the size
  of an encoded unsigned integer.
\<close>

definition msgCborParseUint64 ::
    "('e, 'v) cbor_api \<Rightarrow> 'v option \<Rightarrow> (msg_error, 64 word) res" where
  "msgCborParseUint64 C pCborValue = (case pCborValue of
     None \<Rightarrow> Inl (Code WOS_MSG_ERROR_BAD_PARAMS)
   | Some v \<Rightarrow>
       if \<not> cbor_value_is_unsigned_integer C v then Inl (Code WOS_MSG_ERROR_BAD_FORMAT)
       else cbor_try (cbor_value_get_uint64 C v))"

text \<open>The first allocation is the \<open>WosBuffer_t\<close> itself (16 bytes on a 64-bit target).\<close>

definition msgCborParseByteString ::
    "('e, 'v) cbor_api \<Rightarrow> 'v option \<Rightarrow> (('p, 'z) world_scheme, msg_error, wos_buffer \<times> 'v) comp"
    where
  "msgCborParseByteString C pCborValue = (case pCborValue of
     None \<Rightarrow> fail (Code WOS_MSG_ERROR_BAD_PARAMS)
   | Some v \<Rightarrow>
       bindE (alloc 16 (Code WOS_MSG_ERROR_OUT_OF_MEMORY)) (\<lambda>_.
       bindE (ensure (cbor_value_is_byte_string C v) (Code WOS_MSG_ERROR_BAD_FORMAT)) (\<lambda>_.
       bindE (pure_res (cbor_try (cbor_value_dup_byte_string C v))) (\<lambda>(bs, next_v).
       ok (Some bs, next_v)))))"

definition msgCborParseTextString ::
    "('e, 'v) cbor_api \<Rightarrow> 'v option \<Rightarrow> (msg_error, wos_string \<times> 'v) res" where
  "msgCborParseTextString C pCborValue = (case pCborValue of
     None \<Rightarrow> Inl (Code WOS_MSG_ERROR_BAD_PARAMS)
   | Some v \<Rightarrow>
       if \<not> cbor_value_is_text_string C v then Inl (Code WOS_MSG_ERROR_BAD_FORMAT)
       else bindR (cbor_try (cbor_value_dup_text_string C v)) (\<lambda>(t, terminator, next_v).
              if terminator \<noteq> 0 then Inl (Code WOS_MSG_ERROR_BAD_FORMAT)
              else Inr (Some t, next_v)))"

definition msgCborCalcLengthUInt :: "64 word \<Rightarrow> 32 word" where
  "msgCborCalcLengthUInt value =
     (if value \<le> 23 then 1
      else if value \<le> 255 then 2
      else if value \<le> 65535 then 3
      else if value \<le> 4294967295 then 5
      else 9)"

lemma msgCborCalcLengthUInt_eq: "unat (msgCborCalcLengthUInt v) = head_length (unat v)"
  by (simp add: msgCborCalcLengthUInt_def head_length_def word_le_nat_alt)

text \<open>On iterators over an encoded array each routine returns the item and the next position.\<close>

lemma parse_uint_walks:
  "walks C v (CUint n # xs) \<Longrightarrow> msgCborParseUint64 C (Some v) = Inr n"
  by (simp add: msgCborParseUint64_def)

lemma parse_text_walks:
  "walks C v (CText t # xs) \<Longrightarrow>
   \<exists>v'. msgCborParseTextString C (Some v) = Inr (Some t, v') \<and> cbor_value_advance C v = Inr v' \<and>
        walks C v' xs"
  by (auto simp: msgCborParseTextString_def bindR_def)

lemma parse_bytesE:
  assumes "walks C v (CBytes b # xs)" and "calm w"
  obtains v' where "msgCborParseByteString C (Some v) w = (Inr (Some b, v'), w)"
    and "cbor_value_advance C v = Inr v'" and "walks C v' xs"
  using assms by (auto simp: msgCborParseByteString_def comp_defs)

end
