(* ===== verification/CborCert.thy ===== *)
theory CborCert
  imports MsgCborUtils
begin

text \<open>
  \<open>WeeveCommon/src/msg/cbor/wosCborCert.c\<close>: the weeve certificate, a container (version,
  encoded to-be-signed part, signature) around a to-be-signed part (version, signature
  algorithm, issuer, subject, key algorithm, public key). Out-parameters are the results, so
  the tests for a NULL out-pointer have no branch.
\<close>

record cert_tbs =
  tbs_version :: "32 word"
  signatureAlgorithm :: byte
  issuerId :: wos_string
  subjectId :: wos_string
  subjectPubKeyInfo :: byte
  pSubjectPubKey :: wos_buffer

record cert_container =
  cont_version :: "32 word"
  pEncodedTbs :: wos_buffer
  pSignature :: wos_buffer

section \<open>Sizes\<close>

definition u32_of_nat :: "nat \<Rightarrow> 32 word" where "u32_of_nat n = word_of_nat n"

definition wosCborCalcCertificateTbs :: "cert_tbs option \<Rightarrow> (msg_error, 32 word) res" where
  "wosCborCalcCertificateTbs pCertTbs = (case pCertTbs of
     None \<Rightarrow> Inl (Code WOS_MSG_ERROR_BAD_PARAMS)
   | Some t \<Rightarrow>
       if \<not> WOS_IS_VALID_STRING (issuerId t) \<or> \<not> WOS_IS_VALID_STRING (subjectId t) \<or>
          \<not> WOS_IS_VALID_BUFFER (pSubjectPubKey t)
       then Inl (Code WOS_MSG_ERROR_BAD_PARAMS)
       else
         (let l0 = 0 + 1;
              l1 = l0 + msgCborCalcLengthUInt (ucast (tbs_version t));
              l2 = l1 + msgCborCalcLengthUInt (ucast (signatureAlgorithm t));
              aux1 = u32_of_nat (wosStringLength (issuerId t));
              l3 = l2 + (msgCborCalcLengthUInt (ucast aux1) + aux1);
              aux2 = u32_of_nat (wosStringLength (subjectId t));
              l4 = l3 + (msgCborCalcLengthUInt (ucast aux2) + aux2);
              l5 = l4 + msgCborCalcLengthUInt (ucast (subjectPubKeyInfo t));
              klen = u32_of_nat (length (the (pSubjectPubKey t)));
              l6 = l5 + (msgCborCalcLengthUInt (ucast klen) + klen)
          in Inr (l6 + 1)))"

definition wosCborCalcCertificateContainer :: "cert_container option \<Rightarrow> (msg_error, 32 word) res" where
  "wosCborCalcCertificateContainer pContainer = (case pContainer of
     None \<Rightarrow> Inl (Code WOS_MSG_ERROR_BAD_PARAMS)
   | Some c \<Rightarrow>
       if \<not> WOS_IS_VALID_BUFFER (pEncodedTbs c) \<or> \<not> WOS_IS_VALID_BUFFER (pSignature c)
       then Inl (Code WOS_MSG_ERROR_BAD_PARAMS)
       else
         (let l0 = 0 + 1;
              l1 = l0 + msgCborCalcLengthUInt (ucast (cont_version c));
              tlen = u32_of_nat (length (the (pEncodedTbs c)));
              l2 = l1 + (msgCborCalcLengthUInt (ucast tlen) + tlen);
              slen = u32_of_nat (length (the (pSignature c)));
              l3 = l2 + (msgCborCalcLengthUInt (ucast slen) + slen)
          in Inr (l3 + 1)))"

section \<open>Packing\<close>

definition wosCborPackCertificateTbs ::
    "('e, 'v) cbor_api \<Rightarrow> cert_tbs option \<Rightarrow> nat option \<Rightarrow> (msg_error, bytes) res" where
  "wosCborPackCertificateTbs C pCertTbs pPackedBuffer = (case pCertTbs of
     None \<Rightarrow> Inl (Code WOS_MSG_ERROR_BAD_PARAMS)
   | Some t \<Rightarrow>
       bindR (ensureR (WOS_IS_VALID_STRING (issuerId t) \<and> WOS_IS_VALID_STRING (subjectId t) \<and>
                       WOS_IS_VALID_BUFFER (pSubjectPubKey t) \<and>
                       (case pPackedBuffer of None \<Rightarrow> False | Some cap \<Rightarrow> cap \<noteq> 0))
                (Code WOS_MSG_ERROR_BAD_PARAMS)) (\<lambda>_.
       bindR (cbor_try (cbor_encoder_create_array C (cbor_encoder_init C (the pPackedBuffer))))
         (\<lambda>(encoder, arr0).
       bindR (cbor_try (cbor_encode_uint C arr0 (ucast (tbs_version t)))) (\<lambda>arr1.
       bindR (cbor_try (cbor_encode_uint C arr1 (ucast (signatureAlgorithm t)))) (\<lambda>arr2.
       bindR (cbor_try (cbor_encode_text_stringz C arr2 (c_string (the (issuerId t))))) (\<lambda>arr3.
       bindR (cbor_try (cbor_encode_text_stringz C arr3 (c_string (the (subjectId t))))) (\<lambda>arr4.
       bindR (cbor_try (cbor_encode_uint C arr4 (ucast (subjectPubKeyInfo t)))) (\<lambda>arr5.
       bindR (cbor_try (cbor_encode_byte_string C arr5 (the (pSubjectPubKey t)))) (\<lambda>arr6.
       bindR (cbor_try (cbor_encoder_close_container_checked C encoder arr6)) (\<lambda>encoder'.
       Inr (cbor_encoder_get_buffer C encoder')))))))))))"

definition wosCborPackCertificateContainer ::
    "('e, 'v) cbor_api \<Rightarrow> cert_container option \<Rightarrow> nat option \<Rightarrow> (msg_error, bytes) res" where
  "wosCborPackCertificateContainer C pCert pPackedBuffer = (case pCert of
     None \<Rightarrow> Inl (Code WOS_MSG_ERROR_BAD_PARAMS)
   | Some c \<Rightarrow>
       bindR (ensureR (WOS_IS_VALID_BUFFER (pEncodedTbs c) \<and> WOS_IS_VALID_BUFFER (pSignature c) \<and>
                       (case pPackedBuffer of None \<Rightarrow> False | Some cap \<Rightarrow> cap \<noteq> 0))
                (Code WOS_MSG_ERROR_BAD_PARAMS)) (\<lambda>_.
       bindR (cbor_try (cbor_encoder_create_array C (cbor_encoder_init C (the pPackedBuffer))))
         (\<lambda>(encoder, arr0).
       bindR (cbor_try (cbor_encode_uint C arr0 (ucast (cont_version c)))) (\<lambda>arr1.
       bindR (cbor_try (cbor_encode_byte_string C arr1 (the (pEncodedTbs c)))) (\<lambda>arr2.
       bindR (cbor_try (cbor_encode_byte_string C arr2 (the (pSignature c)))) (\<lambda>arr3.
       bindR (cbor_try (cbor_encoder_close_container_checked C encoder arr3)) (\<lambda>encoder'.
       Inr (cbor_encoder_get_buffer C encoder'))))))))"

section \<open>Unpacking\<close>

text \<open>Every error of an item is reported as the generic message error.\<close>

definition wosCborUnpackCertificateTbs ::
    "('e, 'v) cbor_api \<Rightarrow> wos_buffer \<Rightarrow> (('p, 'z) world_scheme, msg_error, cert_tbs) comp" where
  "wosCborUnpackCertificateTbs C pPackedBuffer =
     bindE (ensure (WOS_IS_VALID_BUFFER pPackedBuffer) (Code WOS_MSG_ERROR_BAD_PARAMS)) (\<lambda>_.
     bindE (pure_res (cbor_try (cbor_parser_init C (the pPackedBuffer)))) (\<lambda>it0.
     bindE (ensure (cbor_value_is_array C it0) (Code WOS_MSG_ERROR_BAD_FORMAT)) (\<lambda>_.
     bindE (pure_res (cbor_try (cbor_value_enter_container C it0))) (\<lambda>it1.
     bindE (on_error (as_code WOS_MSG_ERROR) (pure_res (msgCborParseUint64 C (Some it1)))) (\<lambda>version.
     bindE (pure_res (cbor_try (cbor_value_advance_fixed C it1))) (\<lambda>it2.
     bindE (on_error (as_code WOS_MSG_ERROR) (pure_res (msgCborParseUint64 C (Some it2)))) (\<lambda>alg.
     bindE (pure_res (cbor_try (cbor_value_advance_fixed C it2))) (\<lambda>it3.
     bindE (on_error (as_code WOS_MSG_ERROR) (pure_res (msgCborParseTextString C (Some it3))))
       (\<lambda>(issuer, it4).
     bindE (on_error (as_code WOS_MSG_ERROR) (pure_res (msgCborParseTextString C (Some it4))))
       (\<lambda>(subject, it5).
     bindE (on_error (as_code WOS_MSG_ERROR) (pure_res (msgCborParseUint64 C (Some it5)))) (\<lambda>info.
     bindE (pure_res (cbor_try (cbor_value_advance_fixed C it5))) (\<lambda>it6.
     bindE (on_error (as_code WOS_MSG_ERROR) (msgCborParseByteString C (Some it6))) (\<lambda>(key, _).
     ok \<lparr>tbs_version = ucast (ucast version :: byte), signatureAlgorithm = ucast alg,
         issuerId = issuer, subjectId = subject, subjectPubKeyInfo = ucast info,
         pSubjectPubKey = key\<rparr>)))))))))))))"

definition wosCborUnpackCertificateContainer ::
    "('e, 'v) cbor_api \<Rightarrow> wos_buffer \<Rightarrow> (('p, 'z) world_scheme, msg_error, cert_container) comp" where
  "wosCborUnpackCertificateContainer C pPackedBuffer =
     bindE (ensure (WOS_IS_VALID_BUFFER pPackedBuffer) (Code WOS_MSG_ERROR_BAD_PARAMS)) (\<lambda>_.
     bindE (pure_res (cbor_try (cbor_parser_init C (the pPackedBuffer)))) (\<lambda>it0.
     bindE (ensure (cbor_value_is_array C it0) (Code WOS_MSG_ERROR_BAD_FORMAT)) (\<lambda>_.
     bindE (pure_res (cbor_try (cbor_value_enter_container C it0))) (\<lambda>it1.
     bindE (on_error (as_code WOS_MSG_ERROR) (pure_res (msgCborParseUint64 C (Some it1)))) (\<lambda>version.
     bindE (pure_res (cbor_try (cbor_value_advance_fixed C it1))) (\<lambda>it2.
     bindE (on_error (as_code WOS_MSG_ERROR) (msgCborParseByteString C (Some it2))) (\<lambda>(tbs, it3).
     bindE (on_error (as_code WOS_MSG_ERROR) (msgCborParseByteString C (Some it3))) (\<lambda>(sig, _).
     ok \<lparr>cont_version = ucast (ucast version :: byte), pEncodedTbs = tbs, pSignature = sig\<rparr>))))))))"

section \<open>Layout, exact sizes and round trips\<close>

definition tbs_items :: "cert_tbs \<Rightarrow> cbor_item list" where
  "tbs_items t =
     [CUint (ucast (tbs_version t)), CUint (ucast (signatureAlgorithm t)),
      CText (c_string (the (issuerId t))), CText (c_string (the (subjectId t))),
      CUint (ucast (subjectPubKeyInfo t)), CBytes (the (pSubjectPubKey t))]"

definition container_items :: "cert_container \<Rightarrow> cbor_item list" where
  "container_items c =
     [CUint (ucast (cont_version c)), CBytes (the (pEncodedTbs c)), CBytes (the (pSignature c))]"

definition tbs_valid :: "cert_tbs \<Rightarrow> bool" where
  "tbs_valid t \<longleftrightarrow> WOS_IS_VALID_STRING (issuerId t) \<and> WOS_IS_VALID_STRING (subjectId t) \<and>
     WOS_IS_VALID_BUFFER (pSubjectPubKey t)"

definition container_valid :: "cert_container \<Rightarrow> bool" where
  "container_valid c \<longleftrightarrow> WOS_IS_VALID_BUFFER (pEncodedTbs c) \<and> WOS_IS_VALID_BUFFER (pSignature c)"

lemma pack_tbs_encodes:
  "tbs_valid t \<Longrightarrow> cap \<noteq> 0 \<Longrightarrow>
   wosCborPackCertificateTbs C (Some t) (Some cap) = cbor_try (encode_array C cap (tbs_items t))"
  by (simp add: tbs_valid_def wosCborPackCertificateTbs_def encode_array_def tbs_items_def comp_defs
      split: sum.splits prod.splits)

lemma pack_container_encodes:
  "container_valid c \<Longrightarrow> cap \<noteq> 0 \<Longrightarrow>
   wosCborPackCertificateContainer C (Some c) (Some cap)
     = cbor_try (encode_array C cap (container_items c))"
  by (simp add: container_valid_def wosCborPackCertificateContainer_def encode_array_def
      container_items_def comp_defs split: sum.splits prod.splits)

lemma unat_u32_of_nat: "n < 2 ^ 32 \<Longrightarrow> unat (u32_of_nat n) = n"
  by (simp add: u32_of_nat_def unsigned_of_nat take_bit_nat_eq_self)

text \<open>A sum of 32-bit words is the sum of their values when that fits.\<close>

lemma unat_sum_list_fits:
  "sum_list (map unat ws) < 2 ^ 32 \<Longrightarrow> unat (sum_list ws :: 32 word) = sum_list (map unat ws)"
proof (induction ws)
  case Nil
  then show ?case by simp
next
  case (Cons x ws)
  then show ?case by (simp add: unat_add_lem [THEN iffD1])
qed

lemma calc_tbs_exact:
  assumes "tbs_valid t" and fits: "array_length (tbs_items t) < 2 ^ 32"
  shows "\<exists>l. wosCborCalcCertificateTbs (Some t) = Inr l \<and> unat l = array_length (tbs_items t)"
proof -
  obtain i s k where b: "issuerId t = Some i" "subjectId t = Some s" "pSubjectPubKey t = Some k"
    using assms(1) by (auto simp: tbs_valid_def valid_buffer_iff valid_string_iff)
  define ws :: "32 word list" where "ws = [1, msgCborCalcLengthUInt (ucast (tbs_version t)),
    msgCborCalcLengthUInt (ucast (signatureAlgorithm t)),
    msgCborCalcLengthUInt (ucast (u32_of_nat (length (c_string i)))), u32_of_nat (length (c_string i)),
    msgCborCalcLengthUInt (ucast (u32_of_nat (length (c_string s)))), u32_of_nat (length (c_string s)),
    msgCborCalcLengthUInt (ucast (subjectPubKeyInfo t)),
    msgCborCalcLengthUInt (ucast (u32_of_nat (length k))), u32_of_nat (length k), 1]"
  have small: "length (c_string i) < 2 ^ 32" "length (c_string s) < 2 ^ 32" "length k < 2 ^ 32"
    using fits b by (simp_all add: array_length_def tbs_items_def)
  have "wosCborCalcCertificateTbs (Some t) = Inr (sum_list ws)"
    using assms(1) b
    by (simp add: wosCborCalcCertificateTbs_def tbs_valid_def ws_def wosStringLength_def Let_def
        add.assoc)
  moreover have sum: "sum_list (map unat ws) = array_length (tbs_items t)"
    using small b
    by (simp add: ws_def msgCborCalcLengthUInt_eq unat_u32_of_nat array_length_def tbs_items_def)
  moreover have "unat (sum_list ws) = sum_list (map unat ws)"
    using fits sum by (intro unat_sum_list_fits) simp
  ultimately show ?thesis by auto
qed

lemma calc_container_exact:
  assumes "container_valid c" and fits: "array_length (container_items c) < 2 ^ 32"
  shows "\<exists>l. wosCborCalcCertificateContainer (Some c) = Inr l \<and>
             unat l = array_length (container_items c)"
proof -
  obtain a s where b: "pEncodedTbs c = Some a" "pSignature c = Some s"
    using assms(1) by (auto simp: container_valid_def valid_buffer_iff)
  define ws :: "32 word list" where "ws = [1, msgCborCalcLengthUInt (ucast (cont_version c)),
    msgCborCalcLengthUInt (ucast (u32_of_nat (length a))), u32_of_nat (length a),
    msgCborCalcLengthUInt (ucast (u32_of_nat (length s))), u32_of_nat (length s), 1]"
  have small: "length a < 2 ^ 32" "length s < 2 ^ 32"
    using fits b by (simp_all add: array_length_def container_items_def)
  have "wosCborCalcCertificateContainer (Some c) = Inr (sum_list ws)"
    using assms(1) b
    by (simp add: wosCborCalcCertificateContainer_def container_valid_def ws_def Let_def add.assoc)
  moreover have sum: "sum_list (map unat ws) = array_length (container_items c)"
    using small b
    by (simp add: ws_def msgCborCalcLengthUInt_eq unat_u32_of_nat array_length_def container_items_def)
  moreover have "unat (sum_list ws) = sum_list (map unat ws)"
    using fits sum by (intro unat_sum_list_fits) simp
  ultimately show ?thesis by auto
qed

lemma unpack_tbs_decodes:
  assumes "decodes C bs (tbs_items t)" and "bs \<noteq> []" and "calm w" and "tbs_valid t"
  shows "wosCborUnpackCertificateTbs C (Some bs) w
    = (Inr (t\<lparr>tbs_version := ucast (ucast (tbs_version t) :: byte),
              issuerId := Some (c_string (the (issuerId t))),
              subjectId := Some (c_string (the (subjectId t)))\<rparr>), w)"
proof -
  obtain k where k: "pSubjectPubKey t = Some k"
    using assms(4) by (auto simp: tbs_valid_def valid_buffer_iff)
  show ?thesis
    using assms(1-3) k
    by (cases t) (auto simp: wosCborUnpackCertificateTbs_def comp_defs decodes_def tbs_items_def
        msgCborParseByteString_def msgCborParseUint64_def msgCborParseTextString_def)
qed

lemma unpack_container_decodes:
  assumes "decodes C bs (container_items c)" and "bs \<noteq> []" and "calm w" and "container_valid c"
  shows "wosCborUnpackCertificateContainer C (Some bs) w
    = (Inr (c\<lparr>cont_version := ucast (ucast (cont_version c) :: byte)\<rparr>), w)"
proof -
  obtain a s where b: "pEncodedTbs c = Some a" "pSignature c = Some s"
    using assms(4) by (auto simp: container_valid_def valid_buffer_iff)
  show ?thesis
    using assms(1-3) b
    by (cases c) (auto simp: wosCborUnpackCertificateContainer_def comp_defs decodes_def
        container_items_def msgCborParseByteString_def msgCborParseUint64_def)
qed

end
