(* ===== verification/Storage.thy ===== *)
theory Storage
  imports WosBase
begin

text \<open>
  \<open>WeeveClientLibrary/src/wos/storage/wosStorageFile.c\<close>: the key-value storage over the files
  of the working directory, which is what the standard-C build uses. A key names a file; it may
  not hold control characters, bytes above 127, or path separators.

  The contract of a keyed storage is the locale \<open>keyed_storage\<close>, interpreted on these
  routines over the worlds in which no library call fails.
\<close>

datatype storage_error =
    WOS_STORAGE_ERROR
  | WOS_STORAGE_ERROR_BAD_PARAMS
  | WOS_STORAGE_ERROR_NOT_FOUND
  | WOS_STORAGE_ERROR_OUT_OF_MEMORY

definition lWosStorageIsKeyValid :: "wos_string \<Rightarrow> bool" where
  "lWosStorageIsKeyValid key \<longleftrightarrow>
     WOS_IS_VALID_STRING key \<and>
     list_all (\<lambda>c. \<not> (c < 31 \<or> 127 < c \<or> c = 47 \<or> c = 92)) (c_string (the key))"

definition wosStorageInitialize :: "(('p, 'z) world_scheme, storage_error, unit) comp" where
  "wosStorageInitialize = ok ()"

definition wosStorageTerminate :: "(('p, 'z) world_scheme, storage_error, unit) comp" where
  "wosStorageTerminate = ok ()"

text \<open>A library call that may fail: \<open>e\<close> is what the routine leaves with then.\<close>

definition libc_try :: "'e stop \<Rightarrow> (('p, 'z) world_scheme, 'e, unit) comp" where
  "libc_try e w = (case libc_call w of (True, w') \<Rightarrow> (Inr (), w') | (False, w') \<Rightarrow> (Inl e, w'))"

text \<open>
  \<open>fopen(key, "w")\<close> empties the file, \<open>fwrite\<close> fills it. A failing \<open>fwrite\<close> leaves only the
  first \<open>w_short\<close> bytes behind; so does a failing \<open>fclose\<close>, whose result the code ignores.
\<close>

definition put_file :: "bytes \<Rightarrow> bytes \<Rightarrow> ('p, 'z) world_scheme \<Rightarrow> ('p, 'z) world_scheme" where
  "put_file key bs w = w\<lparr>w_files := (w_files w)(key \<mapsto> bs)\<rparr>"

definition wosStorageWrite ::
    "wos_string \<Rightarrow> wos_buffer \<Rightarrow> (('p, 'z) world_scheme, storage_error, unit) comp" where
  "wosStorageWrite storageKey pBuffer =
     bindE (ensure (WOS_IS_VALID_STRING storageKey) (Code WOS_STORAGE_ERROR_BAD_PARAMS)) (\<lambda>_.
     bindE (ensure (WOS_IS_VALID_BUFFER pBuffer) (Code WOS_STORAGE_ERROR_BAD_PARAMS)) (\<lambda>_.
     bindE (ensure (lWosStorageIsKeyValid storageKey) (Code WOS_STORAGE_ERROR)) (\<lambda>_.
     bindE (libc_try (Code WOS_STORAGE_ERROR_NOT_FOUND)) (\<lambda>_.
     bindE (modify (put_file (c_string (the storageKey)) [])) (\<lambda>_.
     bindE (asks (\<lambda>w. take (w_short w) (the pBuffer))) (\<lambda>part.
     bindE (rescue (libc_try (Code WOS_STORAGE_ERROR))
              (\<lambda>e. bindE (modify (put_file (c_string (the storageKey)) part)) (\<lambda>_.
                   bindE (ignore (libc_try (Code ()))) (\<lambda>_. fail e)))) (\<lambda>_.
     bindE (modify (put_file (c_string (the storageKey)) (the pBuffer))) (\<lambda>_.
     rescue (libc_try (Code ()))
       (\<lambda>_. modify (put_file (c_string (the storageKey)) part))))))))))"

text \<open>
  \<open>fseek\<close> and \<open>ftell\<close> give the size, then the buffer and its data are allocated and \<open>fread\<close>
  fills it. Where the data cannot be allocated or read, the buffer is freed while the
  out-parameter still points to it; an empty file is such a case, because an allocation of no
  bytes fails. \<open>fclose\<close> ends every path behind a successful \<open>fopen\<close>.
\<close>

definition wosStorageRead ::
    "wos_string \<Rightarrow> (('p, 'z) world_scheme, storage_error, wos_buffer) comp" where
  "wosStorageRead storageKey =
     bindE (ensure (WOS_IS_VALID_STRING storageKey) (Code WOS_STORAGE_ERROR_BAD_PARAMS)) (\<lambda>_.
     bindE (ensure (lWosStorageIsKeyValid storageKey) (Code WOS_STORAGE_ERROR)) (\<lambda>_.
     bindE (libc_try (Code WOS_STORAGE_ERROR_NOT_FOUND)) (\<lambda>_.
     bindE (asks (\<lambda>w. w_files w (c_string (the storageKey)))) (\<lambda>file.
     bindE (ensure (file \<noteq> None) (Code WOS_STORAGE_ERROR_NOT_FOUND)) (\<lambda>_.
     bindE (rescue
        (bindE (libc_try (Code WOS_STORAGE_ERROR)) (\<lambda>_.
         bindE (libc_try (Code WOS_STORAGE_ERROR)) (\<lambda>_.
         bindE (alloc 16 (Code WOS_STORAGE_ERROR_OUT_OF_MEMORY)) (\<lambda>_.
         bindE (alloc (length (the file)) (Dangling WOS_STORAGE_ERROR_OUT_OF_MEMORY)) (\<lambda>_.
         libc_try (Dangling WOS_STORAGE_ERROR))))))
        (\<lambda>e. bindE (ignore (libc_try (Code ()))) (\<lambda>_. fail e))) (\<lambda>_.
     bindE (ignore (libc_try (Code ()))) (\<lambda>_.
     ok file)))))))"

definition wosStorageDelete ::
    "wos_string \<Rightarrow> (('p, 'z) world_scheme, storage_error, unit) comp" where
  "wosStorageDelete storageKey =
     bindE (ensure (WOS_IS_VALID_STRING storageKey) (Code WOS_STORAGE_ERROR_BAD_PARAMS)) (\<lambda>_.
     bindE (ensure (lWosStorageIsKeyValid storageKey) (Code WOS_STORAGE_ERROR)) (\<lambda>_.
     bindE (asks (\<lambda>w. w_files w (c_string (the storageKey)))) (\<lambda>file.
     bindE (ensure (file \<noteq> None) (Code WOS_STORAGE_ERROR_NOT_FOUND)) (\<lambda>_.
     bindE (libc_try (Code WOS_STORAGE_ERROR_NOT_FOUND)) (\<lambda>_.
     modify (\<lambda>w. w\<lparr>w_files := (w_files w)(c_string (the storageKey) := None)\<rparr>))))))"

section \<open>The contract of a keyed storage\<close>

text \<open>Operations on a keyed storage, and their meaning on a map.\<close>

datatype ('k, 'd) storage_op = Put 'k 'd | Drop 'k

fun apply_op :: "('k, 'd) storage_op \<Rightarrow> ('k \<rightharpoonup> 'd) \<Rightarrow> ('k \<rightharpoonup> 'd)" where
  "apply_op (Put k d) m = m(k \<mapsto> d)"
| "apply_op (Drop k) m = m(k := None)"

locale keyed_storage =
  fixes write_item :: "'k \<Rightarrow> 'd \<Rightarrow> 's \<Rightarrow> 's option"
    and read_item :: "'k \<Rightarrow> 's \<Rightarrow> 'd option"
    and delete_item :: "'k \<Rightarrow> 's \<Rightarrow> 's option"
    and good :: "'s \<Rightarrow> bool"
  assumes write_good: "good s \<Longrightarrow> write_item k d s = Some t \<Longrightarrow> good t"
    and read_written: "good s \<Longrightarrow> write_item k d s = Some t \<Longrightarrow> read_item k t = Some d"
    and write_frame: "good s \<Longrightarrow> write_item k d s = Some t \<Longrightarrow> k' \<noteq> k \<Longrightarrow> read_item k' t = read_item k' s"
    and delete_good: "good s \<Longrightarrow> delete_item k s = Some t \<Longrightarrow> good t"
    and read_deleted: "good s \<Longrightarrow> delete_item k s = Some t \<Longrightarrow> read_item k t = None"
    and delete_frame: "good s \<Longrightarrow> delete_item k s = Some t \<Longrightarrow> k' \<noteq> k \<Longrightarrow> read_item k' t = read_item k' s"
begin

text \<open>A sequence of operations that all succeed acts on the read items as on a map.\<close>

fun run_ops :: "('k, 'd) storage_op list \<Rightarrow> 's \<Rightarrow> 's option" where
  "run_ops [] s = Some s"
| "run_ops (Put k d # ops) s =
     (case write_item k d s of None \<Rightarrow> None | Some t \<Rightarrow> run_ops ops t)"
| "run_ops (Drop k # ops) s =
     (case delete_item k s of None \<Rightarrow> None | Some t \<Rightarrow> run_ops ops t)"

lemma write_refines:
  "good s \<Longrightarrow> write_item k d s = Some t \<Longrightarrow>
   good t \<and> (\<lambda>j. read_item j t) = apply_op (Put k d) (\<lambda>j. read_item j s)"
  using write_good read_written write_frame by fastforce

lemma delete_refines:
  "good s \<Longrightarrow> delete_item k s = Some t \<Longrightarrow>
   good t \<and> (\<lambda>j. read_item j t) = apply_op (Drop k) (\<lambda>j. read_item j s)"
  using delete_good read_deleted delete_frame by fastforce

lemma run_ops_refines:
  "good s \<Longrightarrow> run_ops ops s = Some t \<Longrightarrow>
   good t \<and> (\<lambda>j. read_item j t) = fold apply_op ops (\<lambda>j. read_item j s)"
proof (induction ops arbitrary: s)
  case Nil
  then show ?case by simp
next
  case (Cons opn ops)
  show ?case
  proof (cases opn)
    case (Put k d)
    then obtain u where u: "write_item k d s = Some u" "run_ops ops u = Some t"
      using Cons.prems(2) by (auto split: option.splits)
    note wr = write_refines [OF Cons.prems(1) u(1)]
    then show ?thesis using Cons.IH [of u] u(2) Put by simp
  next
    case (Drop k)
    then obtain u where u: "delete_item k s = Some u" "run_ops ops u = Some t"
      using Cons.prems(2) by (auto split: option.splits)
    note dr = delete_refines [OF Cons.prems(1) u(1)]
    then show ?thesis using Cons.IH [of u] u(2) Drop by simp
  qed
qed

lemma overwrite:
  "good s \<Longrightarrow> write_item k d s = Some t \<Longrightarrow> write_item k d' t = Some u \<Longrightarrow> read_item k u = Some d'"
  using read_written write_good by blast

lemma delete_undoes_write:
  "good s \<Longrightarrow> write_item k d s = Some t \<Longrightarrow> delete_item k t = Some u \<Longrightarrow>
   read_item k u = None \<and> (\<forall>k'. k' \<noteq> k \<longrightarrow> read_item k' u = read_item k' s)"
  using read_deleted delete_frame write_frame write_good by metis

end

section \<open>The file storage meets it\<close>

lemma calm_libc_try [simp]: "calm w \<Longrightarrow> libc_try e w = (Inr (), w)"
  by (simp add: libc_try_def)

lemma calm_put_file [simp]: "calm (put_file k b w) = calm w"
  by (simp add: put_file_def)

lemma files_put_file [simp]: "w_files (put_file k b w) = (w_files w)(k \<mapsto> b)"
  by (simp add: put_file_def)

lemma put_file_put_file [simp]: "put_file k b (put_file k a w) = put_file k b w"
  by (simp add: put_file_def)

lemma key_valid_string: "lWosStorageIsKeyValid key \<Longrightarrow> WOS_IS_VALID_STRING key"
  by (simp add: lWosStorageIsKeyValid_def)

lemma write_calm:
  "calm w \<Longrightarrow> lWosStorageIsKeyValid key \<Longrightarrow> b \<noteq> [] \<Longrightarrow>
   wosStorageWrite key (Some b) w = (Inr (), put_file (c_string (the key)) b w)"
  by (simp add: wosStorageWrite_def comp_defs key_valid_string)

lemma read_calm:
  "calm w \<Longrightarrow> lWosStorageIsKeyValid key \<Longrightarrow>
   wosStorageRead key w
     = (case w_files w (c_string (the key)) of
          None \<Rightarrow> (Inl (Code WOS_STORAGE_ERROR_NOT_FOUND), w)
        | Some b \<Rightarrow> (if b = [] then Inl (Dangling WOS_STORAGE_ERROR_OUT_OF_MEMORY) else Inr (Some b), w))"
  by (auto simp: wosStorageRead_def comp_defs key_valid_string alloc_def split: option.splits)

lemma delete_calm:
  "calm w \<Longrightarrow> lWosStorageIsKeyValid key \<Longrightarrow>
   wosStorageDelete key w
     = (if w_files w (c_string (the key)) = None then (Inl (Code WOS_STORAGE_ERROR_NOT_FOUND), w)
        else (Inr (), w\<lparr>w_files := (w_files w)(c_string (the key) := None)\<rparr>))"
  by (simp add: wosStorageDelete_def comp_defs key_valid_string)

text \<open>The storage as seen by a caller that looks at success only. Keys are C strings.\<close>

definition on_success :: "(('s, 'e, 'a) comp) \<Rightarrow> 's \<Rightarrow> 's option" where
  "on_success m w = (case m w of (Inr _, w') \<Rightarrow> Some w' | (Inl _, _) \<Rightarrow> None)"

definition stored :: "bytes \<Rightarrow> ('p, 'z) world_scheme \<Rightarrow> bytes option" where
  "stored key w = (if 0 \<in> set key then None else case fst (wosStorageRead (Some key) w) of Inr b \<Rightarrow> b | Inl _ \<Rightarrow> None)"

definition file_write :: "bytes \<Rightarrow> bytes \<Rightarrow> ('p, 'z) world_scheme \<Rightarrow> ('p, 'z) world_scheme option" where
  "file_write key b = (if 0 \<in> set key then (\<lambda>_. None) else on_success (wosStorageWrite (Some key) (Some b)))"

definition file_delete :: "bytes \<Rightarrow> ('p, 'z) world_scheme \<Rightarrow> ('p, 'z) world_scheme option" where
  "file_delete key = (if 0 \<in> set key then (\<lambda>_. None) else on_success (wosStorageDelete (Some key)))"

lemma c_string_no_NUL: "0 \<notin> set k \<Longrightarrow> c_string k = k"
  by (auto simp: c_string_def takeWhile_eq_all_conv)


lemma file_write_eq:
  assumes "calm w" and "file_write key b w = Some t"
  shows "t = put_file key b w" and "lWosStorageIsKeyValid (Some key)" and "b \<noteq> []" and "0 \<notin> set key"
proof -
  have nul: "0 \<notin> set key" using assms(2) by (auto simp: file_write_def split: if_splits)
  have succ: "\<exists>u. wosStorageWrite (Some key) (Some b) w = (Inr (), u) \<and> t = u"
    using assms(2) nul by (auto simp: file_write_def on_success_def split: prod.splits sum.splits)
  then show valid: "lWosStorageIsKeyValid (Some key)" and "b \<noteq> []" and "0 \<notin> set key"
    using nul by (auto simp: wosStorageWrite_def comp_defs split: if_splits)
  then show "t = put_file key b w"
    using succ write_calm [OF assms(1) valid] by (simp add: c_string_no_NUL)
qed

lemma file_delete_eq:
  assumes "calm w" and "file_delete key w = Some t"
  shows "t = w\<lparr>w_files := (w_files w)(key := None)\<rparr>" and "lWosStorageIsKeyValid (Some key)"
    and "0 \<notin> set key"
proof -
  show nul: "0 \<notin> set key" using assms(2) by (auto simp: file_delete_def split: if_splits)
  have succ: "\<exists>u. wosStorageDelete (Some key) w = (Inr (), u) \<and> t = u"
    using assms(2) nul by (auto simp: file_delete_def on_success_def split: prod.splits sum.splits)
  then show valid: "lWosStorageIsKeyValid (Some key)"
    by (auto simp: wosStorageDelete_def comp_defs split: if_splits)
  then show "t = w\<lparr>w_files := (w_files w)(key := None)\<rparr>"
    using succ delete_calm [OF assms(1) valid] nul by (auto simp: c_string_no_NUL split: if_splits)
qed

text \<open>What is stored depends on the file of the key only.\<close>

lemma stored_eq:
  assumes "calm w"
  shows "stored key w = (if 0 \<notin> set key \<and> lWosStorageIsKeyValid (Some key) \<and> w_files w key \<noteq> Some []
           then w_files w key else None)"
proof (cases "0 \<notin> set key \<and> lWosStorageIsKeyValid (Some key)")
  case True
  then show ?thesis
    using read_calm [OF assms, of "Some key"]
    by (auto simp: stored_def c_string_no_NUL split: option.splits)
next
  case False
  then show ?thesis
    by (auto simp: stored_def wosStorageRead_def comp_defs split: prod.splits)
qed

interpretation fs: keyed_storage file_write stored file_delete calm
proof unfold_locales
  fix s t :: "('p, 'z) world_scheme" and k k' d
  assume good: "calm s"
  show "calm t" and "stored k t = Some d" and "k' \<noteq> k \<Longrightarrow> stored k' t = stored k' s"
    if w: "file_write k d s = Some t"
    using file_write_eq [OF good w] good by (simp_all add: stored_eq)
  show "calm t" and "stored k t = None" and "k' \<noteq> k \<Longrightarrow> stored k' t = stored k' s"
    if d: "file_delete k s = Some t"
    using file_delete_eq [OF good d] good by (simp_all add: stored_eq)
qed

end
