(* ===== verification/Crypto.thy ===== *)
theory Crypto
  imports Storage
begin

text \<open>
  \<open>WeeveClientLibrary/src/wos/crypto/wosCryptoLibtom.c\<close>: keys, signatures, authenticated
  encryption, key agreement and random bytes over libtomcrypt. libtomcrypt is not part of the
  repository; the calls the code makes are the fields of \<open>tom_api\<close>, over a key type \<open>'k\<close> and a
  generator state \<open>'p\<close> (the global \<open>fortunaPrngState\<close> is \<open>w_prng\<close> of the world). A result
  \<open>Inl e\<close> is an error code other than \<open>CRYPT_OK\<close>; a call that writes a buffer is told how much
  room it has. Freeing and wiping of temporary keys has no effect on a result.
\<close>

record ('k, 'p) tom_api =
  register_hash :: int
  register_cipher :: int
  register_prng :: int
  find_hash :: int
  find_cipher :: int
  find_prng :: int
  rng_make_prng :: "nat \<Rightarrow> int \<Rightarrow> 'p \<Rightarrow> nat + 'p"
  fortuna_done :: "'p \<Rightarrow> nat + 'p"
  fortuna_ready :: "'p \<Rightarrow> nat + 'p"
  fortuna_read :: "nat \<Rightarrow> 'p \<Rightarrow> bytes \<times> 'p"
  hash_memory :: "int \<Rightarrow> bytes \<Rightarrow> nat \<Rightarrow> nat + bytes"
  ecc_make_key :: "'p \<Rightarrow> int \<Rightarrow> nat \<Rightarrow> (nat + 'k) \<times> 'p"
  ecc_export_private :: "'k \<Rightarrow> nat \<Rightarrow> nat + bytes"
  ecc_ansi_x963_export :: "'k \<Rightarrow> nat \<Rightarrow> nat + bytes"
  ecc_ansi_x963_import :: "bytes \<Rightarrow> nat + 'k"
  ecc_import :: "bytes \<Rightarrow> nat + 'k"
  ecc_sign_hash_rfc7518 :: "bytes \<Rightarrow> nat \<Rightarrow> 'p \<Rightarrow> int \<Rightarrow> 'k \<Rightarrow> (nat + bytes) \<times> 'p"
  ecc_verify_hash_rfc7518 :: "bytes \<Rightarrow> bytes \<Rightarrow> 'k \<Rightarrow> nat + bool"
  ecc_shared_secret :: "'k \<Rightarrow> 'k \<Rightarrow> nat \<Rightarrow> nat + bytes"
  gcm_encrypt :: "int \<Rightarrow> bytes \<Rightarrow> bytes \<Rightarrow> bytes \<Rightarrow> bytes \<Rightarrow> nat \<Rightarrow> nat + (bytes \<times> bytes)"
  gcm_decrypt :: "int \<Rightarrow> bytes \<Rightarrow> bytes \<Rightarrow> bytes \<Rightarrow> bytes \<Rightarrow> nat \<Rightarrow> nat + (bytes \<times> bytes)"

datatype crypto_error =
    WOS_CRYPTO_ERROR
  | WOS_CRYPTO_ERROR_BAD_PARAMS
  | WOS_CRYPTO_ERROR_STORAGE
  | WOS_CRYPTO_ERROR_OUT_OF_MEMORY

text \<open>The two return codes of a verification that was carried out.\<close>

datatype signature_check = WOS_CRYPTO_SIGNATURE_MATCH | WOS_CRYPTO_SIGNATURE_ERROR

definition WOS_CRYPTO_PRNG_INITIAL_ENTROPY :: nat where "WOS_CRYPTO_PRNG_INITIAL_ENTROPY = 128"
definition WOS_CRYPTO_ECC_NIST_P256_KEY_LENGTH :: nat where
  "WOS_CRYPTO_ECC_NIST_P256_KEY_LENGTH = 256"
definition WOS_CRYPTO_ECC_NIST_P256_SIGNATURE_LENGTH :: nat where
  "WOS_CRYPTO_ECC_NIST_P256_SIGNATURE_LENGTH = 64"
definition WOS_CRYPTO_ECC_NIST_P256_PUBLIC_KEY_LENGTH :: nat where
  "WOS_CRYPTO_ECC_NIST_P256_PUBLIC_KEY_LENGTH = 65"
definition WOS_CRYPTO_ECC_NIST_P256_SHARED_SECRET_LENGTH :: nat where
  "WOS_CRYPTO_ECC_NIST_P256_SHARED_SECRET_LENGTH = 32"
definition WOS_CRYPTO_HASH_SHA256_LENGTH :: nat where "WOS_CRYPTO_HASH_SHA256_LENGTH = 32"
definition WOS_CRYPTO_AE_AES256_KEY_LENGTH :: nat where "WOS_CRYPTO_AE_AES256_KEY_LENGTH = 32"
definition WOS_CRYPTO_AE_AES_BLOCK_LENGTH :: nat where "WOS_CRYPTO_AE_AES_BLOCK_LENGTH = 16"
definition WOS_CRYPTO_AE_AES_GCM_IV_LENGTH :: nat where "WOS_CRYPTO_AE_AES_GCM_IV_LENGTH = 12"

lemmas crypto_lengths = WOS_CRYPTO_ECC_NIST_P256_KEY_LENGTH_def
  WOS_CRYPTO_ECC_NIST_P256_SIGNATURE_LENGTH_def WOS_CRYPTO_ECC_NIST_P256_PUBLIC_KEY_LENGTH_def
  WOS_CRYPTO_ECC_NIST_P256_SHARED_SECRET_LENGTH_def WOS_CRYPTO_HASH_SHA256_LENGTH_def
  WOS_CRYPTO_AE_AES256_KEY_LENGTH_def WOS_CRYPTO_AE_AES_BLOCK_LENGTH_def
  WOS_CRYPTO_AE_AES_GCM_IV_LENGTH_def

text \<open>A call of the library: its error becomes \<open>e\<close>. With or without the generator.\<close>

definition tom_try :: "crypto_error stop \<Rightarrow> nat + 'a \<Rightarrow> (crypto_error, 'a) res" where
  "tom_try e r = (case r of Inl _ \<Rightarrow> Inl e | Inr x \<Rightarrow> Inr x)"

definition with_prng ::
    "crypto_error stop \<Rightarrow> ('p \<Rightarrow> (nat + 'a) \<times> 'p) \<Rightarrow> (('p, 'z) world_scheme, crypto_error, 'a) comp" where
  "with_prng e f w = (case f (w_prng w) of (r, p') \<Rightarrow> (tom_try e r, w\<lparr>w_prng := p'\<rparr>))"

section \<open>Start and end\<close>

text \<open>Registering the hash and the cipher is tested for a negative result only.\<close>

definition wosCryptoInitialize ::
    "('k, 'p) tom_api \<Rightarrow> (('p, 'z) world_scheme, crypto_error, unit) comp" where
  "wosCryptoInitialize T =
     bindE (ensure (\<not> register_hash T < 0) (Code WOS_CRYPTO_ERROR)) (\<lambda>_.
     bindE (ensure (\<not> register_cipher T < 0) (Code WOS_CRYPTO_ERROR)) (\<lambda>_.
     bindE (ensure (\<not> register_prng T < 0) (Code WOS_CRYPTO_ERROR)) (\<lambda>_.
     bindE (asks w_prng) (\<lambda>p.
     bindE (pure_res (tom_try (Code WOS_CRYPTO_ERROR)
              (rng_make_prng T WOS_CRYPTO_PRNG_INITIAL_ENTROPY (find_prng T) p))) (\<lambda>p'.
     modify (\<lambda>w. w\<lparr>w_prng := p'\<rparr>))))))"

definition wosCryptoTerminate ::
    "('k, 'p) tom_api \<Rightarrow> (('p, 'z) world_scheme, crypto_error, unit) comp" where
  "wosCryptoTerminate T =
     bindE (asks w_prng) (\<lambda>p.
     bindE (pure_res (tom_try (Code WOS_CRYPTO_ERROR) (fortuna_done T p))) (\<lambda>p'.
     modify (\<lambda>w. w\<lparr>w_prng := p'\<rparr>)))"

section \<open>Random bytes\<close>

text \<open>The buffer to fill is given by its length; a NULL one is \<open>None\<close>.\<close>

definition wosCryptoGetRandomBytes ::
    "('k, 'p) tom_api \<Rightarrow> nat option \<Rightarrow> (('p, 'z) world_scheme, crypto_error, bytes) comp" where
  "wosCryptoGetRandomBytes T pBuffer =
     bindE (ensure (case pBuffer of None \<Rightarrow> False | Some n \<Rightarrow> n \<noteq> 0)
              (Code WOS_CRYPTO_ERROR_BAD_PARAMS)) (\<lambda>_.
     bindE (asks w_prng) (\<lambda>p.
     bindE (pure_res (tom_try (Code WOS_CRYPTO_ERROR) (fortuna_ready T p))) (\<lambda>p'.
     bindE (modify (\<lambda>w. w\<lparr>w_prng := snd (fortuna_read T (the pBuffer) p')\<rparr>)) (\<lambda>_.
     bindE (ensure (length (fst (fortuna_read T (the pBuffer) p')) = the pBuffer)
              (Code WOS_CRYPTO_ERROR)) (\<lambda>_.
     ok (fst (fortuna_read T (the pBuffer) p')))))))"

section \<open>Hash, key import, signatures\<close>

definition lWosCryptoEccImportKey ::
    "('k, 'p) tom_api \<Rightarrow> wos_buffer \<Rightarrow> (('p, 'z) world_scheme, crypto_error, 'k) comp" where
  "lWosCryptoEccImportKey T pKeyBuf =
     bindE (ensure (WOS_IS_VALID_BUFFER pKeyBuf) (Code WOS_CRYPTO_ERROR_BAD_PARAMS)) (\<lambda>_.
     pure_res (tom_try (Code WOS_CRYPTO_ERROR)
       (if length (the pKeyBuf) = WOS_CRYPTO_ECC_NIST_P256_PUBLIC_KEY_LENGTH
        then ecc_ansi_x963_import T (the pKeyBuf)
        else ecc_import T (the pKeyBuf))))"

definition lWosCryptoHash ::
    "('k, 'p) tom_api \<Rightarrow> wos_buffer \<Rightarrow> (('p, 'z) world_scheme, crypto_error, bytes) comp" where
  "lWosCryptoHash T pData =
     bindE (ensure (WOS_IS_VALID_BUFFER pData) (Code WOS_CRYPTO_ERROR_BAD_PARAMS)) (\<lambda>_.
     bindE (alloc 16 (Code WOS_CRYPTO_ERROR_OUT_OF_MEMORY)) (\<lambda>_.
     bindE (alloc WOS_CRYPTO_HASH_SHA256_LENGTH (Dangling WOS_CRYPTO_ERROR_OUT_OF_MEMORY)) (\<lambda>_.
     bindE (ensure (\<not> find_hash T < 0) (Dangling WOS_CRYPTO_ERROR)) (\<lambda>_.
     pure_res (tom_try (Dangling WOS_CRYPTO_ERROR)
       (hash_memory T (find_hash T) (the pData) WOS_CRYPTO_HASH_SHA256_LENGTH))))))"

definition lWosCryptoEccSign ::
    "('k, 'p) tom_api \<Rightarrow> wos_buffer \<Rightarrow> 'k \<Rightarrow> (('p, 'z) world_scheme, crypto_error, wos_buffer) comp" where
  "lWosCryptoEccSign T pHash tomEccKey =
     bindE (ensure (WOS_IS_VALID_BUFFER pHash) (Code WOS_CRYPTO_ERROR_BAD_PARAMS)) (\<lambda>_.
     bindE (alloc 16 (Code WOS_CRYPTO_ERROR_OUT_OF_MEMORY)) (\<lambda>_.
     bindE (alloc WOS_CRYPTO_ECC_NIST_P256_SIGNATURE_LENGTH
              (Dangling WOS_CRYPTO_ERROR_OUT_OF_MEMORY)) (\<lambda>_.
     bindE (ensure (\<not> find_prng T < 0) (Code WOS_CRYPTO_ERROR)) (\<lambda>_.
     bindE (with_prng (Dangling WOS_CRYPTO_ERROR)
              (\<lambda>p. ecc_sign_hash_rfc7518 T (the pHash) WOS_CRYPTO_ECC_NIST_P256_SIGNATURE_LENGTH p
                     (find_prng T) tomEccKey)) (\<lambda>sig.
     ok (Some sig))))))"

text \<open>
  What signing and verifying share: check the arguments, hash the data, read the key from the
  storage, import it; then \<open>use_key\<close>. The hash and the key buffer are local, so what their
  routines leave dangling is not looked at.
\<close>

definition lWosCryptoEccSignVerify ::
    "('k, 'p) tom_api \<Rightarrow> bool \<Rightarrow> wos_string \<Rightarrow> wos_buffer \<Rightarrow>
     (bytes \<Rightarrow> 'k \<Rightarrow> (('p, 'z) world_scheme, crypto_error, 'a) comp) \<Rightarrow>
     (('p, 'z) world_scheme, crypto_error, 'a) comp" where
  "lWosCryptoEccSignVerify T signature_ok keyStorageId pData use_key =
     bindE (ensure (WOS_IS_VALID_STRING keyStorageId) (Code WOS_CRYPTO_ERROR_BAD_PARAMS)) (\<lambda>_.
     bindE (ensure (WOS_IS_VALID_BUFFER pData \<and> signature_ok) (Code WOS_CRYPTO_ERROR_BAD_PARAMS)) (\<lambda>_.
     bindE (on_error settle (lWosCryptoHash T pData)) (\<lambda>hash.
     bindE (on_error (as_code WOS_CRYPTO_ERROR_STORAGE) (wosStorageRead keyStorageId)) (\<lambda>keyBuf.
     bindE (lWosCryptoEccImportKey T keyBuf) (\<lambda>key.
     use_key hash key)))))"

definition check_signature ::
    "('k, 'p) tom_api \<Rightarrow> bytes \<Rightarrow> bytes \<Rightarrow> 'k \<Rightarrow> (crypto_error, signature_check) res" where
  "check_signature T sig hash key =
     bindR (tom_try (Code WOS_CRYPTO_ERROR) (ecc_verify_hash_rfc7518 T sig hash key)) (\<lambda>valid.
     Inr (if valid then WOS_CRYPTO_SIGNATURE_MATCH else WOS_CRYPTO_SIGNATURE_ERROR))"

definition wosCryptoEccSign ::
    "('k, 'p) tom_api \<Rightarrow> wos_string \<Rightarrow> wos_buffer \<Rightarrow> (('p, 'z) world_scheme, crypto_error, wos_buffer) comp"
    where
  "wosCryptoEccSign T keyStorageId pData =
     lWosCryptoEccSignVerify T True keyStorageId pData (\<lambda>hash key. lWosCryptoEccSign T (Some hash) key)"

definition wosCryptoEccVerify ::
    "('k, 'p) tom_api \<Rightarrow> wos_string \<Rightarrow> wos_buffer \<Rightarrow> wos_buffer \<Rightarrow>
     (('p, 'z) world_scheme, crypto_error, signature_check) comp" where
  "wosCryptoEccVerify T keyStorageId pData pSignature =
     lWosCryptoEccSignVerify T (WOS_IS_VALID_BUFFER pSignature) keyStorageId pData
       (\<lambda>hash key. pure_res (check_signature T (the pSignature) hash key))"

definition wosCryptoEccSignKeyBuffer ::
    "('k, 'p) tom_api \<Rightarrow> wos_buffer \<Rightarrow> wos_buffer \<Rightarrow> (('p, 'z) world_scheme, crypto_error, wos_buffer) comp"
    where
  "wosCryptoEccSignKeyBuffer T pKeyBuf pData =
     bindE (ensure (WOS_IS_VALID_BUFFER pKeyBuf \<and> WOS_IS_VALID_BUFFER pData)
              (Code WOS_CRYPTO_ERROR_BAD_PARAMS)) (\<lambda>_.
     bindE (on_error settle (lWosCryptoHash T pData)) (\<lambda>hash.
     bindE (lWosCryptoEccImportKey T pKeyBuf) (\<lambda>key.
     lWosCryptoEccSign T (Some hash) key)))"

definition wosCryptoEccVerifyKeyBuffer ::
    "('k, 'p) tom_api \<Rightarrow> wos_buffer \<Rightarrow> wos_buffer \<Rightarrow> wos_buffer \<Rightarrow>
     (('p, 'z) world_scheme, crypto_error, signature_check) comp" where
  "wosCryptoEccVerifyKeyBuffer T pKeyBuf pData pSignature =
     bindE (ensure (WOS_IS_VALID_BUFFER pKeyBuf \<and> WOS_IS_VALID_BUFFER pData \<and>
                    WOS_IS_VALID_BUFFER pSignature) (Code WOS_CRYPTO_ERROR_BAD_PARAMS)) (\<lambda>_.
     bindE (on_error settle (lWosCryptoHash T pData)) (\<lambda>hash.
     bindE (lWosCryptoEccImportKey T pKeyBuf) (\<lambda>key.
     pure_res (check_signature T (the pSignature) hash key))))"

section \<open>Keys\<close>

definition wosCryptoEccGenerateKey ::
    "('k, 'p) tom_api \<Rightarrow> wos_string \<Rightarrow> wos_string \<Rightarrow> (('p, 'z) world_scheme, crypto_error, unit) comp"
    where
  "wosCryptoEccGenerateKey T privateKeyStorageId publicKeyStorageId =
     bindE (ensure (WOS_IS_VALID_STRING privateKeyStorageId \<and> WOS_IS_VALID_STRING publicKeyStorageId)
              (Code WOS_CRYPTO_ERROR_BAD_PARAMS)) (\<lambda>_.
     bindE (ensure (\<not> find_prng T < 0) (Code WOS_CRYPTO_ERROR)) (\<lambda>_.
     bindE (with_prng (Code WOS_CRYPTO_ERROR) (\<lambda>p. ecc_make_key T p (find_prng T) 32)) (\<lambda>pair.
     bindE (alloc 16 (Code WOS_CRYPTO_ERROR_OUT_OF_MEMORY)) (\<lambda>_.
     bindE (alloc WOS_CRYPTO_ECC_NIST_P256_KEY_LENGTH (Code WOS_CRYPTO_ERROR_OUT_OF_MEMORY)) (\<lambda>_.
     bindE (pure_res (tom_try (Code WOS_CRYPTO_ERROR)
              (ecc_export_private T pair WOS_CRYPTO_ECC_NIST_P256_KEY_LENGTH))) (\<lambda>privateKey.
     bindE (alloc 16 (Code WOS_CRYPTO_ERROR_OUT_OF_MEMORY)) (\<lambda>_.
     bindE (alloc WOS_CRYPTO_ECC_NIST_P256_KEY_LENGTH (Code WOS_CRYPTO_ERROR_OUT_OF_MEMORY)) (\<lambda>_.
     bindE (pure_res (tom_try (Code WOS_CRYPTO_ERROR)
              (ecc_ansi_x963_export T pair WOS_CRYPTO_ECC_NIST_P256_KEY_LENGTH))) (\<lambda>publicKey.
     bindE (on_error (as_code WOS_CRYPTO_ERROR_STORAGE)
              (wosStorageWrite privateKeyStorageId (Some privateKey))) (\<lambda>_.
     on_error (as_code WOS_CRYPTO_ERROR_STORAGE)
       (wosStorageWrite publicKeyStorageId (Some publicKey))))))))))))"

text \<open>The out-parameter is handed on to the storage, which may leave it dangling.\<close>

fun relay :: "'f \<Rightarrow> 'e stop \<Rightarrow> 'f stop" where
  "relay c Fault = Fault"
| "relay c (Code e) = Code c"
| "relay c (Dangling e) = Dangling c"

definition wosCryptoEccReadPubKey ::
    "wos_string \<Rightarrow> (('p, 'z) world_scheme, crypto_error, wos_buffer) comp" where
  "wosCryptoEccReadPubKey publicKeyStorageId =
     bindE (ensure (WOS_IS_VALID_STRING publicKeyStorageId) (Code WOS_CRYPTO_ERROR_BAD_PARAMS)) (\<lambda>_.
     on_error (relay WOS_CRYPTO_ERROR_STORAGE) (wosStorageRead publicKeyStorageId))"

definition wosCryptoDeriveSymKey ::
    "('k, 'p) tom_api \<Rightarrow> wos_buffer \<Rightarrow> wos_string \<Rightarrow> wos_string \<Rightarrow>
     (('p, 'z) world_scheme, crypto_error, unit) comp" where
  "wosCryptoDeriveSymKey T pPublicKey privateKeyStorageId symmetricKeyStorageId =
     bindE (ensure (WOS_IS_VALID_BUFFER pPublicKey \<and> WOS_IS_VALID_STRING privateKeyStorageId \<and>
                    WOS_IS_VALID_STRING symmetricKeyStorageId) (Code WOS_CRYPTO_ERROR_BAD_PARAMS)) (\<lambda>_.
     bindE (on_error (as_code WOS_CRYPTO_ERROR_STORAGE) (wosStorageRead privateKeyStorageId))
       (\<lambda>privateKey.
     bindE (pure_res (tom_try (Code WOS_CRYPTO_ERROR) (ecc_import T (the privateKey)))) (\<lambda>own.
     bindE (pure_res (tom_try (Code WOS_CRYPTO_ERROR)
              (ecc_ansi_x963_import T (the pPublicKey)))) (\<lambda>other.
     bindE (alloc 16 (Code WOS_CRYPTO_ERROR_OUT_OF_MEMORY)) (\<lambda>_.
     bindE (alloc WOS_CRYPTO_ECC_NIST_P256_SHARED_SECRET_LENGTH
              (Code WOS_CRYPTO_ERROR_OUT_OF_MEMORY)) (\<lambda>_.
     bindE (pure_res (tom_try (Code WOS_CRYPTO_ERROR)
              (ecc_shared_secret T own other WOS_CRYPTO_ECC_NIST_P256_SHARED_SECRET_LENGTH))) (\<lambda>secret.
     on_error (as_code WOS_CRYPTO_ERROR_STORAGE)
       (wosStorageWrite symmetricKeyStorageId (Some secret)))))))))"

section \<open>Authenticated encryption (AES-256-GCM)\<close>

text \<open>
  A NULL plain text or additional data counts as empty. The callers of this program never pass a
  buffer whose data is NULL but whose length is not 0, so that test has no branch here. Once the
  cipher-text buffer exists, every error frees the buffers made so far and leaves the three
  out-parameters pointing to them.
\<close>

definition wosCryptoAeEncrypt ::
    "('k, 'p) tom_api \<Rightarrow> wos_string \<Rightarrow> wos_buffer \<Rightarrow> wos_buffer \<Rightarrow> wos_buffer \<Rightarrow>
     (('p, 'z) world_scheme, crypto_error, wos_buffer \<times> wos_buffer \<times> wos_buffer) comp" where
  "wosCryptoAeEncrypt T symKeyStorageId pPlainText pAad pIv =
     (let plain = (case pPlainText of None \<Rightarrow> [] | Some b \<Rightarrow> b);
          aad = (case pAad of None \<Rightarrow> [] | Some b \<Rightarrow> b)
      in
     bindE (ensure (WOS_IS_VALID_STRING symKeyStorageId) (Code WOS_CRYPTO_ERROR_BAD_PARAMS)) (\<lambda>_.
     bindE (on_error (as_code WOS_CRYPTO_ERROR_STORAGE) (wosStorageRead symKeyStorageId)) (\<lambda>key.
     bindE (ensure (length (the key) = WOS_CRYPTO_AE_AES256_KEY_LENGTH)
              (Code WOS_CRYPTO_ERROR_STORAGE)) (\<lambda>_.
     bindE (alloc 16 (Code WOS_CRYPTO_ERROR_OUT_OF_MEMORY)) (\<lambda>_.
     bindE (if length plain \<noteq> 0
            then bindE (alloc (length plain) (Dangling WOS_CRYPTO_ERROR_OUT_OF_MEMORY)) (\<lambda>_. ok ())
            else ok ()) (\<lambda>_.
     bindE (case pIv of
              Some iv \<Rightarrow> ok iv
            | None \<Rightarrow>
                bindE (alloc 16 (Dangling WOS_CRYPTO_ERROR_OUT_OF_MEMORY)) (\<lambda>_.
                bindE (alloc WOS_CRYPTO_AE_AES_GCM_IV_LENGTH
                         (Dangling WOS_CRYPTO_ERROR_OUT_OF_MEMORY)) (\<lambda>_.
                on_error (\<lambda>e. case e of Code c \<Rightarrow> Dangling c | _ \<Rightarrow> e)
                  (wosCryptoGetRandomBytes T (Some WOS_CRYPTO_AE_AES_GCM_IV_LENGTH))))) (\<lambda>iv.
     bindE (alloc 16 (Dangling WOS_CRYPTO_ERROR_OUT_OF_MEMORY)) (\<lambda>_.
     bindE (alloc WOS_CRYPTO_AE_AES_BLOCK_LENGTH (Dangling WOS_CRYPTO_ERROR_OUT_OF_MEMORY)) (\<lambda>_.
     bindE (ensure (\<not> find_cipher T < 0) (Dangling WOS_CRYPTO_ERROR)) (\<lambda>_.
     bindE (pure_res (tom_try (Dangling WOS_CRYPTO_ERROR)
              (gcm_encrypt T (find_cipher T) (the key) iv aad plain
                 WOS_CRYPTO_AE_AES_BLOCK_LENGTH))) (\<lambda>(cipherText, tag).
     ok (Some iv, Some cipherText, Some tag))))))))))))"

text \<open>
  The library of that version does not compare the tags; the code does, in constant time. The
  plain text is handed out only when they agree.
\<close>

definition wosCryptoAeDecrypt ::
    "('k, 'p) tom_api \<Rightarrow> wos_string \<Rightarrow> wos_buffer \<Rightarrow> wos_buffer \<Rightarrow> wos_buffer \<Rightarrow> wos_buffer \<Rightarrow>
     (('p, 'z) world_scheme, crypto_error, wos_buffer) comp" where
  "wosCryptoAeDecrypt T symKeyStorageId pCipherText pAad pIv pTag =
     (let ciphertext = (case pCipherText of None \<Rightarrow> [] | Some b \<Rightarrow> b);
          aad = (case pAad of None \<Rightarrow> [] | Some b \<Rightarrow> b)
      in
     bindE (ensure (WOS_IS_VALID_STRING symKeyStorageId \<and> WOS_IS_VALID_BUFFER pIv \<and>
                    WOS_IS_VALID_BUFFER pTag) (Code WOS_CRYPTO_ERROR_BAD_PARAMS)) (\<lambda>_.
     bindE (on_error (as_code WOS_CRYPTO_ERROR_STORAGE) (wosStorageRead symKeyStorageId)) (\<lambda>key.
     bindE (ensure (length (the key) = WOS_CRYPTO_AE_AES256_KEY_LENGTH)
              (Code WOS_CRYPTO_ERROR_STORAGE)) (\<lambda>_.
     bindE (alloc 16 (Code WOS_CRYPTO_ERROR_OUT_OF_MEMORY)) (\<lambda>_.
     bindE (if length ciphertext \<noteq> 0
            then bindE (alloc (length ciphertext) (Dangling WOS_CRYPTO_ERROR_OUT_OF_MEMORY)) (\<lambda>_. ok ())
            else ok ()) (\<lambda>_.
     bindE (ensure (\<not> find_cipher T < 0) (Dangling WOS_CRYPTO_ERROR)) (\<lambda>_.
     bindE (pure_res (tom_try (Dangling WOS_CRYPTO_ERROR)
              (gcm_decrypt T (find_cipher T) (the key) (the pIv) aad ciphertext
                 WOS_CRYPTO_AE_AES_BLOCK_LENGTH))) (\<lambda>(plain, tag).
     bindE (ensure (length tag = length (the pTag)) (Dangling WOS_CRYPTO_ERROR)) (\<lambda>_.
     bindE (pure_res (wosMemComparisonConstTime pTag (Some tag) (length tag))) (\<lambda>compareTags.
     bindE (ensure (compareTags = 0) (Dangling WOS_CRYPTO_ERROR)) (\<lambda>_.
     ok (Some plain))))))))))))"

section \<open>What the code relies on in libtomcrypt\<close>

text \<open>
  The algorithms are registered and the generator delivers; SHA-256 gives 32 bytes; a generated
  key pair can be exported and imported again, its two halves sign and verify, and the shared
  secret of two pairs is the same on both sides; GCM decryption undoes encryption and computes
  the same tag.
\<close>

definition lookup_law :: "('k, 'p) tom_api \<Rightarrow> bool" where
  "lookup_law T \<longleftrightarrow> 0 \<le> find_hash T \<and> 0 \<le> find_cipher T \<and> 0 \<le> find_prng T"

definition prng_law :: "('k, 'p) tom_api \<Rightarrow> bool" where
  "prng_law T \<longleftrightarrow> (\<forall>p. \<exists>p'. fortuna_ready T p = Inr p') \<and> (\<forall>n p. length (fst (fortuna_read T n p)) = n)"

definition hash_law :: "('k, 'p) tom_api \<Rightarrow> bool" where
  "hash_law T \<longleftrightarrow>
     (\<forall>b. \<exists>h. hash_memory T (find_hash T) b WOS_CRYPTO_HASH_SHA256_LENGTH = Inr h \<and>
              length h = WOS_CRYPTO_HASH_SHA256_LENGTH)"

definition gcm_law :: "('k, 'p) tom_api \<Rightarrow> bool" where
  "gcm_law T \<longleftrightarrow>
     (\<forall>key iv aad plain. length key = WOS_CRYPTO_AE_AES256_KEY_LENGTH \<longrightarrow> iv \<noteq> [] \<longrightarrow>
        (\<exists>c tag. gcm_encrypt T (find_cipher T) key iv aad plain WOS_CRYPTO_AE_AES_BLOCK_LENGTH = Inr (c, tag) \<and>
           length c = length plain \<and> length tag = WOS_CRYPTO_AE_AES_BLOCK_LENGTH \<and>
           gcm_decrypt T (find_cipher T) key iv aad c WOS_CRYPTO_AE_AES_BLOCK_LENGTH = Inr (plain, tag)))"

text \<open>\<open>key_pair T k priv pub\<close>: the pair \<open>k\<close> is exported as \<open>priv\<close> and \<open>pub\<close>.\<close>

definition key_pair :: "('k, 'p) tom_api \<Rightarrow> 'k \<Rightarrow> bytes \<Rightarrow> bytes \<Rightarrow> bool" where
  "key_pair T k priv pub \<longleftrightarrow>
     ecc_export_private T k WOS_CRYPTO_ECC_NIST_P256_KEY_LENGTH = Inr priv \<and>
     ecc_ansi_x963_export T k WOS_CRYPTO_ECC_NIST_P256_KEY_LENGTH = Inr pub \<and>
     priv \<noteq> [] \<and> length priv \<noteq> WOS_CRYPTO_ECC_NIST_P256_PUBLIC_KEY_LENGTH \<and>
     length pub = WOS_CRYPTO_ECC_NIST_P256_PUBLIC_KEY_LENGTH"

definition make_key_law :: "('k, 'p) tom_api \<Rightarrow> bool" where
  "make_key_law T \<longleftrightarrow>
     (\<forall>p. \<exists>k p' priv pub. ecc_make_key T p (find_prng T) 32 = (Inr k, p') \<and> key_pair T k priv pub)"

definition ecdh_law :: "('k, 'p) tom_api \<Rightarrow> bool" where
  "ecdh_law T \<longleftrightarrow>
     (\<forall>k1 priv1 pub1 k2 priv2 pub2. key_pair T k1 priv1 pub1 \<longrightarrow> key_pair T k2 priv2 pub2 \<longrightarrow>
        (\<exists>s1 s2 q1 q2 secret.
           ecc_import T priv1 = Inr s1 \<and> ecc_import T priv2 = Inr s2 \<and>
           ecc_ansi_x963_import T pub1 = Inr q1 \<and> ecc_ansi_x963_import T pub2 = Inr q2 \<and>
           ecc_shared_secret T s1 q2 WOS_CRYPTO_ECC_NIST_P256_SHARED_SECRET_LENGTH = Inr secret \<and>
           ecc_shared_secret T s2 q1 WOS_CRYPTO_ECC_NIST_P256_SHARED_SECRET_LENGTH = Inr secret \<and>
           length secret = WOS_CRYPTO_ECC_NIST_P256_SHARED_SECRET_LENGTH))"

definition sign_law :: "('k, 'p) tom_api \<Rightarrow> bool" where
  "sign_law T \<longleftrightarrow>
     (\<forall>k priv pub h p. key_pair T k priv pub \<longrightarrow>
        (\<exists>s q sig p'. ecc_import T priv = Inr s \<and> ecc_ansi_x963_import T pub = Inr q \<and>
           ecc_sign_hash_rfc7518 T h WOS_CRYPTO_ECC_NIST_P256_SIGNATURE_LENGTH p (find_prng T) s
             = (Inr sig, p') \<and>
           length sig = WOS_CRYPTO_ECC_NIST_P256_SIGNATURE_LENGTH \<and>
           ecc_verify_hash_rfc7518 T sig h q = Inr True))"

definition tom_law :: "('k, 'p) tom_api \<Rightarrow> bool" where
  "tom_law T \<longleftrightarrow> lookup_law T \<and> prng_law T \<and> hash_law T \<and> gcm_law T \<and> make_key_law T \<and>
     ecdh_law T \<and> sign_law T"

section \<open>Behaviour\<close>

text \<open>\<open>holds_key w id b\<close>: the storage holds the non-empty item \<open>b\<close> under the valid key \<open>id\<close>.\<close>

definition holds_key :: "('p, 'z) world_scheme \<Rightarrow> wos_string \<Rightarrow> bytes \<Rightarrow> bool" where
  "holds_key w i b \<longleftrightarrow> lWosStorageIsKeyValid i \<and> b \<noteq> [] \<and> w_files w (c_string (the i)) = Some b"

lemma holds_keyD:
  "holds_key w i b \<Longrightarrow> WOS_IS_VALID_STRING i"
  "calm w \<Longrightarrow> holds_key w i b \<Longrightarrow> wosStorageRead i w = (Inr (Some b), w)"
  by (simp_all add: holds_key_def key_valid_string read_calm)

lemma holds_key_prng [simp]: "holds_key (w\<lparr>w_prng := p\<rparr>) i b = holds_key w i b"
  by (simp add: holds_key_def)

lemma hash_calm:
  assumes "calm w" and "lookup_law T" and "b \<noteq> []"
    and "hash_memory T (find_hash T) b WOS_CRYPTO_HASH_SHA256_LENGTH = Inr h"
  shows "lWosCryptoHash T (Some b) w = (Inr h, w)"
  using assms by (simp add: lWosCryptoHash_def comp_defs tom_try_def lookup_law_def crypto_lengths)

text \<open>
  Random bytes: as many as were asked for. Success or not, the files are untouched.
\<close>

lemma random_calm:
  assumes "prng_law T" and "0 < n"
  obtains r p' where "wosCryptoGetRandomBytes T (Some n) w = (Inr r, w\<lparr>w_prng := p'\<rparr>)"
    and "length r = n"
proof -
  obtain p1 where p1: "fortuna_ready T (w_prng w) = Inr p1"
    using assms(1) unfolding prng_law_def by blast
  have "length (fst (fortuna_read T n p1)) = n" using assms(1) by (simp add: prng_law_def)
  then show thesis
    using p1 assms(2) by (intro that [of "fst (fortuna_read T n p1)" "snd (fortuna_read T n p1)"])
      (simp_all add: wosCryptoGetRandomBytes_def comp_defs tom_try_def)
qed

lemma encrypt_calm:
  assumes "calm w" and "tom_law T" and "holds_key w i key" and "length key = 32"
  obtains iv c tag p' where
    "wosCryptoAeEncrypt T i pPlain pAad None w = (Inr (Some iv, Some c, Some tag), w\<lparr>w_prng := p'\<rparr>)"
    and "length iv = 12" and "length tag = 16"
    and "length c = length (case pPlain of None \<Rightarrow> [] | Some b \<Rightarrow> b)"
    and "gcm_decrypt T (find_cipher T) key iv (case pAad of None \<Rightarrow> [] | Some b \<Rightarrow> b) c 16
           = Inr (case pPlain of None \<Rightarrow> [] | Some b \<Rightarrow> b, tag)"
proof -
  have laws: "prng_law T" "gcm_law T" "\<not> find_cipher T < 0"
    using assms(2) by (auto simp: tom_law_def lookup_law_def)
  obtain iv p' where r: "wosCryptoGetRandomBytes T (Some 12) w = (Inr iv, w\<lparr>w_prng := p'\<rparr>)" "length iv = 12"
    using random_calm [OF laws(1), of 12 w] by auto
  let ?plain = "case pPlain of None \<Rightarrow> [] | Some b \<Rightarrow> b"
  let ?aad = "case pAad of None \<Rightarrow> [] | Some b \<Rightarrow> b"
  have "iv \<noteq> []" using r(2) by auto
  then obtain c tag where g: "gcm_encrypt T (find_cipher T) key iv ?aad ?plain 16 = Inr (c, tag)"
      "length c = length ?plain" "length tag = 16"
      "gcm_decrypt T (find_cipher T) key iv ?aad c 16 = Inr (?plain, tag)"
    using laws(2) assms(4) unfolding gcm_law_def crypto_lengths by blast
  have "wosCryptoAeEncrypt T i pPlain pAad None w = (Inr (Some iv, Some c, Some tag), w\<lparr>w_prng := p'\<rparr>)"
    using assms(1,4) laws(3) r(1) g(1) holds_keyD(1) [OF assms(3)] holds_keyD(2) [OF assms(1,3)]
    by (cases "?plain = []") (simp_all add: wosCryptoAeEncrypt_def comp_defs crypto_lengths tom_try_def Let_def)
  then show thesis using r(2) g by (intro that) auto
qed

text \<open>Decryption hands out a plain text exactly when the tag computed over the message is the given one.\<close>

lemma decrypt_calm:
  assumes "calm w" and "lookup_law T" and "holds_key w i key" and "length key = 32"
    and "iv \<noteq> []" and "tag \<noteq> []"
  shows "wosCryptoAeDecrypt T i pCipher pAad (Some iv) (Some tag) w
    = ((case gcm_decrypt T (find_cipher T) key iv (case pAad of None \<Rightarrow> [] | Some b \<Rightarrow> b)
               (case pCipher of None \<Rightarrow> [] | Some b \<Rightarrow> b) 16 of
          Inl _ \<Rightarrow> Inl (Dangling WOS_CRYPTO_ERROR)
        | Inr (plain, tag') \<Rightarrow>
            if tag' = tag then Inr (Some plain) else Inl (Dangling WOS_CRYPTO_ERROR)), w)"
  using assms holds_keyD(1) [OF assms(3)] holds_keyD(2) [OF assms(1,3)]
  by (auto simp: wosCryptoAeDecrypt_def comp_defs crypto_lengths tom_try_def Let_def lookup_law_def
      const_time_decides split: sum.splits prod.splits if_splits)

lemma decrypt_encrypted:
  assumes "calm w" and "lookup_law T" and "holds_key w i key" and "length key = 32"
    and "length iv = 12" and "length tag = 16"
    and "gcm_decrypt T (find_cipher T) key iv aad c 16 = Inr (plain, tag)"
  shows "wosCryptoAeDecrypt T i (Some c) (Some aad) (Some iv) (Some tag) w = (Inr (Some plain), w)"
proof -
  have "iv \<noteq> []" "tag \<noteq> []" using assms(5,6) by auto
  then show ?thesis using decrypt_calm [OF assms(1-4), of iv tag "Some c" "Some aad"] assms(7) by simp
qed

lemma generate_calm:
  assumes "calm w" and "tom_law T" and "lWosStorageIsKeyValid pr" and "lWosStorageIsKeyValid pu"
  obtains k priv pub p' where
    "wosCryptoEccGenerateKey T pr pu w
       = (Inr (), put_file (c_string (the pu)) pub (put_file (c_string (the pr)) priv (w\<lparr>w_prng := p'\<rparr>)))"
    and "key_pair T k priv pub"
proof -
  obtain k p' priv pub where k: "ecc_make_key T (w_prng w) (find_prng T) 32 = (Inr k, p')"
      "key_pair T k priv pub"
    using assms(2) unfolding tom_law_def make_key_law_def by blast
  have "pub \<noteq> []" "priv \<noteq> []" using k(2) by (auto simp: key_pair_def crypto_lengths)
  then have "wosCryptoEccGenerateKey T pr pu w
       = (Inr (), put_file (c_string (the pu)) pub (put_file (c_string (the pr)) priv (w\<lparr>w_prng := p'\<rparr>)))"
    using k assms
    by (simp add: wosCryptoEccGenerateKey_def comp_defs with_prng_def tom_try_def key_pair_def
        crypto_lengths write_calm key_valid_string tom_law_def lookup_law_def)
  then show thesis using k(2) that by blast
qed

lemma derive_calm:
  assumes "calm w" and "lWosStorageIsKeyValid sy" and "holds_key w pr priv" and "pub \<noteq> []"
    and "ecc_import T priv = Inr s" and "ecc_ansi_x963_import T pub = Inr q"
    and "ecc_shared_secret T s q WOS_CRYPTO_ECC_NIST_P256_SHARED_SECRET_LENGTH = Inr secret"
    and "secret \<noteq> []"
  shows "wosCryptoDeriveSymKey T (Some pub) pr sy w = (Inr (), put_file (c_string (the sy)) secret w)"
  using assms holds_keyD(1) [OF assms(3)] holds_keyD(2) [OF assms(1,3)]
  by (simp add: wosCryptoDeriveSymKey_def comp_defs tom_try_def crypto_lengths write_calm key_valid_string)

lemma sign_calm:
  assumes "calm w" and "tom_law T" and "holds_key w i priv" and "key_pair T k priv pub" and "d \<noteq> []"
  obtains sig h p' q where "wosCryptoEccSign T i (Some d) w = (Inr (Some sig), w\<lparr>w_prng := p'\<rparr>)"
    and "length sig = 64"
    and "hash_memory T (find_hash T) d WOS_CRYPTO_HASH_SHA256_LENGTH = Inr h"
    and "ecc_ansi_x963_import T pub = Inr q" and "ecc_verify_hash_rfc7518 T sig h q = Inr True"
proof -
  have laws: "lookup_law T" "hash_law T" "sign_law T" using assms(2) by (simp_all add: tom_law_def)
  obtain h where h: "hash_memory T (find_hash T) d WOS_CRYPTO_HASH_SHA256_LENGTH = Inr h" "length h = 32"
    using laws(2) unfolding hash_law_def crypto_lengths by blast
  obtain s q sig p' where s: "ecc_import T priv = Inr s" "ecc_ansi_x963_import T pub = Inr q"
      "ecc_sign_hash_rfc7518 T h WOS_CRYPTO_ECC_NIST_P256_SIGNATURE_LENGTH (w_prng w) (find_prng T) s
         = (Inr sig, p')"
      "length sig = 64" "ecc_verify_hash_rfc7518 T sig h q = Inr True"
    using laws(3) assms(4) unfolding sign_law_def crypto_lengths by blast
  have "h \<noteq> []" using h(2) by auto
  have "priv \<noteq> []" "length priv \<noteq> 65" using assms(4) by (auto simp: key_pair_def crypto_lengths)
  then have "wosCryptoEccSign T i (Some d) w = (Inr (Some sig), w\<lparr>w_prng := p'\<rparr>)"
    using assms(1,5) hash_calm [OF assms(1) laws(1) assms(5) h(1)] holds_keyD(1) [OF assms(3)]
      holds_keyD(2) [OF assms(1,3)] s laws(1) \<open>h \<noteq> []\<close>
    by (simp add: wosCryptoEccSign_def lWosCryptoEccSignVerify_def lWosCryptoEccImportKey_def
        lWosCryptoEccSign_def with_prng_def tom_try_def comp_defs crypto_lengths lookup_law_def)
  then show thesis by (rule that [OF _ s(4) h(1) s(2,5)])
qed

lemma verify_buffer_calm:
  assumes "calm w" and "lookup_law T" and "d \<noteq> []" and "sig \<noteq> []" and "pub \<noteq> []"
    and "hash_memory T (find_hash T) d WOS_CRYPTO_HASH_SHA256_LENGTH = Inr h"
    and "(if length pub = 65 then ecc_ansi_x963_import T pub else ecc_import T pub) = Inr q"
    and "ecc_verify_hash_rfc7518 T sig h q = Inr b"
  shows "wosCryptoEccVerifyKeyBuffer T (Some pub) (Some d) (Some sig) w
    = (Inr (if b then WOS_CRYPTO_SIGNATURE_MATCH else WOS_CRYPTO_SIGNATURE_ERROR), w)"
  using assms hash_calm [OF assms(1-3) assms(6)]
  by (cases "length pub = 65") (simp_all add: wosCryptoEccVerifyKeyBuffer_def
      lWosCryptoEccImportKey_def check_signature_def tom_try_def comp_defs crypto_lengths)

end
