(* ===== verification/Cert.thy ===== *)
theory Cert
  imports CborCert Crypto
begin

text \<open>
  \<open>WeeveClientLibrary/src/wos/crypto/wosCert.c\<close>: certificate chains. A chain is the list of its
  unpacked certificates, root first; certificates are put in front of it as they are unpacked.
  \<open>Inr ()\<close> is the code of a positive answer: \<open>WOS_CERT_SUCCESS\<close>, \<open>WOS_CERT_CHAIN_VALID\<close> or
  \<open>WOS_CERT_SIGNATURE_MATCH\<close>, whichever the routine answers with.
\<close>

datatype cert_error =
    WOS_CERT_ERROR
  | WOS_CERT_ERROR_BAD_PARAMS
  | WOS_CERT_SIGNATURE_INVALID
  | WOS_CERT_SERIALIZATION_ERROR_OUT_OF_MEMORY
  | WOS_CERT_SERIALIZATION_ERROR_WOS_MSG_ERROR_BAD_FORMAT
  | WOS_CERT_CHAIN_ERROR_ISSUER_MISMATCH
  | WOS_CERT_CHAIN_ERROR_SIGNATURE_MISMATCH

definition WOS_CERT_CHAIN_LIMIT :: nat where "WOS_CERT_CHAIN_LIMIT = 3"

record cert =
  pContainer :: cert_container
  pTbs :: cert_tbs

definition lWosCertAddStructToChain ::
    "cert list \<Rightarrow> cert_container \<Rightarrow> cert_tbs \<Rightarrow> (('p, 'z) world_scheme, cert_error, cert list) comp" where
  "lWosCertAddStructToChain chain container tbs =
     bindE (alloc 16 (Code WOS_CERT_SERIALIZATION_ERROR_OUT_OF_MEMORY)) (\<lambda>_.
     bindE (alloc 16 (Code WOS_CERT_SERIALIZATION_ERROR_OUT_OF_MEMORY)) (\<lambda>_.
     ok (\<lparr>pContainer = container, pTbs = tbs\<rparr> # chain)))"

definition lWosCertAddBufferToChain ::
    "('e, 'v) cbor_api \<Rightarrow> cert list \<Rightarrow> wos_buffer \<Rightarrow> (('p, 'z) world_scheme, cert_error, cert list) comp"
    where
  "lWosCertAddBufferToChain C chain pCertBuf =
     bindE (ensure (WOS_IS_VALID_BUFFER pCertBuf) (Code WOS_CERT_ERROR_BAD_PARAMS)) (\<lambda>_.
     bindE (alloc 24 (Code WOS_CERT_SERIALIZATION_ERROR_OUT_OF_MEMORY)) (\<lambda>_.
     bindE (on_error (as_code WOS_CERT_SERIALIZATION_ERROR_WOS_MSG_ERROR_BAD_FORMAT)
              (wosCborUnpackCertificateContainer C pCertBuf)) (\<lambda>container.
     bindE (alloc 40 (Code WOS_CERT_SERIALIZATION_ERROR_OUT_OF_MEMORY)) (\<lambda>_.
     bindE (on_error (as_code WOS_CERT_SERIALIZATION_ERROR_WOS_MSG_ERROR_BAD_FORMAT)
              (wosCborUnpackCertificateTbs C (pEncodedTbs container))) (\<lambda>tbs.
     lWosCertAddStructToChain chain container tbs)))))"

text \<open>
  Whether \<open>previous\<close> issued \<open>this\<close>; for the root the two are the same. The identifiers of the
  algorithms only select options that the verification does not look at.
\<close>

definition lWosCertCheckIssuance ::
    "('k, 'p) tom_api \<Rightarrow> cert \<Rightarrow> cert \<Rightarrow> (('p, 'z) world_scheme, cert_error, unit) comp" where
  "lWosCertCheckIssuance T previous this =
     bindE (ensure (wosStringComparison (subjectId (pTbs previous)) (issuerId (pTbs this)) = 0)
              (Code WOS_CERT_CHAIN_ERROR_ISSUER_MISMATCH)) (\<lambda>_.
     bindE (on_error (as_code WOS_CERT_CHAIN_ERROR_SIGNATURE_MISMATCH)
              (wosCryptoEccVerifyKeyBuffer T (pSubjectPubKey (pTbs previous))
                 (pEncodedTbs (pContainer this)) (pSignature (pContainer this)))) (\<lambda>check.
     ensure (check = WOS_CRYPTO_SIGNATURE_MATCH) (Code WOS_CERT_CHAIN_ERROR_SIGNATURE_MISMATCH)))"

definition lWosCertCheckCertParams :: "cert \<Rightarrow> (('p, 'z) world_scheme, cert_error, unit) comp" where
  "lWosCertCheckCertParams c =
     ensure (tbs_version (pTbs c) = cont_version (pContainer c)) (Code WOS_CERT_ERROR_BAD_PARAMS)"

fun validate_from ::
    "('k, 'p) tom_api \<Rightarrow> cert option \<Rightarrow> cert list \<Rightarrow> (('p, 'z) world_scheme, cert_error, unit) comp"
    where
  "validate_from T pPrevious [] = ok ()"
| "validate_from T pPrevious (c # rest) =
     bindE (lWosCertCheckCertParams c) (\<lambda>_.
     bindE (lWosCertCheckIssuance T (case pPrevious of None \<Rightarrow> c | Some p \<Rightarrow> p) c) (\<lambda>_.
     validate_from T (Some c) rest))"

definition lWosCertValidateChain ::
    "('k, 'p) tom_api \<Rightarrow> cert list \<Rightarrow> (('p, 'z) world_scheme, cert_error, unit) comp" where
  "lWosCertValidateChain T chain =
     bindE (ensure (chain \<noteq> []) (Code WOS_CERT_ERROR_BAD_PARAMS)) (\<lambda>_. validate_from T None chain)"

definition lWosCertGetEndPublicKey ::
    "cert list \<Rightarrow> (('p, 'z) world_scheme, cert_error, wos_buffer) comp" where
  "lWosCertGetEndPublicKey chain =
     bindE (ensure (chain \<noteq> []) (Code WOS_CERT_ERROR_BAD_PARAMS)) (\<lambda>_.
     ok (pSubjectPubKey (pTbs (last chain))))"

text \<open>The loop of \<open>wosCertValidateData\<close> over the received certificates.\<close>

fun add_certs ::
    "('e, 'v) cbor_api \<Rightarrow> nat \<Rightarrow> wos_buffer list \<Rightarrow> cert list \<Rightarrow>
     (('p, 'z) world_scheme, cert_error, cert list) comp" where
  "add_certs C 0 certs chain = ok chain"
| "add_certs C (Suc n) [] chain = fail Fault"
| "add_certs C (Suc n) (c # certs) chain =
     bindE (ensure (WOS_IS_VALID_BUFFER c) (Code WOS_CERT_ERROR_BAD_PARAMS)) (\<lambda>_.
     bindE (lWosCertAddBufferToChain C chain c) (\<lambda>chain'.
     add_certs C n certs chain'))"

definition wosCertValidateData ::
    "('e, 'v) cbor_api \<Rightarrow> ('k, 'p) tom_api \<Rightarrow> wos_buffer \<Rightarrow> nat \<Rightarrow> wos_buffer list option \<Rightarrow>
     wos_buffer \<Rightarrow> wos_buffer \<Rightarrow> (('p, 'z) world_scheme, cert_error, unit) comp" where
  "wosCertValidateData C T pRootBuf n ppCertBufs pSignedData pSig =
     bindE (ensure (WOS_IS_VALID_BUFFER pRootBuf \<and> \<not> WOS_CERT_CHAIN_LIMIT < n \<and> ppCertBufs \<noteq> None \<and>
                    WOS_IS_VALID_BUFFER pSignedData \<and> WOS_IS_VALID_BUFFER pSig)
              (Code WOS_CERT_ERROR_BAD_PARAMS)) (\<lambda>_.
     bindE (add_certs C n (the ppCertBufs) []) (\<lambda>chain0.
     bindE (lWosCertAddBufferToChain C chain0 pRootBuf) (\<lambda>chain.
     bindE (lWosCertValidateChain T chain) (\<lambda>_.
     bindE (lWosCertGetEndPublicKey chain) (\<lambda>pubKey.
     bindE (on_error (as_code WOS_CERT_SIGNATURE_INVALID)
              (wosCryptoEccVerifyKeyBuffer T pubKey pSignedData pSig)) (\<lambda>check.
     ensure (check = WOS_CRYPTO_SIGNATURE_MATCH) (Code WOS_CERT_SIGNATURE_INVALID)))))))"

section \<open>What a valid chain is\<close>

text \<open>
  The specification: a signature that verifies, a certificate issued by another, a chain whose
  first certificate issued itself and whose every other one was issued by the one before.
\<close>

definition signed_by :: "('k, 'p) tom_api \<Rightarrow> wos_buffer \<Rightarrow> wos_buffer \<Rightarrow> wos_buffer \<Rightarrow> bool" where
  "signed_by T pub d sig \<longleftrightarrow>
     WOS_IS_VALID_BUFFER pub \<and> WOS_IS_VALID_BUFFER d \<and> WOS_IS_VALID_BUFFER sig \<and> 0 \<le> find_hash T \<and>
     (case hash_memory T (find_hash T) (the d) 32 of
        Inl _ \<Rightarrow> False
      | Inr h \<Rightarrow>
          (case (if length (the pub) = 65 then ecc_ansi_x963_import T (the pub)
                 else ecc_import T (the pub)) of
             Inl _ \<Rightarrow> False
           | Inr q \<Rightarrow> ecc_verify_hash_rfc7518 T (the sig) h q = Inr True))"

definition issued :: "('k, 'p) tom_api \<Rightarrow> cert \<Rightarrow> cert \<Rightarrow> bool" where
  "issued T previous this \<longleftrightarrow>
     (\<exists>s i. subjectId (pTbs previous) = Some s \<and> issuerId (pTbs this) = Some i \<and> c_string s = c_string i) \<and>
     signed_by T (pSubjectPubKey (pTbs previous)) (pEncodedTbs (pContainer this))
       (pSignature (pContainer this))"

fun chained :: "('k, 'p) tom_api \<Rightarrow> cert \<Rightarrow> cert list \<Rightarrow> bool" where
  "chained T p [] = True"
| "chained T p (c # rest) =
     (tbs_version (pTbs c) = cont_version (pContainer c) \<and> issued T p c \<and> chained T c rest)"

definition valid_chain :: "('k, 'p) tom_api \<Rightarrow> cert list \<Rightarrow> bool" where
  "valid_chain T chain \<longleftrightarrow> chain \<noteq> [] \<and> chained T (hd chain) chain"

definition reads_cert :: "('e, 'v) cbor_api \<Rightarrow> ('p, 'z) world_scheme \<Rightarrow> wos_buffer \<Rightarrow> cert \<Rightarrow> bool" where
  "reads_cert C w b c \<longleftrightarrow> WOS_IS_VALID_BUFFER b \<and>
     wosCborUnpackCertificateContainer C b w = (Inr (pContainer c), w) \<and>
     wosCborUnpackCertificateTbs C (pEncodedTbs (pContainer c)) w = (Inr (pTbs c), w)"

section \<open>The routines decide it\<close>

lemma verify_buffer_iff:
  assumes "calm w"
  shows "wosCryptoEccVerifyKeyBuffer T pub d sig w = (Inr WOS_CRYPTO_SIGNATURE_MATCH, w')
    \<longleftrightarrow> w' = w \<and> signed_by T pub d sig"
  using assms
  by (auto simp: wosCryptoEccVerifyKeyBuffer_def lWosCryptoHash_def lWosCryptoEccImportKey_def
      check_signature_def tom_try_def comp_defs crypto_lengths signed_by_def
      split: sum.splits if_splits)

lemma check_issuance_iff:
  assumes "calm w"
  shows "lWosCertCheckIssuance T p c w = (Inr (), w') \<longleftrightarrow> w' = w \<and> issued T p c"
  by (auto simp: lWosCertCheckIssuance_def succeeds issued_def wosStringComparison_eq_0
      verify_buffer_iff [OF assms])

lemma validate_from_iff:
  assumes "calm w"
  shows "validate_from T p chain w = (Inr (), w') \<longleftrightarrow>
    w' = w \<and> (case chain of [] \<Rightarrow> True
                | c # _ \<Rightarrow> chained T (case p of None \<Rightarrow> c | Some q \<Rightarrow> q) chain)"
  using assms
proof (induction T p chain arbitrary: w rule: validate_from.induct)
  case (1 T p)
  then show ?case by (auto simp: ok_def)
next
  case (2 T p c rest)
  have "validate_from T (Some c) rest w = (Inr (), w') \<longleftrightarrow> w' = w \<and> chained T c rest"
    using 2 by (cases rest) auto
  then show ?case
    using check_issuance_iff [OF 2(2)]
    by (auto simp: succeeds lWosCertCheckCertParams_def)
qed

lemma validate_chain_iff:
  "calm w \<Longrightarrow> lWosCertValidateChain T chain w = (Inr (), w') \<longleftrightarrow> w' = w \<and> valid_chain T chain"
  by (cases chain) (auto simp: lWosCertValidateChain_def succeeds validate_from_iff valid_chain_def
      simp del: validate_from.simps)

lemma unpack_keeps_world:
  "calm w \<Longrightarrow> wosCborUnpackCertificateContainer C b w = (Inr c, w') \<Longrightarrow> w' = w"
  "calm w \<Longrightarrow> wosCborUnpackCertificateTbs C b w = (Inr t, w') \<Longrightarrow> w' = w"
  by (auto simp: wosCborUnpackCertificateContainer_def wosCborUnpackCertificateTbs_def succeeds
      msgCborParseByteString_def alloc_def ok_def ensure_def split: if_splits)

lemma add_buffer_iff:
  assumes "calm w"
  shows "lWosCertAddBufferToChain C chain b w = (Inr chain', w') \<longleftrightarrow>
    w' = w \<and> (\<exists>c. chain' = c # chain \<and> reads_cert C w b c)"
proof
  assume "lWosCertAddBufferToChain C chain b w = (Inr chain', w')"
  then obtain container t1 tbs t2 where *: "WOS_IS_VALID_BUFFER b"
      "wosCborUnpackCertificateContainer C b w = (Inr container, t1)"
      "wosCborUnpackCertificateTbs C (pEncodedTbs container) t1 = (Inr tbs, t2)"
      "lWosCertAddStructToChain chain container tbs t2 = (Inr chain', w')"
    using assms unpack_keeps_world(1) [OF assms]
    by (fastforce simp: lWosCertAddBufferToChain_def succeeds)
  have "t1 = w" using unpack_keeps_world(1) [OF assms *(2)] .
  moreover have "t2 = w" using unpack_keeps_world(2) [OF assms *(3) [unfolded \<open>t1 = w\<close>]] .
  ultimately show "w' = w \<and> (\<exists>c. chain' = c # chain \<and> reads_cert C w b c)"
    using * assms by (auto simp: reads_cert_def lWosCertAddStructToChain_def comp_defs)
next
  assume "w' = w \<and> (\<exists>c. chain' = c # chain \<and> reads_cert C w b c)"
  then show "lWosCertAddBufferToChain C chain b w = (Inr chain', w')"
    using assms by (auto simp: lWosCertAddBufferToChain_def lWosCertAddStructToChain_def
        reads_cert_def comp_defs)
qed

lemma add_certs_iff:
  assumes "calm w" and "n \<le> length certs"
  shows "add_certs C n certs chain w = (Inr chain', w') \<longleftrightarrow>
    w' = w \<and> (\<exists>cs. chain' = rev cs @ chain \<and> list_all2 (reads_cert C w) (take n certs) cs)"
  using assms
proof (induction C n certs chain arbitrary: w rule: add_certs.induct)
  case (1 C certs chain)
  then show ?case by (auto simp: ok_def)
next
  case (2 C n chain)
  then show ?case by simp
next
  case (3 C n c certs chain)
  have valid: "WOS_IS_VALID_BUFFER c" if "reads_cert C w c d" for d
    using that by (simp add: reads_cert_def)
  have IH: "add_certs C n certs (d # chain) w = (Inr chain', w') \<longleftrightarrow>
      w' = w \<and> (\<exists>cs. chain' = rev cs @ d # chain \<and> list_all2 (reads_cert C w) (take n certs) cs)" for d
    using 3 by auto
  have "add_certs C (Suc n) (c # certs) chain w = (Inr chain', w') \<longleftrightarrow>
      (\<exists>d. reads_cert C w c d \<and> add_certs C n certs (d # chain) w = (Inr chain', w'))"
    using valid by (auto simp: succeeds add_buffer_iff [OF 3(2)])
  then show ?case
    unfolding IH by (auto simp: list_all2_Cons1 intro: exI [of _ "d # cs" for d cs] simp del: add_certs.simps)
qed

lemma chain_of_read:
  "(\<exists>cs r. list_all2 R xs cs \<and> R x r \<and> P (r # rev cs)) \<longleftrightarrow>
   (\<exists>chain. list_all2 R (x # rev xs) chain \<and> P chain)"
proof
  assume "\<exists>cs r. list_all2 R xs cs \<and> R x r \<and> P (r # rev cs)"
  then obtain cs r where "list_all2 R xs cs" "R x r" "P (r # rev cs)" by blast
  then show "\<exists>chain. list_all2 R (x # rev xs) chain \<and> P chain"
    by (intro exI [of _ "r # rev cs"]) (simp add: list_all2_rev)
next
  assume "\<exists>chain. list_all2 R (x # rev xs) chain \<and> P chain"
  then obtain r zs where "R x r" "list_all2 R xs (rev zs)" "P (r # rev (rev zs))"
    by (auto simp: list_all2_Cons1 list_all2_rev1)
  then show "\<exists>cs r. list_all2 R xs cs \<and> R x r \<and> P (r # rev cs)" by blast
qed

text \<open>
  The data is accepted exactly when the certificates can be read, form a valid chain from the
  root, and the key of the last one verifies the signature.
\<close>

lemma validate_data_iff:
  assumes "calm w" and "n \<le> length certs"
  shows "wosCertValidateData C T pRoot n (Some certs) d sig w = (Inr (), w') \<longleftrightarrow>
    w' = w \<and> WOS_IS_VALID_BUFFER pRoot \<and> n \<le> WOS_CERT_CHAIN_LIMIT \<and>
    (\<exists>chain. list_all2 (reads_cert C w) (pRoot # rev (take n certs)) chain \<and> valid_chain T chain \<and>
       signed_by T (pSubjectPubKey (pTbs (last chain))) d sig)"
    (is "?run \<longleftrightarrow> ?spec")
proof -
  have run: "?run \<longleftrightarrow> WOS_IS_VALID_BUFFER pRoot \<and> n \<le> WOS_CERT_CHAIN_LIMIT \<and>
      WOS_IS_VALID_BUFFER d \<and> WOS_IS_VALID_BUFFER sig \<and>
      (\<exists>cs r. list_all2 (reads_cert C w) (take n certs) cs \<and> reads_cert C w pRoot r \<and>
         lWosCertValidateChain T (r # rev cs) w = (Inr (), w) \<and>
         wosCryptoEccVerifyKeyBuffer T (pSubjectPubKey (pTbs (last (r # rev cs)))) d sig w
           = (Inr WOS_CRYPTO_SIGNATURE_MATCH, w) \<and> w' = w)"
    unfolding wosCertValidateData_def lWosCertGetEndPublicKey_def
    apply (simp add: succeeds add_certs_iff [OF assms] add_buffer_iff [OF assms(1)]
        validate_chain_iff [OF assms(1)] verify_buffer_iff [OF assms(1)] del: last.simps cong: conj_cong)
    apply (auto simp: linorder_not_less simp del: last.simps)
    done
  have valid: "WOS_IS_VALID_BUFFER d \<and> WOS_IS_VALID_BUFFER sig" if "signed_by T k d sig" for k
    using that by (simp add: signed_by_def)
  show ?thesis
    unfolding run validate_chain_iff [OF assms(1)] verify_buffer_iff [OF assms(1)]
      chain_of_read [of "reads_cert C w" "take n certs" pRoot "\<lambda>chain. valid_chain T chain \<and>
        signed_by T (pSubjectPubKey (pTbs (last chain))) d sig", symmetric]
    using valid by blast
qed

end
