(* ===== verification/MsgSmp.thy ===== *)
theory MsgSmp
  imports MsgCborUtils
begin

text \<open>
  \<open>WeeveCommon/src/msg/cbor/wosMsgSmp.c\<close> and \<open>wosMsgSmp.h\<close>: packing and unpacking of the SMP
  header, the session-establishment message and the control message. A pack routine takes the
  capacity of the output buffer (\<open>None\<close>: no buffer) and returns the bytes written. Whether the
  cipher-scheme identifier is part of the session-establishment message depends on the side
  the library is built for.
\<close>

datatype smp_role = SMP_MQTTS_CLIENT | SMP_MQTTS_BROKER

abbreviation WCL_SMP_MESSAGE_MQTTS_CONNECT :: byte where "WCL_SMP_MESSAGE_MQTTS_CONNECT \<equiv> 1"
abbreviation WCL_SMP_MESSAGE_MQTTS_CONNACK :: byte where "WCL_SMP_MESSAGE_MQTTS_CONNACK \<equiv> 2"
abbreviation WCL_SMP_MESSAGE_MQTTS_PUBLISH :: byte where "WCL_SMP_MESSAGE_MQTTS_PUBLISH \<equiv> 3"
abbreviation WCL_SMP_MESSAGE_MQTTS_PUBACK :: byte where "WCL_SMP_MESSAGE_MQTTS_PUBACK \<equiv> 4"
abbreviation WCL_SMP_MESSAGE_MQTTS_PUBREC :: byte where "WCL_SMP_MESSAGE_MQTTS_PUBREC \<equiv> 5"
abbreviation WCL_SMP_MESSAGE_MQTTS_PUBREL :: byte where "WCL_SMP_MESSAGE_MQTTS_PUBREL \<equiv> 6"
abbreviation WCL_SMP_MESSAGE_MQTTS_PUBCOMP :: byte where "WCL_SMP_MESSAGE_MQTTS_PUBCOMP \<equiv> 7"
abbreviation WCL_SMP_MESSAGE_MQTTS_SUBSCRIBE :: byte where "WCL_SMP_MESSAGE_MQTTS_SUBSCRIBE \<equiv> 8"
abbreviation WCL_SMP_MESSAGE_MQTTS_SUBACK :: byte where "WCL_SMP_MESSAGE_MQTTS_SUBACK \<equiv> 9"
abbreviation WCL_SMP_MESSAGE_MQTTS_UNSUBSCRIBE :: byte where
  "WCL_SMP_MESSAGE_MQTTS_UNSUBSCRIBE \<equiv> 10"
abbreviation WCL_SMP_MESSAGE_MQTTS_UNSUBACK :: byte where "WCL_SMP_MESSAGE_MQTTS_UNSUBACK \<equiv> 11"
abbreviation WCL_SMP_MESSAGE_MQTTS_PINGREQ :: byte where "WCL_SMP_MESSAGE_MQTTS_PINGREQ \<equiv> 12"
abbreviation WCL_SMP_MESSAGE_MQTTS_PINGRESP :: byte where "WCL_SMP_MESSAGE_MQTTS_PINGRESP \<equiv> 13"
abbreviation WCL_SMP_MESSAGE_MQTTS_DISCONNECT :: byte where
  "WCL_SMP_MESSAGE_MQTTS_DISCONNECT \<equiv> 14"

definition WCL_SMP_CLIENT_ID_LENGTH :: nat where "WCL_SMP_CLIENT_ID_LENGTH = 32"
definition WOS_MSG_CONTEXT_SMP_MQTTS :: byte where "WOS_MSG_CONTEXT_SMP_MQTTS = 0"

record smp_header =
  messageContext :: byte
  messageContextVersion :: byte
  messageType :: byte
  h_clientId :: wos_string
  messageId :: "32 word"

record se_params =
  se_EncodedSmpHeader :: wos_buffer
  cipherSchemeId :: byte
  se_EccDhPubParams :: wos_buffer
  se_MqttPacket :: wos_buffer
  se_Signature :: wos_buffer
  numCerts :: byte
  ppCerts :: "wos_buffer list option"

record control_params =
  c_EncodedSmpHeader :: wos_buffer
  c_MqttPacket :: wos_buffer
  c_IV :: wos_buffer
  c_AuthTag :: wos_buffer

section \<open>The SMP header\<close>

definition wosMsgPackSmpHeader ::
    "('e, 'v) cbor_api \<Rightarrow> smp_header option \<Rightarrow> nat option \<Rightarrow> (msg_error, bytes) res" where
  "wosMsgPackSmpHeader C pMessageHeader pPackedBuffer = (case (pMessageHeader, pPackedBuffer) of
     (Some h, Some cap) \<Rightarrow>
       bindR (ensureR (h_clientId h \<noteq> None) (Code WOS_MSG_ERROR_BAD_PARAMS)) (\<lambda>_.
       bindR (ensureR (wosStringLength (h_clientId h) \<le> WCL_SMP_CLIENT_ID_LENGTH)
                (Code WOS_MSG_ERROR_BAD_PARAMS)) (\<lambda>_.
       bindR (cbor_try (cbor_encoder_create_array C (cbor_encoder_init C cap))) (\<lambda>(encoder, arr0).
       bindR (cbor_try (cbor_encode_uint C arr0 (ucast (messageContext h)))) (\<lambda>arr1.
       bindR (cbor_try (cbor_encode_uint C arr1 (ucast (messageContextVersion h)))) (\<lambda>arr2.
       bindR (cbor_try (cbor_encode_uint C arr2 (ucast (messageType h)))) (\<lambda>arr3.
       bindR (cbor_try (cbor_encode_text_stringz C arr3 (c_string (the (h_clientId h))))) (\<lambda>arr4.
       bindR (cbor_try (cbor_encode_uint C arr4 (ucast (messageId h)))) (\<lambda>arr5.
       bindR (cbor_try (cbor_encoder_close_container_checked C encoder arr5)) (\<lambda>encoder'.
       Inr (cbor_encoder_get_buffer C encoder'))))))))))
   | _ \<Rightarrow> Inl (Code WOS_MSG_ERROR_BAD_PARAMS))"

text \<open>
  The caller's client-id buffer holds \<open>id_cap\<close> bytes. The routine tells the library that it
  holds \<open>WCL_SMP_CLIENT_ID_LENGTH + 1\<close>, and the library stores the text and, where it fits in
  that size, its NUL.
\<close>

definition wosMsgUnpackSmpHeaderFromSmpMsg ::
    "('e, 'v) cbor_api \<Rightarrow> wos_buffer \<Rightarrow> nat option \<Rightarrow> (('p, 'z) world_scheme, msg_error, smp_header) comp"
    where
  "wosMsgUnpackSmpHeaderFromSmpMsg C pPackedBuffer id_cap =
     bindE (ensure (WOS_IS_VALID_BUFFER pPackedBuffer \<and> id_cap \<noteq> None)
              (Code WOS_MSG_ERROR_BAD_PARAMS)) (\<lambda>_.
     bindE (pure_res (cbor_try (cbor_parser_init C (the pPackedBuffer)))) (\<lambda>value0.
     bindE (ensure (cbor_value_is_array C value0) (Code WOS_MSG_ERROR_BAD_FORMAT)) (\<lambda>_.
     bindE (pure_res (cbor_try (cbor_value_enter_container C value0))) (\<lambda>dataArray0.
     bindE (msgCborParseByteString C (Some dataArray0)) (\<lambda>(pExtracted, _).
     bindE (pure_res (cbor_try (cbor_parser_init C (the pExtracted)))) (\<lambda>value1.
     bindE (ensure (cbor_value_is_array C value1) (Code WOS_MSG_ERROR_BAD_FORMAT)) (\<lambda>_.
     bindE (pure_res (cbor_try (cbor_value_enter_container C value1))) (\<lambda>d0.
     bindE (pure_res (msgCborParseUint64 C (Some d0))) (\<lambda>context.
     bindE (pure_res (cbor_try (cbor_value_advance_fixed C d0))) (\<lambda>d1.
     bindE (pure_res (msgCborParseUint64 C (Some d1))) (\<lambda>version.
     bindE (pure_res (cbor_try (cbor_value_advance_fixed C d1))) (\<lambda>d2.
     bindE (pure_res (msgCborParseUint64 C (Some d2))) (\<lambda>mtype.
     bindE (pure_res (cbor_try (cbor_value_advance C d2))) (\<lambda>d3.
     bindE (ensure (cbor_value_is_text_string C d3) (Code WOS_MSG_ERROR_BAD_FORMAT)) (\<lambda>_.
     bindE (pure_res (cbor_try
              (cbor_value_copy_text_string C d3 (WCL_SMP_CLIENT_ID_LENGTH + 1)))) (\<lambda>cid.
     bindE (ensure (length cid + (if length cid < WCL_SMP_CLIENT_ID_LENGTH + 1 then 1 else 0)
                      \<le> the id_cap) Fault) (\<lambda>_.
     bindE (ensure (length cid \<le> WCL_SMP_CLIENT_ID_LENGTH) (Code WOS_MSG_ERROR_BAD_FORMAT)) (\<lambda>_.
     bindE (pure_res (cbor_try (cbor_value_advance C d3))) (\<lambda>d4.
     bindE (pure_res (msgCborParseUint64 C (Some d4))) (\<lambda>mid.
     ok \<lparr>messageContext = ucast context, messageContextVersion = ucast version,
         messageType = ucast mtype, h_clientId = Some cid, messageId = ucast mid\<rparr>))))))))))))))))))))"

section \<open>The session-establishment message\<close>

fun pack_certs :: "('e, 'v) cbor_api \<Rightarrow> 'e \<Rightarrow> nat \<Rightarrow> wos_buffer list \<Rightarrow> (msg_error, 'e) res" where
  "pack_certs C arr 0 certs = Inr arr"
| "pack_certs C arr (Suc n) [] = Inl Fault"
| "pack_certs C arr (Suc n) (c # certs) =
     bindR (ensureR (WOS_IS_VALID_BUFFER c) (Code WOS_MSG_ERROR_BAD_PARAMS)) (\<lambda>_.
     bindR (cbor_try (cbor_encode_byte_string C arr (the c))) (\<lambda>arr'.
     pack_certs C arr' n certs))"

definition wosMsgPackSmpMqttsSEMessage ::
    "('e, 'v) cbor_api \<Rightarrow> smp_role \<Rightarrow> se_params option \<Rightarrow> nat option \<Rightarrow> (msg_error, bytes) res" where
  "wosMsgPackSmpMqttsSEMessage C role pSeParams pPackedBuffer = (case pSeParams of
     None \<Rightarrow> Inl (Code WOS_MSG_ERROR_BAD_PARAMS)
   | Some s \<Rightarrow>
       bindR (ensureR (WOS_IS_VALID_BUFFER (se_EncodedSmpHeader s) \<and>
                       WOS_IS_VALID_BUFFER (se_EccDhPubParams s) \<and>
                       WOS_IS_VALID_BUFFER (se_MqttPacket s) \<and>
                       WOS_IS_VALID_BUFFER (se_Signature s) \<and>
                       \<not> numCerts s < 1 \<and> ppCerts s \<noteq> None \<and>
                       (case pPackedBuffer of None \<Rightarrow> False | Some cap \<Rightarrow> cap \<noteq> 0))
                (Code WOS_MSG_ERROR_BAD_PARAMS)) (\<lambda>_.
       bindR (cbor_try (cbor_encoder_create_array C (cbor_encoder_init C (the pPackedBuffer))))
         (\<lambda>(encoder, arr0).
       bindR (cbor_try (cbor_encode_byte_string C arr0 (the (se_EncodedSmpHeader s)))) (\<lambda>arr1.
       bindR (if role = SMP_MQTTS_CLIENT
              then cbor_try (cbor_encode_uint C arr1 (ucast (cipherSchemeId s)))
              else Inr arr1) (\<lambda>arr2.
       bindR (cbor_try (cbor_encode_byte_string C arr2 (the (se_EccDhPubParams s)))) (\<lambda>arr3.
       bindR (cbor_try (cbor_encode_byte_string C arr3 (the (se_MqttPacket s)))) (\<lambda>arr4.
       bindR (cbor_try (cbor_encode_byte_string C arr4 (the (se_Signature s)))) (\<lambda>arr5.
       bindR (cbor_try (cbor_encode_uint C arr5 (ucast (numCerts s)))) (\<lambda>arr6.
       bindR (pack_certs C arr6 (unat (numCerts s)) (the (ppCerts s))) (\<lambda>arr7.
       bindR (cbor_try (cbor_encoder_close_container_checked C encoder arr7)) (\<lambda>encoder'.
       Inr (cbor_encoder_get_buffer C encoder'))))))))))))"

text \<open>
  The certificate loop of the unpacker. The list was allocated for the low byte of the received
  count, its entries are not initialised, and the loop runs up to the full 64-bit count:
  \<open>slots\<close> entries are still to be filled, \<open>beyond\<close> says that the loop goes on after them.
  Storing into an entry behind the list is a fault; so is leaving while an entry is not
  initialised, because the exit path frees every entry.
\<close>

fun unpack_certs ::
    "('e, 'v) cbor_api \<Rightarrow> bool \<Rightarrow> nat \<Rightarrow> 'v \<Rightarrow> (('p, 'z) world_scheme, msg_error, wos_buffer list) comp"
    where
  "unpack_certs C beyond 0 v =
     (if \<not> beyond then ok []
      else bindE (msgCborParseByteString C (Some v)) (\<lambda>_. fail Fault))"
| "unpack_certs C beyond (Suc slots) v =
     bindE (on_error (\<lambda>_. Fault) (msgCborParseByteString C (Some v))) (\<lambda>(c, _).
     bindE (on_error (\<lambda>e. if slots = 0 then e else Fault)
              (pure_res (cbor_try (cbor_value_advance C v)))) (\<lambda>v'.
     bindE (unpack_certs C beyond slots v') (\<lambda>cs. ok (c # cs))))"

definition wosMsgUnpackSmpMqttsSEMessage ::
    "('e, 'v) cbor_api \<Rightarrow> smp_role \<Rightarrow> wos_buffer \<Rightarrow> (('p, 'z) world_scheme, msg_error, se_params) comp"
    where
  "wosMsgUnpackSmpMqttsSEMessage C role pPackedBuffer =
     bindE (ensure (WOS_IS_VALID_BUFFER pPackedBuffer) (Code WOS_MSG_ERROR_BAD_PARAMS)) (\<lambda>_.
     bindE (pure_res (cbor_try (cbor_parser_init C (the pPackedBuffer)))) (\<lambda>value.
     bindE (ensure (cbor_value_is_array C value) (Code WOS_MSG_ERROR_BAD_FORMAT)) (\<lambda>_.
     bindE (pure_res (cbor_try (cbor_value_enter_container C value))) (\<lambda>dataArray.
     bindE (msgCborParseByteString C (Some dataArray)) (\<lambda>(hdr, v1).
     bindE (if role = SMP_MQTTS_BROKER
            then bindE (pure_res (msgCborParseUint64 C (Some v1))) (\<lambda>scheme.
                 bindE (pure_res (cbor_try (cbor_value_advance C v1))) (\<lambda>v1'.
                 ok (ucast scheme, v1')))
            else ok (0, v1)) (\<lambda>(scheme, v2).
     bindE (msgCborParseByteString C (Some v2)) (\<lambda>(dh, v3).
     bindE (msgCborParseByteString C (Some v3)) (\<lambda>(pkt, v4).
     bindE (msgCborParseByteString C (Some v4)) (\<lambda>(sig, v5).
     bindE (pure_res (msgCborParseUint64 C (Some v5))) (\<lambda>count.
     bindE (alloc (unat (ucast count :: byte) * 8) (Code WOS_MSG_ERROR_OUT_OF_MEMORY)) (\<lambda>_.
     bindE (on_error (\<lambda>_. Fault) (pure_res (cbor_try (cbor_value_advance C v5)))) (\<lambda>v6.
     bindE (unpack_certs C (unat (ucast count :: byte) < unat count)
              (unat (ucast count :: byte)) v6) (\<lambda>certs.
     ok \<lparr>se_EncodedSmpHeader = hdr, cipherSchemeId = scheme, se_EccDhPubParams = dh,
         se_MqttPacket = pkt, se_Signature = sig, numCerts = ucast count,
         ppCerts = Some certs\<rparr>)))))))))))))"

section \<open>The control message\<close>

definition wosMsgPackSmpMqttsControlMessage ::
    "('e, 'v) cbor_api \<Rightarrow> control_params option \<Rightarrow> nat option \<Rightarrow> (msg_error, bytes) res" where
  "wosMsgPackSmpMqttsControlMessage C pControlParams pPackedBuffer = (case pControlParams of
     None \<Rightarrow> Inl (Code WOS_MSG_ERROR_BAD_PARAMS)
   | Some p \<Rightarrow>
       bindR (ensureR (WOS_IS_VALID_BUFFER (c_EncodedSmpHeader p) \<and>
                       WOS_IS_VALID_BUFFER (c_MqttPacket p) \<and>
                       WOS_IS_VALID_BUFFER (c_IV p) \<and>
                       WOS_IS_VALID_BUFFER (c_AuthTag p) \<and>
                       (case pPackedBuffer of None \<Rightarrow> False | Some cap \<Rightarrow> cap \<noteq> 0))
                (Code WOS_MSG_ERROR_BAD_PARAMS)) (\<lambda>_.
       bindR (cbor_try (cbor_encoder_create_array C (cbor_encoder_init C (the pPackedBuffer))))
         (\<lambda>(encoder, arr0).
       bindR (cbor_try (cbor_encode_byte_string C arr0 (the (c_EncodedSmpHeader p)))) (\<lambda>arr1.
       bindR (cbor_try (cbor_encode_byte_string C arr1 (the (c_MqttPacket p)))) (\<lambda>arr2.
       bindR (cbor_try (cbor_encode_byte_string C arr2 (the (c_IV p)))) (\<lambda>arr3.
       bindR (cbor_try (cbor_encode_byte_string C arr3 (the (c_AuthTag p)))) (\<lambda>arr4.
       bindR (cbor_try (cbor_encoder_close_container_checked C encoder arr4)) (\<lambda>encoder'.
       Inr (cbor_encoder_get_buffer C encoder')))))))))"

definition wosMsgUnpackSmpMqttsControlMessage ::
    "('e, 'v) cbor_api \<Rightarrow> wos_buffer \<Rightarrow> (('p, 'z) world_scheme, msg_error, control_params) comp" where
  "wosMsgUnpackSmpMqttsControlMessage C pPackedBuffer =
     bindE (ensure (WOS_IS_VALID_BUFFER pPackedBuffer) (Code WOS_MSG_ERROR_BAD_PARAMS)) (\<lambda>_.
     bindE (pure_res (cbor_try (cbor_parser_init C (the pPackedBuffer)))) (\<lambda>value.
     bindE (ensure (cbor_value_is_array C value) (Code WOS_MSG_ERROR_BAD_FORMAT)) (\<lambda>_.
     bindE (pure_res (cbor_try (cbor_value_enter_container C value))) (\<lambda>dataArray.
     bindE (msgCborParseByteString C (Some dataArray)) (\<lambda>(hdr, next1).
     bindE (msgCborParseByteString C (Some next1)) (\<lambda>(pkt, next2).
     bindE (msgCborParseByteString C (Some next2)) (\<lambda>(iv, next3).
     bindE (msgCborParseByteString C (Some next3)) (\<lambda>(tag, _).
     ok \<lparr>c_EncodedSmpHeader = hdr, c_MqttPacket = pkt, c_IV = iv, c_AuthTag = tag\<rparr>))))))))"

section \<open>The layout of the messages\<close>

text \<open>The items each pack routine writes, in order.\<close>

definition header_items :: "smp_header \<Rightarrow> cbor_item list" where
  "header_items h =
     [CUint (ucast (messageContext h)), CUint (ucast (messageContextVersion h)),
      CUint (ucast (messageType h)), CText (c_string (the (h_clientId h))),
      CUint (ucast (messageId h))]"

definition se_items :: "smp_role \<Rightarrow> se_params \<Rightarrow> cbor_item list" where
  "se_items role s =
     CBytes (the (se_EncodedSmpHeader s)) #
     (if role = SMP_MQTTS_CLIENT then [CUint (ucast (cipherSchemeId s))] else []) @
     [CBytes (the (se_EccDhPubParams s)), CBytes (the (se_MqttPacket s)),
      CBytes (the (se_Signature s)), CUint (ucast (numCerts s))] @
     map (\<lambda>c. CBytes (the c)) (take (unat (numCerts s)) (the (ppCerts s)))"

definition control_items :: "control_params \<Rightarrow> cbor_item list" where
  "control_items p =
     [CBytes (the (c_EncodedSmpHeader p)), CBytes (the (c_MqttPacket p)),
      CBytes (the (c_IV p)), CBytes (the (c_AuthTag p))]"

lemma encode_items_append:
  "encode_items C e (xs @ ys) =
     (case encode_items C e xs of Inl err \<Rightarrow> Inl err | Inr e' \<Rightarrow> encode_items C e' ys)"
  by (induction C e xs rule: encode_items.induct) (auto split: sum.splits)

lemma pack_header_encodes:
  assumes "h_clientId h = Some m" and "length (c_string m) \<le> 32"
  shows "wosMsgPackSmpHeader C (Some h) (Some cap) = cbor_try (encode_array C cap (header_items h))"
  using assms
  by (simp add: wosMsgPackSmpHeader_def encode_array_def header_items_def comp_defs
      wosStringLength_def WCL_SMP_CLIENT_ID_LENGTH_def split: sum.splits prod.splits)

lemma pack_control_encodes:
  assumes "WOS_IS_VALID_BUFFER (c_EncodedSmpHeader p)" and "WOS_IS_VALID_BUFFER (c_MqttPacket p)"
    and "WOS_IS_VALID_BUFFER (c_IV p)" and "WOS_IS_VALID_BUFFER (c_AuthTag p)" and "cap \<noteq> 0"
  shows "wosMsgPackSmpMqttsControlMessage C (Some p) (Some cap)
           = cbor_try (encode_array C cap (control_items p))"
  using assms
  by (simp add: wosMsgPackSmpMqttsControlMessage_def encode_array_def control_items_def comp_defs
      split: sum.splits prod.splits)

lemma pack_certs_encodes:
  assumes "n \<le> length certs" and "list_all WOS_IS_VALID_BUFFER (take n certs)"
  shows "pack_certs C arr n certs = cbor_try (encode_items C arr (map (\<lambda>c. CBytes (the c)) (take n certs)))"
  using assms
  by (induction C arr n certs rule: pack_certs.induct) (auto simp: comp_defs split: sum.splits)

lemma pack_se_encodes:
  assumes "WOS_IS_VALID_BUFFER (se_EncodedSmpHeader s)" and "WOS_IS_VALID_BUFFER (se_EccDhPubParams s)"
    and "WOS_IS_VALID_BUFFER (se_MqttPacket s)" and "WOS_IS_VALID_BUFFER (se_Signature s)"
    and "numCerts s \<noteq> 0" and "ppCerts s = Some certs" and "unat (numCerts s) \<le> length certs"
    and "list_all WOS_IS_VALID_BUFFER (take (unat (numCerts s)) certs)" and "cap \<noteq> 0"
  shows "wosMsgPackSmpMqttsSEMessage C role (Some s) (Some cap)
           = cbor_try (encode_array C cap (se_items role s))"
proof -
  have "\<not> numCerts s < 1"
    using assms(5) by (simp add: word_less_nat_alt unat_eq_0)
  then show ?thesis
    using assms
    by (cases role) (auto simp: wosMsgPackSmpMqttsSEMessage_def encode_array_def se_items_def
        comp_defs encode_items_append pack_certs_encodes [OF assms(7,8)] cbor_try_def
        split: sum.splits prod.splits)
qed

text \<open>
  What is written is read back: unpacking the header out of a message whose first item is the
  encoded header, and unpacking the two messages.
\<close>

lemma unpack_header_decodes:
  assumes hdr: "decodes C hb (header_items h)" and msg: "decodes C msg (CBytes hb # rest)"
    and "msg \<noteq> []" and "calm w" and short: "length (c_string (the (h_clientId h))) < 32"
  shows "wosMsgUnpackSmpHeaderFromSmpMsg C (Some msg) (Some 32) w
           = (Inr (h\<lparr>h_clientId := Some (c_string (the (h_clientId h)))\<rparr>), w)"
proof -
  obtain mv ma where m: "cbor_parser_init C msg = Inr mv" "cbor_value_is_array C mv"
      "cbor_value_enter_container C mv = Inr ma" "walks C ma (CBytes hb # rest)"
    using msg by (auto simp: decodes_def)
  obtain mv' where mb: "msgCborParseByteString C (Some ma) w = (Inr (Some hb, mv'), w)"
    by (rule parse_bytesE [OF m(4) \<open>calm w\<close>])
  obtain v a where h: "cbor_parser_init C hb = Inr v" "cbor_value_is_array C v"
      "cbor_value_enter_container C v = Inr a" "walks C a (header_items h)"
    using hdr by (auto simp: decodes_def)
  show ?thesis
    using m(1,2,3) mb h \<open>msg \<noteq> []\<close> short
    by (cases h) (auto simp: wosMsgUnpackSmpHeaderFromSmpMsg_def comp_defs header_items_def
        msgCborParseUint64_def WCL_SMP_CLIENT_ID_LENGTH_def)
qed

lemma unpack_control_decodes:
  assumes "decodes C msg (control_items p)" and "msg \<noteq> []" and "calm w"
    and "c_EncodedSmpHeader p = Some a" and "c_MqttPacket p = Some b"
    and "c_IV p = Some c" and "c_AuthTag p = Some d"
  shows "wosMsgUnpackSmpMqttsControlMessage C (Some msg) w = (Inr p, w)"
  using assms
  by (cases p) (auto simp: wosMsgUnpackSmpMqttsControlMessage_def comp_defs decodes_def
      control_items_def msgCborParseByteString_def)

lemma unpack_certs_walks:
  assumes "walks C v (map (\<lambda>c. CBytes (the c)) certs)" and "list_all (\<lambda>c. c \<noteq> None) certs"
    and "calm w"
  shows "unpack_certs C False (length certs) v w = (Inr certs, w)"
  using assms
proof (induction certs arbitrary: v)
  case Nil
  then show ?case by (simp add: comp_defs)
next
  case (Cons c certs)
  then obtain b where c: "c = Some b" by auto
  with Cons.prems have "walks C v (CBytes b # map (\<lambda>c. CBytes (the c)) certs)" by simp
  then obtain v' where
      "msgCborParseByteString C (Some v) w = (Inr (Some b, v'), w)"
      "cbor_value_advance C v = Inr v'" "walks C v' (map (\<lambda>c. CBytes (the c)) certs)"
    by (rule parse_bytesE [OF _ \<open>calm w\<close>])
  moreover from this(3) have "unpack_certs C False (length certs) v' w = (Inr certs, w)"
    using Cons.IH Cons.prems(2,3) by simp
  ultimately show ?case
    using c by (simp add: comp_defs)
qed

fun smp_peer :: "smp_role \<Rightarrow> smp_role" where
  "smp_peer SMP_MQTTS_CLIENT = SMP_MQTTS_BROKER"
| "smp_peer SMP_MQTTS_BROKER = SMP_MQTTS_CLIENT"

text \<open>The part of the session-establishment message behind the cipher scheme.\<close>

definition se_tail :: "se_params \<Rightarrow> cbor_item list" where
  "se_tail s =
     [CBytes (the (se_EccDhPubParams s)), CBytes (the (se_MqttPacket s)),
      CBytes (the (se_Signature s)), CUint (ucast (numCerts s))] @
     map (\<lambda>c. CBytes (the c)) (take (unat (numCerts s)) (the (ppCerts s)))"

lemma se_tail_steps:
  assumes "walks C v2 (se_tail s)" and "calm w"
    and bufs: "se_EccDhPubParams s = Some b" "se_MqttPacket s = Some c" "se_Signature s = Some d"
    and certs: "ppCerts s = Some cs" "length cs = unat (numCerts s)" "list_all (\<lambda>c. c \<noteq> None) cs"
  obtains v3 v4 v5 v6 where
    "msgCborParseByteString C (Some v2) w = (Inr (Some b, v3), w)"
    "msgCborParseByteString C (Some v3) w = (Inr (Some c, v4), w)"
    "msgCborParseByteString C (Some v4) w = (Inr (Some d, v5), w)"
    "msgCborParseUint64 C (Some v5) = Inr (ucast (numCerts s))"
    "cbor_value_advance C v5 = Inr v6"
    "unpack_certs C False (unat (numCerts s)) v6 w = (Inr cs, w)"
proof -
  let ?rest = "map (\<lambda>c. CBytes (the c)) cs"
  have "walks C v2 (CBytes b # CBytes c # CBytes d # CUint (ucast (numCerts s)) # ?rest)"
    using assms by (simp add: se_tail_def)
  then obtain v3 where v3: "msgCborParseByteString C (Some v2) w = (Inr (Some b, v3), w)"
      "walks C v3 (CBytes c # CBytes d # CUint (ucast (numCerts s)) # ?rest)"
    by (rule parse_bytesE [OF _ \<open>calm w\<close>])
  from v3(2) obtain v4 where v4: "msgCborParseByteString C (Some v3) w = (Inr (Some c, v4), w)"
      "walks C v4 (CBytes d # CUint (ucast (numCerts s)) # ?rest)"
    by (rule parse_bytesE [OF _ \<open>calm w\<close>])
  from v4(2) obtain v5 where v5: "msgCborParseByteString C (Some v4) w = (Inr (Some d, v5), w)"
      "walks C v5 (CUint (ucast (numCerts s)) # ?rest)"
    by (rule parse_bytesE [OF _ \<open>calm w\<close>])
  from v5(2) obtain v6 where v6: "cbor_value_advance C v5 = Inr v6" "walks C v6 ?rest"
    by auto
  have "unpack_certs C False (unat (numCerts s)) v6 w = (Inr cs, w)"
    unfolding certs(2) [symmetric] by (rule unpack_certs_walks [OF v6(2) certs(3) \<open>calm w\<close>])
  then show thesis
    by (rule that [OF v3(1) v4(1) v5(1) parse_uint_walks [OF v5(2)] v6(1)])
qed

lemma unpack_se_decodes:
  assumes msg: "decodes C msg (se_items role s)" and "msg \<noteq> []" and calm: "calm w"
    and hdr: "se_EncodedSmpHeader s = Some a"
    and bufs: "se_EccDhPubParams s = Some b" "se_MqttPacket s = Some c" "se_Signature s = Some d"
    and certs: "ppCerts s = Some cs" "length cs = unat (numCerts s)" "list_all (\<lambda>c. c \<noteq> None) cs"
    and n: "numCerts s \<noteq> 0"
  shows "wosMsgUnpackSmpMqttsSEMessage C (smp_peer role) (Some msg) w
           = (Inr (s\<lparr>cipherSchemeId := if role = SMP_MQTTS_CLIENT then cipherSchemeId s else 0\<rparr>), w)"
proof -
  define scheme where
    "scheme = (if role = SMP_MQTTS_CLIENT then [CUint (ucast (cipherSchemeId s))] else [])"
  obtain v a0 where v: "cbor_parser_init C msg = Inr v" "cbor_value_is_array C v"
      "cbor_value_enter_container C v = Inr a0" "walks C a0 (CBytes a # scheme @ se_tail s)"
    using msg hdr by (auto simp: decodes_def se_items_def se_tail_def scheme_def)
  obtain v1 where v1: "msgCborParseByteString C (Some a0) w = (Inr (Some a, v1), w)"
      "walks C v1 (scheme @ se_tail s)"
    by (rule parse_bytesE [OF v(4) calm])
  obtain v2 where v2: "walks C v2 (se_tail s)"
      "role = SMP_MQTTS_CLIENT \<Longrightarrow> msgCborParseUint64 C (Some v1) = Inr (ucast (cipherSchemeId s)) \<and>
         cbor_value_advance C v1 = Inr v2"
      "role \<noteq> SMP_MQTTS_CLIENT \<Longrightarrow> v2 = v1"
  proof (cases "role = SMP_MQTTS_CLIENT")
    case True
    then have "walks C v1 (CUint (ucast (cipherSchemeId s)) # se_tail s)"
      using v1(2) by (simp add: scheme_def)
    then show thesis using True that parse_uint_walks by fastforce
  next
    case False
    then show thesis using v1(2) that [of v1] by (simp add: scheme_def)
  qed
  obtain v3 v4 v5 v6 where t: "msgCborParseByteString C (Some v2) w = (Inr (Some b, v3), w)"
    "msgCborParseByteString C (Some v3) w = (Inr (Some c, v4), w)"
    "msgCborParseByteString C (Some v4) w = (Inr (Some d, v5), w)"
    "msgCborParseUint64 C (Some v5) = Inr (ucast (numCerts s))"
    "cbor_value_advance C v5 = Inr v6"
    "unpack_certs C False (unat (numCerts s)) v6 w = (Inr cs, w)"
    by (rule se_tail_steps [OF v2(1) calm bufs certs])
  have pos: "0 < unat (numCerts s) * 8" using n by (simp add: unat_gt_0)
  have al: "alloc (unat (numCerts s) * 8) e w = (Inr (replicate (unat (numCerts s) * 8) (w_junk w)), w)"
    for e :: "msg_error stop"
    by (rule calm_alloc [OF calm pos])
  have eq: "s = \<lparr>se_EncodedSmpHeader = Some a, cipherSchemeId = cipherSchemeId s,
      se_EccDhPubParams = Some b, se_MqttPacket = Some c, se_Signature = Some d,
      numCerts = numCerts s, ppCerts = Some cs\<rparr>"
    using hdr bufs certs(1) by simp
  show ?thesis
  proof (cases role)
    case SMP_MQTTS_CLIENT
    then have "msgCborParseUint64 C (Some v1) = Inr (ucast (cipherSchemeId s))"
        "cbor_value_advance C v1 = Inr v2"
      using v2(2) by simp_all
    then show ?thesis
      using \<open>msg \<noteq> []\<close> SMP_MQTTS_CLIENT
      by (simp add: wosMsgUnpackSmpMqttsSEMessage_def comp_defs v(1,2,3) v1(1) t al eq [symmetric])
  next
    case SMP_MQTTS_BROKER
    then have "v1 = v2" using v2(3) by simp
    moreover have "\<lparr>se_EncodedSmpHeader = Some a, cipherSchemeId = 0,
        se_EccDhPubParams = Some b, se_MqttPacket = Some c, se_Signature = Some d,
        numCerts = numCerts s, ppCerts = Some cs\<rparr> = s\<lparr>cipherSchemeId := 0\<rparr>"
      by (cases s) (use hdr bufs certs(1) in simp)
    ultimately show ?thesis
      using \<open>msg \<noteq> []\<close> SMP_MQTTS_BROKER v1(1)
      by (simp add: wosMsgUnpackSmpMqttsSEMessage_def comp_defs v(1,2,3) t al)
  qed
qed

end
