(* ===== verification/SmpCreds.thy ===== *)
theory SmpCreds
  imports Cert MsgSmp
begin

text \<open>
  \<open>WeeveClientLibrary/src/smp/smpGlobalCreds.c\<close>: the device's own credentials (root
  certificate, own certificate, own signing key), copied from the configuration files into the
  storage when the library starts and removed from it when it ends; and the session record of
  \<open>smpInternal.h\<close>. The build is the one over the standard-C file storage, whose context is NULL.

  The state extends the world with the session the caller passes (\<open>None\<close> is a NULL pointer) and
  with the static chain size. The three storage-id arrays of a session are one region of memory:
  \<open>s_ids\<close> holds the private-key id at 0, the public-key id at 33, the shared-key id at 66, and at
  99 the padding byte that follows them.
\<close>

datatype wcl_error =
    WCL_ERROR
  | WCL_ERROR_BAD_PARAMS
  | WCL_ERROR_BAD_SESSION
  | WCL_ERROR_OUT_OF_MEMORY
  | WCL_ERROR_STORAGE_OPERATION
  | WCL_ERROR_CRYPTO_OPERATION
  | WCL_ERROR_SERIALIZATION
  | WCL_ERROR_INVALID_MESSAGE
  | WCL_ERROR_UNKNOWN

record smp_session =
  s_clientId :: bytes
  isPreSessionSecretsGenerated :: bool
  isSessionKeyEstablished :: bool
  s_ids :: bytes
  toBeSentMessageId :: "32 word"
  lastReceivedMessageId :: "32 word"
  selfPrivKeyStorageId :: wos_string
  selfCertChainStorageId :: wos_string
  selfCertChainSize :: byte
  rootCaStorageId :: wos_string

record 'p smp_world = "'p world" +
  smp_ctx :: "smp_session option"
  gSelfCertChainSize :: byte

lemma calm_smp_update [simp]:
  "calm (w\<lparr>smp_ctx := c\<rparr>) = calm w" "calm (w\<lparr>gSelfCertChainSize := n\<rparr>) = calm w"
  by (simp_all add: calm_def)

lemma holds_key_smp_update [simp]:
  "holds_key (w\<lparr>smp_ctx := c\<rparr>) i b = holds_key w i b"
  "holds_key (w\<lparr>gSelfCertChainSize := n\<rparr>) i b = holds_key w i b"
  by (simp_all add: holds_key_def)

definition WCL_SMP_ROOT_CA_CERT_PATH :: wos_string where
  "WCL_SMP_ROOT_CA_CERT_PATH = Some (cstr ''root.wcr'')"
definition WCL_SMP_SELF_CERT_PATH :: wos_string where
  "WCL_SMP_SELF_CERT_PATH = Some (cstr ''self.wcr'')"
definition WCL_SMP_SELF_SIGNING_KEY_PATH :: wos_string where
  "WCL_SMP_SELF_SIGNING_KEY_PATH = Some (cstr ''self.key'')"
definition gRootCaStorageId :: wos_string where "gRootCaStorageId = Some (cstr ''root_ca'')"
definition gSelfCertStorageId :: wos_string where "gSelfCertStorageId = Some (cstr ''self_cert'')"
definition gSelfPrivKeyStorageId :: wos_string where "gSelfPrivKeyStorageId = Some (cstr ''self_key'')"

definition lSmpUtilsCheckPath :: "wos_string \<Rightarrow> bool" where
  "lSmpUtilsCheckPath filePath \<longleftrightarrow> WOS_IS_VALID_STRING filePath"

definition lSmpUtilsReadFile :: "wos_string \<Rightarrow> (('p, 'z) world_scheme, wcl_error, wos_buffer) comp" where
  "lSmpUtilsReadFile filePath =
     bindE (ensure (WOS_IS_VALID_STRING filePath) (Code WCL_ERROR_BAD_PARAMS)) (\<lambda>_.
     bindE (ensure (lSmpUtilsCheckPath filePath) (Code WCL_ERROR)) (\<lambda>_.
     bindE (libc_try (Code WCL_ERROR_STORAGE_OPERATION)) (\<lambda>_.
     bindE (asks (\<lambda>w. w_files w (c_string (the filePath)))) (\<lambda>file.
     bindE (ensure (file \<noteq> None) (Code WCL_ERROR_STORAGE_OPERATION)) (\<lambda>_.
     bindE (rescue
        (bindE (libc_try (Code WCL_ERROR_STORAGE_OPERATION)) (\<lambda>_.
         bindE (libc_try (Code WCL_ERROR_STORAGE_OPERATION)) (\<lambda>_.
         bindE (alloc 16 (Code WCL_ERROR_OUT_OF_MEMORY)) (\<lambda>_.
         bindE (alloc (length (the file)) (Dangling WCL_ERROR_OUT_OF_MEMORY)) (\<lambda>_.
         libc_try (Dangling WCL_ERROR_STORAGE_OPERATION))))))
        (\<lambda>e. bindE (ignore (libc_try (Code ()))) (\<lambda>_. fail e))) (\<lambda>_.
     bindE (ignore (libc_try (Code ()))) (\<lambda>_.
     ok file)))))))"

text \<open>Only a missing item is looked for in its file; any other storage error is reported.\<close>

definition lSmpUtilInitFileToStorage ::
    "wos_string \<Rightarrow> wos_string \<Rightarrow> (('p, 'z) world_scheme, wcl_error, unit) comp" where
  "lSmpUtilInitFileToStorage fileName storageId =
     bindE (ensure (fileName \<noteq> None \<and> storageId \<noteq> None) (Code WCL_ERROR_BAD_PARAMS)) (\<lambda>_.
     rescue (bindE (wosStorageRead storageId) (\<lambda>_. ok ()))
       (\<lambda>e. if e = Fault then fail Fault
            else if e \<noteq> Code WOS_STORAGE_ERROR_NOT_FOUND then fail (Code WCL_ERROR_STORAGE_OPERATION)
            else bindE (on_error settle (lSmpUtilsReadFile fileName)) (\<lambda>buf.
                 on_error (as_code WCL_ERROR_STORAGE_OPERATION) (wosStorageWrite storageId buf))))"

definition lSmpUtilInitCerts ::
    "wos_string \<Rightarrow> wos_string \<Rightarrow> wos_string \<Rightarrow> (('p, 'z) smp_world_scheme, wcl_error, unit) comp" where
  "lSmpUtilInitCerts rootId certId keyId =
     bindE (lSmpUtilInitFileToStorage WCL_SMP_ROOT_CA_CERT_PATH rootId) (\<lambda>_.
     bindE (lSmpUtilInitFileToStorage WCL_SMP_SELF_CERT_PATH certId) (\<lambda>_.
     bindE (modify (\<lambda>w. w\<lparr>gSelfCertChainSize := 1\<rparr>)) (\<lambda>_.
     lSmpUtilInitFileToStorage WCL_SMP_SELF_SIGNING_KEY_PATH keyId)))"

definition smpInitGlobalCreds :: "(('p, 'z) smp_world_scheme, wcl_error, unit) comp" where
  "smpInitGlobalCreds =
     bindE (on_error (as_code WCL_ERROR_STORAGE_OPERATION) wosStorageInitialize) (\<lambda>_.
     on_error (as_code WCL_ERROR)
       (lSmpUtilInitCerts gRootCaStorageId gSelfCertStorageId gSelfPrivKeyStorageId))"

definition smpDeInitGlobalCreds :: "(('p, 'z) smp_world_scheme, wcl_error, unit) comp" where
  "smpDeInitGlobalCreds =
     bindE (ignore (wosStorageDelete gRootCaStorageId)) (\<lambda>_.
     bindE (ignore (wosStorageDelete gSelfCertStorageId)) (\<lambda>_.
     bindE (ignore (wosStorageDelete gSelfPrivKeyStorageId)) (\<lambda>_.
     ignore wosStorageTerminate)))"

definition smpConfigGlobalCreds :: "(('p, 'z) smp_world_scheme, wcl_error, unit) comp" where
  "smpConfigGlobalCreds =
     bindE (asks smp_ctx) (\<lambda>ctx.
     bindE (ensure (ctx \<noteq> None) (Code WCL_ERROR_BAD_PARAMS)) (\<lambda>_.
     modify (\<lambda>w. w\<lparr>smp_ctx := Some (the ctx\<lparr>rootCaStorageId := gRootCaStorageId,
        selfCertChainStorageId := gSelfCertStorageId, selfPrivKeyStorageId := gSelfPrivKeyStorageId,
        selfCertChainSize := gSelfCertChainSize w\<rparr>)\<rparr>)))"

section \<open>Start and end of the credentials\<close>

lemma c_string_cstr: "\<forall>c \<in> set s. 0 < (of_char c :: nat) \<Longrightarrow> c_string (cstr s) = cstr s"
proof -
  assume a: "\<forall>c \<in> set s. 0 < (of_char c :: nat)"
  have "word_of_nat (of_char c) \<noteq> (0 :: byte)" if "c \<in> set s" for c
  proof -
    have "0 < (of_char c :: nat)" "(of_char c :: nat) < 256" using a that by (auto simp: of_char_def)
    then show ?thesis by (simp add: word_of_nat_eq_0_iff nat_dvd_not_less)
  qed
  then have "0 \<notin> set (cstr s)" by (auto simp: cstr_def)
  then show ?thesis by (rule c_string_no_NUL)
qed

lemma cred_ids [simp]:
  "lWosStorageIsKeyValid gRootCaStorageId" "lWosStorageIsKeyValid gSelfCertStorageId"
  "lWosStorageIsKeyValid gSelfPrivKeyStorageId"
  by (simp_all add: lWosStorageIsKeyValid_def gRootCaStorageId_def gSelfCertStorageId_def
      gSelfPrivKeyStorageId_def cstr_def c_string_def)

lemma cred_strings:
  "c_string (the gRootCaStorageId) = cstr ''root_ca''"
  "c_string (the gSelfCertStorageId) = cstr ''self_cert''"
  "c_string (the gSelfPrivKeyStorageId) = cstr ''self_key''"
  "c_string (the WCL_SMP_ROOT_CA_CERT_PATH) = cstr ''root.wcr''"
  "c_string (the WCL_SMP_SELF_CERT_PATH) = cstr ''self.wcr''"
  "c_string (the WCL_SMP_SELF_SIGNING_KEY_PATH) = cstr ''self.key''"
  by (simp_all add: gRootCaStorageId_def gSelfCertStorageId_def gSelfPrivKeyStorageId_def
      WCL_SMP_ROOT_CA_CERT_PATH_def WCL_SMP_SELF_CERT_PATH_def WCL_SMP_SELF_SIGNING_KEY_PATH_def
      cstr_def c_string_def)

text \<open>What the storage holds once an item has been initialised from its file.\<close>

definition item_after :: "(bytes \<Rightarrow> bytes option) \<Rightarrow> bytes \<Rightarrow> bytes \<Rightarrow> bytes" where
  "item_after files path item = (case files item of Some b \<Rightarrow> b | None \<Rightarrow> the (files path))"

lemma init_file_calm:
  assumes "calm w" and "lWosStorageIsKeyValid i" and "WOS_IS_VALID_STRING f"
    and "w_files w (c_string (the f)) = Some b" and "b \<noteq> []"
    and "w_files w (c_string (the i)) \<noteq> Some []"
  shows "lSmpUtilInitFileToStorage f i w
    = (Inr (), put_file (c_string (the i)) (item_after (w_files w) (c_string (the f)) (c_string (the i))) w)"
proof (cases "w_files w (c_string (the i))")
  case None
  have "f \<noteq> None" "i \<noteq> None" using key_valid_string [OF assms(2)] assms(3) by (auto simp: valid_string_iff)
  then show ?thesis
    using None assms
    by (simp add: lSmpUtilInitFileToStorage_def comp_defs read_calm lSmpUtilsReadFile_def
        lSmpUtilsCheckPath_def write_calm item_after_def)
next
  case (Some a)
  have "f \<noteq> None" "i \<noteq> None" using key_valid_string [OF assms(2)] assms(3) by (auto simp: valid_string_iff)
  moreover have "put_file (c_string (the i)) a w = w"
    using Some by (simp add: put_file_def fun_upd_idem)
  ultimately show ?thesis
    using Some assms by (simp add: lSmpUtilInitFileToStorage_def comp_defs read_calm item_after_def)
qed

lemma cred_names_differ:
  "cstr ''root_ca'' \<noteq> cstr ''self_cert''" "cstr ''root_ca'' \<noteq> cstr ''self_key''"
  "cstr ''self_cert'' \<noteq> cstr ''self_key''" "cstr ''root_ca'' \<noteq> cstr ''self.wcr''"
  "cstr ''root_ca'' \<noteq> cstr ''self.key''" "cstr ''self_cert'' \<noteq> cstr ''self.key''"
  "cstr ''self_cert'' \<noteq> cstr ''self.wcr''" "cstr ''self_key'' \<noteq> cstr ''self.key''"
  by (simp_all add: cstr_def)

lemma cred_paths_valid:
  "WOS_IS_VALID_STRING WCL_SMP_ROOT_CA_CERT_PATH" "WOS_IS_VALID_STRING WCL_SMP_SELF_CERT_PATH"
  "WOS_IS_VALID_STRING WCL_SMP_SELF_SIGNING_KEY_PATH"
  by (simp_all add: WCL_SMP_ROOT_CA_CERT_PATH_def WCL_SMP_SELF_CERT_PATH_def
      WCL_SMP_SELF_SIGNING_KEY_PATH_def cstr_def c_string_def)

text \<open>
  Starting the library leaves every credential in the storage: the stored one when there is one,
  else the one of the configuration file. The rest of the storage is untouched.
\<close>

definition creds_loaded :: "(bytes \<Rightarrow> bytes option) \<Rightarrow> (bytes \<Rightarrow> bytes option)" where
  "creds_loaded files = files
     (cstr ''root_ca'' \<mapsto> item_after files (cstr ''root.wcr'') (cstr ''root_ca''),
      cstr ''self_cert'' \<mapsto> item_after files (cstr ''self.wcr'') (cstr ''self_cert''),
      cstr ''self_key'' \<mapsto> item_after files (cstr ''self.key'') (cstr ''self_key''))"

definition config_files_ok :: "(bytes \<Rightarrow> bytes option) \<Rightarrow> bool" where
  "config_files_ok files \<longleftrightarrow>
     (\<forall>p \<in> {cstr ''root.wcr'', cstr ''self.wcr'', cstr ''self.key''}. files p \<noteq> None \<and> files p \<noteq> Some []) \<and>
     (\<forall>i \<in> {cstr ''root_ca'', cstr ''self_cert'', cstr ''self_key''}. files i \<noteq> Some [])"

lemma init_creds_calm:
  fixes w :: "('p, 'z) smp_world_scheme"
  assumes "calm w" and "config_files_ok (w_files w)"
  obtains w' where "smpInitGlobalCreds w = (Inr (), w')" and "calm w'"
    and "w_files w' = creds_loaded (w_files w)" and "gSelfCertChainSize w' = 1"
    and "smp_ctx w' = smp_ctx w"
proof -
  obtain r c k where files: "w_files w (cstr ''root.wcr'') = Some r" "r \<noteq> []"
      "w_files w (cstr ''self.wcr'') = Some c" "c \<noteq> []" "w_files w (cstr ''self.key'') = Some k" "k \<noteq> []"
    and items: "w_files w (cstr ''root_ca'') \<noteq> Some []" "w_files w (cstr ''self_cert'') \<noteq> Some []"
      "w_files w (cstr ''self_key'') \<noteq> Some []"
    using assms(2) by (auto simp: config_files_ok_def)
  define w1 where "w1 = put_file (cstr ''root_ca'') (item_after (w_files w) (cstr ''root.wcr'') (cstr ''root_ca'')) w"
  define w2 where "w2 = put_file (cstr ''self_cert'') (item_after (w_files w1) (cstr ''self.wcr'') (cstr ''self_cert'')) w1"
  define w3 where "w3 = w2\<lparr>gSelfCertChainSize := 1\<rparr>"
  define w4 where "w4 = put_file (cstr ''self_key'') (item_after (w_files w3) (cstr ''self.key'') (cstr ''self_key'')) w3"
  note defs = w1_def w2_def w3_def w4_def
  note names = cred_names_differ cred_names_differ [symmetric]
  have s1: "lSmpUtilInitFileToStorage WCL_SMP_ROOT_CA_CERT_PATH gRootCaStorageId w = (Inr (), w1)"
    using init_file_calm [of w gRootCaStorageId WCL_SMP_ROOT_CA_CERT_PATH r] assms(1) files items
    by (simp add: w1_def cred_strings cred_paths_valid)
  have s2: "lSmpUtilInitFileToStorage WCL_SMP_SELF_CERT_PATH gSelfCertStorageId w1 = (Inr (), w2)"
    using init_file_calm [of w1 gSelfCertStorageId WCL_SMP_SELF_CERT_PATH c] assms(1) files items
    by (simp add: defs cred_strings cred_paths_valid names)
  have s3: "lSmpUtilInitFileToStorage WCL_SMP_SELF_SIGNING_KEY_PATH gSelfPrivKeyStorageId w3 = (Inr (), w4)"
    using init_file_calm [of w3 gSelfPrivKeyStorageId WCL_SMP_SELF_SIGNING_KEY_PATH k] assms(1) files items
    by (simp add: defs cred_strings cred_paths_valid names)
  have "smpInitGlobalCreds w = (Inr (), w4)"
    using s1 s2 s3 by (simp add: smpInitGlobalCreds_def lSmpUtilInitCerts_def wosStorageInitialize_def
        comp_defs w3_def)
  moreover have "w_files w4 = creds_loaded (w_files w)"
    by (simp add: defs creds_loaded_def item_after_def names split: option.split)
  moreover have "calm w4" "gSelfCertChainSize w4 = 1" "smp_ctx w4 = smp_ctx w"
    using assms(1) by (simp_all add: defs put_file_def)
  ultimately show thesis using that by blast
qed

text \<open>Ending it removes them all, whatever was there.\<close>

lemma ignore_delete_calm:
  "calm w \<Longrightarrow> lWosStorageIsKeyValid i \<Longrightarrow>
   ignore (wosStorageDelete i) w = (Inr (), w\<lparr>w_files := (w_files w)(c_string (the i) := None)\<rparr>)"
  by (simp add: ignore_def delete_calm fun_upd_idem)

lemma deinit_creds_calm:
  assumes "calm w"
  shows "smpDeInitGlobalCreds w = (Inr (), w\<lparr>w_files := (w_files w)(cstr ''root_ca'' := None,
    cstr ''self_cert'' := None, cstr ''self_key'' := None)\<rparr>)"
  using assms
  by (simp add: smpDeInitGlobalCreds_def bindE_def ignore_delete_calm cred_strings)
    (simp add: ignore_def wosStorageTerminate_def ok_def)

end
