(* ===== verification/SmpSession.thy ===== *)
theory SmpSession
  imports SmpCreds
begin

text \<open>
  \<open>WeeveClientLibrary/src/smp/smpInternal.c\<close> and \<open>smpInternalUtils.c\<close>: an SMP session, from its
  random storage ids and key pair over the session-establishment messages to secured control
  messages. The library is built for one side; \<open>role\<close> is that side.
\<close>

section \<open>Buffers assembled from pieces\<close>

text \<open>
  The code assembles what it signs or authenticates in a buffer of the summed (32-bit) length,
  copying the pieces one behind the other.
\<close>

fun fill :: "bytes \<Rightarrow> nat \<Rightarrow> bytes list \<Rightarrow> ('e, bytes) res" where
  "fill m off [] = Inr m"
| "fill m off (p # ps) =
     bindR (wosMemCopy (Some m) off (Some p) (length p)) (\<lambda>m'. fill (the m') (u32 (off + length p)) ps)"

definition assemble :: "bytes list \<Rightarrow> (('p, 'z) world_scheme, wcl_error, bytes) comp" where
  "assemble pieces =
     bindE (alloc (u32 (sum_list (map length pieces))) (Code WCL_ERROR_OUT_OF_MEMORY)) (\<lambda>m.
     pure_res (fill m 0 pieces))"

section \<open>Constants and labels\<close>

definition WCL_SMP_CIPHER_SCHEME_ID0 :: byte where "WCL_SMP_CIPHER_SCHEME_ID0 = 0"
definition SMP_MQTTS_SE_MSG_SERIALIZER_SIZE_OVERHEAD :: nat where
  "SMP_MQTTS_SE_MSG_SERIALIZER_SIZE_OVERHEAD = 10 * 4"
definition SMP_MQTTS_CONTROL_MSG_SERIALIZER_SIZE_OVERHEAD :: nat where
  "SMP_MQTTS_CONTROL_MSG_SERIALIZER_SIZE_OVERHEAD = 4 * 4"
definition SMP_ENCODED_HEADER_LENGTH :: nat where
  "SMP_ENCODED_HEADER_LENGTH = (3 + 8 + 8) + WCL_SMP_CLIENT_ID_LENGTH"

definition gClientToBrokerMsgLabels :: "wos_string list" where
  "gClientToBrokerMsgLabels =
     [None, None, Some (cstr ''C2B_PUBLIS''), Some (cstr ''C2B_PUBACK''), Some (cstr ''C2B_PUBREC''),
      Some (cstr ''C2B_PUBREL''), Some (cstr ''C2B_PUBCOM''), Some (cstr ''C2B_SUBSCR''),
      Some (cstr ''C2B_SUBACK''), Some (cstr ''C2B_USUBSC''), Some (cstr ''C2B_USUBAC''),
      Some (cstr ''C2B_PINGRQ''), Some (cstr ''C2B_PINGRS''), Some (cstr ''C2B_DISCON'')]"

definition gBrokerToClientMsgLabels :: "wos_string list" where
  "gBrokerToClientMsgLabels =
     [None, None, Some (cstr ''B2C_PUBLIS''), Some (cstr ''B2C_PUBACK''), Some (cstr ''B2C_PUBREC''),
      Some (cstr ''B2C_PUBREL''), Some (cstr ''B2C_PUBCOM''), Some (cstr ''B2C_SUBSCR''),
      Some (cstr ''B2C_SUBACK''), Some (cstr ''B2C_USUBSC''), Some (cstr ''B2C_USUBAC''),
      Some (cstr ''B2C_PINGRQ''), Some (cstr ''B2C_PINGRS''), Some (cstr ''B2C_DISCON'')]"

text \<open>The tables are indexed by the message type itself; an index behind the table is a fault.\<close>

fun labels_from :: "smp_role \<Rightarrow> wos_string list" where
  "labels_from SMP_MQTTS_CLIENT = gClientToBrokerMsgLabels"
| "labels_from SMP_MQTTS_BROKER = gBrokerToClientMsgLabels"

definition label_bytes :: "wos_string list \<Rightarrow> byte \<Rightarrow> (wcl_error, bytes) res" where
  "label_bytes labels mtype =
     (if unat mtype < length labels
      then Inr (case labels ! unat mtype of None \<Rightarrow> [] | Some m \<Rightarrow> c_string m) else Inl Fault)"

section \<open>The session\<close>

definition get_ctx :: "(('p, 'z) smp_world_scheme, wcl_error, smp_session) comp" where
  "get_ctx w = (case smp_ctx w of None \<Rightarrow> (Inl (Code WCL_ERROR_BAD_PARAMS), w) | Some s \<Rightarrow> (Inr s, w))"

definition upd_ctx ::
    "(smp_session \<Rightarrow> smp_session) \<Rightarrow> (('p, 'z) smp_world_scheme, wcl_error, unit) comp" where
  "upd_ctx f = modify (\<lambda>w. w\<lparr>smp_ctx := map_option f (smp_ctx w)\<rparr>)"

definition sessionPrivateKeyStorageId :: "smp_session \<Rightarrow> wos_string" where
  "sessionPrivateKeyStorageId s = Some (s_ids s)"
definition sessionPublicKeyStorageId :: "smp_session \<Rightarrow> wos_string" where
  "sessionPublicKeyStorageId s = Some (drop 33 (s_ids s))"
definition sessionSharedKeyStorageId :: "smp_session \<Rightarrow> wos_string" where
  "sessionSharedKeyStorageId s = Some (drop 66 (s_ids s))"

definition hexString :: bytes where "hexString = cstr ''0123456789ABCDEF''"

definition hex_of :: "bytes \<Rightarrow> bytes" where
  "hex_of bs = concat (map (\<lambda>b. [hexString ! unat (drop_bit 4 b AND 0x0F), hexString ! unat (b AND 0x0F)]) bs)"

text \<open>
  \<open>smpUtilsGen32CharRandomId\<close> on the id array that starts at \<open>base\<close>: 32 hexadecimal characters,
  and a NUL stored at index 33, which is the byte behind the array.
\<close>

definition put_id :: "bytes \<Rightarrow> nat \<Rightarrow> bytes \<Rightarrow> bytes" where
  "put_id mem base r = (take base mem @ hex_of r @ drop (base + 32) mem)[base + 33 := 0]"

definition smpUtilsGen32CharRandomId ::
    "('k, 'p) tom_api \<Rightarrow> nat \<Rightarrow> (('p, 'z) smp_world_scheme, wcl_error, unit) comp" where
  "smpUtilsGen32CharRandomId T base =
     bindE get_ctx (\<lambda>ctx.
     bindE (on_error (as_code WCL_ERROR_CRYPTO_OPERATION) (wosCryptoGetRandomBytes T (Some 16))) (\<lambda>r.
     bindE (ensure (base + 33 < length (s_ids ctx)) Fault) (\<lambda>_.
     upd_ctx (\<lambda>c. c\<lparr>s_ids := put_id (s_ids ctx) base r\<rparr>))))"

definition fresh_session :: smp_session where
  "fresh_session =
    \<lparr>s_clientId = replicate 33 0, isPreSessionSecretsGenerated = False,
     isSessionKeyEstablished = False, s_ids = replicate 100 0, toBeSentMessageId = 0,
     lastReceivedMessageId = 0, selfPrivKeyStorageId = None, selfCertChainStorageId = None,
     selfCertChainSize = 0, rootCaStorageId = None\<rparr>"

text \<open>
  The new session is handed out only at the end; on an error the caller's pointer is unchanged.
  Without memory for it, the error path reads a member of the NULL context.
\<close>

definition smpInitialiseSessionParams ::
    "('k, 'p) tom_api \<Rightarrow> (('p, 'z) smp_world_scheme, wcl_error, unit) comp" where
  "smpInitialiseSessionParams T =
     bindE (alloc 208 Fault) (\<lambda>_.
     bindE (asks smp_ctx) (\<lambda>old.
     rescue
       (bindE (modify (\<lambda>w. w\<lparr>smp_ctx := Some fresh_session\<rparr>)) (\<lambda>_.
        bindE (on_error (as_code WCL_ERROR_STORAGE_OPERATION) wosStorageInitialize) (\<lambda>_.
        bindE smpConfigGlobalCreds (\<lambda>_.
        bindE (on_error (as_code WCL_ERROR) (smpUtilsGen32CharRandomId T 0)) (\<lambda>_.
        bindE (on_error (as_code WCL_ERROR) (smpUtilsGen32CharRandomId T 33)) (\<lambda>_.
        bindE get_ctx (\<lambda>ctx.
        bindE (on_error (as_code WCL_ERROR_CRYPTO_OPERATION)
                 (wosCryptoEccGenerateKey T (sessionPrivateKeyStorageId ctx)
                    (sessionPublicKeyStorageId ctx))) (\<lambda>_.
        bindE (upd_ctx (\<lambda>c. c\<lparr>isPreSessionSecretsGenerated := True\<rparr>)) (\<lambda>_.
        on_error (as_code WCL_ERROR) (smpUtilsGen32CharRandomId T 66))))))))))
       (\<lambda>e. bindE (modify (\<lambda>w. w\<lparr>smp_ctx := old\<rparr>)) (\<lambda>_. fail e))))"

definition smpDeleteSessionCredentials :: "(('p, 'z) smp_world_scheme, wcl_error, unit) comp" where
  "smpDeleteSessionCredentials =
     bindE get_ctx (\<lambda>ctx.
     bindE (if isPreSessionSecretsGenerated ctx
            then bindE (ignore (wosStorageDelete (sessionPrivateKeyStorageId ctx))) (\<lambda>_.
                 ignore (wosStorageDelete (sessionPublicKeyStorageId ctx)))
            else ok ()) (\<lambda>_.
     bindE (if isSessionKeyEstablished ctx
            then ignore (wosStorageDelete (sessionSharedKeyStorageId ctx)) else ok ()) (\<lambda>_.
     bindE (ignore wosStorageTerminate) (\<lambda>_.
     modify (\<lambda>w. w\<lparr>smp_ctx := None\<rparr>)))))"

section \<open>The header\<close>

definition lSmpPackHeader ::
    "('e, 'v) cbor_api \<Rightarrow> byte \<Rightarrow> (('p, 'z) smp_world_scheme, wcl_error, bytes) comp" where
  "lSmpPackHeader C mtype =
     bindE get_ctx (\<lambda>ctx.
     bindE (alloc SMP_ENCODED_HEADER_LENGTH (Code WCL_ERROR_OUT_OF_MEMORY)) (\<lambda>_.
     on_error (as_code WCL_ERROR_SERIALIZATION)
       (pure_res (wosMsgPackSmpHeader C
          (Some \<lparr>messageContext = WOS_MSG_CONTEXT_SMP_MQTTS, messageContextVersion = 0,
                 messageType = mtype, h_clientId = Some (s_clientId ctx),
                 messageId = toBeSentMessageId ctx\<rparr>)
          (Some SMP_ENCODED_HEADER_LENGTH)))))"

definition allowed_types :: "smp_role \<Rightarrow> byte list" where
  "allowed_types role =
     [WCL_SMP_MESSAGE_MQTTS_PUBLISH, WCL_SMP_MESSAGE_MQTTS_PUBACK, WCL_SMP_MESSAGE_MQTTS_PUBREC,
      WCL_SMP_MESSAGE_MQTTS_PUBREL, WCL_SMP_MESSAGE_MQTTS_PUBCOMP] @
     (case role of
        SMP_MQTTS_CLIENT \<Rightarrow>
          [WCL_SMP_MESSAGE_MQTTS_CONNACK, WCL_SMP_MESSAGE_MQTTS_SUBACK,
           WCL_SMP_MESSAGE_MQTTS_UNSUBACK, WCL_SMP_MESSAGE_MQTTS_PINGRESP]
      | SMP_MQTTS_BROKER \<Rightarrow>
          [WCL_SMP_MESSAGE_MQTTS_CONNECT, WCL_SMP_MESSAGE_MQTTS_SUBSCRIBE,
           WCL_SMP_MESSAGE_MQTTS_UNSUBSCRIBE, WCL_SMP_MESSAGE_MQTTS_PINGREQ,
           WCL_SMP_MESSAGE_MQTTS_DISCONNECT])"

definition lSmpValidateSmpHeader ::
    "smp_role \<Rightarrow> smp_header \<Rightarrow> (('p, 'z) smp_world_scheme, wcl_error, unit) comp" where
  "lSmpValidateSmpHeader role h =
     bindE get_ctx (\<lambda>ctx.
     bindE (ensure (messageContext h = WOS_MSG_CONTEXT_SMP_MQTTS) (Code WCL_ERROR_INVALID_MESSAGE)) (\<lambda>_.
     bindE (ensure (messageType h \<in> set (allowed_types role)) (Code WCL_ERROR_INVALID_MESSAGE)) (\<lambda>_.
     ensure (\<not> messageId h < lastReceivedMessageId ctx) (Code WCL_ERROR_INVALID_MESSAGE))))"

section \<open>Session establishment\<close>

text \<open>
  The data that is signed: header, cipher scheme (from the client only), public key, packet.
  \<open>sender\<close> is the side that sends the message.
\<close>

definition se_pieces :: "smp_role \<Rightarrow> bytes \<Rightarrow> byte \<Rightarrow> bytes \<Rightarrow> bytes \<Rightarrow> bytes list" where
  "se_pieces sender hdr scheme dh pkt =
     [hdr] @ (if sender = SMP_MQTTS_CLIENT then [[scheme]] else []) @ [dh, pkt]"

definition lSmpGetDeviceCertificates ::
    "se_params \<Rightarrow> (('p, 'z) smp_world_scheme, wcl_error, se_params) comp" where
  "lSmpGetDeviceCertificates p =
     bindE (upd_ctx (\<lambda>c. c\<lparr>selfCertChainSize := 1\<rparr>)) (\<lambda>_.
     bindE get_ctx (\<lambda>ctx.
     bindE (alloc 8 (Code WCL_ERROR_OUT_OF_MEMORY)) (\<lambda>_.
     bindE (on_error (as_code WCL_ERROR_STORAGE_OPERATION)
              (wosStorageRead (selfCertChainStorageId ctx))) (\<lambda>cert.
     ok (p\<lparr>ppCerts := Some [cert], numCerts := selfCertChainSize ctx\<rparr>)))))"

text \<open>
  A failed signature leaves its buffer dangling in the parameters, and the caller frees the
  parameters on its way out. Also returns the estimated size of the packed message.
\<close>

definition lSmpSignSeParams ::
    "('k, 'p) tom_api \<Rightarrow> smp_role \<Rightarrow> se_params \<Rightarrow>
     (('p, 'z) smp_world_scheme, wcl_error, se_params \<times> nat) comp" where
  "lSmpSignSeParams T role p0 =
     bindE get_ctx (\<lambda>ctx.
     bindE (ensure (se_EncodedSmpHeader p0 \<noteq> None \<and> se_EccDhPubParams p0 \<noteq> None \<and>
                    se_MqttPacket p0 \<noteq> None) (Code WCL_ERROR_BAD_PARAMS)) (\<lambda>_.
     bindE (ok (if role = SMP_MQTTS_CLIENT
                then p0\<lparr>cipherSchemeId := WCL_SMP_CIPHER_SCHEME_ID0\<rparr> else p0)) (\<lambda>p.
     bindE (ok (se_pieces role (the (se_EncodedSmpHeader p)) (cipherSchemeId p)
                  (the (se_EccDhPubParams p)) (the (se_MqttPacket p)))) (\<lambda>pieces.
     bindE (assemble pieces) (\<lambda>d.
     bindE (on_error (as_freeing WCL_ERROR_CRYPTO_OPERATION)
              (wosCryptoEccSign T (selfPrivKeyStorageId ctx) (Some d))) (\<lambda>sig.
     bindE (lSmpGetDeviceCertificates (p\<lparr>se_Signature := sig\<rparr>)) (\<lambda>q.
     ok (q, u32 (SMP_MQTTS_SE_MSG_SERIALIZER_SIZE_OVERHEAD + length d + length (the sig) + 1 +
                 sum_list (map (\<lambda>c. length (the c))
                   (take (unat (numCerts q)) (the (ppCerts q)))))))))))))"

definition smpExportSessionEstablishmentParams ::
    "('e, 'v) cbor_api \<Rightarrow> ('k, 'p) tom_api \<Rightarrow> smp_role \<Rightarrow> wos_buffer \<Rightarrow>
     (('p, 'z) smp_world_scheme, wcl_error, bytes) comp" where
  "smpExportSessionEstablishmentParams C T role pStdProtocolSEParams =
     bindE get_ctx (\<lambda>ctx.
     bindE (ensure (WOS_IS_VALID_BUFFER pStdProtocolSEParams) (Code WCL_ERROR_BAD_PARAMS)) (\<lambda>_.
     bindE (lSmpPackHeader C (if role = SMP_MQTTS_CLIENT then WCL_SMP_MESSAGE_MQTTS_CONNECT
                              else WCL_SMP_MESSAGE_MQTTS_CONNACK)) (\<lambda>encodedHeader.
     bindE (on_error (as_freeing WCL_ERROR_CRYPTO_OPERATION)
              (wosCryptoEccReadPubKey (sessionPublicKeyStorageId ctx))) (\<lambda>dh.
     bindE (ensure (WOS_IS_VALID_BUFFER dh) (Code WCL_ERROR_CRYPTO_OPERATION)) (\<lambda>_.
     bindE (lSmpSignSeParams T role
              \<lparr>se_EncodedSmpHeader = Some encodedHeader, cipherSchemeId = 0, se_EccDhPubParams = dh,
               se_MqttPacket = pStdProtocolSEParams, se_Signature = None, numCerts = 0,
               ppCerts = None\<rparr>) (\<lambda>(p, total).
     bindE (alloc total (Code WCL_ERROR_OUT_OF_MEMORY)) (\<lambda>_.
     bindE (on_error (as_code WCL_ERROR_SERIALIZATION)
              (pure_res (wosMsgPackSmpMqttsSEMessage C role (Some p) (Some total)))) (\<lambda>msg.
     bindE (upd_ctx (\<lambda>c. c\<lparr>toBeSentMessageId := toBeSentMessageId c + 1\<rparr>)) (\<lambda>_.
     ok msg)))))))))"

text \<open>An entry of the certificate list behind its end is a fault.\<close>

definition certs_present :: "nat \<Rightarrow> wos_buffer list \<Rightarrow> (wcl_error, unit) res" where
  "certs_present n certs =
     (if None \<in> set (take n certs) then Inl (Code WCL_ERROR_INVALID_MESSAGE)
      else if length certs < n then Inl Fault else Inr ())"

definition lSmpVerifySeParams ::
    "('e, 'v) cbor_api \<Rightarrow> ('k, 'p) tom_api \<Rightarrow> smp_role \<Rightarrow> se_params \<Rightarrow>
     (('p, 'z) smp_world_scheme, wcl_error, unit) comp" where
  "lSmpVerifySeParams C T role p =
     bindE get_ctx (\<lambda>ctx.
     bindE (ensure (WOS_IS_VALID_BUFFER (se_EncodedSmpHeader p) \<and>
                    WOS_IS_VALID_BUFFER (se_EccDhPubParams p) \<and>
                    WOS_IS_VALID_BUFFER (se_MqttPacket p) \<and>
                    (role = SMP_MQTTS_BROKER \<longrightarrow> cipherSchemeId p = WCL_SMP_CIPHER_SCHEME_ID0) \<and>
                    \<not> numCerts p < 1 \<and> ppCerts p \<noteq> None) (Code WCL_ERROR_INVALID_MESSAGE)) (\<lambda>_.
     bindE (pure_res (certs_present (unat (numCerts p)) (the (ppCerts p)))) (\<lambda>_.
     bindE (assemble (se_pieces (smp_peer role) (the (se_EncodedSmpHeader p)) (cipherSchemeId p)
              (the (se_EccDhPubParams p)) (the (se_MqttPacket p)))) (\<lambda>d.
     bindE (on_error (as_freeing WCL_ERROR_STORAGE_OPERATION)
              (wosStorageRead (rootCaStorageId ctx))) (\<lambda>root.
     on_error (as_code WCL_ERROR_INVALID_MESSAGE)
       (wosCertValidateData C T root (unat (numCerts p)) (ppCerts p) (Some d) (se_Signature p)))))))"

definition lSmpProcessSeMessage ::
    "('e, 'v) cbor_api \<Rightarrow> ('k, 'p) tom_api \<Rightarrow> smp_role \<Rightarrow> wos_buffer \<Rightarrow>
     (('p, 'z) smp_world_scheme, wcl_error, wos_buffer) comp" where
  "lSmpProcessSeMessage C T role pSmpSEMessage =
     bindE get_ctx (\<lambda>ctx.
     bindE (ensure (WOS_IS_VALID_BUFFER pSmpSEMessage) (Code WCL_ERROR_BAD_PARAMS)) (\<lambda>_.
     bindE (on_error (as_code WCL_ERROR_SERIALIZATION)
              (wosMsgUnpackSmpMqttsSEMessage C role pSmpSEMessage)) (\<lambda>p.
     bindE (lSmpVerifySeParams C T role p) (\<lambda>_.
     bindE (on_error (as_code WCL_ERROR_CRYPTO_OPERATION)
              (wosCryptoDeriveSymKey T (se_EccDhPubParams p) (sessionPrivateKeyStorageId ctx)
                 (sessionSharedKeyStorageId ctx))) (\<lambda>_.
     bindE (upd_ctx (\<lambda>c. c\<lparr>isSessionKeyEstablished := True\<rparr>)) (\<lambda>_.
     bindE (ignore (wosStorageDelete (sessionPrivateKeyStorageId ctx))) (\<lambda>_.
     bindE (if role = SMP_MQTTS_CLIENT
            then ignore (wosStorageDelete (sessionPublicKeyStorageId ctx)) else ok ()) (\<lambda>_.
     bindE (alloc (length (the (se_MqttPacket p))) (Code WCL_ERROR_OUT_OF_MEMORY)) (\<lambda>_.
     ok (se_MqttPacket p))))))))))"

section \<open>Control messages\<close>

definition encrypted_types :: "byte list" where
  "encrypted_types =
     [WCL_SMP_MESSAGE_MQTTS_PUBLISH, WCL_SMP_MESSAGE_MQTTS_SUBSCRIBE, WCL_SMP_MESSAGE_MQTTS_SUBACK,
      WCL_SMP_MESSAGE_MQTTS_UNSUBSCRIBE]"

fun decrypted_types :: "smp_role \<Rightarrow> byte list" where
  "decrypted_types SMP_MQTTS_CLIENT = [WCL_SMP_MESSAGE_MQTTS_PUBLISH, WCL_SMP_MESSAGE_MQTTS_SUBACK]"
| "decrypted_types SMP_MQTTS_BROKER =
     [WCL_SMP_MESSAGE_MQTTS_PUBLISH, WCL_SMP_MESSAGE_MQTTS_SUBSCRIBE,
      WCL_SMP_MESSAGE_MQTTS_UNSUBSCRIBE]"

text \<open>
  What is authenticated: header, label, and the packet when it travels in clear. The result of
  a failed encryption is freed again by this routine.
\<close>

definition smpSecureMessage ::
    "('e, 'v) cbor_api \<Rightarrow> ('k, 'p) tom_api \<Rightarrow> smp_role \<Rightarrow> byte \<Rightarrow> wos_buffer \<Rightarrow>
     (('p, 'z) smp_world_scheme, wcl_error, bytes) comp" where
  "smpSecureMessage C T role mtype pClearMessage =
     bindE get_ctx (\<lambda>ctx.
     bindE (ensure (WOS_IS_VALID_BUFFER pClearMessage) (Code WCL_ERROR_BAD_PARAMS)) (\<lambda>_.
     bindE (ensure (\<not> (mtype < WCL_SMP_MESSAGE_MQTTS_CONNECT \<or> WCL_SMP_MESSAGE_MQTTS_DISCONNECT < mtype))
              (Code WCL_ERROR_INVALID_MESSAGE)) (\<lambda>_.
     bindE (ensure (isSessionKeyEstablished ctx) (Code WCL_ERROR_BAD_SESSION)) (\<lambda>_.
     bindE (lSmpPackHeader C mtype) (\<lambda>encodedHeader.
     bindE (ok (mtype \<in> set encrypted_types)) (\<lambda>encryptMqttPacket.
     bindE (pure_res (label_bytes (labels_from role) mtype)) (\<lambda>label.
     bindE (assemble ([encodedHeader, label] @
              (if encryptMqttPacket then [] else [the pClearMessage]))) (\<lambda>aad.
     bindE (on_error (as_freeing WCL_ERROR_CRYPTO_OPERATION)
              (wosCryptoAeEncrypt T (sessionSharedKeyStorageId ctx)
                 (if encryptMqttPacket then pClearMessage else None) (Some aad) None))
       (\<lambda>(pIv, pCipherText, pAuthTag).
     bindE (ensure (WOS_IS_VALID_BUFFER pIv \<and> WOS_IS_VALID_BUFFER pAuthTag \<and>
                    (encryptMqttPacket \<longrightarrow> WOS_IS_VALID_BUFFER pCipherText))
              (Code WCL_ERROR_CRYPTO_OPERATION)) (\<lambda>_.
     bindE (ok (if encryptMqttPacket then pCipherText else pClearMessage)) (\<lambda>pMqttPacket.
     bindE (ok (SMP_MQTTS_CONTROL_MSG_SERIALIZER_SIZE_OVERHEAD + length encodedHeader +
                length (the pIv) + length (the pAuthTag) + length (the pMqttPacket))) (\<lambda>seializedBufSize.
     bindE (alloc seializedBufSize (Code WCL_ERROR_OUT_OF_MEMORY)) (\<lambda>_.
     bindE (on_error (as_code WCL_ERROR_SERIALIZATION)
              (pure_res (wosMsgPackSmpMqttsControlMessage C
                 (Some \<lparr>c_EncodedSmpHeader = Some encodedHeader, c_MqttPacket = pMqttPacket,
                        c_IV = pIv, c_AuthTag = pAuthTag\<rparr>)
                 (Some (u32 seializedBufSize))))) (\<lambda>msg.
     bindE (upd_ctx (\<lambda>c. c\<lparr>toBeSentMessageId := toBeSentMessageId c + 1\<rparr>)) (\<lambda>_.
     ok msg)))))))))))))))"

definition lSmpProcessControlMessage ::
    "('e, 'v) cbor_api \<Rightarrow> ('k, 'p) tom_api \<Rightarrow> smp_role \<Rightarrow> byte \<Rightarrow> wos_buffer \<Rightarrow>
     (('p, 'z) smp_world_scheme, wcl_error, wos_buffer) comp" where
  "lSmpProcessControlMessage C T role mtype pSecuredMessage =
     bindE get_ctx (\<lambda>ctx.
     bindE (ensure (WOS_IS_VALID_BUFFER pSecuredMessage) (Code WCL_ERROR_BAD_PARAMS)) (\<lambda>_.
     bindE (ensure (isSessionKeyEstablished ctx) (Code WCL_ERROR_BAD_SESSION)) (\<lambda>_.
     bindE (on_error (as_code WCL_ERROR_SERIALIZATION)
              (wosMsgUnpackSmpMqttsControlMessage C pSecuredMessage)) (\<lambda>p.
     bindE (ensure (WOS_IS_VALID_BUFFER (c_EncodedSmpHeader p) \<and> WOS_IS_VALID_BUFFER (c_MqttPacket p) \<and>
                    WOS_IS_VALID_BUFFER (c_IV p) \<and> WOS_IS_VALID_BUFFER (c_AuthTag p))
              (Code WCL_ERROR_INVALID_MESSAGE)) (\<lambda>_.
     bindE (ok (mtype \<notin> set (decrypted_types role))) (\<lambda>hasClearMqttPacket.
     bindE (pure_res (label_bytes (labels_from (smp_peer role)) mtype)) (\<lambda>label.
     bindE (assemble ([the (c_EncodedSmpHeader p), label] @
              (if hasClearMqttPacket then [the (c_MqttPacket p)] else []))) (\<lambda>aad.
     bindE (on_error (as_code WCL_ERROR_CRYPTO_OPERATION)
              (wosCryptoAeDecrypt T (sessionSharedKeyStorageId ctx)
                 (if hasClearMqttPacket then None else c_MqttPacket p) (Some aad) (c_IV p)
                 (c_AuthTag p))) (\<lambda>pPlainText.
     if hasClearMqttPacket
     then bindE (alloc (length (the (c_MqttPacket p))) (Code WCL_ERROR_OUT_OF_MEMORY)) (\<lambda>_.
          ok (c_MqttPacket p))
     else bindE (ensure (pPlainText \<noteq> None) (Code WCL_ERROR_CRYPTO_OPERATION)) (\<lambda>_.
          ok pPlainText))))))))))"

text \<open>
  The entry for a received message. The buffer for the client id is one byte shorter than the
  unpacker is told. The counter moves only when everything went well.
\<close>

definition smpProcessMessage ::
    "('e, 'v) cbor_api \<Rightarrow> ('k, 'p) tom_api \<Rightarrow> smp_role \<Rightarrow> wos_buffer \<Rightarrow>
     (('p, 'z) smp_world_scheme, wcl_error, wos_buffer) comp" where
  "smpProcessMessage C T role pSecuredMessage =
     bindE get_ctx (\<lambda>ctx.
     bindE (ensure (WOS_IS_VALID_BUFFER pSecuredMessage) (Code WCL_ERROR_BAD_PARAMS)) (\<lambda>_.
     bindE (alloc WCL_SMP_CLIENT_ID_LENGTH (Code WCL_ERROR_OUT_OF_MEMORY)) (\<lambda>_.
     bindE (on_error (as_code WCL_ERROR)
              (wosMsgUnpackSmpHeaderFromSmpMsg C pSecuredMessage (Some WCL_SMP_CLIENT_ID_LENGTH))) (\<lambda>h.
     bindE (lSmpValidateSmpHeader role h) (\<lambda>_.
     bindE (if messageType h = (case role of SMP_MQTTS_CLIENT \<Rightarrow> WCL_SMP_MESSAGE_MQTTS_CONNACK
                                | SMP_MQTTS_BROKER \<Rightarrow> WCL_SMP_MESSAGE_MQTTS_CONNECT)
            then lSmpProcessSeMessage C T role pSecuredMessage
            else lSmpProcessControlMessage C T role (messageType h) pSecuredMessage) (\<lambda>clear.
     bindE (upd_ctx (\<lambda>c. c\<lparr>lastReceivedMessageId := messageId h\<rparr>)) (\<lambda>_.
     ok clear)))))))"

end
