(* ===== verification/SmpSessionFacts.thy ===== *)
theory SmpSessionFacts
  imports SmpSession
begin

text \<open>
  What the session operations do in a calm world: the execution of each operation, from the
  assembled buffers and the header up to whole messages, and the agreement of the two sides.
\<close>

section \<open>Assembling\<close>

lemma fill_concat:
  assumes "length m = off + sum_list (map length ps)" and "off + sum_list (map length ps) < 2 ^ 32"
  shows "fill m off ps = (Inr (take off m @ concat ps) :: ('e, bytes) res)"
  using assms
proof (induction ps arbitrary: m off)
  case Nil
  then show ?case by simp
next
  case (Cons p ps)
  let ?m = "take off m @ p @ drop (off + length p) m"
  have len: "length ?m = (off + length p) + sum_list (map length ps)" using Cons.prems(1) by simp
  have "fill m off (p # ps) = (fill ?m (off + length p) ps :: ('e, bytes) res)"
    using Cons.prems by (simp add: bindR_def wosMemCopy_def)
  also have "\<dots> = Inr (take (off + length p) ?m @ concat ps)"
    using Cons.IH [OF len] Cons.prems(2) by simp
  finally show ?case using Cons.prems(1) by simp
qed

lemma assemble_calm:
  assumes "calm w" and "concat ps \<noteq> []" and "length (concat ps) < 2 ^ 32"
  shows "assemble ps w = (Inr (concat ps), w)"
proof -
  have len: "sum_list (map length ps) = length (concat ps)"
    by (simp add: length_concat)
  have "0 < length (concat ps)" using assms(2) by simp
  then show ?thesis
    using assms fill_concat [of "replicate (length (concat ps)) (w_junk w)" 0 ps]
    by (simp add: assemble_def comp_defs len del: length_concat length_greater_0_conv)
qed

section \<open>Sessions\<close>

text \<open>\<open>w_session w s\<close>: the caller's pointer is the session \<open>s\<close>.\<close>

lemma get_ctx_Some [simp]: "smp_ctx w = Some s \<Longrightarrow> get_ctx w = (Inr s, w)"
  by (simp add: get_ctx_def)

lemma get_ctx_None [simp]: "smp_ctx w = None \<Longrightarrow> get_ctx w = (Inl (Code WCL_ERROR_BAD_PARAMS), w)"
  by (simp add: get_ctx_def)

lemma upd_ctx_eq [simp]: "upd_ctx f w = (Inr (), w\<lparr>smp_ctx := map_option f (smp_ctx w)\<rparr>)"
  by (simp add: upd_ctx_def modify_def)

lemma smp_ctx_put_file [simp]:
  "smp_ctx (put_file k b w) = smp_ctx w" "smp_ctx (w\<lparr>w_prng := p\<rparr>) = smp_ctx w"
  "smp_ctx (w\<lparr>w_files := f\<rparr>) = smp_ctx w"
  by (simp_all add: put_file_def)

text \<open>The client id of a session is never set: it is the empty string the memory was cleared to.\<close>

definition session_ok :: "smp_session \<Rightarrow> bool" where
  "session_ok s \<longleftrightarrow> c_string (s_clientId s) = [] \<and> length (s_ids s) = 100"

definition session_header :: "smp_session \<Rightarrow> byte \<Rightarrow> smp_header" where
  "session_header s mtype =
     \<lparr>messageContext = WOS_MSG_CONTEXT_SMP_MQTTS, messageContextVersion = 0, messageType = mtype,
      h_clientId = Some (s_clientId s), messageId = toBeSentMessageId s\<rparr>"

lemma header_fits:
  assumes "session_ok s"
  shows "list_all item_ok (header_items (session_header s mtype))"
    and "array_length (header_items (session_header s mtype)) \<le> SMP_ENCODED_HEADER_LENGTH"
proof -
  have "head_length (unat mtype) \<le> 2" by (simp add: head_length_def less_imp_le_nat less_Suc_eq_le [symmetric])
  moreover have "head_length (unat (toBeSentMessageId s)) \<le> 5"
    using unsigned_less [of "toBeSentMessageId s", where ?'a = nat] by (intro head_length_le) simp
  moreover have "head_length 0 = 1" by (simp add: head_length_def)
  ultimately show "array_length (header_items (session_header s mtype)) \<le> SMP_ENCODED_HEADER_LENGTH"
    using assms
    by (simp add: array_length_def header_items_def session_header_def SMP_ENCODED_HEADER_LENGTH_def
        WCL_SMP_CLIENT_ID_LENGTH_def WOS_MSG_CONTEXT_SMP_MQTTS_def session_ok_def)
  show "list_all item_ok (header_items (session_header s mtype))"
    using assms by (simp add: header_items_def session_header_def session_ok_def)
qed

lemma pack_header_calm:
  assumes "calm w" and "cbor_law C" and "smp_ctx w = Some s" and "session_ok s"
  obtains hb where "lSmpPackHeader C mtype w = (Inr hb, w)"
    and "decodes C hb (header_items (session_header s mtype))" and "hb \<noteq> []" and "length hb \<le> 61"
proof -
  obtain hb where hb: "encode_array C SMP_ENCODED_HEADER_LENGTH (header_items (session_header s mtype)) = Inr hb"
      "length hb = array_length (header_items (session_header s mtype))"
      "decodes C hb (header_items (session_header s mtype))" "hb \<noteq> []"
    by (rule cbor_lawE [OF assms(2) header_fits [OF assms(4), of mtype]])
  have "wosMsgPackSmpHeader C (Some (session_header s mtype)) (Some SMP_ENCODED_HEADER_LENGTH) = Inr hb"
    using hb(1) assms(4) by (subst pack_header_encodes [where m = "s_clientId s"])
      (simp_all add: session_header_def session_ok_def)
  then have "lSmpPackHeader C mtype w = (Inr hb, w)"
    using assms(1,3)
    by (simp add: lSmpPackHeader_def comp_defs session_header_def [symmetric])
      (simp add: SMP_ENCODED_HEADER_LENGTH_def comp_defs)
  moreover have "length hb \<le> 61"
    using hb(2) header_fits(2) [OF assms(4), of mtype]
    by (simp add: SMP_ENCODED_HEADER_LENGTH_def WCL_SMP_CLIENT_ID_LENGTH_def)
  ultimately show thesis using that hb(3,4) by blast
qed

section \<open>Control messages\<close>

lemma label_calm:
  assumes "unat mtype < 14"
  obtains lab where "label_bytes (labels_from role) mtype = Inr lab" and "length lab \<le> 10"
proof -
  let ?f = "\<lambda>l. case l of None \<Rightarrow> [] | Some m \<Rightarrow> c_string m"
  have len: "length (labels_from role) = 14"
    by (cases role) (simp_all add: gClientToBrokerMsgLabels_def gBrokerToClientMsgLabels_def)
  have "list_all (\<lambda>l. length (?f l) \<le> 10) (labels_from role)"
    by (cases role) (simp_all add: gClientToBrokerMsgLabels_def gBrokerToClientMsgLabels_def
        cstr_def c_string_def)
  then have "length (?f (labels_from role ! unat mtype)) \<le> 10"
    using assms len by (simp add: list_all_length)
  then show thesis using assms len by (intro that) (auto simp: label_bytes_def)
qed

text \<open>
  \<open>secures C T role key s mtype pkt msg\<close>: \<open>msg\<close> is the packet \<open>pkt\<close> secured under \<open>key\<close> by the side
  \<open>role\<close> in session \<open>s\<close>: header, body, initialisation vector and tag, where the tag is the one of
  the header, the label and, for a packet in clear, the packet.
\<close>

definition secures ::
    "('e, 'v) cbor_api \<Rightarrow> ('k, 'p) tom_api \<Rightarrow> smp_role \<Rightarrow> bytes \<Rightarrow> smp_session \<Rightarrow> byte \<Rightarrow> bytes \<Rightarrow> bytes \<Rightarrow> bool"
    where
  "secures C T role key s mtype pkt msg \<longleftrightarrow>
     (\<exists>hb body iv tag lab.
        decodes C hb (header_items (session_header s mtype)) \<and> hb \<noteq> [] \<and> length hb \<le> 61 \<and>
        decodes C msg [CBytes hb, CBytes body, CBytes iv, CBytes tag] \<and> msg \<noteq> [] \<and>
        body \<noteq> [] \<and> length body = length pkt \<and> length iv = 12 \<and> length tag = 16 \<and>
        length msg \<le> length pkt + 105 \<and>
        label_bytes (labels_from role) mtype = Inr lab \<and> length lab \<le> 10 \<and>
        (mtype \<notin> set encrypted_types \<longrightarrow> body = pkt) \<and>
        gcm_decrypt T (find_cipher T) key iv
          (hb @ lab @ (if mtype \<in> set encrypted_types then [] else pkt))
          (if mtype \<in> set encrypted_types then body else []) 16
        = Inr (if mtype \<in> set encrypted_types then pkt else [], tag))"

lemma control_items_fit:
  assumes "length hb \<le> 61" and "length iv = 12" and "length tag = 16" and "length body < 2 ^ 31"
    and p: "p = \<lparr>c_EncodedSmpHeader = Some hb, c_MqttPacket = Some body, c_IV = Some iv, c_AuthTag = Some tag\<rparr>"
  shows "list_all item_ok (control_items p)"
    and "array_length (control_items p) \<le> 16 + length hb + length iv + length tag + length body"
proof -
  have "head_length (length hb) \<le> 2" using assms(1) by (simp add: head_length_def)
  moreover have "head_length (length body) \<le> 5" using assms(4) by (intro head_length_le) simp
  moreover have "head_length 12 = 1" "head_length 16 = 1" by (simp_all add: head_length_def)
  ultimately show "array_length (control_items p) \<le> 16 + length hb + length iv + length tag + length body"
    using assms(2,3) by (simp add: p control_items_def array_length_def)
  show "list_all item_ok (control_items p)" using assms by (simp add: p control_items_def)
qed

lemma secure_calm:
  fixes w :: "('p, 'z) smp_world_scheme"
  assumes calm: "calm w" and laws: "cbor_law C" "tom_law T" and ctx: "smp_ctx w = Some s"
    and s: "session_ok s" "isSessionKeyEstablished s"
    and key: "holds_key w (sessionSharedKeyStorageId s) key" "length key = 32"
    and mtype: "1 \<le> unat mtype" "unat mtype < 14" and pkt: "pkt \<noteq> []" "length pkt < 2 ^ 31"
  obtains msg p' where
    "smpSecureMessage C T role mtype (Some pkt) w
       = (Inr msg, w\<lparr>w_prng := p', smp_ctx := Some (s\<lparr>toBeSentMessageId := toBeSentMessageId s + 1\<rparr>)\<rparr>)"
    and "secures C T role key s mtype pkt msg"
proof -
  define enc where "enc = (mtype \<in> set encrypted_types)"
  obtain hb where hb: "lSmpPackHeader C mtype w = (Inr hb, w)"
      "decodes C hb (header_items (session_header s mtype))" "hb \<noteq> []" "length hb \<le> 61"
    by (rule pack_header_calm [OF calm laws(1) ctx s(1)])
  obtain lab where lab: "label_bytes (labels_from role) mtype = Inr lab" "length lab \<le> 10"
    by (rule label_calm [OF mtype(2)])
  define aad where "aad = hb @ lab @ (if enc then [] else pkt)"
  have aad: "assemble ([hb, lab] @ (if enc then [] else [pkt])) w = (Inr aad, w)"
    using assemble_calm [OF calm, of "[hb, lab] @ (if enc then [] else [pkt])"] hb(3,4) lab(2) pkt
    by (auto simp: aad_def)
  let ?plain = "if enc then Some pkt else None"
  obtain iv c tag p' where e:
    "wosCryptoAeEncrypt T (sessionSharedKeyStorageId s) ?plain (Some aad) None w
       = (Inr (Some iv, Some c, Some tag), w\<lparr>w_prng := p'\<rparr>)"
    "length iv = 12" "length tag = 16" "length c = length (case ?plain of None \<Rightarrow> [] | Some b \<Rightarrow> b)"
    "gcm_decrypt T (find_cipher T) key iv (case Some aad of None \<Rightarrow> [] | Some b \<Rightarrow> b) c 16
       = Inr (case ?plain of None \<Rightarrow> [] | Some b \<Rightarrow> b, tag)"
    by (rule encrypt_calm [OF calm laws(2) key])
  define body where "body = (if enc then c else pkt)"
  have body: "length body = length pkt" using e(4) by (simp add: body_def)
  define p where "p = \<lparr>c_EncodedSmpHeader = Some hb, c_MqttPacket = Some body, c_IV = Some iv,
    c_AuthTag = Some tag\<rparr>"
  have bufs: "body \<noteq> []" "iv \<noteq> []" "tag \<noteq> []" using body pkt(1) e(2,3) by auto
  define cap where "cap = 16 + length hb + length iv + length tag + length body"
  have len: "length body < 2 ^ 31" using body pkt(2) by simp
  obtain msg where msg: "encode_array C cap (control_items p) = Inr msg" "decodes C msg (control_items p)"
      "msg \<noteq> []" "length msg = array_length (control_items p)"
    unfolding cap_def
    by (rule cbor_lawE [OF laws(1) control_items_fit [OF hb(4) e(2,3) len p_def]])
  have size: "length msg \<le> length pkt + 105"
    using msg(4) control_items_fit(2) [OF hb(4) e(2,3) len p_def] hb(4) e(2,3) body by linarith
  have cap: "cap \<noteq> 0" "u32 cap = cap" using hb(4) e(2,3) len by (simp_all add: cap_def)
  have pack: "wosMsgPackSmpMqttsControlMessage C (Some p) (Some cap) = Inr msg"
    using hb(3) bufs cap(1) msg(1) by (subst pack_control_encodes) (simp_all add: p_def)
  have ty: "\<not> (mtype < 1 \<or> 14 < mtype)" using mtype by (simp add: word_less_nat_alt)
  have eqs: "(if enc then Some c else Some pkt) = Some body" "(if enc then [] else [pkt]) =
      (if mtype \<in> set encrypted_types then [] else [pkt])" by (simp_all add: body_def enc_def)
  have "smpSecureMessage C T role mtype (Some pkt) w
       = (Inr msg, w\<lparr>w_prng := p', smp_ctx := Some (s\<lparr>toBeSentMessageId := toBeSentMessageId s + 1\<rparr>)\<rparr>)"
  proof (cases enc)
    case True
    then show ?thesis
      using calm ctx s(2) pkt ty hb(1) lab(1) aad e(1) bufs cap(2) pack body
      by (simp add: smpSecureMessage_def comp_defs enc_def [symmetric] eqs(1) p_def body_def
          SMP_MQTTS_CONTROL_MSG_SERIALIZER_SIZE_OVERHEAD_def cap_def add.assoc)
  next
    case False
    then show ?thesis
      using calm ctx s(2) pkt ty hb(1) lab(1) aad e(1) bufs cap(2) pack body
      by (simp add: smpSecureMessage_def comp_defs enc_def [symmetric] eqs(1) p_def body_def
          SMP_MQTTS_CONTROL_MSG_SERIALIZER_SIZE_OVERHEAD_def cap_def add.assoc)
  qed
  moreover have "secures C T role key s mtype pkt msg"
  proof -
    have m: "decodes C msg [CBytes hb, CBytes body, CBytes iv, CBytes tag]"
      using msg(2) by (simp add: p_def control_items_def)
    have g: "gcm_decrypt T (find_cipher T) key iv (hb @ lab @ (if enc then [] else pkt))
        (if enc then body else []) 16 = Inr (if enc then pkt else [], tag)"
      using e(4,5) by (cases enc) (simp_all add: aad_def body_def)
    have c: "\<not> enc \<longrightarrow> body = pkt" by (simp add: body_def)
    show ?thesis
      unfolding secures_def enc_def [symmetric]
      using hb(2-4) m msg(3) bufs(1) body e(2,3) lab c g size by blast
  qed
  ultimately show thesis using that by blast
qed

text \<open>
  The receiving side: a secured message of a type the receiver takes as a control message is
  accepted when its id is not below the last one, and gives the packet back.
\<close>

definition control_types :: "smp_role \<Rightarrow> byte list" where
  "control_types receiver = filter (\<lambda>t. t \<notin> {1, 2, 14}) (allowed_types receiver)"

lemma control_types_facts:
  assumes "mtype \<in> set (control_types receiver)"
  shows "1 \<le> unat mtype" and "unat mtype < 14" and "mtype \<in> set (allowed_types receiver)"
    and "mtype \<in> set (decrypted_types receiver) \<longleftrightarrow> mtype \<in> set encrypted_types"
    and "mtype \<noteq> 1" and "mtype \<noteq> 2"
  using assms
  by (cases receiver; auto simp: control_types_def allowed_types_def encrypted_types_def)+

lemma unpack_secured_header:
  assumes "calm w" and "session_ok s" and "decodes C hb (header_items (session_header s mtype))"
    and "decodes C msg (CBytes hb # rest)" and "msg \<noteq> []"
  shows "wosMsgUnpackSmpHeaderFromSmpMsg C (Some msg) (Some 32) w
    = (Inr (session_header s mtype\<lparr>h_clientId := Some []\<rparr>), w)"
proof -
  have cid: "c_string (the (h_clientId (session_header s mtype))) = []"
    using assms(2) by (simp add: session_header_def session_ok_def)
  show ?thesis using unpack_header_decodes [OF assms(3-5,1)] cid by simp
qed

lemma validate_header_calm:
  assumes "smp_ctx w = Some r" and "\<not> toBeSentMessageId s < lastReceivedMessageId r"
    and "mtype \<in> set (allowed_types role)"
  shows "lSmpValidateSmpHeader role (session_header s mtype\<lparr>h_clientId := cid\<rparr>) w = (Inr (), w)"
  using assms by (simp add: lSmpValidateSmpHeader_def comp_defs session_header_def)

lemma process_control_calm:
  fixes w :: "('p, 'z) smp_world_scheme"
  assumes calm: "calm w" and look: "lookup_law T" and ctx: "smp_ctx w = Some r"
    and r: "isSessionKeyEstablished r" and key: "holds_key w (sessionSharedKeyStorageId r) key" "length key = 32"
    and mtype: "mtype \<in> set (control_types receiver)"
    and sec: "secures C T (smp_peer receiver) key s mtype pkt msg"
    and pkt: "pkt \<noteq> []" "length pkt < 2 ^ 31"
  shows "lSmpProcessControlMessage C T receiver mtype (Some msg) w = (Inr (Some pkt), w)"
proof -
  define enc where "enc = (mtype \<in> set encrypted_types)"
  obtain hb body iv tag lab where m: "hb \<noteq> []" "length hb \<le> 61"
      "decodes C msg [CBytes hb, CBytes body, CBytes iv, CBytes tag]" "msg \<noteq> []"
      "body \<noteq> []" "length iv = 12" "length tag = 16"
      "label_bytes (labels_from (smp_peer receiver)) mtype = Inr lab" "length lab \<le> 10"
      "\<not> enc \<longrightarrow> body = pkt"
      "gcm_decrypt T (find_cipher T) key iv (hb @ lab @ (if enc then [] else pkt))
         (if enc then body else []) 16 = Inr (if enc then pkt else [], tag)"
    using sec unfolding secures_def enc_def [symmetric] by blast
  define p where "p = \<lparr>c_EncodedSmpHeader = Some hb, c_MqttPacket = Some body, c_IV = Some iv,
    c_AuthTag = Some tag\<rparr>"
  have un: "wosMsgUnpackSmpMqttsControlMessage C (Some msg) w = (Inr p, w)"
    using m(3) by (intro unpack_control_decodes [OF _ m(4) calm]) (simp_all add: p_def control_items_def)
  have dec: "mtype \<in> set (decrypted_types receiver) \<longleftrightarrow> enc"
    using control_types_facts(4) [OF mtype] by (simp add: enc_def)
  have ne: "iv \<noteq> []" "tag \<noteq> []" using m(6,7) by auto
  have asm: "assemble ([hb, lab] @ (if enc then [] else [body])) w
      = (Inr (hb @ lab @ (if enc then [] else pkt)), w)"
    using assemble_calm [OF calm, of "[hb, lab] @ (if enc then [] else [body])"] m(1,2,9,10) pkt by auto
  have d: "wosCryptoAeDecrypt T (sessionSharedKeyStorageId r) (if enc then Some body else None)
      (Some (hb @ lab @ (if enc then [] else pkt))) (Some iv) (Some tag) w
      = (Inr (Some (if enc then pkt else [])), w)"
    using decrypt_calm [OF calm look key ne, of "if enc then Some body else None"
        "Some (hb @ lab @ (if enc then [] else pkt))"] m(11)
    by (cases enc) simp_all
  show ?thesis
  proof (cases enc)
    case True
    then show ?thesis
      using calm ctx r un m(1,4,5,8) ne asm d
      by (simp add: lSmpProcessControlMessage_def comp_defs dec p_def)
  next
    case False
    then show ?thesis
      using calm ctx r un m(1,4,5,8,10) ne asm d pkt
      by (simp add: lSmpProcessControlMessage_def comp_defs dec p_def)
  qed
qed

lemma process_secured_calm:
  fixes w :: "('p, 'z) smp_world_scheme"
  assumes calm: "calm w" and look: "lookup_law T" and ctx: "smp_ctx w = Some r"
    and s: "session_ok s" and r: "isSessionKeyEstablished r"
    and key: "holds_key w (sessionSharedKeyStorageId r) key" "length key = 32"
    and mtype: "mtype \<in> set (control_types receiver)"
    and fresh: "\<not> toBeSentMessageId s < lastReceivedMessageId r"
    and sec: "secures C T (smp_peer receiver) key s mtype pkt msg"
    and pkt: "pkt \<noteq> []" "length pkt < 2 ^ 31"
  shows "smpProcessMessage C T receiver (Some msg) w
    = (Inr (Some pkt), w\<lparr>smp_ctx := Some (r\<lparr>lastReceivedMessageId := toBeSentMessageId s\<rparr>)\<rparr>)"
proof -
  obtain hb body iv tag where m: "decodes C hb (header_items (session_header s mtype))"
      "decodes C msg [CBytes hb, CBytes body, CBytes iv, CBytes tag]" "msg \<noteq> []"
    using sec unfolding secures_def by blast
  have se: "messageType (session_header s mtype\<lparr>h_clientId := Some []\<rparr>)
      \<noteq> (case receiver of SMP_MQTTS_CLIENT \<Rightarrow> 2 | SMP_MQTTS_BROKER \<Rightarrow> 1)"
    using control_types_facts(5,6) [OF mtype] by (cases receiver) (simp_all add: session_header_def)
  show ?thesis
    using calm ctx m(3) se unpack_secured_header [OF calm s m(1,2,3)]
      validate_header_calm [OF ctx fresh control_types_facts(3) [OF mtype], of "Some []"]
      process_control_calm [OF calm look ctx r key mtype sec pkt]
    by (simp add: smpProcessMessage_def comp_defs WCL_SMP_CLIENT_ID_LENGTH_def session_header_def)
qed

section \<open>Session establishment\<close>

fun se_type :: "smp_role \<Rightarrow> byte" where
  "se_type SMP_MQTTS_CLIENT = WCL_SMP_MESSAGE_MQTTS_CONNECT"
| "se_type SMP_MQTTS_BROKER = WCL_SMP_MESSAGE_MQTTS_CONNACK"

text \<open>
  The identity a session signs with, and that a session trusts a certificate: under its root the
  certificate forms a valid chain and carries the given key.
\<close>

definition has_identity ::
    "('k, 'p) tom_api \<Rightarrow> ('p, 'z) smp_world_scheme \<Rightarrow> smp_session \<Rightarrow> bytes \<Rightarrow> bytes \<Rightarrow> bool" where
  "has_identity T w s cert certpub \<longleftrightarrow>
     (\<exists>k priv. holds_key w (selfPrivKeyStorageId s) priv \<and> key_pair T k priv certpub) \<and>
     holds_key w (selfCertChainStorageId s) cert \<and> length cert < 2 ^ 30"

definition trusts ::
    "('e, 'v) cbor_api \<Rightarrow> ('k, 'p) tom_api \<Rightarrow> ('p, 'z) smp_world_scheme \<Rightarrow> smp_session \<Rightarrow>
     bytes \<Rightarrow> bytes \<Rightarrow> bool" where
  "trusts C T w r cert certpub \<longleftrightarrow>
     (\<exists>root rc cc. holds_key w (rootCaStorageId r) root \<and> reads_cert C w (Some root) rc \<and>
        reads_cert C w (Some cert) cc \<and> valid_chain T [rc, cc] \<and>
        pSubjectPubKey (pTbs cc) = Some certpub)"

definition se_record :: "bytes \<Rightarrow> bytes \<Rightarrow> bytes \<Rightarrow> bytes \<Rightarrow> bytes \<Rightarrow> se_params" where
  "se_record hb dh pkt sig cert =
     \<lparr>se_EncodedSmpHeader = Some hb, cipherSchemeId = 0, se_EccDhPubParams = Some dh,
      se_MqttPacket = Some pkt, se_Signature = Some sig, numCerts = 1, ppCerts = Some [Some cert]\<rparr>"

definition establishes ::
    "('e, 'v) cbor_api \<Rightarrow> ('k, 'p) tom_api \<Rightarrow> smp_role \<Rightarrow> smp_session \<Rightarrow> bytes \<Rightarrow> bytes \<Rightarrow> bytes \<Rightarrow> bytes \<Rightarrow> bytes \<Rightarrow> bool"
    where
  "establishes C T role s dh pkt cert certpub msg \<longleftrightarrow>
     (\<exists>hb sig. decodes C hb (header_items (session_header s (se_type role))) \<and> hb \<noteq> [] \<and>
        length hb \<le> 61 \<and> decodes C msg (se_items role (se_record hb dh pkt sig cert)) \<and> msg \<noteq> [] \<and>
        sig \<noteq> [] \<and> signed_by T (Some certpub) (Some (concat (se_pieces role hb 0 dh pkt))) (Some sig))"

lemma se_items_fit:
  assumes "length hb \<le> 61" and "length dh = 65" and "length sig = 64" and "length pkt < 2 ^ 30"
    and "length cert < 2 ^ 30"
  shows "list_all item_ok (se_items role (se_record hb dh pkt sig cert))"
    and "array_length (se_items role (se_record hb dh pkt sig cert)) \<le>
      40 + length (concat (se_pieces role hb 0 dh pkt)) + 64 + 1 + length cert"
proof -
  have "head_length (length hb) \<le> 2" using assms(1) by (simp add: head_length_def)
  moreover have "head_length (length pkt) \<le> 5" "head_length (length cert) \<le> 5"
    using assms(4,5) by (intro head_length_le; simp)+
  moreover have "head_length 65 = 2" "head_length 64 = 2" "head_length 0 = 1" "head_length (Suc 0) = 1"
    by (simp_all add: head_length_def)
  ultimately show "array_length (se_items role (se_record hb dh pkt sig cert)) \<le>
      40 + length (concat (se_pieces role hb 0 dh pkt)) + 64 + 1 + length cert"
    using assms(2,3) by (simp add: se_items_def se_record_def array_length_def se_pieces_def)
  show "list_all item_ok (se_items role (se_record hb dh pkt sig cert))"
    using assms by (simp add: se_items_def se_record_def)
qed

lemma sign_se_calm:
  fixes w :: "('p, 'z) smp_world_scheme"
  assumes calm: "calm w" and law: "tom_law T" and ctx: "smp_ctx w = Some s"
    and ident: "has_identity T w s cert certpub"
    and hb: "hb \<noteq> []" "length hb \<le> 61" and dh: "length dh = 65" and pkt: "length pkt < 2 ^ 30"
  obtains sig p' where
    "lSmpSignSeParams T role \<lparr>se_EncodedSmpHeader = Some hb, cipherSchemeId = 0,
        se_EccDhPubParams = Some dh, se_MqttPacket = Some pkt, se_Signature = None, numCerts = 0,
        ppCerts = None\<rparr> w
      = (Inr (se_record hb dh pkt sig cert,
              40 + length (concat (se_pieces role hb 0 dh pkt)) + 64 + 1 + length cert),
         w\<lparr>w_prng := p', smp_ctx := Some (s\<lparr>selfCertChainSize := 1\<rparr>)\<rparr>)"
    and "length sig = 64"
    and "signed_by T (Some certpub) (Some (concat (se_pieces role hb 0 dh pkt))) (Some sig)"
proof -
  define d where "d = concat (se_pieces role hb 0 dh pkt)"
  have d: "d \<noteq> []" "length d < 2 ^ 31" using hb dh pkt by (simp_all add: d_def se_pieces_def)
  have asm: "assemble (se_pieces role hb 0 dh pkt) w = (Inr d, w)"
    using assemble_calm [OF calm, of "se_pieces role hb 0 dh pkt"] d by (simp add: d_def)
  obtain k priv where key: "holds_key w (selfPrivKeyStorageId s) priv" "key_pair T k priv certpub"
      and cert: "holds_key w (selfCertChainStorageId s) cert" "length cert < 2 ^ 30"
    using ident by (auto simp: has_identity_def)
  obtain sig h p' q where sg: "wosCryptoEccSign T (selfPrivKeyStorageId s) (Some d) w = (Inr (Some sig), w\<lparr>w_prng := p'\<rparr>)"
      "length sig = 64" "hash_memory T (find_hash T) d WOS_CRYPTO_HASH_SHA256_LENGTH = Inr h"
      "ecc_ansi_x963_import T certpub = Inr q" "ecc_verify_hash_rfc7518 T sig h q = Inr True"
    by (rule sign_calm [OF calm law key d(1)])
  have read: "wosStorageRead (selfCertChainStorageId s)
      (w\<lparr>w_prng := p', smp_ctx := Some (s\<lparr>selfCertChainSize := 1\<rparr>)\<rparr>)
      = (Inr (Some cert), w\<lparr>w_prng := p', smp_ctx := Some (s\<lparr>selfCertChainSize := 1\<rparr>)\<rparr>)"
    using holds_keyD(2) [of "w\<lparr>w_prng := p', smp_ctx := Some (s\<lparr>selfCertChainSize := 1\<rparr>)\<rparr>"
        "selfCertChainStorageId s" cert] calm cert(1) by simp
  have "signed_by T (Some certpub) (Some d) (Some sig)"
    using sg d(1) key(2) law
    by (auto simp: signed_by_def key_pair_def crypto_lengths tom_law_def lookup_law_def)
  moreover have "lSmpSignSeParams T role \<lparr>se_EncodedSmpHeader = Some hb, cipherSchemeId = 0,
        se_EccDhPubParams = Some dh, se_MqttPacket = Some pkt, se_Signature = None, numCerts = 0,
        ppCerts = None\<rparr> w
      = (Inr (se_record hb dh pkt sig cert, 40 + length d + 64 + 1 + length cert),
         w\<lparr>w_prng := p', smp_ctx := Some (s\<lparr>selfCertChainSize := 1\<rparr>)\<rparr>)"
    using calm ctx asm sg(1,2) read d(2) cert(2)
    by (cases role) (simp_all add: lSmpSignSeParams_def lSmpGetDeviceCertificates_def comp_defs se_record_def
        WCL_SMP_CIPHER_SCHEME_ID0_def SMP_MQTTS_SE_MSG_SERIALIZER_SIZE_OVERHEAD_def)
  ultimately show thesis using sg(2) that by (simp add: d_def)
qed

lemma export_calm:
  fixes w :: "('p, 'z) smp_world_scheme"
  assumes calm: "calm w" and laws: "cbor_law C" "tom_law T" and ctx: "smp_ctx w = Some s"
    and s: "session_ok s" and ident: "has_identity T w s cert certpub"
    and dh: "holds_key w (sessionPublicKeyStorageId s) dh" "length dh = 65"
    and pkt: "pkt \<noteq> []" "length pkt < 2 ^ 30"
  obtains msg p' where
    "smpExportSessionEstablishmentParams C T role (Some pkt) w
       = (Inr msg, w\<lparr>w_prng := p', smp_ctx :=
           Some (s\<lparr>selfCertChainSize := 1, toBeSentMessageId := toBeSentMessageId s + 1\<rparr>)\<rparr>)"
    and "establishes C T role s dh pkt cert certpub msg"
proof -
  obtain hb where hb: "lSmpPackHeader C (se_type role) w = (Inr hb, w)"
      "decodes C hb (header_items (session_header s (se_type role)))" "hb \<noteq> []" "length hb \<le> 61"
    by (rule pack_header_calm [OF calm laws(1) ctx s])
  define total where "total sig = 40 + length (concat (se_pieces role hb 0 dh pkt)) + 64 + 1 + length cert"
    for sig :: bytes
  obtain sig p' where sg: "lSmpSignSeParams T role \<lparr>se_EncodedSmpHeader = Some hb, cipherSchemeId = 0,
        se_EccDhPubParams = Some dh, se_MqttPacket = Some pkt, se_Signature = None, numCerts = 0,
        ppCerts = None\<rparr> w
      = (Inr (se_record hb dh pkt sig cert, total sig),
         w\<lparr>w_prng := p', smp_ctx := Some (s\<lparr>selfCertChainSize := 1\<rparr>)\<rparr>)"
    "length sig = 64"
    "signed_by T (Some certpub) (Some (concat (se_pieces role hb 0 dh pkt))) (Some sig)"
    unfolding total_def by (rule sign_se_calm [OF calm laws(2) ctx ident hb(3,4) dh(2) pkt(2)])
  have cert: "cert \<noteq> []" "length cert < 2 ^ 30" using ident by (auto simp: has_identity_def holds_key_def)
  note fit = se_items_fit [OF hb(4) dh(2) sg(2) pkt(2) cert(2), of role, folded total_def [of sig]]
  obtain msg where msg: "encode_array C (total sig) (se_items role (se_record hb dh pkt sig cert)) = Inr msg"
      "decodes C msg (se_items role (se_record hb dh pkt sig cert))" "msg \<noteq> []"
    by (rule cbor_lawE [OF laws(1) fit])
  have ne: "dh \<noteq> []" "sig \<noteq> []" using dh(2) sg(2) by auto
  have pos: "0 < total sig" by (simp add: total_def)
  have pack: "wosMsgPackSmpMqttsSEMessage C role (Some (se_record hb dh pkt sig cert)) (Some (total sig)) = Inr msg"
    using msg(1) hb(3) ne pkt(1) cert(1) pos
    by (subst pack_se_encodes [where certs = "[Some cert]"]) (simp_all add: se_record_def)
  have ty: "(if role = SMP_MQTTS_CLIENT then 1 else 2) = se_type role" by (cases role) simp_all
  have rd: "wosCryptoEccReadPubKey (sessionPublicKeyStorageId s) w = (Inr (Some dh), w)"
    using holds_keyD(1) [OF dh(1)] holds_keyD(2) [OF calm dh(1)]
    by (simp add: wosCryptoEccReadPubKey_def comp_defs)
  have "smpExportSessionEstablishmentParams C T role (Some pkt) w
       = (Inr msg, w\<lparr>w_prng := p', smp_ctx :=
           Some (s\<lparr>selfCertChainSize := 1, toBeSentMessageId := toBeSentMessageId s + 1\<rparr>)\<rparr>)"
    using calm ctx hb(1) rd ne(1) pkt(1) sg(1) pos pack
    by (simp add: smpExportSessionEstablishmentParams_def ty comp_defs)
  moreover have "establishes C T role s dh pkt cert certpub msg"
    unfolding establishes_def using hb(2-4) msg(2,3) ne(2) sg(3) by blast
  ultimately show thesis using that by blast
qed

text \<open>The three storage ids of a session can be used side by side.\<close>

definition ids_ok :: "smp_session \<Rightarrow> bool" where
  "ids_ok s \<longleftrightarrow>
     lWosStorageIsKeyValid (sessionPrivateKeyStorageId s) \<and>
     lWosStorageIsKeyValid (sessionPublicKeyStorageId s) \<and>
     lWosStorageIsKeyValid (sessionSharedKeyStorageId s) \<and>
     distinct (map (\<lambda>i. c_string (the i))
       [sessionPrivateKeyStorageId s, sessionPublicKeyStorageId s, sessionSharedKeyStorageId s])"

lemma smp_peer_peer [simp]: "smp_peer (smp_peer r) = r"
  by (cases r) simp_all

text \<open>The storage after the session key was derived.\<close>

definition files_after_se :: "smp_role \<Rightarrow> smp_session \<Rightarrow> bytes \<Rightarrow> (bytes \<Rightarrow> bytes option) \<Rightarrow> bytes \<Rightarrow> bytes option"
    where
  "files_after_se role r secret files =
     (let fs = files(c_string (the (sessionSharedKeyStorageId r)) \<mapsto> secret,
                     c_string (the (sessionPrivateKeyStorageId r)) := None)
      in if role = SMP_MQTTS_CLIENT then fs(c_string (the (sessionPublicKeyStorageId r)) := None) else fs)"

lemma verify_se_calm:
  assumes calm: "calm w" and ctx: "smp_ctx w = Some r" and tr: "trusts C T w r cert certpub"
    and hb: "hb \<noteq> []" "length hb \<le> 61" and dh: "length dh = 65" and pkt: "pkt \<noteq> []" "length pkt < 2 ^ 30"
    and sg: "sig \<noteq> []" "signed_by T (Some certpub) (Some (concat (se_pieces (smp_peer receiver) hb 0 dh pkt))) (Some sig)"
  shows "lSmpVerifySeParams C T receiver (se_record hb dh pkt sig cert) w = (Inr (), w)"
proof -
  define d where "d = concat (se_pieces (smp_peer receiver) hb 0 dh pkt)"
  have asm: "assemble (se_pieces (smp_peer receiver) hb 0 dh pkt) w = (Inr d, w)"
    using assemble_calm [OF calm, of "se_pieces (smp_peer receiver) hb 0 dh pkt"] hb dh pkt
    by (simp add: d_def se_pieces_def)
  obtain root rc cc where t: "holds_key w (rootCaStorageId r) root" "reads_cert C w (Some root) rc"
      "reads_cert C w (Some cert) cc" "valid_chain T [rc, cc]" "pSubjectPubKey (pTbs cc) = Some certpub"
    using tr by (auto simp: trusts_def)
  have "list_all2 (reads_cert C w) (Some root # rev (take 1 [Some cert])) [rc, cc]"
    using t(2,3) by simp
  moreover have "signed_by T (pSubjectPubKey (pTbs (last [rc, cc]))) (Some d) (Some sig)"
    using sg(2) t(5) by (simp add: d_def)
  moreover have "WOS_IS_VALID_BUFFER (Some root)" using t(2) by (simp add: reads_cert_def)
  ultimately have vd: "wosCertValidateData C T (Some root) 1 (Some [Some cert]) (Some d) (Some sig) w = (Inr (), w)"
    using t(4) by (subst validate_data_iff [OF calm]) (auto simp: WOS_CERT_CHAIN_LIMIT_def intro!: exI [of _ "[rc, cc]"])
  have "dh \<noteq> []" using dh by auto
  then show ?thesis
    using ctx hb(1) pkt(1) asm vd holds_keyD(2) [OF calm t(1)]
    by (simp add: lSmpVerifySeParams_def se_record_def comp_defs certs_present_def
        WCL_SMP_CIPHER_SCHEME_ID0_def)
qed

lemma process_se_calm:
  fixes w :: "('p, 'z) smp_world_scheme"
  assumes calm: "calm w" and ctx: "smp_ctx w = Some r" and s: "session_ok s"
    and fresh: "\<not> toBeSentMessageId s < lastReceivedMessageId r"
    and tr: "trusts C T w r cert certpub"
    and est: "establishes C T (smp_peer receiver) s dh pkt cert certpub msg"
    and ids: "ids_ok r" and key: "holds_key w (sessionPrivateKeyStorageId r) priv"
    and imp: "ecc_import T priv = Inr sk" "ecc_ansi_x963_import T dh = Inr q"
      "ecc_shared_secret T sk q WOS_CRYPTO_ECC_NIST_P256_SHARED_SECRET_LENGTH = Inr secret"
    and sec: "length secret = 32" and dh: "length dh = 65" and pkt: "pkt \<noteq> []" "length pkt < 2 ^ 30"
  shows "smpProcessMessage C T receiver (Some msg) w
    = (Inr (Some pkt), w\<lparr>w_files := files_after_se receiver r secret (w_files w),
        smp_ctx := Some (r\<lparr>isSessionKeyEstablished := True,
                            lastReceivedMessageId := toBeSentMessageId s\<rparr>)\<rparr>)"
proof -
  obtain hb sig where m: "decodes C hb (header_items (session_header s (se_type (smp_peer receiver))))"
      "hb \<noteq> []" "length hb \<le> 61"
      "decodes C msg (se_items (smp_peer receiver) (se_record hb dh pkt sig cert))" "msg \<noteq> []" "sig \<noteq> []"
      "signed_by T (Some certpub) (Some (concat (se_pieces (smp_peer receiver) hb 0 dh pkt))) (Some sig)"
    using est unfolding establishes_def by blast
  have ty: "se_type (smp_peer receiver) \<in> set (allowed_types receiver)"
      "messageType (session_header s (se_type (smp_peer receiver))\<lparr>h_clientId := Some []\<rparr>)
        = (case receiver of SMP_MQTTS_CLIENT \<Rightarrow> 2 | SMP_MQTTS_BROKER \<Rightarrow> 1)"
    by (cases receiver; simp add: allowed_types_def session_header_def)+
  have un: "wosMsgUnpackSmpMqttsSEMessage C receiver (Some msg) w = (Inr (se_record hb dh pkt sig cert), w)"
    using unpack_se_decodes [OF m(4,5) calm, of hb dh pkt sig "[Some cert]"] by (simp add: se_record_def)
  have ver: "lSmpVerifySeParams C T receiver (se_record hb dh pkt sig cert) w = (Inr (), w)"
    by (rule verify_se_calm [OF calm ctx tr m(2,3) dh pkt m(6,7)])
  have ne: "dh \<noteq> []" "secret \<noteq> []" using dh sec by auto
  have valid: "lWosStorageIsKeyValid (sessionPrivateKeyStorageId r)"
      "lWosStorageIsKeyValid (sessionPublicKeyStorageId r)"
      "lWosStorageIsKeyValid (sessionSharedKeyStorageId r)" using ids by (simp_all add: ids_ok_def)
  have der: "wosCryptoDeriveSymKey T (Some dh) (sessionPrivateKeyStorageId r) (sessionSharedKeyStorageId r) w
      = (Inr (), put_file (c_string (the (sessionSharedKeyStorageId r))) secret w)"
    by (rule derive_calm [OF calm valid(3) key ne(1) imp ne(2)])
  have "lSmpProcessSeMessage C T receiver (Some msg) w
    = (Inr (Some pkt), w\<lparr>w_files := files_after_se receiver r secret (w_files w),
        smp_ctx := Some (r\<lparr>isSessionKeyEstablished := True\<rparr>)\<rparr>)"
    using calm ctx m(5) un ver der pkt(1)
    by (cases receiver) (simp_all add: lSmpProcessSeMessage_def bindE_def on_error_def ensure_def ok_def
        se_record_def ignore_delete_calm valid files_after_se_def Let_def put_file_def)
  moreover have "decodes C msg (CBytes hb # tl (se_items (smp_peer receiver) (se_record hb dh pkt sig cert)))"
    using m(4) by (simp add: se_items_def se_record_def)
  ultimately show ?thesis
    using calm ctx m(5) ty(2) unpack_secured_header [OF calm s m(1) _ m(5)]
      validate_header_calm [OF ctx fresh ty(1), of "Some []"]
    by (simp add: smpProcessMessage_def comp_defs WCL_SMP_CLIENT_ID_LENGTH_def session_header_def)
qed

section \<open>A new session\<close>

lemma length_hex_of [simp]: "length (hex_of r) = 2 * length r"
  by (induction r) (simp_all add: hex_of_def)

lemma low_nibble: "unat (b AND 0x0F :: byte) = unat b mod 16"
proof -
  have "b AND 0x0F = take_bit 4 b" by (simp add: take_bit_eq_mask mask_eq_exp_minus_1)
  then show ?thesis by (simp add: take_bit_eq_mod unat_mod)
qed

lemma byte_div_16: "unat (b :: byte) div 16 < 16"
  by (rule less_mult_imp_div_less) simp

lemma high_nibble: "unat (drop_bit 4 b AND 0x0F :: byte) = unat b div 16"
proof -
  have "drop_bit 4 b AND 0x0F = take_bit 4 (drop_bit 4 b)"
    by (simp add: take_bit_eq_mask mask_eq_exp_minus_1 del: drop_bit_eq_div)
  also have "unat \<dots> = unat b div 16 mod 16"
    by (simp add: unsigned_take_bit_eq drop_bit_eq_div take_bit_eq_mod unat_div unat_mod)
  also have "\<dots> = unat b div 16" using byte_div_16 [of b] by simp
  finally show ?thesis .
qed

lemma high_nibble_mod: "unat (drop_bit 4 b :: byte) mod 16 = unat b div 16"
  using high_nibble [of b] low_nibble [of "drop_bit 4 b"] by simp

lemma hex_of_Cons:
  "hex_of (b # bs) = hexString ! (unat b div 16) # hexString ! (unat b mod 16) # hex_of bs"
  by (simp add: hex_of_def low_nibble high_nibble_mod)

lemma hexString_digits:
  "n < 16 \<Longrightarrow> 47 < hexString ! n \<and> hexString ! n < 92"
  "m < 16 \<Longrightarrow> n < 16 \<Longrightarrow> hexString ! m = hexString ! n \<longleftrightarrow> m = n"
proof -
  have eq: "hexString = [48, 49, 50, 51, 52, 53, 54, 55, 56, 57, 65, 66, 67, 68, 69, 70]"
    by (simp add: hexString_def cstr_def)
  have "list_all (\<lambda>n. 47 < hexString ! n \<and> hexString ! n < 92) [0..<16]"
    unfolding eq by code_simp
  then show "n < 16 \<Longrightarrow> 47 < hexString ! n \<and> hexString ! n < 92" by (simp add: list_all_iff)
  have "distinct hexString" and "length hexString = 16" unfolding eq by code_simp+
  then show "m < 16 \<Longrightarrow> n < 16 \<Longrightarrow> hexString ! m = hexString ! n \<longleftrightarrow> m = n"
    by (simp add: nth_eq_iff_index_eq)
qed

lemma hex_of_chars: "c \<in> set (hex_of r) \<Longrightarrow> 47 < c \<and> c < 92"
proof (induction r)
  case Nil
  then show ?case by (simp add: hex_of_def)
next
  case (Cons b r)
  show ?case using byte_div_16 [of b] Cons hexString_digits(1) by (auto simp: hex_of_Cons)
qed

lemma hex_of_inject: "length r = length r' \<Longrightarrow> hex_of r = hex_of r' \<longleftrightarrow> r = r'"
proof (induction r r' rule: list_induct2)
  case Nil
  show ?case by simp
next
  case (Cons b r b' r')
  have "unat b div 16 = unat b' div 16 \<and> unat b mod 16 = unat b' mod 16 \<longleftrightarrow> b = b'"
    by (metis div_mult_mod_eq word_unat_eq_iff)
  then show ?case
    using Cons.IH byte_div_16 [of b] byte_div_16 [of b'] by (auto simp: hex_of_Cons hexString_digits(2))
qed

lemma hex_of_c_string: "c_string (hex_of r @ 0 # ys) = hex_of r"
proof -
  have "0 \<notin> set (hex_of r)"
  proof
    assume "0 \<in> set (hex_of r)"
    from hex_of_chars [OF this] show False by simp
  qed
  then show ?thesis by (rule c_string_append_NUL)
qed

lemma hex_key_valid:
  assumes "r \<noteq> []"
  shows "lWosStorageIsKeyValid (Some (hex_of r @ 0 # ys))"
proof -
  have "hex_of r \<noteq> []" using assms length_hex_of [of r] by (metis length_0_conv mult_eq_0_iff zero_neq_numeral)
  moreover have "\<not> (c < 31 \<or> 127 < c \<or> c = 47 \<or> c = 92)" if "c \<in> set (hex_of r)" for c
    using hex_of_chars [OF that] by (auto simp: word_less_nat_alt)
  ultimately show ?thesis
    by (simp add: lWosStorageIsKeyValid_def hex_of_c_string list_all_iff)
qed

lemma put_id_zeros:
  assumes "length r = 16" and "length pre = base" and "34 \<le> n"
  shows "put_id (pre @ replicate n 0) base r = pre @ hex_of r @ replicate (n - 32) 0"
proof -
  have "drop (base + 32) (pre @ replicate n 0) = replicate (n - 32) 0"
    using assms(2) by simp
  then have "put_id (pre @ replicate n 0) base r = (pre @ hex_of r @ replicate (n - 32) 0)[base + 33 := 0]"
    using assms(2) by (simp add: put_id_def)
  also have "\<dots> = pre @ hex_of r @ (replicate (n - 32) 0)[1 := 0]"
    using assms by (simp add: list_update_append)
  also have "(replicate (n - 32) (0 :: byte))[1 := 0] = replicate (n - 32) 0"
    using assms(3) by (intro list_update_same_conv [THEN iffD2]) simp_all
  finally show ?thesis .
qed

text \<open>The id memory after the three ids were drawn: each overwrites the NUL the one before it put
  into its first byte.\<close>

definition id_memory :: "bytes \<Rightarrow> bytes \<Rightarrow> bytes \<Rightarrow> bytes" where
  "id_memory r1 r2 r3 = hex_of r1 @ [0] @ hex_of r2 @ [0] @ hex_of r3 @ [0, 0]"

lemma put_ids:
  assumes "length r1 = 16" and "length r2 = 16" and "length r3 = 16"
  shows "put_id (put_id (put_id (replicate 100 0) 0 r1) 33 r2) 66 r3 = id_memory r1 r2 r3"
    and "put_id (put_id (replicate 100 0) 0 r1) 33 r2 = hex_of r1 @ [0] @ hex_of r2 @ replicate 35 0"
proof -
  have 1: "put_id (replicate 100 0) 0 r1 = (hex_of r1 @ [0]) @ replicate 67 0"
    using put_id_zeros [OF assms(1), of "[]" 0 100]
      replicate_add [of 1 67 "0 :: byte"] by simp
  have 2: "put_id ((hex_of r1 @ [0]) @ replicate 67 0) 33 r2 = (hex_of r1 @ [0]) @ hex_of r2 @ replicate 35 0"
    using put_id_zeros [OF assms(2), of "hex_of r1 @ [0]" 33 67] assms(1) by simp
  have z: "replicate 35 (0 :: byte) = [0] @ replicate 34 0" by (simp flip: replicate_Suc)
  have 3: "put_id ((hex_of r1 @ [0] @ hex_of r2 @ [0]) @ replicate 34 0) 66 r3
      = (hex_of r1 @ [0] @ hex_of r2 @ [0]) @ hex_of r3 @ replicate 2 0"
    using put_id_zeros [OF assms(3), of "hex_of r1 @ [0] @ hex_of r2 @ [0]" 66 34] assms(1,2) by simp
  show "put_id (put_id (replicate 100 0) 0 r1) 33 r2 = hex_of r1 @ [0] @ hex_of r2 @ replicate 35 0"
    unfolding 1 2 by simp
  show "put_id (put_id (put_id (replicate 100 0) 0 r1) 33 r2) 66 r3 = id_memory r1 r2 r3"
    using 3 unfolding 1 2 z by (simp add: id_memory_def numeral_2_eq_2)
qed

definition new_session :: "byte \<Rightarrow> bytes \<Rightarrow> bytes \<Rightarrow> bytes \<Rightarrow> smp_session" where
  "new_session chain r1 r2 r3 = fresh_session
     \<lparr>rootCaStorageId := gRootCaStorageId, selfCertChainStorageId := gSelfCertStorageId,
      selfPrivKeyStorageId := gSelfPrivKeyStorageId, selfCertChainSize := chain,
      s_ids := id_memory r1 r2 r3, isPreSessionSecretsGenerated := True\<rparr>"

lemma new_session_facts:
  assumes "length r1 = 16" and "length r2 = 16" and "length r3 = 16"
  shows "session_ok (new_session chain r1 r2 r3)"
    and "c_string (the (sessionPrivateKeyStorageId (new_session chain r1 r2 r3))) = hex_of r1"
    and "c_string (the (sessionPublicKeyStorageId (new_session chain r1 r2 r3))) = hex_of r2"
    and "c_string (the (sessionSharedKeyStorageId (new_session chain r1 r2 r3))) = hex_of r3"
    and "distinct [r1, r2, r3] \<Longrightarrow> ids_ok (new_session chain r1 r2 r3)"
proof -
  let ?s = "new_session chain r1 r2 r3"
  have ids: "s_ids ?s = id_memory r1 r2 r3" by (simp add: new_session_def)
  have d: "sessionPrivateKeyStorageId ?s = Some (hex_of r1 @ 0 # hex_of r2 @ [0] @ hex_of r3 @ [0, 0])"
    "sessionPublicKeyStorageId ?s = Some (hex_of r2 @ 0 # hex_of r3 @ [0, 0])"
    "sessionSharedKeyStorageId ?s = Some (hex_of r3 @ 0 # [0])"
    using assms by (simp_all add: sessionPrivateKeyStorageId_def sessionPublicKeyStorageId_def
        sessionSharedKeyStorageId_def ids id_memory_def)
  show "session_ok ?s"
    using assms by (simp add: session_ok_def ids id_memory_def new_session_def fresh_session_def c_string_def)
  show c: "c_string (the (sessionPrivateKeyStorageId ?s)) = hex_of r1"
    "c_string (the (sessionPublicKeyStorageId ?s)) = hex_of r2"
    "c_string (the (sessionSharedKeyStorageId ?s)) = hex_of r3"
    by (simp_all only: d option.sel hex_of_c_string)
  have ne: "r1 \<noteq> []" "r2 \<noteq> []" "r3 \<noteq> []" using assms by auto
  show "ids_ok ?s" if "distinct [r1, r2, r3]"
    using that assms unfolding ids_ok_def d
    by (simp add: hex_key_valid ne hex_of_c_string hex_of_inject)
qed

lemma gen_id_calm:
  assumes law: "prng_law T" and ctx: "smp_ctx w = Some s" and b: "base + 33 < length (s_ids s)"
  obtains r p' where "length r = 16"
    and "smpUtilsGen32CharRandomId T base w
      = (Inr (), w\<lparr>w_prng := p', smp_ctx := Some (s\<lparr>s_ids := put_id (s_ids s) base r\<rparr>)\<rparr>)"
proof -
  obtain r p' where r: "wosCryptoGetRandomBytes T (Some 16) w = (Inr r, w\<lparr>w_prng := p'\<rparr>)" "length r = 16"
    using random_calm [OF law, of 16 w] by auto
  have "smpUtilsGen32CharRandomId T base w
      = (Inr (), w\<lparr>w_prng := p', smp_ctx := Some (s\<lparr>s_ids := put_id (s_ids s) base r\<rparr>)\<rparr>)"
    using ctx b r(1) by (simp add: smpUtilsGen32CharRandomId_def comp_defs)
  then show thesis using that r(2) by blast
qed

text \<open>
  Opening a session draws three ids, stores a fresh key pair under the first two, and leaves the
  rest of the storage alone.
\<close>

lemma init_session_calm:
  fixes w :: "('p, 'z) smp_world_scheme"
  assumes calm: "calm w" and law: "tom_law T"
  obtains r1 r2 r3 k priv pub p' where
    "smpInitialiseSessionParams T w
      = (Inr (), w\<lparr>w_prng := p',
           w_files := (w_files w)(hex_of r1 \<mapsto> priv, hex_of r2 \<mapsto> pub),
           smp_ctx := Some (new_session (gSelfCertChainSize w) r1 r2 r3)\<rparr>)"
    and "length r1 = 16" and "length r2 = 16" and "length r3 = 16" and "key_pair T k priv pub"
proof -
  have pl: "prng_law T" using law by (simp add: tom_law_def)
  define s0 where "s0 = fresh_session\<lparr>rootCaStorageId := gRootCaStorageId,
    selfCertChainStorageId := gSelfCertStorageId, selfPrivKeyStorageId := gSelfPrivKeyStorageId,
    selfCertChainSize := gSelfCertChainSize w\<rparr>"
  have ids0: "s_ids s0 = replicate 100 0" by (simp add: s0_def fresh_session_def)
  define w0 where "w0 = w\<lparr>smp_ctx := Some s0\<rparr>"
  have cfg: "smpConfigGlobalCreds (w\<lparr>smp_ctx := Some fresh_session\<rparr>) = (Inr (), w0)"
    by (simp add: smpConfigGlobalCreds_def comp_defs w0_def s0_def)
  obtain r1 p1 where 1: "length r1 = 16" "smpUtilsGen32CharRandomId T 0 w0
      = (Inr (), w0\<lparr>w_prng := p1, smp_ctx := Some (s0\<lparr>s_ids := put_id (s_ids s0) 0 r1\<rparr>)\<rparr>)"
    by (rule gen_id_calm [OF pl, of w0 s0 0]) (simp_all add: w0_def ids0)
  define s1 where "s1 = s0\<lparr>s_ids := put_id (s_ids s0) 0 r1\<rparr>"
  define w1 where "w1 = w0\<lparr>w_prng := p1, smp_ctx := Some s1\<rparr>"
  obtain r2 p2 where 2: "length r2 = 16" "smpUtilsGen32CharRandomId T 33 w1
      = (Inr (), w1\<lparr>w_prng := p2, smp_ctx := Some (s1\<lparr>s_ids := put_id (s_ids s1) 33 r2\<rparr>)\<rparr>)"
    by (rule gen_id_calm [OF pl, of w1 s1 33]) (simp_all add: w1_def s1_def ids0 put_id_def)
  define s2 where "s2 = s1\<lparr>s_ids := put_id (s_ids s1) 33 r2\<rparr>"
  define w2 where "w2 = w1\<lparr>w_prng := p2, smp_ctx := Some s2\<rparr>"
  have m2: "s_ids s2 = hex_of r1 @ 0 # hex_of r2 @ replicate 35 0"
    using put_ids(2) [OF 1(1) 2(1) 2(1)] by (simp add: s2_def s1_def ids0)
  have ne: "r1 \<noteq> []" "r2 \<noteq> []" using 1(1) 2(1) by auto
  have z: "replicate 35 (0 :: byte) = 0 # replicate 34 0" by (simp flip: replicate_Suc)
  have c2: "c_string (the (sessionPrivateKeyStorageId s2)) = hex_of r1"
      "c_string (the (sessionPublicKeyStorageId s2)) = hex_of r2"
      "lWosStorageIsKeyValid (sessionPrivateKeyStorageId s2)"
      "lWosStorageIsKeyValid (sessionPublicKeyStorageId s2)"
    using hex_key_valid [OF ne(1)] hex_key_valid [OF ne(2)] 1(1)
    by (simp_all add: sessionPrivateKeyStorageId_def sessionPublicKeyStorageId_def m2 z
        hex_of_c_string)
  have calm2: "calm w2" using calm by (simp add: w2_def w1_def w0_def)
  obtain k priv pub p3 where g: "wosCryptoEccGenerateKey T (sessionPrivateKeyStorageId s2)
        (sessionPublicKeyStorageId s2) w2
      = (Inr (), put_file (hex_of r2) pub (put_file (hex_of r1) priv (w2\<lparr>w_prng := p3\<rparr>)))"
      "key_pair T k priv pub"
    by (rule generate_calm [OF calm2 law c2(3,4), unfolded c2(1,2)])
  define s3 where "s3 = s2\<lparr>isPreSessionSecretsGenerated := True\<rparr>"
  define w3 where "w3 = (put_file (hex_of r2) pub (put_file (hex_of r1) priv (w2\<lparr>w_prng := p3\<rparr>)))\<lparr>smp_ctx := Some s3\<rparr>"
  obtain r3 p4 where 3: "length r3 = 16" "smpUtilsGen32CharRandomId T 66 w3
      = (Inr (), w3\<lparr>w_prng := p4, smp_ctx := Some (s3\<lparr>s_ids := put_id (s_ids s3) 66 r3\<rparr>)\<rparr>)"
    by (rule gen_id_calm [OF pl, of w3 s3 66]) (simp_all add: w3_def s3_def m2 1(1) 2(1))
  have fin: "s3\<lparr>s_ids := put_id (s_ids s3) 66 r3\<rparr> = new_session (gSelfCertChainSize w) r1 r2 r3"
    using put_ids(1) [OF 1(1) 2(1) 3(1)]
    by (simp add: s3_def s2_def s1_def s0_def new_session_def fresh_session_def)
  have "smpInitialiseSessionParams T w
      = (Inr (), w\<lparr>w_prng := p4, w_files := (w_files w)(hex_of r1 \<mapsto> priv, hex_of r2 \<mapsto> pub),
           smp_ctx := Some (new_session (gSelfCertChainSize w) r1 r2 r3)\<rparr>)"
  proof -
    have "smp_ctx w2 = Some s2" by (simp add: w2_def)
    then show ?thesis
      using calm cfg 1(2) [folded s1_def, folded w1_def] 2(2) [folded s2_def, folded w2_def] g(1)
        3(2) [unfolded fin]
      by (simp add: smpInitialiseSessionParams_def wosStorageInitialize_def comp_defs w3_def s3_def
          put_file_def) (simp add: w2_def w1_def w0_def)
  qed
  then show thesis using that 1(1) 2(1) 3(1) g(2) by blast
qed

end
