(* ===== verification/SmpApi.thy ===== *)
theory SmpApi
  imports SmpSessionFacts
begin

text \<open>
  \<open>WeeveClientLibrary/src/smp/smp.c\<close> and \<open>src/com/wclCommon.c\<close>: the interface of the client
  library. A session handle is \<open>WCL_SESSION_INVALID\<close> or the pointer \<open>smp_ctx\<close> of the state;
  \<open>wclSmpClose\<close> frees the session, and the handle must not be used again.
\<close>

datatype wcl_session = WCL_SESSION_INVALID | Session

definition smpInit :: "(('p, 'z) smp_world_scheme, wcl_error, unit) comp" where
  "smpInit = smpInitGlobalCreds"

definition smpTerminate :: "(('p, 'z) smp_world_scheme, wcl_error, unit) comp" where
  "smpTerminate = ignore smpDeInitGlobalCreds"

definition wclInit :: "('k, 'p) tom_api \<Rightarrow> (('p, 'z) smp_world_scheme, wcl_error, unit) comp" where
  "wclInit T =
     bindE (on_error (as_code WCL_ERROR) (wosCryptoInitialize T)) (\<lambda>_.
     rescue smpInit (\<lambda>e. bindE (ignore (wosCryptoTerminate T)) (\<lambda>_. fail e)))"

definition wclTerminate :: "('k, 'p) tom_api \<Rightarrow> (('p, 'z) smp_world_scheme, wcl_error, unit) comp" where
  "wclTerminate T = bindE (ignore (wosCryptoTerminate T)) (\<lambda>_. smpTerminate)"

text \<open>Freeing the data of an output buffer leaves an empty one.\<close>

definition wclFreeBuffer :: "wos_buffer \<Rightarrow> wos_buffer" where
  "wclFreeBuffer pBuffer = None"

definition wclSmpOpen :: "('k, 'p) tom_api \<Rightarrow> (('p, 'z) smp_world_scheme, wcl_error, wcl_session) comp" where
  "wclSmpOpen T = bindE (smpInitialiseSessionParams T) (\<lambda>_. ok Session)"

definition wclSmpClose :: "wcl_session \<Rightarrow> (('p, 'z) smp_world_scheme, wcl_error, unit) comp" where
  "wclSmpClose session =
     bindE (ensure (session \<noteq> WCL_SESSION_INVALID) (Code WCL_ERROR_BAD_PARAMS)) (\<lambda>_.
     smpDeleteSessionCredentials)"

definition sendable_types :: "smp_role \<Rightarrow> byte list" where
  "sendable_types role =
     [WCL_SMP_MESSAGE_MQTTS_PUBLISH, WCL_SMP_MESSAGE_MQTTS_PUBACK, WCL_SMP_MESSAGE_MQTTS_PUBREC,
      WCL_SMP_MESSAGE_MQTTS_PUBREL, WCL_SMP_MESSAGE_MQTTS_PUBCOMP, WCL_SMP_MESSAGE_MQTTS_PINGREQ,
      WCL_SMP_MESSAGE_MQTTS_PINGRESP] @
     (case role of
        SMP_MQTTS_CLIENT \<Rightarrow>
          [WCL_SMP_MESSAGE_MQTTS_SUBSCRIBE, WCL_SMP_MESSAGE_MQTTS_UNSUBSCRIBE,
           WCL_SMP_MESSAGE_MQTTS_DISCONNECT]
      | SMP_MQTTS_BROKER \<Rightarrow> [WCL_SMP_MESSAGE_MQTTS_SUBACK, WCL_SMP_MESSAGE_MQTTS_UNSUBACK])"

definition wclSmpGetMessage ::
    "('e, 'v) cbor_api \<Rightarrow> ('k, 'p) tom_api \<Rightarrow> smp_role \<Rightarrow> wcl_session \<Rightarrow> byte \<Rightarrow> wos_buffer \<Rightarrow>
     (('p, 'z) smp_world_scheme, wcl_error, bytes) comp" where
  "wclSmpGetMessage C T role session mtype pStdProtocolPacket =
     bindE (ensure (session \<noteq> WCL_SESSION_INVALID) (Code WCL_ERROR_BAD_SESSION)) (\<lambda>_.
     bindE (ensure (\<not> (mtype < WCL_SMP_MESSAGE_MQTTS_CONNECT \<or> WCL_SMP_MESSAGE_MQTTS_DISCONNECT < mtype) \<and>
                    WOS_IS_VALID_BUFFER pStdProtocolPacket) (Code WCL_ERROR_BAD_PARAMS)) (\<lambda>_.
     if mtype = (case role of SMP_MQTTS_CLIENT \<Rightarrow> WCL_SMP_MESSAGE_MQTTS_CONNECT
                 | SMP_MQTTS_BROKER \<Rightarrow> WCL_SMP_MESSAGE_MQTTS_CONNACK)
     then smpExportSessionEstablishmentParams C T role pStdProtocolPacket
     else if mtype \<in> set (sendable_types role)
     then smpSecureMessage C T role mtype pStdProtocolPacket
     else fail (Code WCL_ERROR)))"

definition wclSmpProcessMessage ::
    "('e, 'v) cbor_api \<Rightarrow> ('k, 'p) tom_api \<Rightarrow> smp_role \<Rightarrow> wcl_session \<Rightarrow> wos_buffer \<Rightarrow>
     (('p, 'z) smp_world_scheme, wcl_error, wos_buffer) comp" where
  "wclSmpProcessMessage C T role session pSmpMessage =
     bindE (ensure (session \<noteq> WCL_SESSION_INVALID) (Code WCL_ERROR_BAD_SESSION)) (\<lambda>_.
     bindE (ensure (WOS_IS_VALID_BUFFER pSmpMessage) (Code WCL_ERROR_BAD_PARAMS)) (\<lambda>_.
     bindE (smpProcessMessage C T role pSmpMessage) (\<lambda>packet.
     bindE (ensure (WOS_IS_VALID_BUFFER packet) (Code WCL_ERROR_UNKNOWN)) (\<lambda>_.
     ok packet))))"

text \<open>In a calm world the interface adds nothing to the session operations.\<close>

lemma get_message_se:
  "pkt \<noteq> [] \<Longrightarrow> wclSmpGetMessage C T role Session (se_type role) (Some pkt) w
     = smpExportSessionEstablishmentParams C T role (Some pkt) w"
  by (cases role) (simp_all add: wclSmpGetMessage_def comp_defs)

lemma get_message_control:
  assumes "mtype \<in> set (sendable_types role)" and "pkt \<noteq> []"
  shows "wclSmpGetMessage C T role Session mtype (Some pkt) w = smpSecureMessage C T role mtype (Some pkt) w"
  using assms by (cases role; auto simp: wclSmpGetMessage_def comp_defs sendable_types_def)

lemma process_message_ok:
  "msg \<noteq> [] \<Longrightarrow> pkt \<noteq> [] \<Longrightarrow> smpProcessMessage C T role (Some msg) w = (Inr (Some pkt), w') \<Longrightarrow>
   wclSmpProcessMessage C T role Session (Some msg) w = (Inr (Some pkt), w')"
  by (simp add: wclSmpProcessMessage_def comp_defs)

section \<open>A machine that is ready for a handshake\<close>

text \<open>
  \<open>ready\<close>: the library works on this machine, an open session with usable ids has its key pair in
  the storage, the machine has an identity, and it trusts the certificate of its peer.
\<close>

definition ids_apart :: "smp_session \<Rightarrow> bool" where
  "ids_apart s \<longleftrightarrow>
     (\<forall>i \<in> {sessionPrivateKeyStorageId s, sessionPublicKeyStorageId s, sessionSharedKeyStorageId s}.
      \<forall>c \<in> {selfPrivKeyStorageId s, selfCertChainStorageId s, rootCaStorageId s}.
        c_string (the i) \<noteq> c_string (the c))"

definition ready ::
    "('e, 'v) cbor_api \<Rightarrow> ('k, 'p) tom_api \<Rightarrow> ('p, 'z) smp_world_scheme \<Rightarrow> smp_session \<Rightarrow> 'k \<Rightarrow> bytes \<Rightarrow>
     bytes \<times> bytes \<Rightarrow> bytes \<times> bytes \<Rightarrow> bool" where
  "ready C T w s k pub own peer \<longleftrightarrow>
     calm w \<and> smp_ctx w = Some s \<and> session_ok s \<and> ids_ok s \<and>
     (\<exists>priv. holds_key w (sessionPrivateKeyStorageId s) priv \<and> key_pair T k priv pub) \<and>
     holds_key w (sessionPublicKeyStorageId s) pub \<and> ids_apart s \<and>
     has_identity T w s (fst own) (snd own) \<and> trusts C T w s (fst peer) (snd peer)"

text \<open>The session a machine has after the handshake, and the key it shares.\<close>

definition established :: "('p, 'z) smp_world_scheme \<Rightarrow> smp_session \<Rightarrow> bytes \<Rightarrow> bool" where
  "established w s key \<longleftrightarrow> calm w \<and> smp_ctx w = Some s \<and> session_ok s \<and> isSessionKeyEstablished s \<and>
     length key = 32 \<and> holds_key w (sessionSharedKeyStorageId s) key"

text \<open>Unpacking a certificate depends on the bytes only, as long as no call fails.\<close>

definition steady :: "(('p, 'z) world_scheme, 'e, 'a) comp \<Rightarrow> bool" where
  "steady m \<longleftrightarrow> (\<exists>r. \<forall>w. calm w \<longrightarrow> m w = (r, w))"

lemma steadyE:
  assumes "steady m"
  obtains r where "\<And>w. calm w \<Longrightarrow> m w = (r, w)"
  using assms by (auto simp: steady_def)

lemma steady_on_error:
  assumes "steady m"
  shows "steady (on_error h m)"
proof -
  obtain r where r: "\<And>w. calm w \<Longrightarrow> m w = (r, w)" by (rule steadyE [OF assms]) blast
  then show ?thesis by (cases r) (auto simp: steady_def on_error_def)
qed

lemma steady_bindE:
  assumes "steady m" and "\<And>x. steady (k x)"
  shows "steady (bindE m k)"
proof -
  obtain r where r: "\<And>w. calm w \<Longrightarrow> m w = (r, w)" by (rule steadyE [OF assms(1)]) blast
  show ?thesis
  proof (cases r)
    case (Inl e)
    then show ?thesis using r by (auto simp: steady_def bindE_def intro!: exI [of _ "Inl e"])
  next
    case (Inr x)
    then show ?thesis using r assms(2) [of x] by (auto simp: steady_def bindE_def)
  qed
qed

lemma steady_alloc: "0 < n \<Longrightarrow> steady m \<Longrightarrow> steady (bindE (alloc n e) (\<lambda>_. m))"
  by (auto simp: steady_def bindE_def)

lemma steady_leaf: "steady (ok x)" "steady (ensure b e)" "steady (pure_res r)" "steady (fail e)"
  by (auto simp: steady_def comp_defs fail_def)

lemmas steady_intros = steady_leaf steady_on_error steady_alloc steady_bindE

lemma steady_parse: "steady (msgCborParseByteString C v)"
  unfolding msgCborParseByteString_def split_def
  by (cases v) (simp_all add: steady_intros)

lemma steady_unpack:
  "steady (wosCborUnpackCertificateContainer C b)" "steady (wosCborUnpackCertificateTbs C b)"
  unfolding wosCborUnpackCertificateContainer_def wosCborUnpackCertificateTbs_def split_def
  by (intro steady_intros steady_parse)+

lemma steady_moves: "steady m \<Longrightarrow> calm w \<Longrightarrow> calm w' \<Longrightarrow> m w = (Inr x, w) \<Longrightarrow> m w' = (Inr x, w')"
  by (auto simp: steady_def)

lemma reads_cert_moves:
  fixes w w' :: "('p, 'z) world_scheme"
  assumes "reads_cert C w b c" and "calm w" and "calm w'"
  shows "reads_cert C w' b c"
  using assms(1) steady_moves [OF steady_unpack(1) assms(2,3)] steady_moves [OF steady_unpack(2) assms(2,3)]
  by (auto simp: reads_cert_def)

lemma trusts_moves:
  fixes w w' :: "('p, 'z) smp_world_scheme"
  assumes "trusts C T w s cert pub" and "calm w" and "calm w'"
    and "rootCaStorageId s' = rootCaStorageId s"
    and "w_files w' (c_string (the (rootCaStorageId s))) = w_files w (c_string (the (rootCaStorageId s)))"
  shows "trusts C T w' s' cert pub"
  using assms unfolding trusts_def holds_key_def by (auto intro: reads_cert_moves)

section \<open>Opening a session\<close>

lemma hex_not_cred:
  assumes "length r = 16"
  shows "hex_of r \<noteq> cstr ''root_ca''" and "hex_of r \<noteq> cstr ''self_cert''" and "hex_of r \<noteq> cstr ''self_key''"
  using assms by (auto dest!: arg_cong [of _ _ length])

lemma new_session_apart:
  assumes "length r1 = 16" and "length r2 = 16" and "length r3 = 16"
  shows "ids_apart (new_session chain r1 r2 r3)"
proof -
  have f: "selfPrivKeyStorageId (new_session chain r1 r2 r3) = gSelfPrivKeyStorageId"
    "selfCertChainStorageId (new_session chain r1 r2 r3) = gSelfCertStorageId"
    "rootCaStorageId (new_session chain r1 r2 r3) = gRootCaStorageId"
    by (simp_all add: new_session_def)
  show ?thesis
    unfolding ids_apart_def f
    using new_session_facts(2-4) [OF assms, of chain] hex_not_cred [OF assms(1)] hex_not_cred [OF assms(2)]
      hex_not_cred [OF assms(3)] by (auto simp: cred_strings)
qed

text \<open>
  A machine with its credentials in the storage opens a session; when the three random ids are
  different, it is ready for a handshake.
\<close>

lemma open_calm:
  fixes w :: "('p, 'z) smp_world_scheme"
  assumes calm: "calm w" and law: "tom_law T"
    and own: "holds_key w gSelfPrivKeyStorageId priv" "key_pair T k0 priv ownpub"
      "holds_key w gSelfCertStorageId cert" "length cert < 2 ^ 30"
    and root: "holds_key w gRootCaStorageId root" "reads_cert C w (Some root) rc"
      "reads_cert C w (Some peercert) pc" "valid_chain T [rc, pc]" "pSubjectPubKey (pTbs pc) = Some peerpub"
  obtains r1 r2 r3 k pub w' where "wclSmpOpen T w = (Inr Session, w')"
    and "smp_ctx w' = Some (new_session (gSelfCertChainSize w) r1 r2 r3)"
    and "distinct [r1, r2, r3] \<Longrightarrow>
      ready C T w' (new_session (gSelfCertChainSize w) r1 r2 r3) k pub (cert, ownpub) (peercert, peerpub)"
proof -
  obtain r1 r2 r3 k spriv spub p' where i: "smpInitialiseSessionParams T w
      = (Inr (), w\<lparr>w_prng := p', w_files := (w_files w)(hex_of r1 \<mapsto> spriv, hex_of r2 \<mapsto> spub),
           smp_ctx := Some (new_session (gSelfCertChainSize w) r1 r2 r3)\<rparr>)"
      "length r1 = 16" "length r2 = 16" "length r3 = 16" "key_pair T k spriv spub"
    by (rule init_session_calm [OF calm law])
  define s where "s = new_session (gSelfCertChainSize w) r1 r2 r3"
  define w' where "w' = w\<lparr>w_prng := p', w_files := (w_files w)(hex_of r1 \<mapsto> spriv, hex_of r2 \<mapsto> spub),
           smp_ctx := Some s\<rparr>"
  have names: "selfPrivKeyStorageId s = gSelfPrivKeyStorageId"
    "selfCertChainStorageId s = gSelfCertStorageId" "rootCaStorageId s = gRootCaStorageId"
    by (simp_all add: s_def new_session_def)
  note facts = new_session_facts [OF i(2-4), of "gSelfCertChainSize w", folded s_def]
  note nc = hex_not_cred [OF i(2)] hex_not_cred [OF i(3)]
  note nc = nc nc [symmetric]
  have calm': "calm w'" using calm by (simp add: w'_def)
  have keep: "holds_key w' gSelfPrivKeyStorageId priv" "holds_key w' gSelfCertStorageId cert"
      "holds_key w' gRootCaStorageId root"
    using own root nc by (simp_all add: holds_key_def w'_def cred_strings)
  have "ready C T w' s k spub (cert, ownpub) (peercert, peerpub)" if d: "distinct [r1, r2, r3]"
  proof -
    have ids: "ids_ok s" by (rule facts(5) [OF d])
    have "hex_of r1 \<noteq> hex_of r2" using d i(2,3) by (simp add: hex_of_inject)
    then have "holds_key w' (sessionPrivateKeyStorageId s) spriv" "holds_key w' (sessionPublicKeyStorageId s) spub"
      using i(5) ids facts(2,3) by (auto simp: holds_key_def w'_def ids_ok_def key_pair_def crypto_lengths)
    moreover have "has_identity T w' s cert ownpub"
      using keep own by (auto simp: has_identity_def names)
    moreover have "trusts C T w' s peercert peerpub"
      using keep(3) root reads_cert_moves [OF _ calm calm'] unfolding trusts_def names by blast
    ultimately show ?thesis
      using calm' facts(1) ids i(5) new_session_apart [OF i(2-4), of "gSelfCertChainSize w"]
      by (auto simp: ready_def s_def [symmetric]) (simp add: w'_def)
  qed
  moreover have "wclSmpOpen T w = (Inr Session, w')"
    using i(1) by (simp add: wclSmpOpen_def comp_defs w'_def s_def)
  ultimately show thesis using that [of w' r1 r2 r3 k spub] by (simp add: s_def w'_def)
qed

section \<open>The handshake\<close>

text \<open>
  The client sends CONNECT, the broker processes it and answers with CONNACK, the client
  processes that. Each gets the packet of the other, and both hold the same session key.
\<close>

definition handshake ::
    "('e, 'v) cbor_api \<Rightarrow> ('k, 'p) tom_api \<Rightarrow> bytes \<Rightarrow> bytes \<Rightarrow>
     ('p, 'z) smp_world_scheme \<Rightarrow> ('p, 'z) smp_world_scheme \<Rightarrow>
     (('p, 'z) smp_world_scheme \<times> ('p, 'z) smp_world_scheme) option" where
  "handshake C T p1 p2 wc wb =
     (case wclSmpGetMessage C T SMP_MQTTS_CLIENT Session WCL_SMP_MESSAGE_MQTTS_CONNECT (Some p1) wc of
        (Inl _, _) \<Rightarrow> None
      | (Inr m1, wc1) \<Rightarrow>
     (case wclSmpProcessMessage C T SMP_MQTTS_BROKER Session (Some m1) wb of
        (Inl _, _) \<Rightarrow> None
      | (Inr r1, wb1) \<Rightarrow>
     (case wclSmpGetMessage C T SMP_MQTTS_BROKER Session WCL_SMP_MESSAGE_MQTTS_CONNACK (Some p2) wb1 of
        (Inl _, _) \<Rightarrow> None
      | (Inr m2, wb2) \<Rightarrow>
     (case wclSmpProcessMessage C T SMP_MQTTS_CLIENT Session (Some m2) wc1 of
        (Inl _, _) \<Rightarrow> None
      | (Inr r2, wc2) \<Rightarrow> if r1 = Some p1 \<and> r2 = Some p2 then Some (wc2, wb2) else None))))"

lemma broker_half:
  fixes w :: "('p, 'z) smp_world_scheme"
  assumes laws: "cbor_law C" "tom_law T" and rd: "ready C T w r k pub own peer"
    and est: "establishes C T (smp_peer receiver) s dh pkt (fst peer) (snd peer) msg"
    and s: "session_ok s" "\<not> toBeSentMessageId s < lastReceivedMessageId r"
    and other: "key_pair T k' privo dh" and pkt: "pkt \<noteq> []" "length pkt < 2 ^ 30"
  obtains secret w' where
    "wclSmpProcessMessage C T receiver Session (Some msg) w = (Inr (Some pkt), w')"
    and "w' = w\<lparr>w_files := files_after_se receiver r secret (w_files w),
        smp_ctx := Some (r\<lparr>isSessionKeyEstablished := True, lastReceivedMessageId := toBeSentMessageId s\<rparr>)\<rparr>"
    and "length secret = 32"
    and "\<forall>s1 q2. ecc_import T privo = Inr s1 \<longrightarrow> ecc_ansi_x963_import T pub = Inr q2 \<longrightarrow>
           ecc_shared_secret T s1 q2 WOS_CRYPTO_ECC_NIST_P256_SHARED_SECRET_LENGTH = Inr secret"
proof -
  obtain priv where key: "holds_key w (sessionPrivateKeyStorageId r) priv" "key_pair T k priv pub"
      and rd': "calm w" "smp_ctx w = Some r" "ids_ok r" "trusts C T w r (fst peer) (snd peer)"
    using rd by (auto simp: ready_def)
  have law: "ecdh_law T" using laws(2) by (simp add: tom_law_def)
  obtain s1 s2 q1 q2 secret where e: "ecc_import T privo = Inr s1" "ecc_import T priv = Inr s2"
      "ecc_ansi_x963_import T dh = Inr q1" "ecc_ansi_x963_import T pub = Inr q2"
      "ecc_shared_secret T s1 q2 WOS_CRYPTO_ECC_NIST_P256_SHARED_SECRET_LENGTH = Inr secret"
      "ecc_shared_secret T s2 q1 WOS_CRYPTO_ECC_NIST_P256_SHARED_SECRET_LENGTH = Inr secret"
      "length secret = WOS_CRYPTO_ECC_NIST_P256_SHARED_SECRET_LENGTH"
    using law other key(2) unfolding ecdh_law_def by blast
  have len: "length secret = 32" "length dh = 65"
    using e(7) other by (simp_all add: crypto_lengths key_pair_def)
  have "msg \<noteq> []" using est by (auto simp: establishes_def)
  with process_message_ok [OF _ pkt(1) process_se_calm [OF rd'(1,2) s rd'(4) est rd'(3) key(1) e(2,3,6) len pkt]]
  show thesis using e len(1) by (intro that [of _ secret]) auto
qed

text \<open>Sending the own establishment message keeps a machine ready.\<close>

definition sent :: "smp_session \<Rightarrow> smp_session" where
  "sent s = s\<lparr>selfCertChainSize := 1, toBeSentMessageId := toBeSentMessageId s + 1\<rparr>"

lemma sent_fields [simp]:
  "sessionPrivateKeyStorageId (sent s) = sessionPrivateKeyStorageId s"
  "sessionPublicKeyStorageId (sent s) = sessionPublicKeyStorageId s"
  "sessionSharedKeyStorageId (sent s) = sessionSharedKeyStorageId s"
  "selfPrivKeyStorageId (sent s) = selfPrivKeyStorageId s"
  "selfCertChainStorageId (sent s) = selfCertChainStorageId s"
  "rootCaStorageId (sent s) = rootCaStorageId s" "session_ok (sent s) = session_ok s"
  "ids_ok (sent s) = ids_ok s" "ids_apart (sent s) = ids_apart s"
  "lastReceivedMessageId (sent s) = lastReceivedMessageId s"
  "toBeSentMessageId (sent s) = toBeSentMessageId s + 1"
  "isSessionKeyEstablished (sent s) = isSessionKeyEstablished s"
  by (simp_all add: sent_def sessionPrivateKeyStorageId_def sessionPublicKeyStorageId_def
      sessionSharedKeyStorageId_def session_ok_def ids_ok_def ids_apart_def)

lemma ready_sent:
  fixes w :: "('p, 'z) smp_world_scheme"
  assumes "ready C T w s k pub own peer"
  shows "ready C T (w\<lparr>w_prng := p, smp_ctx := Some (sent s)\<rparr>) (sent s) k pub own peer"
proof -
  have "trusts C T (w\<lparr>w_prng := p, smp_ctx := Some (sent s)\<rparr>) (sent s) (fst peer) (snd peer)"
    using assms trusts_moves [of C T w s "fst peer" "snd peer"
        "w\<lparr>w_prng := p, smp_ctx := Some (sent s)\<rparr>" "sent s"] by (simp add: ready_def)
  then show ?thesis using assms by (simp add: ready_def has_identity_def)
qed

lemma export_ready:
  fixes w :: "('p, 'z) smp_world_scheme"
  assumes laws: "cbor_law C" "tom_law T"
    and w: "calm w" "smp_ctx w = Some s" "session_ok s" "has_identity T w s (fst own) (snd own)"
    and key: "holds_key w (sessionPublicKeyStorageId s) pub" "length pub = 65"
    and pkt: "pkt \<noteq> []" "length pkt < 2 ^ 30"
  obtains msg p' where
    "wclSmpGetMessage C T role Session (se_type role) (Some pkt) w
       = (Inr msg, w\<lparr>w_prng := p', smp_ctx := Some (sent s)\<rparr>)"
    and "establishes C T role s pub pkt (fst own) (snd own) msg"
proof -
  obtain msg p' where "smpExportSessionEstablishmentParams C T role (Some pkt) w
       = (Inr msg, w\<lparr>w_prng := p', smp_ctx :=
           Some (s\<lparr>selfCertChainSize := 1, toBeSentMessageId := toBeSentMessageId s + 1\<rparr>)\<rparr>)"
      "establishes C T role s pub pkt (fst own) (snd own) msg"
    by (rule export_calm [OF w(1) laws w(2-4) key pkt])
  then show thesis by (intro that [of msg p']) (simp_all add: get_message_se [OF pkt(1)] sent_def)
qed

text \<open>What the storage holds after the session key was derived.\<close>

lemma files_after_se_keeps:
  assumes "c \<notin> c_string ` the ` {sessionPrivateKeyStorageId r, sessionPublicKeyStorageId r, sessionSharedKeyStorageId r}"
  shows "files_after_se role r secret files c = files c"
  using assms by (simp add: files_after_se_def Let_def)

lemma files_after_se_ids:
  assumes "ids_ok r"
  shows "files_after_se role r secret files (c_string (the (sessionSharedKeyStorageId r))) = Some secret"
    and "files_after_se role r secret files (c_string (the (sessionPrivateKeyStorageId r))) = None"
    and "files_after_se SMP_MQTTS_BROKER r secret files (c_string (the (sessionPublicKeyStorageId r)))
      = files (c_string (the (sessionPublicKeyStorageId r)))"
  using assms by (auto simp: files_after_se_def Let_def ids_ok_def)

lemma established_after_se:
  assumes "ready C T w r k pub own peer" and "length secret = 32"
    and "w' = w\<lparr>w_files := files_after_se role r secret (w_files w),
        smp_ctx := Some (r\<lparr>isSessionKeyEstablished := True, lastReceivedMessageId := n\<rparr>)\<rparr>"
  shows "established w' (r\<lparr>isSessionKeyEstablished := True, lastReceivedMessageId := n\<rparr>) secret"
proof -
  have "secret \<noteq> []" using assms(2) by auto
  then show ?thesis
    using assms files_after_se_ids(1) [of r role secret "w_files w"]
    by (auto simp: ready_def established_def holds_key_def ids_ok_def session_ok_def
        sessionSharedKeyStorageId_def)
qed

lemma handshake_calm:
  fixes wc wb :: "('p, 'z) smp_world_scheme"
  assumes laws: "cbor_law C" "tom_law T"
    and rc: "ready C T wc sc kc pubc ownc ownb" and rb: "ready C T wb sb kb pubb ownb ownc"
    and p1: "p1 \<noteq> []" "length p1 < 2 ^ 30" and p2: "p2 \<noteq> []" "length p2 < 2 ^ 30"
    and fresh: "\<not> toBeSentMessageId sc < lastReceivedMessageId sb"
      "\<not> toBeSentMessageId sb < lastReceivedMessageId sc"
  obtains wc' wb' key where "handshake C T p1 p2 wc wb = Some (wc', wb')"
    and "established wc' ((sent sc)\<lparr>isSessionKeyEstablished := True,
           lastReceivedMessageId := toBeSentMessageId sb\<rparr>) key"
    and "established wb' (sent (sb\<lparr>isSessionKeyEstablished := True,
           lastReceivedMessageId := toBeSentMessageId sc\<rparr>)) key"
    and "w_files wc' (c_string (the (sessionPrivateKeyStorageId sc))) = None"
    and "w_files wb' (c_string (the (sessionPrivateKeyStorageId sb))) = None"
proof -
  obtain privc privb where kc: "key_pair T kc privc pubc" and kb: "key_pair T kb privb pubb"
    using rc rb by (auto simp: ready_def)
  have lens: "length pubc = 65" "length pubb = 65" using kc kb by (simp_all add: key_pair_def crypto_lengths)
  have c: "calm wc" "smp_ctx wc = Some sc" "session_ok sc" "has_identity T wc sc (fst ownc) (snd ownc)"
      "holds_key wc (sessionPublicKeyStorageId sc) pubc"
    and b: "calm wb" "smp_ctx wb = Some sb" "session_ok sb" "has_identity T wb sb (fst ownb) (snd ownb)"
      "holds_key wb (sessionPublicKeyStorageId sb) pubb" "ids_ok sb" "ids_apart sb"
    using rc rb by (auto simp: ready_def)
  obtain m1 pc where 1: "wclSmpGetMessage C T SMP_MQTTS_CLIENT Session (se_type SMP_MQTTS_CLIENT) (Some p1) wc
       = (Inr m1, wc\<lparr>w_prng := pc, smp_ctx := Some (sent sc)\<rparr>)"
      "establishes C T SMP_MQTTS_CLIENT sc pubc p1 (fst ownc) (snd ownc) m1"
    by (rule export_ready [OF laws c lens(1) p1])
  define wc1 where "wc1 = wc\<lparr>w_prng := pc, smp_ctx := Some (sent sc)\<rparr>"
  define sb1 where "sb1 = sb\<lparr>isSessionKeyEstablished := True, lastReceivedMessageId := toBeSentMessageId sc\<rparr>"
  have est1: "establishes C T (smp_peer SMP_MQTTS_BROKER) sc pubc p1 (fst ownc) (snd ownc) m1"
    using 1(2) by simp
  obtain key wb1 where 2: "wclSmpProcessMessage C T SMP_MQTTS_BROKER Session (Some m1) wb = (Inr (Some p1), wb1)"
      "wb1 = wb\<lparr>w_files := files_after_se SMP_MQTTS_BROKER sb key (w_files wb), smp_ctx := Some sb1\<rparr>"
      "length key = 32"
      "\<forall>s1 q2. ecc_import T privc = Inr s1 \<longrightarrow> ecc_ansi_x963_import T pubb = Inr q2 \<longrightarrow>
         ecc_shared_secret T s1 q2 WOS_CRYPTO_ECC_NIST_P256_SHARED_SECRET_LENGTH = Inr key"
    unfolding sb1_def by (rule broker_half [OF laws rb est1 c(3) fresh(1) kc p1])
  have estb: "established wb1 sb1 key"
    using established_after_se [OF rb 2(3)] 2(2) unfolding sb1_def by blast
  have sb1: "sessionPublicKeyStorageId sb1 = sessionPublicKeyStorageId sb"
      "selfPrivKeyStorageId sb1 = selfPrivKeyStorageId sb"
      "selfCertChainStorageId sb1 = selfCertChainStorageId sb" "toBeSentMessageId sb1 = toBeSentMessageId sb"
      "sessionSharedKeyStorageId sb1 = sessionSharedKeyStorageId sb"
    by (simp_all add: sb1_def sessionPublicKeyStorageId_def sessionSharedKeyStorageId_def)
  have idb: "has_identity T wb1 sb1 (fst ownb) (snd ownb)"
    using b(4,7) files_after_se_keeps [of _ sb SMP_MQTTS_BROKER key "w_files wb"]
    unfolding has_identity_def holds_key_def sb1 2(2) ids_apart_def by (auto simp: image_iff)
  have pb: "holds_key wb1 (sessionPublicKeyStorageId sb1) pubb"
    using b(5,6) files_after_se_ids(3) [OF b(6)] by (simp add: holds_key_def sb1 2(2))
  have eb: "calm wb1" "smp_ctx wb1 = Some sb1" "session_ok sb1" using estb by (auto simp: established_def)
  obtain m2 pb' where 3: "wclSmpGetMessage C T SMP_MQTTS_BROKER Session (se_type SMP_MQTTS_BROKER) (Some p2) wb1
       = (Inr m2, wb1\<lparr>w_prng := pb', smp_ctx := Some (sent sb1)\<rparr>)"
      "establishes C T SMP_MQTTS_BROKER sb1 pubb p2 (fst ownb) (snd ownb) m2"
    by (rule export_ready [OF laws eb idb pb lens(2) p2])
  have est2: "establishes C T (smp_peer SMP_MQTTS_CLIENT) sb1 pubb p2 (fst ownb) (snd ownb) m2"
    using 3(2) by simp
  have rc1: "ready C T wc1 (sent sc) kc pubc ownc ownb" unfolding wc1_def by (rule ready_sent [OF rc])
  have fresh2: "\<not> toBeSentMessageId sb1 < lastReceivedMessageId (sent sc)" using fresh(2) sb1(4) by simp
  obtain key' wc2 where 4: "wclSmpProcessMessage C T SMP_MQTTS_CLIENT Session (Some m2) wc1 = (Inr (Some p2), wc2)"
      "wc2 = wc1\<lparr>w_files := files_after_se SMP_MQTTS_CLIENT (sent sc) key' (w_files wc1),
        smp_ctx := Some ((sent sc)\<lparr>isSessionKeyEstablished := True, lastReceivedMessageId := toBeSentMessageId sb1\<rparr>)\<rparr>"
      "length key' = 32"
      "\<forall>s1 q2. ecc_import T privb = Inr s1 \<longrightarrow> ecc_ansi_x963_import T pubc = Inr q2 \<longrightarrow>
         ecc_shared_secret T s1 q2 WOS_CRYPTO_ECC_NIST_P256_SHARED_SECRET_LENGTH = Inr key'"
    by (rule broker_half [OF laws rc1 est2 eb(3) fresh2 kb p2])
  have "key' = key"
  proof -
    have "ecdh_law T" using laws(2) by (simp add: tom_law_def)
    then obtain s1 s2 q1 q2 secret where "ecc_import T privc = Inr s1" "ecc_import T privb = Inr s2"
        "ecc_ansi_x963_import T pubc = Inr q1" "ecc_ansi_x963_import T pubb = Inr q2"
        "ecc_shared_secret T s1 q2 WOS_CRYPTO_ECC_NIST_P256_SHARED_SECRET_LENGTH = Inr secret"
        "ecc_shared_secret T s2 q1 WOS_CRYPTO_ECC_NIST_P256_SHARED_SECRET_LENGTH = Inr secret"
      using kc kb unfolding ecdh_law_def by blast
    then show ?thesis using 2(4) 4(4) by fastforce
  qed
  define wb2 where "wb2 = wb1\<lparr>w_prng := pb', smp_ctx := Some (sent sb1)\<rparr>"
  have hs: "handshake C T p1 p2 wc wb = Some (wc2, wb2)"
    using 1(1) 2(1) 3(1) 4(1) by (simp add: handshake_def wc1_def wb2_def)
  have ec: "established wc2 ((sent sc)\<lparr>isSessionKeyEstablished := True,
      lastReceivedMessageId := toBeSentMessageId sb\<rparr>) key"
    using established_after_se [OF rc1 4(3) 4(2)] \<open>key' = key\<close> sb1(4) by simp
  have ebb: "established wb2 (sent sb1) key" using estb by (simp add: established_def wb2_def)
  have gone: "w_files wc2 (c_string (the (sessionPrivateKeyStorageId sc))) = None"
      "w_files wb2 (c_string (the (sessionPrivateKeyStorageId sb))) = None"
  proof -
    have ids: "ids_ok (sent sc)" using rc by (simp add: ready_def)
    show "w_files wc2 (c_string (the (sessionPrivateKeyStorageId sc))) = None"
      using files_after_se_ids(2) [OF ids, of SMP_MQTTS_CLIENT key' "w_files wc1"] by (simp add: 4(2))
    show "w_files wb2 (c_string (the (sessionPrivateKeyStorageId sb))) = None"
      using files_after_se_ids(2) [OF b(6), of SMP_MQTTS_BROKER key "w_files wb"] by (simp add: wb2_def 2(2))
  qed
  show thesis by (rule that [OF hs ec ebb [unfolded sb1_def] gone])
qed

end
