(* ===== verification/Frames.thy ===== *)
theory Frames
  imports Cert MsgSmp
begin

text \<open>
  The routines that only read: a relation between worlds that holds across a library call holds
  across every one of them, on all their paths. The locale is interpreted on the relations the
  session theorems need (same session, same files, same calm world).
\<close>

locale read_frame = state_frame R for R :: "('p, 'z) world_scheme \<Rightarrow> ('p, 'z) world_scheme \<Rightarrow> bool" +
  assumes R_libc: "libc_call w = (b, w') \<Longrightarrow> R w w'"
begin

lemma frames_libc_try: "frames R (libc_try e)"
  unfolding frames_def libc_try_def by (auto dest: R_libc split: prod.splits bool.splits)

lemma frames_alloc: "frames R (alloc n e)"
  unfolding frames_def alloc_def wosMemAlloc_def
  using R_refl by (auto dest: R_libc split: prod.splits bool.splits if_splits)

lemma frames_storage_read: "frames R (wosStorageRead k)"
  unfolding wosStorageRead_def by (intro frame_rules frames_libc_try frames_alloc)

lemma frames_hash: "frames R (lWosCryptoHash T d)"
  unfolding lWosCryptoHash_def by (intro frame_rules frames_alloc)

lemma frames_import: "frames R (lWosCryptoEccImportKey T k)"
  unfolding lWosCryptoEccImportKey_def by (intro frame_rules)

lemma frames_verify: "frames R (wosCryptoEccVerifyKeyBuffer T k d sg)"
  unfolding wosCryptoEccVerifyKeyBuffer_def by (intro frame_rules frames_hash frames_import)

lemma frames_read_pub: "frames R (wosCryptoEccReadPubKey i)"
  unfolding wosCryptoEccReadPubKey_def by (intro frame_rules frames_storage_read)

lemma frames_decrypt: "frames R (wosCryptoAeDecrypt T i c aad iv tag)"
  unfolding wosCryptoAeDecrypt_def Let_def by (intro frame_rules frames_storage_read frames_alloc)

lemma frames_parse: "frames R (msgCborParseByteString C v)"
  unfolding msgCborParseByteString_def by (intro frame_rules frames_alloc)

lemma frames_unpack_certs: "frames R (unpack_certs C beyond n v)"
proof (induction n arbitrary: v)
  case 0
  show ?case by (simp, intro impI conjI frame_rules frames_parse)
next
  case (Suc n)
  show ?case by (simp, intro frame_rules frames_parse Suc)
qed

lemma frames_unpack:
  "frames R (wosMsgUnpackSmpHeaderFromSmpMsg C b cap)"
  "frames R (wosMsgUnpackSmpMqttsSEMessage C role b)"
  "frames R (wosMsgUnpackSmpMqttsControlMessage C b)"
  "frames R (wosCborUnpackCertificateContainer C b)"
  "frames R (wosCborUnpackCertificateTbs C b)"
  unfolding wosMsgUnpackSmpHeaderFromSmpMsg_def wosMsgUnpackSmpMqttsSEMessage_def
    wosMsgUnpackSmpMqttsControlMessage_def wosCborUnpackCertificateContainer_def
    wosCborUnpackCertificateTbs_def
  by (intro frame_rules frames_alloc frames_parse frames_unpack_certs)+

lemma frames_add_buffer: "frames R (lWosCertAddBufferToChain C chain b)"
  unfolding lWosCertAddBufferToChain_def lWosCertAddStructToChain_def
  by (intro frame_rules frames_alloc frames_unpack)

lemma frames_validate_from: "frames R (validate_from T p chain)"
proof (induction chain arbitrary: p)
  case Nil
  show ?case by (simp, intro frame_rules)
next
  case (Cons c rest)
  show ?case
    unfolding validate_from.simps lWosCertCheckCertParams_def lWosCertCheckIssuance_def
    by (intro frame_rules frames_verify Cons)
qed

lemma frames_add_certs: "frames R (add_certs C n certs chain)"
proof (induction C n certs chain rule: add_certs.induct)
  case (3 C n c certs chain)
  show ?case unfolding add_certs.simps by (intro frame_rules frames_add_buffer 3)
qed (simp_all add: frame_rules)

lemma frames_validate: "frames R (wosCertValidateData C T root n certs d sg)"
  unfolding wosCertValidateData_def lWosCertValidateChain_def lWosCertGetEndPublicKey_def
  by (intro frame_rules frames_add_buffer frames_add_certs frames_validate_from frames_verify)

lemmas read_rules = frame_rules frames_libc_try frames_alloc frames_storage_read frames_read_pub
  frames_decrypt frames_unpack frames_validate

end

end
