(* ===== verification/SmpFrames.thy ===== *)
theory SmpFrames
  imports SmpApi Frames
begin

text \<open>
  What the session operations do to the session on every path, in any world: failing library
  calls and adversarial messages included. The platform, crypto and certificate routines never
  touch it; the session operations only move it forward.
\<close>

definition same_ctx :: "('p, 'z) smp_world_scheme \<Rightarrow> ('p, 'z) smp_world_scheme \<Rightarrow> bool" where
  "same_ctx w w' \<longleftrightarrow> smp_ctx w' = smp_ctx w"

interpretation ctx: read_frame same_ctx
  by unfold_locales (auto simp: same_ctx_def libc_call_def)

lemma ctx_modify:
  "frames same_ctx (modify (put_file k b))"
  "frames same_ctx (modify (\<lambda>w. w\<lparr>w_files := f w\<rparr>))" "frames same_ctx (modify (\<lambda>w. w\<lparr>w_prng := g w\<rparr>))"
  "frames same_ctx (with_prng e h)"
  by (auto simp: frames_def modify_def same_ctx_def with_prng_def split: prod.splits)

lemma ctx_storage:
  "frames same_ctx (wosStorageWrite k b)" "frames same_ctx (wosStorageDelete k)"
  "frames same_ctx wosStorageTerminate"
  unfolding wosStorageWrite_def wosStorageDelete_def wosStorageTerminate_def
  by (intro ctx.read_rules ctx_modify)+

lemma ctx_random:
  "frames same_ctx (lWosCryptoEccSign T h key)" "frames same_ctx (wosCryptoGetRandomBytes T n)"
  unfolding lWosCryptoEccSign_def wosCryptoGetRandomBytes_def
  by (intro ctx.read_rules ctx_modify)+

lemma ctx_crypto:
  "frames same_ctx (wosCryptoEccSign T i d)" "frames same_ctx (wosCryptoDeriveSymKey T pub pr sy)"
  "frames same_ctx (wosCryptoEccGenerateKey T pr pu)"
  "frames same_ctx (wosCryptoAeEncrypt T i plain aad iv)"
  unfolding wosCryptoEccSign_def lWosCryptoEccSignVerify_def wosCryptoDeriveSymKey_def
    wosCryptoEccGenerateKey_def wosCryptoAeEncrypt_def Let_def
  by (intro ctx.read_rules ctx.frames_hash ctx.frames_import ctx_modify ctx_storage ctx_random)+

section \<open>The session operations\<close>

text \<open>
  \<open>session_core\<close> is what only a successful operation may change: the ids, the credentials and
  the two counters. The flag of the session key may only go up.
\<close>

definition session_core :: "smp_session \<Rightarrow> smp_session" where
  "session_core s = s\<lparr>isSessionKeyEstablished := True, selfCertChainSize := 0\<rparr>"

definition keeps_core :: "('p, 'z) smp_world_scheme \<Rightarrow> ('p, 'z) smp_world_scheme \<Rightarrow> bool" where
  "keeps_core w w' \<longleftrightarrow>
     map_option session_core (smp_ctx w') = map_option session_core (smp_ctx w) \<and>
     (\<forall>s t. smp_ctx w = Some s \<longrightarrow> smp_ctx w' = Some t \<longrightarrow>
        isSessionKeyEstablished s \<longrightarrow> isSessionKeyEstablished t)"

interpretation core: state_frame keeps_core
proof
  show "keeps_core s s" for s by (simp add: keeps_core_def)
  fix s t u :: "('p, 'z) smp_world_scheme"
  assume st: "keeps_core s t" and tu: "keeps_core t u"
  have "map_option session_core (smp_ctx u) = map_option session_core (smp_ctx s)"
    using st tu unfolding keeps_core_def by (metis (no_types))
  moreover have "isSessionKeyEstablished b"
    if a: "smp_ctx s = Some a" "smp_ctx u = Some b" "isSessionKeyEstablished a" for a b
  proof -
    obtain c where c: "smp_ctx t = Some c"
      using st a(1) unfolding keeps_core_def by (metis map_option_eq_Some)
    have "isSessionKeyEstablished c" using st a(1,3) c unfolding keeps_core_def by blast
    then show ?thesis using tu a(2) c unfolding keeps_core_def by blast
  qed
  ultimately show "keeps_core s u" unfolding keeps_core_def by blast
qed

lemma same_ctx_core:
  assumes "frames same_ctx m"
  shows "frames keeps_core m"
  unfolding frames_def
proof (intro allI impI)
  fix w r w'
  assume "m w = (r, w')"
  from framesD [OF assms this] show "keeps_core w w'" by (simp add: same_ctx_def keeps_core_def)
qed

lemma session_core_last:
  "session_core (t\<lparr>lastReceivedMessageId := n\<rparr>) = (session_core t)\<lparr>lastReceivedMessageId := n\<rparr>"
  by (cases t) (simp add: session_core_def)

lemma ctx_get_ctx: "frames same_ctx get_ctx"
  by (auto simp: frames_def get_ctx_def same_ctx_def split: option.splits)

lemma core_upd_ctx:
  assumes "\<And>c. session_core (f c) = session_core c"
    and "\<And>c. isSessionKeyEstablished c \<Longrightarrow> isSessionKeyEstablished (f c)"
  shows "frames keeps_core (upd_ctx f)"
  unfolding frames_def
proof (intro allI impI)
  fix w r w'
  assume "upd_ctx f w = (r, w')"
  then have w': "w' = w\<lparr>smp_ctx := map_option f (smp_ctx w)\<rparr>" by simp
  show "keeps_core w w'"
    unfolding keeps_core_def w' using assms by (cases "smp_ctx w") auto
qed

lemma ctx_assemble: "frames same_ctx (assemble ps)"
  unfolding assemble_def by (intro ctx.frame_rules ctx.read_rules)

lemma ctx_control: "frames same_ctx (lSmpProcessControlMessage C T role mtype msg)"
  unfolding lSmpProcessControlMessage_def
  by (intro ctx.frame_rules ctx.read_rules ctx_get_ctx ctx_assemble)

lemma ctx_validate_header: "frames same_ctx (lSmpValidateSmpHeader role h)"
  unfolding lSmpValidateSmpHeader_def by (intro ctx.frame_rules ctx_get_ctx)

lemma ctx_pack_header: "frames same_ctx (lSmpPackHeader C mtype)"
  unfolding lSmpPackHeader_def by (intro ctx.frame_rules ctx.read_rules ctx_get_ctx)

lemma ctx_verify_se: "frames same_ctx (lSmpVerifySeParams C T role p)"
  unfolding lSmpVerifySeParams_def
  by (intro ctx.frame_rules ctx_get_ctx ctx_assemble ctx.read_rules)

lemma core_se: "frames keeps_core (lSmpProcessSeMessage C T role msg)"
  unfolding lSmpProcessSeMessage_def
  by (intro core.frame_rules core_upd_ctx same_ctx_core [OF ctx_get_ctx] same_ctx_core [OF ctx_verify_se]
      same_ctx_core [OF ctx.frames_unpack(2)] same_ctx_core [OF ctx_crypto(2)] same_ctx_core [OF ctx_storage(2)]
      same_ctx_core [OF ctx.frames_alloc]) (simp_all add: session_core_def)

text \<open>
  A received message: on an error the core of the session is untouched; on success only the
  receive counter moved, and it did not go down.
\<close>

lemma process_moves:
  fixes w w' :: "('p, 'z) smp_world_scheme"
  assumes run: "smpProcessMessage C T role msg w = (r, w')" and ctx: "smp_ctx w = Some s"
  obtains t where "smp_ctx w' = Some t" and "isSessionKeyEstablished s \<longrightarrow> isSessionKeyEstablished t"
    and "\<And>e. r = Inl e \<Longrightarrow> session_core t = session_core s"
    and "\<And>p. r = Inr p \<Longrightarrow> lastReceivedMessageId s \<le> lastReceivedMessageId t \<and>
           session_core t = (session_core s)\<lparr>lastReceivedMessageId := lastReceivedMessageId t\<rparr>"
proof -
  define step :: "smp_header \<Rightarrow> (('p, 'z) smp_world_scheme, wcl_error, wos_buffer) comp"
    where "step h = (if messageType h = (case role of SMP_MQTTS_CLIENT \<Rightarrow> WCL_SMP_MESSAGE_MQTTS_CONNACK
                                | SMP_MQTTS_BROKER \<Rightarrow> WCL_SMP_MESSAGE_MQTTS_CONNECT)
            then lSmpProcessSeMessage C T role msg
            else lSmpProcessControlMessage C T role (messageType h) msg)" for h
  define read :: "(('p, 'z) smp_world_scheme, wcl_error, smp_header) comp" where "read = bindE get_ctx (\<lambda>_. bindE (ensure (WOS_IS_VALID_BUFFER msg) (Code WCL_ERROR_BAD_PARAMS)) (\<lambda>_.
     bindE (alloc WCL_SMP_CLIENT_ID_LENGTH (Code WCL_ERROR_OUT_OF_MEMORY)) (\<lambda>_.
     on_error (as_code WCL_ERROR) (wosMsgUnpackSmpHeaderFromSmpMsg C msg (Some WCL_SMP_CLIENT_ID_LENGTH)))))"
  have split: "smpProcessMessage C T role msg = bindE read (\<lambda>h. bindE (lSmpValidateSmpHeader role h) (\<lambda>_.
      bindE (step h) (\<lambda>clear. bindE (upd_ctx (\<lambda>c. c\<lparr>lastReceivedMessageId := messageId h\<rparr>)) (\<lambda>_. ok clear))))"
    by (rule ext) (simp add: smpProcessMessage_def read_def step_def bindE_def split: prod.split sum.split)
  have fread: "frames same_ctx read"
    unfolding read_def by (intro ctx.frame_rules ctx_get_ctx ctx.read_rules ctx.frames_unpack(1))
  have fstep: "frames keeps_core (step h)" for h
    unfolding step_def by (intro core.frame_rules core_se same_ctx_core [OF ctx_control])
  obtain r1 w1 where 1: "read w = (r1, w1)" by force
  have c1: "smp_ctx w1 = Some s" using framesD [OF fread 1] ctx by (simp add: same_ctx_def)
  show thesis
  proof (cases r1)
    case (Inl e)
    then have "r = Inl e" "w' = w1" using run 1 by (simp_all add: split bindE_def)
    then show thesis using c1 by (intro that [of s]) simp_all
  next
    case (Inr h)
    obtain r2 w2 where 2: "lSmpValidateSmpHeader role h w1 = (r2, w2)" by force
    have c2: "smp_ctx w2 = Some s" using framesD [OF ctx_validate_header 2] c1 by (simp add: same_ctx_def)
    show thesis
    proof (cases r2)
      case (Inl e)
      then have "r = Inl e" "w' = w2" using run 1 2 \<open>r1 = Inr h\<close> by (simp_all add: split bindE_def)
      then show thesis using c2 by (intro that [of s]) simp_all
    next
      case (Inr u)
      have ge: "lastReceivedMessageId s \<le> messageId h"
        using 2 Inr c1 by (auto simp: lSmpValidateSmpHeader_def bindE_def ensure_def split: if_splits)
      obtain r3 w3 where 3: "step h w2 = (r3, w3)" by force
      have k3: "keeps_core w2 w3" by (rule framesD [OF fstep 3])
      then obtain t where t: "smp_ctx w3 = Some t" "session_core t = session_core s"
          "isSessionKeyEstablished s \<longrightarrow> isSessionKeyEstablished t"
        using c2 by (auto simp: keeps_core_def)
      show thesis
      proof (cases r3)
        case (Inl e)
        then have "r = Inl e" "w' = w3"
          using run 1 2 3 \<open>r1 = Inr h\<close> \<open>r2 = Inr u\<close> by (simp_all add: split bindE_def)
        then show thesis using t by (intro that [of t]) simp_all
      next
        case (Inr clear)
        then have "r = Inr clear" "w' = w3\<lparr>smp_ctx := Some (t\<lparr>lastReceivedMessageId := messageId h\<rparr>)\<rparr>"
          using run 1 2 3 t(1) \<open>r1 = Inr h\<close> \<open>r2 = Inr u\<close> by (simp_all add: split bindE_def ok_def)
        then show thesis using t ge
          by (intro that [of "t\<lparr>lastReceivedMessageId := messageId h\<rparr>"]) (simp_all add: session_core_last)
      qed
    qed
  qed
qed

text \<open>
  A sent message: on an error the core of the session is untouched; on success only the send
  counter moved, by one.
\<close>

definition bump :: "smp_session \<Rightarrow> smp_session" where
  "bump s = s\<lparr>toBeSentMessageId := toBeSentMessageId s + 1\<rparr>"

lemma bump_core: "session_core (bump s) = bump (session_core s)"
  by (cases s) (simp add: session_core_def bump_def)

definition bumps_core :: "('p, 'z) smp_world_scheme \<Rightarrow> ('p, 'z) smp_world_scheme \<Rightarrow> bool" where
  "bumps_core w w' \<longleftrightarrow> (\<exists>v. keeps_core w v \<and> smp_ctx w' = map_option bump (smp_ctx v))"

definition sends :: "(('p, 'z) smp_world_scheme, 'e, 'a) comp \<Rightarrow> bool" where
  "sends m \<longleftrightarrow> (\<forall>w r w'. m w = (r, w') \<longrightarrow> (case r of Inl _ \<Rightarrow> keeps_core w w' | Inr _ \<Rightarrow> bumps_core w w'))"

lemma sends_bindE:
  assumes "frames keeps_core m" and "\<And>x. sends (k x)"
  shows "sends (bindE m k)"
  unfolding sends_def
proof (intro allI impI)
  fix w r w'
  assume run: "bindE m k w = (r, w')"
  obtain r1 t where m: "m w = (r1, t)" by force
  have wt: "keeps_core w t" by (rule framesD [OF assms(1) m])
  show "case r of Inl _ \<Rightarrow> keeps_core w w' | Inr _ \<Rightarrow> bumps_core w w'"
  proof (cases r1)
    case (Inl e)
    then show ?thesis using run m wt by (auto simp: bindE_def)
  next
    case (Inr x)
    then have "k x t = (r, w')" using run m by (simp add: bindE_def)
    then have "case r of Inl _ \<Rightarrow> keeps_core t w' | Inr _ \<Rightarrow> bumps_core t w'"
      using assms(2) [of x] unfolding sends_def by blast
    then show ?thesis
      using core.R_trans [OF wt] by (cases r) (auto simp: bumps_core_def)
  qed
qed

lemma sends_bump: "sends (bindE (upd_ctx (\<lambda>c. c\<lparr>toBeSentMessageId := toBeSentMessageId c + 1\<rparr>)) (\<lambda>_. ok msg))"
  unfolding sends_def bumps_core_def
  using core.R_refl by (auto simp: bindE_def ok_def bump_def [abs_def])

lemma sends_prod: "(\<And>x y. sends (k x y)) \<Longrightarrow> sends (case v of (x, y) \<Rightarrow> k x y)"
  by (cases v) simp

lemma sends_if: "sends m \<Longrightarrow> sends m' \<Longrightarrow> sends (if b then m else m')"
  by simp

lemma sends_fail: "sends (fail e)"
  by (simp add: sends_def fail_def core.R_refl)

lemma sends_secure: "sends (smpSecureMessage C T role mtype msg)"
  unfolding smpSecureMessage_def
  by (intro sends_bump sends_bindE sends_prod same_ctx_core [OF ctx_get_ctx]
      same_ctx_core [OF ctx_pack_header] same_ctx_core [OF ctx_assemble] same_ctx_core [OF ctx.frames_alloc]
      core.frame_rules same_ctx_core [OF ctx_crypto(4)])

lemma core_sign_se: "frames keeps_core (lSmpSignSeParams T role p)"
  unfolding lSmpSignSeParams_def lSmpGetDeviceCertificates_def
  by (intro core.frame_rules core_upd_ctx same_ctx_core [OF ctx_get_ctx] same_ctx_core [OF ctx_assemble]
      same_ctx_core [OF ctx.frames_alloc] same_ctx_core [OF ctx_crypto(1)]
      same_ctx_core [OF ctx.frames_storage_read]) (simp_all add: session_core_def)

lemma sends_export: "sends (smpExportSessionEstablishmentParams C T role msg)"
  unfolding smpExportSessionEstablishmentParams_def
  by (intro sends_bump sends_bindE sends_prod same_ctx_core [OF ctx_get_ctx]
      same_ctx_core [OF ctx_pack_header] same_ctx_core [OF ctx.frames_alloc] core_sign_se
      core.frame_rules same_ctx_core [OF ctx.frames_read_pub])

lemma sends_get_message: "sends (wclSmpGetMessage C T role session mtype pkt)"
  unfolding wclSmpGetMessage_def
  by (intro sends_bindE core.frame_rules sends_if sends_secure sends_export sends_fail)

section \<open>Routines that write no file\<close>

text \<open>
  A relation that also holds across changes of the random generator and of the session holds across
  sending a message and across checking a received one.
\<close>

locale prng_frame = read_frame R
  for R :: "('p, 'z) smp_world_scheme \<Rightarrow> ('p, 'z) smp_world_scheme \<Rightarrow> bool" +
  assumes R_prng: "R w (w\<lparr>w_prng := p\<rparr>)" and R_ctx: "R w (w\<lparr>smp_ctx := c\<rparr>)"
begin

lemma frames_prng:
  "frames R (modify (\<lambda>w. w\<lparr>w_prng := g w\<rparr>))" "frames R (with_prng e h)" "frames R (upd_ctx u)" "frames R get_ctx"
  using R_prng R_ctx R_refl
  by (auto simp: frames_def modify_def with_prng_def upd_ctx_def get_ctx_def split: prod.splits option.splits)

lemma frames_random: "frames R (lWosCryptoEccSign T h key)" "frames R (wosCryptoGetRandomBytes T n)"
  unfolding lWosCryptoEccSign_def wosCryptoGetRandomBytes_def by (intro read_rules frames_prng)+

lemma frames_crypto: "frames R (wosCryptoEccSign T i d)" "frames R (wosCryptoAeEncrypt T i plain aad iv)"
  unfolding wosCryptoEccSign_def lWosCryptoEccSignVerify_def wosCryptoAeEncrypt_def Let_def
  by (intro read_rules frames_hash frames_import frames_prng frames_random)+

lemma frames_pieces: "frames R (assemble ps)" "frames R (lSmpPackHeader C mtype)"
  "frames R (lSmpSignSeParams T role p)" "frames R (lSmpGetDeviceCertificates d)"
  unfolding assemble_def lSmpPackHeader_def lSmpSignSeParams_def lSmpGetDeviceCertificates_def Let_def
  by (intro read_rules frames_crypto frames_prng)+

lemma frames_get_message: "frames R (wclSmpGetMessage C T role session mtype pkt)"
  unfolding wclSmpGetMessage_def smpSecureMessage_def smpExportSessionEstablishmentParams_def Let_def
  by (intro read_rules frames_prng frames_pieces frames_crypto)

lemma frames_checks: "frames R (lSmpVerifySeParams C T role p)" "frames R (lSmpValidateSmpHeader role h)"
  "frames R (lSmpProcessControlMessage C T role mtype msg)"
  unfolding lSmpVerifySeParams_def lSmpValidateSmpHeader_def lSmpProcessControlMessage_def
  by (intro read_rules frames_pieces frames_prng)+

end

text \<open>And one that holds across changes of the files holds across the routines that store keys.\<close>

locale session_frame = prng_frame R
  for R :: "('p, 'z) smp_world_scheme \<Rightarrow> ('p, 'z) smp_world_scheme \<Rightarrow> bool" +
  assumes R_files: "R w (w\<lparr>w_files := f\<rparr>)"
begin

lemma frames_updates:
  "frames R (modify (put_file k b))" "frames R (modify (\<lambda>w. w\<lparr>w_files := f w\<rparr>))"
  using R_files by (auto simp: frames_def modify_def put_file_def)

lemma frames_storage: "frames R (wosStorageWrite k b)" "frames R (wosStorageDelete k)"
  unfolding wosStorageWrite_def wosStorageDelete_def by (intro read_rules frames_updates)+

lemma frames_keys: "frames R (wosCryptoDeriveSymKey T pub pr sy)" "frames R (wosCryptoEccGenerateKey T pr pu)"
  unfolding wosCryptoDeriveSymKey_def wosCryptoEccGenerateKey_def Let_def
  by (intro read_rules frames_import frames_prng frames_storage)+

end

section \<open>Runs of a session\<close>

text \<open>
  A session in use: its owner sends, and it receives whatever the network delivers, in any world,
  failing library calls included. A step that leaves the defined behaviour of C is not a step.
\<close>

inductive session_step ::
    "('e, 'v) cbor_api \<Rightarrow> ('k, 'p) tom_api \<Rightarrow> smp_role \<Rightarrow> ('p, 'z) smp_world_scheme \<Rightarrow>
     ('p, 'z) smp_world_scheme \<Rightarrow> bool" for C T role where
  send: "wclSmpGetMessage C T role Session mtype pkt w = (r, w') \<Longrightarrow> r \<noteq> Inl Fault \<Longrightarrow>
    session_step C T role w w'"
| receive: "wclSmpProcessMessage C T role Session msg w = (r, w') \<Longrightarrow> r \<noteq> Inl Fault \<Longrightarrow>
    session_step C T role w w'"

inductive session_run ::
    "('e, 'v) cbor_api \<Rightarrow> ('k, 'p) tom_api \<Rightarrow> smp_role \<Rightarrow> ('p, 'z) smp_world_scheme \<Rightarrow>
     ('p, 'z) smp_world_scheme \<Rightarrow> bool" for C T role where
  start: "session_run C T role w w"
| more: "session_run C T role w w' \<Longrightarrow> session_step C T role w' w'' \<Longrightarrow> session_run C T role w w''"

definition session_le :: "smp_session \<Rightarrow> smp_session \<Rightarrow> bool" where
  "session_le s t \<longleftrightarrow>
     s_ids t = s_ids s \<and> s_clientId t = s_clientId s \<and> rootCaStorageId t = rootCaStorageId s \<and>
     selfPrivKeyStorageId t = selfPrivKeyStorageId s \<and>
     selfCertChainStorageId t = selfCertChainStorageId s \<and>
     (isSessionKeyEstablished s \<longrightarrow> isSessionKeyEstablished t) \<and>
     lastReceivedMessageId s \<le> lastReceivedMessageId t"

lemma session_le_trans: "session_le s t \<Longrightarrow> session_le t u \<Longrightarrow> session_le s u"
  by (auto simp: session_le_def)

lemma session_le_core:
  assumes "session_core t = (session_core s)\<lparr>lastReceivedMessageId := n, toBeSentMessageId := m\<rparr>"
    and "isSessionKeyEstablished s \<longrightarrow> isSessionKeyEstablished t" and "lastReceivedMessageId s \<le> n"
  shows "session_le s t"
  using assms by (cases s; cases t) (simp add: session_le_def session_core_def)

lemma api_process_moves:
  fixes w w' :: "('p, 'z) smp_world_scheme"
  assumes "wclSmpProcessMessage C T role Session msg w = (r, w')" and ctx: "smp_ctx w = Some s"
  obtains t where "smp_ctx w' = Some t" and "session_le s t"
proof (cases "WOS_IS_VALID_BUFFER msg")
  case False
  then have "w' = w" using assms(1) by (simp add: wclSmpProcessMessage_def bindE_def ensure_def)
  then show thesis using ctx by (intro that [of s]) (simp_all add: session_le_def)
next
  case True
  obtain r1 w1 where 1: "smpProcessMessage C T role msg w = (r1, w1)" by force
  have "w' = w1" using assms(1) True 1
    by (auto simp: wclSmpProcessMessage_def bindE_def ensure_def ok_def split: sum.splits if_splits)
  obtain t where t: "smp_ctx w1 = Some t" "isSessionKeyEstablished s \<longrightarrow> isSessionKeyEstablished t"
      "\<And>e. r1 = Inl e \<Longrightarrow> session_core t = session_core s"
      "\<And>p. r1 = Inr p \<Longrightarrow> lastReceivedMessageId s \<le> lastReceivedMessageId t \<and>
         session_core t = (session_core s)\<lparr>lastReceivedMessageId := lastReceivedMessageId t\<rparr>"
    using process_moves [OF 1 ctx] by metis
  have "session_le s t"
  proof (cases r1)
    case (Inl e)
    then show ?thesis using t(2) t(3) [OF Inl]
      by (intro session_le_core [where t = t and s = s and n = "lastReceivedMessageId s" and m = "toBeSentMessageId s"])
        (simp_all add: session_core_def)
  next
    case (Inr p)
    then show ?thesis using t(2) t(4) [OF Inr]
      by (intro session_le_core [where t = t and s = s and n = "lastReceivedMessageId t" and m = "toBeSentMessageId s"])
        (simp_all add: session_core_def)
  qed
  then show thesis using that t(1) \<open>w' = w1\<close> by blast
qed

lemma api_send_moves:
  fixes w w' :: "('p, 'z) smp_world_scheme"
  assumes run: "wclSmpGetMessage C T role Session mtype pkt w = (r, w')" and ctx: "smp_ctx w = Some s"
  obtains t where "smp_ctx w' = Some t" and "isSessionKeyEstablished s \<longrightarrow> isSessionKeyEstablished t"
    and "session_core t = (case r of Inl _ \<Rightarrow> session_core s | Inr _ \<Rightarrow> bump (session_core s))"
proof -
  have c: "case r of Inl _ \<Rightarrow> keeps_core w w' | Inr _ \<Rightarrow> bumps_core w w'"
    using sends_get_message [of C T role Session mtype pkt] run unfolding sends_def by blast
  show thesis
  proof (cases r)
    case (Inl e)
    then have k: "keeps_core w w'" using c by simp
    then obtain t where "smp_ctx w' = Some t" "session_core t = session_core s"
      using ctx by (auto simp: keeps_core_def)
    then show thesis using k ctx Inl by (intro that [of t]) (auto simp: keeps_core_def)
  next
    case (Inr x)
    then obtain v where v: "keeps_core w v" "smp_ctx w' = map_option bump (smp_ctx v)"
      using c by (auto simp: bumps_core_def)
    then obtain t where "smp_ctx v = Some t" "session_core t = session_core s"
      using ctx by (auto simp: keeps_core_def)
    then show thesis using v ctx Inr
      by (intro that [of "bump t"]) (auto simp: keeps_core_def bump_core, simp_all add: bump_def)
  qed
qed

lemma send_session_le:
  assumes "session_core t = (case r of Inl _ \<Rightarrow> session_core s | Inr _ \<Rightarrow> bump (session_core s))"
    and "isSessionKeyEstablished s \<longrightarrow> isSessionKeyEstablished t"
  shows "session_le s t"
proof (cases r)
  case (Inl e)
  then show ?thesis using assms
    by (intro session_le_core [where t = t and s = s and n = "lastReceivedMessageId s" and m = "toBeSentMessageId s"])
      (simp_all add: session_core_def)
next
  case (Inr x)
  then show ?thesis using assms
    by (intro session_le_core [where t = t and s = s and n = "lastReceivedMessageId s" and m = "toBeSentMessageId s + 1"])
      (simp_all add: session_core_def bump_def)
qed

lemma run_session_le:
  assumes "session_run C T role w w'" and "smp_ctx w = Some s"
  shows "\<exists>t. smp_ctx w' = Some t \<and> session_le s t"
  using assms
proof (induction rule: session_run.induct)
  case (start w)
  then show ?case by (auto simp: session_le_def)
next
  case (more w w' w'')
  then obtain t where t: "smp_ctx w' = Some t" "session_le s t" by blast
  from more.hyps(2) show ?case
  proof cases
    case (send mtype pkt r)
    obtain u where "smp_ctx w'' = Some u" "session_le t u"
      using api_send_moves [OF send(1) t(1)] send_session_le by metis
    then show ?thesis using session_le_trans [OF t(2)] by blast
  next
    case (receive msg r)
    obtain u where "smp_ctx w'' = Some u" "session_le t u"
      by (rule api_process_moves [OF receive(1) t(1)])
    then show ?thesis using session_le_trans [OF t(2)] by blast
  qed
qed

section \<open>Acceptance of a control message\<close>

text \<open>In a calm world reading a message changes nothing.\<close>

definition calmly_same :: "('p, 'z) world_scheme \<Rightarrow> ('p, 'z) world_scheme \<Rightarrow> bool" where
  "calmly_same w w' \<longleftrightarrow> (calm w \<longrightarrow> w' = w)"

interpretation still: read_frame calmly_same
  by unfold_locales (auto simp: calmly_same_def)

lemma still_assemble: "frames calmly_same (assemble ps)"
  unfolding assemble_def by (intro still.read_rules)

text \<open>
  Acceptance: the message parses, the session is established, and the tag computed under the
  session key over the header, the label and a packet in clear is the received one.
\<close>

definition authentic ::
    "('e, 'v) cbor_api \<Rightarrow> ('k, 'p) tom_api \<Rightarrow> smp_role \<Rightarrow> bytes \<Rightarrow> byte \<Rightarrow> bytes \<Rightarrow>
     ('p, 'z) smp_world_scheme \<Rightarrow> wos_buffer \<Rightarrow> bool" where
  "authentic C T role key mtype msg w pkt \<longleftrightarrow>
     (\<exists>p lab aad plain.
        wosMsgUnpackSmpMqttsControlMessage C (Some msg) w = (Inr p, w) \<and>
        label_bytes (labels_from (smp_peer role)) mtype = Inr lab \<and>
        assemble ([the (c_EncodedSmpHeader p), lab] @
          (if mtype \<in> set (decrypted_types role) then [] else [the (c_MqttPacket p)])) w = (Inr aad, w) \<and>
        gcm_decrypt T (find_cipher T) key (the (c_IV p)) aad
          (if mtype \<in> set (decrypted_types role) then the (c_MqttPacket p) else []) 16
          = Inr (plain, the (c_AuthTag p)) \<and>
        pkt = (if mtype \<in> set (decrypted_types role) then Some plain else c_MqttPacket p))"

lemma control_accepts:
  fixes w :: "('p, 'z) smp_world_scheme"
  assumes calm: "calm w" and look: "lookup_law T" and ctx: "smp_ctx w = Some s"
    and key: "holds_key w (sessionSharedKeyStorageId s) key" "length key = 32"
    and run: "lSmpProcessControlMessage C T role mtype (Some msg) w = (Inr pkt, w')"
  shows "w' = w \<and> isSessionKeyEstablished s \<and> authentic C T role key mtype msg w pkt"
proof -
  define dec where "dec = (mtype \<in> set (decrypted_types role))"
  obtain p t1 lab aad t2 t3 pl where *: "isSessionKeyEstablished s"
      "wosMsgUnpackSmpMqttsControlMessage C (Some msg) w = (Inr p, t1)"
      "WOS_IS_VALID_BUFFER (c_EncodedSmpHeader p)" "WOS_IS_VALID_BUFFER (c_MqttPacket p)"
      "WOS_IS_VALID_BUFFER (c_IV p)" "WOS_IS_VALID_BUFFER (c_AuthTag p)"
      "label_bytes (labels_from (smp_peer role)) mtype = Inr lab"
      "assemble ([the (c_EncodedSmpHeader p), lab] @ (if dec then [] else [the (c_MqttPacket p)])) t1 = (Inr aad, t2)"
      "wosCryptoAeDecrypt T (sessionSharedKeyStorageId s) (if dec then c_MqttPacket p else None)
         (Some aad) (c_IV p) (c_AuthTag p) t2 = (Inr pl, t3)"
      "(if dec then ok pl t3 = (Inr pkt, w')
        else \<exists>m t4. alloc (length (the (c_MqttPacket p))) (Code WCL_ERROR_OUT_OF_MEMORY) t3 = (Inr m, t4) \<and>
               ok (c_MqttPacket p) t4 = (Inr pkt, w'))"
    using run ctx
    by (auto simp: lSmpProcessControlMessage_def succeeds dec_def split: if_splits)
  have t1: "t1 = w" using framesD [OF still.frames_unpack(3) *(2)] calm by (simp add: calmly_same_def)
  have t2: "t2 = w" using framesD [OF still_assemble *(8)] calm t1 by (simp add: calmly_same_def)
  obtain body iv tag where b: "c_MqttPacket p = Some body" "c_IV p = Some iv" "c_AuthTag p = Some tag"
      "body \<noteq> []" "iv \<noteq> []" "tag \<noteq> []"
    using *(4-6) by (auto simp: valid_buffer_iff)
  note dc = decrypt_calm [OF calm look key b(5,6), of "if dec then Some body else None" "Some aad"]
  obtain plain where pl: "gcm_decrypt T (find_cipher T) key iv aad (if dec then body else []) 16 = Inr (plain, tag)"
      "pl = Some plain" "t3 = w"
    using *(9) unfolding t2 b(1,2,3) dc
    by (cases dec) (auto split: sum.splits prod.splits if_splits)
  have "w' = w \<and> pkt = (if dec then Some plain else c_MqttPacket p)"
    using *(10) pl(2,3) calm b(1,4) by (cases dec) (auto simp: ok_def)
  then show ?thesis
    unfolding authentic_def dec_def [symmetric]
    using *(1,2,7,8) t1 t2 pl(1) b by auto
qed

section \<open>No second session key\<close>

definition same_files :: "('p, 'z) smp_world_scheme \<Rightarrow> ('p, 'z) smp_world_scheme \<Rightarrow> bool" where
  "same_files w w' \<longleftrightarrow> w_files w' = w_files w"

interpretation files: prng_frame same_files
  by unfold_locales (auto simp: same_files_def libc_call_def)

lemma read_success: "wosStorageRead i w = (Inr b, w') \<Longrightarrow> w_files w (c_string (the i)) \<noteq> None"
  by (auto simp: wosStorageRead_def succeeds libc_try_def split: prod.splits bool.splits)

text \<open>
  \<open>refuses\<close>: the routine fails and leaves the files as they are; \<open>quiet\<close>: it leaves the files as they are.
\<close>

definition refuses :: "(('p, 'z) smp_world_scheme, 'e, 'a) comp \<Rightarrow> ('p, 'z) smp_world_scheme \<Rightarrow> bool" where
  "refuses m w \<longleftrightarrow> (\<forall>r w'. m w = (r, w') \<longrightarrow> (\<exists>e. r = Inl e) \<and> w_files w' = w_files w)"

definition quiet :: "(('p, 'z) smp_world_scheme, 'e, 'a) comp \<Rightarrow> ('p, 'z) smp_world_scheme \<Rightarrow> bool" where
  "quiet m w \<longleftrightarrow> w_files (snd (m w)) = w_files w"

lemma refuses_quiet: "refuses m w \<Longrightarrow> quiet m w"
  by (cases "m w") (auto simp: refuses_def quiet_def)

lemma frames_quiet: "frames same_files m \<Longrightarrow> quiet m w"
  by (cases "m w") (auto simp: quiet_def same_files_def dest: framesD)

lemma refuses_stop: "refuses m w \<Longrightarrow> refuses (bindE m k) w"
  by (auto simp: refuses_def bindE_def split: prod.splits sum.splits)

lemma refuses_on_error: "refuses m w \<Longrightarrow> refuses (on_error h m) w"
  by (auto simp: refuses_def on_error_def split: prod.splits sum.splits)

lemma refuses_bindE:
  assumes "frames same_files m" and "frames same_ctx m"
    and "\<And>x w'. smp_ctx w' = smp_ctx w \<Longrightarrow> w_files w' = w_files w \<Longrightarrow> refuses (k x) w'"
  shows "refuses (bindE m k) w"
proof -
  obtain r v where m: "m w = (r, v)" by force
  have "smp_ctx v = smp_ctx w" "w_files v = w_files w"
    using framesD [OF assms(1) m] framesD [OF assms(2) m] by (simp_all add: same_files_def same_ctx_def)
  then show ?thesis using m assms(3) [of v] by (cases r) (auto simp: refuses_def bindE_def)
qed

lemma quiet_bindE:
  assumes "frames same_files m" and "frames same_ctx m"
    and "\<And>x w'. smp_ctx w' = smp_ctx w \<Longrightarrow> w_files w' = w_files w \<Longrightarrow> quiet (k x) w'"
  shows "quiet (bindE m k) w"
proof -
  obtain r v where m: "m w = (r, v)" by force
  have "smp_ctx v = smp_ctx w" "w_files v = w_files w"
    using framesD [OF assms(1) m] framesD [OF assms(2) m] by (simp_all add: same_files_def same_ctx_def)
  then show ?thesis using m assms(3) [of v] by (cases r) (auto simp: quiet_def bindE_def)
qed

lemma quiet_then: "quiet m w \<Longrightarrow> (\<And>x. frames same_files (k x)) \<Longrightarrow> quiet (bindE m k) w"
proof -
  assume m: "quiet m w" and k: "\<And>x. frames same_files (k x)"
  obtain r v where "m w = (r, v)" by force
  then show "quiet (bindE m k) w"
    using m frames_quiet [OF k, of _ v] by (cases r) (simp_all add: quiet_def bindE_def)
qed

lemma refuses_ctx: "smp_ctx w = Some s \<Longrightarrow> refuses (k s) w \<Longrightarrow> refuses (bindE get_ctx k) w"
  by (simp add: refuses_def bindE_def get_ctx_def)

lemma refuses_read:
  fixes w :: "('p, 'z) smp_world_scheme"
  assumes "w_files w (c_string (the i)) = None"
  shows "refuses (wosStorageRead i) w"
  unfolding refuses_def
proof (intro allI impI conjI)
  fix r and w' :: "('p, 'z) smp_world_scheme"
  assume run: "wosStorageRead i w = (r, w')"
  show "\<exists>e. r = Inl e" using read_success [of i w _ w'] run assms by (cases r) auto
  show "w_files w' = w_files w" using framesD [OF files.frames_storage_read run] by (simp add: same_files_def)
qed

text \<open>
  Once the private key of the session is gone from the storage, no establishment message is
  accepted any more, whatever it says and whatever the library calls do.
\<close>

lemma se_refused:
  fixes w :: "('p, 'z) smp_world_scheme"
  assumes "smp_ctx w = Some s" and "w_files w (c_string (the (sessionPrivateKeyStorageId s))) = None"
  shows "refuses (lSmpProcessSeMessage C T role msg) w"
proof -
  have "refuses (wosCryptoDeriveSymKey T pub (sessionPrivateKeyStorageId s) sy) w'" if "w_files w' = w_files w"
    for pub sy and w' :: "('p, 'z) smp_world_scheme"
    unfolding wosCryptoDeriveSymKey_def
    by (rule refuses_bindE [OF files.frames_leaf(3) ctx.frames_leaf(3)], rule refuses_stop, rule refuses_on_error, rule refuses_read)
      (use that assms(2) in simp)
  note derive = this
  show ?thesis
    unfolding lSmpProcessSeMessage_def
    by (rule refuses_ctx [OF assms(1)], rule refuses_bindE [OF files.frames_leaf(3) ctx.frames_leaf(3)],
      rule refuses_bindE [OF files.frames_on_error [OF files.frames_unpack(2)] ctx.frames_on_error [OF ctx.frames_unpack(2)]],
      rule refuses_bindE [OF files.frames_checks(1) ctx_verify_se], rule refuses_stop, rule refuses_on_error, rule derive) simp
qed

text \<open>
  A session is sealed when its key is established and its private key is gone. The establishment seals it
  when nothing fails: the code does not look at the result of the deletion.
\<close>

definition sealed :: "('p, 'z) smp_world_scheme \<Rightarrow> bool" where
  "sealed w \<longleftrightarrow> (\<exists>s. smp_ctx w = Some s \<and> isSessionKeyEstablished s \<and>
     w_files w (c_string (the (sessionPrivateKeyStorageId s))) = None)"

definition stays_calm :: "('p, 'z) smp_world_scheme \<Rightarrow> ('p, 'z) smp_world_scheme \<Rightarrow> bool" where
  "stays_calm w w' \<longleftrightarrow> (calm w \<longrightarrow> calm w')"

interpretation cm: session_frame stays_calm
  by unfold_locales (auto simp: stays_calm_def)

lemma derive_needs_key: "wosCryptoDeriveSymKey T pub pr sy w = (Inr u, w') \<Longrightarrow> lWosStorageIsKeyValid pr"
  by (auto simp: wosCryptoDeriveSymKey_def wosStorageRead_def succeeds)

lemma delete_gone:
  assumes "calm w" and "lWosStorageIsKeyValid k" and "ignore (wosStorageDelete k) w = (r, w')"
  shows "w_files w' (c_string (the k)) = None \<and> calm w' \<and> smp_ctx w' = smp_ctx w"
  using assms delete_calm [OF assms(1,2)] by (auto simp: ignore_def split: if_splits)

lemma delete_keeps_gone:
  assumes "ignore (wosStorageDelete k) w = (r, w')" and "w_files w i = None"
  shows "w_files w' i = None"
proof -
  have "w_files (snd (wosStorageDelete k w)) i = None"
    using assms(2) by (auto simp: wosStorageDelete_def comp_defs libc_try_def split: prod.split bool.split)
  then show ?thesis using assms(1) by (auto simp: ignore_def split: prod.splits sum.splits stop.splits)
qed

lemma upd_ctx_run: "upd_ctx f w = (r, w') \<Longrightarrow> r = Inr () \<and> w' = w\<lparr>smp_ctx := map_option f (smp_ctx w)\<rparr>"
  by (simp add: upd_ctx_def modify_def)

lemma se_seals:
  fixes w w' :: "('p, 'z) smp_world_scheme"
  assumes "calm w" and run: "lSmpProcessSeMessage C T role msg w = (Inr pkt, w')"
  shows "sealed w'"
proof -
  obtain s p t1 t2 t3 t4 t5 t6 u where *: "smp_ctx w = Some s"
      "wosMsgUnpackSmpMqttsSEMessage C role msg w = (Inr p, t1)" "lSmpVerifySeParams C T role p t1 = (Inr (), t2)"
      "wosCryptoDeriveSymKey T (se_EccDhPubParams p) (sessionPrivateKeyStorageId s) (sessionSharedKeyStorageId s) t2 = (Inr (), t3)"
      "t4 = t3\<lparr>smp_ctx := map_option (\<lambda>c. c\<lparr>isSessionKeyEstablished := True\<rparr>) (smp_ctx t3)\<rparr>"
      "ignore (wosStorageDelete (sessionPrivateKeyStorageId s)) t4 = (Inr () :: wcl_error stop + unit, t5)"
      "(if role = SMP_MQTTS_CLIENT then ignore (wosStorageDelete (sessionPublicKeyStorageId s)) else ok ()) t5 = (Inr () :: wcl_error stop + unit, t6)"
      "alloc (length (the (se_MqttPacket p))) (Code WCL_ERROR_OUT_OF_MEMORY) t6 = (Inr u, w')"
    using run by (auto simp: lSmpProcessSeMessage_def succeeds get_ctx_def split: option.splits)
  have c: "smp_ctx t3 = Some s"
    using framesD [OF ctx.frames_unpack(2) *(2)] framesD [OF ctx_verify_se *(3)] framesD [OF ctx_crypto(2) *(4)] *(1)
    by (simp add: same_ctx_def)
  have "calm t3"
    using assms(1) framesD [OF cm.frames_unpack(2) *(2)] framesD [OF cm.frames_checks(1) *(3)] framesD [OF cm.frames_keys(1) *(4)]
    by (simp add: stays_calm_def)
  then have 5: "w_files t5 (c_string (the (sessionPrivateKeyStorageId s))) = None" "smp_ctx t5 = smp_ctx t4"
    using delete_gone [OF _ derive_needs_key [OF *(4)] *(6)] *(5) by simp_all
  have f: "w_files t6 (c_string (the (sessionPrivateKeyStorageId s))) = None"
    using *(7) 5(1) delete_keeps_gone by (cases "role = SMP_MQTTS_CLIENT") (auto simp: ok_def)
  have "frames same_ctx (if role = SMP_MQTTS_CLIENT then ignore (wosStorageDelete (sessionPublicKeyStorageId s)) else ok ()
      :: (('p, 'z) smp_world_scheme, wcl_error, unit) comp)"
    by (intro ctx.frame_rules ctx_storage)
  from framesD [OF this *(7)] framesD [OF ctx.frames_alloc *(8)]
  have "smp_ctx w' = smp_ctx t5" by (simp add: same_ctx_def)
  then have "smp_ctx w' = Some (s\<lparr>isSessionKeyEstablished := True\<rparr>)" using 5(2) *(5) c by simp
  moreover have "w_files w' = w_files t6" using framesD [OF files.frames_alloc *(8)] by (simp add: same_files_def)
  ultimately show ?thesis using f by (simp add: sealed_def sessionPrivateKeyStorageId_def)
qed

text \<open>A sealed session stays sealed, and its steps write no file.\<close>

lemma sealed_bindE:
  assumes "sealed w" and "frames same_files m" and "frames same_ctx m" and "\<And>x w'. sealed w' \<Longrightarrow> quiet (k x) w'"
  shows "quiet (bindE m k) w"
  by (rule quiet_bindE [OF assms(2,3)]) (use assms(1,4) in \<open>simp add: sealed_def\<close>)

lemmas sealed_leaf = sealed_bindE [OF _ files.frames_leaf(3) ctx.frames_leaf(3)]

lemma sealed_process:
  fixes w :: "('p, 'z) smp_world_scheme"
  shows "sealed w \<Longrightarrow> quiet (wclSmpProcessMessage C T role Session msg) w"
  unfolding wclSmpProcessMessage_def smpProcessMessage_def
proof (rule sealed_leaf, assumption, rule sealed_leaf, assumption, rule quiet_then,
    rule sealed_bindE [OF _ files.frames_prng(4) ctx_get_ctx], assumption, rule sealed_leaf, assumption,
    rule sealed_bindE [OF _ files.frames_alloc ctx.frames_alloc], assumption,
    rule sealed_bindE [OF _ files.frames_on_error [OF files.frames_unpack(1)] ctx.frames_on_error [OF ctx.frames_unpack(1)]], assumption,
    rule sealed_bindE [OF _ files.frames_checks(2) ctx_validate_header], assumption, rule quiet_then)
  fix h :: smp_header and v :: "('p, 'z) smp_world_scheme"
  assume "sealed v"
  then show "quiet (if messageType h = (case role of SMP_MQTTS_CLIENT \<Rightarrow> WCL_SMP_MESSAGE_MQTTS_CONNACK
      | SMP_MQTTS_BROKER \<Rightarrow> WCL_SMP_MESSAGE_MQTTS_CONNECT)
     then lSmpProcessSeMessage C T role msg else lSmpProcessControlMessage C T role (messageType h) msg) v"
    using refuses_quiet [OF se_refused [of v _ C T role msg]] frames_quiet [OF files.frames_checks(3)] by (auto simp: sealed_def)
qed (intro files.frame_rules files.frames_prng)+

lemma session_le_ids: "session_le s t \<Longrightarrow> sessionPrivateKeyStorageId t = sessionPrivateKeyStorageId s"
  by (simp add: session_le_def sessionPrivateKeyStorageId_def)

lemma run_sealed:
  assumes "session_run C T role w w'" and "sealed w"
  shows "sealed w' \<and> w_files w' = w_files w"
  using assms
proof (induction rule: session_run.induct)
  case (more w w' w'')
  then have s: "sealed w'" "w_files w' = w_files w" by simp_all
  then obtain c where c: "smp_ctx w' = Some c" "isSessionKeyEstablished c" "w_files w' (c_string (the (sessionPrivateKeyStorageId c))) = None"
    by (auto simp: sealed_def)
  have f: "w_files w'' = w_files w'"
    using more.hyps(2)
  proof cases
    case (send mtype pkt r)
    show ?thesis using framesD [OF files.frames_get_message send(1)] by (simp add: same_files_def)
  next
    case (receive msg r)
    show ?thesis using sealed_process [OF s(1), of C T role msg] receive(1) by (simp add: quiet_def)
  qed
  obtain t where "smp_ctx w'' = Some t" "session_le c t"
    using run_session_le [OF session_run.more [OF session_run.start more.hyps(2)] c(1)] by blast
  then show ?case using c f s(2) by (auto simp: sealed_def session_le_ids) (simp add: session_le_def)
qed simp

end
