(* ===== verification/Rfc7049.thy ===== *)
theory Rfc7049
  imports CborApi
begin

text \<open>
  A CBOR encoder and iterator written from RFC 7049, at the interface of the library. It is not
  part of the program: it shows that \<open>cbor_law\<close> can hold, and lets the witnesses of the
  message theorems run the message code on real CBOR bytes. An iterator is the list of the bytes
  that are left.
\<close>

record rfc_encoder =
  e_cap :: nat
  e_out :: bytes

fun be :: "nat \<Rightarrow> nat \<Rightarrow> bytes" where
  "be 0 n = []"
| "be (Suc k) n = be k (n div 256) @ [word_of_nat n]"

definition be_val :: "bytes \<Rightarrow> nat" where
  "be_val bs = foldl (\<lambda>a b. a * 256 + unat b) 0 bs"

definition rfc_head :: "nat \<Rightarrow> nat \<Rightarrow> bytes" where
  "rfc_head major n =
     (if n \<le> 23 then [word_of_nat (major * 32 + n)]
      else if n \<le> 255 then word_of_nat (major * 32 + 24) # be 1 n
      else if n \<le> 65535 then word_of_nat (major * 32 + 25) # be 2 n
      else if n \<le> 4294967295 then word_of_nat (major * 32 + 26) # be 4 n
      else word_of_nat (major * 32 + 27) # be 8 n)"

definition rfc_get_head :: "bytes \<Rightarrow> (nat \<times> nat \<times> bytes) option" where
  "rfc_get_head v = (case v of
     [] \<Rightarrow> None
   | b # r \<Rightarrow>
       (let major = unat b div 32; a = unat b mod 32;
            k = (if a = 24 then 1 else if a = 25 then 2 else if a = 26 then 4 else 8)
        in if a < 24 then Some (major, a, r)
           else if 27 < a \<or> length r < k then None
           else Some (major, be_val (take k r), drop k r)))"

definition rfc_put :: "rfc_encoder \<Rightarrow> bytes \<Rightarrow> nat + rfc_encoder" where
  "rfc_put e bs = (if length (e_out e) + length bs \<le> e_cap e
     then Inr (e\<lparr>e_out := e_out e @ bs\<rparr>) else Inl 1)"

definition rfc_string :: "nat \<Rightarrow> bytes \<Rightarrow> (bytes \<times> bytes) option" where
  "rfc_string major v = (case rfc_get_head v of
     Some (m, n, r) \<Rightarrow> if m = major \<and> n \<le> length r then Some (take n r, drop n r) else None
   | None \<Rightarrow> None)"

definition rfc_advance :: "bytes \<Rightarrow> nat + bytes" where
  "rfc_advance v = (case rfc_get_head v of
     Some (m, n, r) \<Rightarrow>
       if m = 0 then Inr r
       else if (m = 2 \<or> m = 3) \<and> n \<le> length r then Inr (drop n r) else Inl 1
   | None \<Rightarrow> Inl 1)"

definition rfc_is :: "nat \<Rightarrow> bytes \<Rightarrow> bool" where
  "rfc_is major v = (case rfc_get_head v of Some (m, n, r) \<Rightarrow> m = major | None \<Rightarrow> False)"

definition rfc7049 :: "(rfc_encoder, bytes) cbor_api" where
  "rfc7049 =
    \<lparr>cbor_encoder_init = (\<lambda>cap. \<lparr>e_cap = cap, e_out = []\<rparr>),
     cbor_encoder_create_array =
       (\<lambda>e. case rfc_put e [0x9F] of Inl err \<Rightarrow> Inl err | Inr e' \<Rightarrow> Inr (e, e')),
     cbor_encode_uint = (\<lambda>e n. rfc_put e (rfc_head 0 (unat n))),
     cbor_encode_byte_string = (\<lambda>e b. rfc_put e (rfc_head 2 (length b) @ b)),
     cbor_encode_text_stringz = (\<lambda>e t. rfc_put e (rfc_head 3 (length t) @ t)),
     cbor_encoder_close_container_checked = (\<lambda>e arr. rfc_put arr [0xFF]),
     cbor_encoder_get_buffer = e_out,
     cbor_parser_init = (\<lambda>bs. if bs = [] then Inl 1 else Inr bs),
     cbor_value_is_array = (\<lambda>v. v \<noteq> [] \<and> hd v = 0x9F),
     cbor_value_enter_container = (\<lambda>v. Inr (tl v)),
     cbor_value_is_unsigned_integer = rfc_is 0,
     cbor_value_get_uint64 = (\<lambda>v. case rfc_get_head v of
        Some (m, n, r) \<Rightarrow> Inr (word_of_nat n) | None \<Rightarrow> Inl 1),
     cbor_value_is_byte_string = rfc_is 2,
     cbor_value_dup_byte_string = (\<lambda>v. case rfc_string 2 v of
        Some (b, r) \<Rightarrow> Inr (b, r) | None \<Rightarrow> Inl 1),
     cbor_value_is_text_string = rfc_is 3,
     cbor_value_dup_text_string = (\<lambda>v. case rfc_string 3 v of
        Some (t, r) \<Rightarrow> Inr (t, 0, r) | None \<Rightarrow> Inl 1),
     cbor_value_copy_text_string = (\<lambda>v cap. case rfc_string 3 v of
        Some (t, r) \<Rightarrow> if length t \<le> cap then Inr t else Inl 1 | None \<Rightarrow> Inl 1),
     cbor_value_advance = rfc_advance,
     cbor_value_advance_fixed = rfc_advance\<rparr>"

fun item_bytes :: "cbor_item \<Rightarrow> bytes" where
  "item_bytes (CUint n) = rfc_head 0 (unat n)"
| "item_bytes (CBytes b) = rfc_head 2 (length b) @ b"
| "item_bytes (CText t) = rfc_head 3 (length t) @ t"

lemma length_be [simp]: "length (be k n) = k"
  by (induction k arbitrary: n) auto

lemma be_val_snoc: "be_val (bs @ [b]) = be_val bs * 256 + unat b"
  by (simp add: be_val_def)

lemma be_val_be: "be_val (be k n) = n mod 256 ^ k"
proof (induction k arbitrary: n)
  case 0
  show ?case by (simp add: be_val_def)
next
  case (Suc k)
  have "be_val (be (Suc k) n) = (n div 256 mod 256 ^ k) * 256 + n mod 256"
    by (simp add: be_val_snoc Suc.IH unsigned_of_nat take_bit_eq_mod)
  also have "\<dots> = n mod 256 ^ Suc k"
    using mod_mult2_eq [of n 256 "256 ^ k"] by (simp add: mult.commute)
  finally show ?case .
qed

lemma length_rfc_head [simp]: "length (rfc_head m n) = head_length n"
  by (simp add: rfc_head_def head_length_def)

lemma rfc_get_head_head:
  assumes "m < 8" and "n < 2 ^ 64"
  shows "rfc_get_head (rfc_head m n @ r) = Some (m, n, r)"
proof -
  have u: "unat (word_of_nat (m * 32 + a) :: byte) = m * 32 + a" if "a < 32" for a
    using that assms(1)
    by (simp add: unsigned_of_nat take_bit_nat_eq_self del: of_nat_add of_nat_mult)
  have d: "(m * 32 + a) div 32 = m" "(m * 32 + a) mod 32 = a" if "a < 32" for a
    using that by simp_all
  have small: "rfc_get_head (word_of_nat (m * 32 + a) # r) = Some (m, a, r)" if "a < 24" for a
    using that by (simp add: rfc_get_head_def Let_def u d del: of_nat_add of_nat_mult)
  have big: "rfc_get_head (word_of_nat (m * 32 + a) # be k n @ r) = Some (m, n, r)"
    if "a = 24 \<and> k = 1 \<or> a = 25 \<and> k = 2 \<or> a = 26 \<and> k = 4 \<or> a = 27 \<and> k = 8"
      and "n < 256 ^ k" for a k
    using that by (auto simp: rfc_get_head_def Let_def u d be_val_be
        simp del: of_nat_add of_nat_mult be.simps)
  show ?thesis
    using assms(2) small [of n] big [of 24 1] big [of 25 2] big [of 26 4] big [of 27 8]
    by (simp add: rfc_head_def del: of_nat_add of_nat_mult be.simps)
qed

lemma length_item_bytes [simp]: "length (item_bytes x) = item_length x"
  by (cases x) simp_all

lemma rfc_encode_item:
  "length (e_out e) + item_length x \<le> e_cap e \<Longrightarrow>
   encode_item rfc7049 e x = Inr (e\<lparr>e_out := e_out e @ item_bytes x\<rparr>)"
  by (cases x) (simp_all add: rfc7049_def rfc_put_def)

lemma rfc_encode_items:
  "length (e_out e) + sum_list (map item_length xs) \<le> e_cap e \<Longrightarrow>
   encode_items rfc7049 e xs = Inr (e\<lparr>e_out := e_out e @ concat (map item_bytes xs)\<rparr>)"
  by (induction xs arbitrary: e) (simp_all add: rfc_encode_item)

lemma rfc_string_head:
  "m < 8 \<Longrightarrow> length b < 2 ^ 32 \<Longrightarrow> rfc_string m (rfc_head m (length b) @ b @ r) = Some (b, r)"
  by (simp add: rfc_string_def rfc_get_head_head)

lemma rfc_walks_item:
  assumes "item_ok x"
    and "walks rfc7049 r xs"
  shows "walks rfc7049 (item_bytes x @ r) (x # xs)"
proof (cases x)
  case (CUint n)
  have n: "unat n < 2 ^ 64" using unsigned_less [of n, where ?'a = nat] by simp
  show ?thesis
    using assms(2) n
    by (simp add: CUint rfc7049_def rfc_is_def rfc_advance_def rfc_get_head_head)
next
  case (CBytes b)
  then have "length b < 2 ^ 32" using assms(1) by simp
  then show ?thesis
    using assms(2) by (simp add: CBytes rfc7049_def rfc_is_def rfc_advance_def rfc_get_head_head
        rfc_string_head)
next
  case (CText t)
  then have "length t < 2 ^ 32" using assms(1) by simp
  then show ?thesis
    using assms(2) by (simp add: CText rfc7049_def rfc_is_def rfc_advance_def rfc_get_head_head
        rfc_string_head)
qed

lemma rfc_walks: "list_all item_ok xs \<Longrightarrow> walks rfc7049 (concat (map item_bytes xs) @ r) xs"
  by (induction xs) (simp_all add: rfc_walks_item)

lemma length_item_bytes_concat:
  "length (concat (map item_bytes xs)) = sum_list (map item_length xs)"
  by (induction xs) simp_all

definition rfc_array :: "cbor_item list \<Rightarrow> bytes" where
  "rfc_array xs = [0x9F] @ concat (map item_bytes xs) @ [0xFF]"

lemma rfc_decodes: "list_all item_ok xs \<Longrightarrow> decodes rfc7049 (rfc_array xs) xs"
  using rfc_walks [of xs "[0xFF]"] by (simp add: decodes_def rfc7049_def rfc_array_def)

text \<open>The law of the library holds for this encoder and iterator.\<close>

lemma cbor_law_rfc7049: "cbor_law rfc7049"
  unfolding cbor_law_def
proof (intro allI impI)
  fix cap xs
  assume ok: "list_all item_ok xs" and fits: "array_length xs \<le> cap"
  let ?bs = "[0x9F] @ concat (map item_bytes xs) @ [0xFF]"
  let ?e = "\<lparr>e_cap = cap, e_out = [0x9F]\<rparr>"
  have "encode_items rfc7049 ?e xs = Inr (?e\<lparr>e_out := e_out ?e @ concat (map item_bytes xs)\<rparr>)"
    using fits by (intro rfc_encode_items) (simp add: array_length_def)
  then have "encode_array rfc7049 cap xs = Inr ?bs"
    using fits length_item_bytes_concat [of xs]
    by (simp add: encode_array_def rfc7049_def rfc_put_def array_length_def)
  moreover have "decodes rfc7049 ?bs xs"
    using rfc_walks [OF ok, of "[0xFF]"] by (simp add: decodes_def rfc7049_def)
  ultimately show "\<exists>bs. encode_array rfc7049 cap xs = Inr bs \<and> length bs = array_length xs \<and>
      decodes rfc7049 bs xs"
    using length_item_bytes_concat [of xs] by (intro exI [of _ ?bs]) (simp add: array_length_def)
qed

end
