(* ===== verification/TomSample.thy ===== *)
theory TomSample
  imports Crypto
begin

text \<open>
  A small instance of the libtomcrypt interface. It is not part of the program and has no
  security: it shows that \<open>tom_law\<close> can hold, and lets the witnesses of the crypto and session
  theorems run the code on concrete keys. A private key is a number, the public half is three
  times it, the shared secret their product, modulo 256.
\<close>

datatype sample_key = Private byte | Public byte

fun public_value :: "sample_key \<Rightarrow> byte" where
  "public_value (Private x) = 3 * x"
| "public_value (Public y) = y"

definition sample_tag :: "bytes \<Rightarrow> bytes \<Rightarrow> bytes \<Rightarrow> bytes \<Rightarrow> bytes" where
  "sample_tag key iv aad plain = replicate 16 (sum_list key + sum_list iv + sum_list aad + sum_list plain)"

definition sample_tom :: "(sample_key, nat) tom_api" where
  "sample_tom =
    \<lparr>register_hash = 0, register_cipher = 0, register_prng = 0,
     find_hash = 0, find_cipher = 0, find_prng = 0,
     rng_make_prng = (\<lambda>bits i p. Inr (p + bits)),
     fortuna_done = (\<lambda>p. Inr 0),
     fortuna_ready = (\<lambda>p. Inr p),
     fortuna_read = (\<lambda>n p. (replicate n (word_of_nat (p + 1)), p + 1)),
     hash_memory = (\<lambda>i b cap. Inr (replicate 32 (sum_list b))),
     ecc_make_key = (\<lambda>p i n. (Inr (Private (word_of_nat p)), p + 1)),
     ecc_export_private = (\<lambda>k cap. case k of Private x \<Rightarrow> Inr [x] | Public y \<Rightarrow> Inl 1),
     ecc_ansi_x963_export = (\<lambda>k cap. Inr (4 # public_value k # replicate 63 0)),
     ecc_ansi_x963_import = (\<lambda>b. if length b = 65 \<and> hd b = 4 then Inr (Public (b ! 1)) else Inl 1),
     ecc_import = (\<lambda>b. if length b = 1 then Inr (Private (hd b)) else Inl 1),
     ecc_sign_hash_rfc7518 = (\<lambda>h n p i k. (Inr (replicate 64 (sum_list h + public_value k)), p + 1)),
     ecc_verify_hash_rfc7518 = (\<lambda>sig h k. Inr (sig = replicate 64 (sum_list h + public_value k))),
     ecc_shared_secret = (\<lambda>k1 k2 n. case k1 of
        Private x \<Rightarrow> Inr (replicate 32 (x * public_value k2)) | Public y \<Rightarrow> Inl 1),
     gcm_encrypt = (\<lambda>i key iv aad plain n. Inr (map (\<lambda>b. b + hd key) plain, sample_tag key iv aad plain)),
     gcm_decrypt = (\<lambda>i key iv aad c n.
        let plain = map (\<lambda>b. b - hd key) c in Inr (plain, sample_tag key iv aad plain))\<rparr>"

lemma tom_law_sample: "tom_law sample_tom"
proof -
  have pair: "(\<exists>x. k = Private x \<and> priv = [x] \<and> pub = 4 # 3 * x # replicate 63 0)"
    if "key_pair sample_tom k priv pub" for k priv pub
    using that by (cases k) (auto simp: key_pair_def sample_tom_def)
  have "lookup_law sample_tom" "prng_law sample_tom" "hash_law sample_tom"
    by (simp_all add: lookup_law_def prng_law_def hash_law_def crypto_lengths sample_tom_def)
  moreover have "gcm_law sample_tom"
    by (simp add: gcm_law_def sample_tom_def crypto_lengths sample_tag_def Let_def o_def)
  moreover have "make_key_law sample_tom"
    by (simp add: make_key_law_def key_pair_def sample_tom_def crypto_lengths)
  moreover have "ecdh_law sample_tom"
    unfolding ecdh_law_def
  proof (intro allI impI, goal_cases)
    case (1 k1 priv1 pub1 k2 priv2 pub2)
    then obtain x y where "priv1 = [x]" "pub1 = 4 # 3 * x # replicate 63 0" "priv2 = [y]"
      "pub2 = 4 # 3 * y # replicate 63 0"
      using pair by meson
    then show ?case by (simp add: sample_tom_def crypto_lengths mult.left_commute)
  qed
  moreover have "sign_law sample_tom"
    unfolding sign_law_def
  proof (intro allI impI, goal_cases)
    case (1 k priv pub h p)
    then obtain x where "priv = [x]" "pub = 4 # 3 * x # replicate 63 0"
      using pair by meson
    then show ?case by (simp add: sample_tom_def crypto_lengths)
  qed
  ultimately show ?thesis by (simp add: tom_law_def)
qed

text \<open>A calm world with no files.\<close>

definition sample_world :: "nat \<Rightarrow> nat world" where
  "sample_world p = \<lparr>w_faults = (\<lambda>_. True), w_junk = 0, w_short = 0, w_files = (\<lambda>_. None), w_prng = p\<rparr>"

lemma calm_sample_world [simp]: "calm (sample_world p)"
  by (simp add: calm_def sample_world_def)

end
