(* ===== verification/Samples.thy ===== *)
theory Samples
  imports Rfc7049 TomSample SmpApi
begin

text \<open>
  Concrete machines for the witnesses of the session theorems: a root certificate and two device
  certificates in real CBOR bytes, signed with the sample keys, and for each device a world with
  its credentials and an open session.
\<close>

definition sample_pub :: "byte \<Rightarrow> bytes" where
  "sample_pub x = 4 # 3 * x # replicate 63 0"

definition sample_sign :: "byte \<Rightarrow> bytes \<Rightarrow> bytes" where
  "sample_sign x d = replicate 64 (sum_list (replicate 32 (sum_list d)) + 3 * x)"

definition sample_tbs :: "bytes \<Rightarrow> bytes \<Rightarrow> byte \<Rightarrow> cert_tbs" where
  "sample_tbs issuer subject x =
    \<lparr>tbs_version = 0, signatureAlgorithm = 0, issuerId = Some issuer, subjectId = Some subject,
     subjectPubKeyInfo = 100, pSubjectPubKey = Some (sample_pub x)\<rparr>"

definition sample_container :: "bytes \<Rightarrow> bytes \<Rightarrow> byte \<Rightarrow> byte \<Rightarrow> cert_container" where
  "sample_container issuer subject x signer =
     (let t = rfc_array (tbs_items (sample_tbs issuer subject x))
      in \<lparr>cont_version = 0, pEncodedTbs = Some t, pSignature = Some (sample_sign signer t)\<rparr>)"

definition sample_cert :: "bytes \<Rightarrow> bytes \<Rightarrow> byte \<Rightarrow> byte \<Rightarrow> bytes" where
  "sample_cert issuer subject x signer = rfc_array (container_items (sample_container issuer subject x signer))"

lemma length_rfc_array: "length (rfc_array xs) = array_length xs"
  using length_item_bytes_concat [of xs] by (simp add: rfc_array_def array_length_def)

lemma rfc_array_ne [simp]: "rfc_array xs \<noteq> []"
  by (simp add: rfc_array_def)

lemma length_sample [simp]: "length (sample_pub x) = 65" "length (sample_sign x d) = 64"
  "sample_pub x \<noteq> []" "sample_sign x d \<noteq> []"
  by (simp_all add: sample_pub_def sample_sign_def)

lemma sample_tbs_length:
  assumes "issuer \<noteq> []" and "subject \<noteq> []" and "length issuer \<le> 20" and "length subject \<le> 20"
    and "0 \<notin> set issuer" and "0 \<notin> set subject"
  shows "tbs_valid (sample_tbs issuer subject x)"
    and "list_all item_ok (tbs_items (sample_tbs issuer subject x))"
    and "array_length (tbs_items (sample_tbs issuer subject x)) \<le> 120"
  using assms
  by (simp_all add: tbs_valid_def tbs_items_def sample_tbs_def c_string_no_NUL array_length_def
      head_length_def)

lemma sample_reads:
  assumes "issuer \<noteq> []" and "subject \<noteq> []" and "length issuer \<le> 20" and "length subject \<le> 20"
    and "0 \<notin> set issuer" and "0 \<notin> set subject" and calm: "calm w"
  shows "reads_cert rfc7049 w (Some (sample_cert issuer subject x signer))
    \<lparr>pContainer = sample_container issuer subject x signer, pTbs = sample_tbs issuer subject x\<rparr>"
    and "length (sample_cert issuer subject x signer) < 1000"
proof -
  let ?t = "sample_tbs issuer subject x" and ?c = "sample_container issuer subject x signer"
  note t = sample_tbs_length [OF assms(1-6), of x]
  have len: "length (rfc_array (tbs_items ?t)) \<le> 120" using t(3) by (simp add: length_rfc_array)
  have cv: "container_valid ?c" by (simp add: container_valid_def sample_container_def Let_def)
  have ci: "list_all item_ok (container_items ?c)"
    using len by (simp add: container_items_def sample_container_def Let_def)
  have tb: "wosCborUnpackCertificateTbs rfc7049 (pEncodedTbs ?c) w = (Inr ?t, w)"
    using unpack_tbs_decodes [OF rfc_decodes [OF t(2)] rfc_array_ne calm t(1)] assms(5,6)
    by (simp add: sample_container_def Let_def sample_tbs_def c_string_no_NUL)
  have cn: "wosCborUnpackCertificateContainer rfc7049 (Some (sample_cert issuer subject x signer)) w = (Inr ?c, w)"
    using unpack_container_decodes [OF rfc_decodes [OF ci] rfc_array_ne calm cv]
    by (simp add: sample_cert_def) (simp add: sample_container_def Let_def)
  show "reads_cert rfc7049 w (Some (sample_cert issuer subject x signer)) \<lparr>pContainer = ?c, pTbs = ?t\<rparr>"
    using tb cn by (simp add: reads_cert_def sample_cert_def)
  have hl: "head_length (length (rfc_array (tbs_items ?t))) \<le> 5" using len by (intro head_length_le) simp
  have "length (sample_cert issuer subject x signer) = array_length (container_items ?c)"
    unfolding sample_cert_def by (rule length_rfc_array)
  also have "\<dots> = 2 + (head_length 0 + (head_length (length (rfc_array (tbs_items ?t))) +
      length (rfc_array (tbs_items ?t)) + (head_length 64 + 64)))"
    by (simp add: array_length_def container_items_def sample_container_def Let_def)
  also have "\<dots> < 1000" using hl len by (simp add: head_length_def [of 0] head_length_def [of 64])
  finally show "length (sample_cert issuer subject x signer) < 1000" .
qed

lemma sample_signed:
  "d \<noteq> [] \<Longrightarrow> signed_by sample_tom (Some (sample_pub x)) (Some d) (Some (sample_sign x d))"
  by (simp add: signed_by_def sample_tom_def sample_pub_def sample_sign_def)

lemma sample_key_pair: "key_pair sample_tom (Private x) [x] (sample_pub x)"
  by (simp add: key_pair_def sample_tom_def sample_pub_def crypto_lengths)

text \<open>The names of the parties, and their certificates; the keys are 5, 7 and 9.\<close>

definition root_name :: bytes where "root_name = [114]"
definition client_name :: bytes where "client_name = [99]"
definition broker_name :: bytes where "broker_name = [98]"

definition root_cert :: bytes where "root_cert = sample_cert root_name root_name 5 5"
definition client_cert :: bytes where "client_cert = sample_cert root_name client_name 7 5"
definition broker_cert :: bytes where "broker_cert = sample_cert root_name broker_name 9 5"

definition sample_machine :: "byte \<Rightarrow> bytes \<Rightarrow> byte \<Rightarrow> nat smp_world" where
  "sample_machine x certificate e =
    \<lparr>w_faults = (\<lambda>_. True), w_junk = 0, w_short = 0,
     w_files = Map.empty(cstr ''root_ca'' \<mapsto> root_cert, cstr ''self_cert'' \<mapsto> certificate,
        cstr ''self_key'' \<mapsto> [x], hex_of (replicate 16 1) \<mapsto> [e], hex_of (replicate 16 2) \<mapsto> sample_pub e),
     w_prng = 0,
     smp_ctx = Some (new_session 1 (replicate 16 1) (replicate 16 2) (replicate 16 3)),
     gSelfCertChainSize = 1\<rparr>"

lemma sample_ready:
  assumes "subject = client_name \<and> x = 7 \<and> psubject = broker_name \<and> px = 9 \<or>
    subject = broker_name \<and> x = 9 \<and> psubject = client_name \<and> px = 7"
  shows "ready rfc7049 sample_tom (sample_machine x (sample_cert root_name subject x 5) e)
    (new_session 1 (replicate 16 1) (replicate 16 2) (replicate 16 3)) (Private e) (sample_pub e)
    (sample_cert root_name subject x 5, sample_pub x) (sample_cert root_name psubject px 5, sample_pub px)"
proof -
  define s where "s = new_session 1 (replicate 16 1) (replicate 16 2) (replicate 16 3)"
  define w where "w = sample_machine x (sample_cert root_name subject x 5) e"
  have calm: "calm w" by (simp add: w_def sample_machine_def calm_def)
  have r: "length (replicate 16 (1 :: byte)) = 16" "length (replicate 16 (2 :: byte)) = 16"
    "length (replicate 16 (3 :: byte)) = 16" by simp_all
  note facts = new_session_facts [OF r, of 1, folded s_def]
  have dist: "distinct [replicate 16 (1 :: byte), replicate 16 2, replicate 16 3]" by simp
  have ids: "ids_ok s" by (rule facts(5) [OF dist])
  have hx: "hex_of (replicate 16 (1 :: byte)) \<noteq> hex_of (replicate 16 2)"
    by (simp add: hex_of_inject)
  note nc = hex_not_cred [OF r(1)] hex_not_cred [OF r(2)]
  have names: "selfPrivKeyStorageId s = gSelfPrivKeyStorageId"
    "selfCertChainStorageId s = gSelfCertStorageId" "rootCaStorageId s = gRootCaStorageId"
    by (simp_all add: s_def new_session_def)
  have ok: "root_name \<noteq> []" "length root_name \<le> 20" "0 \<notin> set root_name"
    "subject \<noteq> []" "length subject \<le> 20" "0 \<notin> set subject"
    "psubject \<noteq> []" "length psubject \<le> 20" "0 \<notin> set psubject"
    using assms by (auto simp: root_name_def client_name_def broker_name_def)
  note rr = sample_reads [OF ok(1) ok(1) ok(2) ok(2) ok(3) ok(3) calm, of 5 5]
  note pr = sample_reads [OF ok(1) ok(7) ok(2) ok(8) ok(3) ok(9) calm, of px 5]
  note sr = sample_reads [OF ok(1) ok(4) ok(2) ok(5) ok(3) ok(6) calm, of x 5]
  have keys: "holds_key w (sessionPrivateKeyStorageId s) [e]"
    "holds_key w (sessionPublicKeyStorageId s) (sample_pub e)"
    "holds_key w gSelfPrivKeyStorageId [x]" "holds_key w gRootCaStorageId root_cert"
    "holds_key w gSelfCertStorageId (sample_cert root_name subject x 5)"
    using ids hx nc nc [symmetric] facts(2,3) cred_names_differ cred_names_differ [symmetric]
    by (auto simp: holds_key_def w_def sample_machine_def ids_ok_def cred_strings sample_cert_def root_cert_def)
  have "trusts rfc7049 sample_tom w s (sample_cert root_name psubject px 5) (sample_pub px)"
    unfolding trusts_def names
    using keys(4) rr(1) pr(1)
    by (intro exI [of _ root_cert] exI conjI, simp, simp add: root_cert_def, simp)
      (simp_all add: valid_chain_def issued_def sample_container_def Let_def sample_tbs_def sample_signed)
  moreover have "has_identity sample_tom w s (sample_cert root_name subject x 5) (sample_pub x)"
    using keys sample_key_pair [of x] sr(2) by (auto simp: has_identity_def names)
  ultimately show ?thesis
    using calm facts(1) ids keys sample_key_pair [of e] new_session_apart [OF r, of 1]
    unfolding s_def [symmetric] w_def [symmetric]
    by (auto simp: ready_def s_def) (simp add: w_def sample_machine_def)
qed

text \<open>A machine whose session key is established.\<close>

definition sample_session :: smp_session where
  "sample_session = new_session 1 (replicate 16 1) (replicate 16 2) (replicate 16 3)
     \<lparr>isSessionKeyEstablished := True\<rparr>"

definition sample_established :: "byte \<Rightarrow> bytes \<Rightarrow> nat smp_world" where
  "sample_established x certificate = (sample_machine x certificate 3)
     \<lparr>w_files := (w_files (sample_machine x certificate 3))(hex_of (replicate 16 3) \<mapsto> replicate 32 9),
      smp_ctx := Some sample_session\<rparr>"

lemma sample_session_facts:
  "session_ok sample_session" "isSessionKeyEstablished sample_session"
  "toBeSentMessageId sample_session = 0" "lastReceivedMessageId sample_session = 0"
  "ids_ok sample_session"
  using new_session_facts(1,5) [of "replicate 16 1" "replicate 16 2" "replicate 16 3" 1]
  by (simp_all add: sample_session_def session_ok_def new_session_def fresh_session_def ids_ok_def
      sessionPrivateKeyStorageId_def sessionPublicKeyStorageId_def sessionSharedKeyStorageId_def)

lemma sample_is_established: "established (sample_established x certificate) sample_session (replicate 32 9)"
proof -
  have "c_string (the (sessionSharedKeyStorageId sample_session)) = hex_of (replicate 16 3)"
    using new_session_facts(4) [of "replicate 16 1" "replicate 16 2" "replicate 16 3" 1]
    by (simp add: sample_session_def sessionSharedKeyStorageId_def)
  then show ?thesis
    using sample_session_facts
    by (simp add: established_def sample_established_def holds_key_def sample_machine_def calm_def ids_ok_def)
qed

end
