(* ===== verification/SmpProps.thy ===== *)
theory SmpProps
  imports SmpFrames Samples
begin

text \<open>
  The properties of the SMP side (client library and message code), each with a witness on the
  sample machines.
\<close>

section \<open>Facts shared by the properties\<close>

lemma get_message_established:
  fixes w :: "('p, 'z) smp_world_scheme"
  assumes laws: "cbor_law C" "tom_law T" and est: "established w s key"
    and mtype: "mtype \<in> set (sendable_types role)" "mtype \<noteq> WCL_SMP_MESSAGE_MQTTS_DISCONNECT"
    and pkt: "pkt \<noteq> []" "length pkt < 2 ^ 31"
  obtains msg w' where "wclSmpGetMessage C T role Session mtype (Some pkt) w = (Inr msg, w')"
    and "established w' (s\<lparr>toBeSentMessageId := toBeSentMessageId s + 1\<rparr>) key"
    and "secures C T role key s mtype pkt msg" and "msg \<noteq> []"
proof -
  have ty: "1 \<le> unat mtype" "unat mtype < 14"
    using mtype by (cases role; auto simp: sendable_types_def)+
  have e: "calm w" "smp_ctx w = Some s" "session_ok s" "isSessionKeyEstablished s"
      "holds_key w (sessionSharedKeyStorageId s) key" "length key = 32"
    using est by (auto simp: established_def)
  obtain msg p' where m: "smpSecureMessage C T role mtype (Some pkt) w
       = (Inr msg, w\<lparr>w_prng := p', smp_ctx := Some (s\<lparr>toBeSentMessageId := toBeSentMessageId s + 1\<rparr>)\<rparr>)"
      "secures C T role key s mtype pkt msg"
    by (rule secure_calm [OF e(1) laws e(2-6) ty pkt])
  have es: "established (w\<lparr>w_prng := p', smp_ctx := Some (s\<lparr>toBeSentMessageId := toBeSentMessageId s + 1\<rparr>)\<rparr>)
      (s\<lparr>toBeSentMessageId := toBeSentMessageId s + 1\<rparr>) key"
    using e by (simp add: established_def session_ok_def sessionSharedKeyStorageId_def)
  have gm: "wclSmpGetMessage C T role Session mtype (Some pkt) w
      = (Inr msg, w\<lparr>w_prng := p', smp_ctx := Some (s\<lparr>toBeSentMessageId := toBeSentMessageId s + 1\<rparr>)\<rparr>)"
    using m(1) by (simp add: get_message_control [OF mtype(1) pkt(1)])
  have ne: "msg \<noteq> []" using m(2) by (auto simp: secures_def)
  show thesis by (rule that [OF gm es m(2) ne])
qed

lemma process_message_established:
  fixes w :: "('p, 'z) smp_world_scheme"
  assumes laws: "tom_law T" and est: "established w r key" and s: "session_ok s"
    and mtype: "mtype \<in> set (control_types receiver)"
    and fresh: "lastReceivedMessageId r \<le> toBeSentMessageId s"
    and sec: "secures C T (smp_peer receiver) key s mtype pkt msg"
    and pkt: "pkt \<noteq> []" "length pkt < 2 ^ 31"
  obtains w' where "wclSmpProcessMessage C T receiver Session (Some msg) w = (Inr (Some pkt), w')"
    and "established w' (r\<lparr>lastReceivedMessageId := toBeSentMessageId s\<rparr>) key"
proof -
  have e: "calm w" "smp_ctx w = Some r" "isSessionKeyEstablished r"
      "holds_key w (sessionSharedKeyStorageId r) key" "length key = 32"
    using est by (auto simp: established_def)
  have look: "lookup_law T" using laws by (simp add: tom_law_def)
  have ne: "msg \<noteq> []" using sec by (auto simp: secures_def)
  have fr: "\<not> toBeSentMessageId s < lastReceivedMessageId r" using fresh by simp
  have "wclSmpProcessMessage C T receiver Session (Some msg) w
      = (Inr (Some pkt), w\<lparr>smp_ctx := Some (r\<lparr>lastReceivedMessageId := toBeSentMessageId s\<rparr>)\<rparr>)"
    by (rule process_message_ok [OF ne pkt(1) process_secured_calm [OF e(1) look e(2) s e(3-5) mtype fr sec pkt]])
  moreover have "established (w\<lparr>smp_ctx := Some (r\<lparr>lastReceivedMessageId := toBeSentMessageId s\<rparr>)\<rparr>)
      (r\<lparr>lastReceivedMessageId := toBeSentMessageId s\<rparr>) key"
    using est by (simp add: established_def session_ok_def sessionSharedKeyStorageId_def)
  ultimately show thesis using that by blast
qed

lemma control_types_sendable:
  "mtype \<in> set (control_types receiver) \<Longrightarrow> mtype \<in> set (sendable_types (smp_peer receiver)) \<and> mtype \<noteq> 14"
  by (cases receiver) (auto simp: control_types_def allowed_types_def sendable_types_def)

section \<open>Properties\<close>

text \<open>C1: The handshake reaches agreement: when both machines are ready (key pair stored, identity,
  trust in the peer's certificate) and neither has seen a higher message id, the CONNECT/CONNACK
  exchange goes through, each side receives the other's packet, both end with an established
  session over the same 32-byte key, and both session private keys are gone from the storage.\<close>

theorem handshake_agrees_on_key:
  fixes wc wb :: "('p, 'z) smp_world_scheme"
  assumes "cbor_law C" and "tom_law T"
    and "ready C T wc sc kc pubc ownc ownb" and "ready C T wb sb kb pubb ownb ownc"
    and "p1 \<noteq> []" and "length p1 < 2 ^ 30" and "p2 \<noteq> []" and "length p2 < 2 ^ 30"
    and "lastReceivedMessageId sb \<le> toBeSentMessageId sc"
    and "lastReceivedMessageId sc \<le> toBeSentMessageId sb"
  shows "\<exists>wc' wb' sc' sb' key. handshake C T p1 p2 wc wb = Some (wc', wb') \<and>
    established wc' sc' key \<and> established wb' sb' key \<and>
    w_files wc' (c_string (the (sessionPrivateKeyStorageId sc))) = None \<and>
    w_files wb' (c_string (the (sessionPrivateKeyStorageId sb))) = None"
proof -
  have "\<not> toBeSentMessageId sc < lastReceivedMessageId sb" "\<not> toBeSentMessageId sb < lastReceivedMessageId sc"
    using assms(9,10) by simp_all
  then show ?thesis
    using handshake_calm [OF assms(1-8)] by metis
qed

theorem handshake_agrees_on_key_witness:
  "\<exists>wc' wb' sc' sb' key. handshake rfc7049 sample_tom [16] [32]
      (sample_machine 7 (sample_cert root_name client_name 7 5) 3)
      (sample_machine 9 (sample_cert root_name broker_name 9 5) 4) = Some (wc', wb') \<and>
    established wc' sc' key \<and> established wb' sb' key \<and>
    w_files wc' (c_string (the (sessionPrivateKeyStorageId
      (new_session 1 (replicate 16 1) (replicate 16 2) (replicate 16 3))))) = None \<and>
    w_files wb' (c_string (the (sessionPrivateKeyStorageId
      (new_session 1 (replicate 16 1) (replicate 16 2) (replicate 16 3))))) = None"
  by (rule handshake_agrees_on_key [OF cbor_law_rfc7049 tom_law_sample
        sample_ready [where px = 9 and psubject = broker_name]
        sample_ready [where px = 7 and psubject = client_name]])
    (simp_all add: new_session_def fresh_session_def)

text \<open>C2: Secured messages arrive: in established sessions with the same key, every control packet
  that one side secures is accepted by the other and gives the packet back, whatever its type
  (encrypted or authenticated only); both sessions stay established and the receiver's counter
  is the message's id.\<close>

theorem secured_message_round_trip:
  fixes ws wr :: "('p, 'z) smp_world_scheme"
  assumes "cbor_law C" and "tom_law T" and "established ws s key" and "established wr r key"
    and "mtype \<in> set (control_types receiver)" and "lastReceivedMessageId r \<le> toBeSentMessageId s"
    and "pkt \<noteq> []" and "length pkt < 2 ^ 31"
  shows "\<exists>msg ws' wr'. wclSmpGetMessage C T (smp_peer receiver) Session mtype (Some pkt) ws = (Inr msg, ws') \<and>
    wclSmpProcessMessage C T receiver Session (Some msg) wr = (Inr (Some pkt), wr') \<and>
    established ws' (s\<lparr>toBeSentMessageId := toBeSentMessageId s + 1\<rparr>) key \<and>
    established wr' (r\<lparr>lastReceivedMessageId := toBeSentMessageId s\<rparr>) key"
proof -
  have ty: "mtype \<in> set (sendable_types (smp_peer receiver))" "mtype \<noteq> 14"
    using control_types_sendable [OF assms(5)] by simp_all
  obtain msg ws' where m: "wclSmpGetMessage C T (smp_peer receiver) Session mtype (Some pkt) ws = (Inr msg, ws')"
      "established ws' (s\<lparr>toBeSentMessageId := toBeSentMessageId s + 1\<rparr>) key"
      "secures C T (smp_peer receiver) key s mtype pkt msg"
    by (rule get_message_established [OF assms(1-3) ty assms(7,8)])
  have "session_ok s" using assms(3) by (simp add: established_def)
  from process_message_established [OF assms(2,4) this assms(5,6) m(3) assms(7,8)] m show ?thesis
    by metis
qed

theorem secured_message_round_trip_witness:
  "\<exists>msg ws' wr'. wclSmpGetMessage rfc7049 sample_tom (smp_peer SMP_MQTTS_BROKER) Session
      WCL_SMP_MESSAGE_MQTTS_PUBLISH (Some [48, 5]) (sample_established 7 [1]) = (Inr msg, ws') \<and>
    wclSmpProcessMessage rfc7049 sample_tom SMP_MQTTS_BROKER Session (Some msg)
      (sample_established 9 [2]) = (Inr (Some [48, 5]), wr') \<and>
    established ws' (sample_session\<lparr>toBeSentMessageId := toBeSentMessageId sample_session + 1\<rparr>) (replicate 32 9) \<and>
    established wr' (sample_session\<lparr>lastReceivedMessageId := toBeSentMessageId sample_session\<rparr>) (replicate 32 9)"
  by (rule secured_message_round_trip [OF cbor_law_rfc7049 tom_law_sample sample_is_established
        sample_is_established])
    (simp_all add: control_types_def allowed_types_def sample_session_facts)

text \<open>C3: Nothing unauthenticated is accepted: when a message is accepted and is not a session
  establishment, the session is established, the header's type is one this side may receive, its
  id is not below the last one, and the tag recomputed under the session key over header, label
  and clear packet is the received one; the session then only records the id.\<close>

theorem accepted_control_message_is_authentic:
  fixes w w' :: "('p, 'z) smp_world_scheme"
  assumes "calm w" and "lookup_law T" and "smp_ctx w = Some s"
    and "holds_key w (sessionSharedKeyStorageId s) key" and "length key = 32"
    and run: "smpProcessMessage C T role (Some msg) w = (Inr pkt, w')"
    and hdr: "wosMsgUnpackSmpHeaderFromSmpMsg C (Some msg) (Some 32) w = (Inr h, w)"
    and "messageType h \<noteq> (case role of SMP_MQTTS_CLIENT \<Rightarrow> WCL_SMP_MESSAGE_MQTTS_CONNACK
           | SMP_MQTTS_BROKER \<Rightarrow> WCL_SMP_MESSAGE_MQTTS_CONNECT)"
  shows "isSessionKeyEstablished s \<and> messageType h \<in> set (allowed_types role) \<and>
    lastReceivedMessageId s \<le> messageId h \<and> authentic C T role key (messageType h) msg w pkt \<and>
    w' = w\<lparr>smp_ctx := Some (s\<lparr>lastReceivedMessageId := messageId h\<rparr>)\<rparr>"
proof -
  have h: "wosMsgUnpackSmpHeaderFromSmpMsg C (Some msg) (Some WCL_SMP_CLIENT_ID_LENGTH) w = (Inr h, w)"
    using hdr by (simp add: WCL_SMP_CLIENT_ID_LENGTH_def)
  have al: "alloc WCL_SMP_CLIENT_ID_LENGTH (Code WCL_ERROR_OUT_OF_MEMORY) w
      = (Inr (replicate 32 (w_junk w)), w)"
    using calm_alloc [OF assms(1), of 32 "Code WCL_ERROR_OUT_OF_MEMORY"] by (simp add: WCL_SMP_CLIENT_ID_LENGTH_def)
  obtain w1 w2 where *: "lSmpValidateSmpHeader role h w = (Inr (), w1)"
      "lSmpProcessControlMessage C T role (messageType h) (Some msg) w1 = (Inr pkt, w2)"
      "w' = w2\<lparr>smp_ctx := map_option (\<lambda>c. c\<lparr>lastReceivedMessageId := messageId h\<rparr>) (smp_ctx w2)\<rparr>"
    using run assms(8) h al assms(3)
    by (auto simp: smpProcessMessage_def succeeds simp del: calm_alloc split: if_splits)
  have v: "w1 = w" "messageType h \<in> set (allowed_types role)" "lastReceivedMessageId s \<le> messageId h"
    using *(1) assms(3) by (auto simp: lSmpValidateSmpHeader_def bindE_def ensure_def split: if_splits)
  show ?thesis
    using control_accepts [OF assms(1-5) *(2) [unfolded v(1)]] v *(3) assms(3) by simp
qed

theorem accepted_control_message_is_authentic_witness:
  "\<exists>msg w' (h :: smp_header).
    smpProcessMessage rfc7049 sample_tom SMP_MQTTS_BROKER (Some msg) (sample_established 9 [2])
      = (Inr (Some [48, 5]), w') \<and>
    messageType h \<in> set (allowed_types SMP_MQTTS_BROKER) \<and>
    authentic rfc7049 sample_tom SMP_MQTTS_BROKER (replicate 32 9) (messageType h) msg
      (sample_established 9 [2]) (Some [48, 5])"
proof -
  let ?wr = "sample_established 9 [2]"
  have sub: "3 \<in> set (sendable_types SMP_MQTTS_CLIENT)" "(3 :: byte) \<noteq> 14"
      "3 \<in> set (control_types SMP_MQTTS_BROKER)" "([48, 5] :: bytes) \<noteq> []" "length ([48, 5] :: bytes) < 2 ^ 31"
    by (simp_all add: sendable_types_def control_types_def allowed_types_def)
  obtain msg w1 where "secures rfc7049 sample_tom SMP_MQTTS_CLIENT (replicate 32 9) sample_session 3 [48, 5] msg"
    by (rule get_message_established [OF cbor_law_rfc7049 tom_law_sample sample_is_established [of 7 "[1]"] sub(1,2,4,5)])
  then have sec: "secures rfc7049 sample_tom (smp_peer SMP_MQTTS_BROKER) (replicate 32 9) sample_session 3 [48, 5] msg"
    by simp
  have e: "calm ?wr" "smp_ctx ?wr = Some sample_session" "isSessionKeyEstablished sample_session"
      "holds_key ?wr (sessionSharedKeyStorageId sample_session) (replicate 32 9)" "session_ok sample_session"
      "length (replicate 32 (9 :: byte)) = 32"
    using sample_is_established [of 9 "[2]"] by (auto simp: established_def)
  have look: "lookup_law sample_tom" using tom_law_sample by (simp add: tom_law_def)
  have fresh: "\<not> toBeSentMessageId sample_session < lastReceivedMessageId sample_session"
    by (simp add: sample_session_facts)
  note run = process_secured_calm [OF e(1) look e(2,5,3,4,6) sub(3) fresh sec sub(4,5)]
  obtain hb rest where "decodes rfc7049 hb (header_items (session_header sample_session 3))"
      "decodes rfc7049 msg (CBytes hb # rest)" "msg \<noteq> []"
    using sec unfolding secures_def by blast
  note hdr = unpack_secured_header [OF e(1,5) this]
  have ty: "messageType (session_header sample_session 3\<lparr>h_clientId := Some []\<rparr>)
      \<noteq> (case SMP_MQTTS_BROKER of SMP_MQTTS_CLIENT \<Rightarrow> 2 | SMP_MQTTS_BROKER \<Rightarrow> 1)"
    by (simp add: session_header_def)
  note fin = accepted_control_message_is_authentic [OF e(1) look e(2,4,6) run hdr ty]
  have "messageType (session_header sample_session 3\<lparr>h_clientId := Some []\<rparr>) \<in> set (allowed_types SMP_MQTTS_BROKER)"
      "authentic rfc7049 sample_tom SMP_MQTTS_BROKER (replicate 32 9)
        (messageType (session_header sample_session 3\<lparr>h_clientId := Some []\<rparr>)) msg ?wr (Some [48, 5])"
    using fin by simp_all
  with run show ?thesis
    by (intro exI [of _ msg] exI [of _ "?wr\<lparr>smp_ctx := Some (sample_session
      \<lparr>lastReceivedMessageId := toBeSentMessageId sample_session\<rparr>)\<rparr>"]
      exI [of _ "session_header sample_session 3\<lparr>h_clientId := Some []\<rparr>"] conjI)
qed

text \<open>C4: Over every run of a session - sends, and receptions of any bytes the network delivers,
  with library calls failing anywhere - the receive counter never goes down, an established
  session stays established, and ids and credentials never change.\<close>

theorem session_counters_over_runs:
  assumes "session_run C T role w w'" and "smp_ctx w = Some s"
  shows "\<exists>t. smp_ctx w' = Some t \<and> session_le s t"
  by (rule run_session_le [OF assms])

theorem session_counters_over_runs_witness:
  "\<exists>w' t. session_run rfc7049 sample_tom SMP_MQTTS_CLIENT (sample_established 7 [1]) w' \<and>
     w' \<noteq> sample_established 7 [1] \<and> smp_ctx w' = Some t \<and> session_le sample_session t"
proof -
  have ty: "3 \<in> set (sendable_types SMP_MQTTS_CLIENT)" "(3 :: byte) \<noteq> 14" "([48, 5] :: bytes) \<noteq> []"
      "length ([48, 5] :: bytes) < 2 ^ 31"
    by (simp_all add: sendable_types_def)
  obtain msg w' where m: "wclSmpGetMessage rfc7049 sample_tom SMP_MQTTS_CLIENT Session 3 (Some [48, 5])
      (sample_established 7 [1]) = (Inr msg, w')"
    "established w' (sample_session\<lparr>toBeSentMessageId := toBeSentMessageId sample_session + 1\<rparr>) (replicate 32 9)"
    by (rule get_message_established [OF cbor_law_rfc7049 tom_law_sample sample_is_established [of 7 "[1]"] ty])
  have step: "session_step rfc7049 sample_tom SMP_MQTTS_CLIENT (sample_established 7 [1]) w'"
    by (rule session_step.send [OF m(1)]) simp
  have run: "session_run rfc7049 sample_tom SMP_MQTTS_CLIENT (sample_established 7 [1]) w'"
    by (rule session_run.more [OF session_run.start step])
  have ctx: "smp_ctx (sample_established 7 [1]) = Some sample_session"
    using sample_is_established [of 7 "[1]"] by (simp add: established_def)
  have "smp_ctx w' \<noteq> smp_ctx (sample_established 7 [1])"
    using m(2) ctx by (auto simp: established_def sample_session_facts dest: arg_cong [of _ _ toBeSentMessageId])
  then have "w' \<noteq> sample_established 7 [1]" by auto
  with session_counters_over_runs [OF run ctx] run show ?thesis by blast
qed

text \<open>C5: A rejected message changes nothing that matters: whatever error \<open>smpProcessMessage\<close> leaves
  with, in any world, the ids, the credentials and both counters of the session are as before.\<close>

theorem rejected_message_keeps_session:
  assumes "smpProcessMessage C T role msg w = (Inl e, w')" and "smp_ctx w = Some s"
  shows "\<exists>t. smp_ctx w' = Some t \<and> session_core t = session_core s"
  using process_moves [OF assms] by metis

theorem rejected_message_keeps_session_witness:
  "\<exists>t e w'. smpProcessMessage rfc7049 sample_tom SMP_MQTTS_BROKER (Some [1]) (sample_established 9 [2]) = (Inl e, w') \<and>
     smp_ctx w' = Some t \<and> session_core t = session_core sample_session"
proof -
  let ?w = "sample_established 9 [2]"
  have e: "calm ?w" "smp_ctx ?w = Some sample_session"
    using sample_is_established [of 9 "[2]"] by (auto simp: established_def)
  have "wosMsgUnpackSmpHeaderFromSmpMsg rfc7049 (Some [1]) (Some 32) ?w
      = (Inl (Code WOS_MSG_ERROR_BAD_FORMAT), ?w)"
    by (simp add: wosMsgUnpackSmpHeaderFromSmpMsg_def comp_defs rfc7049_def)
  then have "smpProcessMessage rfc7049 sample_tom SMP_MQTTS_BROKER (Some [1]) ?w = (Inl (Code WCL_ERROR), ?w)"
    using e by (simp add: smpProcessMessage_def comp_defs WCL_SMP_CLIENT_ID_LENGTH_def)
  from rejected_message_keeps_session [OF this e(2)] this show ?thesis by blast
qed



text \<open>C7: The certificate check decides chain validity: for at most three certificates the data is
  accepted exactly when root and certificates can be read, the root signed itself, every further
  certificate was issued and signed by the one before, versions agree, and the last key verifies
  the data's signature; in a calm world nothing changes.\<close>

theorem certificate_check_decides:
  assumes "calm w" and "n \<le> length certs"
  shows "wosCertValidateData C T root n (Some certs) d sig w = (Inr (), w') \<longleftrightarrow>
    w' = w \<and> WOS_IS_VALID_BUFFER root \<and> n \<le> WOS_CERT_CHAIN_LIMIT \<and>
    (\<exists>chain. list_all2 (reads_cert C w) (root # rev (take n certs)) chain \<and> valid_chain T chain \<and>
       signed_by T (pSubjectPubKey (pTbs (last chain))) d sig)"
  by (rule validate_data_iff [OF assms])

lemma sample_chain_reads:
  assumes "calm w"
  shows "\<exists>chain. list_all2 (reads_cert rfc7049 w)
      (Some (sample_cert root_name root_name 5 5) # rev (take 1 [Some (sample_cert root_name client_name 7 5)])) chain \<and>
    valid_chain sample_tom chain \<and>
    signed_by sample_tom (pSubjectPubKey (pTbs (last chain))) (Some [1, 2]) (Some (sample_sign 7 [1, 2]))"
proof -
  have ok: "root_name \<noteq> []" "length root_name \<le> 20" "0 \<notin> set root_name"
    "client_name \<noteq> []" "length client_name \<le> 20" "0 \<notin> set client_name"
    by (simp_all add: root_name_def client_name_def)
  note rr = sample_reads(1) [OF ok(1) ok(1) ok(2) ok(2) ok(3) ok(3) assms, of 5 5]
  note cr = sample_reads(1) [OF ok(1) ok(4) ok(2) ok(5) ok(3) ok(6) assms, of 7 5]
  show ?thesis
    using rr cr
    by (intro exI [of _ "[\<lparr>pContainer = sample_container root_name root_name 5 5, pTbs = sample_tbs root_name root_name 5\<rparr>,
        \<lparr>pContainer = sample_container root_name client_name 7 5, pTbs = sample_tbs root_name client_name 7\<rparr>]"])
      (simp add: valid_chain_def issued_def sample_container_def Let_def sample_tbs_def sample_signed)
qed

theorem certificate_check_decides_witness:
  "wosCertValidateData rfc7049 sample_tom (Some (sample_cert root_name root_name 5 5)) 1
     (Some [Some (sample_cert root_name client_name 7 5)]) (Some [1, 2]) (Some (sample_sign 7 [1, 2]))
     (sample_world 0) = (Inr (), sample_world 0)"
  by (subst certificate_check_decides)
    (use sample_chain_reads [OF calm_sample_world] in \<open>simp_all add: WOS_CERT_CHAIN_LIMIT_def sample_cert_def\<close>)

text \<open>C8: Opening a session makes a machine ready: with the library's credentials in the storage and
  a peer certificate that chains to the root, \<open>wclSmpOpen\<close> succeeds, and when the three random
  ids are distinct the machine is ready for the handshake of C1 (key pair stored under the first
  two ids, ids usable as storage keys although each id overwrites the NUL of the one before).\<close>

theorem opened_session_is_ready:
  fixes w :: "('p, 'z) smp_world_scheme"
  assumes "calm w" and "tom_law T"
    and "holds_key w gSelfPrivKeyStorageId priv" and "key_pair T k0 priv ownpub"
    and "holds_key w gSelfCertStorageId cert" and "length cert < 2 ^ 30"
    and "holds_key w gRootCaStorageId root" and "reads_cert C w (Some root) rc"
    and "reads_cert C w (Some peercert) pc" and "valid_chain T [rc, pc]"
    and "pSubjectPubKey (pTbs pc) = Some peerpub"
  shows "\<exists>w' r1 r2 r3 k pub. wclSmpOpen T w = (Inr Session, w') \<and>
    smp_ctx w' = Some (new_session (gSelfCertChainSize w) r1 r2 r3) \<and>
    (distinct [r1, r2, r3] \<longrightarrow>
       ready C T w' (new_session (gSelfCertChainSize w) r1 r2 r3) k pub (cert, ownpub) (peercert, peerpub))"
  using open_calm [OF assms] by metis

theorem opened_session_is_ready_witness:
  "\<exists>w' r1 r2 r3 k pub. wclSmpOpen sample_tom (sample_machine 7 (sample_cert root_name client_name 7 5) 3)
      = (Inr Session, w') \<and>
    smp_ctx w' = Some (new_session (gSelfCertChainSize (sample_machine 7 (sample_cert root_name client_name 7 5) 3)) r1 r2 r3) \<and>
    (distinct [r1, r2, r3] \<longrightarrow>
       ready rfc7049 sample_tom w'
         (new_session (gSelfCertChainSize (sample_machine 7 (sample_cert root_name client_name 7 5) 3)) r1 r2 r3) k pub
         (sample_cert root_name client_name 7 5, sample_pub 7) (sample_cert root_name broker_name 9 5, sample_pub 9))"
proof -
  let ?w = "sample_machine 7 (sample_cert root_name client_name 7 5) 3"
  have calm: "calm ?w" by (simp add: sample_machine_def calm_def)
  have ok: "root_name \<noteq> []" "length root_name \<le> 20" "0 \<notin> set root_name"
    "client_name \<noteq> []" "length client_name \<le> 20" "0 \<notin> set client_name"
    "broker_name \<noteq> []" "length broker_name \<le> 20" "0 \<notin> set broker_name"
    by (simp_all add: root_name_def client_name_def broker_name_def)
  note rr = sample_reads(1) [OF ok(1) ok(1) ok(2) ok(2) ok(3) ok(3) calm, of 5 5]
  note br = sample_reads(1) [OF ok(1) ok(7) ok(2) ok(8) ok(3) ok(9) calm, of 9 5]
  note cl = sample_reads(2) [OF ok(1) ok(4) ok(2) ok(5) ok(3) ok(6) calm, of 7 5]
  have r: "length (replicate 16 (1 :: byte)) = 16" "length (replicate 16 (2 :: byte)) = 16" by simp_all
  note nc = hex_not_cred [OF r(1)] hex_not_cred [OF r(2)]
  have keys: "holds_key ?w gSelfPrivKeyStorageId [7]"
    "holds_key ?w gSelfCertStorageId (sample_cert root_name client_name 7 5)"
    "holds_key ?w gRootCaStorageId (sample_cert root_name root_name 5 5)"
    using nc nc [symmetric] cred_names_differ cred_names_differ [symmetric]
    by (auto simp: holds_key_def sample_machine_def cred_strings root_cert_def sample_cert_def)
  have chain: "valid_chain sample_tom
      [\<lparr>pContainer = sample_container root_name root_name 5 5, pTbs = sample_tbs root_name root_name 5\<rparr>,
       \<lparr>pContainer = sample_container root_name broker_name 9 5, pTbs = sample_tbs root_name broker_name 9\<rparr>]"
    by (simp add: valid_chain_def issued_def sample_container_def Let_def sample_tbs_def sample_signed)
  have len: "length (sample_cert root_name client_name 7 5) < 2 ^ 30" using cl by simp
  show ?thesis
    by (rule opened_session_is_ready [OF calm tom_law_sample keys(1) sample_key_pair keys(2) len keys(3)
          rr br chain]) (simp add: sample_tbs_def)
qed

text \<open>C9: The last message can be replayed: a message that was accepted is accepted again as long as
  no later one arrived, because equal ids pass the check; the session ends up in the same state.\<close>

theorem last_message_is_replayable:
  fixes ws wr :: "('p, 'z) smp_world_scheme"
  assumes "cbor_law C" and "tom_law T" and "established ws s key" and "established wr r key"
    and "mtype \<in> set (control_types receiver)" and "lastReceivedMessageId r \<le> toBeSentMessageId s"
    and "pkt \<noteq> []" and "length pkt < 2 ^ 31"
  shows "\<exists>msg ws' wr'. wclSmpGetMessage C T (smp_peer receiver) Session mtype (Some pkt) ws = (Inr msg, ws') \<and>
    wclSmpProcessMessage C T receiver Session (Some msg) wr = (Inr (Some pkt), wr') \<and>
    (\<exists>wr''. wclSmpProcessMessage C T receiver Session (Some msg) wr' = (Inr (Some pkt), wr'') \<and>
       smp_ctx wr'' = smp_ctx wr')"
proof -
  have ty: "mtype \<in> set (sendable_types (smp_peer receiver))" "mtype \<noteq> 14"
    using control_types_sendable [OF assms(5)] by simp_all
  obtain msg ws' where m: "wclSmpGetMessage C T (smp_peer receiver) Session mtype (Some pkt) ws = (Inr msg, ws')"
      "secures C T (smp_peer receiver) key s mtype pkt msg"
    by (rule get_message_established [OF assms(1-3) ty assms(7,8)])
  have s: "session_ok s" using assms(3) by (simp add: established_def)
  obtain w1 where 1: "wclSmpProcessMessage C T receiver Session (Some msg) wr = (Inr (Some pkt), w1)"
      "established w1 (r\<lparr>lastReceivedMessageId := toBeSentMessageId s\<rparr>) key"
    by (rule process_message_established [OF assms(2,4) s assms(5,6) m(2) assms(7,8)])
  have le: "lastReceivedMessageId (r\<lparr>lastReceivedMessageId := toBeSentMessageId s\<rparr>) \<le> toBeSentMessageId s"
    by simp
  obtain w2 where 2: "wclSmpProcessMessage C T receiver Session (Some msg) w1 = (Inr (Some pkt), w2)"
      "established w2 (r\<lparr>lastReceivedMessageId := toBeSentMessageId s, lastReceivedMessageId := toBeSentMessageId s\<rparr>) key"
    by (rule process_message_established [OF assms(2) 1(2) s assms(5) le m(2) assms(7,8)])
  have "smp_ctx w2 = smp_ctx w1" using 1(2) 2(2) by (simp add: established_def)
  then show ?thesis using m(1) 1(1) 2(1) by blast
qed

theorem last_message_is_replayable_witness:
  "\<exists>msg ws' wr'. wclSmpGetMessage rfc7049 sample_tom (smp_peer SMP_MQTTS_CLIENT) Session
      WCL_SMP_MESSAGE_MQTTS_PUBLISH (Some [48, 5]) (sample_established 9 [1]) = (Inr msg, ws') \<and>
    wclSmpProcessMessage rfc7049 sample_tom SMP_MQTTS_CLIENT Session (Some msg)
      (sample_established 7 [2]) = (Inr (Some [48, 5]), wr') \<and>
    (\<exists>wr''. wclSmpProcessMessage rfc7049 sample_tom SMP_MQTTS_CLIENT Session (Some msg) wr'
       = (Inr (Some [48, 5]), wr'') \<and> smp_ctx wr'' = smp_ctx wr')"
  by (rule last_message_is_replayable [OF cbor_law_rfc7049 tom_law_sample sample_is_established
        sample_is_established])
    (simp_all add: control_types_def allowed_types_def sample_session_facts)

text \<open>Computations that only fail with dangling out-parameters (or in undefined behaviour): all that
  \<open>wosCryptoAeEncrypt\<close> does once the key is read and the tag's buffer is there.\<close>

definition dangles :: "('s, 'e, 'a) comp \<Rightarrow> bool" where
  "dangles m \<longleftrightarrow> (\<forall>s e s'. m s = (Inl e, s') \<longrightarrow> e = Fault \<or> (\<exists>c. e = Dangling c))"

lemma danglesD: "dangles m \<Longrightarrow> m s = (Inl e, s') \<Longrightarrow> e = Fault \<or> (\<exists>c. e = Dangling c)"
  unfolding dangles_def by blast

lemma dangles_bindE: "dangles m \<Longrightarrow> (\<And>x. dangles (k x)) \<Longrightarrow> dangles (bindE m k)"
  by (fastforce simp: dangles_def bindE_def split: prod.splits sum.splits)

lemma dangles_leaf:
  "dangles (ok x)" "dangles (alloc n (Dangling c))" "dangles (ensure b (Dangling c))"
  "dangles (pure_res (tom_try (Dangling d) r))"
  by (auto simp: dangles_def ok_def alloc_def ensure_def pure_res_def tom_try_def split: prod.splits option.splits sum.splits)

lemma dangles_on_error:
  "dangles (on_error (\<lambda>e. case e of Code c \<Rightarrow> Dangling c | _ \<Rightarrow> e) m)"
  by (auto simp: dangles_def on_error_def split: prod.splits sum.splits stop.splits)

lemma encrypt_dangles:
  fixes w :: "('p, 'z) smp_world_scheme"
  assumes "wosStorageRead kid w = (Inr (Some key), w3)" and "length key = 32"
    and "alloc 16 (Code WOS_CRYPTO_ERROR_OUT_OF_MEMORY) w3 = (Inr buf, w4)"
    and "fst (wosCryptoAeEncrypt T kid plain aad None w) = Inl e"
  shows "e = Fault \<or> (\<exists>c. e = Dangling c)"
proof -
  have id: "WOS_IS_VALID_STRING kid"
    using assms(1) by (auto simp: wosStorageRead_def comp_defs split: if_splits)
  let ?pt = "case plain of None \<Rightarrow> [] | Some b \<Rightarrow> b" and ?aad = "case aad of None \<Rightarrow> [] | Some b \<Rightarrow> b"
  let ?rest = "bindE (if length ?pt \<noteq> 0
        then bindE (alloc (length ?pt) (Dangling WOS_CRYPTO_ERROR_OUT_OF_MEMORY)) (\<lambda>_. ok ()) else ok ()) (\<lambda>_.
      bindE (bindE (alloc 16 (Dangling WOS_CRYPTO_ERROR_OUT_OF_MEMORY)) (\<lambda>_.
        bindE (alloc WOS_CRYPTO_AE_AES_GCM_IV_LENGTH (Dangling WOS_CRYPTO_ERROR_OUT_OF_MEMORY)) (\<lambda>_.
        on_error (\<lambda>e. case e of Code c \<Rightarrow> Dangling c | _ \<Rightarrow> e)
          (wosCryptoGetRandomBytes T (Some WOS_CRYPTO_AE_AES_GCM_IV_LENGTH))))) (\<lambda>iv.
      bindE (alloc 16 (Dangling WOS_CRYPTO_ERROR_OUT_OF_MEMORY)) (\<lambda>_.
      bindE (alloc WOS_CRYPTO_AE_AES_BLOCK_LENGTH (Dangling WOS_CRYPTO_ERROR_OUT_OF_MEMORY)) (\<lambda>_.
      bindE (ensure (\<not> find_cipher T < 0) (Dangling WOS_CRYPTO_ERROR)) (\<lambda>_.
      bindE (pure_res (tom_try (Dangling WOS_CRYPTO_ERROR)
          (gcm_encrypt T (find_cipher T) key iv ?aad ?pt WOS_CRYPTO_AE_AES_BLOCK_LENGTH))) (\<lambda>(cipherText, tag).
      ok (Some iv, Some cipherText, Some tag)))))))
    :: (('p, 'z) smp_world_scheme, crypto_error, wos_buffer \<times> wos_buffer \<times> wos_buffer) comp"
  have d: "dangles ?rest"
    by (intro dangles_bindE dangles_leaf dangles_on_error) (auto split: prod.splits intro: dangles_leaf dangles_bindE)
  have eq: "wosCryptoAeEncrypt T kid plain aad None w = ?rest w4"
    using assms(1-3) id by (simp add: wosCryptoAeEncrypt_def bindE_def on_error_def ensure_def crypto_lengths Let_def ok_def)
  obtain t where t: "wosCryptoAeEncrypt T kid plain aad None w = (Inl e, t)"
    using assms(4) by (cases "wosCryptoAeEncrypt T kid plain aad None w") simp
  show ?thesis by (rule danglesD [OF d]) (rule trans [OF eq [symmetric] t])
qed

text \<open>C10: DISCONNECT cannot be secured: in an established session the label table is read behind its
  end, so the call leaves the defined behaviour of C.\<close>

theorem disconnect_is_a_fault:
  fixes w :: "('p, 'z) smp_world_scheme"
  assumes "cbor_law C" and "established w s key" and "pkt \<noteq> []"
  shows "fst (wclSmpGetMessage C T SMP_MQTTS_CLIENT Session WCL_SMP_MESSAGE_MQTTS_DISCONNECT (Some pkt) w)
    = Inl Fault"
proof -
  have e: "calm w" "smp_ctx w = Some s" "session_ok s" "isSessionKeyEstablished s"
    using assms(2) by (auto simp: established_def)
  obtain hb where hb: "lSmpPackHeader C 14 w = (Inr hb, w)"
    by (rule pack_header_calm [OF e(1) assms(1) e(2,3)])
  have "label_bytes (labels_from SMP_MQTTS_CLIENT) 14 = Inl Fault"
    by (simp add: label_bytes_def gClientToBrokerMsgLabels_def)
  then have "smpSecureMessage C T SMP_MQTTS_CLIENT 14 (Some pkt) w = (Inl Fault, w)"
    using e hb assms(3) by (simp add: smpSecureMessage_def comp_defs)
  then show ?thesis
    using assms(3) by (subst get_message_control) (simp_all add: sendable_types_def)
qed

theorem disconnect_is_a_fault_witness:
  "fst (wclSmpGetMessage rfc7049 sample_tom SMP_MQTTS_CLIENT Session WCL_SMP_MESSAGE_MQTTS_DISCONNECT
     (Some [224, 0]) (sample_established 7 [1])) = Inl Fault"
  by (rule disconnect_is_a_fault [OF cbor_law_rfc7049 sample_is_established]) simp

text \<open>C11: A failed encryption makes securing a message free its buffers twice, in any world and
  whatever failed: once header, label and clear packet are put together, the session key was read
  and the buffer of the tag allocated, every failure of \<open>wosCryptoAeEncrypt\<close> - of a further
  allocation, of the random generator, of the cipher - frees the buffers and leaves the
  out-parameters pointing to them, and the exit path of \<open>smpSecureMessage\<close> frees them again.\<close>

theorem failed_encryption_double_free:
  fixes w :: "('p, 'z) smp_world_scheme"
  assumes "smp_ctx w = Some s" and "isSessionKeyEstablished s"
    and "mtype \<in> set (sendable_types role)" and "pkt \<noteq> []"
    and hb: "lSmpPackHeader C mtype w = (Inr hb, w1)"
    and lab: "label_bytes (labels_from role) mtype = Inr lab"
    and aad: "assemble ([hb, lab] @ (if mtype \<in> set encrypted_types then [] else [pkt])) w1 = (Inr aad, w2)"
    and key: "wosStorageRead (sessionSharedKeyStorageId s) w2 = (Inr (Some key), w3)" "length key = 32"
    and tag: "alloc 16 (Code WOS_CRYPTO_ERROR_OUT_OF_MEMORY) w3 = (Inr buf, w4)"
    and fails: "fst (wosCryptoAeEncrypt T (sessionSharedKeyStorageId s)
      (if mtype \<in> set encrypted_types then Some pkt else None) (Some aad) None w2) = Inl e"
  shows "fst (wclSmpGetMessage C T role Session mtype (Some pkt) w) = Inl Fault"
proof -
  have ty: "\<not> (mtype < 1 \<or> 14 < mtype)"
    using assms(3) by (cases role; auto simp: sendable_types_def)
  have "e = Fault \<or> (\<exists>c. e = Dangling c)" by (rule encrypt_dangles [OF key tag fails])
  then have "fst (smpSecureMessage C T role mtype (Some pkt) w) = Inl Fault"
    using assms(1,2,4) hb lab aad ty fails
    by (cases "wosCryptoAeEncrypt T (sessionSharedKeyStorageId s)
        (if mtype \<in> set encrypted_types then Some pkt else None) (Some aad) None w2")
      (auto simp: smpSecureMessage_def bindE_def get_ctx_def ensure_def ok_def pure_res_def on_error_def)
  then show ?thesis using get_message_control [OF assms(3,4), of C T w] by simp
qed

lemma bindE_fails:
  "(\<And>x t. \<exists>e. fst (k x t) = Inl e) \<Longrightarrow> \<exists>e. fst (bindE m k w) = Inl e"
  by (cases "m w") (auto simp: bindE_def split: sum.splits)

lemma gcm_fails:
  "gcm_encrypt T = (\<lambda>_ _ _ _ _ _. Inl 1) \<Longrightarrow>
   \<exists>e. fst (bindE (pure_res (tom_try d (gcm_encrypt T a key iv aad pt n))) k w) = Inl e"
  by (simp add: bindE_def pure_res_def tom_try_def)

theorem failed_encryption_double_free_witness:
  "fst (wclSmpGetMessage rfc7049 (sample_tom\<lparr>gcm_encrypt := (\<lambda>_ _ _ _ _ _. Inl 1)\<rparr>) SMP_MQTTS_CLIENT Session
     WCL_SMP_MESSAGE_MQTTS_PUBLISH (Some [48, 5]) (sample_established 7 [1])) = Inl Fault"
proof -
  let ?w = "sample_established 7 [1]" and ?T = "sample_tom\<lparr>gcm_encrypt := (\<lambda>_ _ _ _ _ _. Inl 1)\<rparr>"
  have c: "calm ?w" "smp_ctx ?w = Some sample_session" "session_ok sample_session"
      "isSessionKeyEstablished sample_session"
      "holds_key ?w (sessionSharedKeyStorageId sample_session) (replicate 32 9)"
    using sample_is_established [of 7 "[1]"] by (auto simp: established_def)
  obtain hb where hb: "lSmpPackHeader rfc7049 3 ?w = (Inr hb, ?w)" "hb \<noteq> []" "length hb \<le> 61"
    by (rule pack_header_calm [OF c(1) cbor_law_rfc7049 c(2,3)])
  obtain lab where lab: "label_bytes (labels_from SMP_MQTTS_CLIENT) 3 = Inr lab" "length lab \<le> 10"
    by (rule label_calm [of 3]) simp
  have aad: "assemble ([hb, lab] @ (if (3 :: byte) \<in> set encrypted_types then [] else [[48, 5]])) ?w
      = (Inr (hb @ lab @ (if (3 :: byte) \<in> set encrypted_types then [] else [48, 5])), ?w)"
    using assemble_calm [OF c(1), of "[hb, lab] @ (if (3 :: byte) \<in> set encrypted_types then [] else [[48, 5]])"]
      hb(2,3) lab(2) by auto
  note key = holds_keyD(2) [OF c(1,5)]
  have "\<exists>e. fst (wosCryptoAeEncrypt ?T (sessionSharedKeyStorageId sample_session) plain aad None ?w) = Inl e"
    for plain aad
    unfolding wosCryptoAeEncrypt_def Let_def by (rule gcm_fails, simp | rule bindE_fails)+
  then obtain e where e: "fst (wosCryptoAeEncrypt ?T (sessionSharedKeyStorageId sample_session)
      (if (3 :: byte) \<in> set encrypted_types then Some [48, 5] else None)
      (Some (hb @ lab @ (if (3 :: byte) \<in> set encrypted_types then [] else [48, 5]))) None ?w) = Inl e"
    by blast
  show ?thesis
    by (rule failed_encryption_double_free [OF c(2,4) _ _ hb(1) lab(1) aad key _ _ e])
      (use c(1) in \<open>simp_all add: sendable_types_def\<close>)
qed

end
