(* ===== verification/CodecProps.thy ===== *)
theory CodecProps
  imports SmpProps
begin

text \<open>
  The properties of the message formats: what the pack routines write is what the unpack routines
  of the peer read, and the size computed for a certificate is the size it has.
\<close>

text \<open>The cast to \<open>uint8_t\<close> and back keeps the low byte.\<close>

lemma low_byte: "(ucast (ucast (v :: 32 word) :: byte) :: 32 word) = v AND 255"
proof -
  have *: "(255 :: 32 word) = mask 8" by (simp add: mask_eq_exp_minus_1)
  show ?thesis unfolding * by (intro bit_word_eqI) (auto simp: bit_simps)
qed

text \<open>C12: Session establishment messages round-trip between the two roles: whatever valid
  parameters one side packs into a buffer that is large enough, the unpacking routine of the other
  role reads them back (the broker's message has no cipher scheme, so its reader sees scheme 0).\<close>

theorem se_message_round_trip:
  assumes "cbor_law C" and "calm w"
    and "WOS_IS_VALID_BUFFER (se_EncodedSmpHeader s)" and "WOS_IS_VALID_BUFFER (se_EccDhPubParams s)"
    and "WOS_IS_VALID_BUFFER (se_MqttPacket s)" and "WOS_IS_VALID_BUFFER (se_Signature s)"
    and "numCerts s \<noteq> 0" and "ppCerts s = Some certs" and "length certs = unat (numCerts s)"
    and "list_all WOS_IS_VALID_BUFFER certs"
    and "list_all item_ok (se_items role s)" and "array_length (se_items role s) \<le> cap"
  shows "\<exists>msg. wosMsgPackSmpMqttsSEMessage C role (Some s) (Some cap) = Inr msg \<and>
    length msg = array_length (se_items role s) \<and>
    wosMsgUnpackSmpMqttsSEMessage C (smp_peer role) (Some msg) w
      = (Inr (s\<lparr>cipherSchemeId := if role = SMP_MQTTS_CLIENT then cipherSchemeId s else 0\<rparr>), w)"
proof -
  obtain msg where msg: "encode_array C cap (se_items role s) = Inr msg"
      "length msg = array_length (se_items role s)" "decodes C msg (se_items role s)" "msg \<noteq> []"
    by (rule cbor_lawE [OF assms(1,11,12)])
  have "cap \<noteq> 0" using assms(12) by (auto simp: array_length_def)
  then have pack: "wosMsgPackSmpMqttsSEMessage C role (Some s) (Some cap) = Inr msg"
    using pack_se_encodes [OF assms(3-8), of cap C role] assms(9,10) msg(1) by (simp add: cbor_try_def)
  have some: "list_all (\<lambda>c. c \<noteq> None) certs"
    using assms(10) by (auto simp: list_all_iff valid_buffer_iff)
  obtain a b c d where bufs: "se_EncodedSmpHeader s = Some a" "se_EccDhPubParams s = Some b"
      "se_MqttPacket s = Some c" "se_Signature s = Some d"
    using assms(3-6) by (auto simp: valid_buffer_iff)
  from unpack_se_decodes [OF msg(3,4) assms(2) bufs assms(8,9) some assms(7)] pack msg(2)
  show ?thesis by simp
qed

definition sample_se :: se_params where
  "sample_se = \<lparr>se_EncodedSmpHeader = Some [1, 2], cipherSchemeId = 0, se_EccDhPubParams = Some [3],
     se_MqttPacket = Some [16, 0], se_Signature = Some [4], numCerts = 2, ppCerts = Some [Some [5], Some [6, 7]]\<rparr>"

theorem se_message_round_trip_witness:
  "\<exists>msg. wosMsgPackSmpMqttsSEMessage rfc7049 SMP_MQTTS_CLIENT (Some sample_se) (Some 64) = Inr msg \<and>
    length msg = array_length (se_items SMP_MQTTS_CLIENT sample_se) \<and>
    wosMsgUnpackSmpMqttsSEMessage rfc7049 (smp_peer SMP_MQTTS_CLIENT) (Some msg) (sample_world 0)
      = (Inr (sample_se\<lparr>cipherSchemeId := if SMP_MQTTS_CLIENT = SMP_MQTTS_CLIENT
           then cipherSchemeId sample_se else 0\<rparr>), sample_world 0)"
  by (rule se_message_round_trip [OF cbor_law_rfc7049 calm_sample_world, where certs = "[Some [5], Some [6, 7]]"])
    (simp_all add: sample_se_def se_items_def array_length_def head_length_def)

text \<open>C13: A certificate body is packed into exactly the size computed for it beforehand and read
  back with its ids and key; only the version suffers, the reader keeps its low eight bits
  although the field has 32.\<close>

theorem certificate_tbs_round_trip:
  assumes "cbor_law C" and "calm w" and "tbs_valid t"
    and "list_all item_ok (tbs_items t)" and "array_length (tbs_items t) < 2 ^ 32"
  shows "\<exists>l bs. wosCborCalcCertificateTbs (Some t) = Inr l \<and>
    wosCborPackCertificateTbs C (Some t) (Some (unat l)) = Inr bs \<and> length bs = unat l \<and>
    wosCborUnpackCertificateTbs C (Some bs) w
      = (Inr (t\<lparr>tbs_version := tbs_version t AND 255, issuerId := Some (c_string (the (issuerId t))),
                subjectId := Some (c_string (the (subjectId t)))\<rparr>), w)"
proof -
  obtain l where l: "wosCborCalcCertificateTbs (Some t) = Inr l" "unat l = array_length (tbs_items t)"
    using calc_tbs_exact [OF assms(3,5)] by blast
  obtain bs where bs: "encode_array C (unat l) (tbs_items t) = Inr bs" "length bs = array_length (tbs_items t)"
      "decodes C bs (tbs_items t)" "bs \<noteq> []"
    by (rule cbor_lawE [OF assms(1,4), of "unat l"]) (simp add: l(2))
  have "unat l \<noteq> 0" using l(2) by (simp add: array_length_def)
  then have "wosCborPackCertificateTbs C (Some t) (Some (unat l)) = Inr bs"
    using pack_tbs_encodes [OF assms(3), of "unat l" C] bs(1) by (simp add: cbor_try_def)
  moreover have "(ucast (ucast (tbs_version t) :: byte) :: 32 word) = tbs_version t AND 255"
    by (rule low_byte)
  ultimately show ?thesis
    using l bs(2) unpack_tbs_decodes [OF bs(3,4) assms(2,3)] by simp
qed

theorem certificate_tbs_round_trip_witness:
  "\<exists>l bs. wosCborCalcCertificateTbs (Some (sample_tbs root_name client_name 7)) = Inr l \<and>
    wosCborPackCertificateTbs rfc7049 (Some (sample_tbs root_name client_name 7)) (Some (unat l)) = Inr bs \<and>
    length bs = unat l \<and>
    wosCborUnpackCertificateTbs rfc7049 (Some bs) (sample_world 0)
      = (Inr (sample_tbs root_name client_name 7\<lparr>tbs_version := tbs_version (sample_tbs root_name client_name 7) AND 255,
            issuerId := Some (c_string (the (issuerId (sample_tbs root_name client_name 7)))),
            subjectId := Some (c_string (the (subjectId (sample_tbs root_name client_name 7))))\<rparr>), sample_world 0)"
proof (rule certificate_tbs_round_trip [OF cbor_law_rfc7049 calm_sample_world])
  have ok: "root_name \<noteq> []" "client_name \<noteq> []" "length root_name \<le> 20" "length client_name \<le> 20"
    "0 \<notin> set root_name" "0 \<notin> set client_name"
    by (simp_all add: root_name_def client_name_def)
  note t = sample_tbs_length [OF ok, of 7]
  show "tbs_valid (sample_tbs root_name client_name 7)"
    and "list_all item_ok (tbs_items (sample_tbs root_name client_name 7))"
    and "array_length (tbs_items (sample_tbs root_name client_name 7)) < 2 ^ 32"
    using t by simp_all
qed

end
