(* ===== verification/ServiceProps.thy ===== *)
theory ServiceProps
  imports CodecProps
begin

text \<open>
  The properties of the services below the session: keys and authenticated encryption, the
  constant-time comparison, the storage and the credentials.
\<close>

section \<open>Facts shared by the properties\<close>

text \<open>A fresh key pair, kept in the storage under two different ids.\<close>

lemma generated_keys_held:
  assumes "calm w" and "tom_law T" and "lWosStorageIsKeyValid pr" and "lWosStorageIsKeyValid pu"
    and "c_string (the pr) \<noteq> c_string (the pu)"
  obtains k priv pub w' where "wosCryptoEccGenerateKey T pr pu w = (Inr (), w')" and "key_pair T k priv pub"
    and "calm w'" and "holds_key w' pr priv" and "holds_key w' pu pub"
    and "w_files w' = (w_files w)(c_string (the pr) \<mapsto> priv, c_string (the pu) \<mapsto> pub)"
proof -
  obtain k priv pub p' where g: "wosCryptoEccGenerateKey T pr pu w
       = (Inr (), put_file (c_string (the pu)) pub (put_file (c_string (the pr)) priv (w\<lparr>w_prng := p'\<rparr>)))"
      "key_pair T k priv pub"
    by (rule generate_calm [OF assms(1-4)])
  have "priv \<noteq> []" "pub \<noteq> []" using g(2) by (auto simp: key_pair_def crypto_lengths)
  then show thesis
    using g assms by (intro that [OF g]) (simp_all add: holds_key_def)
qed

lemma held_key_verifies:
  assumes "calm w" and "lookup_law T" and "holds_key w i pub" and "length pub = 65" and "d \<noteq> []" and "sig \<noteq> []"
    and "hash_memory T (find_hash T) d WOS_CRYPTO_HASH_SHA256_LENGTH = Inr h"
    and "ecc_ansi_x963_import T pub = Inr q" and "ecc_verify_hash_rfc7518 T sig h q = Inr True"
  shows "wosCryptoEccVerify T i (Some d) (Some sig) w = (Inr WOS_CRYPTO_SIGNATURE_MATCH, w)"
proof -
  have "pub \<noteq> []" using assms(4) by auto
  then show ?thesis
    using assms hash_calm [OF assms(1,2,5,7)] holds_keyD(1) [OF assms(3)] holds_keyD(2) [OF assms(1,3)]
    by (simp add: wosCryptoEccVerify_def lWosCryptoEccSignVerify_def lWosCryptoEccImportKey_def
        check_signature_def tom_try_def comp_defs crypto_lengths)
qed

text \<open>A write, by the outcomes of its three library calls.\<close>

lemma write_steps:
  fixes w :: "('p, 'z) world_scheme"
  assumes "lWosStorageIsKeyValid key" and "b \<noteq> []"
  shows "wosStorageWrite key (Some b) w =
    (if \<not> w_faults w 0 then (Inl (Code WOS_STORAGE_ERROR_NOT_FOUND), w\<lparr>w_faults := (\<lambda>n. w_faults w (n + 1))\<rparr>)
     else if \<not> w_faults w 1 then (Inl (Code WOS_STORAGE_ERROR),
       put_file (c_string (the key)) (take (w_short w) b) (w\<lparr>w_faults := (\<lambda>n. w_faults w (n + 3))\<rparr>))
     else (Inr (), put_file (c_string (the key)) (if w_faults w 2 then b else take (w_short w) b)
       (w\<lparr>w_faults := (\<lambda>n. w_faults w (n + 3))\<rparr>)))"
proof -
  note v = key_valid_string [OF assms(1)]
  have lt: "libc_try e u = (if w_faults u 0 then Inr () else Inl e, u\<lparr>w_faults := (\<lambda>n. w_faults u (n + 1))\<rparr>)"
    for e :: "'e stop" and u :: "('p, 'z) world_scheme"
    by (simp add: libc_try_def libc_call_def)
  have pf: "put_file k d (u\<lparr>w_faults := f\<rparr>) = (put_file k d u)\<lparr>w_faults := f\<rparr>"
    "w_faults (put_file k d u) = w_faults u" "w_short (put_file k d u) = w_short u"
    for k d f and u :: "('p, 'z) world_scheme"
    by (simp_all add: put_file_def)
  show ?thesis
    using v assms
    by (cases "w_faults w 0"; cases "w_faults w 1"; cases "w_faults w 2")
      (simp_all add: wosStorageWrite_def comp_defs lt pf rescue_def ignore_def numeral_2_eq_2 numeral_3_eq_3)
qed

section \<open>Properties\<close>

text \<open>C14: A generated key pair works: generating, signing any data with the private key and
  verifying with the public key all go through and the signature matches.\<close>

theorem generated_keys_sign_and_verify:
  assumes "calm w" and "tom_law T" and "lWosStorageIsKeyValid pr" and "lWosStorageIsKeyValid pu"
    and "c_string (the pr) \<noteq> c_string (the pu)" and "d \<noteq> []"
  shows "\<exists>w1 sig w2. wosCryptoEccGenerateKey T pr pu w = (Inr (), w1) \<and>
    wosCryptoEccSign T pr (Some d) w1 = (Inr (Some sig), w2) \<and> length sig = 64 \<and>
    wosCryptoEccVerify T pu (Some d) (Some sig) w2 = (Inr WOS_CRYPTO_SIGNATURE_MATCH, w2)"
proof -
  obtain k priv pub w1 where g: "wosCryptoEccGenerateKey T pr pu w = (Inr (), w1)" "key_pair T k priv pub"
      "calm w1" "holds_key w1 pr priv" "holds_key w1 pu pub"
    by (rule generated_keys_held [OF assms(1-5)])
  obtain sig h p' q where s: "wosCryptoEccSign T pr (Some d) w1 = (Inr (Some sig), w1\<lparr>w_prng := p'\<rparr>)"
      "length sig = 64" "hash_memory T (find_hash T) d WOS_CRYPTO_HASH_SHA256_LENGTH = Inr h"
      "ecc_ansi_x963_import T pub = Inr q" "ecc_verify_hash_rfc7518 T sig h q = Inr True"
    by (rule sign_calm [OF g(3) assms(2) g(4,2) assms(6)])
  have "sig \<noteq> []" "length pub = 65" "lookup_law T"
    using s(2) g(2) assms(2) by (auto simp: key_pair_def crypto_lengths tom_law_def)
  then have "wosCryptoEccVerify T pu (Some d) (Some sig) (w1\<lparr>w_prng := p'\<rparr>)
      = (Inr WOS_CRYPTO_SIGNATURE_MATCH, w1\<lparr>w_prng := p'\<rparr>)"
    using held_key_verifies [of "w1\<lparr>w_prng := p'\<rparr>" T pu pub d sig h q] g(3,5) s assms(6) by simp
  with g(1) s(1,2) show ?thesis by blast
qed

theorem generated_keys_sign_and_verify_witness:
  "\<exists>w1 sig w2. wosCryptoEccGenerateKey sample_tom (Some (cstr ''priv'')) (Some (cstr ''pub'')) (sample_world 5) = (Inr (), w1) \<and>
    wosCryptoEccSign sample_tom (Some (cstr ''priv'')) (Some [1, 2, 3]) w1 = (Inr (Some sig), w2) \<and> length sig = 64 \<and>
    wosCryptoEccVerify sample_tom (Some (cstr ''pub'')) (Some [1, 2, 3]) (Some sig) w2
      = (Inr WOS_CRYPTO_SIGNATURE_MATCH, w2)"
  by (rule generated_keys_sign_and_verify [OF calm_sample_world tom_law_sample])
    (simp_all add: lWosStorageIsKeyValid_def cstr_def c_string_def)

text \<open>C15: Two machines that exchange public keys share a secret channel: after each derived its
  symmetric key from its own private key and the other's public key, what one encrypts with
  additional data the other decrypts to the plain text.\<close>

theorem derived_keys_open_channel:
  assumes "calm wa" and "calm wb" and "tom_law T"
    and "key_pair T ka priva puba" and "key_pair T kb privb pubb"
    and "holds_key wa pra priva" and "holds_key wb prb privb"
    and "lWosStorageIsKeyValid sa" and "lWosStorageIsKeyValid sb"
  shows "\<exists>wa1 wb1 iv c tag wa2. wosCryptoDeriveSymKey T (Some pubb) pra sa wa = (Inr (), wa1) \<and>
    wosCryptoDeriveSymKey T (Some puba) prb sb wb = (Inr (), wb1) \<and>
    wosCryptoAeEncrypt T sa (Some plain) (Some aad) None wa1 = (Inr (Some iv, Some c, Some tag), wa2) \<and>
    wosCryptoAeDecrypt T sb (Some c) (Some aad) (Some iv) (Some tag) wb1 = (Inr (Some plain), wb1)"
proof -
  have laws: "lookup_law T" "ecdh_law T" using assms(3) by (simp_all add: tom_law_def)
  obtain s1 s2 q1 q2 secret where e: "ecc_import T priva = Inr s1" "ecc_import T privb = Inr s2"
      "ecc_ansi_x963_import T puba = Inr q1" "ecc_ansi_x963_import T pubb = Inr q2"
      "ecc_shared_secret T s1 q2 WOS_CRYPTO_ECC_NIST_P256_SHARED_SECRET_LENGTH = Inr secret"
      "ecc_shared_secret T s2 q1 WOS_CRYPTO_ECC_NIST_P256_SHARED_SECRET_LENGTH = Inr secret"
      "length secret = 32"
    using laws(2) assms(4,5) unfolding ecdh_law_def crypto_lengths by metis
  have ne: "puba \<noteq> []" "pubb \<noteq> []" "secret \<noteq> []"
    using assms(4,5) e(7) by (auto simp: key_pair_def crypto_lengths)
  let ?wa = "put_file (c_string (the sa)) secret wa" and ?wb = "put_file (c_string (the sb)) secret wb"
  have da: "wosCryptoDeriveSymKey T (Some pubb) pra sa wa = (Inr (), ?wa)"
    by (rule derive_calm [OF assms(1,8,6) ne(2) e(1,4,5) ne(3)])
  have db: "wosCryptoDeriveSymKey T (Some puba) prb sb wb = (Inr (), ?wb)"
    by (rule derive_calm [OF assms(2,9,7) ne(1) e(2,3,6) ne(3)])
  have held: "calm ?wa" "holds_key ?wa sa secret" "calm ?wb" "holds_key ?wb sb secret"
    using assms ne(3) by (simp_all add: holds_key_def)
  obtain iv c tag p' where enc:
      "wosCryptoAeEncrypt T sa (Some plain) (Some aad) None ?wa = (Inr (Some iv, Some c, Some tag), ?wa\<lparr>w_prng := p'\<rparr>)"
      "length iv = 12" "length tag = 16" "gcm_decrypt T (find_cipher T) secret iv aad c 16 = Inr (plain, tag)"
    using encrypt_calm [OF held(1) assms(3) held(2) e(7), of "Some plain" "Some aad" thesis] by auto
  have "wosCryptoAeDecrypt T sb (Some c) (Some aad) (Some iv) (Some tag) ?wb = (Inr (Some plain), ?wb)"
    by (rule decrypt_encrypted [OF held(3) laws(1) held(4) e(7) enc(2-4)])
  with da db enc(1) show ?thesis by blast
qed

definition sample_pair_world :: "byte \<Rightarrow> nat world" where
  "sample_pair_world x = (sample_world 0)\<lparr>w_files := Map.empty(cstr ''priv'' \<mapsto> [x])\<rparr>"

theorem derived_keys_open_channel_witness:
  "\<exists>wa1 wb1 iv c tag wa2.
    wosCryptoDeriveSymKey sample_tom (Some (sample_pub 9)) (Some (cstr ''priv'')) (Some (cstr ''key'')) (sample_pair_world 7)
      = (Inr (), wa1) \<and>
    wosCryptoDeriveSymKey sample_tom (Some (sample_pub 7)) (Some (cstr ''priv'')) (Some (cstr ''key'')) (sample_pair_world 9)
      = (Inr (), wb1) \<and>
    wosCryptoAeEncrypt sample_tom (Some (cstr ''key'')) (Some [1, 2]) (Some [3]) None wa1
      = (Inr (Some iv, Some c, Some tag), wa2) \<and>
    wosCryptoAeDecrypt sample_tom (Some (cstr ''key'')) (Some c) (Some [3]) (Some iv) (Some tag) wb1
      = (Inr (Some [1, 2]), wb1)"
proof (rule derived_keys_open_channel [OF _ _ tom_law_sample sample_key_pair sample_key_pair])
  show "calm (sample_pair_world 7)" "calm (sample_pair_world 9)" by (simp_all add: sample_pair_world_def)
  show "holds_key (sample_pair_world 7) (Some (cstr ''priv'')) [7]"
    "holds_key (sample_pair_world 9) (Some (cstr ''priv'')) [9]"
    by (simp_all add: sample_pair_world_def holds_key_def lWosStorageIsKeyValid_def cstr_def c_string_def)
qed (simp_all add: lWosStorageIsKeyValid_def cstr_def c_string_def)

text \<open>C16: Decryption authenticates: with a usable key it hands out a plain text exactly when the
  tag the library computes over the message equals the given tag in length and in every byte
  (the comparison looks at all of them); otherwise the caller gets an error and no text.\<close>

theorem decryption_checks_every_tag_byte:
  assumes "calm w" and "lookup_law T" and "holds_key w i key" and "length key = 32"
    and "iv \<noteq> []" and "tag \<noteq> []" and "gcm_decrypt T (find_cipher T) key iv aad c 16 = Inr (plain, tag')"
  shows "wosCryptoAeDecrypt T i (Some c) (Some aad) (Some iv) (Some tag) w = (r, w') \<longleftrightarrow>
    w' = w \<and> r = (if length tag' = length tag \<and> (\<forall>j < length tag. tag' ! j = tag ! j)
                  then Inr (Some plain) else Inl (Dangling WOS_CRYPTO_ERROR))"
proof -
  have "tag' = tag \<longleftrightarrow> length tag' = length tag \<and> (\<forall>j < length tag. tag' ! j = tag ! j)"
    by (auto simp: list_eq_iff_nth_eq)
  then show ?thesis
    using decrypt_calm [OF assms(1-6), of "Some c" "Some aad"] assms(7) by auto
qed

theorem decryption_checks_every_tag_byte_witness:
  "wosCryptoAeDecrypt sample_tom (Some (cstr ''key'')) (Some [2, 3]) (Some [7]) (Some [4]) (Some (replicate 16 0))
      (sample_world 0\<lparr>w_files := Map.empty(cstr ''key'' \<mapsto> replicate 32 1)\<rparr>)
    = (Inl (Dangling WOS_CRYPTO_ERROR), sample_world 0\<lparr>w_files := Map.empty(cstr ''key'' \<mapsto> replicate 32 1)\<rparr>)"
proof -
  let ?w = "sample_world 0\<lparr>w_files := Map.empty(cstr ''key'' \<mapsto> replicate 32 1)\<rparr>"
  have tag: "sum_list (replicate 32 (1 :: byte)) = 32" by (simp add: sum_list_replicate)
  have "holds_key ?w (Some (cstr ''key'')) (replicate 32 1)"
    by (simp add: holds_key_def lWosStorageIsKeyValid_def cstr_def c_string_def)
  moreover have "gcm_decrypt sample_tom (find_cipher sample_tom) (replicate 32 1) [4] [7] [2, 3] 16
      = Inr ([1, 2], replicate 16 46)"
    using tag by (simp add: sample_tom_def sample_tag_def Let_def)
  moreover have "lookup_law sample_tom" using tom_law_sample by (simp add: tom_law_def)
  moreover have "\<exists>j. j < (16 :: nat)" by (rule exI [of _ 0]) simp
  ultimately show ?thesis
    using decryption_checks_every_tag_byte [of ?w sample_tom "Some (cstr ''key'')" "replicate 32 1" "[4]"
        "replicate 16 0" "[7]" "[2, 3]" "[1, 2]" "replicate 16 46"] by simp
qed

text \<open>What the files hold beside the map that the operations describe: prefixes of its data.\<close>

definition holds_prefixes :: "(bytes \<rightharpoonup> bytes) \<Rightarrow> (bytes \<rightharpoonup> bytes) \<Rightarrow> bool" where
  "holds_prefixes f m \<longleftrightarrow> (\<forall>k. (f k = None \<and> m k = None) \<or> (\<exists>n x. f k = Some (take n x) \<and> m k = Some x))"

lemma holds_prefixes_rules:
  "holds_prefixes f f" "holds_prefixes f m \<Longrightarrow> holds_prefixes (f(k \<mapsto> take n d)) (m(k \<mapsto> d))"
  "holds_prefixes f m \<Longrightarrow> holds_prefixes (f(k := None)) (m(k := None))"
proof -
  show "holds_prefixes f f"
    unfolding holds_prefixes_def by (metis option.exhaust order_refl take_all)
qed (auto simp: holds_prefixes_def)

lemma libc_try_files: "libc_try e w = (Inr x, w') \<Longrightarrow> w_files w' = w_files w"
  by (auto simp: libc_try_def libc_call_def split: bool.splits)

lemma file_write_prefix:
  assumes "file_write k d w = Some t"
  shows "\<exists>n. w_files t = (w_files w)(k \<mapsto> take n d)"
proof -
  have nul: "0 \<notin> set k" using assms by (auto simp: file_write_def split: if_splits)
  then have run: "wosStorageWrite (Some k) (Some d) w = (Inr (), t)"
    using assms by (auto simp: file_write_def on_success_def split: prod.splits sum.splits)
  then have ok: "lWosStorageIsKeyValid (Some k)" "d \<noteq> []"
    by (auto simp: wosStorageWrite_def comp_defs split: if_splits)
  let ?n = "if w_faults w 2 then length d else w_short w"
  have "w_files t = (w_files w)(k \<mapsto> take ?n d)"
    using run nul by (auto simp: write_steps [OF ok] put_file_def c_string_no_NUL split: if_splits)
  then show ?thesis by blast
qed

lemma file_delete_files:
  assumes "file_delete k w = Some t"
  shows "w_files t = (w_files w)(k := None)"
proof -
  have nul: "0 \<notin> set k" using assms by (auto simp: file_delete_def split: if_splits)
  then have "wosStorageDelete (Some k) w = (Inr (), t)"
    using assms by (auto simp: file_delete_def on_success_def split: prod.splits sum.splits)
  then show ?thesis
    using nul by (auto simp: wosStorageDelete_def succeeds modify_def c_string_no_NUL dest!: libc_try_files)
qed

lemma run_ops_prefixes:
  "fs.run_ops ops w = Some t \<Longrightarrow> holds_prefixes (w_files w) m \<Longrightarrow> holds_prefixes (w_files t) (fold apply_op ops m)"
proof (induction ops arbitrary: w m)
  case (Cons opn ops)
  obtain u where u: "fs.run_ops ops u = Some t" "holds_prefixes (w_files u) (apply_op opn m)"
  proof (cases opn)
    case (Put k d)
    then obtain u where w: "file_write k d w = Some u" "fs.run_ops ops u = Some t"
      using Cons.prems(1) by (auto split: option.splits)
    then obtain n where "w_files u = (w_files w)(k \<mapsto> take n d)" using file_write_prefix by blast
    then show thesis using Put w(2) Cons.prems(2) by (intro that [of u]) (simp_all add: holds_prefixes_rules)
  next
    case (Drop k)
    then obtain u where d: "file_delete k w = Some u" "fs.run_ops ops u = Some t"
      using Cons.prems(1) by (auto split: option.splits)
    then show thesis
      using Drop d(2) file_delete_files [OF d(1)] Cons.prems(2) by (intro that [of u]) (simp_all add: holds_prefixes_rules)
  qed
  from Cons.IH [OF this] show ?case by simp
qed simp

lemma read_file: "wosStorageRead i w = (Inr b, w') \<Longrightarrow> w_files w (c_string (the i)) = b"
  by (auto simp: wosStorageRead_def succeeds dest!: libc_try_files)

lemma stored_file: "stored k w = Some d \<Longrightarrow> w_files w k = Some d"
  by (cases "wosStorageRead (Some k) w")
    (auto simp: stored_def c_string_no_NUL dest: read_file split: if_splits sum.splits)

text \<open>C17: The file storage refines a map: after any sequence of writes and deletions that all report
  success, reading a key gives what the same updates give on a map when no library call fails; and
  whatever calls failed, the item that a read gives is a prefix of what the map holds (C18 says why
  it may be a proper one: the result of \<open>fclose\<close> is ignored).\<close>

theorem storage_refines_map:
  fixes w w' :: "('p, 'z) world_scheme"
  assumes "fs.run_ops ops w = Some w'"
  shows "(calm w \<longrightarrow> stored k w' = fold apply_op ops (\<lambda>j. stored j w) k) \<and>
    (\<forall>d. stored k w' = Some d \<longrightarrow> (\<exists>n x. fold apply_op ops (w_files w) k = Some x \<and> d = take n x))"
proof -
  have "holds_prefixes (w_files w) (w_files w)"
    by (rule holds_prefixes_rules)
  from run_ops_prefixes [OF assms this] have "\<exists>n x. fold apply_op ops (w_files w) k = Some x \<and> d = take n x"
    if "stored k w' = Some d" for d
    using stored_file [OF that] unfolding holds_prefixes_def by (metis option.distinct(1) option.inject)
  then show ?thesis using fs.run_ops_refines [OF _ assms] by metis
qed

theorem storage_refines_map_witness:
  "\<exists>w'. fs.run_ops [Put (cstr ''a'') [1], Put (cstr ''b'') [2], Put (cstr ''a'') [3], Drop (cstr ''b'')]
      (sample_world 0) = Some w' \<and> stored (cstr ''a'') w' = Some [3] \<and> stored (cstr ''b'') w' = None"
proof -
  let ?ops = "[Put (cstr ''a'') [1], Put (cstr ''b'') [2], Put (cstr ''a'') [3], Drop (cstr ''b'')]
    :: (bytes, bytes) storage_op list"
  have valid: "lWosStorageIsKeyValid (Some (cstr ''a''))" "lWosStorageIsKeyValid (Some (cstr ''b''))"
    "0 \<notin> set (cstr ''a'')" "0 \<notin> set (cstr ''b'')" "cstr ''a'' \<noteq> cstr ''b''"
    by (simp_all add: lWosStorageIsKeyValid_def cstr_def c_string_def)
  have wr: "calm w \<Longrightarrow> lWosStorageIsKeyValid (Some i) \<Longrightarrow> 0 \<notin> set i \<Longrightarrow> d \<noteq> [] \<Longrightarrow>
      file_write i d w = Some (put_file i d w)" for i d and w :: "nat world"
    by (simp add: file_write_def on_success_def write_calm c_string_no_NUL)
  have dl: "calm w \<Longrightarrow> lWosStorageIsKeyValid (Some i) \<Longrightarrow> 0 \<notin> set i \<Longrightarrow> w_files w i \<noteq> None \<Longrightarrow>
      file_delete i w = Some (w\<lparr>w_files := (w_files w)(i := None)\<rparr>)" for i and w :: "nat world"
    by (simp add: file_delete_def on_success_def delete_calm c_string_no_NUL)
  obtain w' where run: "fs.run_ops ?ops (sample_world 0) = Some w'"
    using valid by (simp add: wr dl)
  have calm: "calm (sample_world 0)" by (rule calm_sample_world)
  show ?thesis
    using storage_refines_map [OF run, of "cstr ''a''"] storage_refines_map [OF run, of "cstr ''b''"] calm run valid
    by auto
qed

text \<open>C18: Whatever fails during a write, the damage is confined to the written item: all other
  files stay, and the item is as before (then the write reported an error) or holds a prefix of
  the new data. The prefix may be shorter than the data although success was reported, because
  the result of \<open>fclose\<close> is ignored; when no call fails, the item holds all of it.\<close>

theorem write_damage_is_confined:
  assumes "wosStorageWrite key (Some b) w = (r, w')"
  shows "w_files w' = w_files w \<and> r \<noteq> Inr () \<or>
    (\<exists>n. w_files w' = (w_files w)(c_string (the key) \<mapsto> take n b) \<and> (calm w \<longrightarrow> r = Inr () \<and> take n b = b))"
proof (cases "lWosStorageIsKeyValid key \<and> b \<noteq> []")
  case True
  let ?n = "if w_faults w 1 \<and> w_faults w 2 then length b else w_short w"
  have "w_files w' = w_files w \<and> r \<noteq> Inr () \<or>
    w_files w' = (w_files w)(c_string (the key) \<mapsto> take ?n b) \<and> (calm w \<longrightarrow> r = Inr () \<and> take ?n b = b)"
    using assms True by (auto simp: write_steps calm_def split: if_splits)
  then show ?thesis by blast
next
  case False
  then show ?thesis using assms by (auto simp: wosStorageWrite_def comp_defs split: if_splits)
qed

theorem write_damage_is_confined_witness:
  "let w = sample_world 0\<lparr>w_faults := (\<lambda>n. n \<noteq> 2), w_files := Map.empty(cstr ''k'' \<mapsto> [9])\<rparr>
   in \<exists>w' n. wosStorageWrite (Some (cstr ''k'')) (Some [1, 2]) w = (Inr (), w') \<and>
        w_files w' = (w_files w)(cstr ''k'' \<mapsto> take n [1, 2]) \<and> w_files w' (cstr ''k'') = Some []"
proof -
  let ?w = "sample_world 0\<lparr>w_faults := (\<lambda>n. n \<noteq> 2), w_files := Map.empty(cstr ''k'' \<mapsto> [9])\<rparr>"
  have k: "c_string (cstr ''k'') = cstr ''k''" "lWosStorageIsKeyValid (Some (cstr ''k''))"
    by (simp_all add: lWosStorageIsKeyValid_def cstr_def c_string_def)
  obtain w' where run: "wosStorageWrite (Some (cstr ''k'')) (Some [1, 2]) ?w = (Inr (), w')"
      "w_files w' (cstr ''k'') = Some []"
    using k by (simp add: write_steps sample_world_def)
  from write_damage_is_confined [OF run(1)] run k(1) show ?thesis by (auto simp: Let_def)
qed

text \<open>C19: Starting and ending the library: with the three configuration files present, starting
  leaves each credential in the storage (the stored one wins over the file) and touches no other
  file and no session; ending then removes exactly the three credentials.\<close>

theorem library_start_and_end:
  fixes w :: "('p, 'z) smp_world_scheme"
  assumes "calm w" and "config_files_ok (w_files w)"
    and "0 \<le> register_hash T" and "0 \<le> register_cipher T" and "0 \<le> register_prng T"
    and "\<forall>p. \<exists>p'. rng_make_prng T 128 (find_prng T) p = Inr p'"
  shows "\<exists>w1 w2. wclInit T w = (Inr (), w1) \<and> w_files w1 = creds_loaded (w_files w) \<and> smp_ctx w1 = smp_ctx w \<and>
    wclTerminate T w1 = (Inr (), w2) \<and>
    w_files w2 = (w_files w)(cstr ''root_ca'' := None, cstr ''self_cert'' := None, cstr ''self_key'' := None)"
proof -
  obtain p' where p': "rng_make_prng T 128 (find_prng T) (w_prng w) = Inr p'" using assms(6) by blast
  let ?w = "w\<lparr>w_prng := p'\<rparr>"
  have cr: "wosCryptoInitialize T w = (Inr (), ?w)"
    using assms p' by (simp add: wosCryptoInitialize_def comp_defs tom_try_def WOS_CRYPTO_PRNG_INITIAL_ENTROPY_def)
  obtain w1 where w1: "smpInitGlobalCreds ?w = (Inr (), w1)" "calm w1"
      "w_files w1 = creds_loaded (w_files ?w)" "smp_ctx w1 = smp_ctx ?w"
    using init_creds_calm [of ?w thesis] assms(1,2) by auto
  have init: "wclInit T w = (Inr (), w1)"
    using cr w1(1) by (simp add: wclInit_def smpInit_def comp_defs rescue_def)
  obtain q where q: "ignore (wosCryptoTerminate T) w1 = (Inr () :: wcl_error stop + unit, w1\<lparr>w_prng := q\<rparr>)"
    by (cases "fortuna_done T (w_prng w1)")
      (auto simp: wosCryptoTerminate_def ignore_def comp_defs tom_try_def intro: that [of "w_prng w1"])
  have calm: "calm (w1\<lparr>w_prng := q\<rparr>)" using w1(2) by simp
  have end_smp: "ignore smpDeInitGlobalCreds (w1\<lparr>w_prng := q\<rparr>) = (Inr () :: wcl_error stop + unit, w1\<lparr>w_prng := q,
      w_files := (w_files w1)(cstr ''root_ca'' := None, cstr ''self_cert'' := None, cstr ''self_key'' := None)\<rparr>)"
    using deinit_creds_calm [OF calm] by (simp add: ignore_def)
  have "wclTerminate T w1 = (Inr (), w1\<lparr>w_prng := q, w_files := (w_files w1)(cstr ''root_ca'' := None,
      cstr ''self_cert'' := None, cstr ''self_key'' := None)\<rparr>)"
    by (simp add: wclTerminate_def smpTerminate_def bindE_def q end_smp)
  then show ?thesis
    using init w1(3,4) by (intro exI conjI) (auto simp: creds_loaded_def cred_names_differ)
qed

theorem library_start_and_end_witness:
  "\<exists>w1 w2. wclInit sample_tom (sample_machine 7 client_cert 3
        \<lparr>w_files := Map.empty(cstr ''root.wcr'' \<mapsto> [1], cstr ''self.wcr'' \<mapsto> [2], cstr ''self.key'' \<mapsto> [3])\<rparr>) = (Inr (), w1) \<and>
    w_files w1 (cstr ''self_cert'') = Some [2] \<and> wclTerminate sample_tom w1 = (Inr (), w2) \<and>
    w_files w2 (cstr ''self_cert'') = None"
proof -
  let ?f = "Map.empty(cstr ''root.wcr'' \<mapsto> [1], cstr ''self.wcr'' \<mapsto> [2], cstr ''self.key'' \<mapsto> [3])
    :: bytes \<Rightarrow> bytes option"
  let ?w = "sample_machine 7 client_cert 3\<lparr>w_files := ?f\<rparr>"
  have names: "cstr ''root.wcr'' \<noteq> cstr ''self.wcr''" "cstr ''self.wcr'' \<noteq> cstr ''self.key''"
    "cstr ''root.wcr'' \<noteq> cstr ''self.key''" "cstr ''self_cert'' \<noteq> cstr ''root.wcr''"
    "cstr ''root_ca'' \<noteq> cstr ''root.wcr''" "cstr ''self_key'' \<noteq> cstr ''root.wcr''"
    "cstr ''self_key'' \<noteq> cstr ''self.wcr''"
    by (simp_all add: cstr_def)
  have calm: "calm ?w" by (simp add: sample_machine_def calm_def)
  have ok: "config_files_ok (w_files ?w)"
    using names names [symmetric] cred_names_differ by (auto simp: config_files_ok_def)
  have reg: "0 \<le> register_hash sample_tom" "0 \<le> register_cipher sample_tom" "0 \<le> register_prng sample_tom"
    "\<forall>p. \<exists>p'. rng_make_prng sample_tom 128 (find_prng sample_tom) p = Inr p'"
    by (simp_all add: sample_tom_def)
  have "creds_loaded ?f (cstr ''self_cert'') = Some [2]"
    using names names [symmetric] cred_names_differ by (simp add: creds_loaded_def item_after_def)
  with library_start_and_end [OF calm ok reg] cred_names_differ show ?thesis by auto
qed

end
