(* ===== verification/MosqBase.thy ===== *)
theory MosqBase
  imports Prelude
begin

text \<open>
  Shared by the mosquitto components: the error codes of \<open>lib/mosquitto.h\<close> (\<open>MOSQ_ERR_SUCCESS\<close>
  is the outcome \<open>Inr\<close>) and reading a byte of a memory region, where an index behind the region
  is a fault.
\<close>

datatype mosq_err =
    MOSQ_ERR_CONN_PENDING
  | MOSQ_ERR_NOMEM
  | MOSQ_ERR_PROTOCOL
  | MOSQ_ERR_INVAL
  | MOSQ_ERR_NO_CONN
  | MOSQ_ERR_CONN_REFUSED
  | MOSQ_ERR_NOT_FOUND
  | MOSQ_ERR_CONN_LOST
  | MOSQ_ERR_TLS
  | MOSQ_ERR_PAYLOAD_SIZE
  | MOSQ_ERR_NOT_SUPPORTED
  | MOSQ_ERR_AUTH
  | MOSQ_ERR_ACL_DENIED
  | MOSQ_ERR_UNKNOWN
  | MOSQ_ERR_ERRNO
  | MOSQ_ERR_EAI
  | MOSQ_ERR_PROXY
  | MOSQ_ERR_PLUGIN_DEFER
  | MOSQ_ERR_MALFORMED_UTF8
  | MOSQ_ERR_KEEPALIVE
  | MOSQ_ERR_LOOKUP

definition peek :: "bytes \<Rightarrow> nat \<Rightarrow> (mosq_err, byte) res" where
  "peek m i = (if i < length m then Inr (m ! i) else Inl Fault)"

lemma peek_inside [simp]: "i < length m \<Longrightarrow> peek m i = Inr (m ! i)"
  by (simp add: peek_def)

lemma peek_outside [simp]: "length m \<le> i \<Longrightarrow> peek m i = Inl Fault"
  by (simp add: peek_def)

lemma bindR_Inr [simp]: "bindR (Inr x) k = k x"
  by (simp add: bindR_def)

lemma bindR_Inl [simp]: "bindR (Inl e) k = Inl e"
  by (simp add: bindR_def)

lemma bindR_assoc: "bindR (bindR r k) f = bindR r (\<lambda>x. bindR (k x) f)"
  by (cases r) simp_all

lemma bindR_eq_Inl: "bindR r k = Inl e \<longleftrightarrow> r = Inl e \<or> (\<exists>x. r = Inr x \<and> k x = Inl e)"
  by (cases r) simp_all

lemma ensureR_eq [simp]:
  "ensureR b e = Inr u \<longleftrightarrow> b" "ensureR b e = Inl e' \<longleftrightarrow> \<not> b \<and> e' = e"
  by (auto simp: ensureR_def)

section \<open>Bytes as numbers\<close>

lemma byte_nat_less [simp]: "unat (b :: byte) < 256"
  using unsigned_less [of b] by simp

lemma unat_low_bits: "unat ((b :: byte) AND mask k) = unat b mod 2 ^ k"
  by (metis take_bit_eq_mask unsigned_take_bit_eq take_bit_eq_mod)

lemma unat_high_bits: "unat ((b :: byte) AND NOT (mask k)) = unat b div 2 ^ k * 2 ^ k"
proof -
  have "b AND NOT (mask k) = push_bit k (drop_bit k b)"
    by (intro bit_word_eqI) (auto simp: bit_simps)
  moreover have "unat (push_bit k (drop_bit k b)) = (unat b div 2 ^ k * 2 ^ k) mod 256"
    by (simp only: unsigned_push_bit_eq unat_drop_bit_eq)
      (simp add: push_bit_eq_mult drop_bit_eq_div take_bit_eq_mod)
  moreover have "unat b div 2 ^ k * 2 ^ k < 256"
    using div_times_less_eq_dividend [of "unat b" "2 ^ k"] byte_nat_less [of b] by linarith
  ultimately show ?thesis by simp
qed

text \<open>Masking the high bits of a byte selects a range.\<close>

lemma high_bits_iff:
  assumes "m = NOT (mask k)"
  shows "(b :: byte) AND m = v \<longleftrightarrow> unat b div 2 ^ k * 2 ^ k = unat v"
  unfolding assms word_unat_eq_iff unat_high_bits ..

end
