(* ===== verification/Utf8.thy ===== *)
theory Utf8
  imports MosqBase
begin

text \<open>
  \<open>mosquitto-1.5.2/lib/utf8_mosq.c\<close>: the check every topic, client id and user name passes.

  \<open>mem\<close> is the memory behind the pointer; it may be longer than \<open>len\<close>, and the code may read
  behind \<open>len\<close>. The result is compared with the encoding of Unicode scalar values of RFC 3629.
\<close>

section \<open>The code\<close>

text \<open>The length and the payload bits announced by a lead byte.\<close>

definition utf8_lead :: "byte \<Rightarrow> (mosq_err, nat \<times> 32 word) res" where
  "utf8_lead b =
     (if b = 0 then Inl (Code MOSQ_ERR_MALFORMED_UTF8)
      else if b \<le> 0x7f then Inr (1, ucast b)
      else if b AND 0xE0 = 0xC0 then
        (if b = 0xC0 \<or> b = 0xC1 then Inl (Code MOSQ_ERR_MALFORMED_UTF8) else Inr (2, ucast (b AND 0x1F)))
      else if b AND 0xF0 = 0xE0 then Inr (3, ucast (b AND 0x0F))
      else if b AND 0xF8 = 0xF0 then
        (if 0xF4 < b then Inl (Code MOSQ_ERR_MALFORMED_UTF8) else Inr (4, ucast (b AND 0x07)))
      else Inl (Code MOSQ_ERR_MALFORMED_UTF8))"

text \<open>The loop over the continuation bytes: \<open>n\<close> more of them behind index \<open>i\<close>.\<close>

fun utf8_tail :: "bytes \<Rightarrow> nat \<Rightarrow> nat \<Rightarrow> 32 word \<Rightarrow> (mosq_err, nat \<times> 32 word) res" where
  "utf8_tail mem i 0 codepoint = Inr (i, codepoint)"
| "utf8_tail mem i (Suc n) codepoint =
     bindR (peek mem (Suc i)) (\<lambda>b.
     if b AND 0xC0 \<noteq> 0x80 then Inl (Code MOSQ_ERR_MALFORMED_UTF8)
     else utf8_tail mem (Suc i) n (push_bit 6 codepoint OR ucast (b AND 0x3F)))"

text \<open>One round of the outer loop, up to its \<open>i++\<close>.\<close>

definition utf8_char :: "bytes \<Rightarrow> nat \<Rightarrow> nat \<Rightarrow> (mosq_err, nat) res" where
  "utf8_char mem len i =
     bindR (peek mem i) (\<lambda>b.
     bindR (utf8_lead b) (\<lambda>(codelen, codepoint0).
     bindR (ensureR (int i \<noteq> int len - int codelen + 1) (Code MOSQ_ERR_MALFORMED_UTF8)) (\<lambda>_.
     bindR (utf8_tail mem i (codelen - 1) codepoint0) (\<lambda>(j, codepoint).
     bindR (ensureR (\<not> (0xD800 \<le> codepoint \<and> codepoint \<le> 0xDFFF)) (Code MOSQ_ERR_MALFORMED_UTF8)) (\<lambda>_.
     bindR (ensureR (\<not> (codelen = 2 \<and> codepoint < 0x0080 \<or>
                        codelen = 3 \<and> codepoint < 0x0800 \<or>
                        codelen = 4 \<and> (codepoint < 0x10000 \<or> 0x10FFFF < codepoint)))
              (Code MOSQ_ERR_MALFORMED_UTF8)) (\<lambda>_.
     Inr (Suc j)))))))"

lemma utf8_tail_index: "utf8_tail mem i n cp = Inr (j, cp') \<Longrightarrow> j = i + n"
  by (induction mem i n cp rule: utf8_tail.induct) (auto simp: bindR_eq_Inr split: if_splits)

lemma utf8_char_advances: "utf8_char mem len i = Inr j \<Longrightarrow> i < j"
  by (auto simp: utf8_char_def bindR_eq_Inr dest!: utf8_tail_index split: prod.splits)

function utf8_from :: "bytes \<Rightarrow> nat \<Rightarrow> nat \<Rightarrow> (mosq_err, unit) res" where
  "utf8_from mem len i =
     (if i < len then case utf8_char mem len i of Inl e \<Rightarrow> Inl e | Inr j \<Rightarrow> utf8_from mem len j
      else Inr ())"
  by auto
termination
  by (relation "measure (\<lambda>(mem, len, i). len - i)") (auto dest: utf8_char_advances)

declare utf8_from.simps [simp del]

definition mosquitto_validate_utf8 :: "bytes option \<Rightarrow> int \<Rightarrow> (mosq_err, unit) res" where
  "mosquitto_validate_utf8 str len = (case str of
     None \<Rightarrow> Inl (Code MOSQ_ERR_INVAL)
   | Some mem \<Rightarrow>
       if len < 0 \<or> 65536 < len then Inl (Code MOSQ_ERR_INVAL) else utf8_from mem (nat len) 0)"

section \<open>RFC 3629\<close>

definition scalar :: "nat \<Rightarrow> bool" where
  "scalar c \<longleftrightarrow> 0 < c \<and> c \<le> 0x10FFFF \<and> \<not> (0xD800 \<le> c \<and> c \<le> 0xDFFF)"

definition utf8_enc :: "nat \<Rightarrow> bytes" where
  "utf8_enc c =
     map word_of_nat
      (if c < 0x80 then [c]
       else if c < 0x800 then [192 + c div 64, 128 + c mod 64]
       else if c < 0x10000 then [224 + c div 4096, 128 + c div 64 mod 64, 128 + c mod 64]
       else [240 + c div 262144, 128 + c div 4096 mod 64, 128 + c div 64 mod 64, 128 + c mod 64])"

definition utf8_wf :: "bytes \<Rightarrow> bool" where
  "utf8_wf s \<longleftrightarrow> (\<exists>cps. list_all scalar cps \<and> s = concat (map utf8_enc cps))"

section \<open>Bits as numbers\<close>

lemma continuation_iff: "(b :: byte) AND 0xC0 = 0x80 \<longleftrightarrow> 128 \<le> unat b \<and> unat b < 192"
proof -
  have "(0xC0 :: byte) = NOT (mask 6)" by (simp add: mask_eq_exp_minus_1)
  from high_bits_iff [OF this, of b] show ?thesis by (simp, linarith)
qed

lemma lead2_iff: "(b :: byte) AND 0xE0 = 0xC0 \<longleftrightarrow> 192 \<le> unat b \<and> unat b < 224"
proof -
  have "(0xE0 :: byte) = NOT (mask 5)" by (simp add: mask_eq_exp_minus_1)
  from high_bits_iff [OF this, of b] show ?thesis by (simp, linarith)
qed

lemma lead3_iff: "(b :: byte) AND 0xF0 = 0xE0 \<longleftrightarrow> 224 \<le> unat b \<and> unat b < 240"
proof -
  have "(0xF0 :: byte) = NOT (mask 4)" by (simp add: mask_eq_exp_minus_1)
  from high_bits_iff [OF this, of b] show ?thesis by (simp, linarith)
qed

lemma lead4_iff: "(b :: byte) AND 0xF8 = 0xF0 \<longleftrightarrow> 240 \<le> unat b \<and> unat b < 248"
proof -
  have "(0xF8 :: byte) = NOT (mask 3)" by (simp add: mask_eq_exp_minus_1)
  from high_bits_iff [OF this, of b] show ?thesis by (simp, linarith)
qed

lemma payload_bits:
  "unat ((b :: byte) AND 0x1F) = unat b mod 32" "unat (b AND 0x0F) = unat b mod 16"
  "unat (b AND 0x07) = unat b mod 8" "unat (b AND 0x3F) = unat b mod 64"
  using unat_low_bits [of b 5] unat_low_bits [of b 4] unat_low_bits [of b 3] unat_low_bits [of b 6]
  by (simp_all add: mask_eq_exp_minus_1)

lemma shift_in:
  assumes "unat (cp :: 32 word) < 2 ^ 26"
  shows "unat (push_bit 6 cp OR ucast ((b :: byte) AND 0x3F)) = unat cp * 64 + unat b mod 64"
proof -
  have m: "(0x3F :: byte) = mask 6" by (simp add: mask_eq_exp_minus_1)
  have "push_bit 6 cp AND ucast (b AND 0x3F) = 0"
    unfolding m by (intro bit_word_eqI) (auto simp: bit_simps)
  then have "push_bit 6 cp OR ucast (b AND 0x3F) = push_bit 6 cp + (ucast (b AND 0x3F) :: 32 word)"
    by (simp add: disjunctive_add_eq_or)
  moreover have "unat (push_bit 6 cp) = unat cp * 64"
    using assms by (simp only: unsigned_push_bit_eq) (simp add: push_bit_eq_mult take_bit_eq_mod)
  moreover have "unat (ucast (b AND 0x3F) :: 32 word) = unat b mod 64"
    by (simp add: payload_bits unsigned_ucast_eq take_bit_eq_mod)
  ultimately show ?thesis
    using assms by (simp add: unat_word_ariths)
qed

lemma lead_eq:
  "utf8_lead b =
     (if 1 \<le> unat b \<and> unat b < 128 then Inr (1, ucast b)
      else if 194 \<le> unat b \<and> unat b < 224 then Inr (2, ucast (b AND 0x1F))
      else if 224 \<le> unat b \<and> unat b < 240 then Inr (3, ucast (b AND 0x0F))
      else if 240 \<le> unat b \<and> unat b \<le> 244 then Inr (4, ucast (b AND 0x07))
      else Inl (Code MOSQ_ERR_MALFORMED_UTF8))"
proof -
  have z: "b = 0 \<longleftrightarrow> unat b = 0" by (simp add: unat_eq_0)
  have c0: "b = 0xC0 \<longleftrightarrow> unat b = 192" "b = 0xC1 \<longleftrightarrow> unat b = 193"
    by (simp_all add: word_unat_eq_iff)
  have le: "b \<le> 0x7f \<longleftrightarrow> unat b \<le> 127" "0xF4 < b \<longleftrightarrow> 244 < unat b"
    by (simp_all add: word_le_nat_alt word_less_nat_alt)
  show ?thesis
    unfolding utf8_lead_def lead2_iff lead3_iff lead4_iff z c0 le by auto
qed

lemma unat_ucast_byte [simp]: "unat (ucast (b :: byte) :: 32 word) = unat b"
proof -
  have "unat b < 2 ^ 32" by (rule order_less_le_trans [OF byte_nat_less]) simp
  then show ?thesis by (simp add: unsigned_ucast_eq take_bit_nat_eq_self)
qed

text \<open>The inner loop, by the values of the bytes it reads.\<close>

definition cont :: "byte \<Rightarrow> bool" where
  "cont b \<longleftrightarrow> 128 \<le> unat b \<and> unat b < 192"

definition shift_byte :: "32 word \<Rightarrow> byte \<Rightarrow> 32 word" where
  "shift_byte cp b = push_bit 6 cp OR ucast (b AND 0x3F)"

lemma unat_shift_byte [simp]:
  "unat cp < 2 ^ 26 \<Longrightarrow> unat (shift_byte cp b) = unat cp * 64 + unat b mod 64"
  by (simp only: shift_byte_def shift_in)

lemma tail_Suc:
  "utf8_tail mem i (Suc n) cp =
     (if \<not> Suc i < length mem then Inl Fault
      else if cont (mem ! Suc i) then utf8_tail mem (Suc i) n (shift_byte cp (mem ! Suc i))
      else Inl (Code MOSQ_ERR_MALFORMED_UTF8))"
  by (simp add: cont_def shift_byte_def continuation_iff)

lemma sextet: "k < 64 \<Longrightarrow> (x * 64 + k) div 64 = x" "k < 64 \<Longrightarrow> (x * 64 + k) mod 64 = k" for x k :: nat
  by simp_all

lemma enc2:
  assumes "k0 < 32" and "k1 < 64" and "128 \<le> k0 * 64 + k1"
  shows "utf8_enc (k0 * 64 + k1) = map word_of_nat [192 + k0, 128 + k1]"
proof -
  have "(k0 * 64 + k1) div 64 = k0" "(k0 * 64 + k1) mod 64 = k1" "k0 * 64 + k1 < 2048"
    using assms by simp_all
  then show ?thesis using assms(3) unfolding utf8_enc_def by simp
qed

lemma enc3:
  assumes "k0 < 16" and "k1 < 64" and "k2 < 64" and "2048 \<le> (k0 * 64 + k1) * 64 + k2"
  shows "utf8_enc ((k0 * 64 + k1) * 64 + k2) = map word_of_nat [224 + k0, 128 + k1, 128 + k2]"
proof -
  let ?v = "(k0 * 64 + k1) * 64 + k2"
  have d: "?v div 4096 = ?v div 64 div 64" by (simp add: div_mult2_eq [symmetric])
  have "?v div 4096 = k0" "?v div 64 mod 64 = k1" "?v mod 64 = k2"
    unfolding d sextet [OF assms(3)] sextet [OF assms(2)] by (rule refl)+
  moreover have "?v < 65536" using assms(1-3) by simp
  ultimately show ?thesis using assms(4) unfolding utf8_enc_def by simp
qed

lemma enc4:
  assumes "k0 < 8" and "k1 < 64" and "k2 < 64" and "k3 < 64" and "65536 \<le> ((k0 * 64 + k1) * 64 + k2) * 64 + k3"
  shows "utf8_enc (((k0 * 64 + k1) * 64 + k2) * 64 + k3)
    = map word_of_nat [240 + k0, 128 + k1, 128 + k2, 128 + k3]"
proof -
  let ?v = "((k0 * 64 + k1) * 64 + k2) * 64 + k3"
  have d: "?v div 262144 = ?v div 64 div 64 div 64" "?v div 4096 = ?v div 64 div 64"
    by (simp_all add: div_mult2_eq [symmetric])
  have "?v div 262144 = k0" "?v div 4096 mod 64 = k1" "?v div 64 mod 64 = k2" "?v mod 64 = k3"
    unfolding d sextet [OF assms(4)] sextet [OF assms(3)] sextet [OF assms(2)] by (rule refl)+
  then show ?thesis using assms(5) unfolding utf8_enc_def by simp
qed

text \<open>The check of one character, by what lies in memory from \<open>i\<close> on.\<close>

lemma range_checks:
  "(0xD800 :: 32 word) \<le> v \<longleftrightarrow> 0xD800 \<le> unat v" "v \<le> (0xDFFF :: 32 word) \<longleftrightarrow> unat v \<le> 0xDFFF"
  "v < (0x0080 :: 32 word) \<longleftrightarrow> unat v < 0x80" "v < (0x0800 :: 32 word) \<longleftrightarrow> unat v < 0x800"
  "v < (0x10000 :: 32 word) \<longleftrightarrow> unat v < 0x10000" "(0x10FFFF :: 32 word) < v \<longleftrightarrow> 0x10FFFF < unat v"
  by (simp_all add: word_le_nat_alt word_less_nat_alt)

definition char_ok :: "nat \<Rightarrow> nat \<Rightarrow> bool" where
  "char_ok n v \<longleftrightarrow> \<not> (0xD800 \<le> v \<and> v \<le> 0xDFFF) \<and> \<not> (n = 2 \<and> v < 0x80 \<or> n = 3 \<and> v < 0x800 \<or>
     n = 4 \<and> (v < 0x10000 \<or> 0x10FFFF < v))"

lemma char_Inr:
  "utf8_char mem len i = Inr j \<longleftrightarrow>
     i < length mem \<and>
     (\<exists>n cp0 cp k. utf8_lead (mem ! i) = Inr (n, cp0) \<and> int i \<noteq> int len - int n + 1 \<and>
        utf8_tail mem i (n - 1) cp0 = Inr (k, cp) \<and> char_ok n (unat cp) \<and> j = Suc k)"
  by (cases "i < length mem") (auto simp: utf8_char_def bindR_eq_Inr char_ok_def range_checks)

text \<open>A character is accepted only when the memory holds the encoding of a scalar value there.\<close>

lemma slice_nth:
  "i < length m \<Longrightarrow> take (Suc n) (drop i m) = m ! i # take n (drop (Suc i) m)"
  by (simp add: Cons_nth_drop_Suc [symmetric])

lemmas slices = slice_nth numeral_2_eq_2 numeral_3_eq_3 Suc_diff_le

lemma tail_small:
  "utf8_tail mem i 1 cp = utf8_tail mem i (Suc 0) cp" "utf8_tail mem i 2 cp = utf8_tail mem i (Suc (Suc 0)) cp"
  "utf8_tail mem i 3 cp = utf8_tail mem i (Suc (Suc (Suc 0))) cp"
  by (simp_all add: numeral_2_eq_2 numeral_3_eq_3)

lemma mod_offset: "k < m \<Longrightarrow> (q * m + k) mod m = k" for k m q :: nat
  by simp

lemma mods:
  "k < 64 \<Longrightarrow> (128 + k) mod 64 = k" "k < 32 \<Longrightarrow> (192 + k) mod 32 = k"
  "k < 16 \<Longrightarrow> (224 + k) mod 16 = k" "k < 8 \<Longrightarrow> (240 + k) mod 8 = k" for k :: nat
  using mod_offset [of k 64 2] mod_offset [of k 32 6] mod_offset [of k 16 14] mod_offset [of k 8 30] by simp_all

lemma contE:
  assumes "cont b" obtains k where "unat b = 128 + k" "k < 64" "unat b mod 64 = k" "word_of_nat (128 + k) = b"
proof -
  define k where "k = unat b - 128"
  have k: "unat b = 128 + k" "k < 64"
    using assms unfolding cont_def k_def by linarith+
  have "word_of_nat (128 + k) = b" unfolding k(1) [symmetric] by simp
  moreover have "unat b mod 64 = k" unfolding k(1) by (rule mods(1) [OF k(2)])
  ultimately show thesis using that k by blast
qed

lemma char_ok_scalar:
  "char_ok n v \<Longrightarrow> n = 2 \<or> n = 3 \<or> n = 4 \<Longrightarrow> n = 4 \<or> v < 65536 \<Longrightarrow> scalar v"
  by (auto simp: char_ok_def scalar_def)

lemma leadE:
  assumes "a + k = unat (b :: byte)" shows "word_of_nat (a + k) = b"
  unfolding assms by simp

lemma char_sound:
  assumes "utf8_char mem len i = Inr j"
  shows "\<exists>c. scalar c \<and> j \<le> length mem \<and> j = i + length (utf8_enc c) \<and> take (j - i) (drop i mem) = utf8_enc c"
proof -
  obtain n cp0 cp k where i: "i < length mem" and lead: "utf8_lead (mem ! i) = Inr (n, cp0)"
      and tail: "utf8_tail mem i (n - 1) cp0 = Inr (k, cp)" and ok: "char_ok n (unat cp)" and j: "j = Suc k"
    using assms unfolding char_Inr by blast
  define u where "u = unat (mem ! i)"
  consider "n = 1" "1 \<le> u" "u < 128" "cp0 = ucast (mem ! i)"
    | "n = 2" "194 \<le> u" "u < 224" "cp0 = ucast (mem ! i AND 0x1F)"
    | "n = 3" "224 \<le> u" "u < 240" "cp0 = ucast (mem ! i AND 0x0F)"
    | "n = 4" "240 \<le> u" "u \<le> 244" "cp0 = ucast (mem ! i AND 0x07)"
    using lead by (auto simp: lead_eq u_def split: if_splits)
  then show ?thesis
  proof cases
    case 1
    then have "utf8_enc u = [mem ! i]" "scalar u" by (simp_all add: utf8_enc_def scalar_def u_def)
    then show ?thesis using 1 tail j i by (intro exI [of _ u]) (simp add: slice_nth)
  next
    case 2
    define a where "a = u - 192"
    have a: "192 + a = u" "u mod 32 = a" "a < 32" using 2 by (simp_all add: a_def mod_if)
    have t: "Suc i < length mem" "cont (mem ! Suc i)" "k = Suc i" "cp = shift_byte cp0 (mem ! Suc i)"
      using tail 2 by (auto simp: tail_small tail_Suc simp del: utf8_tail.simps(2) split: if_splits)
    obtain b where b: "unat (mem ! Suc i) = 128 + b" "b < 64" "unat (mem ! Suc i) mod 64 = b"
        "word_of_nat (128 + b) = mem ! Suc i"
      by (rule contE [OF t(2)])
    have "unat cp0 = a" using 2 a by (simp add: payload_bits u_def)
    then have cp: "unat cp = a * 64 + b" using t(4) a(3) b(3) by simp
    have enc: "utf8_enc (unat cp) = [mem ! i, mem ! Suc i]"
      using enc2 [of a b] a b ok 2 leadE [of 192 a "mem ! i"] by (simp add: cp char_ok_def u_def)
    have "scalar (unat cp)" using char_ok_scalar [OF ok] 2 cp a b by simp
    then show ?thesis using enc t i j by (intro exI [of _ "unat cp"]) (simp add: slices)
  next
    case 3
    define a where "a = u - 224"
    have a: "224 + a = u" "u mod 16 = a" "a < 16" using 3 by (simp_all add: a_def mod_if)
    have t: "Suc (Suc i) < length mem" "cont (mem ! Suc i)" "cont (mem ! Suc (Suc i))" "k = Suc (Suc i)"
        "cp = shift_byte (shift_byte cp0 (mem ! Suc i)) (mem ! Suc (Suc i))"
      using tail 3 by (auto simp: tail_small tail_Suc simp del: utf8_tail.simps(2) split: if_splits)
    obtain b where b: "unat (mem ! Suc i) = 128 + b" "b < 64" "unat (mem ! Suc i) mod 64 = b"
        "word_of_nat (128 + b) = mem ! Suc i"
      by (rule contE [OF t(2)])
    obtain c where c: "unat (mem ! Suc (Suc i)) = 128 + c" "c < 64" "unat (mem ! Suc (Suc i)) mod 64 = c"
        "word_of_nat (128 + c) = mem ! Suc (Suc i)"
      by (rule contE [OF t(3)])
    have "unat cp0 = a" using 3 a by (simp add: payload_bits u_def)
    then have cp: "unat cp = (a * 64 + b) * 64 + c" using t(5) a(3) b(2,3) c(3) by simp
    have enc: "utf8_enc (unat cp) = [mem ! i, mem ! Suc i, mem ! Suc (Suc i)]"
      using enc3 [of a b c] a b c ok 3 leadE [of 224 a "mem ! i"] by (simp add: cp char_ok_def u_def)
    have "scalar (unat cp)" using char_ok_scalar [OF ok] 3 cp a b c by simp
    then show ?thesis using enc t i j by (intro exI [of _ "unat cp"]) (simp add: slices)
  next
    case 4
    define a where "a = u - 240"
    have a: "240 + a = u" "u mod 8 = a" "a < 8" using 4 by (simp_all add: a_def mod_if)
    have t: "Suc (Suc (Suc i)) < length mem" "cont (mem ! Suc i)" "cont (mem ! Suc (Suc i))"
        "cont (mem ! Suc (Suc (Suc i)))" "k = Suc (Suc (Suc i))"
        "cp = shift_byte (shift_byte (shift_byte cp0 (mem ! Suc i)) (mem ! Suc (Suc i))) (mem ! Suc (Suc (Suc i)))"
      using tail 4 by (auto simp: tail_small tail_Suc simp del: utf8_tail.simps(2) split: if_splits)
    obtain b where b: "unat (mem ! Suc i) = 128 + b" "b < 64" "unat (mem ! Suc i) mod 64 = b"
        "word_of_nat (128 + b) = mem ! Suc i"
      by (rule contE [OF t(2)])
    obtain c where c: "unat (mem ! Suc (Suc i)) = 128 + c" "c < 64" "unat (mem ! Suc (Suc i)) mod 64 = c"
        "word_of_nat (128 + c) = mem ! Suc (Suc i)"
      by (rule contE [OF t(3)])
    obtain d where d: "unat (mem ! Suc (Suc (Suc i))) = 128 + d" "d < 64"
        "unat (mem ! Suc (Suc (Suc i))) mod 64 = d" "word_of_nat (128 + d) = mem ! Suc (Suc (Suc i))"
      by (rule contE [OF t(4)])
    have "unat cp0 = a" using 4 a by (simp add: payload_bits u_def)
    then have cp: "unat cp = ((a * 64 + b) * 64 + c) * 64 + d" using t(6) a(3) b(2,3) c(2,3) d(3) by simp
    have enc: "utf8_enc (unat cp) = [mem ! i, mem ! Suc i, mem ! Suc (Suc i), mem ! Suc (Suc (Suc i))]"
      using enc4 [of a b c d] a b c d ok 4 leadE [of 240 a "mem ! i"] by (simp add: cp char_ok_def u_def)
    have "scalar (unat cp)" using char_ok_scalar [OF ok] 4 by simp
    then show ?thesis using enc t i j by (intro exI [of _ "unat cp"]) (simp add: slices)
  qed
qed

text \<open>Conversely, the encoding of a scalar value that fits before \<open>len\<close> is accepted.\<close>

lemma unat_small_byte: "n < 256 \<Longrightarrow> unat (word_of_nat n :: byte) = n"
  by (simp add: unsigned_of_nat take_bit_nat_eq_self)

lemma cont_byte: "k < 64 \<Longrightarrow> cont (word_of_nat (128 + k)) \<and> unat (word_of_nat (128 + k) :: byte) mod 64 = k"
proof -
  assume k: "k < 64"
  then have u: "unat (word_of_nat (128 + k) :: byte) = 128 + k" by (intro unat_small_byte) simp
  have "(128 + k) mod 64 = k" by (rule mods(1) [OF k])
  then show ?thesis unfolding cont_def u using k by simp
qed

lemma nth_from_drop:
  assumes "drop i m = x # xs"
  shows "i < length m" "m ! i = x" "drop (Suc i) m = xs"
proof -
  show "i < length m" using assms by (cases "i < length m") auto
  then show "m ! i = x" "drop (Suc i) m = xs" using assms by (simp_all add: Cons_nth_drop_Suc [symmetric])
qed

text \<open>What the check computes on a lead byte and its continuation bytes.\<close>

lemma decode2:
  assumes "drop i mem = word_of_nat (192 + a) # word_of_nat (128 + b) # r" and n: "2 \<le> a" "a < 32" "b < 64"
  obtains cp0 cp where "i < length mem" "utf8_lead (mem ! i) = Inr (2, cp0)"
    "utf8_tail mem i 1 cp0 = Inr (Suc i, cp)" "unat cp = a * 64 + b"
proof -
  note b0 = nth_from_drop [OF assms(1)]
  note b1 = nth_from_drop [OF b0(3)]
  have u0: "unat (mem ! i) = 192 + a" unfolding b0(2) using n by (intro unat_small_byte) simp
  have c0: "unat (ucast (mem ! i AND 0x1F) :: 32 word) = a" by (simp add: payload_bits u0 mods n)
  note u1 = cont_byte [OF n(3), folded b1(2)]
  show thesis
    using b0(1) b1(1) u0 u1 c0 n
    by (intro that [of "ucast (mem ! i AND 0x1F)" "shift_byte (ucast (mem ! i AND 0x1F)) (mem ! Suc i)"])
      (simp_all add: lead_eq tail_small tail_Suc del: utf8_tail.simps(2))
qed

lemma decode3:
  assumes "drop i mem = word_of_nat (224 + a) # word_of_nat (128 + b) # word_of_nat (128 + c) # r"
    and n: "a < 16" "b < 64" "c < 64"
  obtains cp0 cp where "i < length mem" "utf8_lead (mem ! i) = Inr (3, cp0)"
    "utf8_tail mem i 2 cp0 = Inr (Suc (Suc i), cp)" "unat cp = (a * 64 + b) * 64 + c"
proof -
  note b0 = nth_from_drop [OF assms(1)]
  note b1 = nth_from_drop [OF b0(3)]
  note b2 = nth_from_drop [OF b1(3)]
  have u0: "unat (mem ! i) = 224 + a" unfolding b0(2) using n by (intro unat_small_byte) simp
  have c0: "unat (ucast (mem ! i AND 0x0F) :: 32 word) = a" by (simp add: payload_bits u0 mods n)
  note u1 = cont_byte [OF n(2), folded b1(2)] cont_byte [OF n(3), folded b2(2)]
  show thesis
    using b0(1) b1(1) b2(1) u0 u1 c0 n
    by (intro that [of "ucast (mem ! i AND 0x0F)"
          "shift_byte (shift_byte (ucast (mem ! i AND 0x0F)) (mem ! Suc i)) (mem ! Suc (Suc i))"])
      (simp_all add: lead_eq tail_small tail_Suc del: utf8_tail.simps(2))
qed

lemma decode4:
  assumes "drop i mem = word_of_nat (240 + a) # word_of_nat (128 + b) # word_of_nat (128 + c) # word_of_nat (128 + d) # r"
    and n: "a < 5" "b < 64" "c < 64" "d < 64"
  obtains cp0 cp where "i < length mem" "utf8_lead (mem ! i) = Inr (4, cp0)"
    "utf8_tail mem i 3 cp0 = Inr (Suc (Suc (Suc i)), cp)" "unat cp = ((a * 64 + b) * 64 + c) * 64 + d"
proof -
  note b0 = nth_from_drop [OF assms(1)]
  note b1 = nth_from_drop [OF b0(3)]
  note b2 = nth_from_drop [OF b1(3)]
  note b3 = nth_from_drop [OF b2(3)]
  have u0: "unat (mem ! i) = 240 + a" unfolding b0(2) using n by (intro unat_small_byte) simp
  have "a < 8" using n(1) by simp
  then have c0: "unat (ucast (mem ! i AND 0x07) :: 32 word) = a" by (simp add: payload_bits u0 mods)
  note u1 = cont_byte [OF n(2), folded b1(2)] cont_byte [OF n(3), folded b2(2)] cont_byte [OF n(4), folded b3(2)]
  show thesis
    using b0(1) b1(1) b2(1) b3(1) u0 u1 c0 n
    by (intro that [of "ucast (mem ! i AND 0x07)" "shift_byte (shift_byte (shift_byte (ucast (mem ! i AND 0x07))
          (mem ! Suc i)) (mem ! Suc (Suc i))) (mem ! Suc (Suc (Suc i)))"])
      (simp_all add: lead_eq tail_small tail_Suc del: utf8_tail.simps(2))
qed

lemma char_intro:
  assumes "i < length mem" "utf8_lead (mem ! i) = Inr (n, cp0)" "utf8_tail mem i (n - 1) cp0 = Inr (k, cp)"
    and "char_ok n (unat cp)" "i + n \<le> len"
  shows "utf8_char mem len i = Inr (Suc k)"
  unfolding char_Inr using assms by auto

lemma char_complete:
  assumes c: "scalar c" and mem: "drop i mem = utf8_enc c @ r" and fits: "i + length (utf8_enc c) \<le> len"
  shows "utf8_char mem len i = Inr (i + length (utf8_enc c))"
proof -
  consider "c < 0x80" | "0x80 \<le> c" "c < 0x800" | "0x800 \<le> c" "c < 0x10000" | "0x10000 \<le> c" "c \<le> 0x10FFFF"
    using c by (force simp: scalar_def)
  then show ?thesis
  proof cases
    case 1
    then have e: "utf8_enc c = [word_of_nat c]" and u: "unat (word_of_nat c :: byte) = c"
      by (simp_all add: utf8_enc_def unat_small_byte)
    note b0 = nth_from_drop [OF mem [unfolded e, simplified]]
    have "utf8_lead (mem ! i) = Inr (1, ucast (mem ! i))"
      using 1 c u by (simp add: lead_eq b0(2) scalar_def)
    then show ?thesis
      using b0 u 1 e fits by (simp add: char_Inr char_ok_def tail_small)
  next
    case 2
    have e: "utf8_enc c = [word_of_nat (192 + c div 64), word_of_nat (128 + c mod 64)]"
      using 2 by (simp add: utf8_enc_def)
    have m: "drop i mem = word_of_nat (192 + c div 64) # word_of_nat (128 + c mod 64) # r"
      using mem by (simp only: e append.simps)
    obtain cp0 cp where d: "i < length mem" "utf8_lead (mem ! i) = Inr (2, cp0)"
        "utf8_tail mem i 1 cp0 = Inr (Suc i, cp)" "unat cp = c div 64 * 64 + c mod 64"
      by (rule decode2 [OF m]) (use 2 in linarith)+
    have "char_ok 2 (unat cp)" unfolding d(4) using 2 c by (simp add: char_ok_def scalar_def)
    then show ?thesis using char_intro [OF d(1,2) _ _ ] d(3) fits e by simp
  next
    case 3
    have e: "utf8_enc c = [word_of_nat (224 + c div 4096), word_of_nat (128 + c div 64 mod 64), word_of_nat (128 + c mod 64)]"
      using 3 by (simp add: utf8_enc_def)
    have m: "drop i mem = word_of_nat (224 + c div 4096) # word_of_nat (128 + c div 64 mod 64) # word_of_nat (128 + c mod 64) # r"
      using mem by (simp only: e append.simps)
    obtain cp0 cp where d: "i < length mem" "utf8_lead (mem ! i) = Inr (3, cp0)"
        "utf8_tail mem i 2 cp0 = Inr (Suc (Suc i), cp)"
        "unat cp = (c div 4096 * 64 + c div 64 mod 64) * 64 + c mod 64"
      by (rule decode3 [OF m]) (use 3 in linarith)+
    have "c div 4096 = c div 64 div 64" by (simp add: div_mult2_eq [symmetric])
    then have "unat cp = c" unfolding d(4) by (simp only: div_mult_mod_eq)
    then have "char_ok 3 (unat cp)" using 3 c by (simp add: char_ok_def scalar_def)
    then show ?thesis using char_intro [OF d(1,2) _ _ ] d(3) fits e by simp
  next
    case 4
    have e: "utf8_enc c = [word_of_nat (240 + c div 262144), word_of_nat (128 + c div 4096 mod 64),
        word_of_nat (128 + c div 64 mod 64), word_of_nat (128 + c mod 64)]"
      using 4 by (simp add: utf8_enc_def)
    have m: "drop i mem = word_of_nat (240 + c div 262144) # word_of_nat (128 + c div 4096 mod 64) #
        word_of_nat (128 + c div 64 mod 64) # word_of_nat (128 + c mod 64) # r"
      using mem by (simp only: e append.simps)
    obtain cp0 cp where d: "i < length mem" "utf8_lead (mem ! i) = Inr (4, cp0)"
        "utf8_tail mem i 3 cp0 = Inr (Suc (Suc (Suc i)), cp)"
        "unat cp = ((c div 262144 * 64 + c div 4096 mod 64) * 64 + c div 64 mod 64) * 64 + c mod 64"
      by (rule decode4 [OF m]) (use 4 in linarith)+
    have "c div 262144 = c div 64 div 64 div 64" "c div 4096 = c div 64 div 64"
      by (simp_all add: div_mult2_eq [symmetric])
    then have "unat cp = c" unfolding d(4) by (simp only: div_mult_mod_eq)
    then have "char_ok 4 (unat cp)" using 4 by (simp add: char_ok_def)
    then show ?thesis using char_intro [OF d(1,2) _ _ ] d(3) fits e by simp
  qed
qed

section \<open>The whole string\<close>

text \<open>On a string that a NUL follows, the check never leaves the memory: it answers.\<close>

definition answers :: "(mosq_err, 'a) res \<Rightarrow> bool" where
  "answers r \<longleftrightarrow> (\<exists>x. r = Inr x) \<or> r = Inl (Code MOSQ_ERR_MALFORMED_UTF8)"

lemma answers_leaf [simp]:
  "answers (Inr x)" "answers (Inl (Code MOSQ_ERR_MALFORMED_UTF8))"
  "answers (ensureR b (Code MOSQ_ERR_MALFORMED_UTF8))"
  by (auto simp: answers_def ensureR_def)

lemma answers_bind: "answers r \<Longrightarrow> (\<And>x. r = Inr x \<Longrightarrow> answers (k x)) \<Longrightarrow> answers (bindR r k)"
  by (auto simp: answers_def)

lemma answers_tail:
  "k < len \<Longrightarrow> len < length mem \<Longrightarrow> mem ! len = 0 \<Longrightarrow> answers (utf8_tail mem k n cp)"
proof (induction n arbitrary: k cp)
  case (Suc n)
  then show ?case
    by (cases "Suc k = len") (auto simp: tail_Suc cont_def simp del: utf8_tail.simps(2))
qed simp

lemma answers_char:
  assumes "i < len" and "len < length mem" and "mem ! len = 0"
  shows "answers (utf8_char mem len i)"
proof -
  have "answers (utf8_lead b)" for b by (simp add: lead_eq)
  then show ?thesis
    using assms unfolding utf8_char_def
    by (auto intro!: answers_bind answers_tail simp: case_prod_unfold)
qed

lemma zero_not_encoded: "scalar c \<Longrightarrow> 0 \<notin> set (utf8_enc c)"
proof -
  assume c: "scalar c"
  have ne: "0 < n \<Longrightarrow> n < 256 \<Longrightarrow> (word_of_nat n :: byte) \<noteq> 0" for n
    using unat_small_byte [of n] by force
  have m: "x mod 64 < 64" for x :: nat by simp
  have small: "128 + x mod 64 < 256" for x :: nat using m [of x] by linarith
  have top: "c div 262144 < 16" using c div_le_mono [of c 1114111 262144] by (simp add: scalar_def)
  show ?thesis
    using c top small ne [of c] ne [of "192 + c div 64"] ne [of "224 + c div 4096"] ne [of "240 + c div 262144"] ne [OF _ small]
    by (auto simp: utf8_enc_def scalar_def)
qed

lemma utf8_wf_Nil [simp]: "utf8_wf []"
  unfolding utf8_wf_def by (rule exI [of _ "[]"]) simp

lemma utf8_wf_first:
  assumes "utf8_wf s" and "s \<noteq> []"
  obtains c r where "scalar c" "s = utf8_enc c @ r" "utf8_wf r"
proof -
  obtain cps where cps: "list_all scalar cps" "s = concat (map utf8_enc cps)"
    using assms(1) by (auto simp: utf8_wf_def)
  then obtain c cs where "cps = c # cs" using assms(2) by (cases cps) auto
  with cps that [of c "concat (map utf8_enc cs)"] show thesis by (auto simp: utf8_wf_def)
qed

lemma utf8_wf_Cons: "scalar c \<Longrightarrow> utf8_wf r \<Longrightarrow> utf8_wf (utf8_enc c @ r)"
  unfolding utf8_wf_def by (elim exE) (rule_tac x = "c # cps" in exI, simp)

text \<open>The check of one character agrees with well-formedness of what is left.\<close>

lemma char_first:
  assumes "len < length mem" and "mem ! len = 0" and "i < len"
  defines "s \<equiv> take (len - i) (drop i mem)"
  shows "utf8_char mem len i = Inr j \<Longrightarrow> i < j \<and> j \<le> len \<and>
      utf8_wf s = utf8_wf (take (len - j) (drop j mem))"
    and "utf8_char mem len i = Inl e \<Longrightarrow> \<not> utf8_wf s"
proof -
  have mem: "drop i mem = s @ drop len mem"
    using assms(1,3) by (simp add: s_def) (metis append_take_drop_id drop_drop le_add_diff_inverse2 less_imp_le)
  have len: "length s = len - i" "s \<noteq> []" using assms(1,3) by (auto simp: s_def)
  have first: "utf8_char mem len i = Inr (i + length (utf8_enc c))" if "scalar c" "s = utf8_enc c @ r" for c r
  proof -
    have "length (utf8_enc c) \<le> len - i" using that(2) len(1) by simp
    then show ?thesis
      using char_complete [OF that(1), of i mem "r @ drop len mem" len] mem that(2) assms(3) by simp
  qed
  show "\<not> utf8_wf s" if "utf8_char mem len i = Inl e"
    using utf8_wf_first [OF _ len(2)] first that by (metis sum.distinct(1))
  show "i < j \<and> j \<le> len \<and> utf8_wf s = utf8_wf (take (len - j) (drop j mem))" if j: "utf8_char mem len i = Inr j"
  proof -
    obtain c where c: "scalar c" "j \<le> length mem" "j = i + length (utf8_enc c)" "take (j - i) (drop i mem) = utf8_enc c"
      using char_sound [OF j] by blast
    have ij: "i < j" by (rule utf8_char_advances [OF j])
    have jl: "j \<le> len"
    proof (rule ccontr)
      assume "\<not> j \<le> len"
      then have "take (j - i) (drop i mem) ! (len - i) = 0" "len - i < length (take (j - i) (drop i mem))"
        using assms c(2) by simp_all
      then show False using zero_not_encoded [OF c(1)] c(4) by (metis nth_mem)
    qed
    have "len - i = (j - i) + (len - j)" "drop (j - i) (drop i mem) = drop j mem" using ij jl by simp_all
    then have s: "s = utf8_enc c @ take (len - j) (drop j mem)"
      unfolding s_def c(4) [symmetric] by (simp only: take_add)
    have "utf8_wf (take (len - j) (drop j mem))" if wf: "utf8_wf s"
    proof -
      obtain c' r where c': "scalar c'" "s = utf8_enc c' @ r" "utf8_wf r" by (rule utf8_wf_first [OF wf len(2)])
      then have "length (utf8_enc c') = length (utf8_enc c)" using first [OF c'(1,2)] j c(3) by simp
      then show ?thesis using c'(2,3) s by simp
    qed
    then show ?thesis using utf8_wf_Cons [OF c(1)] s ij jl by metis
  qed
qed

lemma utf8_from_iff:
  assumes "len < length mem" and "mem ! len = 0" and "i \<le> len"
  shows "utf8_from mem len i =
    (if utf8_wf (take (len - i) (drop i mem)) then Inr () else Inl (Code MOSQ_ERR_MALFORMED_UTF8))"
  using assms
proof (induction mem len i rule: utf8_from.induct)
  case (1 mem len i)
  show ?case
  proof (cases "i < len")
    case True
    note cf = char_first [OF 1(2,3) True]
    show ?thesis
    proof (cases "utf8_char mem len i")
      case (Inl e)
      then have "e = Code MOSQ_ERR_MALFORMED_UTF8"
        using answers_char [OF True 1(2,3)] by (auto simp: answers_def)
      with cf(2) [OF Inl] show ?thesis using True Inl by (simp add: utf8_from.simps [of mem len i])
    next
      case (Inr j)
      from 1(1) [OF True Inr 1(2,3)] cf(1) [OF Inr] show ?thesis
        using True Inr by (simp add: utf8_from.simps [of mem len i])
    qed
  next
    case False
    with 1(4) show ?thesis by (simp add: utf8_from.simps [of mem len len])
  qed
qed

end
