(* ===== verification/Topics.thy ===== *)
theory Topics
  imports MosqBase
begin

text \<open>
  The topic routines of \<open>mosquitto-1.5.2/lib/util_mosq.c\<close>: which strings are topic names and
  topic filters, which filter matches which name, and the message ids.

  A \<open>const char *\<close> is the memory behind it, \<open>None\<close> for NULL; reading behind the memory is a
  fault. The routines with a length get a filter of exactly that length, and a topic in memory
  that may be longer: the matching loop reads one byte behind the topic. The out-parameter
  \<open>result\<close> is the value of the outcome; it is false whenever an error is returned.
\<close>

abbreviation PLUS :: byte where "PLUS \<equiv> 0x2B"
abbreviation HASH :: byte where "HASH \<equiv> 0x23"
abbreviation SLASH :: byte where "SLASH \<equiv> 0x2F"
abbreviation DOLLAR :: byte where "DOLLAR \<equiv> 0x24"

section \<open>Checks\<close>

fun pub_check_loop :: "nat \<Rightarrow> bytes \<Rightarrow> (mosq_err, nat) res" where
  "pub_check_loop len [] = Inl Fault"
| "pub_check_loop len (x # xs) =
     (if x = 0 then Inr len
      else if x = PLUS \<or> x = HASH then Inl (Code MOSQ_ERR_INVAL)
      else pub_check_loop (Suc len) xs)"

definition mosquitto_pub_topic_check :: "bytes option \<Rightarrow> (mosq_err, unit) res" where
  "mosquitto_pub_topic_check str =
     bindR (case str of None \<Rightarrow> Inr 0 | Some m \<Rightarrow> pub_check_loop 0 m) (\<lambda>len.
     ensureR (\<not> 65535 < len) (Code MOSQ_ERR_INVAL))"

fun pub_check2_loop :: "bytes \<Rightarrow> (mosq_err, unit) res" where
  "pub_check2_loop [] = Inr ()"
| "pub_check2_loop (x # xs) =
     (if x = PLUS \<or> x = HASH then Inl (Code MOSQ_ERR_INVAL) else pub_check2_loop xs)"

definition mosquitto_pub_topic_check2 :: "bytes \<Rightarrow> (mosq_err, unit) res" where
  "mosquitto_pub_topic_check2 str =
     bindR (ensureR (\<not> 65535 < length str) (Code MOSQ_ERR_INVAL)) (\<lambda>_. pub_check2_loop str)"

text \<open>\<open>c\<close> is the character before; the character behind is looked at through the pointer.\<close>

fun sub_check_loop :: "byte \<Rightarrow> nat \<Rightarrow> bytes \<Rightarrow> (mosq_err, nat) res" where
  "sub_check_loop c len [] = Inl Fault"
| "sub_check_loop c len (x # xs) =
     (if x = 0 then Inr len
      else bindR
        (if x = PLUS then
           if c \<noteq> 0 \<and> c \<noteq> SLASH then Inl (Code MOSQ_ERR_INVAL)
           else bindR (peek xs 0) (\<lambda>n. ensureR (\<not> (n \<noteq> 0 \<and> n \<noteq> SLASH)) (Code MOSQ_ERR_INVAL))
         else if x = HASH then
           if c \<noteq> 0 \<and> c \<noteq> SLASH then Inl (Code MOSQ_ERR_INVAL)
           else bindR (peek xs 0) (\<lambda>n. ensureR (\<not> n \<noteq> 0) (Code MOSQ_ERR_INVAL))
         else Inr ())
        (\<lambda>_. sub_check_loop x (Suc len) xs))"

definition mosquitto_sub_topic_check :: "bytes option \<Rightarrow> (mosq_err, unit) res" where
  "mosquitto_sub_topic_check str =
     bindR (case str of None \<Rightarrow> Inr 0 | Some m \<Rightarrow> sub_check_loop 0 0 m) (\<lambda>len.
     ensureR (\<not> 65535 < len) (Code MOSQ_ERR_INVAL))"

fun sub_check2_loop :: "byte \<Rightarrow> bytes \<Rightarrow> (mosq_err, unit) res" where
  "sub_check2_loop c [] = Inr ()"
| "sub_check2_loop c (x # xs) =
     bindR
       (if x = PLUS then
          ensureR (\<not> (c \<noteq> 0 \<and> c \<noteq> SLASH \<or> xs \<noteq> [] \<and> hd xs \<noteq> SLASH)) (Code MOSQ_ERR_INVAL)
        else if x = HASH then
          ensureR (\<not> (c \<noteq> 0 \<and> c \<noteq> SLASH \<or> xs \<noteq> [])) (Code MOSQ_ERR_INVAL)
        else Inr ())
       (\<lambda>_. sub_check2_loop x xs)"

definition mosquitto_sub_topic_check2 :: "bytes \<Rightarrow> (mosq_err, unit) res" where
  "mosquitto_sub_topic_check2 str =
     bindR (ensureR (\<not> 65535 < length str) (Code MOSQ_ERR_INVAL)) (\<lambda>_. sub_check2_loop 0 str)"

section \<open>Matching\<close>

text \<open>\<open>while(tpos < topiclen && topic[tpos] != '/') tpos++;\<close>\<close>

function skip_level :: "bytes \<Rightarrow> nat \<Rightarrow> nat \<Rightarrow> (mosq_err, nat) res" where
  "skip_level topic topiclen tpos =
     (if tpos < topiclen
      then bindR (peek topic tpos) (\<lambda>t. if t \<noteq> SLASH then skip_level topic topiclen (Suc tpos) else Inr tpos)
      else Inr tpos)"
  by auto
termination by (relation "measure (\<lambda>(topic, topiclen, tpos). topiclen - tpos)") auto

declare skip_level.simps [simp del]

text \<open>The loop from \<open>spos\<close> and \<open>tpos\<close> on; \<open>spos\<close> grows in every round.\<close>

function matches_from :: "bytes \<Rightarrow> bytes \<Rightarrow> nat \<Rightarrow> nat \<Rightarrow> nat \<Rightarrow> (mosq_err, bool) res" where
  "matches_from sub topic topiclen spos tpos =
     (if \<not> (spos < length sub \<and> tpos \<le> topiclen) then Inr False
      else bindR (peek topic tpos) (\<lambda>t.
        if sub ! spos = t then
          if Suc tpos = topiclen \<and> spos + 3 = length sub \<and> sub ! (spos + 1) = SLASH \<and> sub ! (spos + 2) = HASH
          then Inr True
          else if Suc spos = length sub \<and> Suc tpos = topiclen then Inr True
          else if Suc tpos = topiclen \<and> Suc (Suc spos) = length sub \<and> sub ! Suc spos = PLUS
          then if 0 < Suc spos \<and> sub ! spos \<noteq> SLASH then Inl (Code MOSQ_ERR_INVAL) else Inr True
          else matches_from sub topic topiclen (Suc spos) (Suc tpos)
        else if sub ! spos = PLUS then
          if 0 < spos \<and> sub ! (spos - 1) \<noteq> SLASH then Inl (Code MOSQ_ERR_INVAL)
          else if Suc spos < length sub \<and> sub ! Suc spos \<noteq> SLASH then Inl (Code MOSQ_ERR_INVAL)
          else bindR (skip_level topic topiclen tpos) (\<lambda>tpos'.
            if tpos' = topiclen \<and> Suc spos = length sub then Inr True
            else matches_from sub topic topiclen (Suc spos) tpos')
        else if sub ! spos = HASH then
          if 0 < spos \<and> sub ! (spos - 1) \<noteq> SLASH then Inl (Code MOSQ_ERR_INVAL)
          else if Suc spos \<noteq> length sub then Inl (Code MOSQ_ERR_INVAL)
          else Inr True
        else if 0 < spos \<and> spos + 2 = length sub \<and> tpos = topiclen \<and> sub ! (spos - 1) = PLUS \<and>
                sub ! spos = SLASH \<and> sub ! (spos + 1) = HASH
        then Inr True
        else Inr False))"
  by pat_completeness auto
termination by (relation "measure (\<lambda>(sub, topic, topiclen, spos, tpos). length sub - spos)") auto

declare matches_from.simps [simp del]

definition mosquitto_topic_matches_sub2 ::
    "bytes option \<Rightarrow> bytes option \<Rightarrow> nat \<Rightarrow> (mosq_err, bool) res" where
  "mosquitto_topic_matches_sub2 sub topic topiclen = (case (sub, topic) of
     (Some s, Some t) \<Rightarrow>
       if s = [] \<or> topiclen = 0 then Inl (Code MOSQ_ERR_INVAL)
       else bindR (peek t 0) (\<lambda>t0.
         if hd s = DOLLAR \<and> t0 \<noteq> DOLLAR \<or> t0 = DOLLAR \<and> hd s \<noteq> DOLLAR then Inr False
         else matches_from s t topiclen 0 0)
   | _ \<Rightarrow> Inl (Code MOSQ_ERR_INVAL))"

definition mosquitto_topic_matches_sub :: "bytes option \<Rightarrow> bytes option \<Rightarrow> (mosq_err, bool) res" where
  "mosquitto_topic_matches_sub sub topic = (case (sub, topic) of
     (Some s, Some t) \<Rightarrow> mosquitto_topic_matches_sub2 (Some (c_string s)) (Some t) (length (c_string t))
   | _ \<Rightarrow> Inl (Code MOSQ_ERR_INVAL))"

section \<open>Message ids\<close>

text \<open>The generated id and the new \<open>last_mid\<close>; both are the same value.\<close>

definition mosquitto__mid_generate :: "16 word \<Rightarrow> 16 word \<times> 16 word" where
  "mosquitto__mid_generate last_mid =
     (let last_mid1 = last_mid + 1;
          last_mid2 = (if last_mid1 = 0 then last_mid1 + 1 else last_mid1)
      in (last_mid2, last_mid2))"

fun draw_mids :: "nat \<Rightarrow> 16 word \<Rightarrow> 16 word list" where
  "draw_mids 0 last_mid = []"
| "draw_mids (Suc n) last_mid =
     (case mosquitto__mid_generate last_mid of (mid, last_mid') \<Rightarrow> mid # draw_mids n last_mid')"

section \<open>What they are meant to compute\<close>

text \<open>A topic in levels; the filters of MQTT section 4.7 and which names they match.\<close>

fun levels :: "bytes \<Rightarrow> bytes list" where
  "levels [] = [[]]"
| "levels (c # cs) =
     (if c = SLASH then [] # levels cs
      else (case levels cs of [] \<Rightarrow> [[c]] | l # ls \<Rightarrow> (c # l) # ls))"

definition plain :: "bytes \<Rightarrow> bool" where
  "plain s \<longleftrightarrow> PLUS \<notin> set s \<and> HASH \<notin> set s"

fun filter_ok :: "bytes list \<Rightarrow> bool" where
  "filter_ok [] = True"
| "filter_ok (l # ls) =
     ((l = [PLUS] \<or> l = [HASH] \<and> ls = [] \<or> plain l) \<and> filter_ok ls)"

fun level_match :: "bytes list \<Rightarrow> bytes list \<Rightarrow> bool" where
  "level_match [] ts \<longleftrightarrow> ts = []"
| "level_match (l # ls) ts \<longleftrightarrow>
     l = [HASH] \<and> ls = [] \<or>
     (case ts of [] \<Rightarrow> False | t # ts' \<Rightarrow> (l = [PLUS] \<or> l = t) \<and> level_match ls ts')"

definition topic_match :: "bytes \<Rightarrow> bytes \<Rightarrow> bool" where
  "topic_match sub topic \<longleftrightarrow>
     (hd sub = DOLLAR \<longleftrightarrow> hd topic = DOLLAR) \<and> level_match (levels sub) (levels topic)"

section \<open>Topic names and filters are recognised\<close>

lemma levels_ne [simp]: "levels s \<noteq> []"
  by (cases s) (auto split: list.splits)

lemma levels_cases: obtains l ls where "levels s = l # ls"
  by (cases "levels s") auto

lemma plain_simps [simp]:
  "plain []" "plain (c # s) \<longleftrightarrow> c \<noteq> PLUS \<and> c \<noteq> HASH \<and> plain s"
  by (auto simp: plain_def)

definition at_start :: "byte \<Rightarrow> bool" where
  "at_start c \<longleftrightarrow> c = 0 \<or> c = SLASH"

lemma sub_check2_loop_iff:
  "0 \<notin> set s \<Longrightarrow>
   (at_start c \<longrightarrow> sub_check2_loop c s = (if filter_ok (levels s) then Inr () else Inl (Code MOSQ_ERR_INVAL))) \<and>
   (\<not> at_start c \<longrightarrow> sub_check2_loop c s =
      (if plain (hd (levels s)) \<and> filter_ok (tl (levels s)) then Inr () else Inl (Code MOSQ_ERR_INVAL)))"
proof (induction s arbitrary: c)
  case Nil
  then show ?case by simp
next
  case (Cons x xs)
  obtain l ls where l: "levels xs = l # ls" by (rule levels_cases)
  have l0: "l = [] \<longleftrightarrow> xs = [] \<or> hd xs = SLASH"
    using l by (cases xs) (auto split: list.splits if_splits)
  have x0: "x \<noteq> 0" "0 \<notin> set xs" using Cons.prems by auto
  consider "x = PLUS" | "x = HASH" | "x = SLASH" | "x \<noteq> PLUS" "x \<noteq> HASH" "x \<noteq> SLASH" by blast
  then show ?case
  proof cases
    case 1
    then show ?thesis
      using Cons.IH [OF x0(2), of x] l l0 by (auto simp: at_start_def ensureR_def)
  next
    case 2
    then show ?thesis
      using Cons.IH [OF x0(2), of x] l l0 by (cases xs) (auto simp: at_start_def ensureR_def)
  next
    case 3
    then show ?thesis
      using Cons.IH [OF x0(2), of x] l by (auto simp: at_start_def)
  next
    case 4
    then show ?thesis
      using Cons.IH [OF x0(2), of x] l x0 by (auto simp: at_start_def)
  qed
qed

lemma sub_check_loop_eq:
  "0 \<in> set m \<Longrightarrow>
   sub_check_loop c len m = bindR (sub_check2_loop c (c_string m)) (\<lambda>_. Inr (len + length (c_string m)))"
proof (induction m arbitrary: c len)
  case Nil
  then show ?case by simp
next
  case (Cons x xs)
  show ?case
  proof (cases "x = 0")
    case True
    then show ?thesis by (simp add: c_string_def)
  next
    case False
    then have xs: "0 \<in> set xs" "c_string (x # xs) = x # c_string xs" using Cons.prems by (auto simp: c_string_def)
    obtain y ys where y: "xs = y # ys" using xs(1) by (cases xs) auto
    have h: "c_string xs \<noteq> [] \<longleftrightarrow> y \<noteq> 0" "c_string xs \<noteq> [] \<Longrightarrow> hd (c_string xs) = y"
      by (auto simp: c_string_def y)
    have "(if x = PLUS then
             if c \<noteq> 0 \<and> c \<noteq> SLASH then Inl (Code MOSQ_ERR_INVAL)
             else bindR (peek xs 0) (\<lambda>n. ensureR (\<not> (n \<noteq> 0 \<and> n \<noteq> SLASH)) (Code MOSQ_ERR_INVAL))
           else if x = HASH then
             if c \<noteq> 0 \<and> c \<noteq> SLASH then Inl (Code MOSQ_ERR_INVAL)
             else bindR (peek xs 0) (\<lambda>n. ensureR (\<not> n \<noteq> 0) (Code MOSQ_ERR_INVAL))
           else Inr ())
        = (if x = PLUS then
             ensureR (\<not> (c \<noteq> 0 \<and> c \<noteq> SLASH \<or> c_string xs \<noteq> [] \<and> hd (c_string xs) \<noteq> SLASH)) (Code MOSQ_ERR_INVAL)
           else if x = HASH then
             ensureR (\<not> (c \<noteq> 0 \<and> c \<noteq> SLASH \<or> c_string xs \<noteq> [])) (Code MOSQ_ERR_INVAL)
           else Inr ())"
      using h by (simp add: y ensureR_def)
    then show ?thesis
      using False Cons.IH [OF xs(1), of x "Suc len"] by (simp add: xs(2) bindR_assoc)
  qed
qed

lemma pub_check2_loop_eq:
  "pub_check2_loop s = (if plain s then Inr () else Inl (Code MOSQ_ERR_INVAL))"
  by (induction s) auto

lemma pub_check_loop_eq:
  "0 \<in> set m \<Longrightarrow>
   pub_check_loop len m = bindR (pub_check2_loop (c_string m)) (\<lambda>_. Inr (len + length (c_string m)))"
  by (induction len m rule: pub_check_loop.induct) (auto simp: c_string_def)

section \<open>Matching is level by level\<close>

text \<open>The loop on what is left of the filter and of the topic; \<open>p\<close> is the filter's character before.\<close>

fun scan :: "byte \<Rightarrow> bytes \<Rightarrow> bytes \<Rightarrow> (mosq_err, bool) res" where
  "scan p [] T = Inr False"
| "scan p (s # S) T =
     (if T \<noteq> [] \<and> hd T = s then
        if tl T = [] \<and> S = [SLASH, HASH] then Inr True
        else if S = [] \<and> tl T = [] then Inr True
        else if tl T = [] \<and> S = [PLUS] then if s \<noteq> SLASH then Inl (Code MOSQ_ERR_INVAL) else Inr True
        else scan s S (tl T)
      else if s = PLUS then
        if \<not> at_start p then Inl (Code MOSQ_ERR_INVAL)
        else if S \<noteq> [] \<and> hd S \<noteq> SLASH then Inl (Code MOSQ_ERR_INVAL)
        else if dropWhile (\<lambda>t. t \<noteq> SLASH) T = [] \<and> S = [] then Inr True
        else scan PLUS S (dropWhile (\<lambda>t. t \<noteq> SLASH) T)
      else if s = HASH then
        if \<not> at_start p then Inl (Code MOSQ_ERR_INVAL)
        else if S \<noteq> [] then Inl (Code MOSQ_ERR_INVAL) else Inr True
      else Inr (T = [] \<and> p = PLUS \<and> s = SLASH \<and> S = [HASH]))"

definition before :: "bytes \<Rightarrow> nat \<Rightarrow> byte" where
  "before sub spos = (if spos = 0 then 0 else sub ! (spos - 1))"

lemma skip_level_eq:
  "mem = topic @ 0 # r \<Longrightarrow> tpos \<le> length topic \<Longrightarrow> \<exists>t. skip_level mem (length topic) tpos = Inr t \<and> t \<le> length topic \<and>
     drop t topic = dropWhile (\<lambda>t. t \<noteq> SLASH) (drop tpos topic)"
proof (induction "length topic - tpos" arbitrary: tpos)
  case 0
  then show ?case by (simp add: skip_level.simps)
next
  case (Suc n)
  then have lt: "tpos < length topic" by simp
  then have d: "drop tpos topic = topic ! tpos # drop (Suc tpos) topic" by (simp add: Cons_nth_drop_Suc)
  have m: "peek mem tpos = Inr (topic ! tpos)" using Suc.prems lt by (simp add: nth_append)
  show ?case
  proof (cases "topic ! tpos = SLASH")
    case True
    then show ?thesis using lt m d by (simp add: skip_level.simps [of mem _ tpos])
  next
    case False
    have "n = length topic - Suc tpos" using Suc.hyps(2) by simp
    from Suc.hyps(1) [OF this Suc.prems(1)] lt show ?thesis
      using m d False by (simp add: skip_level.simps [of mem _ tpos])
  qed
qed

lemma drop_facts:
  assumes "i < length xs"
  shows "drop i xs = xs ! i # drop (Suc i) xs" and "drop (Suc i) xs = [] \<longleftrightarrow> Suc i = length xs"
  using assms by (auto simp: Cons_nth_drop_Suc)

lemma tail_two:
  assumes "i < length xs"
  shows "drop (Suc i) xs = [a] \<longleftrightarrow> Suc (Suc i) = length xs \<and> xs ! Suc i = a"
    and "drop (Suc i) xs = [a, b] \<longleftrightarrow> i + 3 = length xs \<and> xs ! (i + 1) = a \<and> xs ! (i + 2) = b"
proof -
  show "drop (Suc i) xs = [a] \<longleftrightarrow> Suc (Suc i) = length xs \<and> xs ! Suc i = a"
    using drop_facts [of "Suc i" xs] assms by (cases "Suc i < length xs") auto
  show "drop (Suc i) xs = [a, b] \<longleftrightarrow> i + 3 = length xs \<and> xs ! (i + 1) = a \<and> xs ! (i + 2) = b"
    using drop_facts [of "Suc i" xs] drop_facts [of "Suc (Suc i)" xs] assms
    by (cases "Suc (Suc i) < length xs"; cases "Suc i < length xs") (auto simp: numeral_eq_Suc)
qed

lemma matches_from_scan:
  assumes mem: "mem = topic @ 0 # r" and sub: "0 \<notin> set sub"
  shows "spos \<le> length sub \<Longrightarrow> tpos \<le> length topic \<Longrightarrow>
    matches_from sub mem (length topic) spos tpos = scan (before sub spos) (drop spos sub) (drop tpos topic)"
proof (induction "length sub - spos" arbitrary: spos tpos)
  case 0
  then show ?case by (simp add: matches_from.simps [of sub mem _ spos])
next
  case (Suc n)
  then have lt: "spos < length sub" by simp
  let ?s = "sub ! spos"
  have s0: "?s \<noteq> 0" using sub lt by (metis nth_mem)
  have nS: "n = length sub - Suc spos" using Suc.hyps(2) by simp
  have IH: "matches_from sub mem (length topic) (Suc spos) t = scan ?s (drop (Suc spos) sub) (drop t topic)"
    if "t \<le> length topic" for t
    using Suc.hyps(1) [OF nS _ that] lt by (simp add: before_def)
  define D where "D = drop (Suc spos) sub"
  have D: "drop spos sub = ?s # D" using drop_facts(1) [OF lt] by (simp add: D_def)
  have c: "Suc spos = length sub \<longleftrightarrow> D = []"
    "Suc (Suc spos) = length sub \<and> sub ! Suc spos = PLUS \<longleftrightarrow> D = [PLUS]"
    "spos + 3 = length sub \<and> sub ! (spos + 1) = SLASH \<and> sub ! (spos + 2) = HASH \<longleftrightarrow> D = [SLASH, HASH]"
    "Suc spos < length sub \<and> sub ! Suc spos \<noteq> SLASH \<longleftrightarrow> D \<noteq> [] \<and> hd D \<noteq> SLASH"
    using lt drop_facts(2) [OF lt] tail_two [OF lt] by (auto simp: D_def hd_drop_conv_nth)
  have st: "0 < spos \<and> sub ! (spos - 1) \<noteq> SLASH \<longleftrightarrow> \<not> at_start (before sub spos)"
    using sub lt by (auto simp: at_start_def before_def) (metis less_imp_diff_less nth_mem)
  have plus: "0 < spos \<and> spos + 2 = length sub \<and> t \<and> sub ! (spos - 1) = PLUS \<and> ?s = SLASH \<and> sub ! (spos + 1) = HASH
      \<longleftrightarrow> t \<and> before sub spos = PLUS \<and> ?s = SLASH \<and> D = [HASH]" for t
    using tail_two(1) [OF lt, of HASH] lt by (auto simp: before_def D_def)
  obtain t' where t': "skip_level mem (length topic) tpos = Inr t'" "t' \<le> length topic"
      "drop t' topic = dropWhile (\<lambda>t. t \<noteq> SLASH) (drop tpos topic)"
    using skip_level_eq [OF mem Suc.prems(2)] by blast
  have e: "t' = length topic \<longleftrightarrow> drop t' topic = []" using t'(2) by auto
  note unfolded = matches_from.simps [of sub mem _ spos]
  show ?case
  proof (cases "tpos < length topic")
    case True
    define E where "E = drop (Suc tpos) topic"
    have E: "drop tpos topic = topic ! tpos # E" using drop_facts(1) [OF True] by (simp add: E_def)
    have c1: "Suc tpos = length topic \<longleftrightarrow> E = []" using drop_facts(2) [OF True] by (simp add: E_def)
    have p: "peek mem tpos = Inr (topic ! tpos)" using True mem by (simp add: nth_append)
    have n: "tpos \<noteq> length topic" "tpos \<le> length topic" "Suc tpos \<le> length topic" using True by auto
    have r: "matches_from sub mem (length topic) (Suc spos) (Suc tpos) = scan ?s D E"
      "matches_from sub mem (length topic) (Suc spos) t' = scan ?s D (drop t' topic)"
      using IH [OF n(3)] IH [OF t'(2)] by (simp_all add: D_def E_def)
    have flip: "topic ! tpos = ?s \<longleftrightarrow> ?s = topic ! tpos" by (rule eq_commute)
    show ?thesis
      unfolding D E scan.simps
      by (simp only: unfolded p bindR_Inr c c1 st plus t'(1) r e lt n t'(3) E list.sel flip list.distinct simp_thms if_False if_True)
        (simp cong: if_cong)
  next
    case False
    then have T: "drop tpos topic = []" "tpos = length topic" using Suc.prems(2) by simp_all
    have p: "peek mem (length topic) = Inr 0" using mem by simp
    have t0: "t' = length topic" using t' T by simp
    have r: "matches_from sub mem (length topic) (Suc spos) (length topic) = scan ?s D []"
      using IH [OF order.refl] by (simp add: D_def)
    show ?thesis
      unfolding D T scan.simps
      by (simp only: unfolded p bindR_Inr c st plus t'(1) [unfolded t0 T(2)] r lt) (use s0 in auto)
  qed
qed

text \<open>
  Inside a level the rest of it is compared literally; at its start it may be a wildcard. The
  topic is never used up before \<open>/#\<close> unless by a \<open>+\<close>, because the loop looks ahead there.
\<close>

lemma levels_Slash [simp]: "levels (SLASH # s) = [] # levels s"
  by simp

lemma levels_other: "c \<noteq> SLASH \<Longrightarrow> levels s = l # ls \<Longrightarrow> levels (c # s) = (c # l) # ls"
  by simp

lemma levels_dropWhile:
  "levels T = t # ts \<Longrightarrow> levels (dropWhile (\<lambda>t. t \<noteq> SLASH) T) = [] # ts"
  by (induction T arbitrary: t) (auto split: list.splits if_splits)

lemma levels_Nil_iff: "levels s = [[]] \<longleftrightarrow> s = []"
  by (cases s) (auto split: list.splits)

lemma levels_HASH_iff: "levels s = [[HASH]] \<longleftrightarrow> s = [HASH]"
  by (cases s) (auto simp: levels_Nil_iff split: list.splits)

lemma scan_literal:
  assumes "s \<noteq> PLUS" and "s \<noteq> HASH" and "tl T = [] \<longrightarrow> S \<noteq> [SLASH, HASH] \<and> S \<noteq> [] \<and> S \<noteq> [PLUS]"
    and "T \<noteq> []" and "hd T = s"
  shows "scan p (s # S) T = scan s S (tl T)"
  using assms by auto

lemma scan_levels:
  assumes "0 \<notin> set S" and "plain T" and "\<not> (S = [] \<and> T = [])"
    and "T = [] \<Longrightarrow> S = [SLASH, HASH] \<Longrightarrow> p = PLUS"
    and "levels S = l # ls" and "levels T = t # ts"
  shows "(at_start p \<longrightarrow> filter_ok (l # ls) \<longrightarrow> scan p S T = Inr (level_match (l # ls) (t # ts))) \<and>
    (\<not> at_start p \<longrightarrow> plain l \<longrightarrow> filter_ok ls \<longrightarrow> scan p S T = Inr (l = t \<and> level_match ls ts))"
  using assms
proof (induction S arbitrary: p T l ls t ts)
  case Nil
  obtain c cs where T: "T = c # cs" using Nil.prems(3) by (cases T) auto
  have "t = [] \<longrightarrow> ts \<noteq> []" using Nil.prems(6) T by (auto split: list.splits if_splits)
  then show ?case using Nil.prems(5) by (cases ts; cases t) auto
next
  case (Cons s S)
  obtain m ms where S: "levels S = m # ms" by (rule levels_cases)
  have s0: "s \<noteq> 0" "0 \<notin> set S" using Cons.prems(1) by auto
  show ?case
  proof (cases "T \<noteq> [] \<and> hd T = s")
    case True
    then obtain cs where T: "T = s # cs" by (cases T) auto
    have w: "s \<noteq> PLUS" "s \<noteq> HASH" "plain cs" using Cons.prems(2) T by auto
    obtain u us where cs: "levels cs = u # us" by (rule levels_cases)
    have lev: "(s = SLASH \<longrightarrow> l = [] \<and> ls = m # ms \<and> t = [] \<and> ts = u # us) \<and>
        (s \<noteq> SLASH \<longrightarrow> l = s # m \<and> ls = ms \<and> t = s # u \<and> ts = us)"
      using Cons.prems(5,6) S cs T by auto
    consider "cs = []" "S = [SLASH, HASH]" | "cs = []" "S = []" | "cs = []" "S = [PLUS]"
      | "cs = [] \<longrightarrow> S \<noteq> [SLASH, HASH] \<and> S \<noteq> [] \<and> S \<noteq> [PLUS]" by blast
    then show ?thesis
    proof cases
      case 4
      then have step: "scan p (s # S) T = scan s S cs" using scan_literal [OF w(1,2), of T S p] T by simp
      have ih: "(at_start s \<longrightarrow> filter_ok (m # ms) \<longrightarrow> scan s S cs = Inr (level_match (m # ms) (u # us))) \<and>
          (\<not> at_start s \<longrightarrow> plain m \<longrightarrow> filter_ok ms \<longrightarrow> scan s S cs = Inr (m = u \<and> level_match ms us))"
        using 4 by (intro Cons.IH [OF s0(2) w(3) _ _ S cs]) auto
      show ?thesis
      proof (cases "s = SLASH")
        case True
        then show ?thesis using ih lev step by (auto simp: at_start_def)
      next
        case False
        then show ?thesis using ih lev step w s0(1) by (auto simp: at_start_def)
      qed
    qed (use S cs lev T w in \<open>auto simp: at_start_def\<close>)
  next
    case mismatch: False
    consider "s = PLUS" | "s = HASH" | "s \<noteq> PLUS" "s \<noteq> HASH" by blast
    then show ?thesis
    proof cases
      case 1
      obtain u us where T: "levels (dropWhile (\<lambda>t. t \<noteq> SLASH) T) = [] # us" "us = ts"
        using levels_dropWhile [OF Cons.prems(6)] by simp
      have lev: "l = PLUS # m" "ls = ms" using Cons.prems(5) S 1 by simp_all
      have m: "m = [] \<longleftrightarrow> S = [] \<or> hd S = SLASH" using S by (cases S) (auto split: list.splits if_splits)
      let ?T = "dropWhile (\<lambda>t. t \<noteq> SLASH) T"
      have step: "scan p (s # S) T = (if ?T = [] \<and> S = [] then Inr True else scan PLUS S ?T)"
        if "at_start p" "m = []"
      proof -
        have "\<not> (S \<noteq> [] \<and> hd S \<noteq> SLASH)" using that(2) m by simp
        then show ?thesis
          using mismatch that(1) unfolding 1 by (simp only: scan.simps simp_thms if_False if_True)
      qed
      have "plain ?T" using Cons.prems(2) set_dropWhileD by (fastforce simp: plain_def)
      have ih: "scan PLUS S ?T = Inr (level_match ms ts)" if "m = []" "filter_ok ms" "\<not> (S = [] \<and> ?T = [])"
        using Cons.IH [OF s0(2) \<open>plain ?T\<close> that(3) _ S T(1), of PLUS] that(1,2) T(2) by (simp add: at_start_def)
      have both: "ms = [] \<and> ts = []" if "S = []" "?T = []"
        using that(1) S T(1) [unfolded that(2)] T(2) by simp
      have "scan p (s # S) T = Inr (level_match ms ts)" if "at_start p" "m = []" "filter_ok ms"
      proof (cases "?T = [] \<and> S = []")
        case True
        with step [OF that(1,2)] both show ?thesis by simp
      next
        case False
        with step [OF that(1,2)] ih [OF that(2,3)] show ?thesis by auto
      qed
      then show ?thesis by (simp add: lev)
    next
      case 2
      have lev: "l = HASH # m" "ls = ms" using Cons.prems(5) S 2 by simp_all
      have "scan p (s # S) T = Inr True" if "at_start p" "m = []" "ms = []"
      proof -
        have "S = []" using levels_Nil_iff [of S] S that(2,3) by simp
        then show ?thesis using mismatch that(1) 2 by simp
      qed
      then show ?thesis by (simp add: lev)
    next
      case 3
      then have step: "scan p (s # S) T = Inr (T = [] \<and> p = PLUS \<and> s = SLASH \<and> S = [HASH])"
        using mismatch by auto
      show ?thesis
      proof (cases T)
        case Nil
        then have t: "t = []" "ts = []" using Cons.prems(6) by auto
        have lm: "level_match (m # ms) [] \<longleftrightarrow> S = [HASH]" using levels_HASH_iff [of S] S by simp
        show ?thesis
          using step Nil t 3 Cons.prems(4,5) S lm by (cases "s = SLASH") (auto simp: at_start_def)
      next
        case (Cons c cs)
        then show ?thesis
          using step mismatch 3 Cons.prems(5,6) S
          by (cases "s = SLASH"; cases "c = SLASH") (auto simp: at_start_def split: list.splits)
      qed
    qed
  qed
qed

lemma c_string_split: "0 \<in> set m \<Longrightarrow> \<exists>r. m = c_string m @ 0 # r"
  by (induction m) (auto simp: c_string_def)

lemma c_string_no_nul [simp]: "0 \<notin> set (c_string m)"
  by (auto simp: c_string_def dest: set_takeWhileD)

lemma matches_sub2_levels:
  assumes "sub \<noteq> []" and "0 \<notin> set sub" and "filter_ok (levels sub)" and "topic \<noteq> []" and "plain topic"
  shows "mosquitto_topic_matches_sub2 (Some sub) (Some (topic @ 0 # r)) (length topic) = Inr (topic_match sub topic)"
proof -
  obtain l ls t ts where L: "levels sub = l # ls" "levels topic = t # ts"
    by (meson levels_cases)
  have "matches_from sub (topic @ 0 # r) (length topic) 0 0 = scan 0 sub topic"
    using matches_from_scan [OF refl assms(2), of 0 0 topic r] by (simp add: before_def)
  also have "\<dots> = Inr (level_match (levels sub) (levels topic))"
    using scan_levels [OF assms(2,5) _ _ L, of 0] assms L by (simp add: at_start_def)
  moreover have "peek (topic @ 0 # r) 0 = Inr (hd topic)" using assms(4) by (cases topic) simp_all
  ultimately show ?thesis
    using assms(1,4) by (auto simp: mosquitto_topic_matches_sub2_def topic_match_def)
qed

section \<open>Message ids run round\<close>

lemma unat_mid_generate:
  "mosquitto__mid_generate k = (m, k') \<Longrightarrow> k' = m \<and> unat m = unat k mod 65535 + 1"
proof -
  assume g: "mosquitto__mid_generate k = (m, k')"
  have small: "unat k < 65536" using unsigned_less [of k] by simp
  have z: "k + 1 = 0 \<longleftrightarrow> unat k = 65535"
    using small by (auto simp: word_unat_eq_iff unat_word_ariths dest: dvd_imp_le)
  show ?thesis
  proof (cases "unat k = 65535")
    case True
    then have "k = - 1" using z by (simp add: eq_neg_iff_add_eq_0)
    then show ?thesis using g True by (auto simp: mosquitto__mid_generate_def Let_def)
  next
    case False
    then have "unat k < 65535" using small by simp
    moreover have "unat (k + 1) = unat k + 1" using False small by (simp add: unat_word_ariths)
    ultimately show ?thesis using g z by (auto simp: mosquitto__mid_generate_def Let_def)
  qed
qed

lemma draw_mids_nth:
  "i < n \<Longrightarrow> unat (draw_mids n k ! i) = (unat k + i) mod 65535 + 1"
proof (induction n arbitrary: i k)
  case 0
  then show ?case by simp
next
  case (Suc n)
  obtain m where m: "mosquitto__mid_generate k = (m, m)" "unat m = unat k mod 65535 + 1"
    using unat_mid_generate by (cases "mosquitto__mid_generate k") blast
  show ?case
  proof (cases i)
    case 0
    then show ?thesis using m by simp
  next
    case (Suc j)
    then have "unat (draw_mids n m ! j) = (unat m + j) mod 65535 + 1" using Suc.IH Suc.prems by simp
    also have "(unat m + j) mod 65535 = (unat k + i) mod 65535"
      using Suc mod_add_left_eq [of "unat k" 65535 "Suc j"] by (simp add: m(2))
    finally show ?thesis using m(1) Suc by simp
  qed
qed

lemma length_draw_mids [simp]: "length (draw_mids n k) = n"
  by (induction n arbitrary: k) (auto split: prod.splits)

lemma draw_mids_distinct:
  assumes "n \<le> 65535"
  shows "distinct (draw_mids n k)"
proof -
  have "draw_mids n k ! i \<noteq> draw_mids n k ! j" if "i < j" "j < n" for i j
  proof
    assume "draw_mids n k ! i = draw_mids n k ! j"
    then have "(unat k + i) mod 65535 = (unat k + j) mod 65535"
      using draw_mids_nth [of i n k] draw_mids_nth [of j n k] that by simp
    then have "(unat k + j - (unat k + i)) mod 65535 = 0"
      using that(1) by (metis mod_eq_dvd_iff_nat mod_0_imp_dvd dvd_imp_mod_0 nat_add_left_cancel_le less_imp_le)
    then show False using that assms by simp
  qed
  then show ?thesis
    by (auto simp: distinct_conv_nth) (metis linorder_neqE_nat)
qed

end
