(* ===== verification/TopicProps.thy ===== *)
theory TopicProps
  imports Utf8 Topics
begin

text \<open>The properties of the string and topic routines of the mosquitto library.\<close>

text \<open>C20: On a string followed by its terminating NUL, the UTF-8 check decides well-formedness: it
  accepts exactly the concatenations of encoded Unicode scalar values other than NUL (RFC 3629),
  reports anything else as malformed, and never reads behind the terminator.\<close>

theorem utf8_check_decides:
  assumes "length s \<le> 65536"
  shows "mosquitto_validate_utf8 (Some (s @ 0 # rest)) (int (length s))
    = (if utf8_wf s then Inr () else Inl (Code MOSQ_ERR_MALFORMED_UTF8))"
  using assms utf8_from_iff [of "length s" "s @ 0 # rest" 0]
  by (simp add: mosquitto_validate_utf8_def)

theorem utf8_check_decides_witness:
  "mosquitto_validate_utf8 (Some ([0x61, 0xC3, 0xA9] @ 0 # [])) (int (length [0x61, 0xC3, 0xA9 :: byte])) = Inr ()"
proof -
  have "utf8_enc 0x61 = [0x61]" "utf8_enc 0xE9 = [0xC3, 0xA9]" by (simp_all add: utf8_enc_def)
  then have "utf8_wf [0x61, 0xC3, 0xA9]"
    unfolding utf8_wf_def by (intro exI [of _ "[0x61, 0xE9]"]) (simp add: scalar_def)
  then show ?thesis using utf8_check_decides [of "[0x61, 0xC3, 0xA9]" "[]"] by simp
qed

text \<open>C21: The test for a cut-off character looks for one missing byte only: when a three-byte lead
  is the last byte of the string, the check reads on behind the given length. With continuation
  bytes there it accepts the malformed string; at the end of the memory it is out of bounds.\<close>

theorem utf8_check_reads_past_the_end:
  assumes "2048 \<le> c" and "c < 0xD800"
  shows "mosquitto_validate_utf8 (Some (utf8_enc c)) 1 = Inr () \<and> \<not> utf8_wf (take 1 (utf8_enc c)) \<and>
    mosquitto_validate_utf8 (Some (take 1 (utf8_enc c))) 1 = Inl Fault"
proof -
  define b0 b1 b2 :: byte where "b0 = word_of_nat (224 + c div 4096)"
    and "b1 = word_of_nat (128 + c div 64 mod 64)" and "b2 = word_of_nat (128 + c mod 64)"
  have e: "utf8_enc c = [b0, b1, b2]" using assms by (simp add: utf8_enc_def b0_def b1_def b2_def)
  have m: "drop 0 [b0, b1, b2] = word_of_nat (224 + c div 4096) # word_of_nat (128 + c div 64 mod 64) #
      word_of_nat (128 + c mod 64) # []" by (simp add: b0_def b1_def b2_def)
  obtain cp0 cp where d: "utf8_lead b0 = Inr (3, cp0)" "utf8_tail [b0, b1, b2] 0 2 cp0 = Inr (2, cp)"
      "unat cp = (c div 4096 * 64 + c div 64 mod 64) * 64 + c mod 64"
    by (rule decode3 [OF m]) (use assms in \<open>simp_all add: less_mult_imp_div_less numeral_2_eq_2\<close>)
  have "c div 4096 = c div 64 div 64" by (simp add: div_mult2_eq [symmetric])
  then have cp: "unat cp = c" unfolding d(3) by (simp only: div_mult_mod_eq)
  have "utf8_char [b0, b1, b2] 1 0 = Inr 3"
    using d cp assms by (simp add: char_Inr char_ok_def)
  then have long: "mosquitto_validate_utf8 (Some [b0, b1, b2]) 1 = Inr ()"
    by (simp add: mosquitto_validate_utf8_def utf8_from.simps)
  have short: "utf8_char [b0] 1 0 = Inl Fault"
    using d(1) by (simp add: utf8_char_def tail_small tail_Suc ensureR_def del: utf8_tail.simps(2))
  have "utf8_char [b0, 0] 1 0 = Inl (Code MOSQ_ERR_MALFORMED_UTF8)"
    using d(1) by (simp add: utf8_char_def tail_small tail_Suc cont_def ensureR_def del: utf8_tail.simps(2))
  then have "utf8_from [b0, 0] 1 0 \<noteq> Inr ()" by (simp add: utf8_from.simps)
  then have "\<not> utf8_wf [b0]" using utf8_from_iff [of 1 "[b0, 0]" 0] by (auto split: if_splits)
  then show ?thesis using long short by (simp add: e mosquitto_validate_utf8_def utf8_from.simps)
qed

theorem utf8_check_reads_past_the_end_witness:
  "mosquitto_validate_utf8 (Some [0xE2, 0x82, 0xAC]) 1 = Inr () \<and> \<not> utf8_wf [0xE2] \<and>
    mosquitto_validate_utf8 (Some [0xE2]) 1 = Inl Fault"
  using utf8_check_reads_past_the_end [of "0x20AC"] by (simp add: utf8_enc_def)

text \<open>C22: The check of a topic filter decides the grammar of MQTT: it accepts exactly the strings of
  at most 65535 bytes in which every level is a lone \<open>+\<close>, a lone \<open>#\<close> at the very end, or free of
  both; the variant for C strings and the one with a length agree.\<close>

theorem filter_check_decides:
  assumes "0 \<in> set m"
  shows "mosquitto_sub_topic_check (Some m)
      = (if length (c_string m) \<le> 65535 \<and> filter_ok (levels (c_string m)) then Inr () else Inl (Code MOSQ_ERR_INVAL)) \<and>
    mosquitto_sub_topic_check2 (c_string m) = mosquitto_sub_topic_check (Some m)"
proof -
  have "sub_check2_loop 0 (c_string m)
      = (if filter_ok (levels (c_string m)) then Inr () else Inl (Code MOSQ_ERR_INVAL))"
    using sub_check2_loop_iff [of "c_string m" 0] by (simp add: at_start_def)
  then show ?thesis
    by (simp add: mosquitto_sub_topic_check_def mosquitto_sub_topic_check2_def sub_check_loop_eq [OF assms] ensureR_def)
qed

theorem filter_check_decides_witness:
  "mosquitto_sub_topic_check (Some (cstr ''a/+/#'' @ [0])) = Inr () \<and>
   mosquitto_sub_topic_check (Some (cstr ''a/b#'' @ [0])) = Inl (Code MOSQ_ERR_INVAL)"
proof -
  have nul: "0 \<in> set (cstr ''a/+/#'' @ [0])" "0 \<in> set (cstr ''a/b#'' @ [0])" by simp_all
  from filter_check_decides [OF nul(1)] filter_check_decides [OF nul(2)] show ?thesis
    by (simp add: cstr_def c_string_def)
qed

text \<open>C23: Matching a topic against a filter is matching level by level: for every filter the check
  accepts and every non-empty topic name without wildcards, the character loop answers what MQTT
  says - \<open>+\<close> stands for one level, \<open>#\<close> for the rest and the parent, and names starting with
  \<open>$\<close> match only filters that do.\<close>

theorem matching_is_by_level:
  assumes "0 \<in> set sub" and "0 \<in> set topic" and "c_string sub \<noteq> []" and "c_string topic \<noteq> []"
    and "mosquitto_sub_topic_check (Some sub) = Inr ()" and "mosquitto_pub_topic_check (Some topic) = Inr ()"
  shows "mosquitto_topic_matches_sub (Some sub) (Some topic) = Inr (topic_match (c_string sub) (c_string topic))"
proof -
  have "sub_check2_loop 0 (c_string sub) = Inr ()"
    using assms(5) by (auto simp: mosquitto_sub_topic_check_def sub_check_loop_eq [OF assms(1)] bindR_eq_Inr)
  then have f: "filter_ok (levels (c_string sub))"
    using sub_check2_loop_iff [of "c_string sub" 0] by (auto simp: at_start_def split: if_splits)
  have p: "plain (c_string topic)"
    using assms(6) by (auto simp: mosquitto_pub_topic_check_def pub_check_loop_eq [OF assms(2)] pub_check2_loop_eq
        split: if_splits)
  obtain r where r: "topic = c_string topic @ 0 # r" using c_string_split [OF assms(2)] by blast
  have "mosquitto_topic_matches_sub2 (Some (c_string sub)) (Some (c_string topic @ 0 # r)) (length (c_string topic))
      = Inr (topic_match (c_string sub) (c_string topic))"
    by (rule matches_sub2_levels [OF assms(3) c_string_no_nul f assms(4) p])
  then show ?thesis
    unfolding mosquitto_topic_matches_sub_def by (simp only: prod.case option.case r [symmetric])
qed

theorem matching_is_by_level_witness:
  "mosquitto_topic_matches_sub (Some (cstr ''a/+/#'' @ [0])) (Some (cstr ''a/b'' @ [0])) = Inr True"
proof -
  have s: "0 \<in> set (cstr ''a/+/#'' @ [0])" "0 \<in> set (cstr ''a/b'' @ [0])"
    "c_string (cstr ''a/+/#'' @ [0]) \<noteq> []" "c_string (cstr ''a/b'' @ [0]) \<noteq> []"
    "mosquitto_sub_topic_check (Some (cstr ''a/+/#'' @ [0])) = Inr ()"
    "mosquitto_pub_topic_check (Some (cstr ''a/b'' @ [0])) = Inr ()"
    by (simp_all add: cstr_def c_string_def mosquitto_sub_topic_check_def mosquitto_pub_topic_check_def ensureR_def)
  from matching_is_by_level [OF s] show ?thesis by (simp add: cstr_def c_string_def topic_match_def)
qed

text \<open>C24: Message ids are never 0 and run round: any 65535 ids drawn one after the other are pairwise
  different, so an id comes back only when all others were used.\<close>

theorem mids_are_fresh:
  assumes "n \<le> 65535"
  shows "distinct (draw_mids n last_mid) \<and> 0 \<notin> set (draw_mids n last_mid)"
proof -
  have "draw_mids n last_mid ! i \<noteq> 0" if "i < n" for i
    using draw_mids_nth [OF that, of last_mid] by (auto simp: unat_eq_0 [symmetric])
  then show ?thesis using draw_mids_distinct [OF assms] by (auto simp: in_set_conv_nth)
qed

theorem mids_are_fresh_witness:
  "distinct (draw_mids 3 65534) \<and> 0 \<notin> set (draw_mids 3 65534)"
  by (rule mids_are_fresh) simp

end
