(* ===== verification/Packet.thy ===== *)
theory Packet
  imports SmpApi MosqBase
begin

text \<open>
  \<open>lib/packet_mosq.c\<close> in the WITH_WEEVE_SMP build (no TLS, no websockets), together with the
  part of \<open>struct mosquitto\<close> it works on. The library (client) and the broker compile the same
  file; \<open>role = SMP_MQTTS_BROKER\<close> stands for \<open>WITH_BROKER\<close>.

  A connection extends the SMP machine, so the SMP routines run on it as they are. The socket is
  given by what its calls will return: \<open>c_rx\<close> is what the next reads meet, \<open>c_tx\<close> what the next
  writes meet, and \<open>c_wire\<close> collects the bytes the socket has taken. \<open>c_events\<close> records the calls
  of the user's callbacks. Allocations succeed or fail as the world's fault stream says.
\<close>

datatype client_state =
    mosq_cs_new | mosq_cs_connected | mosq_cs_disconnecting | mosq_cs_connect_async
  | mosq_cs_connect_pending | mosq_cs_connect_srv | mosq_cs_disconnect_ws | mosq_cs_disconnected
  | mosq_cs_socks5_new | mosq_cs_socks5_start | mosq_cs_socks5_request | mosq_cs_socks5_reply
  | mosq_cs_socks5_auth_ok | mosq_cs_socks5_userpass_reply | mosq_cs_socks5_send_userpass
  | mosq_cs_expiring | mosq_cs_connecting | mosq_cs_duplicate

text \<open>A heap block: a NULL pointer, a freed block, or a live one.\<close>

datatype block = Null | Freed | Live bytes

record mosquitto__packet =
  payload :: "bytes option"
  remaining_mult :: nat
  remaining_length :: nat
  packet_length :: nat
  to_process :: nat
  pos :: nat
  p_mid :: "16 word"
  command :: byte
  remaining_count :: int
  smp_payload :: block
  mqttPacket :: wos_buffer
  smp_remaining_mult :: nat
  smp_remaining_length :: nat
  smp_to_process :: nat
  smp_pos :: nat
  smp_remaining_count :: int

datatype errno = NO_ERROR | EAGAIN | ECONNRESET | EOTHER

text \<open>A chunk of no bytes is the end of the stream.\<close>

datatype rx_event = Chunk bytes | Rx_error errno
datatype tx_event = Accept nat | Tx_error errno

datatype mosq_event =
    On_publish "16 word"
  | On_disconnect
  | On_subscribe "16 word" bytes
  | On_unsubscribe "16 word"
  | On_connect byte byte
  | On_message bytes bytes nat bool

record 'p connection = "'p smp_world" +
  smpSession :: wcl_session
  sock_open :: bool
  conn_state :: client_state
  is_bridge :: bool
  c_errno :: errno
  c_rx :: "rx_event list"
  c_tx :: "tx_event list"
  c_wire :: bytes
  c_now :: nat
  c_keepalive :: "16 word"
  next_msg_out :: nat
  last_msg_in :: nat
  ping_t :: nat
  in_packet :: mosquitto__packet
  current_out_packet :: "mosquitto__packet option"
  out_packet :: "mosquitto__packet list"
  in_callback :: bool
  is_threaded :: bool
  c_events :: "mosq_event list"

section \<open>The commands of the protocol (lib/mqtt3_protocol.h)\<close>

definition CONNECT :: byte where "CONNECT = 0x10"
definition CONNACK :: byte where "CONNACK = 0x20"
definition PUBLISH :: byte where "PUBLISH = 0x30"
definition PUBACK :: byte where "PUBACK = 0x40"
definition PUBREC :: byte where "PUBREC = 0x50"
definition PUBREL :: byte where "PUBREL = 0x60"
definition PUBCOMP :: byte where "PUBCOMP = 0x70"
definition SUBSCRIBE :: byte where "SUBSCRIBE = 0x80"
definition SUBACK :: byte where "SUBACK = 0x90"
definition UNSUBSCRIBE :: byte where "UNSUBSCRIBE = 0xA0"
definition UNSUBACK :: byte where "UNSUBACK = 0xB0"
definition PINGREQ :: byte where "PINGREQ = 0xC0"
definition PINGRESP :: byte where "PINGRESP = 0xD0"
definition DISCONNECT :: byte where "DISCONNECT = 0xE0"

lemmas command_defs = CONNECT_def CONNACK_def PUBLISH_def PUBACK_def PUBREC_def PUBREL_def PUBCOMP_def
  SUBSCRIBE_def SUBACK_def UNSUBSCRIBE_def UNSUBACK_def PINGREQ_def PINGRESP_def DISCONNECT_def

section \<open>Memory\<close>

text \<open>\<open>mosquitto__malloc\<close> and \<open>mosquitto__calloc\<close>, followed by the caller's test of the pointer.\<close>

definition mosquitto__malloc :: "nat \<Rightarrow> 'e \<Rightarrow> (('p, 'z) world_scheme, 'e, bytes) comp" where
  "mosquitto__malloc n e w =
     (case libc_call w of
        (True, w') \<Rightarrow> (Inr (replicate n (w_junk w')), w')
      | (False, w') \<Rightarrow> (Inl (Code e), w'))"

definition mosquitto__calloc :: "'e \<Rightarrow> (('p, 'z) world_scheme, 'e, unit) comp" where
  "mosquitto__calloc e w =
     (case libc_call w of (True, w') \<Rightarrow> (Inr (), w') | (False, w') \<Rightarrow> (Inl (Code e), w'))"

text \<open>Copying into a block; outside of it the access is a fault.\<close>

definition poke :: "bytes \<Rightarrow> nat \<Rightarrow> bytes \<Rightarrow> ('e, bytes) res" where
  "poke m i bs = (if i + length bs \<le> length m then Inr (take i m @ bs @ drop (i + length bs) m)
                  else Inl Fault)"

definition slice :: "bytes \<Rightarrow> nat \<Rightarrow> nat \<Rightarrow> ('e, bytes) res" where
  "slice m i n = (if i + n \<le> length m then Inr (take n (drop i m)) else Inl Fault)"

lemma calm_malloc [simp]:
  "calm w \<Longrightarrow> mosquitto__malloc n e w = (Inr (replicate n (w_junk w)), w)"
  "calm w \<Longrightarrow> mosquitto__calloc e w = (Inr (), w)"
  by (simp_all add: mosquitto__malloc_def mosquitto__calloc_def)

lemma poke_inside [simp]:
  "i + length bs \<le> length m \<Longrightarrow> poke m i bs = Inr (take i m @ bs @ drop (i + length bs) m)"
  by (simp add: poke_def)

lemma slice_inside [simp]: "i + n \<le> length m \<Longrightarrow> slice m i n = Inr (take n (drop i m))"
  by (simp add: slice_def)

section \<open>Remaining length\<close>

text \<open>
  The do-while loop of \<open>packet__alloc\<close> and \<open>mosq_wclSmpGetMessage\<close>: seven bits per byte, at most
  five bytes; \<open>count\<close> is the number of bytes written before.
\<close>

function remaining_bytes :: "nat \<Rightarrow> nat \<Rightarrow> bytes" where
  "remaining_bytes count n =
     (let digit = word_of_nat (n mod 128) :: byte; n' = n div 128;
          b = (if 0 < n' then digit OR 0x80 else digit)
      in if 0 < n' \<and> Suc count < 5 then b # remaining_bytes (Suc count) n' else [b])"
  by pat_completeness auto
termination by (relation "measure (\<lambda>(count, n). 5 - count)") auto

declare remaining_bytes.simps [simp del]

section \<open>Allocating, filling and reading packets\<close>

definition packet__alloc ::
    "mosquitto__packet \<Rightarrow> (('p, 'z) world_scheme, mosq_err, mosquitto__packet) comp" where
  "packet__alloc p =
     (let rb = remaining_bytes 0 (remaining_length p); count = length rb;
          total = u32 (remaining_length p + 1 + count)
      in bindE (ensure (count \<noteq> 5) (Code MOSQ_ERR_PAYLOAD_SIZE)) (\<lambda>_.
         bindE (mosquitto__malloc total MOSQ_ERR_NOMEM) (\<lambda>m.
         bindE (pure_res (poke m 0 (command p # rb))) (\<lambda>m'.
         ok (p\<lparr>payload := Some m', remaining_count := int count, packet_length := total,
               pos := 1 + count, smp_payload := Null, mqttPacket := None, smp_remaining_mult := 1,
               smp_remaining_length := 0, smp_to_process := 0, smp_pos := 0,
               smp_remaining_count := 0\<rparr>)))))"

definition packet__cleanup :: "mosquitto__packet \<Rightarrow> mosquitto__packet" where
  "packet__cleanup p = p\<lparr>mqttPacket := None, smp_remaining_mult := 1, smp_remaining_length := 0,
     smp_to_process := 0, smp_pos := 0, smp_remaining_count := 0, command := 0, remaining_count := 0,
     remaining_mult := 1, remaining_length := 0, payload := None, to_process := 0, pos := 0\<rparr>"

text \<open>A packet as \<open>calloc\<close> gives it.\<close>

definition fresh_packet :: mosquitto__packet where
  "fresh_packet = \<lparr>payload = None, remaining_mult = 0, remaining_length = 0, packet_length = 0,
     to_process = 0, pos = 0, p_mid = 0, command = 0, remaining_count = 0, smp_payload = Null,
     mqttPacket = None, smp_remaining_mult = 0, smp_remaining_length = 0, smp_to_process = 0,
     smp_pos = 0, smp_remaining_count = 0\<rparr>"

subsection \<open>Writing\<close>

text \<open>The writers assert that the bytes fit; a failed assertion is a fault.\<close>

definition packet__write_bytes :: "bytes \<Rightarrow> (mosquitto__packet, mosq_err, unit) comp" where
  "packet__write_bytes bs =
     bindE (asks id) (\<lambda>p.
     bindE (ensure (u32 (pos p + length bs) \<le> packet_length p) Fault) (\<lambda>_.
     bindE (pure_res (case payload p of None \<Rightarrow> Inl Fault | Some m \<Rightarrow> poke m (pos p) bs)) (\<lambda>m.
     modify (\<lambda>p. p\<lparr>payload := Some m, pos := u32 (pos p + length bs)\<rparr>))))"

definition packet__write_byte :: "byte \<Rightarrow> (mosquitto__packet, mosq_err, unit) comp" where
  "packet__write_byte b =
     bindE (asks id) (\<lambda>p.
     bindE (ensure (u32 (pos p + 1) \<le> packet_length p) Fault) (\<lambda>_.
     bindE (pure_res (case payload p of None \<Rightarrow> Inl Fault | Some m \<Rightarrow> poke m (pos p) [b])) (\<lambda>m.
     modify (\<lambda>p. p\<lparr>payload := Some m, pos := u32 (pos p + 1)\<rparr>))))"

definition MOSQ_MSB :: "16 word \<Rightarrow> byte" where "MOSQ_MSB A = ucast (drop_bit 8 (A AND 0xFF00))"
definition MOSQ_LSB :: "16 word \<Rightarrow> byte" where "MOSQ_LSB A = ucast (A AND 0x00FF)"

definition packet__write_uint16 :: "16 word \<Rightarrow> (mosquitto__packet, mosq_err, unit) comp" where
  "packet__write_uint16 w =
     bindE (packet__write_byte (MOSQ_MSB w)) (\<lambda>_. packet__write_byte (MOSQ_LSB w))"

text \<open>The caller passes the string's bytes; only \<open>length\<close>, cut to 16 bits, of them are written.\<close>

definition packet__write_string :: "bytes \<Rightarrow> 16 word \<Rightarrow> (mosquitto__packet, mosq_err, unit) comp" where
  "packet__write_string str len =
     bindE (packet__write_uint16 len) (\<lambda>_.
     bindE (pure_res (slice str 0 (unat len))) packet__write_bytes)"

subsection \<open>Reading\<close>

text \<open>All readers work on the connection's \<open>in_packet\<close>.\<close>

definition in_pos :: "(nat \<Rightarrow> nat) \<Rightarrow> ('p, 'z) connection_scheme \<Rightarrow> ('p, 'z) connection_scheme" where
  "in_pos f w = w\<lparr>in_packet := (in_packet w)\<lparr>pos := f (pos (in_packet w))\<rparr>\<rparr>"

definition in_payload :: "nat \<Rightarrow> nat \<Rightarrow> (('p, 'z) connection_scheme, mosq_err, bytes) comp" where
  "in_payload i n =
     bindE (asks (\<lambda>w. payload (in_packet w))) (\<lambda>m.
     pure_res (case m of None \<Rightarrow> if n = 0 then Inr [] else Inl Fault | Some m \<Rightarrow> slice m i n))"

definition packet__read_byte :: "(('p, 'z) connection_scheme, mosq_err, byte) comp" where
  "packet__read_byte =
     bindE (asks in_packet) (\<lambda>p.
     bindE (ensure (\<not> remaining_length p < u32 (pos p + 1)) (Code MOSQ_ERR_PROTOCOL)) (\<lambda>_.
     bindE (in_payload (pos p) 1) (\<lambda>bs.
     bindE (modify (in_pos (\<lambda>n. u32 (n + 1)))) (\<lambda>_. ok (hd bs)))))"

definition packet__read_bytes :: "nat \<Rightarrow> (('p, 'z) connection_scheme, mosq_err, bytes) comp" where
  "packet__read_bytes count =
     bindE (asks in_packet) (\<lambda>p.
     bindE (ensure (\<not> remaining_length p < u32 (pos p + count)) (Code MOSQ_ERR_PROTOCOL)) (\<lambda>_.
     bindE (in_payload (pos p) count) (\<lambda>bs.
     bindE (modify (in_pos (\<lambda>n. u32 (n + count)))) (\<lambda>_. ok bs))))"

definition packet__read_uint16 :: "(('p, 'z) connection_scheme, mosq_err, 16 word) comp" where
  "packet__read_uint16 =
     bindE (asks in_packet) (\<lambda>p.
     bindE (ensure (\<not> remaining_length p < u32 (pos p + 2)) (Code MOSQ_ERR_PROTOCOL)) (\<lambda>_.
     bindE (in_payload (pos p) 1) (\<lambda>msb.
     bindE (modify (in_pos (\<lambda>n. u32 (n + 1)))) (\<lambda>_.
     bindE (in_payload (u32 (pos p + 1)) 1) (\<lambda>lsb.
     bindE (modify (in_pos (\<lambda>n. u32 (n + 1)))) (\<lambda>_.
     ok (push_bit 8 (ucast (hd msb)) + ucast (hd lsb))))))))"

definition packet__read_string :: "(('p, 'z) connection_scheme, mosq_err, bytes) comp" where
  "packet__read_string =
     bindE packet__read_uint16 (\<lambda>slen.
     bindE (asks in_packet) (\<lambda>p.
     bindE (ensure (\<not> remaining_length p < u32 (pos p + unat slen)) (Code MOSQ_ERR_PROTOCOL)) (\<lambda>_.
     bindE (mosquitto__malloc (unat slen + 1) MOSQ_ERR_NOMEM) (\<lambda>_.
     bindE (in_payload (pos p) (unat slen)) (\<lambda>str.
     bindE (modify (in_pos (\<lambda>n. u32 (n + unat slen)))) (\<lambda>_. ok str))))))"

end
