(* ===== verification/PacketIo.thy ===== *)
theory PacketIo
  imports Packet
begin

text \<open>
  The socket side of \<open>lib/packet_mosq.c\<close>: queueing and writing packets, and reading the SMP frames
  they travel in. An outgoing MQTT packet is secured as one SMP message, and the message is sent
  behind its length in the encoding of the MQTT remaining length. The loops are written over the
  connection; their measures are the bytes that are left.
\<close>

section \<open>The socket (lib/net_mosq.c)\<close>

text \<open>
  A read or write gives a number of bytes, or \<open>None\<close> for -1 with \<open>errno\<close> set; both clear \<open>errno\<close>
  first. A non-blocking socket that has nothing for the caller gives \<open>EAGAIN\<close>.
\<close>

definition net__read ::
    "nat \<Rightarrow> ('p, 'z) connection_scheme \<Rightarrow> bytes option \<times> ('p, 'z) connection_scheme" where
  "net__read n w = (case c_rx w of
     [] \<Rightarrow> (None, w\<lparr>c_errno := EAGAIN\<rparr>)
   | Chunk bs # es \<Rightarrow>
       (Some (take n bs), w\<lparr>c_errno := NO_ERROR, c_rx := (if length bs \<le> n then es else Chunk (drop n bs) # es)\<rparr>)
   | Rx_error e # es \<Rightarrow> (None, w\<lparr>c_errno := e, c_rx := es\<rparr>))"

definition net__write ::
    "bytes \<Rightarrow> ('p, 'z) connection_scheme \<Rightarrow> nat option \<times> ('p, 'z) connection_scheme" where
  "net__write bs w = (case c_tx w of
     [] \<Rightarrow> (None, w\<lparr>c_errno := EAGAIN\<rparr>)
   | Accept k # es \<Rightarrow>
       (Some (min k (length bs)), w\<lparr>c_errno := NO_ERROR, c_tx := es, c_wire := c_wire w @ take k bs\<rparr>)
   | Tx_error e # es \<Rightarrow> (None, w\<lparr>c_errno := e, c_tx := es\<rparr>))"

text \<open>What a routine returns after a failed call: wait (success), or an error.\<close>

definition net_stop :: "errno \<Rightarrow> (mosq_err, bool) res" where
  "net_stop e = (case e of EAGAIN \<Rightarrow> Inr False | ECONNRESET \<Rightarrow> Inl (Code MOSQ_ERR_CONN_LOST)
                 | _ \<Rightarrow> Inl (Code MOSQ_ERR_ERRNO))"

section \<open>Writing the queued packets\<close>

text \<open>The bytes of a packet that are still to be written.\<close>

definition unsent :: "mosquitto__packet \<Rightarrow> (mosq_err, bytes) res" where
  "unsent p = (case payload p of None \<Rightarrow> Inl Fault | Some m \<Rightarrow> slice m (pos p) (to_process p))"

text \<open>
  The inner loop of \<open>packet__write\<close>: \<open>Inr True\<close> when the current packet is out, \<open>Inr False\<close> when
  the socket would block.
\<close>

function send_loop ::
    "('p, 'z) connection_scheme \<Rightarrow> (mosq_err stop + bool) \<times> ('p, 'z) connection_scheme" where
  "send_loop w = (case current_out_packet w of
     None \<Rightarrow> (Inr True, w)
   | Some p \<Rightarrow>
       if 0 < to_process p
       then (case unsent p of
               Inl e \<Rightarrow> (Inl e, w)
             | Inr bs \<Rightarrow>
                (case net__write bs w of
                   (Some k, w1) \<Rightarrow>
                     if 0 < k
                     then send_loop (w1\<lparr>current_out_packet :=
                            Some (p\<lparr>to_process := to_process p - k, pos := pos p + k\<rparr>)\<rparr>)
                     else (net_stop (c_errno w1), w1)
                 | (None, w1) \<Rightarrow> (net_stop (c_errno w1), w1)))
       else (Inr True, w))"
  by pat_completeness auto
termination
  by (relation "measure (\<lambda>w. case current_out_packet w of None \<Rightarrow> 0 | Some p \<Rightarrow> to_process p)")
    (auto split: option.splits if_splits)

declare send_loop.simps [simp del]

text \<open>\<open>current_out_packet\<close> takes the first packet of the queue, if any.\<close>

definition next_packet :: "('p, 'z) connection_scheme \<Rightarrow> ('p, 'z) connection_scheme" where
  "next_packet w = (case out_packet w of
     [] \<Rightarrow> w\<lparr>current_out_packet := None\<rparr>
   | p # ps \<Rightarrow> w\<lparr>current_out_packet := Some p, out_packet := ps\<rparr>)"

definition note_sent :: "('p, 'z) connection_scheme \<Rightarrow> ('p, 'z) connection_scheme" where
  "note_sent w = w\<lparr>next_msg_out := c_now w + unat (c_keepalive w)\<rparr>"

definition record_event :: "mosq_event \<Rightarrow> ('p, 'z) connection_scheme \<Rightarrow> ('p, 'z) connection_scheme" where
  "record_event e w = w\<lparr>c_events := c_events w @ [e]\<rparr>"

text \<open>The inner loop keeps the queue and the current packet, but for its position.\<close>

lemma net__write_keeps:
  "net__write bs w = (r, w') \<Longrightarrow> out_packet w' = out_packet w \<and> current_out_packet w' = current_out_packet w"
  by (auto simp: net__write_def split: list.splits tx_event.splits)

text \<open>One round of the inner loop: it is done, stops, or writes some bytes and goes on.\<close>

lemma send_loop_round:
  assumes "current_out_packet w = Some p"
  obtains (out) "to_process p = 0" "send_loop w = (Inr True, w)"
  | (bad) e where "0 < to_process p" "unsent p = Inl e" "send_loop w = (Inl e, w)"
  | (stop) bs k w1 where "0 < to_process p" "unsent p = Inr bs" "net__write bs w = (k, w1)" "k = None \<or> k = Some 0"
      "send_loop w = (net_stop (c_errno w1), w1)"
  | (more) bs k w1 where "0 < to_process p" "unsent p = Inr bs" "net__write bs w = (Some k, w1)" "0 < k"
      "send_loop w = send_loop (w1\<lparr>current_out_packet :=
         Some (p\<lparr>to_process := to_process p - k, pos := pos p + k\<rparr>)\<rparr>)"
proof (cases "0 < to_process p")
  case False
  then show thesis using assms out by (simp add: send_loop.simps [of w])
next
  case True
  show thesis
  proof (cases "unsent p")
    case (Inl e)
    then show thesis using assms True bad by (simp add: send_loop.simps [of w])
  next
    case (Inr bs)
    obtain k w1 where k: "net__write bs w = (k, w1)" by force
    show thesis
    proof (cases "k = None \<or> k = Some 0")
      case True
      with k Inr assms \<open>0 < to_process p\<close> stop [of bs k w1] show thesis
        by (auto simp: send_loop.simps [of w])
    next
      case False
      then obtain n where "k = Some n" "0 < n" by auto
      with k Inr assms \<open>0 < to_process p\<close> more [of bs n w1] show thesis
        by (auto simp: send_loop.simps [of w])
    qed
  qed
qed

lemma send_loop_keeps:
  "send_loop w = (r, w') \<Longrightarrow> out_packet w' = out_packet w \<and>
     (current_out_packet w' = None \<longleftrightarrow> current_out_packet w = None)"
proof (induction w arbitrary: r w' rule: send_loop.induct)
  case (1 w)
  show ?case
  proof (cases "current_out_packet w")
    case None
    then show ?thesis using "1.prems" by (simp add: send_loop.simps [of w])
  next
    case (Some p)
    from Some show ?thesis
    proof (cases rule: send_loop_round)
      case (more bs k w1)
      with "1.IH" [OF Some more(1,2) more(3) [symmetric] refl more(4), of r w'] "1.prems" Some
        net__write_keeps [OF more(3)]
      show ?thesis by simp
    qed (use "1.prems" Some net__write_keeps in auto)
  qed
qed

text \<open>
  The loop over the packets. After a PUBLISH the library reports the message (a QoS 0 one, says
  the code) to the client; after a DISCONNECT it closes the socket, takes the next packet and stops.
\<close>

function write_loop ::
    "smp_role \<Rightarrow> ('p, 'z) connection_scheme \<Rightarrow> (mosq_err stop + unit) \<times> ('p, 'z) connection_scheme" where
  "write_loop role w = (case current_out_packet w of
     None \<Rightarrow> (Inr (), w)
   | Some p \<Rightarrow>
      (case send_loop w of
         (Inl e, w1) \<Rightarrow> (Inl e, w1)
       | (Inr finished, w1) \<Rightarrow>
           if \<not> finished then (Inr (), w1)
           else if role = SMP_MQTTS_CLIENT \<and> command p AND 0xF6 \<noteq> PUBLISH \<and> command p AND 0xF0 = DISCONNECT
           then (Inr (), record_event On_disconnect (note_sent (next_packet (w1\<lparr>sock_open := False\<rparr>))))
           else write_loop role (note_sent (next_packet
                  (if role = SMP_MQTTS_CLIENT \<and> command p AND 0xF6 = PUBLISH
                   then record_event (On_publish (p_mid p)) w1 else w1)))))"
  by pat_completeness auto
termination
  by (relation "measure (\<lambda>(role, w). length (out_packet w) + (if current_out_packet w = None then 0 else 1))")
    (auto simp: next_packet_def note_sent_def record_event_def split: list.splits
      dest!: send_loop_keeps [OF sym] arg_cong [of "_ # _" _ length])

declare write_loop.simps [simp del]

definition packet__write ::
    "smp_role \<Rightarrow> (('p, 'z) connection_scheme, mosq_err, unit) comp" where
  "packet__write role =
     bindE (asks sock_open) (\<lambda>opened.
     bindE (ensure opened (Code MOSQ_ERR_NO_CONN)) (\<lambda>_.
     bindE (modify (\<lambda>w. if out_packet w \<noteq> [] \<and> current_out_packet w = None then next_packet w else w)) (\<lambda>_.
     bindE (asks conn_state) (\<lambda>state.
     if state = mosq_cs_connect_pending then ok () else write_loop role))))"

section \<open>Queueing a packet\<close>

datatype get_message_error = Wcl wcl_error | Too_long

text \<open>
  \<open>mosq_wclSmpGetMessage\<close>: the SMP message of a packet behind its length. The frame is built in one
  block of the summed size.
\<close>

definition mosq_wclSmpGetMessage ::
    "('e, 'v) cbor_api \<Rightarrow> ('k, 'p) tom_api \<Rightarrow> smp_role \<Rightarrow> wcl_session \<Rightarrow> byte \<Rightarrow> wos_buffer \<Rightarrow>
     (('p, 'z) smp_world_scheme, get_message_error, bytes) comp" where
  "mosq_wclSmpGetMessage C T role session mtype pStdProtocolPacket =
     bindE (on_error (map_stop Wcl) (wclSmpGetMessage C T role session mtype pStdProtocolPacket)) (\<lambda>msg.
     bindE (ok (remaining_bytes 0 (u32 (length msg)))) (\<lambda>rb.
     bindE (ensure (length rb \<noteq> 5) (Code Too_long)) (\<lambda>_.
     bindE (mosquitto__malloc (u32 (length msg + length rb)) (Wcl WCL_ERROR_OUT_OF_MEMORY)) (\<lambda>m.
     bindE (pure_res (poke m 0 rb)) (\<lambda>m1. pure_res (poke m1 (length rb) msg))))))"

definition enqueue :: "mosquitto__packet \<Rightarrow> ('p, 'z) connection_scheme \<Rightarrow> ('p, 'z) connection_scheme" where
  "enqueue p w = w\<lparr>out_packet := out_packet w @ [p\<lparr>pos := 0, to_process := packet_length p\<rparr>]\<rparr>"

definition packet__queue ::
    "('e, 'v) cbor_api \<Rightarrow> ('k, 'p) tom_api \<Rightarrow> smp_role \<Rightarrow> mosquitto__packet \<Rightarrow>
     (('p, 'z) connection_scheme, mosq_err, unit) comp" where
  "packet__queue C T role p =
     bindE (pure_res (case payload p of None \<Rightarrow> Inl Fault | Some m \<Rightarrow> peek m 0)) (\<lambda>head.
     bindE (pure_res (slice (the (payload p)) 0 (packet_length p))) (\<lambda>mqtt.
     bindE (asks smpSession) (\<lambda>session.
     bindE (on_error (as_code MOSQ_ERR_UNKNOWN)
              (mosq_wclSmpGetMessage C T role session (drop_bit 4 head) (Some mqtt))) (\<lambda>frame.
     bindE (modify (enqueue (p\<lparr>payload := Some frame, packet_length := length frame\<rparr>))) (\<lambda>_.
     bindE (asks (\<lambda>w. role = SMP_MQTTS_BROKER \<or> \<not> in_callback w \<and> \<not> is_threaded w)) (\<lambda>now.
     if now then packet__write role else ok ()))))))"

section \<open>Reading an SMP frame\<close>

definition upd_in ::
    "(mosquitto__packet \<Rightarrow> mosquitto__packet) \<Rightarrow> ('p, 'z) connection_scheme \<Rightarrow> ('p, 'z) connection_scheme" where
  "upd_in f w = w\<lparr>in_packet := f (in_packet w)\<rparr>"

text \<open>The bytes of a length field counted down from zero; the value is assembled modulo 2^32.\<close>

definition smp_length_byte :: "byte \<Rightarrow> mosquitto__packet \<Rightarrow> mosquitto__packet" where
  "smp_length_byte b p = p\<lparr>
     smp_remaining_length := u32 (smp_remaining_length p + unat (b AND 127) * smp_remaining_mult p),
     smp_remaining_mult := u32 (smp_remaining_mult p * 128)\<rparr>"

text \<open>\<open>Inr True\<close>: the length is complete; \<open>Inr False\<close>: wait for more.\<close>

function smp_length_loop ::
    "('p, 'z) connection_scheme \<Rightarrow> (mosq_err stop + bool) \<times> ('p, 'z) connection_scheme" where
  "smp_length_loop w = (case net__read 1 w of
     (Some [b], w1) \<Rightarrow>
       (let w2 = w1\<lparr>in_packet := (in_packet w)\<lparr>smp_remaining_count := smp_remaining_count (in_packet w) - 1\<rparr>\<rparr>
        in if smp_remaining_count (in_packet w) - 1 < - 4 then (Inl (Code MOSQ_ERR_PROTOCOL), w2)
           else (let w3 = upd_in (smp_length_byte b) w2
                 in if b AND 128 \<noteq> 0 then smp_length_loop w3 else (Inr True, w3)))
   | (Some _, w1) \<Rightarrow> (Inl (Code MOSQ_ERR_CONN_LOST), w1)
   | (None, w1) \<Rightarrow> (net_stop (c_errno w1), w1))"
  by pat_completeness auto
termination
  by (relation "measure (\<lambda>w. nat (smp_remaining_count (in_packet w) + 5))")
    (auto simp: upd_in_def smp_length_byte_def)

declare smp_length_loop.simps [simp del]

function smp_body_loop ::
    "('p, 'z) connection_scheme \<Rightarrow> (mosq_err stop + bool) \<times> ('p, 'z) connection_scheme" where
  "smp_body_loop w =
     (let p = in_packet w in
      if 0 < smp_to_process p
      then (case net__read (smp_to_process p) w of
              (Some [], w1) \<Rightarrow> (net_stop (c_errno w1), w1)
            | (Some (b # bs), w1) \<Rightarrow>
                (case (case smp_payload p of Live m \<Rightarrow> poke m (smp_pos p) (b # bs) | _ \<Rightarrow> Inl Fault) of
                   Inl e \<Rightarrow> (Inl e, w1)
                 | Inr m' \<Rightarrow> smp_body_loop (w1\<lparr>in_packet := p\<lparr>smp_payload := Live m',
                               smp_to_process := smp_to_process p - length (b # bs),
                               smp_pos := smp_pos p + length (b # bs)\<rparr>\<rparr>))
            | (None, w1) \<Rightarrow> (net_stop (c_errno w1), w1))
      else (Inr True, w))"
  by pat_completeness auto
termination
  by (relation "measure (\<lambda>w. smp_to_process (in_packet w))") auto

declare smp_body_loop.simps [simp del]

text \<open>Behind the length: make it positive and allocate the block for the message.\<close>

definition smp_start_body :: "(('p, 'z) connection_scheme, mosq_err, unit) comp" where
  "smp_start_body =
     bindE (modify (upd_in (\<lambda>p. p\<lparr>smp_remaining_count := - smp_remaining_count p\<rparr>))) (\<lambda>_.
     bindE (asks (smp_remaining_length \<circ> in_packet)) (\<lambda>len.
     if 0 < len
     then bindE (rescue (mosquitto__malloc len MOSQ_ERR_NOMEM)
                   (\<lambda>e. bindE (modify (upd_in (\<lambda>p. p\<lparr>smp_payload := Null\<rparr>))) (\<lambda>_. fail e))) (\<lambda>m.
          modify (upd_in (\<lambda>p. p\<lparr>smp_payload := Live m, smp_to_process := len\<rparr>)))
     else ok ()))"

text \<open>The buffer handed to the SMP layer; a freed block may only be passed with length 0.\<close>

definition smp_packet :: "mosquitto__packet \<Rightarrow> (mosq_err, wos_buffer) res" where
  "smp_packet p = (case smp_payload p of
     Null \<Rightarrow> Inr None
   | Freed \<Rightarrow> if smp_remaining_length p = 0 then Inr (Some []) else Inl Fault
   | Live m \<Rightarrow> bindR (slice m 0 (smp_remaining_length p)) (\<lambda>bs. Inr (Some bs)))"

definition smp_deliver ::
    "('e, 'v) cbor_api \<Rightarrow> ('k, 'p) tom_api \<Rightarrow> smp_role \<Rightarrow> (('p, 'z) connection_scheme, mosq_err, unit) comp" where
  "smp_deliver C T role =
     bindE (modify (upd_in (\<lambda>p. p\<lparr>smp_pos := 0\<rparr>))) (\<lambda>_.
     bindE (asks in_packet) (\<lambda>p.
     bindE (pure_res (smp_packet p)) (\<lambda>smpPacket.
     bindE (asks smpSession) (\<lambda>session.
     bindE (on_error (as_code MOSQ_ERR_UNKNOWN) (wclSmpProcessMessage C T role session smpPacket)) (\<lambda>mqtt.
     bindE (modify (upd_in (\<lambda>p. p\<lparr>mqttPacket := mqtt, smp_payload := Freed\<rparr>))) (\<lambda>_.
     ensure (\<not> (mqtt = None \<or> length (the mqtt) \<le> 0)) (Code MOSQ_ERR_UNKNOWN)))))))"

text \<open>\<open>Inr ()\<close> is \<open>MOSQ_ERR_SUCCESS\<close>, also when the frame is not complete; then \<open>c_errno\<close> tells.\<close>

definition packet__read_smp ::
    "('e, 'v) cbor_api \<Rightarrow> ('k, 'p) tom_api \<Rightarrow> smp_role \<Rightarrow> (('p, 'z) connection_scheme, mosq_err, unit) comp" where
  "packet__read_smp C T role =
     bindE (asks (\<lambda>w. smp_remaining_count (in_packet w) \<le> 0)) (\<lambda>in_length.
     bindE (if in_length then smp_length_loop else ok True) (\<lambda>go.
     if \<not> go then ok ()
     else bindE (if in_length then smp_start_body else ok ()) (\<lambda>_.
          bindE smp_body_loop (\<lambda>go. if \<not> go then ok () else smp_deliver C T role))))"

section \<open>Reading an MQTT packet\<close>

text \<open>
  The length loop over the decrypted packet. It may run to one byte behind the packet, and that
  byte is outside the buffer.
\<close>

function mqtt_length_loop ::
    "bytes \<Rightarrow> nat \<Rightarrow> mosquitto__packet \<Rightarrow> (mosq_err stop + nat) \<times> mosquitto__packet" where
  "mqtt_length_loop m offset p = (case peek m offset of
     Inl e \<Rightarrow> (Inl e, p)
   | Inr b \<Rightarrow>
      (let p1 = p\<lparr>remaining_count := remaining_count p - 1\<rparr>
       in if remaining_count p - 1 < - 4 then (Inl (Code MOSQ_ERR_PROTOCOL), p1)
          else (let p2 = p1\<lparr>remaining_length := u32 (remaining_length p + unat (b AND 127) * remaining_mult p),
                            remaining_mult := u32 (remaining_mult p * 128)\<rparr>
                in if b AND 128 \<noteq> 0 \<and> Suc offset \<le> length m then mqtt_length_loop m (Suc offset) p2
                   else (Inr (Suc offset), p2))))"
  by pat_completeness auto
termination
  by (relation "measure (\<lambda>(m, offset, p). nat (remaining_count p + 5))") auto

declare mqtt_length_loop.simps [simp del]

definition in_mqtt_length :: "bytes \<Rightarrow> nat \<Rightarrow> (('p, 'z) connection_scheme, mosq_err, nat) comp" where
  "in_mqtt_length m offset w =
     (case mqtt_length_loop m offset (in_packet w) of
        (Inl e, p) \<Rightarrow> (Inl e, w\<lparr>in_packet := p\<rparr>)
      | (Inr n, p) \<Rightarrow> (Inr n, w\<lparr>in_packet := p\<lparr>remaining_count := - remaining_count p\<rparr>\<rparr>))"

text \<open>
  The payload is copied behind the length field, as many bytes as the field says.
\<close>

definition copy_payload :: "bytes \<Rightarrow> nat \<Rightarrow> (('p, 'z) connection_scheme, mosq_err, unit) comp" where
  "copy_payload m offset =
     bindE (asks (remaining_length \<circ> in_packet)) (\<lambda>len.
     if 0 < len
     then bindE (mosquitto__malloc len MOSQ_ERR_NOMEM) (\<lambda>_.
          bindE (pure_res (slice m offset len)) (\<lambda>bs.
          modify (upd_in (\<lambda>p. p\<lparr>payload := Some bs, to_process := 0, pos := 0\<rparr>))))
     else ok ())"

text \<open>Run the handler, reset the packet whatever it returned, and note the time.\<close>

definition handle_packet_then_reset ::
    "(('p, 'z) connection_scheme, mosq_err, unit) comp \<Rightarrow> (('p, 'z) connection_scheme, mosq_err, unit) comp" where
  "handle_packet_then_reset handle w =
     (case handle w of
        (Inl Fault, w') \<Rightarrow> (Inl Fault, w')
      | (r, w') \<Rightarrow> (r, (upd_in packet__cleanup w')\<lparr>last_msg_in := c_now w'\<rparr>))"

text \<open>The first byte; a broker insists that a new client's first packet is a CONNECT.\<close>

definition read_command :: "smp_role \<Rightarrow> bytes \<Rightarrow> (('p, 'z) connection_scheme, mosq_err, unit) comp" where
  "read_command role m =
     bindE (pure_res (peek m 0)) (\<lambda>b.
     bindE (modify (upd_in (\<lambda>p. p\<lparr>command := b\<rparr>))) (\<lambda>_.
     bindE (asks (\<lambda>w. role = SMP_MQTTS_BROKER \<and> \<not> is_bridge w \<and> conn_state w = mosq_cs_new)) (\<lambda>first.
     ensure (\<not> (first \<and> b AND 0xF0 \<noteq> CONNECT)) (Code MOSQ_ERR_PROTOCOL))))"

text \<open>From the decrypted packet to the handler.\<close>

definition read_mqtt ::
    "smp_role \<Rightarrow> bool \<Rightarrow> (('p, 'z) connection_scheme, mosq_err, unit) comp \<Rightarrow>
     (('p, 'z) connection_scheme, mosq_err, unit) comp" where
  "read_mqtt role fresh handle =
     bindE (asks (\<lambda>w. case mqttPacket (in_packet w) of None \<Rightarrow> [] | Some m \<Rightarrow> m)) (\<lambda>m.
     bindE (ensure (\<not> length m < 2) (Code MOSQ_ERR_PROTOCOL)) (\<lambda>_.
     bindE (if fresh then read_command role m else ok ()) (\<lambda>_.
     bindE (asks (\<lambda>w. remaining_count (in_packet w) \<le> 0)) (\<lambda>in_length.
     bindE (if in_length then in_mqtt_length m (if fresh then 1 else 0)
            else ok (if fresh then 1 else 0)) (\<lambda>offset.
     bindE (copy_payload m offset) (\<lambda>_.
     handle_packet_then_reset handle))))))"

text \<open>\<open>packet__read\<close>; \<open>handle\<close> is the broker's or the library's \<open>handle__packet\<close>.\<close>

definition packet__read ::
    "('e, 'v) cbor_api \<Rightarrow> ('k, 'p) tom_api \<Rightarrow> smp_role \<Rightarrow> (('p, 'z) connection_scheme, mosq_err, unit) comp \<Rightarrow>
     (('p, 'z) connection_scheme, mosq_err, unit) comp" where
  "packet__read C T role handle =
     bindE (asks sock_open) (\<lambda>opened.
     bindE (ensure opened (Code MOSQ_ERR_NO_CONN)) (\<lambda>_.
     bindE (asks conn_state) (\<lambda>state.
     if state = mosq_cs_connect_pending then ok ()
     else
       bindE (asks (\<lambda>w. command (in_packet w) = 0)) (\<lambda>fresh.
       bindE (if fresh then packet__read_smp C T role else ok ()) (\<lambda>_.
       bindE (asks (\<lambda>w. fresh \<and> c_errno w = EAGAIN)) (\<lambda>wait.
       if wait then ok () else read_mqtt role fresh handle))))))"

end
