(* ===== verification/Send.thy ===== *)
theory Send
  imports PacketIo
begin

text \<open>
  The packets the program sends (\<open>lib/send_mosq.c\<close>, \<open>send_publish.c\<close>, \<open>send_subscribe.c\<close>,
  \<open>send_unsubscribe.c\<close>, \<open>send_connect.c\<close>, \<open>src/send_connack.c\<close>, \<open>src/send_suback.c\<close>): each
  allocates a packet, fills it field by field and queues it. Strings are given by their bytes
  before the NUL. Logging and statistics are left out.
\<close>

section \<open>Building a packet\<close>

text \<open>
  A zeroed packet with the given header, allocated and filled by \<open>wr\<close>, then queued. The
  packet is a local object: the fields are written to it and not to the connection.
\<close>

definition fill_packet ::
    "(mosquitto__packet, mosq_err, unit) comp \<Rightarrow> mosquitto__packet \<Rightarrow>
     (('p, 'z) world_scheme, mosq_err, mosquitto__packet) comp" where
  "fill_packet wr p w = (case wr p of (Inl e, _) \<Rightarrow> (Inl e, w) | (Inr _, q) \<Rightarrow> (Inr q, w))"

definition send_packet ::
    "('e, 'v) cbor_api \<Rightarrow> ('k, 'p) tom_api \<Rightarrow> smp_role \<Rightarrow> byte \<Rightarrow> nat \<Rightarrow> 16 word \<Rightarrow>
     (mosquitto__packet, mosq_err, unit) comp \<Rightarrow> (('p, 'z) connection_scheme, mosq_err, unit) comp" where
  "send_packet C T role cmd len mid wr =
     bindE (mosquitto__calloc MOSQ_ERR_NOMEM) (\<lambda>_.
     bindE (packet__alloc (fresh_packet\<lparr>command := cmd, remaining_length := len, p_mid := mid\<rparr>)) (\<lambda>p.
     bindE (fill_packet wr p) (\<lambda>q.
     packet__queue C T role q)))"

section \<open>Acknowledgements, pings, disconnects (lib/send_mosq.c, lib/send_disconnect.c)\<close>

text \<open>The message id is stored without moving the position.\<close>

definition put_mid :: "16 word \<Rightarrow> (mosquitto__packet, mosq_err, unit) comp" where
  "put_mid mid =
     bindE (asks id) (\<lambda>p.
     bindE (pure_res (case payload p of None \<Rightarrow> Inl Fault
                      | Some m \<Rightarrow> poke m (pos p) [MOSQ_MSB mid, MOSQ_LSB mid])) (\<lambda>m.
     modify (\<lambda>p. p\<lparr>payload := Some m\<rparr>)))"

definition send__command_with_mid ::
    "('e, 'v) cbor_api \<Rightarrow> ('k, 'p) tom_api \<Rightarrow> smp_role \<Rightarrow> byte \<Rightarrow> 16 word \<Rightarrow> bool \<Rightarrow>
     (('p, 'z) connection_scheme, mosq_err, unit) comp" where
  "send__command_with_mid C T role cmd mid dup =
     send_packet C T role (if dup then cmd OR 8 else cmd) 2 0 (put_mid mid)"

definition send__simple_command ::
    "('e, 'v) cbor_api \<Rightarrow> ('k, 'p) tom_api \<Rightarrow> smp_role \<Rightarrow> byte \<Rightarrow>
     (('p, 'z) connection_scheme, mosq_err, unit) comp" where
  "send__simple_command C T role cmd = send_packet C T role cmd 0 0 (ok ())"

definition send__pingreq ::
    "('e, 'v) cbor_api \<Rightarrow> ('k, 'p) tom_api \<Rightarrow> smp_role \<Rightarrow> (('p, 'z) connection_scheme, mosq_err, unit) comp" where
  "send__pingreq C T role =
     bindE (send__simple_command C T role PINGREQ) (\<lambda>_. modify (\<lambda>w. w\<lparr>ping_t := c_now w\<rparr>))"

definition send__pingresp ::
    "('e, 'v) cbor_api \<Rightarrow> ('k, 'p) tom_api \<Rightarrow> smp_role \<Rightarrow> (('p, 'z) connection_scheme, mosq_err, unit) comp" where
  "send__pingresp C T role = send__simple_command C T role PINGRESP"

definition send__puback ::
    "('e, 'v) cbor_api \<Rightarrow> ('k, 'p) tom_api \<Rightarrow> smp_role \<Rightarrow> 16 word \<Rightarrow>
     (('p, 'z) connection_scheme, mosq_err, unit) comp" where
  "send__puback C T role mid = send__command_with_mid C T role PUBACK mid False"

definition send__pubrec ::
    "('e, 'v) cbor_api \<Rightarrow> ('k, 'p) tom_api \<Rightarrow> smp_role \<Rightarrow> 16 word \<Rightarrow>
     (('p, 'z) connection_scheme, mosq_err, unit) comp" where
  "send__pubrec C T role mid = send__command_with_mid C T role PUBREC mid False"

definition send__pubrel ::
    "('e, 'v) cbor_api \<Rightarrow> ('k, 'p) tom_api \<Rightarrow> smp_role \<Rightarrow> 16 word \<Rightarrow>
     (('p, 'z) connection_scheme, mosq_err, unit) comp" where
  "send__pubrel C T role mid = send__command_with_mid C T role (PUBREL OR 2) mid False"

definition send__pubcomp ::
    "('e, 'v) cbor_api \<Rightarrow> ('k, 'p) tom_api \<Rightarrow> smp_role \<Rightarrow> 16 word \<Rightarrow>
     (('p, 'z) connection_scheme, mosq_err, unit) comp" where
  "send__pubcomp C T role mid = send__command_with_mid C T role PUBCOMP mid False"

definition send__disconnect ::
    "('e, 'v) cbor_api \<Rightarrow> ('k, 'p) tom_api \<Rightarrow> smp_role \<Rightarrow> (('p, 'z) connection_scheme, mosq_err, unit) comp" where
  "send__disconnect C T role = send__simple_command C T role DISCONNECT"

section \<open>PUBLISH (lib/send_publish.c)\<close>

text \<open>
  The fixed header byte, in C's int arithmetic cut to a byte. A string's length is cut to 16 bits
  where it is written, while the packet's length counts the whole string.
\<close>

definition publish_command :: "nat \<Rightarrow> bool \<Rightarrow> bool \<Rightarrow> byte" where
  "publish_command qos retain dup =
     PUBLISH OR push_bit 3 (of_bool dup) OR push_bit 1 (word_of_nat qos) OR of_bool retain"

definition publish_length :: "bytes \<Rightarrow> bytes \<Rightarrow> nat \<Rightarrow> nat" where
  "publish_length topic data qos = u32 (2 + length topic + length data + (if 0 < qos then 2 else 0))"

definition publish_fields :: "16 word \<Rightarrow> bytes \<Rightarrow> bytes \<Rightarrow> nat \<Rightarrow> (mosquitto__packet, mosq_err, unit) comp" where
  "publish_fields mid topic data qos =
     bindE (packet__write_string topic (word_of_nat (length topic))) (\<lambda>_.
     bindE (if 0 < qos then packet__write_uint16 mid else ok ()) (\<lambda>_.
     if data \<noteq> [] then packet__write_bytes data else ok ()))"

definition send__real_publish ::
    "('e, 'v) cbor_api \<Rightarrow> ('k, 'p) tom_api \<Rightarrow> smp_role \<Rightarrow> 16 word \<Rightarrow> bytes \<Rightarrow> bytes \<Rightarrow> nat \<Rightarrow> bool \<Rightarrow> bool \<Rightarrow>
     (('p, 'z) connection_scheme, mosq_err, unit) comp" where
  "send__real_publish C T role mid topic data qos retain dup =
     send_packet C T role (publish_command qos retain dup) (publish_length topic data qos) mid
       (publish_fields mid topic data qos)"

section \<open>SUBSCRIBE, UNSUBSCRIBE, SUBACK, CONNACK\<close>

definition subscribe_fields :: "16 word \<Rightarrow> bytes \<Rightarrow> byte \<Rightarrow> (mosquitto__packet, mosq_err, unit) comp" where
  "subscribe_fields mid topic qos =
     bindE (packet__write_uint16 mid) (\<lambda>_.
     bindE (packet__write_string topic (word_of_nat (length topic))) (\<lambda>_.
     packet__write_byte qos))"

definition unsubscribe_fields :: "16 word \<Rightarrow> bytes \<Rightarrow> (mosquitto__packet, mosq_err, unit) comp" where
  "unsubscribe_fields mid topic =
     bindE (packet__write_uint16 mid) (\<lambda>_. packet__write_string topic (word_of_nat (length topic)))"

definition send__connack ::
    "('e, 'v) cbor_api \<Rightarrow> ('k, 'p) tom_api \<Rightarrow> smp_role \<Rightarrow> byte \<Rightarrow> byte \<Rightarrow>
     (('p, 'z) connection_scheme, mosq_err, unit) comp" where
  "send__connack C T role ack result =
     send_packet C T role CONNACK 2 0
       (bindE (asks id) (\<lambda>p.
        bindE (pure_res (case payload p of None \<Rightarrow> Inl Fault | Some m \<Rightarrow> poke m (pos p) [ack, result])) (\<lambda>m.
        modify (\<lambda>p. p\<lparr>payload := Some m\<rparr>))))"

definition send__suback ::
    "('e, 'v) cbor_api \<Rightarrow> ('k, 'p) tom_api \<Rightarrow> smp_role \<Rightarrow> 16 word \<Rightarrow> bytes \<Rightarrow>
     (('p, 'z) connection_scheme, mosq_err, unit) comp" where
  "send__suback C T role mid codes =
     send_packet C T role SUBACK (u32 (2 + length codes)) 0
       (bindE (packet__write_uint16 mid) (\<lambda>_. if codes \<noteq> [] then packet__write_bytes codes else ok ()))"

end
