(* ===== verification/Client.thy ===== *)
theory Client
  imports Send Topics Utf8
begin

text \<open>
  The client side of the mosquitto library: the queues of unfinished messages
  (\<open>lib/messages_mosq.c\<close>), the calls of the user (\<open>lib/actions.c\<close>, \<open>lib/send_connect.c\<close>) and the
  handlers of the packets the broker sends (\<open>lib/handle_*.c\<close>, \<open>lib/read_handle.c\<close>).

  A linked list with its last pointer is a list; messages are found by walking it, as the code does.
  A user's callback is recorded as an event; what the user does in it is a further call. The mutexes
  are left out: every routine runs alone.
\<close>

datatype msg_state =
    mosq_ms_invalid | mosq_ms_publish_qos0 | mosq_ms_publish_qos1 | mosq_ms_wait_for_puback
  | mosq_ms_publish_qos2 | mosq_ms_wait_for_pubrec | mosq_ms_resend_pubrel | mosq_ms_wait_for_pubrel
  | mosq_ms_resend_pubcomp | mosq_ms_wait_for_pubcomp | mosq_ms_send_pubrec | mosq_ms_queued

datatype msg_direction = mosq_md_in | mosq_md_out
datatype protocol = mosq_p_invalid | mosq_p_mqtt31 | mosq_p_mqtt311 | mosq_p_mqtts

record mosquitto_message =
  m_mid :: "16 word"
  m_topic :: bytes
  m_payload :: bytes
  m_qos :: nat
  m_retain :: bool

record mosquitto_message_all = mosquitto_message +
  m_timestamp :: nat
  m_state :: msg_state
  m_dup :: bool

record 'p mosquitto = "'p connection" +
  c_protocol :: protocol
  client_id :: bytes
  username :: "bytes option"
  password :: "bytes option"
  will :: "mosquitto_message option"
  last_mid :: "16 word"
  in_messages :: "mosquitto_message_all list"
  out_messages :: "mosquitto_message_all list"
  in_queue_len :: nat
  out_queue_len :: nat
  inflight_messages :: int
  max_inflight_messages :: int

type_synonym ('p, 'z, 'a) client_comp = "(('p, 'z) mosquitto_scheme, mosq_err, 'a) comp"

text \<open>The call that sends a PUBLISH from the library.\<close>

definition send__publish ::
    "('e, 'v) cbor_api \<Rightarrow> ('k, 'p) tom_api \<Rightarrow> smp_role \<Rightarrow> 16 word \<Rightarrow> bytes \<Rightarrow> bytes \<Rightarrow> nat \<Rightarrow> bool \<Rightarrow> bool \<Rightarrow>
     (('p, 'z) connection_scheme, mosq_err, unit) comp" where
  "send__publish C T role mid topic data qos retain dup =
     bindE (asks sock_open) (\<lambda>opened.
     bindE (ensure opened (Code MOSQ_ERR_NO_CONN)) (\<lambda>_.
     send__real_publish C T role mid topic data qos retain dup))"

definition publish_message ::
    "('e, 'v) cbor_api \<Rightarrow> ('k, 'p) tom_api \<Rightarrow> smp_role \<Rightarrow> mosquitto_message_all \<Rightarrow>
     (('p, 'z) connection_scheme, mosq_err, unit) comp" where
  "publish_message C T role m =
     send__publish C T role (m_mid m) (m_topic m) (m_payload m) (m_qos m) (m_retain m) (m_dup m)"

section \<open>The message queues (lib/messages_mosq.c)\<close>

text \<open>The room for a further message in flight; 0 is no limit.\<close>

definition has_room :: "('p, 'z) mosquitto_scheme \<Rightarrow> bool" where
  "has_room w \<longleftrightarrow> max_inflight_messages w = 0 \<or> inflight_messages w < max_inflight_messages w"

text \<open>\<open>message__queue\<close>; the result is the \<open>rc\<close> of the code: 1 when the message has to wait.\<close>

definition message__queue :: "mosquitto_message_all \<Rightarrow> msg_direction \<Rightarrow> ('p, 'z, nat) client_comp" where
  "message__queue m dir =
     (if dir = mosq_md_out
      then bindE (modify (\<lambda>w. w\<lparr>out_queue_len := out_queue_len w + 1, out_messages := out_messages w @ [m]\<rparr>)) (\<lambda>_.
           bindE (asks has_room) (\<lambda>room.
           if 0 < m_qos m
           then if room then bindE (modify (\<lambda>w. w\<lparr>inflight_messages := inflight_messages w + 1\<rparr>)) (\<lambda>_. ok 0)
                else ok 1
           else ok 0))
      else bindE (modify (\<lambda>w. w\<lparr>in_queue_len := in_queue_len w + 1, in_messages := in_messages w @ [m]\<rparr>)) (\<lambda>_.
           ok 0))"

text \<open>Take the first message with the id off a list.\<close>

fun extract_mid :: "16 word \<Rightarrow> mosquitto_message_all list \<Rightarrow>
    (mosquitto_message_all \<times> mosquitto_message_all list) option" where
  "extract_mid mid [] = None"
| "extract_mid mid (m # ms) =
     (if m_mid m = mid then Some (m, ms)
      else case extract_mid mid ms of None \<Rightarrow> None | Some (x, rest) \<Rightarrow> Some (x, m # rest))"

text \<open>
  The second loop of \<open>message__remove\<close>: waiting messages from the front of the list go out while
  there is room. \<open>i\<close> is the position of the message in the list.
\<close>

definition start_message :: "mosquitto_message_all \<Rightarrow> mosquitto_message_all" where
  "start_message m = (if m_qos m = 1 then m\<lparr>m_state := mosq_ms_wait_for_puback\<rparr>
                      else if m_qos m = 2 then m\<lparr>m_state := mosq_ms_wait_for_pubrec\<rparr> else m)"

fun release_from ::
    "('e, 'v) cbor_api \<Rightarrow> ('k, 'p) tom_api \<Rightarrow> nat \<Rightarrow> mosquitto_message_all list \<Rightarrow> ('p, 'z, unit) client_comp" where
  "release_from C T i [] = ok ()"
| "release_from C T i (m # ms) =
     bindE (asks has_room) (\<lambda>room.
     if \<not> room then ok ()
     else if 0 < m_qos m \<and> m_state m = mosq_ms_invalid
     then bindE (modify (\<lambda>w. w\<lparr>inflight_messages := inflight_messages w + 1,
                               out_messages := (out_messages w)[i := start_message m]\<rparr>)) (\<lambda>_.
          bindE (publish_message C T SMP_MQTTS_CLIENT (start_message m)) (\<lambda>_.
          release_from C T (Suc i) ms))
     else release_from C T (Suc i) ms)"

definition message__remove ::
    "('e, 'v) cbor_api \<Rightarrow> ('k, 'p) tom_api \<Rightarrow> 16 word \<Rightarrow> msg_direction \<Rightarrow>
     ('p, 'z, mosquitto_message_all) client_comp" where
  "message__remove C T mid dir =
     (if dir = mosq_md_out
      then bindE (asks (\<lambda>w. extract_mid mid (out_messages w))) (\<lambda>found.
           case found of
             None \<Rightarrow> fail (Code MOSQ_ERR_NOT_FOUND)
           | Some (m, rest) \<Rightarrow>
               bindE (modify (\<lambda>w. w\<lparr>out_messages := rest, out_queue_len := out_queue_len w - 1,
                 inflight_messages := (if 0 < m_qos m then inflight_messages w - 1 else inflight_messages w)\<rparr>)) (\<lambda>_.
               bindE (release_from C T 0 rest) (\<lambda>_. ok m)))
      else bindE (asks (\<lambda>w. extract_mid mid (in_messages w))) (\<lambda>found.
           case found of
             None \<Rightarrow> fail (Code MOSQ_ERR_NOT_FOUND)
           | Some (m, rest) \<Rightarrow>
               bindE (modify (\<lambda>w. w\<lparr>in_messages := rest, in_queue_len := in_queue_len w - 1\<rparr>)) (\<lambda>_.
               ok m)))"

definition message__delete ::
    "('e, 'v) cbor_api \<Rightarrow> ('k, 'p) tom_api \<Rightarrow> 16 word \<Rightarrow> msg_direction \<Rightarrow> ('p, 'z, unit) client_comp" where
  "message__delete C T mid dir = bindE (message__remove C T mid dir) (\<lambda>_. ok ())"

text \<open>
  Before a reconnect. Incoming messages of QoS 0 and 1 are dropped; when the first one is dropped,
  the code goes on behind its successor without looking at it. \<open>inside\<close> tells whether a
  predecessor was kept.
\<close>

fun reset_in :: "bool \<Rightarrow> mosquitto_message_all list \<Rightarrow> mosquitto_message_all list \<times> nat" where
  "reset_in inside [] = ([], 0)"
| "reset_in inside (m # ms) =
     (if m_qos m \<noteq> 2
      then if inside then (case reset_in True ms of (rest, n) \<Rightarrow> (rest, n + 1))
           else (case ms of [] \<Rightarrow> ([], 1)
                 | m2 # ms2 \<Rightarrow> (case reset_in True ms2 of (rest, n) \<Rightarrow> (m2 # rest, n + 1)))
      else (case reset_in True ms of (rest, n) \<Rightarrow> (m\<lparr>m_timestamp := 0\<rparr> # rest, n + 1)))"

definition restart_message :: "mosquitto_message_all \<Rightarrow> mosquitto_message_all" where
  "restart_message m =
     (if m_qos m = 1 then m\<lparr>m_state := mosq_ms_publish_qos1\<rparr>
      else if m_qos m = 2
      then if m_state m = mosq_ms_wait_for_pubrec then m\<lparr>m_state := mosq_ms_publish_qos2\<rparr>
           else if m_state m = mosq_ms_wait_for_pubcomp then m\<lparr>m_state := mosq_ms_resend_pubrel\<rparr>
           else m
      else m)"

text \<open>The outgoing messages and the number in flight, from the front of the list.\<close>

fun reset_out :: "int \<Rightarrow> int \<Rightarrow> mosquitto_message_all list \<Rightarrow> mosquitto_message_all list \<times> int" where
  "reset_out max_inflight n [] = ([], n)"
| "reset_out max_inflight n (m # ms) =
     (if max_inflight = 0 \<or> n < max_inflight
      then (case reset_out max_inflight (if 0 < m_qos m then n + 1 else n) ms of
              (rest, k) \<Rightarrow> (restart_message (m\<lparr>m_timestamp := 0\<rparr>) # rest, k))
      else (case reset_out max_inflight n ms of
              (rest, k) \<Rightarrow> (m\<lparr>m_timestamp := 0, m_state := mosq_ms_invalid\<rparr> # rest, k)))"

definition message__reconnect_reset :: "('p, 'z) mosquitto_scheme \<Rightarrow> ('p, 'z) mosquitto_scheme" where
  "message__reconnect_reset w =
     (let (ins, in_len) = reset_in False (in_messages w);
          (outs, inflight) = reset_out (max_inflight_messages w) 0 (out_messages w)
      in w\<lparr>in_messages := ins, in_queue_len := in_len, inflight_messages := inflight,
           out_messages := outs, out_queue_len := length outs\<rparr>)"

text \<open>The retry after a CONNACK; results of the sends are not looked at.\<close>

fun retry_from ::
    "('e, 'v) cbor_api \<Rightarrow> ('k, 'p) tom_api \<Rightarrow> nat \<Rightarrow> mosquitto_message_all list \<Rightarrow> ('p, 'z, unit) client_comp" where
  "retry_from C T i [] = ok ()"
| "retry_from C T i (m # ms) =
     (let mark = bindE (asks c_now) (\<lambda>now. modify (\<lambda>w. w\<lparr>out_messages := (out_messages w)[i := m\<lparr>m_timestamp := now, m_dup := True\<rparr>]\<rparr>))
      in bindE
        (if m_state m \<in> {mosq_ms_publish_qos1, mosq_ms_publish_qos2}
         then bindE mark (\<lambda>_. ignore (publish_message C T SMP_MQTTS_CLIENT (m\<lparr>m_dup := True\<rparr>)))
         else if m_state m = mosq_ms_wait_for_pubrel
         then bindE mark (\<lambda>_. ignore (send__pubrec C T SMP_MQTTS_CLIENT (m_mid m)))
         else if m_state m \<in> {mosq_ms_resend_pubrel, mosq_ms_wait_for_pubcomp}
         then bindE mark (\<lambda>_. ignore (send__pubrel C T SMP_MQTTS_CLIENT (m_mid m)))
         else ok ())
        (\<lambda>_. retry_from C T (Suc i) ms))"

definition message__retry_check ::
    "('e, 'v) cbor_api \<Rightarrow> ('k, 'p) tom_api \<Rightarrow> ('p, 'z, unit) client_comp" where
  "message__retry_check C T = bindE (asks out_messages) (\<lambda>ms. retry_from C T 0 ms)"

fun update_mid :: "16 word \<Rightarrow> (mosquitto_message_all \<Rightarrow> mosquitto_message_all) \<Rightarrow> mosquitto_message_all list \<Rightarrow>
    mosquitto_message_all list option" where
  "update_mid mid f [] = None"
| "update_mid mid f (m # ms) =
     (if m_mid m = mid then Some (f m # ms) else map_option ((#) m) (update_mid mid f ms))"

definition message__out_update :: "16 word \<Rightarrow> msg_state \<Rightarrow> ('p, 'z, unit) client_comp" where
  "message__out_update mid state =
     bindE (asks (\<lambda>w. update_mid mid (\<lambda>m. m\<lparr>m_state := state, m_timestamp := c_now w\<rparr>) (out_messages w))) (\<lambda>found.
     case found of None \<Rightarrow> fail (Code MOSQ_ERR_NOT_FOUND)
     | Some ms \<Rightarrow> modify (\<lambda>w. w\<lparr>out_messages := ms\<rparr>))"

definition mosquitto_max_inflight_messages_set :: "int \<Rightarrow> ('p, 'z, unit) client_comp" where
  "mosquitto_max_inflight_messages_set n = modify (\<lambda>w. w\<lparr>max_inflight_messages := n\<rparr>)"

end
