(* ===== verification/ClientHandle.thy ===== *)
theory ClientHandle
  imports Client
begin

text \<open>
  The library's calls (\<open>lib/actions.c\<close>, \<open>lib/send_connect.c\<close>, \<open>lib/send_subscribe.c\<close>,
  \<open>lib/send_unsubscribe.c\<close>) and its packet handlers (\<open>lib/handle_*.c\<close>, \<open>lib/read_handle.c\<close>).
\<close>

text \<open>Run a routine and then change the state, whatever it returned.\<close>

definition and_then :: "('s, 'e, 'a) comp \<Rightarrow> ('s \<Rightarrow> 's) \<Rightarrow> ('s, 'e, 'a) comp" where
  "and_then m f s = (case m s of (Inl Fault, t) \<Rightarrow> (Inl Fault, t) | (r, t) \<Rightarrow> (r, f t))"

definition strlen :: "bytes \<Rightarrow> (mosq_err, nat) res" where
  "strlen m = (if 0 \<in> set m then Inr (length (c_string m)) else Inl Fault)"

definition draw_mid :: "('p, 'z, 16 word) client_comp" where
  "draw_mid =
     bindE (asks (\<lambda>w. mosquitto__mid_generate (last_mid w))) (\<lambda>(mid, last).
     bindE (modify (\<lambda>w. w\<lparr>last_mid := last\<rparr>)) (\<lambda>_. ok mid))"

section \<open>Publishing and subscribing\<close>

definition MQTT_MAX_PAYLOAD :: int where "MQTT_MAX_PAYLOAD = 268435455"

text \<open>The message of QoS 1 or 2: queued first, then sent if there is room in flight.\<close>

definition queue_and_send ::
    "('e, 'v) cbor_api \<Rightarrow> ('k, 'p) tom_api \<Rightarrow> mosquitto_message_all \<Rightarrow> ('p, 'z, unit) client_comp" where
  "queue_and_send C T m =
     bindE (message__queue m mosq_md_out) (\<lambda>queue_status.
     if queue_status = 0
     then bindE (modify (\<lambda>w. w\<lparr>out_messages := (out_messages w)[length (out_messages w) - 1 := start_message m]\<rparr>)) (\<lambda>_.
          publish_message C T SMP_MQTTS_CLIENT (start_message m))
     else ok ())"

definition mosquitto_publish ::
    "('e, 'v) cbor_api \<Rightarrow> ('k, 'p) tom_api \<Rightarrow> bytes option \<Rightarrow> int \<Rightarrow> bytes \<Rightarrow> int \<Rightarrow> bool \<Rightarrow>
     ('p, 'z, 16 word) client_comp" where
  "mosquitto_publish C T topic payloadlen mem qos retain =
     bindE (ensure (topic \<noteq> None \<and> 0 \<le> qos \<and> qos \<le> 2) (Code MOSQ_ERR_INVAL)) (\<lambda>_.
     bindE (pure_res (peek (the topic) 0)) (\<lambda>c.
     bindE (ensure (c \<noteq> 0) (Code MOSQ_ERR_INVAL)) (\<lambda>_.
     bindE (pure_res (strlen (the topic))) (\<lambda>len.
     bindE (on_error (as_code MOSQ_ERR_MALFORMED_UTF8) (pure_res (mosquitto_validate_utf8 topic (int len)))) (\<lambda>_.
     bindE (ensure (0 \<le> payloadlen \<and> payloadlen \<le> MQTT_MAX_PAYLOAD) (Code MOSQ_ERR_PAYLOAD_SIZE)) (\<lambda>_.
     bindE (on_error (as_code MOSQ_ERR_INVAL) (pure_res (mosquitto_pub_topic_check topic))) (\<lambda>_.
     bindE draw_mid (\<lambda>mid.
     bindE (pure_res (slice mem 0 (nat payloadlen))) (\<lambda>data.
     if qos = 0
     then bindE (send__publish C T SMP_MQTTS_CLIENT mid (c_string (the topic)) data 0 retain False) (\<lambda>_. ok mid)
     else bindE (mosquitto__calloc MOSQ_ERR_NOMEM) (\<lambda>_.
          bindE (asks c_now) (\<lambda>now.
          bindE (mosquitto__malloc (len + 1) MOSQ_ERR_NOMEM) (\<lambda>_.
          bindE (if data \<noteq> [] then mosquitto__malloc (length data) MOSQ_ERR_NOMEM else ok []) (\<lambda>_.
          bindE (queue_and_send C T \<lparr>m_mid = mid, m_topic = c_string (the topic), m_payload = data,
            m_qos = nat qos, m_retain = retain, m_timestamp = now, m_state = mosq_ms_invalid, m_dup = False\<rparr>) (\<lambda>_.
          ok mid))))))))))))))"

text \<open>The message id is drawn after the packet was allocated.\<close>

definition send__subscribe ::
    "('e, 'v) cbor_api \<Rightarrow> ('k, 'p) tom_api \<Rightarrow> bytes \<Rightarrow> byte \<Rightarrow> ('p, 'z, 16 word) client_comp" where
  "send__subscribe C T topic qos =
     bindE (mosquitto__calloc MOSQ_ERR_NOMEM) (\<lambda>_.
     bindE (packet__alloc (fresh_packet\<lparr>command := SUBSCRIBE OR push_bit 1 1,
       remaining_length := u32 (2 + 2 + length topic + 1)\<rparr>)) (\<lambda>p.
     bindE draw_mid (\<lambda>mid.
     bindE (fill_packet (subscribe_fields mid topic qos) p) (\<lambda>q.
     bindE (packet__queue C T SMP_MQTTS_CLIENT q) (\<lambda>_. ok mid)))))"

definition send__unsubscribe ::
    "('e, 'v) cbor_api \<Rightarrow> ('k, 'p) tom_api \<Rightarrow> bytes \<Rightarrow> ('p, 'z, 16 word) client_comp" where
  "send__unsubscribe C T topic =
     bindE (mosquitto__calloc MOSQ_ERR_NOMEM) (\<lambda>_.
     bindE (packet__alloc (fresh_packet\<lparr>command := UNSUBSCRIBE OR push_bit 1 1,
       remaining_length := u32 (2 + 2 + length topic)\<rparr>)) (\<lambda>p.
     bindE draw_mid (\<lambda>mid.
     bindE (fill_packet (unsubscribe_fields mid topic) p) (\<lambda>q.
     bindE (packet__queue C T SMP_MQTTS_CLIENT q) (\<lambda>_. ok mid)))))"

definition check_filter :: "bytes option \<Rightarrow> ('p, 'z, unit) client_comp" where
  "check_filter sub =
     bindE (asks sock_open) (\<lambda>opened.
     bindE (ensure opened (Code MOSQ_ERR_NO_CONN)) (\<lambda>_.
     bindE (on_error (as_code MOSQ_ERR_INVAL) (pure_res (mosquitto_sub_topic_check sub))) (\<lambda>_.
     bindE (pure_res (strlen (the sub))) (\<lambda>len.
     bindE (on_error (as_code MOSQ_ERR_MALFORMED_UTF8) (pure_res (mosquitto_validate_utf8 sub (int len)))) (\<lambda>_.
     ok ())))))"

definition mosquitto_subscribe ::
    "('e, 'v) cbor_api \<Rightarrow> ('k, 'p) tom_api \<Rightarrow> bytes option \<Rightarrow> int \<Rightarrow> ('p, 'z, 16 word) client_comp" where
  "mosquitto_subscribe C T sub qos =
     bindE (check_filter sub) (\<lambda>_. send__subscribe C T (c_string (the sub)) (word_of_int qos))"

definition mosquitto_unsubscribe ::
    "('e, 'v) cbor_api \<Rightarrow> ('k, 'p) tom_api \<Rightarrow> bytes option \<Rightarrow> ('p, 'z, 16 word) client_comp" where
  "mosquitto_unsubscribe C T sub =
     bindE (check_filter sub) (\<lambda>_. send__unsubscribe C T (c_string (the sub)))"

section \<open>CONNECT (lib/send_connect.c)\<close>

definition PROTOCOL_NAME_v31 :: bytes where "PROTOCOL_NAME_v31 = cstr ''MQIsdp''"
definition PROTOCOL_NAME_v311 :: bytes where "PROTOCOL_NAME_v311 = cstr ''MQTT''"

text \<open>Optional strings of the payload, each behind its 16-bit length.\<close>

definition option_length :: "bytes option \<Rightarrow> nat" where
  "option_length s = (case s of None \<Rightarrow> 0 | Some b \<Rightarrow> 2 + length b)"

definition write_option :: "bytes option \<Rightarrow> (mosquitto__packet, mosq_err, unit) comp" where
  "write_option s = (case s of None \<Rightarrow> ok () | Some b \<Rightarrow> packet__write_string b (word_of_nat (length b)))"

definition connect_flags :: "mosquitto_message option \<Rightarrow> bytes option \<Rightarrow> bytes option \<Rightarrow> bool \<Rightarrow> byte" where
  "connect_flags wl user pass clean_session =
     push_bit 1 (of_bool clean_session) OR
     (case wl of None \<Rightarrow> 0
      | Some m \<Rightarrow> push_bit 5 (of_bool (m_retain m)) OR push_bit 3 (word_of_nat (m_qos m) AND 3) OR push_bit 2 1) OR
     (case user of None \<Rightarrow> 0 | Some _ \<Rightarrow> push_bit 7 1 OR (if pass = None then 0 else push_bit 6 1))"

definition connect_fields ::
    "bytes \<Rightarrow> byte \<Rightarrow> byte \<Rightarrow> 16 word \<Rightarrow> bytes \<Rightarrow> mosquitto_message option \<Rightarrow> bytes option \<Rightarrow> bytes option \<Rightarrow>
     (mosquitto__packet, mosq_err, unit) comp" where
  "connect_fields name version flags keepalive cid wl user pass =
     bindE (packet__write_string name (word_of_nat (length name))) (\<lambda>_.
     bindE (packet__write_byte version) (\<lambda>_.
     bindE (packet__write_byte flags) (\<lambda>_.
     bindE (packet__write_uint16 keepalive) (\<lambda>_.
     bindE (packet__write_string cid (word_of_nat (length cid))) (\<lambda>_.
     bindE (write_option (map_option m_topic wl)) (\<lambda>_.
     bindE (write_option (map_option m_payload wl)) (\<lambda>_.
     bindE (write_option user) (\<lambda>_.
     write_option (if user = None then None else pass)))))))))"

definition send__connect ::
    "('e, 'v) cbor_api \<Rightarrow> ('k, 'p) tom_api \<Rightarrow> 16 word \<Rightarrow> bool \<Rightarrow> ('p, 'z, unit) client_comp" where
  "send__connect C T keepalive clean_session =
     bindE (asks id) (\<lambda>w.
     bindE (ensure (c_protocol w \<in> {mosq_p_mqtt31, mosq_p_mqtt311}) (Code MOSQ_ERR_INVAL)) (\<lambda>_.
     bindE (ok (if c_protocol w = mosq_p_mqtt31 then (PROTOCOL_NAME_v31, 3, 12)
                else (PROTOCOL_NAME_v311, 4, 10))) (\<lambda>(name, version, headerlen).
     bindE (mosquitto__calloc MOSQ_ERR_NOMEM) (\<lambda>_.
     bindE (packet__alloc (fresh_packet\<lparr>command := CONNECT,
       remaining_length := u32 (headerlen + 2 + length (client_id w) +
         option_length (map_option m_topic (will w)) + option_length (map_option m_payload (will w)) +
         option_length (username w) + option_length (if username w = None then None else password w))\<rparr>)) (\<lambda>p.
     bindE (fill_packet (connect_fields name version
              (connect_flags (will w) (username w) (password w) clean_session)
              keepalive (client_id w) (will w) (username w) (password w)) p) (\<lambda>q.
     bindE (modify (\<lambda>w. w\<lparr>c_keepalive := keepalive\<rparr>)) (\<lambda>_.
     packet__queue C T SMP_MQTTS_CLIENT q)))))))"

section \<open>The handlers\<close>

text \<open>The fields of a PUBLISH, read from \<open>in_packet\<close>. A message of QoS 0 keeps the id 0.\<close>

definition read_publish :: "('p, 'z, mosquitto_message_all) client_comp" where
  "read_publish =
     bindE (mosquitto__calloc MOSQ_ERR_NOMEM) (\<lambda>_.
     bindE (asks (command \<circ> in_packet)) (\<lambda>header.
     bindE (ok (unat (drop_bit 1 (header AND 0x06)))) (\<lambda>qos.
     bindE packet__read_string (\<lambda>topic.
     bindE (ensure (length topic \<noteq> 0) (Code MOSQ_ERR_PROTOCOL)) (\<lambda>_.
     bindE (if 0 < qos then packet__read_uint16 else ok 0) (\<lambda>mid.
     bindE (asks (\<lambda>w. remaining_length (in_packet w) - pos (in_packet w))) (\<lambda>payloadlen.
     bindE (if payloadlen \<noteq> 0
            then bindE (mosquitto__calloc MOSQ_ERR_NOMEM) (\<lambda>_. packet__read_bytes payloadlen)
            else ok []) (\<lambda>data.
     bindE (asks c_now) (\<lambda>now.
     ok \<lparr>m_mid = mid, m_topic = topic, m_payload = data, m_qos = qos,
         m_retain = (header AND 0x01 \<noteq> 0), m_timestamp = now, m_state = mosq_ms_invalid,
         m_dup = (header AND 0x08 \<noteq> 0)\<rparr>)))))))))"

definition on_message :: "mosquitto_message_all \<Rightarrow> ('p, 'z) connection_scheme \<Rightarrow> ('p, 'z) connection_scheme" where
  "on_message m = record_event (On_message (m_topic m) (m_payload m) (m_qos m) (m_retain m))"

definition handle__publish ::
    "('e, 'v) cbor_api \<Rightarrow> ('k, 'p) tom_api \<Rightarrow> ('p, 'z, unit) client_comp" where
  "handle__publish C T =
     bindE read_publish (\<lambda>m.
     if m_qos m = 0 then modify (on_message m)
     else if m_qos m = 1 then and_then (send__puback C T SMP_MQTTS_CLIENT (m_mid m)) (on_message m)
     else if m_qos m = 2
     then and_then (send__pubrec C T SMP_MQTTS_CLIENT (m_mid m))
            (snd \<circ> message__queue (m\<lparr>m_state := mosq_ms_wait_for_pubrel\<rparr>) mosq_md_in)
     else fail (Code MOSQ_ERR_PROTOCOL))"

text \<open>A PUBACK or PUBCOMP; what went wrong in the removal is not reported.\<close>

definition handle__pubackcomp ::
    "('e, 'v) cbor_api \<Rightarrow> ('k, 'p) tom_api \<Rightarrow> ('p, 'z, unit) client_comp" where
  "handle__pubackcomp C T =
     bindE packet__read_uint16 (\<lambda>mid.
     ignore (bindE (message__delete C T mid mosq_md_out) (\<lambda>_. modify (record_event (On_publish mid)))
       :: ('p, 'z, unit) client_comp))"

definition handle__pubrec ::
    "('e, 'v) cbor_api \<Rightarrow> ('k, 'p) tom_api \<Rightarrow> ('p, 'z, unit) client_comp" where
  "handle__pubrec C T =
     bindE packet__read_uint16 (\<lambda>mid.
     bindE (rescue (message__out_update mid mosq_ms_wait_for_pubcomp)
       (\<lambda>e. if e = Code MOSQ_ERR_NOT_FOUND then ok () else fail e)) (\<lambda>_.
     send__pubrel C T SMP_MQTTS_CLIENT mid))"

definition handle__pubrel ::
    "('e, 'v) cbor_api \<Rightarrow> ('k, 'p) tom_api \<Rightarrow> ('p, 'z, unit) client_comp" where
  "handle__pubrel C T =
     bindE (asks (\<lambda>w. c_protocol w = mosq_p_mqtt311 \<and> command (in_packet w) AND 0x0F \<noteq> 0x02)) (\<lambda>bad.
     bindE (ensure (\<not> bad) (Code MOSQ_ERR_PROTOCOL)) (\<lambda>_.
     bindE packet__read_uint16 (\<lambda>mid.
     bindE (ignore (bindE (message__remove C T mid mosq_md_in) (\<lambda>m. modify (on_message m))
       :: ('p, 'z, unit) client_comp)) (\<lambda>_.
     send__pubcomp C T SMP_MQTTS_CLIENT mid))))"

fun read_codes :: "nat \<Rightarrow> (('p, 'z) connection_scheme, mosq_err, bytes) comp" where
  "read_codes 0 = ok []"
| "read_codes (Suc n) = bindE packet__read_byte (\<lambda>b. bindE (read_codes n) (\<lambda>bs. ok (b # bs)))"

definition handle__suback :: "('p, 'z, unit) client_comp" where
  "handle__suback =
     bindE packet__read_uint16 (\<lambda>mid.
     bindE (asks (\<lambda>w. remaining_length (in_packet w) - pos (in_packet w))) (\<lambda>qos_count.
     bindE (mosquitto__malloc (qos_count * 4) MOSQ_ERR_NOMEM) (\<lambda>_.
     bindE (read_codes qos_count) (\<lambda>codes.
     modify (record_event (On_subscribe mid codes))))))"

definition handle__unsuback :: "('p, 'z, unit) client_comp" where
  "handle__unsuback = bindE packet__read_uint16 (\<lambda>mid. modify (record_event (On_unsubscribe mid)))"

definition handle__pingreq ::
    "('e, 'v) cbor_api \<Rightarrow> ('k, 'p) tom_api \<Rightarrow> ('p, 'z, unit) client_comp" where
  "handle__pingreq C T = send__pingresp C T SMP_MQTTS_CLIENT"

definition handle__pingresp :: "('p, 'z, unit) client_comp" where
  "handle__pingresp = modify (\<lambda>w. w\<lparr>ping_t := 0\<rparr>)"

definition handle__connack ::
    "('e, 'v) cbor_api \<Rightarrow> ('k, 'p) tom_api \<Rightarrow> ('p, 'z, unit) client_comp" where
  "handle__connack C T =
     bindE packet__read_byte (\<lambda>flags.
     bindE packet__read_byte (\<lambda>result.
     bindE (modify (record_event (On_connect result flags))) (\<lambda>_.
     if result = 0
     then bindE (modify (\<lambda>w. if conn_state w \<noteq> mosq_cs_disconnecting then w\<lparr>conn_state := mosq_cs_connected\<rparr> else w)) (\<lambda>_.
          message__retry_check C T)
     else if result \<in> {1, 2, 3, 4, 5} then fail (Code MOSQ_ERR_CONN_REFUSED)
     else fail (Code MOSQ_ERR_PROTOCOL))))"

definition handle__packet ::
    "('e, 'v) cbor_api \<Rightarrow> ('k, 'p) tom_api \<Rightarrow> ('p, 'z, unit) client_comp" where
  "handle__packet C T =
     bindE (asks (\<lambda>w. command (in_packet w) AND 0xF0)) (\<lambda>cmd.
     if cmd = PINGREQ then handle__pingreq C T
     else if cmd = PINGRESP then handle__pingresp
     else if cmd = PUBACK \<or> cmd = PUBCOMP then handle__pubackcomp C T
     else if cmd = PUBLISH then handle__publish C T
     else if cmd = PUBREC then handle__pubrec C T
     else if cmd = PUBREL then handle__pubrel C T
     else if cmd = CONNACK then handle__connack C T
     else if cmd = SUBACK then handle__suback
     else if cmd = UNSUBACK then handle__unsuback
     else fail (Code MOSQ_ERR_PROTOCOL))"

end
