(* ===== verification/PacketFacts.thy ===== *)
theory PacketFacts
  imports PacketIo
begin

text \<open>
  Facts about the packet layer: the remaining-length encoding and its two decoders, the field
  writers and readers as instances of one codec interface, and the assembly of a frame from
  whatever pieces the socket delivers.
\<close>

section \<open>Remaining length\<close>

lemma digit_nat: "unat (word_of_nat (n mod 128) :: byte) = n mod 128"
  by (simp add: unsigned_of_nat take_bit_eq_mod mod_mod_cancel)

lemma unat_digit: "n < 128 \<Longrightarrow> unat (word_of_nat n :: byte) = n"
  by (simp add: unsigned_of_nat take_bit_eq_mod)

lemma bit_128: "bit (128 :: byte) i \<longleftrightarrow> i = 7"
proof -
  have "(128 :: byte) = 2 ^ 7" by simp
  then show ?thesis by (simp only: bit_exp_iff) auto
qed

lemma digit_bits:
  fixes n :: nat
  defines "d \<equiv> word_of_nat (n mod 128) :: byte"
  shows "d AND 127 = d" and "d AND 128 = 0" and "(d OR 128) AND 127 = d" and "(d OR 128) AND 128 = 128"
proof -
  have m: "(127 :: byte) = mask 7" by (simp add: mask_eq_exp_minus_1)
  have "unat d = n mod 128" unfolding d_def by (rule digit_nat)
  then have "unat d = unat (take_bit 7 d)" by (simp only: unsigned_take_bit_eq) (simp add: take_bit_eq_mod)
  then have small: "d = take_bit 7 d" by (simp only: word_unat_eq_iff)
  then show "d AND 127 = d" by (simp add: m take_bit_eq_mask)
  have b: "\<not> bit d 7" by (subst small) (simp add: bit_take_bit_iff)
  show "d AND 128 = 0" by (rule bit_word_eqI) (simp only: bit_and_iff bit_128, use b in auto)
  show "(d OR 128) AND 128 = 128" by (rule bit_word_eqI) (simp only: bit_and_iff bit_or_iff bit_128, auto)
  show "(d OR 128) AND 127 = d" unfolding m
    by (subst (2) small)
      (rule bit_word_eqI, simp only: bit_and_iff bit_or_iff bit_128 bit_mask_iff bit_take_bit_iff, auto)
qed

lemma remaining_bytes_last: "n < 128 \<Longrightarrow> remaining_bytes k n = [word_of_nat n]"
  by (simp add: remaining_bytes.simps [of k n] Let_def)

lemma remaining_bytes_more:
  "128 \<le> n \<Longrightarrow> k < 4 \<Longrightarrow>
   remaining_bytes k n = (word_of_nat (n mod 128) OR 128) # remaining_bytes (Suc k) (n div 128)"
  by (simp add: remaining_bytes.simps [of k n] Let_def div_greater_zero_iff)

lemma remaining_bytes_ne [simp]: "remaining_bytes k n \<noteq> []"
  by (subst remaining_bytes.simps) (simp add: Let_def)

text \<open>How many bytes a length takes: at most four exactly below 2^28.\<close>

lemma length_remaining_bytes:
  "k < 5 \<Longrightarrow> k + length (remaining_bytes k n) \<le> 4 \<longleftrightarrow> k < 4 \<and> n < 128 ^ (4 - k)"
proof (induction k n rule: remaining_bytes.induct)
  case (1 k n)
  show ?case
  proof (cases "n < 128")
    case True
    have "(128 :: nat) ^ 1 \<le> 128 ^ (4 - k)" if "k < 4"
      using that by (intro power_increasing) auto
    then have "k < 4 \<Longrightarrow> n < 128 ^ (4 - k)" using True by fastforce
    then show ?thesis using True by (auto simp: remaining_bytes_last)
  next
    case False
    show ?thesis
    proof (cases "k < 4")
      case True
      then have "4 - k = Suc (4 - Suc k)" by simp
      then have e: "(128 :: nat) ^ (4 - k) = 128 ^ (4 - Suc k) * 128" by simp
      have d: "n div 128 < 128 ^ (4 - Suc k) \<longleftrightarrow> n < 128 ^ (4 - k)"
        unfolding e by (simp add: div_less_iff_less_mult)
      have "Suc k + length (remaining_bytes (Suc k) (n div 128)) \<le> 4
          \<longleftrightarrow> Suc k < 4 \<and> n div 128 < 128 ^ (4 - Suc k)"
        using "1.IH" [OF refl refl refl] True False by (simp add: div_greater_zero_iff)
      moreover have "k = 3 \<Longrightarrow> \<not> n < 128 ^ (4 - k)" using False by simp
      ultimately show ?thesis using True False d
        by (cases "k = 3") (auto simp: remaining_bytes_more)
    next
      case False
      then show ?thesis using "1.prems" by (cases "remaining_bytes k n") auto
    qed
  qed
qed


lemma length_remaining_bytes_le: "k < 5 \<Longrightarrow> k + length (remaining_bytes k n) \<le> 5"
proof (induction k n rule: remaining_bytes.induct)
  case (1 k n)
  show ?case
  proof (cases "128 \<le> n \<and> k < 4")
    case True
    then show ?thesis using "1.IH" [OF refl refl refl] by (simp add: remaining_bytes_more div_greater_zero_iff)
  next
    case False
    then show ?thesis using "1.prems"
      by (auto simp: remaining_bytes.simps [of k n] Let_def div_greater_zero_iff)
  qed
qed

text \<open>What both decoders keep within 32 bits.\<close>

lemma length_bounds:
  assumes "k + length (remaining_bytes k n) \<le> 4"
  shows "k < 4" and "(128 :: nat) ^ Suc k < 2 ^ 32" and "n * 128 ^ k < 2 ^ 28"
proof -
  have "length (remaining_bytes k n) \<noteq> 0" by simp
  then show k: "k < 4" using assms by linarith
  have n: "n < 128 ^ (4 - k)" using length_remaining_bytes [of k n] assms k by simp
  have "(128 :: nat) ^ Suc k \<le> 128 ^ 4" using k by (intro power_increasing) auto
  then show "(128 :: nat) ^ Suc k < 2 ^ 32" by simp
  have "n * 128 ^ k < 128 ^ (4 - k) * 128 ^ k" using n by simp
  also have "\<dots> = (128 :: nat) ^ 4" using k by (simp flip: power_add)
  finally show "n * 128 ^ k < 2 ^ 28" by simp
qed

lemma digit_sum: "(n mod 128) * 128 ^ k + (n div 128) * 128 ^ Suc k = n * (128 :: nat) ^ k"
proof -
  have "(n mod 128) * 128 ^ k + (n div 128) * 128 ^ Suc k = (n mod 128 + n div 128 * 128) * 128 ^ k"
    by (simp only: power_Suc add_mult_distrib mult.assoc)
  then show ?thesis by simp
qed

lemma drop_ConsD:
  assumes "drop i m = b # r"
  shows "i < length m" and "m ! i = b" and "drop (Suc i) m = r"
proof -
  show i: "i < length m" using assms by (cases "i < length m") auto
  show "m ! i = b" "drop (Suc i) m = r" using Cons_nth_drop_Suc [OF i] assms by auto
qed

lemma mqtt_length_decodes:
  assumes "remaining_count p = - int k" and "remaining_mult p = 128 ^ k"
    and "k + length (remaining_bytes k n) \<le> 4" and "remaining_length p + n * 128 ^ k < 2 ^ 32"
    and "drop offset m = remaining_bytes k n @ rest"
  shows "mqtt_length_loop m offset p =
    (Inr (offset + length (remaining_bytes k n)),
     p\<lparr>remaining_count := - int (k + length (remaining_bytes k n)),
       remaining_length := remaining_length p + n * 128 ^ k,
       remaining_mult := 128 ^ (k + length (remaining_bytes k n))\<rparr>)"
  using assms
proof (induction k n arbitrary: offset p rest rule: remaining_bytes.induct)
  case (1 k n)
  note bounds = length_bounds [OF "1.prems"(3)]
  obtain b bs where rb: "remaining_bytes k n = b # bs" by (cases "remaining_bytes k n") auto
  note off = drop_ConsD [OF "1.prems"(5) [unfolded rb append_Cons]]
  show ?case
  proof (cases "n < 128")
    case True
    then have b: "b = word_of_nat n" "bs = []" using rb by (simp_all add: remaining_bytes_last)
    have "b AND 127 = b" "b AND 128 = 0" "unat b = n"
      using digit_bits(1,2) [of n] True unat_digit [OF True] by (simp_all add: b)
    then show ?thesis using "1.prems" bounds off True
      by (simp add: mqtt_length_loop.simps [of m offset p] Let_def remaining_bytes_last u32_def)
  next
    case False
    then have n: "128 \<le> n" by simp
    have b: "b = word_of_nat (n mod 128) OR 128" "bs = remaining_bytes (Suc k) (n div 128)"
      using rb remaining_bytes_more [OF n bounds(1)] by simp_all
    have d: "b AND 127 = word_of_nat (n mod 128)" "b AND 128 = 128" "unat (b AND 127) = n mod 128"
      using digit_bits(3,4) [of n] digit_nat [of n] by (simp_all add: b)
    have sum: "remaining_length p + (n mod 128) * 128 ^ k + n div 128 * 128 ^ Suc k
        = remaining_length p + n * 128 ^ k"
      using digit_sum [of n k] by linarith
    define q where "q = p\<lparr>remaining_count := - int k - 1,
       remaining_length := remaining_length p + (n mod 128) * 128 ^ k, remaining_mult := 128 ^ k * 128\<rparr>"
    have step: "mqtt_length_loop m offset p = mqtt_length_loop m (Suc offset) q"
      using "1.prems" bounds off d sum
      by (simp add: mqtt_length_loop.simps [of m offset p] Let_def u32_def q_def)
    have "mqtt_length_loop m (Suc offset) q =
      (Inr (Suc offset + length bs), q\<lparr>remaining_count := - int (Suc k + length bs),
         remaining_length := remaining_length q + n div 128 * 128 ^ Suc k,
         remaining_mult := 128 ^ (Suc k + length bs)\<rparr>)"
      unfolding b(2)
      by (rule "1.IH" [OF refl refl refl])
        (use "1.prems" rb n bounds sum off b in \<open>auto simp: q_def div_greater_zero_iff\<close>)
    then show ?thesis unfolding step using sum by (simp add: q_def rb)
  qed
qed

text \<open>Only the last byte of a length has its top bit clear.\<close>

lemma remaining_bytes_flags:
  "k + length (remaining_bytes k n) \<le> 4 \<Longrightarrow> i < length (remaining_bytes k n) \<Longrightarrow>
   remaining_bytes k n ! i AND 128 = 0 \<longleftrightarrow> Suc i = length (remaining_bytes k n)"
proof (induction k n arbitrary: i rule: remaining_bytes.induct)
  case (1 k n)
  show ?case
  proof (cases "n < 128")
    case True
    then show ?thesis using "1.prems" digit_bits(2) [of n] by (simp add: remaining_bytes_last)
  next
    case False
    then have n: "128 \<le> n" by simp
    have rb: "remaining_bytes k n = (word_of_nat (n mod 128) OR 128) # remaining_bytes (Suc k) (n div 128)"
      by (rule remaining_bytes_more [OF n length_bounds(1) [OF "1.prems"(1)]])
    show ?thesis
    proof (cases i)
      case 0
      then show ?thesis using digit_bits(4) [of n] by (simp add: rb)
    next
      case (Suc j)
      have "0 < n div 128 \<and> Suc k < 5"
        using "1.prems"(1) n by (simp add: div_greater_zero_iff rb)
      from "1.IH" [OF refl refl refl this, of j] "1.prems" show ?thesis
        by (simp add: rb Suc)
    qed
  qed
qed

section \<open>The socket as a stream\<close>

text \<open>
  A socket that only ever delivers non-empty pieces or asks to wait, and the bytes it will deliver.
\<close>

definition rx_ok :: "rx_event list \<Rightarrow> bool" where
  "rx_ok es \<longleftrightarrow> (\<forall>e \<in> set es. case e of Chunk bs \<Rightarrow> bs \<noteq> [] | Rx_error x \<Rightarrow> x = EAGAIN)"

fun rx_stream :: "rx_event list \<Rightarrow> bytes" where
  "rx_stream [] = []"
| "rx_stream (Chunk bs # es) = bs @ rx_stream es"
| "rx_stream (Rx_error x # es) = rx_stream es"

lemma net_read_cases:
  assumes "rx_ok (c_rx w)" and "rx_stream (c_rx w) \<noteq> []" and "0 < n"
  obtains (wait) es where "net__read n w = (None, w\<lparr>c_errno := EAGAIN, c_rx := es\<rparr>)" "rx_ok es"
      "rx_stream es = rx_stream (c_rx w)" "length es < length (c_rx w)"
  | (some) bs es where "net__read n w = (Some bs, w\<lparr>c_errno := NO_ERROR, c_rx := es\<rparr>)" "rx_ok es"
      "bs \<noteq> []" "length bs \<le> n" "rx_stream (c_rx w) = bs @ rx_stream es" "length es \<le> length (c_rx w)"
proof (cases "c_rx w")
  case Nil
  then show thesis using assms(2) by simp
next
  case (Cons e es)
  show thesis
  proof (cases e)
    case (Rx_error x)
    with Cons assms(1) have "x = EAGAIN" by (simp add: rx_ok_def)
    with Cons Rx_error assms(1) show thesis
      by (intro wait [of es]) (auto simp: net__read_def rx_ok_def)
  next
    case (Chunk bs)
    with Cons assms(1) have "bs \<noteq> []" "rx_ok es" by (simp_all add: rx_ok_def)
    with Cons Chunk assms(3) show thesis
      by (intro some [of "take n bs" "if length bs \<le> n then es else Chunk (drop n bs) # es"])
        (auto simp: net__read_def rx_ok_def)
  qed
qed

section \<open>The frame reader\<close>

definition count_length_byte :: "byte \<Rightarrow> mosquitto__packet \<Rightarrow> mosquitto__packet" where
  "count_length_byte b p = smp_length_byte b (p\<lparr>smp_remaining_count := smp_remaining_count p - 1\<rparr>)"

lemma count_length_bytes [simp]:
  "smp_remaining_count (fold count_length_byte bs p) = smp_remaining_count p - int (length bs)"
  by (induction bs arbitrary: p) (simp_all add: count_length_byte_def smp_length_byte_def)

lemma smp_length_decodes:
  assumes "smp_remaining_count p = - int k" and "smp_remaining_mult p = 128 ^ k"
    and "k + length (remaining_bytes k n) \<le> 4" and "smp_remaining_length p + n * 128 ^ k < 2 ^ 32"
  shows "fold count_length_byte (remaining_bytes k n) p =
     p\<lparr>smp_remaining_count := - int (k + length (remaining_bytes k n)),
       smp_remaining_length := smp_remaining_length p + n * 128 ^ k,
       smp_remaining_mult := 128 ^ (k + length (remaining_bytes k n))\<rparr>"
  using assms
proof (induction k n arbitrary: p rule: remaining_bytes.induct)
  case (1 k n)
  note bounds = length_bounds [OF "1.prems"(3)]
  show ?case
  proof (cases "n < 128")
    case True
    then show ?thesis
      using "1.prems" bounds digit_bits(1) [of n] unat_digit [OF True]
      by (simp add: remaining_bytes_last count_length_byte_def smp_length_byte_def u32_def)
  next
    case False
    then have n: "128 \<le> n" by simp
    note rb = remaining_bytes_more [OF n bounds(1)]
    have sum: "smp_remaining_length p + (n mod 128) * 128 ^ k + n div 128 * 128 ^ Suc k
        = smp_remaining_length p + n * 128 ^ k"
      using digit_sum [of n k] by linarith
    define q where "q = p\<lparr>smp_remaining_count := - int k - 1,
       smp_remaining_length := smp_remaining_length p + (n mod 128) * 128 ^ k,
       smp_remaining_mult := 128 ^ k * 128\<rparr>"
    have step: "count_length_byte (word_of_nat (n mod 128) OR 128) p = q"
      using "1.prems" bounds sum digit_bits(3) [of n] digit_nat [of n]
      by (simp add: count_length_byte_def smp_length_byte_def u32_def q_def)
    have "fold count_length_byte (remaining_bytes (Suc k) (n div 128)) q =
       q\<lparr>smp_remaining_count := - int (Suc k + length (remaining_bytes (Suc k) (n div 128))),
         smp_remaining_length := smp_remaining_length q + n div 128 * 128 ^ Suc k,
         smp_remaining_mult := 128 ^ (Suc k + length (remaining_bytes (Suc k) (n div 128)))\<rparr>"
      by (rule "1.IH" [OF refl refl refl])
        (use "1.prems" rb n bounds sum in \<open>auto simp: q_def div_greater_zero_iff\<close>)
    then show ?thesis unfolding rb using sum by (simp add: step q_def)
  qed
qed

text \<open>
  The length loop over a stream that holds the rest of the length: it stops to wait somewhere, or
  has the whole length.
\<close>

lemma length_loop_stream:
  fixes w :: "('p, 'z) connection_scheme"
  assumes rb: "rb = remaining_bytes 0 n" "length rb \<le> 4" "smp_remaining_count p0 = 0"
    and w: "in_packet w = fold count_length_byte (take i rb) p0" "i < length rb"
      "rx_ok (c_rx w)" "rx_stream (c_rx w) = drop i rb @ rest"
  shows "\<exists>es. rx_ok es \<and>
    ((\<exists>j < length rb. rx_stream es = drop j rb @ rest \<and> length es < length (c_rx w) \<and>
        smp_length_loop w = (Inr False, w\<lparr>in_packet := fold count_length_byte (take j rb) p0,
                                         c_rx := es, c_errno := EAGAIN\<rparr>)) \<or>
     (rx_stream es = rest \<and> length es \<le> length (c_rx w) \<and>
        smp_length_loop w = (Inr True, w\<lparr>in_packet := fold count_length_byte rb p0,
                                        c_rx := es, c_errno := NO_ERROR\<rparr>)))"
  using w
proof (induction "length rb - i" arbitrary: i w)
  case 0
  then show ?case by simp
next
  case (Suc d)
  have ne: "rx_stream (c_rx w) \<noteq> []" using Suc.prems(2,4) by simp
  show ?case
  proof (rule net_read_cases [OF Suc.prems(3) ne zero_less_one])
    fix es
    assume r: "net__read 1 w = (None, w\<lparr>c_errno := EAGAIN, c_rx := es\<rparr>)" "rx_ok es"
      "rx_stream es = rx_stream (c_rx w)" "length es < length (c_rx w)"
    have "smp_length_loop w = (Inr False, w\<lparr>c_errno := EAGAIN, c_rx := es\<rparr>)"
      by (simp add: smp_length_loop.simps [of w] r(1) net_stop_def del: One_nat_def)
    also have "w\<lparr>c_errno := EAGAIN, c_rx := es\<rparr>
        = w\<lparr>in_packet := fold count_length_byte (take i rb) p0, c_rx := es, c_errno := EAGAIN\<rparr>"
      using Suc.prems(1) by simp
    finally show ?thesis using r Suc.prems(2,4) by auto
  next
    fix bs es
    assume r: "net__read 1 w = (Some bs, w\<lparr>c_errno := NO_ERROR, c_rx := es\<rparr>)" "rx_ok es"
      "bs \<noteq> []" "length bs \<le> 1" "rx_stream (c_rx w) = bs @ rx_stream es" "length es \<le> length (c_rx w)"
    then obtain b where b: "bs = [b]" by (cases bs) auto
    have d: "drop i rb = rb ! i # drop (Suc i) rb" using Suc.prems(2) by (simp add: Cons_nth_drop_Suc)
    have b': "b = rb ! i" "rx_stream es = drop (Suc i) rb @ rest" using r(5) Suc.prems(4) b d by auto
    have more: "b AND 128 = 0 \<longleftrightarrow> Suc i = length rb"
      using remaining_bytes_flags [of 0 n i] Suc.prems(2) rb by (simp add: b')
    have t: "take (Suc i) rb = take i rb @ [rb ! i]" using Suc.prems(2) by (simp add: take_Suc_conv_app_nth)
    have c: "smp_remaining_count (in_packet w) = - int i" using Suc.prems(1,2) rb(3) by simp
    define w' where "w' = w\<lparr>in_packet := fold count_length_byte (take (Suc i) rb) p0, c_rx := es, c_errno := NO_ERROR\<rparr>"
    have nxt: "upd_in (smp_length_byte b) (w\<lparr>c_errno := NO_ERROR, c_rx := es,
        in_packet := (in_packet w)\<lparr>smp_remaining_count := - int i - 1\<rparr>\<rparr>) = w'"
      using c Suc.prems(1) by (simp add: upd_in_def w'_def t count_length_byte_def b'(1))
    have step: "smp_length_loop w = (if Suc i = length rb then (Inr True, w') else smp_length_loop w')"
      using c Suc.prems(2) rb(2)
      by (simp add: smp_length_loop.simps [of w] r(1) b Let_def more nxt del: One_nat_def)
    show ?thesis
    proof (cases "Suc i = length rb")
      case True
      then show ?thesis using step r b' by (intro exI [of _ es]) (simp add: w'_def)
    next
      case False
      have "d = length rb - Suc i" using Suc.hyps(2) by simp
      from Suc.hyps(1) [OF this, of w'] False Suc.prems(2) r b'
      show ?thesis using step by (fastforce simp: w'_def)
    qed
  qed
qed

text \<open>The message part: \<open>i\<close> bytes of it are in the block.\<close>

definition body_read :: "byte \<Rightarrow> bytes \<Rightarrow> nat \<Rightarrow> mosquitto__packet \<Rightarrow> mosquitto__packet" where
  "body_read junk msg i p = p\<lparr>smp_payload := Live (take i msg @ replicate (length msg - i) junk),
     smp_to_process := length msg - i, smp_pos := i\<rparr>"

lemma body_loop_stream:
  fixes w :: "('p, 'z) connection_scheme"
  assumes w: "in_packet w = body_read junk msg i p0" "i < length msg"
      "rx_ok (c_rx w)" "rx_stream (c_rx w) = drop i msg @ rest"
  shows "\<exists>es. rx_ok es \<and>
    ((\<exists>j < length msg. rx_stream es = drop j msg @ rest \<and> length es < length (c_rx w) \<and>
        smp_body_loop w = (Inr False, w\<lparr>in_packet := body_read junk msg j p0, c_rx := es, c_errno := EAGAIN\<rparr>)) \<or>
     (rx_stream es = rest \<and> length es \<le> length (c_rx w) \<and>
        smp_body_loop w = (Inr True, w\<lparr>in_packet := body_read junk msg (length msg) p0,
                                      c_rx := es, c_errno := NO_ERROR\<rparr>)))"
  using w
proof (induction "length msg - i" arbitrary: i w rule: less_induct)
  case less
  have ne: "rx_stream (c_rx w) \<noteq> []" and pos: "0 < length msg - i" using less.prems(2,4) by auto
  have tp: "smp_to_process (in_packet w) = length msg - i" using less.prems(1) by (simp add: body_read_def)
  show ?case
  proof (rule net_read_cases [OF less.prems(3) ne pos])
    fix es
    assume r: "net__read (length msg - i) w = (None, w\<lparr>c_errno := EAGAIN, c_rx := es\<rparr>)" "rx_ok es"
      "rx_stream es = rx_stream (c_rx w)" "length es < length (c_rx w)"
    have "smp_body_loop w = (Inr False, w\<lparr>c_errno := EAGAIN, c_rx := es\<rparr>)"
      using pos by (simp add: smp_body_loop.simps [of w] r(1) net_stop_def Let_def tp)
    also have "w\<lparr>c_errno := EAGAIN, c_rx := es\<rparr>
        = w\<lparr>in_packet := body_read junk msg i p0, c_rx := es, c_errno := EAGAIN\<rparr>"
      using less.prems(1) by simp
    finally show ?thesis using r less.prems(2,4) by auto
  next
    fix bs es
    assume r: "net__read (length msg - i) w = (Some bs, w\<lparr>c_errno := NO_ERROR, c_rx := es\<rparr>)" "rx_ok es"
      "bs \<noteq> []" "length bs \<le> length msg - i" "rx_stream (c_rx w) = bs @ rx_stream es"
      "length es \<le> length (c_rx w)"
    have bs: "bs = take (length bs) (drop i msg)" "rx_stream es = drop (i + length bs) msg @ rest"
      using r(4,5) less.prems(4) by (auto simp: append_eq_append_conv_if add.commute split: if_splits)
    have "take (i + length bs) msg = take i msg @ bs" using bs(1) by (simp add: take_add)
    then have poke: "(poke (take i msg @ replicate (length msg - i) junk) i bs :: (mosq_err, bytes) res)
        = Inr (take (i + length bs) msg @ replicate (length msg - (i + length bs)) junk)"
      using r(4) less.prems(2) by (simp add: poke_def)
    define w' where "w' = w\<lparr>in_packet := body_read junk msg (i + length bs) p0, c_rx := es, c_errno := NO_ERROR\<rparr>"
    obtain b bs' where b: "bs = b # bs'" using r(3) by (cases bs) auto
    have nxt: "w\<lparr>c_errno := NO_ERROR, c_rx := es, in_packet := (in_packet w)\<lparr>smp_payload :=
        Live (take (i + length bs) msg @ replicate (length msg - (i + length bs)) junk),
        smp_to_process := length msg - i - length bs, smp_pos := i + length bs\<rparr>\<rparr> = w'"
      using less.prems(1) by (simp add: w'_def body_read_def)
    have cur: "smp_payload (in_packet w) = Live (take i msg @ replicate (length msg - i) junk)"
        "smp_pos (in_packet w) = i"
      using less.prems(1) by (simp_all add: body_read_def)
    have step: "smp_body_loop w = smp_body_loop w'"
      using pos poke [unfolded b] nxt [unfolded b]
      by (simp add: smp_body_loop.simps [of w] r(1) [unfolded b] Let_def tp cur)
    show ?thesis
    proof (cases "i + length bs = length msg")
      case True
      then have "smp_to_process (in_packet w') = 0" by (simp add: w'_def body_read_def)
      then have "smp_body_loop w' = (Inr True, w')" by (simp add: smp_body_loop.simps [of w'] Let_def)
      then show ?thesis using step True r(2,6) bs(2) by (intro exI [of _ es]) (simp add: w'_def)
    next
      case False
      then have lt: "i + length bs < length msg" using r(4) less.prems(2) by linarith
      have "length msg - (i + length bs) < length msg - i" using lt r(3) by (cases bs) auto
      from less.hyps [OF this, of w'] lt r(2,6) bs(2) show ?thesis using step by (fastforce simp: w'_def)
    qed
  qed
qed

text \<open>A packet that is ready for a frame, and the same packet after \<open>i\<close> bytes of the frame.\<close>

definition idle :: "mosquitto__packet \<Rightarrow> bool" where
  "idle p \<longleftrightarrow> smp_remaining_count p = 0 \<and> smp_remaining_mult p = 1 \<and> smp_remaining_length p = 0 \<and>
     smp_pos p = 0 \<and> command p = 0 \<and> remaining_count p = 0 \<and> remaining_mult p = 1 \<and>
     remaining_length p = 0 \<and> pos p = 0"

definition frame_start :: "bytes \<Rightarrow> bytes \<Rightarrow> mosquitto__packet \<Rightarrow> mosquitto__packet" where
  "frame_start rb msg p = p\<lparr>smp_remaining_count := int (length rb),
     smp_remaining_length := length msg, smp_remaining_mult := 128 ^ length rb\<rparr>"

definition at_frame :: "byte \<Rightarrow> bytes \<Rightarrow> bytes \<Rightarrow> nat \<Rightarrow> mosquitto__packet \<Rightarrow> mosquitto__packet" where
  "at_frame junk rb msg i p =
     (if i < length rb then fold count_length_byte (take i rb) p
      else body_read junk msg (i - length rb) (frame_start rb msg p))"

lemma idle_cleanup: "idle (packet__cleanup p)"
  by (simp add: idle_def packet__cleanup_def)

lemma at_frame_0 [simp]: "rb \<noteq> [] \<Longrightarrow> at_frame junk rb msg 0 p = p"
  by (simp add: at_frame_def)

lemma at_frame_count:
  assumes "idle p" and "rb \<noteq> []"
  shows "smp_remaining_count (at_frame junk rb msg i p) \<le> 0 \<longleftrightarrow> i < length rb"
  using assms by (auto simp: at_frame_def idle_def body_read_def frame_start_def)

lemma start_body_frame:
  fixes w :: "('p, 'z) connection_scheme"
  assumes "calm w" and "idle p" and "rb = remaining_bytes 0 (length msg)" and "length rb \<le> 4" and "msg \<noteq> []"
    and "in_packet w = fold count_length_byte rb p"
  shows "smp_start_body w = (Inr (), w\<lparr>in_packet := body_read (w_junk w) msg 0 (frame_start rb msg p)\<rparr>)"
proof -
  have "length msg < 2 ^ 32" using length_bounds(3) [of 0 "length msg"] assms(3,4) by simp
  then have "in_packet w = p\<lparr>smp_remaining_count := - int (length rb), smp_remaining_length := length msg,
      smp_remaining_mult := 128 ^ length rb\<rparr>"
    using smp_length_decodes [of p 0 "length msg"] assms(2-4,6) by (simp add: idle_def)
  then show ?thesis using assms(1,2,5)
    by (simp add: smp_start_body_def comp_defs upd_in_def body_read_def frame_start_def idle_def calm_def
        mosquitto__malloc_def libc_call_def)
qed

text \<open>
  One call of \<open>packet__read_smp\<close> inside a frame: it takes some bytes and waits, or it has the frame
  and hands it on.
\<close>

lemma read_smp_stream:
  fixes w :: "('p, 'z) connection_scheme"
  assumes calm: "calm w" and idle: "idle p"
    and rb: "rb = remaining_bytes 0 (length msg)" "length rb \<le> 4" "msg \<noteq> []"
    and w: "in_packet w = at_frame (w_junk w) rb msg i p" "i < length rb + length msg"
      "rx_ok (c_rx w)" "rx_stream (c_rx w) = drop i (rb @ msg) @ rest"
  shows "\<exists>es. rx_ok es \<and>
    ((\<exists>j < length rb + length msg. rx_stream es = drop j (rb @ msg) @ rest \<and> length es < length (c_rx w) \<and>
        packet__read_smp C T role w = (Inr (), w\<lparr>in_packet := at_frame (w_junk w) rb msg j p,
                                               c_rx := es, c_errno := EAGAIN\<rparr>)) \<or>
     (rx_stream es = rest \<and>
        packet__read_smp C T role w = smp_deliver C T role
          (w\<lparr>in_packet := at_frame (w_junk w) rb msg (length rb + length msg) p, c_rx := es, c_errno := NO_ERROR\<rparr>)))"
proof -
  have rbne: "rb \<noteq> []" using rb(1) by simp
  have body: "\<exists>es. rx_ok es \<and>
      ((\<exists>j < length rb + length msg. rx_stream es = drop j (rb @ msg) @ rest \<and> length es < length (c_rx v) \<and>
          bindE smp_body_loop (\<lambda>go. if \<not> go then ok () else smp_deliver C T role) v
            = (Inr (), v\<lparr>in_packet := at_frame (w_junk w) rb msg j p, c_rx := es, c_errno := EAGAIN\<rparr>)) \<or>
       (rx_stream es = rest \<and> bindE smp_body_loop (\<lambda>go. if \<not> go then ok () else smp_deliver C T role) v
          = smp_deliver C T role
              (v\<lparr>in_packet := at_frame (w_junk w) rb msg (length rb + length msg) p, c_rx := es, c_errno := NO_ERROR\<rparr>)))"
    if v: "in_packet v = body_read (w_junk w) msg k (frame_start rb msg p)" "k < length msg"
      "rx_ok (c_rx v)" "rx_stream (c_rx v) = drop k msg @ rest" for v :: "('p, 'z) connection_scheme" and k
    using body_loop_stream [OF v]
  proof (elim exE conjE disjE)
    fix es j
    assume "rx_ok es" "j < length msg" "rx_stream es = drop j msg @ rest" "length es < length (c_rx v)"
      "smp_body_loop v = (Inr False, v\<lparr>in_packet := body_read (w_junk w) msg j (frame_start rb msg p),
         c_rx := es, c_errno := EAGAIN\<rparr>)"
    then show ?thesis
      by (intro exI [of _ es] conjI disjI1 exI [of _ "length rb + j"]) (simp_all add: bindE_def ok_def at_frame_def)
  next
    fix es
    assume "rx_ok es" "rx_stream es = rest"
      "smp_body_loop v = (Inr True, v\<lparr>in_packet := body_read (w_junk w) msg (length msg) (frame_start rb msg p),
         c_rx := es, c_errno := NO_ERROR\<rparr>)"
    then show ?thesis
      by (intro exI [of _ es] conjI disjI2) (simp_all add: bindE_def at_frame_def)
  qed
  show ?thesis
  proof (cases "i < length rb")
    case False
    then have k: "i - length rb < length msg" "drop i (rb @ msg) = drop (i - length rb) msg"
      using w(2) by simp_all
    have "packet__read_smp C T role w = bindE smp_body_loop (\<lambda>go. if \<not> go then ok () else smp_deliver C T role) w"
      using at_frame_count [OF idle rbne, of "w_junk w" msg i] False w(1)
      by (simp add: packet__read_smp_def bindE_def asks_def ok_def)
    with body [of w "i - length rb"] k False w show ?thesis by (simp add: at_frame_def)
  next
    case True
    have len: "smp_remaining_count (in_packet w) \<le> 0"
      using at_frame_count [OF idle rbne, of "w_junk w" msg i] True w(1) by simp
    have start: "in_packet w = fold count_length_byte (take i rb) p" "rx_stream (c_rx w) = drop i rb @ msg @ rest"
      using w(1,4) True by (simp_all add: at_frame_def)
    have "smp_remaining_count p = 0" using idle by (simp add: idle_def)
    from length_loop_stream [OF rb(1,2) this start(1) True w(3) start(2)] show ?thesis
    proof (elim exE conjE disjE)
      fix es j
      assume "rx_ok es" "j < length rb" "rx_stream es = drop j rb @ msg @ rest" "length es < length (c_rx w)"
        "smp_length_loop w = (Inr False, w\<lparr>in_packet := fold count_length_byte (take j rb) p,
           c_rx := es, c_errno := EAGAIN\<rparr>)"
      then show ?thesis using len
        by (intro exI [of _ es] conjI disjI1 exI [of _ j])
          (simp_all add: packet__read_smp_def bindE_def asks_def ok_def at_frame_def)
    next
      fix es
      assume l: "rx_ok es" "rx_stream es = msg @ rest" "length es \<le> length (c_rx w)"
        "smp_length_loop w = (Inr True, w\<lparr>in_packet := fold count_length_byte rb p,
           c_rx := es, c_errno := NO_ERROR\<rparr>)"
      define v where "v = w\<lparr>in_packet := body_read (w_junk w) msg 0 (frame_start rb msg p),
           c_rx := es, c_errno := NO_ERROR\<rparr>"
      have "smp_start_body (w\<lparr>in_packet := fold count_length_byte rb p, c_rx := es, c_errno := NO_ERROR\<rparr>)
          = (Inr (), v)"
        using start_body_frame [OF _ idle rb, of "w\<lparr>in_packet := fold count_length_byte rb p, c_rx := es, c_errno := NO_ERROR\<rparr>"]
          calm by (simp add: v_def calm_def)
      then have r: "packet__read_smp C T role w
          = bindE smp_body_loop (\<lambda>go. if \<not> go then ok () else smp_deliver C T role) v"
        using l(4) len by (simp add: packet__read_smp_def bindE_def asks_def)
      have v: "in_packet v = body_read (w_junk w) msg 0 (frame_start rb msg p)" "rx_ok (c_rx v)"
          "rx_stream (c_rx v) = drop 0 msg @ rest" "length (c_rx v) \<le> length (c_rx w)"
          "v\<lparr>in_packet := q, c_rx := es', c_errno := e\<rparr> = w\<lparr>in_packet := q, c_rx := es', c_errno := e\<rparr>" for q es' e
        using l by (simp_all add: v_def)
      have "0 < length msg" using rb(3) by simp
      from body [OF v(1) this v(2,3)] v(4) show ?thesis unfolding r v(5)
        using order.strict_trans2 by blast
    qed
  qed
qed

end
