(* ===== verification/PacketLink.thy ===== *)
theory PacketLink
  imports PacketFacts SmpProps
begin

text \<open>
  Two ends of a connection: what the writer puts on the wire, what the reader makes of it, and the
  state of the SMP session in between.
\<close>

section \<open>The writer\<close>

text \<open>A packet in the queue, what is left of it, and what a connection still has to write.\<close>

definition packet_ok :: "mosquitto__packet \<Rightarrow> bool" where
  "packet_ok p \<longleftrightarrow> (\<exists>m. payload p = Some m \<and> pos p + to_process p = length m)"

definition unsent_bytes :: "mosquitto__packet \<Rightarrow> bytes" where
  "unsent_bytes p = drop (pos p) (the (payload p))"

definition pending :: "('p, 'z) connection_scheme \<Rightarrow> bytes" where
  "pending w = (case current_out_packet w of None \<Rightarrow> [] | Some p \<Rightarrow> unsent_bytes p) @
     concat (map unsent_bytes (out_packet w))"

definition queue_ok :: "('p, 'z) connection_scheme \<Rightarrow> bool" where
  "queue_ok w \<longleftrightarrow> (\<forall>p. current_out_packet w = Some p \<longrightarrow> packet_ok p) \<and> (\<forall>p \<in> set (out_packet w). packet_ok p)"

lemma unsent_ok: "packet_ok p \<Longrightarrow> unsent p = Inr (unsent_bytes p) \<and> length (unsent_bytes p) = to_process p"
  by (auto simp: packet_ok_def unsent_def unsent_bytes_def)

text \<open>
  Writing never touches the session, the storage, the reading side or what lies beyond the
  connection; and no message is handed to the user.
\<close>

fun is_message :: "mosq_event \<Rightarrow> bool" where
  "is_message (On_message topic data qos retain) = True"
| "is_message e = False"

definition delivered :: "('p, 'z) connection_scheme \<Rightarrow> mosq_event list" where
  "delivered w = filter is_message (c_events w)"

definition same_link :: "('p, 'z) connection_scheme \<Rightarrow> ('p, 'z) connection_scheme \<Rightarrow> bool" where
  "same_link w w' \<longleftrightarrow> w_faults w' = w_faults w \<and> w_junk w' = w_junk w \<and> w_files w' = w_files w \<and>
     w_prng w' = w_prng w \<and> smp_ctx w' = smp_ctx w \<and> smpSession w' = smpSession w \<and>
     in_packet w' = in_packet w \<and> c_rx w' = c_rx w \<and> conn_state w' = conn_state w \<and>
     in_callback w' = in_callback w \<and> is_threaded w' = is_threaded w \<and>
     connection.more w' = connection.more w \<and> c_now w' = c_now w \<and> delivered w' = delivered w"

interpretation link: state_frame same_link
  by unfold_locales (auto simp: same_link_def)

text \<open>The state of a writer, as a relation that every step keeps.\<close>

definition writes :: "('p, 'z) connection_scheme \<Rightarrow> ('p, 'z) connection_scheme \<Rightarrow> bool" where
  "writes w w' \<longleftrightarrow> same_link w w' \<and>
     (queue_ok w \<longrightarrow> queue_ok w' \<and> c_wire w' @ pending w' = c_wire w @ pending w)"

interpretation writer: state_frame writes
  by unfold_locales (auto simp: writes_def intro: link.R_refl link.R_trans)

lemma net__write_writes:
  assumes "net__write bs w = (k, w1)"
  shows "same_link w w1" and "sock_open w1 = sock_open w"
    and "current_out_packet w1 = current_out_packet w" and "out_packet w1 = out_packet w"
    and "k = Some n \<Longrightarrow> n \<le> length bs \<and> c_wire w1 = c_wire w @ take n bs"
    and "k = None \<Longrightarrow> c_wire w1 = c_wire w"
  using assms by (auto simp: net__write_def same_link_def delivered_def min_def split: list.splits tx_event.splits)

lemma send_loop_writes:
  fixes w :: "('p, 'z) connection_scheme"
  shows "send_loop w = (r, w') \<Longrightarrow> writes w w' \<and> sock_open w' = sock_open w \<and>
     (queue_ok w \<longrightarrow> r \<noteq> Inl Fault) \<and>
     (r = Inr True \<longrightarrow> current_out_packet w' = None \<or> (\<exists>p. current_out_packet w' = Some p \<and> to_process p = 0))"
proof (induction w arbitrary: r w' rule: send_loop.induct)
  case (1 w)
  show ?case
  proof (cases "current_out_packet w")
    case None
    then show ?thesis using "1.prems" by (auto simp: send_loop.simps [of w] writer.R_refl)
  next
    case (Some p)
    from Some show ?thesis
    proof (cases rule: send_loop_round)
      case out
      then show ?thesis using "1.prems" Some by (auto simp: writer.R_refl)
    next
      case (bad e)
      then show ?thesis using "1.prems" Some unsent_ok [of p] by (auto simp: writer.R_refl queue_ok_def)
    next
      case (stop bs k w1)
      note n = net__write_writes [OF stop(3)]
      have "c_wire w1 = c_wire w" using stop(4) n(5) [of 0] n(6) by auto
      then have "writes w w1" using n(1,3,4) by (simp add: writes_def queue_ok_def pending_def)
      then show ?thesis using "1.prems" stop n(2) by (auto simp: net_stop_def split: errno.splits)
    next
      case (more bs k w1)
      note n = net__write_writes [OF more(3)]
      define v where "v = w1\<lparr>current_out_packet := Some (p\<lparr>to_process := to_process p - k, pos := pos p + k\<rparr>)\<rparr>"
      have "writes w v"
      proof -
        have link: "same_link w v" using n(1) by (simp add: same_link_def v_def delivered_def)
        moreover have "queue_ok v \<and> c_wire v @ pending v = c_wire w @ pending w" if ok: "queue_ok w"
        proof -
          have p: "packet_ok p" using ok Some by (simp add: queue_ok_def)
          note bs = unsent_ok [OF p]
          have k: "k \<le> to_process p" "c_wire w1 = c_wire w @ take k (unsent_bytes p)"
            using n(5) [OF refl] bs more(2) by auto
          have "packet_ok (p\<lparr>to_process := to_process p - k, pos := pos p + k\<rparr>)"
            using p k(1) by (auto simp: packet_ok_def)
          moreover have "unsent_bytes (p\<lparr>to_process := to_process p - k, pos := pos p + k\<rparr>) = drop k (unsent_bytes p)"
            by (simp add: unsent_bytes_def add.commute)
          ultimately show ?thesis
            using ok k(2) n(4) Some by (simp add: queue_ok_def pending_def v_def)
        qed
        ultimately show ?thesis by (simp add: writes_def)
      qed
      moreover have "send_loop v = (r, w')" using "1.prems" more(5) by (simp add: v_def)
      note IH = "1.IH" [OF Some more(1,2) more(3) [symmetric] refl more(4), folded v_def, OF this]
      moreover have "sock_open v = sock_open w" using n(2) by (simp add: v_def)
      ultimately show ?thesis using writer.R_trans by (auto simp: writes_def)
    qed
  qed
qed

text \<open>Finishing a packet changes nothing that is still to be written.\<close>

lemma writes_bookkeeping:
  "writes w (note_sent w)" "\<not> is_message e \<Longrightarrow> writes w (record_event e w)" "writes w (w\<lparr>sock_open := b\<rparr>)"
  by (simp_all add: writes_def delivered_def same_link_def queue_ok_def pending_def note_sent_def record_event_def)

lemma writes_next:
  assumes "current_out_packet w = None \<or> (\<exists>p. current_out_packet w = Some p \<and> to_process p = 0)"
  shows "writes w (next_packet w)"
proof -
  have "queue_ok w \<Longrightarrow> (case current_out_packet w of None \<Rightarrow> [] | Some p \<Rightarrow> unsent_bytes p) = []"
    using assms by (auto simp: queue_ok_def dest!: unsent_ok)
  then show ?thesis
    by (auto simp: writes_def same_link_def queue_ok_def pending_def next_packet_def delivered_def split: list.splits)
qed

lemma write_loop_writes:
  fixes w :: "('p, 'z) connection_scheme"
  shows "write_loop role w = (r, w') \<Longrightarrow> writes w w' \<and> (queue_ok w \<longrightarrow> r \<noteq> Inl Fault)"
proof (induction role w arbitrary: r w' rule: write_loop.induct)
  case (1 role w)
  show ?case
  proof (cases "current_out_packet w")
    case None
    then show ?thesis using "1.prems" by (auto simp: write_loop.simps [of role w] writer.R_refl)
  next
    case (Some p)
    obtain s w1 where s: "send_loop w = (s, w1)" by force
    note send = send_loop_writes [OF s]
    show ?thesis
    proof (cases "s = Inr True")
      case False
      then show ?thesis using "1.prems" Some s send
        by (cases s) (auto simp: write_loop.simps [of role w])
    next
      case True
      then have fin: "current_out_packet w1 = None \<or> (\<exists>p. current_out_packet w1 = Some p \<and> to_process p = 0)"
        using send by blast
      let ?disc = "role = SMP_MQTTS_CLIENT \<and> command p AND 0xF6 \<noteq> PUBLISH \<and> command p AND 0xF0 = DISCONNECT"
      let ?v = "if role = SMP_MQTTS_CLIENT \<and> command p AND 0xF6 = PUBLISH then record_event (On_publish (p_mid p)) w1 else w1"
      note sent = conjunct1 [OF send]
      have v1: "writes w1 ?v" by (auto intro!: writes_bookkeeping(2) writer.R_refl)
      have v2: "writes ?v (next_packet ?v)" by (rule writes_next) (use fin in \<open>auto simp: record_event_def\<close>)
      have v: "writes w (note_sent (next_packet ?v))"
        by (rule writer.R_trans [OF sent writer.R_trans [OF v1 writer.R_trans [OF v2 writes_bookkeeping(1)]]])
      have d1: "writes (w1\<lparr>sock_open := False\<rparr>) (next_packet (w1\<lparr>sock_open := False\<rparr>))"
        by (rule writes_next) (use fin in auto)
      have d: "writes w (record_event On_disconnect (note_sent (next_packet (w1\<lparr>sock_open := False\<rparr>))))"
        by (rule writer.R_trans [OF sent writer.R_trans [OF writes_bookkeeping(3) writer.R_trans [OF d1
              writer.R_trans [OF writes_bookkeeping(1) writes_bookkeeping(2)]]]]) simp
      show ?thesis
      proof (cases ?disc)
        case True
        then have "write_loop role w
            = (Inr (), record_event On_disconnect (note_sent (next_packet (w1\<lparr>sock_open := False\<rparr>))))"
          using Some s \<open>s = Inr True\<close> by (subst write_loop.simps) simp
        then show ?thesis using "1.prems" d by auto
      next
        case False
        then have "write_loop role (note_sent (next_packet ?v)) = (r, w')"
          using "1.prems" Some s \<open>s = Inr True\<close> by (subst (asm) write_loop.simps) auto
        from "1.IH" [OF Some s [unfolded \<open>s = Inr True\<close>, symmetric] refl _ False this] v writer.R_trans
        show ?thesis by (auto simp: writes_def)
      qed
    qed
  qed
qed

lemma packet_write_writes:
  fixes w :: "('p, 'z) connection_scheme"
  assumes "packet__write role w = (r, w')"
  shows "writes w w'" and "queue_ok w \<Longrightarrow> r \<noteq> Inl Fault"
proof -
  let ?v = "if out_packet w \<noteq> [] \<and> current_out_packet w = None then next_packet w else w"
  have v: "writes w ?v" using writes_next [of w] writer.R_refl by auto
  have "r = Inl (Code MOSQ_ERR_NO_CONN) \<and> w' = w \<or> r = Inr () \<and> w' = ?v \<or> write_loop role ?v = (r, w')"
    using assms by (auto simp: packet__write_def comp_defs split: if_splits)
  then show "writes w w'" and "queue_ok w \<Longrightarrow> r \<noteq> Inl Fault"
    using v write_loop_writes [of role ?v r w'] writer.R_refl writer.R_trans by (auto simp: writes_def)
qed

text \<open>
  A socket that only takes some bytes or asks to wait; with one, and no DISCONNECT in the client's
  queue, writing succeeds, and it has either written everything or the socket asked to wait.
\<close>

definition tx_ok :: "('p, 'z) connection_scheme \<Rightarrow> bool" where
  "tx_ok w \<longleftrightarrow> (\<forall>e \<in> set (c_tx w). case e of Accept k \<Rightarrow> 0 < k | Tx_error x \<Rightarrow> x = EAGAIN)"

definition stays_open :: "smp_role \<Rightarrow> ('p, 'z) connection_scheme \<Rightarrow> bool" where
  "stays_open role w \<longleftrightarrow> sock_open w \<and> (role = SMP_MQTTS_CLIENT \<longrightarrow>
     (\<forall>p. current_out_packet w = Some p \<or> p \<in> set (out_packet w) \<longrightarrow> command p AND 0xF0 \<noteq> DISCONNECT))"

lemma net__write_live:
  assumes "net__write bs w = (k, w1)" and "tx_ok w" and "bs \<noteq> []"
  shows "tx_ok w1" and "k = Some n \<Longrightarrow> 0 < n" and "k = None \<Longrightarrow> c_errno w1 = EAGAIN"
  using assms by (auto simp: net__write_def tx_ok_def split: list.splits tx_event.splits)

lemma send_loop_live:
  fixes w :: "('p, 'z) connection_scheme"
  shows "send_loop w = (r, w') \<Longrightarrow> tx_ok w \<Longrightarrow> queue_ok w \<Longrightarrow> stays_open role w \<Longrightarrow>
    tx_ok w' \<and> stays_open role w' \<and> (r = Inr True \<or> r = Inr False \<and> c_errno w' = EAGAIN)"
proof (induction w arbitrary: r w' rule: send_loop.induct)
  case (1 w)
  show ?case
  proof (cases "current_out_packet w")
    case None
    then show ?thesis using "1.prems" by (auto simp: send_loop.simps [of w])
  next
    case (Some p)
    then have p: "packet_ok p" using "1.prems"(3) by (simp add: queue_ok_def)
    from Some show ?thesis
    proof (cases rule: send_loop_round)
      case out
      then show ?thesis using "1.prems" by auto
    next
      case (bad e)
      then show ?thesis using unsent_ok [OF p] by simp
    next
      case (stop bs k w1)
      have "bs \<noteq> []" using stop(1,2) unsent_ok [OF p] by auto
      note n = net__write_live [OF stop(3) "1.prems"(2) this]
      have "k = None" using stop(4) n(2) [of 0] by auto
      then show ?thesis using "1.prems" stop n(1,3) net__write_writes(2-4) [OF stop(3)]
        by (auto simp: net_stop_def stays_open_def)
    next
      case (more bs k w1)
      define v where "v = w1\<lparr>current_out_packet := Some (p\<lparr>to_process := to_process p - k, pos := pos p + k\<rparr>)\<rparr>"
      have bs: "bs \<noteq> []" "length bs = to_process p" using more(1,2) unsent_ok [OF p] by auto
      note n = net__write_live [OF more(3) "1.prems"(2) bs(1)] net__write_writes [OF more(3)]
      have "k \<le> to_process p" using n(8) [OF refl] bs(2) by simp
      then have "queue_ok v" using "1.prems"(3) p n(7) by (auto simp: v_def queue_ok_def packet_ok_def)
      moreover have "tx_ok v" using n(1) by (simp add: v_def tx_ok_def)
      moreover have "stays_open role v"
        using "1.prems"(4) n(5,7) Some by (auto simp: v_def stays_open_def)
      moreover have "send_loop v = (r, w')" using "1.prems"(1) more(5) by (simp add: v_def)
      ultimately show ?thesis
        using "1.IH" [OF Some more(1,2) more(3) [symmetric] refl more(4), folded v_def] by blast
    qed
  qed
qed

definition drained :: "('p, 'z) connection_scheme \<Rightarrow> bool" where
  "drained w \<longleftrightarrow> current_out_packet w = None \<and> out_packet w = []"

lemma stays_open_bookkeeping:
  "stays_open role w \<Longrightarrow> stays_open role (note_sent (next_packet w))"
  "stays_open role w \<Longrightarrow> stays_open role (record_event e w)"
  by (auto simp: stays_open_def note_sent_def record_event_def next_packet_def split: list.splits)

lemma tx_ok_bookkeeping [simp]:
  "tx_ok (note_sent w) = tx_ok w" "tx_ok (next_packet w) = tx_ok w" "tx_ok (record_event e w) = tx_ok w"
  by (simp_all add: tx_ok_def note_sent_def record_event_def next_packet_def split: list.splits)

lemma write_loop_live:
  fixes w :: "('p, 'z) connection_scheme"
  shows "tx_ok w \<Longrightarrow> queue_ok w \<Longrightarrow> stays_open role w \<Longrightarrow>
    (current_out_packet w = None \<longrightarrow> out_packet w = []) \<Longrightarrow>
    \<exists>w'. write_loop role w = (Inr (), w') \<and> tx_ok w' \<and> stays_open role w' \<and> (drained w' \<or> c_errno w' = EAGAIN)"
proof (induction role w rule: write_loop.induct)
  case (1 role w)
  show ?case
  proof (cases "current_out_packet w")
    case None
    then show ?thesis using "1.prems" by (simp add: write_loop.simps [of role w] drained_def)
  next
    case (Some p)
    obtain s w1 where s: "send_loop w = (s, w1)" by force
    note send = send_loop_writes [OF s] send_loop_keeps [OF s]
    note lv = send_loop_live [OF s "1.prems"(1-3)]
    show ?thesis
    proof (cases "s = Inr True")
      case False
      then show ?thesis using Some s lv by (auto simp: write_loop.simps [of role w])
    next
      case True
      let ?disc = "role = SMP_MQTTS_CLIENT \<and> command p AND 0xF6 \<noteq> PUBLISH \<and> command p AND 0xF0 = DISCONNECT"
      let ?v = "if role = SMP_MQTTS_CLIENT \<and> command p AND 0xF6 = PUBLISH then record_event (On_publish (p_mid p)) w1 else w1"
      let ?u = "note_sent (next_packet ?v)"
      have nd: "\<not> ?disc" using "1.prems"(3) Some by (auto simp: stays_open_def)
      have step: "write_loop role w = write_loop role ?u"
        using Some s True nd by (subst write_loop.simps) auto
      have q: "queue_ok w1" using send(1) "1.prems"(2) by (auto simp: writes_def)
      have "tx_ok ?u" using lv by simp
      moreover from q have "queue_ok ?u"
        by (auto simp: queue_ok_def note_sent_def next_packet_def record_event_def split: list.splits)
      moreover have "stays_open role ?u"
        by (rule stays_open_bookkeeping(1))
          (use lv stays_open_bookkeeping(2) [of role w1 "On_publish (p_mid p)"] in presburger)
      moreover have "current_out_packet ?u = None \<longrightarrow> out_packet ?u = []"
        by (auto simp: note_sent_def next_packet_def split: list.splits)
      ultimately show ?thesis
        unfolding step by (rule "1.IH" [OF Some s [unfolded True, symmetric] refl not_not [THEN iffD2, OF TrueI] nd])
    qed
  qed
qed

lemma packet_write_live:
  fixes w :: "('p, 'z) connection_scheme"
  assumes "tx_ok w" and "queue_ok w" and "stays_open role w" and "conn_state w \<noteq> mosq_cs_connect_pending"
  shows "\<exists>w'. packet__write role w = (Inr (), w') \<and> tx_ok w' \<and> stays_open role w' \<and>
    (drained w' \<or> c_errno w' = EAGAIN)"
proof -
  let ?v = "if out_packet w \<noteq> [] \<and> current_out_packet w = None then next_packet w else w"
  have "packet__write role w = write_loop role ?v"
    using assms(3,4) by (auto simp: packet__write_def comp_defs stays_open_def next_packet_def split: list.splits)
  moreover have "tx_ok ?v" using assms(1) by simp
  moreover have "queue_ok ?v" "stays_open role ?v" "current_out_packet ?v = None \<longrightarrow> out_packet ?v = []"
    using assms(2,3) by (auto simp: queue_ok_def stays_open_def next_packet_def split: list.splits)
  ultimately show ?thesis using write_loop_live [of ?v role] by simp
qed

section \<open>Sending a packet\<close>

lemma same_link_established: "same_link w w' \<Longrightarrow> established w s key \<Longrightarrow> established w' s key"
  by (auto simp: same_link_def established_def calm_def holds_key_def)

definition sender :: "smp_role \<Rightarrow> ('p, 'z) connection_scheme \<Rightarrow> smp_session \<Rightarrow> bytes \<Rightarrow> bool" where
  "sender role w s key \<longleftrightarrow> established w s key \<and> smpSession w = Session \<and> queue_ok w \<and>
     stays_open role w \<and> tx_ok w \<and> conn_state w \<noteq> mosq_cs_connect_pending"

definition frame :: "bytes \<Rightarrow> bytes" where
  "frame msg = remaining_bytes 0 (length msg) @ msg"

lemma frame_fits: "n < 2 ^ 28 \<Longrightarrow> length (remaining_bytes 0 n) \<le> 4"
  using length_remaining_bytes [of 0 n] by simp

lemma wrap_message:
  fixes w w1 :: "('p, 'z) smp_world_scheme"
  assumes "wclSmpGetMessage C T role session mtype pkt w = (Inr msg, w1)" and "calm w1" and "length msg < 2 ^ 28"
  shows "mosq_wclSmpGetMessage C T role session mtype pkt w = (Inr (frame msg), w1)"
proof -
  note fit = frame_fits [OF assms(3)]
  have "u32 (length msg) = length msg" "u32 (length msg + length (remaining_bytes 0 (length msg)))
      = length msg + length (remaining_bytes 0 (length msg))"
    using assms(3) fit by simp_all
  then show ?thesis using assms(1,2) fit
    by (simp add: mosq_wclSmpGetMessage_def comp_defs frame_def)
qed

lemma queue_sends:
  fixes w :: "('p, 'z) connection_scheme"
  assumes laws: "cbor_law C" "tom_law T" and w: "sender role w s key" and role: "role = smp_peer receiver"
    and p: "payload p = Some pkt" "packet_length p = length pkt" "pkt \<noteq> []" "length pkt + 105 < 2 ^ 28"
    and ty: "drop_bit 4 (hd pkt) \<in> set (control_types receiver)"
    and nd: "role = SMP_MQTTS_CLIENT \<Longrightarrow> command p AND 0xF0 \<noteq> DISCONNECT"
  obtains msg w' where "packet__queue C T role p w = (Inr (), w')"
    and "sender role w' (s\<lparr>toBeSentMessageId := toBeSentMessageId s + 1\<rparr>) key"
    and "secures C T role key s (drop_bit 4 (hd pkt)) pkt msg"
    and "c_wire w' @ pending w' = c_wire w @ pending w @ frame msg"
    and "c_rx w' = c_rx w" and "in_packet w' = in_packet w"
proof -
  let ?mtype = "drop_bit 4 (hd pkt)"
  have ty': "?mtype \<in> set (sendable_types role)" "?mtype \<noteq> 14"
    using control_types_sendable [OF ty] by (simp_all add: role)
  have types: "1 \<le> unat ?mtype" "unat ?mtype < 14" using ty' by (cases role; auto simp: sendable_types_def)+
  have e: "calm w" "smp_ctx w = Some s" "session_ok s" "isSessionKeyEstablished s"
      "holds_key w (sessionSharedKeyStorageId s) key" "length key = 32"
    using w by (auto simp: sender_def established_def)
  have l31: "length pkt < 2 ^ 31" using p(4) by simp
  obtain msg q where m: "smpSecureMessage C T role ?mtype (Some pkt) w
       = (Inr msg, w\<lparr>w_prng := q, smp_ctx := Some (s\<lparr>toBeSentMessageId := toBeSentMessageId s + 1\<rparr>)\<rparr>)"
      "secures C T role key s ?mtype pkt msg"
    by (rule secure_calm [OF e(1) laws e(2-6) types p(3) l31])
  define s' where "s' = s\<lparr>toBeSentMessageId := toBeSentMessageId s + 1\<rparr>"
  define w1 where "w1 = w\<lparr>w_prng := q, smp_ctx := Some s'\<rparr>"
  have est: "established w1 s' key"
    using e by (simp add: w1_def s'_def established_def session_ok_def sessionSharedKeyStorageId_def)
  have "length msg < 2 ^ 28" using m(2) p(4) by (auto simp: secures_def)
  then have get: "mosq_wclSmpGetMessage C T role Session ?mtype (Some pkt) w = (Inr (frame msg), w1)"
    using m(1) est unfolding w1_def s'_def
    by (intro wrap_message) (auto simp: get_message_control [OF ty'(1) p(3)] established_def)
  have head: "peek pkt 0 = Inr (hd pkt)" using p(3) by (simp add: peek_def hd_conv_nth)
  define p' where "p' = p\<lparr>payload := Some (frame msg), packet_length := length (frame msg),
      pos := 0, to_process := length (frame msg)\<rparr>"
  define w2 where "w2 = w1\<lparr>out_packet := out_packet w @ [p']\<rparr>"
  have enq: "enqueue (p\<lparr>payload := Some (frame msg), packet_length := length (frame msg)\<rparr>) w1 = w2"
    by (simp add: enqueue_def w2_def w1_def p'_def)
  have queue: "packet__queue C T role p w =
      (if role = SMP_MQTTS_BROKER \<or> \<not> in_callback w2 \<and> \<not> is_threaded w2 then packet__write role w2 else (Inr (), w2))"
    using get p head w enq by (simp add: packet__queue_def comp_defs sender_def)
  have ok2: "queue_ok w2" "tx_ok w2" "stays_open role w2" "conn_state w2 \<noteq> mosq_cs_connect_pending"
    using w nd by (auto simp: sender_def queue_ok_def packet_ok_def tx_ok_def stays_open_def w2_def w1_def p'_def)
  have same2: "c_wire w2 = c_wire w" "pending w2 = pending w @ frame msg" "c_rx w2 = c_rx w" "in_packet w2 = in_packet w"
    "smpSession w2 = Session"
    using w by (simp_all add: w2_def w1_def pending_def unsent_bytes_def p'_def sender_def)
  have est2: "established w2 s' key" using est by (simp add: w2_def established_def calm_def holds_key_def)
  obtain w' where w': "packet__queue C T role p w = (Inr (), w')" "writes w2 w'" "tx_ok w'" "stays_open role w'"
  proof (cases "role = SMP_MQTTS_BROKER \<or> \<not> in_callback w2 \<and> \<not> is_threaded w2")
    case True
    from packet_write_live [OF ok2(2,1,3,4)] obtain w' where
      "packet__write role w2 = (Inr (), w')" "tx_ok w'" "stays_open role w'" by blast
    then show thesis using that True packet_write_writes(1) unfolding queue by auto
  next
    case False
    then show thesis using that [of w2] ok2 writer.R_refl [of w2] unfolding queue by auto
  qed
  have link: "same_link w2 w'" using w'(2) by (simp add: writes_def)
  have "sender role w' s' key"
    using w'(2-4) ok2 same2(5) same_link_established [OF link est2] link
    by (simp add: sender_def writes_def) (simp add: same_link_def)
  moreover have "c_wire w' @ pending w' = c_wire w @ pending w @ frame msg"
    using w'(2) ok2(1) same2(1,2) by (simp add: writes_def)
  moreover have "c_rx w' = c_rx w" "in_packet w' = in_packet w"
    using w'(2) same2(3,4) by (auto simp: writes_def same_link_def)
  ultimately show thesis using that [OF w'(1)] m(2) unfolding s'_def by blast
qed

section \<open>Receiving a packet\<close>

text \<open>The caller's loop: read as often as the socket has something.\<close>

fun packet_reads ::
    "('e, 'v) cbor_api \<Rightarrow> ('k, 'p) tom_api \<Rightarrow> smp_role \<Rightarrow> (('p, 'z) connection_scheme, mosq_err, unit) comp \<Rightarrow>
     nat \<Rightarrow> (('p, 'z) connection_scheme, mosq_err, unit) comp" where
  "packet_reads C T role handle 0 = ok ()"
| "packet_reads C T role handle (Suc n) =
     bindE (packet__read C T role handle) (\<lambda>_. packet_reads C T role handle n)"

definition mqtt_packet :: "byte \<Rightarrow> bytes \<Rightarrow> bytes" where
  "mqtt_packet cmd body = cmd # remaining_bytes 0 (length body) @ body"

text \<open>What a handler finds in \<open>in_packet\<close>.\<close>

definition presents :: "mosquitto__packet \<Rightarrow> byte \<Rightarrow> bytes \<Rightarrow> bool" where
  "presents p cmd body \<longleftrightarrow> command p = cmd \<and> remaining_length p = length body \<and> pos p = 0 \<and>
     payload p = (if body = [] then None else Some body)"

definition quiet :: "('p, 'z) connection_scheme \<Rightarrow> bool" where
  "quiet w \<longleftrightarrow> idle (in_packet w) \<and> payload (in_packet w) = None \<and> sock_open w \<and>
     conn_state w \<noteq> mosq_cs_connect_pending \<and> smpSession w = Session"

lemma command_at_frame: "idle p \<Longrightarrow> command (at_frame junk rb msg i p) = 0"
proof -
  have "command (fold count_length_byte bs q) = command q" for bs q
    by (induction bs arbitrary: q) (simp_all add: count_length_byte_def smp_length_byte_def)
  then show "idle p \<Longrightarrow> ?thesis" by (simp add: at_frame_def body_read_def frame_start_def idle_def)
qed

text \<open>Behind a complete frame.\<close>

definition after_frame ::
    "('e, 'v) cbor_api \<Rightarrow> ('k, 'p) tom_api \<Rightarrow> smp_role \<Rightarrow> (('p, 'z) connection_scheme, mosq_err, unit) comp \<Rightarrow>
     (('p, 'z) connection_scheme, mosq_err, unit) comp" where
  "after_frame C T role handle =
     bindE (smp_deliver C T role) (\<lambda>_.
     bindE (asks (\<lambda>w. c_errno w = EAGAIN)) (\<lambda>wait. if wait then ok () else read_mqtt role True handle))"

lemma read_enters:
  assumes "sock_open w" and "conn_state w \<noteq> mosq_cs_connect_pending" and "command (in_packet w) = 0"
  shows "packet__read C T role handle w =
    bindE (packet__read_smp C T role) (\<lambda>_.
    bindE (asks (\<lambda>w. c_errno w = EAGAIN)) (\<lambda>wait. if wait then ok () else read_mqtt role True handle)) w"
  using assms by (simp add: packet__read_def bindE_def asks_def ensure_def)

text \<open>
  However the stream is cut, after some reads that only wait, the next one has the whole frame.
\<close>

lemma reads_reach_frame:
  fixes w :: "('p, 'z) connection_scheme"
  assumes calm: "calm w" and idle: "idle p" and conn: "sock_open w" "conn_state w \<noteq> mosq_cs_connect_pending"
    and rb: "rb = remaining_bytes 0 (length msg)" "length rb \<le> 4" "msg \<noteq> []"
    and w: "in_packet w = at_frame (w_junk w) rb msg i p" "i < length rb + length msg"
      "rx_ok (c_rx w)" "rx_stream (c_rx w) = drop i (rb @ msg) @ rest"
  shows "\<exists>k v es. k \<le> length (c_rx w) \<and> rx_ok es \<and> rx_stream es = rest \<and>
     (\<forall>handle. packet_reads C T role handle k w = (Inr (), v)) \<and>
     (\<forall>handle. packet__read C T role handle v = after_frame C T role handle
        (w\<lparr>in_packet := at_frame (w_junk w) rb msg (length rb + length msg) p, c_rx := es, c_errno := NO_ERROR\<rparr>))"
  using calm conn w
proof (induction "length (c_rx w)" arbitrary: i w rule: less_induct)
  case less
  have enter: "packet__read C T role handle w =
    bindE (packet__read_smp C T role) (\<lambda>_.
    bindE (asks (\<lambda>w. c_errno w = EAGAIN)) (\<lambda>wait. if wait then ok () else read_mqtt role True handle)) w" for handle
    using less.prems(2,3) command_at_frame [OF idle] by (intro read_enters) (simp_all add: less.prems(4))
  from read_smp_stream [OF less.prems(1) idle rb less.prems(4-7), of C T role]
  show ?case
  proof (elim exE conjE disjE)
    fix es j
    assume r: "rx_ok es" "j < length rb + length msg" "rx_stream es = drop j (rb @ msg) @ rest"
      "length es < length (c_rx w)"
      "packet__read_smp C T role w = (Inr (), w\<lparr>in_packet := at_frame (w_junk w) rb msg j p,
         c_rx := es, c_errno := EAGAIN\<rparr>)"
    define v where "v = w\<lparr>in_packet := at_frame (w_junk w) rb msg j p, c_rx := es, c_errno := EAGAIN\<rparr>"
    have wait: "packet__read C T role handle w = (Inr (), v)" for handle
      unfolding enter by (simp add: bindE_def r(5) asks_def ok_def v_def)
    have v: "calm v" "sock_open v" "conn_state v \<noteq> mosq_cs_connect_pending" "length (c_rx v) < length (c_rx w)"
        "in_packet v = at_frame (w_junk v) rb msg j p" "rx_ok (c_rx v)" "rx_stream (c_rx v) = drop j (rb @ msg) @ rest"
      using less.prems(1-3) r by (simp_all add: v_def calm_def)
    from less.hyps [OF v(4,1,2,3,5) r(2) v(6,7)] obtain k u es' where
      k: "k \<le> length (c_rx v)" "rx_ok es'" "rx_stream es' = rest"
        "\<And>handle. packet_reads C T role handle k v = (Inr (), u)"
        "\<And>handle. packet__read C T role handle u = after_frame C T role handle
          (v\<lparr>in_packet := at_frame (w_junk v) rb msg (length rb + length msg) p, c_rx := es', c_errno := NO_ERROR\<rparr>)"
      by blast
    have "packet_reads C T role handle (Suc k) w = (Inr (), u)" for handle
      using k(4) by (simp add: bindE_def wait)
    moreover have "v\<lparr>in_packet := at_frame (w_junk v) rb msg (length rb + length msg) p, c_rx := es', c_errno := NO_ERROR\<rparr>
        = w\<lparr>in_packet := at_frame (w_junk w) rb msg (length rb + length msg) p, c_rx := es', c_errno := NO_ERROR\<rparr>"
      by (simp add: v_def)
    moreover have "Suc k \<le> length (c_rx w)" using k(1) v(4) by simp
    ultimately show ?thesis using k(2,3,5) by metis
  next
    fix es
    assume r: "rx_ok es" "rx_stream es = rest"
      "packet__read_smp C T role w = smp_deliver C T role
         (w\<lparr>in_packet := at_frame (w_junk w) rb msg (length rb + length msg) p, c_rx := es, c_errno := NO_ERROR\<rparr>)"
    have "packet__read C T role handle w = after_frame C T role handle
        (w\<lparr>in_packet := at_frame (w_junk w) rb msg (length rb + length msg) p, c_rx := es, c_errno := NO_ERROR\<rparr>)" for handle
      unfolding enter after_frame_def by (simp add: bindE_def r(3))
    then show ?thesis using r(1,2)
      by (intro exI [of _ 0] exI [of _ w] exI [of _ es]) (simp add: ok_def)
  qed
qed

text \<open>A complete frame holds the message; delivering it decrypts it.\<close>

lemma complete_frame:
  assumes "rb \<noteq> []" and "idle p" and "q = at_frame junk rb msg (length rb + length msg) p"
  shows "smp_payload q = Live msg" and "smp_remaining_length q = length msg"
    and "command q = 0" and "remaining_count q = 0" and "remaining_mult q = 1" and "remaining_length q = 0"
    and "pos q = 0" and "payload q = payload p"
  using assms by (simp_all add: at_frame_def body_read_def frame_start_def idle_def)

definition receiver :: "('p, 'z) connection_scheme \<Rightarrow> smp_session \<Rightarrow> bytes \<Rightarrow> bool" where
  "receiver w r key \<longleftrightarrow> established w r key \<and> quiet w \<and> conn_state w \<noteq> mosq_cs_new"

lemma deliver_frame:
  fixes u :: "('p, 'z) connection_scheme"
  assumes law: "tom_law T" and u: "established u r key" "smpSession u = Session"
      "smp_payload (in_packet u) = Live msg" "smp_remaining_length (in_packet u) = length msg"
    and s: "session_ok s" and mtype: "mtype \<in> set (control_types role)"
    and fresh: "lastReceivedMessageId r \<le> toBeSentMessageId s"
    and sec: "secures C T (smp_peer role) key s mtype pkt msg" and pkt: "pkt \<noteq> []" "length pkt < 2 ^ 31"
  shows "smp_deliver C T role u = (Inr (), u\<lparr>smp_ctx := Some (r\<lparr>lastReceivedMessageId := toBeSentMessageId s\<rparr>),
     in_packet := (in_packet u)\<lparr>smp_pos := 0, mqttPacket := Some pkt, smp_payload := Freed\<rparr>\<rparr>)"
proof -
  define v where "v = upd_in (\<lambda>p. p\<lparr>smp_pos := 0\<rparr>) u"
  have e: "calm v" "smp_ctx v = Some r" "isSessionKeyEstablished r"
      "holds_key v (sessionSharedKeyStorageId r) key" "length key = 32"
    using u(1) by (auto simp: established_def v_def upd_in_def calm_def holds_key_def)
  have look: "lookup_law T" using law by (simp add: tom_law_def)
  have ne: "msg \<noteq> []" using sec by (auto simp: secures_def)
  have fr: "\<not> toBeSentMessageId s < lastReceivedMessageId r" using fresh by simp
  have "wclSmpProcessMessage C T role Session (Some msg) v
      = (Inr (Some pkt), v\<lparr>smp_ctx := Some (r\<lparr>lastReceivedMessageId := toBeSentMessageId s\<rparr>)\<rparr>)"
    by (rule process_message_ok [OF ne pkt(1) process_secured_calm [OF e(1) look e(2) s e(3-5) mtype fr sec pkt]])
  then show ?thesis using u(2-4) pkt(1)
    by (simp add: smp_deliver_def bindE_def modify_def asks_def pure_res_def on_error_def ensure_def bindR_def
        smp_packet_def v_def upd_in_def)
qed

lemma read_presents:
  fixes w :: "('p, 'z) connection_scheme"
  assumes p: "p = in_packet w" "mqttPacket p = Some (mqtt_packet cmd body)" "remaining_count p = 0"
      "remaining_mult p = 1" "remaining_length p = 0" "pos p = 0" "payload p = None"
    and w: "calm w" "conn_state w \<noteq> mosq_cs_new" and body: "length body < 2 ^ 28"
  shows "\<exists>q. presents q cmd body \<and>
     (\<forall>handle. read_mqtt role True handle w = handle_packet_then_reset handle (w\<lparr>in_packet := q\<rparr>))"
proof -
  let ?m = "mqtt_packet cmd body"
  let ?rb = "remaining_bytes 0 (length body)"
  define q where "q = p\<lparr>command := cmd, remaining_count := int (length ?rb), remaining_length := length body,
      remaining_mult := 128 ^ length ?rb\<rparr>"
  have m2: "\<not> length ?m < 2" by (cases ?rb) (auto simp: mqtt_packet_def)
  have loop: "mqtt_length_loop ?m 1 (p\<lparr>command := cmd\<rparr>)
      = (Inr (1 + length ?rb), q\<lparr>remaining_count := - int (length ?rb)\<rparr>)"
    using mqtt_length_decodes [of "p\<lparr>command := cmd\<rparr>" 0 "length body" 1 ?m body] p frame_fits [OF body] body
    by (simp add: mqtt_packet_def q_def)
  have cmd: "read_command role ?m w = (Inr (), w\<lparr>in_packet := p\<lparr>command := cmd\<rparr>\<rparr>)"
    using w(2) p(1) by (simp add: read_command_def bindE_def pure_res_def modify_def asks_def ensure_def upd_in_def
        mqtt_packet_def)
  have len: "in_mqtt_length ?m 1 (w\<lparr>in_packet := p\<lparr>command := cmd\<rparr>\<rparr>) = (Inr (1 + length ?rb), w\<lparr>in_packet := q\<rparr>)"
    by (simp add: in_mqtt_length_def loop q_def del: One_nat_def)
  define q' where "q' = (if body = [] then q else q\<lparr>payload := Some body, to_process := 0, pos := 0\<rparr>)"
  have copy: "copy_payload ?m (1 + length ?rb) (w\<lparr>in_packet := q\<rparr>) = (Inr (), w\<lparr>in_packet := q'\<rparr>)"
    using w(1) by (simp add: copy_payload_def bindE_def asks_def pure_res_def modify_def ok_def upd_in_def
        mosquitto__malloc_def libc_call_def calm_def slice_def mqtt_packet_def q'_def q_def)
  have "read_mqtt role True handle w = handle_packet_then_reset handle (w\<lparr>in_packet := q'\<rparr>)" for handle
    using m2 cmd len copy p(1-3)
    by (simp add: read_mqtt_def bindE_def asks_def ensure_def q_def del: One_nat_def)
  moreover have "presents q' cmd body" using p(6,7) by (simp add: presents_def q'_def q_def)
  ultimately show ?thesis by blast
qed

lemma receive_frame:
  fixes w :: "('p, 'z) connection_scheme"
  assumes law: "tom_law T" and w: "receiver w r key" "rx_ok (c_rx w)" "rx_stream (c_rx w) = frame msg @ rest"
    and s: "session_ok s" and mtype: "mtype \<in> set (control_types role)"
    and fresh: "lastReceivedMessageId r \<le> toBeSentMessageId s"
    and sec: "secures C T (smp_peer role) key s mtype (mqtt_packet cmd body) msg"
    and body: "length (mqtt_packet cmd body) + 105 < 2 ^ 28"
  obtains k v u where "k \<le> length (c_rx w)" and "\<forall>handle. packet_reads C T role handle k w = (Inr (), v)"
    and "\<forall>handle. packet__read C T role handle v = handle_packet_then_reset handle u"
    and "presents (in_packet u) cmd body" and "rx_ok (c_rx u)" and "rx_stream (c_rx u) = rest"
    and "established u (r\<lparr>lastReceivedMessageId := toBeSentMessageId s\<rparr>) key"
    and "sock_open u" and "conn_state u = conn_state w" and "smpSession u = Session"
proof -
  let ?pkt = "mqtt_packet cmd body"
  let ?r' = "r\<lparr>lastReceivedMessageId := toBeSentMessageId s\<rparr>"
  define rb where "rb = remaining_bytes 0 (length msg)"
  have q: "calm w" "idle (in_packet w)" "payload (in_packet w) = None" "sock_open w"
      "conn_state w \<noteq> mosq_cs_connect_pending" "conn_state w \<noteq> mosq_cs_new" "smpSession w = Session"
    and est: "established w r key"
    using w(1) by (auto simp: receiver_def quiet_def established_def)
  have sz: "length msg \<le> length ?pkt + 105" "msg \<noteq> []" using sec by (auto simp: secures_def)
  have rb: "length rb \<le> 4" unfolding rb_def by (rule frame_fits) (use sz body in linarith)
  have rbne: "rb \<noteq> []" by (simp add: rb_def)
  have start: "in_packet w = at_frame (w_junk w) rb msg 0 (in_packet w)" "0 < length rb + length msg"
      "rx_stream (c_rx w) = drop 0 (rb @ msg) @ rest"
    using rbne w(3) sz(2) by (simp_all add: frame_def rb_def)
  from reads_reach_frame [OF q(1,2,4,5) rb_def rb sz(2) start(1,2) w(2) start(3), of C T role]
  obtain k v es where k: "k \<le> length (c_rx w)" "rx_ok es" "rx_stream es = rest"
    "\<And>handle. packet_reads C T role handle k w = (Inr (), v)"
    "\<And>handle. packet__read C T role handle v = after_frame C T role handle
        (w\<lparr>in_packet := at_frame (w_junk w) rb msg (length rb + length msg) (in_packet w), c_rx := es, c_errno := NO_ERROR\<rparr>)"
    by blast
  define p where "p = at_frame (w_junk w) rb msg (length rb + length msg) (in_packet w)"
  define x where "x = w\<lparr>in_packet := p, c_rx := es, c_errno := NO_ERROR\<rparr>"
  note full = complete_frame [OF rbne q(2) p_def]
  have estx: "established x r key" using est by (simp add: x_def established_def calm_def holds_key_def)
  define y where "y = x\<lparr>smp_ctx := Some ?r', in_packet := p\<lparr>smp_pos := 0, mqttPacket := Some ?pkt, smp_payload := Freed\<rparr>\<rparr>"
  have pkt: "?pkt \<noteq> []" "length ?pkt < 2 ^ 31" using body by (simp_all add: mqtt_packet_def)
  have del: "smp_deliver C T role x = (Inr (), y)"
    using deliver_frame [OF law estx _ _ _ s mtype fresh sec pkt] q(7) full(1,2) by (simp add: x_def y_def)
  have bl: "length body < 2 ^ 28" using body by (simp add: mqtt_packet_def)
  obtain h where h: "presents h cmd body"
      "\<And>handle. read_mqtt role True handle y = handle_packet_then_reset handle (y\<lparr>in_packet := h\<rparr>)"
    using read_presents [of "in_packet y" y cmd body role] full q(1,3,6) bl
    by (auto simp: y_def x_def calm_def)
  have "packet__read C T role handle v = handle_packet_then_reset handle (y\<lparr>in_packet := h\<rparr>)" for handle
    using k(5) del h(2) by (simp add: p_def [symmetric] x_def [symmetric] after_frame_def bindE_def asks_def)
      (simp add: y_def x_def)
  moreover have "established (y\<lparr>in_packet := h\<rparr>) ?r' key"
    using est by (simp add: y_def x_def established_def calm_def holds_key_def session_ok_def sessionSharedKeyStorageId_def)
  ultimately show thesis
    using that [of k v "y\<lparr>in_packet := h\<rparr>"] k(1-4) h(1) q by (simp add: y_def x_def)
qed

end
