(* ===== verification/LinkFrames.thy ===== *)
theory LinkFrames
  imports PacketLink Send SmpFrames
begin

text \<open>
  What the send routines leave alone: a relation that holds across library calls and across changes
  of files, random generator and session (\<open>session_frame\<close>) holds across every routine of the packet
  layer. It is interpreted on the packet being read and on everything a client or broker keeps beyond the
  connection.
\<close>

section \<open>Beyond the connection\<close>

text \<open>
  \<open>upper w w'\<close>: the packet being read, the time, the state of the connection, the messages handed to
  the user and everything kept beyond the connection are the same.
\<close>

definition upper :: "('p, 'z) connection_scheme \<Rightarrow> ('p, 'z) connection_scheme \<Rightarrow> bool" where
  "upper w w' \<longleftrightarrow> connection.more w' = connection.more w \<and> in_packet w' = in_packet w \<and> c_now w' = c_now w \<and>
     conn_state w' = conn_state w \<and> delivered w' = delivered w"

interpretation up: session_frame upper
  by unfold_locales (auto simp: upper_def delivered_def libc_call_def)

lemma upper_malloc: "frames upper (mosquitto__malloc n e)" "frames upper (mosquitto__calloc e)"
  by (auto simp: frames_def mosquitto__malloc_def mosquitto__calloc_def split: prod.splits bool.splits
      dest!: up.R_libc)

lemma upper_write: "frames upper (packet__write role)"
  using packet_write_writes(1) by (auto simp: frames_def writes_def same_link_def upper_def)

lemma upper_enqueue: "frames upper (modify (enqueue p))"
  by (auto simp: frames_def modify_def enqueue_def upper_def delivered_def)

lemma upper_alloc: "frames upper (packet__alloc p)"
  unfolding packet__alloc_def Let_def by (intro up.read_rules upper_malloc)

lemma upper_fill: "frames upper (fill_packet wr p)"
  by (auto simp: frames_def fill_packet_def up.R_refl split: prod.splits sum.splits)

lemma upper_get_message: "frames upper (mosq_wclSmpGetMessage C T role session mtype pkt)"
  unfolding mosq_wclSmpGetMessage_def by (intro up.read_rules up.frames_get_message upper_malloc)

lemma upper_queue: "frames upper (packet__queue C T role p)"
  unfolding packet__queue_def by (intro up.read_rules upper_get_message upper_enqueue upper_write)

lemma upper_send_packet: "frames upper (send_packet C T role cmd len mid wr)"
  unfolding send_packet_def by (intro up.read_rules upper_malloc upper_alloc upper_fill upper_queue)

lemma upper_sends:
  "frames upper (send__command_with_mid C T role cmd mid dup)" "frames upper (send__simple_command C T role cmd)"
  "frames upper (send__puback C T role mid)" "frames upper (send__pubrec C T role mid)"
  "frames upper (send__pubrel C T role mid)" "frames upper (send__pubcomp C T role mid)"
  "frames upper (send__pingresp C T role)"
  "frames upper (send__real_publish C T role mid topic data qos retain dup)"
  unfolding send__command_with_mid_def send__simple_command_def send__puback_def send__pubrec_def
    send__pubrel_def send__pubcomp_def send__pingresp_def send__real_publish_def
  by (intro upper_send_packet)+

end
