(* ===== verification/ClientFacts.thy ===== *)
theory ClientFacts
  imports ClientHandle LinkFrames
begin

text \<open>
  The client's flow control: which messages are in flight, which wait, and that every call, every
  handler and every reconnect keeps the two apart - on all paths, failing sends included.
\<close>

section \<open>What the connection routines leave alone\<close>

definition same_more :: "('p, 'z) connection_scheme \<Rightarrow> ('p, 'z) connection_scheme \<Rightarrow> bool" where
  "same_more w w' \<longleftrightarrow> connection.more w' = connection.more w \<and> delivered w' = delivered w"

interpretation mo: session_frame same_more
  by unfold_locales (auto simp: same_more_def delivered_def libc_call_def)

lemma more_fields:
  fixes w w' :: "('p, 'z) mosquitto_scheme"
  assumes "same_more w w'"
  shows "out_messages w' = out_messages w" "in_messages w' = in_messages w"
    "out_queue_len w' = out_queue_len w" "in_queue_len w' = in_queue_len w"
    "inflight_messages w' = inflight_messages w" "max_inflight_messages w' = max_inflight_messages w"
    "delivered w' = delivered w"
  using assms by (cases w, cases w', simp add: same_more_def)+

lemma upper_more: "frames upper m \<Longrightarrow> frames same_more m"
  by (auto simp: frames_def upper_def same_more_def)

lemma more_malloc: "frames same_more (mosquitto__malloc n e)" "frames same_more (mosquitto__calloc e)"
  by (rule upper_more [OF upper_malloc(1)], rule upper_more [OF upper_malloc(2)])

lemma more_reads:
  "frames same_more packet__read_byte" "frames same_more packet__read_uint16"
  "frames same_more packet__read_string" "frames same_more (packet__read_bytes n)"
proof -
  have m: "frames same_more (modify (in_pos f))" for f
    by (auto simp: frames_def modify_def in_pos_def same_more_def delivered_def)
  have p: "frames same_more (in_payload i n)" for i n
    unfolding in_payload_def by (intro mo.frame_rules)
  show u: "frames same_more packet__read_uint16"
    unfolding packet__read_uint16_def by (intro mo.frame_rules m p)
  show "frames same_more packet__read_byte" "frames same_more packet__read_string"
    "frames same_more (packet__read_bytes n)"
    unfolding packet__read_byte_def packet__read_string_def packet__read_bytes_def
    by (intro mo.frame_rules m p u more_malloc)+
qed

lemma more_record: "\<not> is_message e \<Longrightarrow> frames same_more (modify (record_event e))"
  by (auto simp: frames_def modify_def record_event_def same_more_def delivered_def)

lemma more_publish:
  "frames same_more (publish_message C T role m)"
  "frames same_more (send__publish C T role mid topic data qos retain dup)"
  unfolding publish_message_def send__publish_def
  by (intro mo.frame_rules upper_more [OF upper_sends(8)])+

section \<open>Flow control\<close>

text \<open>
  The messages in flight come first, and are counted; behind them the ones that wait, and there are
  such only when the limit is reached.
\<close>

definition in_flight :: "mosquitto_message_all \<Rightarrow> bool" where
  "in_flight m \<longleftrightarrow> m_qos m \<in> {1, 2} \<and> m_state m \<noteq> mosq_ms_invalid"

definition waits :: "mosquitto_message_all \<Rightarrow> bool" where
  "waits m \<longleftrightarrow> m_qos m \<in> {1, 2} \<and> m_state m = mosq_ms_invalid"

definition flow_ok :: "('p, 'z) mosquitto_scheme \<Rightarrow> bool" where
  "flow_ok w \<longleftrightarrow> (\<exists>a b. out_messages w = a @ b \<and> list_all in_flight a \<and> list_all waits b \<and>
     inflight_messages w = int (length a) \<and> 0 \<le> max_inflight_messages w \<and>
     (max_inflight_messages w \<noteq> 0 \<longrightarrow> int (length a) \<le> max_inflight_messages w) \<and>
     (b \<noteq> [] \<longrightarrow> max_inflight_messages w = int (length a) \<and> a \<noteq> []) \<and>
     out_queue_len w = length (a @ b))"

lemma flow_more:
  fixes w w' :: "('p, 'z) mosquitto_scheme"
  shows "same_more w w' \<Longrightarrow> flow_ok w' = flow_ok w"
  by (simp add: flow_ok_def more_fields)

text \<open>A routine keeps a predicate of the client when it does so on every path, errors included.\<close>

definition keeps :: "(('p, 'z) mosquitto_scheme \<Rightarrow> bool) \<Rightarrow> ('p, 'z, 'a) client_comp \<Rightarrow> bool" where
  "keeps I m \<longleftrightarrow> frames (\<lambda>w w'. I w \<longrightarrow> I w') m"

lemma keepsD: "keeps I m \<Longrightarrow> m w = (r, w') \<Longrightarrow> I w \<Longrightarrow> I w'"
  by (auto simp: keeps_def frames_def)

interpretation kept: state_frame "\<lambda>w w' :: ('p, 'z) mosquitto_scheme. I w \<longrightarrow> I w'" for I
  by unfold_locales auto

lemma start_in_flight: "waits m \<Longrightarrow> in_flight (start_message m)"
  by (auto simp: waits_def in_flight_def start_message_def)

text \<open>Publishing: a new message starts when there is room, and else joins the ones that wait.\<close>

lemma flow_queue_and_send:
  fixes w :: "('p, 'z) mosquitto_scheme"
  assumes "flow_ok w" and "waits m" and run: "queue_and_send C T m w = (r, w')"
  shows "flow_ok w'"
proof -
  obtain a b where ab: "out_messages w = a @ b" "list_all in_flight a" "list_all waits b"
      "inflight_messages w = int (length a)" "0 \<le> max_inflight_messages w"
      "max_inflight_messages w \<noteq> 0 \<longrightarrow> int (length a) \<le> max_inflight_messages w"
      "b \<noteq> [] \<longrightarrow> max_inflight_messages w = int (length a) \<and> a \<noteq> []" "out_queue_len w = length (a @ b)"
    using assms(1) unfolding flow_ok_def by blast
  have q: "0 < m_qos m" using assms(2) by (auto simp: waits_def)
  show ?thesis
  proof (cases "has_room w")
    case False
    then have "max_inflight_messages w = int (length a) \<and> a \<noteq> []" using ab(4-6) by (auto simp: has_room_def)
    moreover have "w' = w\<lparr>out_queue_len := out_queue_len w + 1, out_messages := out_messages w @ [m]\<rparr>"
      using run False q by (simp add: queue_and_send_def message__queue_def bindE_def modify_def asks_def ok_def has_room_def)
    ultimately show ?thesis
      unfolding flow_ok_def using ab assms(2) by (intro exI [of _ a] exI [of _ "b @ [m]"]) simp
  next
    case True
    then have b: "b = []" using ab(4,7) by (auto simp: has_room_def)
    define v where "v = w\<lparr>out_queue_len := out_queue_len w + 1, inflight_messages := inflight_messages w + 1,
        out_messages := a @ [start_message m]\<rparr>"
    have "publish_message C T SMP_MQTTS_CLIENT (start_message m) v = (r, w')"
      using run True q ab(1) b by (simp add: queue_and_send_def message__queue_def bindE_def modify_def asks_def ok_def
          has_room_def v_def)
    then have "same_more v w'" by (rule framesD [OF more_publish(1)])
    moreover have "flow_ok v"
      unfolding flow_ok_def using ab b True start_in_flight [OF assms(2)]
      by (intro exI [of _ "a @ [start_message m]"] exI [of _ "[]"]) (auto simp: v_def has_room_def)
    ultimately show ?thesis by (simp add: flow_more)
  qed
qed

section \<open>Removing a message\<close>

lemma flow_okE:
  assumes "flow_ok w"
  obtains a b where "out_messages w = a @ b" "list_all in_flight a" "list_all waits b"
      "inflight_messages w = int (length a)" "0 \<le> max_inflight_messages w"
      "max_inflight_messages w \<noteq> 0 \<longrightarrow> int (length a) \<le> max_inflight_messages w"
      "b \<noteq> [] \<longrightarrow> max_inflight_messages w = int (length a) \<and> a \<noteq> []" "out_queue_len w = length (a @ b)"
  using assms unfolding flow_ok_def by blast

lemma extract_append:
  "extract_mid mid (a @ b) = (case extract_mid mid a of
     Some (m, a') \<Rightarrow> Some (m, a' @ b)
   | None \<Rightarrow> (case extract_mid mid b of Some (m, b') \<Rightarrow> Some (m, a @ b') | None \<Rightarrow> None))"
  by (induction a) (auto split: option.splits)

lemma extract_Some:
  "extract_mid mid ms = Some (m, rest) \<Longrightarrow>
   m \<in> set ms \<and> m_mid m = mid \<and> length ms = Suc (length rest) \<and> set rest \<subseteq> set ms"
  by (induction ms arbitrary: rest) (auto split: if_splits option.splits)

lemma extract_None: "extract_mid mid ms = None \<longleftrightarrow> mid \<notin> m_mid ` set ms"
  by (induction ms) (auto split: option.splits)

text \<open>The release loop passes the messages in flight, and starts at most one that waits.\<close>

lemma release_skip:
  assumes "list_all in_flight a"
  shows "release_from C T i (a @ b) w = release_from C T (i + length a) b w"
  using assms
proof (induction a arbitrary: i)
  case Nil
  show ?case by simp
next
  case (Cons x a)
  then have x: "m_state x \<noteq> mosq_ms_invalid" by (simp add: in_flight_def)
  show ?case
  proof (cases "has_room w")
    case True
    then show ?thesis using Cons x by (simp add: bindE_def asks_def)
  next
    case False
    then show ?thesis by (cases b) (simp_all add: bindE_def asks_def ok_def)
  qed
qed

lemma flow_release:
  fixes w :: "('p, 'z) mosquitto_scheme"
  assumes out: "out_messages w = a @ b" "list_all in_flight a" "list_all waits b"
    and n: "inflight_messages w = int (length a)" "0 \<le> max_inflight_messages w"
      "max_inflight_messages w \<noteq> 0 \<longrightarrow> int (length a) < max_inflight_messages w"
      "b \<noteq> [] \<longrightarrow> max_inflight_messages w = int (length a) + 1"
      "out_queue_len w = length (a @ b)"
    and run: "release_from C T 0 (a @ b) w = (r, w')"
  shows "flow_ok w'"
proof (cases b)
  case Nil
  then have "w' = w" using run release_skip [OF out(2), of C T 0 b w] by (simp add: ok_def)
  then show ?thesis unfolding flow_ok_def using out n Nil
    by (intro exI [of _ a] exI [of _ "[]"]) auto
next
  case (Cons x bs)
  have room: "has_room w" using n(1,3,4) Cons by (auto simp: has_room_def)
  have x: "0 < m_qos x" "m_state x = mosq_ms_invalid" "waits x" using out(3) Cons by (auto simp: waits_def)
  define v where "v = w\<lparr>inflight_messages := inflight_messages w + 1, out_messages := a @ start_message x # bs\<rparr>"
  have v: "flow_ok v"
    unfolding flow_ok_def using out n Cons start_in_flight [OF x(3)]
    by (intro exI [of _ "a @ [start_message x]"] exI [of _ bs]) (auto simp: v_def)
  have full: "\<not> has_room u" if "same_more v u" for u
    using n Cons more_fields [OF that] by (simp add: has_room_def v_def)
  have step: "release_from C T 0 (a @ b) w =
      bindE (publish_message C T SMP_MQTTS_CLIENT (start_message x)) (\<lambda>_. release_from C T (Suc (length a)) bs) v"
    unfolding release_skip [OF out(2)] using Cons room x out(1)
    by (simp add: bindE_def asks_def modify_def v_def)
  obtain q u where q: "publish_message C T SMP_MQTTS_CLIENT (start_message x) v = (q, u)" by fastforce
  have m: "same_more v u" by (rule framesD [OF more_publish(1) q])
  have "w' = u"
    using run step q full [OF m] by (cases bs) (auto simp: bindE_def asks_def ok_def split: sum.splits)
  then show ?thesis using v flow_more [OF m] by simp
qed

text \<open>An acknowledgement for a message in flight frees one place, and the first that waits takes it.\<close>

lemma flow_remove:
  fixes w :: "('p, 'z) mosquitto_scheme"
  assumes "flow_ok w" and sent: "\<forall>m\<in>set (out_messages w). waits m \<longrightarrow> m_mid m \<noteq> mid"
    and run: "message__remove C T mid mosq_md_out w = (r, w')"
  shows "flow_ok w'"
proof (cases "extract_mid mid (out_messages w)")
  case None
  then have "w' = w" using run by (simp add: message__remove_def bindE_def asks_def fail_def)
  then show ?thesis using assms(1) by simp
next
  case (Some y)
  obtain m rest where y: "y = (m, rest)" by fastforce
  obtain a b where ab: "out_messages w = a @ b" "list_all in_flight a" "list_all waits b"
      "inflight_messages w = int (length a)" "0 \<le> max_inflight_messages w"
      "max_inflight_messages w \<noteq> 0 \<longrightarrow> int (length a) \<le> max_inflight_messages w"
      "b \<noteq> [] \<longrightarrow> max_inflight_messages w = int (length a) \<and> a \<noteq> []" "out_queue_len w = length (a @ b)"
    by (rule flow_okE [OF assms(1)])
  have "mid \<notin> m_mid ` set b" using sent ab(1,3) by (auto simp: list_all_iff)
  then have "extract_mid mid b = None" by (simp add: extract_None)
  then obtain a' where a': "extract_mid mid a = Some (m, a')" "rest = a' @ b"
    using Some y ab(1) by (auto simp: extract_append split: option.splits)
  have e: "m \<in> set a" "length a = Suc (length a')" "list_all in_flight a'"
    using extract_Some [OF a'(1)] ab(2) by (auto simp: list_all_iff)
  have q: "0 < m_qos m" using e(1) ab(2) by (auto simp: list_all_iff in_flight_def)
  define v where "v = w\<lparr>out_messages := a' @ b, out_queue_len := out_queue_len w - 1,
      inflight_messages := inflight_messages w - 1\<rparr>"
  obtain s where "release_from C T 0 (a' @ b) v = (s, w')"
    using run Some y a'(2) q
    by (cases "release_from C T 0 (a' @ b) v")
      (auto simp: message__remove_def bindE_def asks_def modify_def ok_def v_def split: sum.splits)
  then show ?thesis
    by (rule flow_release [rotated 8]) (use ab e in \<open>auto simp: v_def\<close>)
qed

section \<open>Changes of the states of messages in flight\<close>

text \<open>The flow control sees of a message its QoS and its state.\<close>

abbreviation flow_key :: "mosquitto_message_all \<Rightarrow> nat \<times> msg_state" where
  "flow_key m \<equiv> (m_qos m, m_state m)"

definition same_flow :: "('p, 'z) mosquitto_scheme \<Rightarrow> ('p, 'z) mosquitto_scheme \<Rightarrow> bool" where
  "same_flow w w' \<longleftrightarrow> map flow_key (out_messages w') = map flow_key (out_messages w) \<and>
     out_queue_len w' = out_queue_len w \<and> inflight_messages w' = inflight_messages w \<and>
     max_inflight_messages w' = max_inflight_messages w"

interpretation sf: state_frame same_flow
  by unfold_locales (auto simp: same_flow_def)

lemma key_flow: "flow_key m' = flow_key m \<Longrightarrow> in_flight m' = in_flight m \<and> waits m' = waits m"
  by (simp add: in_flight_def waits_def)

lemma keys_flow:
  assumes "map flow_key ms' = map flow_key ms"
  shows "list_all in_flight ms' = list_all in_flight ms" "list_all waits ms' = list_all waits ms"
proof -
  have "list_all in_flight ms' = list_all in_flight ms \<and> list_all waits ms' = list_all waits ms"
    using assms
  proof (induction ms arbitrary: ms')
    case (Cons m ms)
    then obtain m' ns where n: "ms' = m' # ns" "flow_key m' = flow_key m" "map flow_key ns = map flow_key ms" by auto
    show ?case using Cons.IH [OF n(3)] key_flow [OF n(2)] n(1) by simp
  qed simp
  then show "list_all in_flight ms' = list_all in_flight ms" "list_all waits ms' = list_all waits ms" by auto
qed

lemma flow_same:
  assumes "flow_ok w" and "same_flow w w'"
  shows "flow_ok w'"
proof -
  obtain a b where ab: "out_messages w = a @ b" "list_all in_flight a" "list_all waits b"
      "inflight_messages w = int (length a)" "0 \<le> max_inflight_messages w"
      "max_inflight_messages w \<noteq> 0 \<longrightarrow> int (length a) \<le> max_inflight_messages w"
      "b \<noteq> [] \<longrightarrow> max_inflight_messages w = int (length a) \<and> a \<noteq> []" "out_queue_len w = length (a @ b)"
    by (rule flow_okE [OF assms(1)])
  have "map flow_key (out_messages w') = map flow_key a @ map flow_key b"
    using assms(2) ab(1) by (simp add: same_flow_def)
  then obtain a' b' where n: "out_messages w' = a' @ b'" "map flow_key a' = map flow_key a"
      "map flow_key b' = map flow_key b"
    by (auto simp: map_eq_append_conv)
  have l: "length a' = length a" "length b' = length b" using n(2,3) map_eq_imp_length_eq by auto
  then show ?thesis
    unfolding flow_ok_def using ab n assms(2) keys_flow [OF n(2)] keys_flow [OF n(3)]
    by (intro exI [of _ a'] exI [of _ b']) (auto simp: same_flow_def)
qed

lemma more_same: "frames same_more m \<Longrightarrow> frames same_flow (m :: ('p, 'z, 'a) client_comp)"
  by (fastforce simp: frames_def same_flow_def more_fields)

lemma same_in_remove: "frames same_flow (message__remove C T mid mosq_md_in)"
  unfolding message__remove_def
  by (auto intro!: sf.frame_rules sf.frames_modify simp: same_flow_def split: option.splits prod.splits)

text \<open>A retry changes time and DUP flag only; the list it walks stays the list in the client.\<close>

lemma same_retry:
  fixes w :: "('p, 'z) mosquitto_scheme"
  assumes "retry_from C T i ms w = (r, w')" and "drop i (out_messages w) = ms"
  shows "same_flow w w'"
  using assms
proof (induction ms arbitrary: i w)
  case Nil
  then show ?case by (simp add: ok_def sf.R_refl)
next
  case (Cons m ms)
  let ?mark = "w\<lparr>out_messages := (out_messages w)[i := m\<lparr>m_timestamp := c_now w, m_dup := True\<rparr>]\<rparr>"
  have i: "i < length (out_messages w)" "out_messages w ! i = m" "drop (Suc i) (out_messages w) = ms"
    using Cons.prems(2)
    by (metis drop_all leI list.distinct(1), metis hd_drop_conv_nth drop_all leI list.distinct(1) list.sel(1),
        metis drop_Suc drop_tl list.sel(3))
  have mk: "same_flow w ?mark"
    using i by (simp add: same_flow_def map_update) (metis (lifting) i(2) length_map list_update_id nth_map)
  have dm: "drop (Suc i) (out_messages ?mark) = ms" using i by simp
  have sends: "frames same_more (ignore (publish_message C T SMP_MQTTS_CLIENT x))"
    "frames same_more (ignore (send__pubrec C T SMP_MQTTS_CLIENT mid))"
    "frames same_more (ignore (send__pubrel C T SMP_MQTTS_CLIENT mid))" for x mid
    by (intro mo.frame_rules more_publish upper_more [OF upper_sends(4)] upper_more [OF upper_sends(5)])+
  have go: "same_flow w w'"
    if "bindE (h :: ('p, 'z, unit) client_comp) (\<lambda>_. retry_from C T (Suc i) ms) v = (r, w')" "frames same_more h"
      "same_flow w v" "drop (Suc i) (out_messages v) = ms" for h v
  proof -
    obtain q u where q: "h v = (q, u)" by fastforce
    have m: "same_more v u" by (rule framesD [OF that(2) q])
    have u: "same_flow v u" "drop (Suc i) (out_messages u) = ms"
      using more_fields [OF m] that(4) by (simp_all add: same_flow_def)
    show ?thesis
    proof (cases q)
      case (Inl e)
      then show ?thesis using that(1,3) q u(1) by (auto simp: bindE_def intro: sf.R_trans)
    next
      case (Inr x)
      then have "retry_from C T (Suc i) ms u = (r, w')" using that(1) q by (simp add: bindE_def)
      from Cons.IH [OF this u(2)] show ?thesis using that(3) u(1) by (meson sf.R_trans)
    qed
  qed
  have ign: "frames same_more (ok ())" by (rule mo.frame_rules)
  show ?case
  proof (cases "m_state m \<in> {mosq_ms_publish_qos1, mosq_ms_publish_qos2, mosq_ms_wait_for_pubrel,
      mosq_ms_resend_pubrel, mosq_ms_wait_for_pubcomp}")
    case False
    then show ?thesis using Cons.prems(1) by (intro go [OF _ ign sf.R_refl i(3)]) (simp add: Let_def)
  next
    case True
    define h :: "('p, 'z, unit) client_comp" where
      "h = (if m_state m \<in> {mosq_ms_publish_qos1, mosq_ms_publish_qos2}
            then ignore (publish_message C T SMP_MQTTS_CLIENT (m\<lparr>m_dup := True\<rparr>))
            else if m_state m = mosq_ms_wait_for_pubrel then ignore (send__pubrec C T SMP_MQTTS_CLIENT (m_mid m))
            else ignore (send__pubrel C T SMP_MQTTS_CLIENT (m_mid m)))"
    have h1: "frames same_more h" unfolding h_def by (intro mo.frame_rules sends)
    have h2: "bindE h (\<lambda>_. retry_from C T (Suc i) ms) ?mark = (r, w')"
      using Cons.prems(1) True by (auto simp: Let_def bindE_def asks_def modify_def h_def split: if_splits)
    show ?thesis by (rule go [OF h2 h1 mk dm])
  qed
qed

lemma same_retry_check: "frames same_flow (message__retry_check C T)"
  by (auto simp: frames_def message__retry_check_def bindE_def asks_def intro: same_retry)

section \<open>Reconnecting\<close>

lemma restart_in_flight: "in_flight m \<Longrightarrow> in_flight (restart_message (m\<lparr>m_timestamp := t\<rparr>))"
  by (auto simp: in_flight_def restart_message_def)

text \<open>The messages in flight are counted again, in order; the ones that wait go on waiting.\<close>

lemma reset_out_flow:
  assumes "list_all in_flight a" and "list_all waits b" and "0 \<le> n"
    and "max_n \<noteq> 0 \<longrightarrow> n + int (length a) \<le> max_n"
    and "b \<noteq> [] \<longrightarrow> max_n = n + int (length a)" and "b \<noteq> [] \<longrightarrow> max_n \<noteq> 0"
  shows "\<exists>a' b'. reset_out max_n n (a @ b) = (a' @ b', n + int (length a)) \<and> list_all in_flight a' \<and>
    list_all waits b' \<and> length a' = length a \<and> length b' = length b"
  using assms
proof (induction a arbitrary: n)
  case Nil
  have "\<exists>b'. reset_out max_n max_n b = (b', max_n) \<and> list_all waits b' \<and> length b' = length b"
    if "max_n \<noteq> 0" using Nil.prems(2) that
    by (induction b) (auto simp: waits_def)
  then show ?case using Nil.prems(5,6) by (cases "b = []") auto
next
  case (Cons m a)
  have m: "0 < m_qos m" "in_flight m" using Cons.prems(1) by (auto simp: in_flight_def)
  have c: "max_n = 0 \<or> n < max_n" using Cons.prems(4) by auto
  have "\<exists>a' b'. reset_out max_n (n + 1) (a @ b) = (a' @ b', n + 1 + int (length a)) \<and> list_all in_flight a' \<and>
      list_all waits b' \<and> length a' = length a \<and> length b' = length b"
    by (rule Cons.IH) (use Cons.prems in auto)
  then obtain a' b' where ih: "reset_out max_n (n + 1) (a @ b) = (a' @ b', n + 1 + int (length a))"
      "list_all in_flight a'" "list_all waits b'" "length a' = length a" "length b' = length b"
    by blast
  show ?case
    by (rule exI [of _ "restart_message (m\<lparr>m_timestamp := 0\<rparr>) # a'"], rule exI [of _ b'])
      (use ih c m restart_in_flight in auto)
qed

lemma flow_reset:
  assumes "flow_ok w"
  shows "flow_ok (message__reconnect_reset w)"
proof -
  obtain a b where ab: "out_messages w = a @ b" "list_all in_flight a" "list_all waits b"
      "inflight_messages w = int (length a)" "0 \<le> max_inflight_messages w"
      "max_inflight_messages w \<noteq> 0 \<longrightarrow> int (length a) \<le> max_inflight_messages w"
      "b \<noteq> [] \<longrightarrow> max_inflight_messages w = int (length a) \<and> a \<noteq> []" "out_queue_len w = length (a @ b)"
    by (rule flow_okE [OF assms])
  obtain a' b' where r: "reset_out (max_inflight_messages w) 0 (a @ b) = (a' @ b', int (length a))"
      "list_all in_flight a'" "list_all waits b'" "length a' = length a" "length b' = length b"
    using reset_out_flow [OF ab(2,3), of 0 "max_inflight_messages w"] ab(5-7) by auto
  obtain ins k where i: "reset_in False (in_messages w) = (ins, k)" by fastforce
  show ?thesis
    unfolding flow_ok_def
    by (intro exI [of _ a'] exI [of _ b']) (use r ab i in \<open>auto simp: message__reconnect_reset_def\<close>)
qed

section \<open>The calls and the handlers\<close>

text \<open>
  The id that a packet to be handled acknowledges, and when that is early: a message with this id is
  still waiting to be sent. Nothing in the code rejects such a packet.
\<close>

definition acked :: "('p, 'z) mosquitto_scheme \<Rightarrow> 16 word option" where
  "acked w = (if command (in_packet w) AND 0xF0 \<in> {PUBACK, PUBREC, PUBCOMP}
     then (case fst (packet__read_uint16 w :: (mosq_err, 16 word) res \<times> ('p, 'z) mosquitto_scheme) of
             Inl _ \<Rightarrow> None | Inr mid \<Rightarrow> Some mid)
     else None)"

definition early_ack :: "('p, 'z) mosquitto_scheme \<Rightarrow> bool" where
  "early_ack w \<longleftrightarrow> (\<exists>mid. acked w = Some mid \<and> (\<exists>m\<in>set (out_messages w). waits m \<and> m_mid m = mid))"

text \<open>
  What a predicate of the outgoing messages needs to survive every call of the user and every handler:
  it looks at QoS and state of the messages and at the counters only, and queueing a new message
  keeps it. Acknowledgements are the one thing left to the predicate.
\<close>

lemma keeps_rules:
  "keeps I (ok x)" "keeps I (fail e)" "keeps I (ensure c e)" "keeps I (asks g)" "keeps I (pure_res q)"
  "keeps I m \<Longrightarrow> (\<And>x. keeps I (k x)) \<Longrightarrow> keeps I (bindE m k)"
  "keeps I m \<Longrightarrow> keeps I (ignore m)" "keeps I m \<Longrightarrow> keeps I (on_error h m)"
  "keeps I m1 \<Longrightarrow> keeps I m2 \<Longrightarrow> keeps I (if c then m1 else m2)"
  "(\<And>x y. keeps I (p x y)) \<Longrightarrow> keeps I (case v of (x, y) \<Rightarrow> p x y)"
  for m m1 m2 :: "('p, 'z, 'a) client_comp"
  unfolding keeps_def by (auto intro: kept.frame_rules)

locale out_invariant =
  fixes C :: "('e, 'v) cbor_api" and T :: "('k, 'p) tom_api"
    and I :: "('p, 'z) mosquitto_scheme \<Rightarrow> bool"
  assumes I_same: "same_flow w w' \<Longrightarrow> I w \<Longrightarrow> I w'"
    and I_queue: "waits m \<Longrightarrow> queue_and_send C T m w = (r, w') \<Longrightarrow> I w \<Longrightarrow> I w'"
begin

lemma same_keeps: "frames same_flow m \<Longrightarrow> keeps I m"
  using I_same by (fastforce simp: keeps_def frames_def)

lemma more_keeps: "frames same_more m \<Longrightarrow> keeps I m"
  by (rule same_keeps [OF more_same])

lemma keeps_modify:
  "(\<And>w. out_messages (f w) = out_messages w \<and> out_queue_len (f w) = out_queue_len w \<and>
     inflight_messages (f w) = inflight_messages w \<and> max_inflight_messages (f w) = max_inflight_messages w) \<Longrightarrow>
   keeps I (modify f)"
  by (intro same_keeps) (simp add: frames_def modify_def same_flow_def)

lemma keeps_draw_mid: "keeps I draw_mid"
  unfolding draw_mid_def by (intro keeps_rules keeps_modify) simp

lemma keeps_sends:
  "keeps I (mosquitto__malloc n e)" "keeps I (mosquitto__calloc e)" "keeps I (packet__alloc p)"
  "keeps I (fill_packet wr p)" "keeps I (packet__queue C T role p)"
  "keeps I (send__publish C T role mid topic data qos retain dup)"
  "keeps I (send__puback C T role mid)" "keeps I (send__pubrec C T role mid)"
  "keeps I (send__pubrel C T role mid)" "keeps I (send__pubcomp C T role mid)"
  "keeps I (send__pingresp C T role)"
  by (intro more_keeps more_malloc more_publish upper_more [OF upper_alloc] upper_more [OF upper_fill]
      upper_more [OF upper_queue] upper_more [OF upper_sends(3)] upper_more [OF upper_sends(4)]
      upper_more [OF upper_sends(5)] upper_more [OF upper_sends(6)] upper_more [OF upper_sends(7)])+

lemmas keeps_reads = more_reads [THEN more_keeps]

lemma keeps_publish: "keeps I (mosquitto_publish C T topic n mem qos retain)"
proof -
  have q: "keeps I (queue_and_send C T m)" if "waits m" for m
    using I_queue [OF that] by (fastforce simp: keeps_def frames_def)
  show ?thesis
  proof (cases "0 \<le> qos \<and> qos \<le> 2")
    case False
    then show ?thesis
      by (auto simp: mosquitto_publish_def keeps_def frames_def bindE_def ensure_def split: option.splits)
  next
    case True
    have w: "waits \<lparr>m_mid = mid, m_topic = t, m_payload = d, m_qos = nat qos, m_retain = retain, m_timestamp = now,
        m_state = mosq_ms_invalid, m_dup = False\<rparr>" if "qos \<noteq> 0" for mid t d now
      using True that by (auto simp: waits_def)
    show ?thesis
    proof (cases "qos = 0")
      case True
      then show ?thesis unfolding mosquitto_publish_def if_P [OF True] by (intro keeps_rules keeps_sends keeps_draw_mid)
    next
      case False
      then show ?thesis
        unfolding mosquitto_publish_def if_not_P [OF False] by (intro keeps_rules keeps_sends keeps_draw_mid q w)
    qed
  qed
qed

lemma keeps_requests:
  "keeps I (mosquitto_subscribe C T sub sqos)" "keeps I (mosquitto_unsubscribe C T sub)"
  "keeps I (send__connect C T keepalive clean)"
proof -
  have m: "keeps I (modify (\<lambda>w :: ('p, 'z) mosquitto_scheme. w\<lparr>c_keepalive := keepalive\<rparr>))"
    by (intro keeps_modify) simp
  show "keeps I (mosquitto_subscribe C T sub sqos)" "keeps I (mosquitto_unsubscribe C T sub)"
    "keeps I (send__connect C T keepalive clean)"
    unfolding mosquitto_subscribe_def mosquitto_unsubscribe_def check_filter_def send__subscribe_def
      send__unsubscribe_def send__connect_def
    by (intro keeps_rules keeps_sends keeps_draw_mid m)+
qed

lemma keeps_event: "keeps I (modify (record_event e))"
  by (intro keeps_modify) (simp add: record_event_def)

lemma keeps_and_then:
  assumes "keeps I m" and "keeps I (modify f :: ('p, 'z, unit) client_comp)"
  shows "keeps I (and_then m f)"
  unfolding keeps_def frames_def
proof (intro allI impI)
  fix w :: "('p, 'z) mosquitto_scheme" and r w'
  assume run: "and_then m f w = (r, w')" and ok: "I w"
  obtain q u where q: "m w = (q, u)" by fastforce
  have u: "I u" using assms(1) q ok by (auto simp: keeps_def dest!: framesD)
  then have "I (f u)" using assms(2) by (auto simp: keeps_def frames_def modify_def)
  then show "I w'" using run q u by (auto simp: and_then_def split: sum.splits stop.splits)
qed

lemma keeps_codes: "keeps I (read_codes n)"
  by (induction n) (simp_all, intro keeps_rules keeps_reads, auto intro!: keeps_rules keeps_reads)

lemma keeps_handlers:
  "keeps I (handle__publish C T)" "keeps I (handle__pubrel C T)" "keeps I (handle__connack C T)"
  "keeps I handle__suback" "keeps I handle__unsuback" "keeps I (handle__pingreq C T)"
  "keeps I handle__pingresp"
proof -
  have rp: "keeps I read_publish"
    unfolding read_publish_def by (intro keeps_rules keeps_reads keeps_sends)
  have om: "keeps I (modify (on_message m))" for m
    unfolding on_message_def by (rule keeps_event)
  have qi: "keeps I (modify (snd \<circ> message__queue m mosq_md_in))" for m
    by (intro keeps_modify) (simp add: message__queue_def bindE_def modify_def ok_def)
  show "keeps I (handle__publish C T)"
    unfolding handle__publish_def by (intro keeps_rules rp om qi keeps_and_then keeps_sends)
  show "keeps I (handle__pubrel C T)"
    unfolding handle__pubrel_def by (intro keeps_rules keeps_reads same_keeps [OF same_in_remove] om keeps_sends)
  have st: "keeps I (modify (\<lambda>w :: ('p, 'z) mosquitto_scheme.
      if conn_state w \<noteq> mosq_cs_disconnecting then w\<lparr>conn_state := mosq_cs_connected\<rparr> else w))"
    by (intro keeps_modify) simp
  show "keeps I (handle__connack C T)"
    unfolding handle__connack_def
    by (intro keeps_rules keeps_reads keeps_event st same_keeps [OF same_retry_check])
  show "keeps I handle__suback" "keeps I handle__unsuback" "keeps I (handle__pingreq C T)"
    unfolding handle__suback_def handle__unsuback_def handle__pingreq_def
    by (intro keeps_rules keeps_reads keeps_sends keeps_codes keeps_event)+
  show "keeps I handle__pingresp"
    unfolding handle__pingresp_def by (intro keeps_modify) simp
qed

text \<open>A packet keeps the predicate when its acknowledgement, if it is one, does.\<close>

lemma keeps_acks:
  fixes w :: "('p, 'z) mosquitto_scheme"
  assumes "I w" and read: "packet__read_uint16 w = (q :: (mosq_err, 16 word) res, u)"
    and rem: "\<And>mid s v. q = Inr mid \<Longrightarrow> message__remove C T mid mosq_md_out u = (s, v) \<Longrightarrow> I v"
    and upd: "\<And>mid s v. q = Inr mid \<Longrightarrow> message__out_update mid mosq_ms_wait_for_pubcomp u = (s, v) \<Longrightarrow> I v"
  shows "handle__pubackcomp C T w = (r, w') \<Longrightarrow> I w'" and "handle__pubrec C T w = (r, w') \<Longrightarrow> I w'"
proof -
  have u: "I u" by (rule keepsD [OF keeps_reads(2) read assms(1)])
  {
    assume run: "handle__pubackcomp C T w = (r, w')"
    show "I w'"
    proof (cases q)
      case (Inl e)
      then show ?thesis using run read u by (simp add: handle__pubackcomp_def bindE_def)
    next
      case (Inr mid)
      obtain s v where v: "message__remove C T mid mosq_md_out u = (s, v)" by fastforce
      have f: "I v" by (rule rem [OF Inr v])
      have e: "I (record_event (On_publish mid) v)"
        using keepsD [OF keeps_event, of "On_publish mid" v] f by (simp add: modify_def)
      have "w' = v \<or> w' = record_event (On_publish mid) v"
        using run read Inr v
        by (auto simp: handle__pubackcomp_def message__delete_def bindE_def ignore_def modify_def ok_def
            split: sum.splits stop.splits prod.splits)
      then show ?thesis using f e by auto
    qed
  }
  {
    assume run: "handle__pubrec C T w = (r, w')"
    show "I w'"
    proof (cases q)
      case (Inl e)
      then show ?thesis using run read u by (simp add: handle__pubrec_def bindE_def)
    next
      case (Inr mid)
      obtain s v where v: "message__out_update mid mosq_ms_wait_for_pubcomp u = (s, v)" by fastforce
      have f: "I v" by (rule upd [OF Inr v])
      have "w' = v \<or> (\<exists>r. send__pubrel C T SMP_MQTTS_CLIENT mid v = (r, w'))"
        using run read Inr v
        by (auto simp: handle__pubrec_def bindE_def rescue_def ok_def fail_def split: sum.splits if_splits)
      then show ?thesis using f keepsD [OF keeps_sends(9)] by auto
    qed
  }
qed

lemma keeps_packet:
  fixes w :: "('p, 'z) mosquitto_scheme"
  assumes "I w" and run: "handle__packet C T w = (r, w')"
    and rem: "\<And>mid u s v. acked w = Some mid \<Longrightarrow> same_more w u \<Longrightarrow> message__remove C T mid mosq_md_out u = (s, v) \<Longrightarrow> I v"
    and upd: "\<And>mid u s v. acked w = Some mid \<Longrightarrow> same_more w u \<Longrightarrow>
      message__out_update mid mosq_ms_wait_for_pubcomp u = (s, v) \<Longrightarrow> I v"
  shows "I w'"
proof (cases "command (in_packet w) AND 0xF0 \<in> {PUBACK, PUBREC, PUBCOMP}")
  case True
  obtain q :: "(mosq_err, 16 word) res" and u where q: "packet__read_uint16 w = (q, u)" by fastforce
  have u: "same_more w u" by (rule framesD [OF more_reads(2) q])
  have a: "acked w = Some mid" if "q = Inr mid" for mid using True q that by (simp add: acked_def)
  have "handle__pubackcomp C T w = (r, w') \<or> handle__pubrec C T w = (r, w')"
    using run True by (auto simp: handle__packet_def bindE_def asks_def PINGREQ_def PINGRESP_def PUBACK_def
        PUBCOMP_def PUBLISH_def PUBREC_def)
  then show ?thesis
  proof
    assume "handle__pubackcomp C T w = (r, w')"
    from keeps_acks(1) [OF assms(1) q _ _ this] show ?thesis using rem [OF a u] upd [OF a u] by metis
  next
    assume "handle__pubrec C T w = (r, w')"
    from keeps_acks(2) [OF assms(1) q _ _ this] show ?thesis using rem [OF a u] upd [OF a u] by metis
  qed
next
  case False
  then have "handle__publish C T w = (r, w') \<or> handle__pubrel C T w = (r, w') \<or> handle__connack C T w = (r, w') \<or>
      handle__suback w = (r, w') \<or> handle__unsuback w = (r, w') \<or> handle__pingreq C T w = (r, w') \<or>
      handle__pingresp w = (r, w') \<or> w' = w"
    using run by (simp add: handle__packet_def bindE_def asks_def fail_def split: if_splits)
  then show ?thesis
    by (elim disjE) ((erule keepsD [rotated], rule assms(1), rule keeps_handlers)+, simp add: assms(1))
qed

end

section \<open>The limit is kept when the peer acknowledges what it was sent\<close>

interpretation fl: out_invariant C T flow_ok for C :: "('e, 'v) cbor_api" and T :: "('k, 'p) tom_api"
  by unfold_locales (auto intro: flow_same flow_queue_and_send)

lemma update_mid_append:
  "mid \<notin> m_mid ` set b \<Longrightarrow> update_mid mid f (a @ b) = map_option (\<lambda>a'. a' @ b) (update_mid mid f a)"
proof (induction a)
  case Nil
  then show ?case by (induction b) auto
next
  case (Cons m a)
  then show ?case by (cases "update_mid mid f a") auto
qed

lemma update_mid_in_flight:
  assumes "update_mid mid f a = Some a'" and "list_all in_flight a" and "\<And>m. in_flight m \<Longrightarrow> in_flight (f m)"
  shows "list_all in_flight a' \<and> length a' = length a"
  using assms(1,2)
  by (induction a arbitrary: a') (auto split: if_splits intro: assms(3))

lemma flow_pubrec:
  fixes w :: "('p, 'z) mosquitto_scheme"
  assumes "flow_ok w" and sent: "\<forall>m\<in>set (out_messages w). waits m \<longrightarrow> m_mid m \<noteq> mid"
    and run: "message__out_update mid mosq_ms_wait_for_pubcomp w = (r, w')"
  shows "flow_ok w'"
proof -
  obtain a b where ab: "out_messages w = a @ b" "list_all in_flight a" "list_all waits b"
      "inflight_messages w = int (length a)" "0 \<le> max_inflight_messages w"
      "max_inflight_messages w \<noteq> 0 \<longrightarrow> int (length a) \<le> max_inflight_messages w"
      "b \<noteq> [] \<longrightarrow> max_inflight_messages w = int (length a) \<and> a \<noteq> []" "out_queue_len w = length (a @ b)"
    by (rule flow_okE [OF assms(1)])
  have b: "mid \<notin> m_mid ` set b" using sent ab(1,3) by (auto simp: list_all_iff)
  define f where "f = (\<lambda>m :: mosquitto_message_all. m\<lparr>m_state := mosq_ms_wait_for_pubcomp, m_timestamp := c_now w\<rparr>)"
  have f: "in_flight m \<Longrightarrow> in_flight (f m)" for m by (auto simp: in_flight_def f_def)
  show ?thesis
  proof (cases "update_mid mid f a")
    case None
    then have "w' = w" using run update_mid_append [OF b, of f a] ab(1)
      by (simp add: message__out_update_def bindE_def asks_def fail_def f_def)
    then show ?thesis using assms(1) by simp
  next
    case (Some a')
    have a': "list_all in_flight a'" "length a' = length a"
      using update_mid_in_flight [OF Some ab(2)] f by auto
    have w': "w' = w\<lparr>out_messages := a' @ b\<rparr>" using run update_mid_append [OF b, of f a] ab(1) Some
      by (simp add: message__out_update_def bindE_def asks_def modify_def f_def)
    show ?thesis
      unfolding flow_ok_def w' using ab a' by (intro exI [of _ a'] exI [of _ b]) auto
  qed
qed

lemma flow_packet:
  fixes w :: "('p, 'z) mosquitto_scheme"
  assumes ok: "flow_ok w" and "\<not> early_ack w" and run: "handle__packet C T w = (r, w')"
  shows "flow_ok w'"
proof (rule fl.keeps_packet [OF ok run])
  fix mid v and u :: "('p, 'z) mosquitto_scheme"
  assume a: "acked w = Some mid" and m: "same_more w u"
  have sent: "\<forall>m\<in>set (out_messages u). waits m \<longrightarrow> m_mid m \<noteq> mid"
    using assms(2) a more_fields [OF m] by (auto simp: early_ack_def)
  have u: "flow_ok u" using ok flow_more [OF m] by simp
  show "message__remove C T mid mosq_md_out u = (s, v) \<Longrightarrow> flow_ok v" for s by (rule flow_remove [OF u sent])
  show "message__out_update mid mosq_ms_wait_for_pubcomp u = (s, v) \<Longrightarrow> flow_ok v" for s by (rule flow_pubrec [OF u sent])
qed

section \<open>What is left of the limit otherwise\<close>

text \<open>
  In every run, early acknowledgements and changes of the limit included: each early acknowledgement
  can bring one message in flight more than is counted, and the counter stays below a bound on the
  limits that were set, if there is one.
\<close>

definition bounded_by :: "int option \<Rightarrow> ('p, 'z) mosquitto_scheme \<Rightarrow> bool" where
  "bounded_by L w \<longleftrightarrow> (case L of None \<Rightarrow> True
     | Some l \<Rightarrow> inflight_messages w \<le> l \<and> 0 < max_inflight_messages w \<and> max_inflight_messages w \<le> l)"

definition slack :: "int option \<Rightarrow> nat \<Rightarrow> ('p, 'z) mosquitto_scheme \<Rightarrow> bool" where
  "slack L k w \<longleftrightarrow> int (length (filter in_flight (out_messages w))) \<le> inflight_messages w + int k \<and>
     out_queue_len w = length (out_messages w) \<and> list_all (\<lambda>m. m_qos m \<in> {1, 2}) (out_messages w) \<and>
     bounded_by L w"

lemma filter_flow:
  assumes "map flow_key ms' = map flow_key ms"
  shows "length (filter in_flight ms') = length (filter in_flight ms)"
  using assms
proof (induction ms arbitrary: ms')
  case (Cons m ms)
  then obtain m' ns where n: "ms' = m' # ns" "flow_key m' = flow_key m" "map flow_key ns = map flow_key ms" by auto
  show ?case using Cons.IH [OF n(3)] key_flow [OF n(2)] n(1) by simp
qed simp

lemma qos_flow:
  assumes "map flow_key ms' = map flow_key ms"
  shows "list_all (\<lambda>m. m_qos m \<in> Q) ms' = list_all (\<lambda>m. m_qos m \<in> Q) ms"
proof -
  have "map m_qos ms' = map m_qos ms" using arg_cong [OF assms, of "map fst"] by (simp add: comp_def)
  then have "m_qos ` set ms' = m_qos ` set ms" by (metis set_map)
  then show ?thesis by (auto simp: list_all_iff) (metis image_iff)+
qed

lemma slack_same:
  assumes "same_flow w w'" and "slack L k w"
  shows "slack L k w'"
proof -
  have m: "map flow_key (out_messages w') = map flow_key (out_messages w)" using assms(1) by (simp add: same_flow_def)
  show ?thesis
    using assms filter_flow [OF m] map_eq_imp_length_eq [OF m] qos_flow [OF m, of "{1, 2}"]
    by (simp add: slack_def bounded_by_def same_flow_def split: option.splits)
qed

lemma slack_more: "same_more w w' \<Longrightarrow> slack L k w \<Longrightarrow> slack L k w'" for w w' :: "('p, 'z) mosquitto_scheme"
  by (rule slack_same) (simp add: same_flow_def more_fields)

lemma slack_mono: "slack L k w \<Longrightarrow> k \<le> j \<Longrightarrow> slack L j w"
  by (auto simp: slack_def)

lemma room_bound: "has_room w \<Longrightarrow> bounded_by (Some l) w \<Longrightarrow> inflight_messages w + 1 \<le> l"
  by (auto simp: has_room_def bounded_by_def)

lemma filter_update:
  assumes "i < length xs"
  shows "length (filter P (xs[i := y])) \<le> Suc (length (filter P xs))"
proof -
  have "length (filter P xs) = length (filter P (take i xs @ xs ! i # drop (Suc i) xs))"
    using id_take_nth_drop [OF assms] by simp
  then show ?thesis using assms by (simp add: upd_conv_take_nth_drop)
qed

lemma slack_queue:
  fixes w :: "('p, 'z) mosquitto_scheme"
  assumes "waits m" and run: "queue_and_send C T m w = (r, w')" and ok: "slack L k w"
  shows "slack L k w'"
proof -
  have q: "0 < m_qos m" "\<not> in_flight m" using assms(1) by (auto simp: waits_def in_flight_def)
  show ?thesis
  proof (cases "has_room w")
    case False
    then have "w' = w\<lparr>out_queue_len := out_queue_len w + 1, out_messages := out_messages w @ [m]\<rparr>"
      using run q by (simp add: queue_and_send_def message__queue_def bindE_def modify_def asks_def ok_def has_room_def)
    then show ?thesis using ok q assms(1) by (simp add: slack_def bounded_by_def waits_def split: option.splits)
  next
    case True
    define v where "v = w\<lparr>out_queue_len := out_queue_len w + 1, inflight_messages := inflight_messages w + 1,
        out_messages := out_messages w @ [start_message m]\<rparr>"
    have p: "publish_message C T SMP_MQTTS_CLIENT (start_message m) v = (r, w')"
      using run True q by (simp add: queue_and_send_def message__queue_def bindE_def modify_def asks_def ok_def
          has_room_def v_def)
    have "m_qos (start_message m) \<in> {1, 2}" using assms(1) by (auto simp: start_message_def waits_def)
    then have "slack L k v" using ok room_bound [OF True] by (auto simp: slack_def bounded_by_def v_def split: option.splits)
    then show ?thesis by (rule slack_more [OF framesD [OF more_publish(1) p]])
  qed
qed

interpretation lo: out_invariant C T "slack L k" for C :: "('e, 'v) cbor_api" and T :: "('k, 'p) tom_api" and L k
  by unfold_locales (erule slack_same, assumption, erule slack_queue)

lemma slack_release:
  fixes w :: "('p, 'z) mosquitto_scheme"
  assumes "release_from C T i ms w = (r, w')" and "drop i (out_messages w) = ms" and "slack L k w"
  shows "slack L k w'"
  using assms
proof (induction ms arbitrary: i w)
  case Nil
  then show ?case by (simp add: ok_def)
next
  case (Cons m ms)
  have i: "i < length (out_messages w)" "drop (Suc i) (out_messages w) = ms"
    using Cons.prems(2) by (metis drop_all leI list.distinct(1), metis drop_Suc drop_tl list.sel(3))
  show ?case
  proof (cases "has_room w")
    case False
    then show ?thesis using Cons.prems(1,3) by (simp add: bindE_def asks_def ok_def)
  next
    case room: True
    show ?thesis
    proof (cases "0 < m_qos m \<and> m_state m = mosq_ms_invalid")
      case False
      then have "release_from C T (Suc i) ms w = (r, w')" using Cons.prems(1) room by (auto simp: bindE_def asks_def)
      then show ?thesis by (rule Cons.IH [OF _ i(2) Cons.prems(3)])
    next
      case True
      define v where "v = w\<lparr>inflight_messages := inflight_messages w + 1,
          out_messages := (out_messages w)[i := start_message m]\<rparr>"
      have "m = out_messages w ! i" using Cons.prems(2) by (metis hd_drop_conv_nth i(1) list.sel(1))
      then have "m_qos (start_message m) \<in> {1, 2}"
        using Cons.prems(3) i(1) by (auto simp: slack_def start_message_def list_all_length)
      then have "list_all (\<lambda>m. m_qos m \<in> {1, 2}) ((out_messages w)[i := start_message m])"
        using Cons.prems(3) by (auto simp: slack_def list_all_iff dest!: set_update_subset_insert [THEN subsetD])
      then have v: "slack L k v"
        using Cons.prems(3) room_bound [OF room] filter_update [OF i(1), of in_flight "start_message m"]
        by (auto simp: slack_def bounded_by_def v_def split: option.splits)
      obtain q u where q: "publish_message C T SMP_MQTTS_CLIENT (start_message m) v = (q, u)" by fastforce
      have m: "same_more v u" by (rule framesD [OF more_publish(1) q])
      have u: "slack L k u" "drop (Suc i) (out_messages u) = ms"
        using slack_more [OF m v] more_fields [OF m] i(2) by (simp_all add: v_def)
      have "w' = u \<or> release_from C T (Suc i) ms u = (r, w')"
        using Cons.prems(1) room True q by (auto simp: bindE_def asks_def modify_def v_def split: sum.splits)
      then show ?thesis using u Cons.IH [OF _ u(2,1)] by blast
    qed
  qed
qed

lemma filter_extract:
  "extract_mid mid ms = Some (m, rest) \<Longrightarrow>
   length (filter P ms) = length (filter P rest) + (if P m then 1 else 0) \<and> length ms = Suc (length rest)"
  by (induction ms arbitrary: rest) (auto split: if_splits option.splits)

abbreviation waiting_with :: "16 word \<Rightarrow> ('p, 'z) mosquitto_scheme \<Rightarrow> nat" where
  "waiting_with mid w \<equiv> (if \<exists>m\<in>set (out_messages w). waits m \<and> m_mid m = mid then 1 else 0)"

lemma slack_remove:
  fixes w :: "('p, 'z) mosquitto_scheme"
  assumes ok: "slack L k w" and run: "message__remove C T mid mosq_md_out w = (r, w')"
  shows "slack L (k + waiting_with mid w) w'"
proof (cases "extract_mid mid (out_messages w)")
  case None
  then have "w' = w" using run by (simp add: message__remove_def bindE_def asks_def fail_def)
  then show ?thesis using slack_mono [OF ok] by simp
next
  case (Some y)
  obtain m rest where y: "y = (m, rest)" by fastforce
  note e = filter_extract [OF Some [unfolded y], of in_flight] extract_Some [OF Some [unfolded y]]
  define v where "v = w\<lparr>out_messages := rest, out_queue_len := out_queue_len w - 1,
      inflight_messages := (if 0 < m_qos m then inflight_messages w - 1 else inflight_messages w)\<rparr>"
  have q: "m_qos m \<in> {1, 2}" "list_all (\<lambda>m. m_qos m \<in> {1, 2}) rest"
    using ok e(2) by (auto simp: slack_def list_all_iff)
  have "in_flight m \<or> waiting_with mid w = 1" using q(1) e(2) by (auto simp: in_flight_def waits_def)
  then obtain n where n: "waiting_with mid w = n" "in_flight m \<or> n = 1" by simp
  have c: "int (length (filter in_flight rest)) + (if in_flight m then 1 else 0) \<le> inflight_messages w + int k"
    "out_queue_len w = Suc (length rest)" "bounded_by L w"
    using ok e(1) by (auto simp: slack_def)
  have l: "slack L (k + waiting_with mid w) v"
    unfolding n(1) using n(2) c q by (auto simp: slack_def bounded_by_def v_def split: option.splits if_splits)
  have v: "drop 0 (out_messages v) = rest" by (simp add: v_def)
  obtain s where "release_from C T 0 rest v = (s, w')"
    using run Some y
    by (cases "release_from C T 0 rest v")
      (auto simp: message__remove_def bindE_def asks_def modify_def ok_def v_def split: sum.splits)
  then show ?thesis by (rule slack_release [OF _ v l])
qed

lemma update_mid_count:
  assumes "update_mid mid f ms = Some ms'" and "\<And>m. m_qos (f m) = m_qos m"
    and "list_all (\<lambda>m. m_qos m \<in> {1, 2}) ms"
  shows "length ms' = length ms \<and> list_all (\<lambda>m. m_qos m \<in> {1, 2}) ms' \<and>
    length (filter in_flight ms') \<le> length (filter in_flight ms) +
      (if \<exists>m\<in>set ms. waits m \<and> m_mid m = mid then 1 else 0)"
  using assms(1,3)
proof (induction ms arbitrary: ms')
  case (Cons m ms)
  show ?case
  proof (cases "m_mid m = mid")
    case True
    then have "ms' = f m # ms" using Cons.prems(1) by simp
    then show ?thesis using True Cons.prems(2) assms(2) [of m] by (auto simp: in_flight_def waits_def)
  next
    case False
    then obtain ns where n: "ms' = m # ns" "update_mid mid f ms = Some ns" using Cons.prems(1) by auto
    have e: "(\<exists>x\<in>set (m # ms). waits x \<and> m_mid x = mid) \<longleftrightarrow> (\<exists>x\<in>set ms. waits x \<and> m_mid x = mid)"
      using False by auto
    show ?thesis using Cons.IH [OF n(2)] Cons.prems(2) unfolding n(1) e by (auto split: if_splits)
  qed
qed simp

lemma slack_update:
  fixes w :: "('p, 'z) mosquitto_scheme"
  assumes ok: "slack L k w" and run: "message__out_update mid state w = (r, w')"
  shows "slack L (k + waiting_with mid w) w'"
proof (cases "update_mid mid (\<lambda>m. m\<lparr>m_state := state, m_timestamp := c_now w\<rparr>) (out_messages w)")
  case None
  then have "w' = w" using run by (simp add: message__out_update_def bindE_def asks_def fail_def)
  then show ?thesis using slack_mono [OF ok] by simp
next
  case (Some ms)
  then have w': "w' = w\<lparr>out_messages := ms\<rparr>" using run
    by (simp add: message__out_update_def bindE_def asks_def modify_def)
  have "list_all (\<lambda>m. m_qos m \<in> {1, 2}) (out_messages w)" using ok by (simp add: slack_def)
  from update_mid_count [OF Some _ this]
  have c: "length ms = length (out_messages w)" "list_all (\<lambda>m. m_qos m \<in> {1, 2}) ms"
    "length (filter in_flight ms) \<le> length (filter in_flight (out_messages w)) + waiting_with mid w" by simp_all
  obtain n where n: "waiting_with mid w = n" by simp
  have i: "int (length (filter in_flight (out_messages w))) \<le> inflight_messages w + int k" using ok by (simp add: slack_def)
  have b: "bounded_by L w'" "out_queue_len w' = length (out_messages w')"
    using ok c(1) by (auto simp: w' slack_def bounded_by_def split: option.splits)
  show ?thesis unfolding n slack_def using b c(2) c(3) [unfolded n] i by (simp add: w')
qed

lemma reset_out_count:
  assumes "reset_out max_n n ms = (ms', n')" and "list_all (\<lambda>m. m_qos m \<in> {1, 2}) ms"
  shows "length ms' = length ms \<and> list_all (\<lambda>m. m_qos m \<in> {1, 2}) ms' \<and>
    int (length (filter in_flight ms')) \<le> n' - n \<and> (0 < max_n \<longrightarrow> n \<le> max_n \<longrightarrow> n' \<le> max_n)"
  using assms
proof (induction ms arbitrary: n ms' n')
  case (Cons m ms)
  have q: "m_qos (restart_message (m\<lparr>m_timestamp := 0\<rparr>)) = m_qos m" "0 < m_qos m" "m_qos m \<in> {1, 2}"
    using Cons.prems(2) by (auto simp: restart_message_def)
  have o: "list_all (\<lambda>m. m_qos m \<in> {1, 2}) ms" using Cons.prems(2) by simp
  show ?case
  proof (cases "max_n = 0 \<or> n < max_n")
    case True
    then obtain ns where r: "reset_out max_n (n + 1) ms = (ns, n')" "ms' = restart_message (m\<lparr>m_timestamp := 0\<rparr>) # ns"
      using Cons.prems(1) q(2) by (auto split: prod.splits)
    show ?thesis using Cons.IH [OF r(1) o] r(2) q True by auto
  next
    case False
    then obtain ns where r: "reset_out max_n n ms = (ns, n')"
        "ms' = m\<lparr>m_timestamp := 0, m_state := mosq_ms_invalid\<rparr> # ns"
      using Cons.prems(1) by (auto split: prod.splits)
    show ?thesis using Cons.IH [OF r(1) o] r(2) q False by (auto simp: in_flight_def)
  qed
qed simp

lemma slack_reset:
  fixes w :: "('p, 'z) mosquitto_scheme"
  assumes "slack L k w"
  shows "slack L k (message__reconnect_reset w)"
proof -
  obtain ms n where r: "reset_out (max_inflight_messages w) 0 (out_messages w) = (ms, n)" by fastforce
  obtain ins j where i: "reset_in False (in_messages w) = (ins, j)" by fastforce
  have "list_all (\<lambda>m. m_qos m \<in> {1, 2}) (out_messages w)" using assms by (simp add: slack_def)
  from reset_out_count [OF r this] show ?thesis
    using assms by (auto simp: message__reconnect_reset_def r i slack_def bounded_by_def split: option.splits)
qed

lemma slack_limit:
  fixes w :: "('p, 'z) mosquitto_scheme"
  assumes "slack L k w" and "mosquitto_max_inflight_messages_set n w = (r, w')"
    and "\<And>l. L = Some l \<Longrightarrow> 0 < n \<and> n \<le> l"
  shows "slack L k w'"
  using assms by (auto simp: mosquitto_max_inflight_messages_set_def modify_def slack_def bounded_by_def split: option.splits)

lemma slack_packet:
  fixes w :: "('p, 'z) mosquitto_scheme"
  assumes ok: "slack L k w" and run: "handle__packet C T w = (r, w')"
  shows "slack L (k + (if early_ack w then 1 else 0)) w'"
proof -
  have start: "slack L (k + (if early_ack w then 1 else 0)) w" by (rule slack_mono [OF ok]) simp
  show ?thesis
  proof (rule lo.keeps_packet [OF start run])
    fix mid v and u :: "('p, 'z) mosquitto_scheme"
    assume a: "acked w = Some mid" and m: "same_more w u"
    have e: "k + waiting_with mid u = k + (if early_ack w then 1 else 0)"
      using a more_fields [OF m] by (simp add: early_ack_def)
    have u: "slack L k u" by (rule slack_more [OF m ok])
    show "message__remove C T mid mosq_md_out u = (s, v) \<Longrightarrow> slack L (k + (if early_ack w then 1 else 0)) v" for s
      using slack_remove [OF u, of C T mid s v] e by simp
    show "message__out_update mid mosq_ms_wait_for_pubcomp u = (s, v) \<Longrightarrow> slack L (k + (if early_ack w then 1 else 0)) v" for s
      using slack_update [OF u, of mid _ s v] e by simp
  qed
qed

end
