(* ===== verification/PacketFields.thy ===== *)
theory PacketFields
  imports Send PacketLink
begin

text \<open>
  The fields of a packet: each writer of \<open>lib/packet_mosq.c\<close> has a reader that gives back what was
  written. The locale states this of one kind of field; it is interpreted on bytes, 16-bit numbers,
  strings and blocks.
\<close>

lemma bindE_go: "m s = (Inr x, t) \<Longrightarrow> k x t = R \<Longrightarrow> bindE m k s = R"
  by (simp add: bindE_Inr)

text \<open>A packet being filled: the header \<open>h\<close>, the fields \<open>bs\<close> written so far, and room behind.\<close>

definition written :: "bytes \<Rightarrow> mosquitto__packet \<Rightarrow> bytes \<Rightarrow> bool" where
  "written h p bs \<longleftrightarrow> (\<exists>room. payload p = Some (h @ bs @ room) \<and> pos p = length h + length bs \<and>
     packet_length p = length (h @ bs @ room) \<and> packet_length p < 2 ^ 32)"

text \<open>A packet being read: the fields \<open>bs\<close> are still to come.\<close>

definition unread :: "mosquitto__packet \<Rightarrow> bytes \<Rightarrow> bool" where
  "unread p bs \<longleftrightarrow> (\<exists>past. payload p = Some (past @ bs) \<and> pos p = length past \<and>
     remaining_length p = length (past @ bs) \<and> remaining_length p < 2 ^ 32)"

definition refilled :: "mosquitto__packet \<Rightarrow> mosquitto__packet \<Rightarrow> bool" where
  "refilled p q \<longleftrightarrow> q = p\<lparr>payload := payload q, pos := pos q\<rparr>"

lemma refilled_refl [simp]: "refilled p p"
  by (simp add: refilled_def)

lemma refilled_trans: "refilled p q \<Longrightarrow> refilled q r \<Longrightarrow> refilled p r"
  by (cases p, cases q, cases r) (simp add: refilled_def)

lemma refilled_fields:
  "refilled p q \<Longrightarrow> packet_length q = packet_length p \<and> command q = command p \<and>
     remaining_length q = remaining_length p"
  by (cases p, cases q) (simp add: refilled_def)

text \<open>The world after reading \<open>n\<close> bytes.\<close>

definition advanced :: "nat \<Rightarrow> ('p, 'z) connection_scheme \<Rightarrow> ('p, 'z) connection_scheme" where
  "advanced n w = w\<lparr>in_packet := (in_packet w)\<lparr>pos := pos (in_packet w) + n\<rparr>\<rparr>"

lemma advanced_simps [simp]:
  "calm (advanced n w) = calm w" "command (in_packet (advanced n w)) = command (in_packet w)"
  "c_now (advanced n w) = c_now w" "advanced 0 w = w" "advanced m (advanced n w) = advanced (n + m) w"
  "remaining_length (in_packet (advanced n w)) = remaining_length (in_packet w)"
  "pos (in_packet (advanced n w)) = pos (in_packet w) + n"
  by (simp_all add: advanced_def calm_def add.assoc)

lemma unread_advanced: "unread (in_packet w) (bs @ rest) \<Longrightarrow> unread (in_packet (advanced (length bs) w)) rest"
  unfolding unread_def by (elim exE, rename_tac past, rule_tac x = "past @ bs" in exI) (simp add: advanced_def)

lemma unread_length: "unread p bs \<Longrightarrow> remaining_length p - pos p = length bs"
  by (auto simp: unread_def)

locale field_codec =
  fixes enc :: "'a \<Rightarrow> bytes" and fits :: "'a \<Rightarrow> bool"
    and wr :: "'a \<Rightarrow> (mosquitto__packet, mosq_err, unit) comp"
    and rd :: "(('p, 'z) connection_scheme, mosq_err, 'a) comp"
  assumes writes: "fits x \<Longrightarrow> written h p bs \<Longrightarrow> length (h @ bs @ enc x) \<le> packet_length p \<Longrightarrow>
      \<exists>q. wr x p = (Inr (), q) \<and> refilled p q \<and> written h q (bs @ enc x)"
    and reads: "fits x \<Longrightarrow> calm w \<Longrightarrow> unread (in_packet w) (enc x @ rest) \<Longrightarrow>
      rd w = (Inr x, advanced (length (enc x)) w)"
begin

text \<open>A field in front of others, written and read.\<close>

lemma write_then:
  assumes "fits x" and "written h p bs" and "length (h @ bs @ enc x @ later) \<le> packet_length p"
    and rest: "\<And>q. refilled p q \<Longrightarrow> written h q (bs @ enc x) \<Longrightarrow>
      \<exists>r. k q = (Inr (), r) \<and> refilled q r \<and> written h r (bs @ enc x @ later)"
  shows "\<exists>r. bindE (wr x) (\<lambda>_. k) p = (Inr (), r) \<and> refilled p r \<and> written h r (bs @ enc x @ later)"
proof -
  obtain q where q: "wr x p = (Inr (), q)" "refilled p q" "written h q (bs @ enc x)"
    using writes [OF assms(1,2)] assms(3) by auto
  obtain r where "k q = (Inr (), r)" "refilled q r" "written h r (bs @ enc x @ later)"
    using rest [OF q(2,3)] by blast
  then show ?thesis using q refilled_trans by (auto simp: bindE_def)
qed

lemma read_then:
  assumes "fits x" and "calm w" and "unread (in_packet w) (enc x @ rest)"
  shows "bindE rd k w = k x (advanced (length (enc x)) w)"
    and "unread (in_packet (advanced (length (enc x)) w)) rest"
  using reads [OF assms] unread_advanced [OF assms(3)] by (simp_all add: bindE_def)

end

section \<open>The kinds of fields\<close>

lemma write_block:
  assumes "written h p bs" and "length (h @ bs @ xs) \<le> packet_length p"
  shows "\<exists>q. packet__write_bytes xs p = (Inr (), q) \<and> refilled p q \<and> written h q (bs @ xs)"
proof -
  obtain room where r: "payload p = Some (h @ bs @ room)" "pos p = length h + length bs"
      "packet_length p = length (h @ bs @ room)" "packet_length p < 2 ^ 32"
    using assms(1) unfolding written_def by blast
  have l: "length xs \<le> length room" using assms(2) r(3) by simp
  have u: "u32 (pos p + length xs) = pos p + length xs" using assms(2) r(2,4) by simp
  define q where "q = p\<lparr>payload := Some (h @ bs @ xs @ drop (length xs) room), pos := pos p + length xs\<rparr>"
  have f: "pos p + length xs \<le> packet_length p" using assms(2) r(2) by simp
  have s: "poke (h @ bs @ room) (length h + length bs) xs = (Inr (h @ bs @ xs @ drop (length xs) room) :: (mosq_err, bytes) res)"
    using l by (simp add: poke_def)
  have "packet__write_bytes xs p = (Inr (), q)"
    using r(1) u f s r(2)
    by (simp add: packet__write_bytes_def bindE_def asks_def ensure_def pure_res_def modify_def q_def)
  moreover have "written h q (bs @ xs)"
    using r l unfolding written_def q_def by (intro exI [of _ "drop (length xs) room"]) simp
  ultimately show ?thesis by (auto simp: refilled_def q_def)
qed

lemma write_byte_block: "packet__write_byte b = packet__write_bytes [b]"
  by (rule ext) (simp add: packet__write_byte_def packet__write_bytes_def bindE_def asks_def ensure_def pure_res_def)

lemma read_block:
  assumes "unread (in_packet w) (xs @ rest)"
  shows "packet__read_bytes (length xs) w = (Inr xs, advanced (length xs) w)"
proof -
  obtain past where r: "payload (in_packet w) = Some (past @ xs @ rest)" "pos (in_packet w) = length past"
      "remaining_length (in_packet w) = length (past @ xs @ rest)" "remaining_length (in_packet w) < 2 ^ 32"
    using assms unfolding unread_def by blast
  then show ?thesis
    by (simp add: packet__read_bytes_def bindE_def asks_def ensure_def in_payload_def pure_res_def modify_def ok_def
        in_pos_def advanced_def)
qed

interpretation block_field: field_codec id "\<lambda>xs. length xs = n" packet__write_bytes "packet__read_bytes n"
  by unfold_locales (auto dest: write_block read_block)

interpretation byte_field: field_codec "\<lambda>b. [b]" "\<lambda>_. True" packet__write_byte packet__read_byte
proof
  fix x :: byte and w :: "('p, 'z) connection_scheme" and rest
  assume "unread (in_packet w) ([x] @ rest)"
  then obtain past where r: "payload (in_packet w) = Some (past @ x # rest)" "pos (in_packet w) = length past"
      "remaining_length (in_packet w) = length (past @ x # rest)" "remaining_length (in_packet w) < 2 ^ 32"
    unfolding unread_def by auto
  then show "packet__read_byte w = (Inr x, advanced (length [x]) w)"
    by (simp add: packet__read_byte_def bindE_def asks_def ensure_def in_payload_def pure_res_def modify_def ok_def
        in_pos_def advanced_def)
qed (simp add: write_byte_block write_block)

definition enc16 :: "16 word \<Rightarrow> bytes" where "enc16 x = [MOSQ_MSB x, MOSQ_LSB x]"

lemma length_enc16 [simp]: "length (enc16 x) = 2"
  by (simp add: enc16_def)

lemma join16: "push_bit 8 (ucast (MOSQ_MSB x)) + ucast (MOSQ_LSB x) = (x :: 16 word)"
proof -
  have d: "push_bit 8 (ucast (MOSQ_MSB x)) AND ucast (MOSQ_LSB x) = (0 :: 16 word)"
    by (rule bit_word_eqI) (auto simp: bit_simps MOSQ_MSB_def MOSQ_LSB_def dest: bit_imp_le_length)
  have m: "(0xFF :: 16 word) = mask 8" "(0xFF00 :: 16 word) = push_bit 8 (mask 8)"
    by (simp_all add: mask_eq_exp_minus_1)
  have "push_bit 8 (ucast (MOSQ_MSB x)) OR ucast (MOSQ_LSB x) = (x :: 16 word)"
    unfolding MOSQ_MSB_def MOSQ_LSB_def m
    by (rule bit_word_eqI) (auto simp: bit_simps)
  then show ?thesis using disjunctive_add_eq_or [OF d] by simp
qed

interpretation uint16_field: field_codec enc16 "\<lambda>_. True" packet__write_uint16 packet__read_uint16
proof
  fix x :: "16 word" and h p bs
  assume w: "written h p bs" and l: "length (h @ bs @ enc16 x) \<le> packet_length p"
  show "\<exists>q. packet__write_uint16 x p = (Inr (), q) \<and> refilled p q \<and> written h q (bs @ enc16 x)"
    unfolding packet__write_uint16_def enc16_def
  proof (rule byte_field.write_then [of _ _ _ _ "[MOSQ_LSB x]", simplified append_Cons append_Nil])
    fix q assume q: "refilled p q" "written h q (bs @ [MOSQ_MSB x])"
    show "\<exists>r. packet__write_byte (MOSQ_LSB x) q = (Inr (), r) \<and> refilled q r \<and>
        written h r (bs @ [MOSQ_MSB x, MOSQ_LSB x])"
      using byte_field.writes [OF TrueI q(2), of "MOSQ_LSB x"] refilled_fields [OF q(1)] l by (simp add: enc16_def)
  qed (use w l in \<open>simp_all add: enc16_def\<close>)
next
  fix x :: "16 word" and w :: "('p, 'z) connection_scheme" and rest
  assume "unread (in_packet w) (enc16 x @ rest)"
  then obtain past where r: "payload (in_packet w) = Some (past @ enc16 x @ rest)" "pos (in_packet w) = length past"
      "remaining_length (in_packet w) = length (past @ enc16 x @ rest)" "remaining_length (in_packet w) < 2 ^ 32"
    unfolding unread_def by auto
  then show "packet__read_uint16 w = (Inr x, advanced (length (enc16 x)) w)"
    by (simp add: packet__read_uint16_def bindE_def asks_def ensure_def in_payload_def pure_res_def modify_def ok_def
        in_pos_def advanced_def enc16_def join16)
qed

definition enc_string :: "bytes \<Rightarrow> bytes" where "enc_string s = enc16 (word_of_nat (length s)) @ s"

lemma length_enc_string [simp]: "length (enc_string s) = 2 + length s"
  by (simp add: enc_string_def)

interpretation string_field: field_codec enc_string "\<lambda>s. length s < 2 ^ 16"
    "\<lambda>s. packet__write_string s (word_of_nat (length s))" packet__read_string
proof
  fix x h bs :: bytes and p
  assume f: "length x < 2 ^ 16" and w: "written h p bs" and l: "length (h @ bs @ enc_string x) \<le> packet_length p"
  have u: "unat (word_of_nat (length x) :: 16 word) = length x" using f by (simp add: unsigned_of_nat take_bit_eq_mod)
  have e: "bindE (pure_res (slice x 0 (length x))) packet__write_bytes = packet__write_bytes x"
    by (rule ext) (simp add: bindE_def pure_res_def)
  show "\<exists>q. packet__write_string x (word_of_nat (length x)) p = (Inr (), q) \<and> refilled p q \<and>
      written h q (bs @ enc_string x)"
    unfolding packet__write_string_def enc_string_def u e
  proof (rule uint16_field.write_then)
    fix q assume q: "refilled p q" "written h q (bs @ enc16 (word_of_nat (length x)))"
    show "\<exists>r. packet__write_bytes x q = (Inr (), r) \<and> refilled q r \<and>
        written h r (bs @ enc16 (word_of_nat (length x)) @ x)"
      using write_block [OF q(2), of x] refilled_fields [OF q(1)] l by simp
  qed (use w l in simp_all)
next
  fix x :: bytes and w :: "('p, 'z) connection_scheme" and rest
  assume f: "length x < 2 ^ 16" and w: "calm w" and r: "unread (in_packet w) (enc_string x @ rest)"
  have u: "unat (word_of_nat (length x) :: 16 word) = length x" using f by (simp add: unsigned_of_nat take_bit_eq_mod)
  have n: "packet__read_uint16 w = (Inr (word_of_nat (length x)), advanced 2 w)"
    "unread (in_packet (advanced 2 w)) (x @ rest)"
    using uint16_field.reads [OF TrueI w, of "word_of_nat (length x)" "x @ rest"] r
      unread_advanced [of w "enc16 (word_of_nat (length x))" "x @ rest"] by (simp_all add: enc_string_def)
  then obtain past where p: "payload (in_packet (advanced 2 w)) = Some (past @ x @ rest)"
      "pos (in_packet (advanced 2 w)) = length past"
      "remaining_length (in_packet (advanced 2 w)) = length (past @ x @ rest)"
      "remaining_length (in_packet (advanced 2 w)) < 2 ^ 32"
    unfolding unread_def by auto
  define v where "v = advanced 2 w"
  have "calm v" using w by (simp add: v_def)
  then have "packet__read_string w = (Inr x, advanced (length x) v)"
    using n(1) p [folded v_def] u
    by (simp add: packet__read_string_def bindE_def asks_def ensure_def in_payload_def pure_res_def modify_def
        ok_def in_pos_def v_def [symmetric] advanced_def [of "length x"])
  then show "packet__read_string w = (Inr x, advanced (length (enc_string x)) w)" by (simp add: v_def)
qed

end
