(* ===== verification/PacketProps.thy ===== *)
theory PacketProps
  imports PacketLink
begin

text \<open>
  The properties of the packet layer: delivery over an SMP session, the writer's stream, the
  remaining length, and what a wrong inner length does.
\<close>

section \<open>Runs of both ends\<close>

fun queue_all ::
    "('e, 'v) cbor_api \<Rightarrow> ('k, 'p) tom_api \<Rightarrow> smp_role \<Rightarrow> mosquitto__packet list \<Rightarrow>
     (('p, 'z) connection_scheme, mosq_err, unit) comp" where
  "queue_all C T role [] = ok ()"
| "queue_all C T role (p # ps) = bindE (packet__queue C T role p) (\<lambda>_. queue_all C T role ps)"

text \<open>\<open>carries role p x\<close>: the packet \<open>p\<close> is the MQTT packet \<open>x\<close>, of a type that \<open>role\<close> may receive.\<close>

definition carries :: "smp_role \<Rightarrow> mosquitto__packet \<Rightarrow> byte \<times> bytes \<Rightarrow> bool" where
  "carries role p x \<longleftrightarrow> payload p = Some (mqtt_packet (fst x) (snd x)) \<and>
     packet_length p = length (mqtt_packet (fst x) (snd x)) \<and> command p = fst x \<and>
     length (mqtt_packet (fst x) (snd x)) + 105 < 2 ^ 28 \<and> drop_bit 4 (fst x) \<in> set (control_types role)"

text \<open>
  A handler that returns, and leaves the connection open and the session as it is (it may send).
\<close>

definition polite :: "(('p, 'z) connection_scheme, mosq_err, unit) comp \<Rightarrow> bool" where
  "polite handle \<longleftrightarrow> (\<forall>w. \<exists>w'. handle w = (Inr (), w') \<and> sock_open w' = sock_open w \<and>
     conn_state w' = conn_state w \<and> smpSession w' = smpSession w \<and> c_rx w' = c_rx w \<and>
     (\<forall>r key. established w r key \<longrightarrow>
        (\<exists>r'. established w' r' key \<and> lastReceivedMessageId r' = lastReceivedMessageId r)))"

text \<open>
  The reader's side of a run: after some reads that only wait, a read presents the first packet to
  the handler, and so on; behind the last packet the rest of the stream is left.
\<close>

fun delivers ::
    "('e, 'v) cbor_api \<Rightarrow> ('k, 'p) tom_api \<Rightarrow> smp_role \<Rightarrow> (('p, 'z) connection_scheme, mosq_err, unit) comp \<Rightarrow>
     ('p, 'z) connection_scheme \<Rightarrow> (byte \<times> bytes) list \<Rightarrow> bytes \<Rightarrow> bool" where
  "delivers C T role handle w [] rest \<longleftrightarrow> rx_stream (c_rx w) = rest"
| "delivers C T role handle w (x # xs) rest \<longleftrightarrow>
     (\<exists>k v u. k \<le> length (c_rx w) \<and> packet_reads C T role handle k w = (Inr (), v) \<and>
        packet__read C T role handle v = handle_packet_then_reset handle u \<and>
        presents (in_packet u) (fst x) (snd x) \<and>
        delivers C T role handle (snd (handle_packet_then_reset handle u)) xs rest)"

lemma control_not_disconnect:
  assumes "drop_bit 4 cmd \<in> set (control_types role)"
  shows "cmd AND 0xF0 \<noteq> DISCONNECT"
proof
  assume a: "cmd AND 0xF0 = DISCONNECT"
  have "drop_bit 4 (cmd AND 0xF0) = drop_bit 4 cmd AND (0xF :: byte)"
    by (simp add: drop_bit_and)
  moreover have "drop_bit 4 DISCONNECT = 14" by (simp add: DISCONNECT_def)
  moreover have "drop_bit 4 cmd = drop_bit 4 cmd AND (0xF :: byte)"
  proof -
    have m: "(0xF :: byte) = mask 4" by (simp add: mask_eq_exp_minus_1)
    show ?thesis
      unfolding m by (rule bit_word_eqI) (auto simp: bit_drop_bit_eq bit_and_iff bit_mask_iff dest: bit_imp_le_length)
  qed
  ultimately have "drop_bit 4 cmd = (14 :: byte)" using a by simp
  with control_types_sendable [OF assms] show False by simp
qed

lemma handled_receiver:
  fixes u :: "('p, 'z) connection_scheme"
  assumes "polite handle" and "established u r key" and "sock_open u" and "smpSession u = Session"
    and "conn_state u \<noteq> mosq_cs_connect_pending" and "conn_state u \<noteq> mosq_cs_new"
  obtains w' r' where "handle_packet_then_reset handle u = (Inr (), w')" and "receiver w' r' key"
    and "lastReceivedMessageId r' = lastReceivedMessageId r" and "c_rx w' = c_rx u"
proof -
  obtain v r' where v: "handle u = (Inr (), v)" "sock_open v = sock_open u" "conn_state v = conn_state u"
      "smpSession v = smpSession u" "c_rx v = c_rx u" "established v r' key"
      "lastReceivedMessageId r' = lastReceivedMessageId r"
    using assms(1,2) unfolding polite_def by metis
  let ?w = "(upd_in packet__cleanup v)\<lparr>last_msg_in := c_now v\<rparr>"
  have "handle_packet_then_reset handle u = (Inr (), ?w)"
    by (simp add: handle_packet_then_reset_def v(1))
  moreover have "receiver ?w r' key"
    using v(2-6) assms(3-6) idle_cleanup [of "in_packet v"]
    by (simp add: receiver_def quiet_def upd_in_def established_def calm_def holds_key_def)
      (simp add: packet__cleanup_def)
  ultimately show thesis using that v(5,7) by (simp add: upd_in_def)
qed

lemma arrive_in_order:
  fixes ws wr :: "('p, 'z) connection_scheme"
  assumes laws: "cbor_law C" "tom_law T" and pol: "polite handle"
  shows "sender (smp_peer role) ws s key \<Longrightarrow> list_all2 (carries role) ps xs \<Longrightarrow>
    unat (toBeSentMessageId s) + length ps < 2 ^ 32 \<Longrightarrow>
    \<exists>ws' stream. queue_all C T (smp_peer role) ps ws = (Inr (), ws') \<and>
      c_wire ws' @ pending ws' = c_wire ws @ pending ws @ stream \<and>
      (\<forall>wr r rest. receiver wr r key \<longrightarrow> lastReceivedMessageId r \<le> toBeSentMessageId s \<longrightarrow>
         rx_ok (c_rx wr) \<longrightarrow> rx_stream (c_rx wr) = stream @ rest \<longrightarrow> delivers C T role handle (wr :: ('p, 'z) connection_scheme) xs rest)"
proof (induction ps arbitrary: ws s xs)
  case Nil
  then show ?case by (intro exI [of _ ws] exI [of _ "[]"]) (simp add: ok_def)
next
  case (Cons p ps)
  then obtain x xs' where xs: "xs = x # xs'" "carries role p x" "list_all2 (carries role) ps xs'"
    by (auto simp: list_all2_Cons1)
  let ?cmd = "fst x" and ?body = "snd x"
  let ?pkt = "mqtt_packet ?cmd ?body"
  have p: "payload p = Some ?pkt" "packet_length p = length ?pkt" "?pkt \<noteq> []" "length ?pkt + 105 < 2 ^ 28"
      "drop_bit 4 (hd ?pkt) \<in> set (control_types role)" "command p AND 0xF0 \<noteq> DISCONNECT"
    using xs(2) control_not_disconnect by (auto simp: carries_def mqtt_packet_def)
  have ok: "session_ok s" using Cons.prems(1) by (simp add: sender_def established_def)
  let ?s = "s\<lparr>toBeSentMessageId := toBeSentMessageId s + 1\<rparr>"
  obtain msg w1 where q: "packet__queue C T (smp_peer role) p ws = (Inr (), w1)"
      "sender (smp_peer role) w1 ?s key" "secures C T (smp_peer role) key s (drop_bit 4 (hd ?pkt)) ?pkt msg"
      "c_wire w1 @ pending w1 = c_wire ws @ pending ws @ frame msg"
    by (rule queue_sends [OF laws Cons.prems(1) refl p(1-5) p(6)])
  have nowrap: "unat (toBeSentMessageId s + 1) = unat (toBeSentMessageId s) + 1"
    using Cons.prems(3) by (simp add: unat_word_ariths)
  have "unat (toBeSentMessageId ?s) + length ps < 2 ^ 32" using Cons.prems(3) nowrap by simp
  from Cons.IH [OF q(2) xs(3) this] obtain ws' stream where r:
    "queue_all C T (smp_peer role) ps w1 = (Inr (), ws')"
    "c_wire ws' @ pending ws' = c_wire w1 @ pending w1 @ stream"
    "\<And>(wr :: ('p, 'z) connection_scheme) r rest. receiver wr r key \<Longrightarrow> lastReceivedMessageId r \<le> toBeSentMessageId ?s \<Longrightarrow>
       rx_ok (c_rx wr) \<Longrightarrow> rx_stream (c_rx wr) = stream @ rest \<Longrightarrow> delivers C T role handle wr xs' rest"
    by blast
  have "delivers C T role handle wr xs rest"
    if wr: "receiver wr r key" "lastReceivedMessageId r \<le> toBeSentMessageId s" "rx_ok (c_rx wr)"
      "rx_stream (c_rx wr) = (frame msg @ stream) @ rest" for wr :: "('p, 'z) connection_scheme" and r rest
  proof -
    have st: "rx_stream (c_rx wr) = frame msg @ stream @ rest" using wr(4) by simp
    obtain k v u where d: "k \<le> length (c_rx wr)" "\<forall>handle. packet_reads C T role handle k wr = (Inr (), v)"
      "\<forall>handle. packet__read C T role handle v = handle_packet_then_reset handle u"
      "presents (in_packet u) ?cmd ?body" "rx_ok (c_rx u)" "rx_stream (c_rx u) = stream @ rest"
      "established u (r\<lparr>lastReceivedMessageId := toBeSentMessageId s\<rparr>) key"
      "sock_open u" "conn_state u = conn_state wr" "smpSession u = Session"
      by (rule receive_frame [OF laws(2) wr(1,3) st ok p(5) wr(2) q(3) p(4)])
    have st: "conn_state u \<noteq> mosq_cs_connect_pending" "conn_state u \<noteq> mosq_cs_new"
      using wr(1) d(9) by (simp_all add: receiver_def quiet_def)
    obtain w2 r2 where h: "handle_packet_then_reset handle u = (Inr (), w2)" "receiver w2 r2 key"
        "lastReceivedMessageId r2 = toBeSentMessageId s" "c_rx w2 = c_rx u"
      using handled_receiver [OF pol d(7,8,10) st] by auto
    have "lastReceivedMessageId r2 \<le> toBeSentMessageId ?s"
      using h(3) nowrap by (simp add: word_le_nat_alt)
    from r(3) [OF h(2) this] have "delivers C T role handle w2 xs' rest" using h(4) d(5,6) by simp
    then have "delivers C T role handle (snd (handle_packet_then_reset handle u)) xs' rest" using h(1) by simp
    then show ?thesis using d(1-4) unfolding xs(1) delivers.simps by blast
  qed
  moreover have "queue_all C T (smp_peer role) (p # ps) ws = (Inr (), ws')"
    using q(1) r(1) by (simp add: bindE_def)
  moreover have "c_wire ws' @ pending ws' = c_wire ws @ pending ws @ frame msg @ stream"
    using r(2) q(4) by simp
  ultimately show ?case by (intro exI [of _ ws'] exI [of _ "frame msg @ stream"]) blast
qed

section \<open>Sample connections\<close>

definition sample_link :: "byte \<Rightarrow> bytes \<Rightarrow> nat connection" where
  "sample_link x certificate = smp_world.extend (sample_established x certificate)
     (connection.fields Session True mosq_cs_connected False NO_ERROR [] [] [] 0 0 0 0 0
        (packet__cleanup fresh_packet) None [] False False [])"

definition sample_packet :: "byte \<Rightarrow> bytes \<Rightarrow> mosquitto__packet" where
  "sample_packet cmd body = fresh_packet\<lparr>command := cmd, payload := Some (mqtt_packet cmd body),
     packet_length := length (mqtt_packet cmd body)\<rparr>"

lemma sample_link_sender: "sender role ((sample_link x c)\<lparr>c_tx := []\<rparr>) sample_session (replicate 32 9)"
  using sample_is_established [of x c]
  by (simp add: sender_def sample_link_def smp_world.defs connection.defs queue_ok_def stays_open_def tx_ok_def
      established_def calm_def holds_key_def)

lemma sample_link_receiver: "receiver ((sample_link x c)\<lparr>c_rx := es\<rparr>) sample_session (replicate 32 9)"
  using sample_is_established [of x c]
  by (simp add: receiver_def quiet_def sample_link_def smp_world.defs connection.defs
      established_def calm_def holds_key_def idle_cleanup) (simp add: packet__cleanup_def)

lemma polite_ok: "polite (ok ())"
  by (auto simp: polite_def ok_def)

section \<open>Properties\<close>

text \<open>C25: Packets arrive, complete and in order: when one side queues any packets over an
  established session, queueing succeeds, the bytes it then has written or still has to write grow
  by one stream, and the other side - however the network cuts that stream, and with waits
  anywhere - presents exactly these packets, in order, to its handler, and leaves what follows.\<close>

theorem packets_arrive_in_order:
  fixes ws wr :: "('p, 'z) connection_scheme"
  assumes "cbor_law C" and "tom_law T" and "polite handle"
    and "sender (smp_peer role) ws s key" and "list_all2 (carries role) ps xs"
    and "unat (toBeSentMessageId s) + length ps < 2 ^ 32"
    and "receiver wr r key" and "lastReceivedMessageId r \<le> toBeSentMessageId s"
  shows "\<exists>ws' stream. queue_all C T (smp_peer role) ps ws = (Inr (), ws') \<and>
    c_wire ws' @ pending ws' = c_wire ws @ pending ws @ stream \<and>
    (\<forall>es rest. rx_ok es \<longrightarrow> rx_stream es = stream @ rest \<longrightarrow> delivers C T role handle (wr\<lparr>c_rx := es\<rparr>) xs rest)"
proof -
  have "receiver (wr\<lparr>c_rx := es\<rparr>) r key" for es
    using assms(7) by (simp add: receiver_def quiet_def established_def calm_def holds_key_def)
  moreover have "c_rx (wr\<lparr>c_rx := es\<rparr>) = es" for es by simp
  ultimately show ?thesis
    using arrive_in_order [OF assms(1-6)] assms(8) by metis
qed

theorem packets_arrive_in_order_witness:
  "\<exists>ws' stream. queue_all rfc7049 sample_tom (smp_peer SMP_MQTTS_BROKER) [sample_packet 0x30 [0, 1, 97, 5], sample_packet 0xC0 []]
      ((sample_link 7 [1])\<lparr>c_tx := []\<rparr>) = (Inr (), ws') \<and>
    c_wire ws' @ pending ws' =
      c_wire ((sample_link 7 [1])\<lparr>c_tx := []\<rparr>) @ pending ((sample_link 7 [1])\<lparr>c_tx := []\<rparr>) @ stream \<and>
    (\<forall>es rest. rx_ok es \<longrightarrow> rx_stream es = stream @ rest \<longrightarrow>
       delivers rfc7049 sample_tom SMP_MQTTS_BROKER (ok ()) ((sample_link 9 [2])\<lparr>c_rx := [], c_rx := es\<rparr>)
         [(0x30, [0, 1, 97, 5]), (0xC0, [])] rest)"
proof (rule packets_arrive_in_order [OF cbor_law_rfc7049 tom_law_sample polite_ok sample_link_sender _ _
      sample_link_receiver])
  show "list_all2 (carries SMP_MQTTS_BROKER) [sample_packet 0x30 [0, 1, 97, 5], sample_packet 0xC0 []]
      [(0x30, [0, 1, 97, 5]), (0xC0, [])]"
    by (simp add: carries_def sample_packet_def mqtt_packet_def remaining_bytes_last control_types_def allowed_types_def)
qed (simp_all add: sample_session_facts)

text \<open>C26: The writer keeps the stream: whatever the socket does - partial writes, refusals, errors,
  the close after a DISCONNECT - \<open>packet__write\<close> stays inside its buffers, and the bytes written
  followed by the bytes still queued are the same before and after; the session, the storage and
  the reading side are untouched.\<close>

theorem writing_keeps_the_stream:
  assumes "packet__write role w = (r, w')" and "queue_ok w"
  shows "r \<noteq> Inl Fault \<and> queue_ok w' \<and> c_wire w' @ pending w' = c_wire w @ pending w \<and> same_link w w'"
  using packet_write_writes [OF assms(1)] assms(2) by (simp add: writes_def)

definition sample_writer :: "tx_event list \<Rightarrow> nat connection" where
  "sample_writer es = (sample_link 7 [1])\<lparr>c_tx := es,
     out_packet := [(sample_packet 0xE0 [])\<lparr>to_process := 2\<rparr>, (sample_packet 0x40 [1, 2])\<lparr>to_process := 4\<rparr>]\<rparr>"

lemma sample_writer_ok: "queue_ok (sample_writer es)"
  by (simp add: sample_writer_def queue_ok_def packet_ok_def sample_packet_def fresh_packet_def mqtt_packet_def
      remaining_bytes_last sample_link_def smp_world.defs connection.defs)

theorem writing_keeps_the_stream_witness:
  "\<exists>r w'. packet__write SMP_MQTTS_CLIENT (sample_writer [Accept 1, Tx_error EAGAIN]) = (r, w') \<and>
    r \<noteq> Inl Fault \<and> queue_ok w' \<and>
    c_wire w' @ pending w' = c_wire (sample_writer [Accept 1, Tx_error EAGAIN]) @ pending (sample_writer [Accept 1, Tx_error EAGAIN]) \<and>
    same_link (sample_writer [Accept 1, Tx_error EAGAIN]) w'"
proof -
  obtain r w' where "packet__write SMP_MQTTS_CLIENT (sample_writer [Accept 1, Tx_error EAGAIN]) = (r, w')" by force
  with writing_keeps_the_stream [OF this sample_writer_ok] show ?thesis by blast
qed

text \<open>C27: Writing gets on: over a socket that only takes some bytes or asks to wait, and with no
  DISCONNECT in a client's queue, \<open>packet__write\<close> succeeds, keeps the socket open, and either
  everything is written or the socket was the one that asked to wait.\<close>

theorem writing_gets_on:
  assumes "tx_ok w" and "queue_ok w" and "stays_open role w" and "conn_state w \<noteq> mosq_cs_connect_pending"
  shows "\<exists>w'. packet__write role w = (Inr (), w') \<and> sock_open w' \<and>
    (current_out_packet w' = None \<and> out_packet w' = [] \<or> c_errno w' = EAGAIN)"
  using packet_write_live [OF assms] by (auto simp: stays_open_def drained_def)

theorem writing_gets_on_witness:
  "\<exists>w'. packet__write SMP_MQTTS_BROKER (sample_writer [Accept 1, Accept 9, Accept 3, Accept 1]) = (Inr (), w') \<and>
    sock_open w' \<and> (current_out_packet w' = None \<and> out_packet w' = [] \<or> c_errno w' = EAGAIN)"
  by (rule writing_gets_on [OF _ sample_writer_ok])
    (simp_all add: tx_ok_def stays_open_def sample_writer_def sample_link_def smp_world.defs connection.defs)

text \<open>C28: The remaining length round-trips, in four bytes: \<open>packet__alloc\<close> (with memory at hand)
  refuses exactly the lengths from 2^28 on; below, it gives a packet with the command and the encoded
  length in front and room for the rest behind, and the loop of \<open>packet__read\<close> over these bytes,
  whatever follows them, gives the same length and stops in front of what follows.\<close>

theorem remaining_length_round_trip:
  assumes "calm w" and "remaining_length p < 2 ^ 32" and "idle p0"
  shows "if remaining_length p < 2 ^ 28
    then \<exists>q m. packet__alloc p w = (Inr q, w) \<and> payload q = Some m \<and> length m = packet_length q \<and>
      packet_length q = pos q + remaining_length p \<and> command q = command p \<and>
      (\<forall>rest. \<exists>p1. mqtt_length_loop (take (pos q) m @ rest) 1 p0 = (Inr (pos q), p1) \<and>
         remaining_length p1 = remaining_length p \<and> hd (take (pos q) m @ rest) = command p)
    else packet__alloc p w = (Inl (Code MOSQ_ERR_PAYLOAD_SIZE), w)"
proof (cases "remaining_length p < 2 ^ 28")
  case False
  have "length (remaining_bytes 0 (remaining_length p)) \<le> 5"
    using length_remaining_bytes_le [of 0 "remaining_length p"] by simp
  moreover have "\<not> length (remaining_bytes 0 (remaining_length p)) \<le> 4"
    using length_remaining_bytes [of 0 "remaining_length p"] False by simp
  ultimately have "length (remaining_bytes 0 (remaining_length p)) = 5" by linarith
  then show ?thesis using False by (simp add: packet__alloc_def Let_def comp_defs)
next
  case True
  define rb where "rb = remaining_bytes 0 (remaining_length p)"
  have fit: "length rb \<le> 4" unfolding rb_def by (rule frame_fits [OF True])
  define total where "total = remaining_length p + 1 + length rb"
  have total: "u32 (Suc (remaining_length p + length rb)) = total" "Suc (length rb) \<le> total"
    using True fit by (simp_all add: total_def)
  define m where "m = (command p # rb) @ drop (Suc (length rb)) (replicate total (w_junk w))"
  define q where "q = p\<lparr>payload := Some m, remaining_count := int (length rb), packet_length := total,
      pos := 1 + length rb, smp_payload := Null, mqttPacket := None, smp_remaining_mult := 1,
      smp_remaining_length := 0, smp_to_process := 0, smp_pos := 0, smp_remaining_count := 0\<rparr>"
  have "packet__alloc p w = (Inr q, w)"
    using assms(1) fit total
    by (simp add: packet__alloc_def rb_def [symmetric] Let_def comp_defs m_def q_def poke_def)
  moreover have "\<exists>p1. mqtt_length_loop (take (pos q) m @ rest) 1 p0 = (Inr (pos q), p1) \<and>
         remaining_length p1 = remaining_length p \<and> hd (take (pos q) m @ rest) = command p" for rest
    using mqtt_length_decodes [of p0 0 "remaining_length p" 1 "take (pos q) m @ rest" rest] assms(2,3) fit
    by (simp add: q_def m_def rb_def [symmetric] idle_def)
  moreover have "length m = total" using total(2) by (simp add: m_def)
  ultimately show ?thesis using True
    by (intro if_P [THEN iffD2]) (auto simp: q_def total_def)
qed

theorem remaining_length_round_trip_witness:
  "\<exists>q m. packet__alloc (fresh_packet\<lparr>command := 0x30, remaining_length := 321\<rparr>) (sample_link 7 [1]) = (Inr q, sample_link 7 [1]) \<and>
     payload q = Some m \<and> length m = packet_length q \<and> packet_length q = pos q + 321 \<and> command q = 0x30 \<and>
     (\<forall>rest. \<exists>p1. mqtt_length_loop (take (pos q) m @ rest) 1 (packet__cleanup fresh_packet) = (Inr (pos q), p1) \<and>
         remaining_length p1 = 321 \<and> hd (take (pos q) m @ rest) = 0x30)"
  using remaining_length_round_trip [OF _ _ idle_cleanup, of "sample_link 7 [1]"
      "fresh_packet\<lparr>command := 0x30, remaining_length := 321\<rparr>" fresh_packet] sample_is_established [of 7 "[1]"]
  by (simp add: established_def calm_def sample_link_def smp_world.defs)

text \<open>C29: The inner length is trusted: a decrypted packet whose length field announces more bytes
  than follow makes \<open>packet__read\<close> copy from behind the packet's buffer.\<close>

theorem inner_length_is_trusted:
  assumes "idle (in_packet w)" and "mqttPacket (in_packet w) = Some (cmd # remaining_bytes 0 n @ body)"
    and "calm w" and "conn_state w \<noteq> mosq_cs_new" and "length body < n" and "n < 2 ^ 28"
  shows "fst (read_mqtt role True handle w) = Inl Fault"
proof -
  let ?p = "in_packet w"
  let ?rb = "remaining_bytes 0 n"
  let ?m = "cmd # ?rb @ body"
  define q where "q = ?p\<lparr>command := cmd, remaining_count := int (length ?rb), remaining_length := n,
      remaining_mult := 128 ^ length ?rb\<rparr>"
  have m2: "\<not> length ?m < 2" by (cases ?rb) auto
  have loop: "mqtt_length_loop ?m 1 (?p\<lparr>command := cmd\<rparr>) = (Inr (1 + length ?rb), q\<lparr>remaining_count := - int (length ?rb)\<rparr>)"
    using mqtt_length_decodes [of "?p\<lparr>command := cmd\<rparr>" 0 n 1 ?m body] frame_fits [OF assms(6)] assms(1,6)
    by (simp add: q_def idle_def)
  have cmd: "read_command role ?m w = (Inr (), w\<lparr>in_packet := ?p\<lparr>command := cmd\<rparr>\<rparr>)"
    using assms(4) by (simp add: read_command_def bindE_def pure_res_def modify_def asks_def ensure_def upd_in_def)
  have len: "in_mqtt_length ?m 1 (w\<lparr>in_packet := ?p\<lparr>command := cmd\<rparr>\<rparr>) = (Inr (1 + length ?rb), w\<lparr>in_packet := q\<rparr>)"
    by (simp add: in_mqtt_length_def loop q_def del: One_nat_def)
  obtain u where copy: "copy_payload ?m (1 + length ?rb) (w\<lparr>in_packet := q\<rparr>) = (Inl Fault, u)"
    using assms(3,5) by (simp add: copy_payload_def bindE_def asks_def pure_res_def mosquitto__malloc_def
        libc_call_def calm_def slice_def q_def)
  then show ?thesis
    using m2 cmd len copy assms(1,2)
    by (simp add: read_mqtt_def bindE_def asks_def ensure_def idle_def del: One_nat_def)
qed

theorem inner_length_is_trusted_witness:
  "fst (read_mqtt SMP_MQTTS_BROKER True (ok ()) ((sample_link 9 [2])\<lparr>in_packet :=
     (packet__cleanup fresh_packet)\<lparr>mqttPacket := Some (0x30 # remaining_bytes 0 3 @ [0])\<rparr>\<rparr>)) = Inl Fault"
  by (rule inner_length_is_trusted [where n = 3 and body = "[0]"])
    (use sample_is_established [of 9 "[2]"] in \<open>simp_all add: established_def calm_def sample_link_def smp_world.defs
      connection.defs idle_def packet__cleanup_def\<close>)

end
