(* ===== verification/ClientProps.thy ===== *)
theory ClientProps
  imports ClientFacts PacketFields PacketProps "HOL-Library.Multiset"
begin

text \<open>
  The properties of the client: flow control over all its runs, the PUBLISH packet read back as it was
  sent, and the fate of messages of QoS 2.
\<close>

section \<open>Runs of a client\<close>

text \<open>
  What happens to a client: calls of the user, packets to handle, a reconnect, a new limit, and
  anything the layers below do (reading, writing, time passing), which leaves the client's own fields
  alone. A run records two kinds of events: the packets that acknowledge a message which is still
  waiting to be sent, and the limits that were set.
\<close>

datatype client_event = Early_ack | Limit_set int

inductive client_step ::
    "('e, 'v) cbor_api \<Rightarrow> ('k, 'p) tom_api \<Rightarrow> client_event list \<Rightarrow> ('p, 'z) mosquitto_scheme \<Rightarrow>
     ('p, 'z) mosquitto_scheme \<Rightarrow> bool"
  for C T where
  publish: "mosquitto_publish C T topic n mem qos retain w = (r, w') \<Longrightarrow> client_step C T [] w w'"
| subscribe: "mosquitto_subscribe C T sub qos w = (r, w') \<Longrightarrow> client_step C T [] w w'"
| unsubscribe: "mosquitto_unsubscribe C T sub w = (r, w') \<Longrightarrow> client_step C T [] w w'"
| connect: "send__connect C T keepalive clean w = (r, w') \<Longrightarrow> client_step C T [] w w'"
| packet: "handle__packet C T w = (r, w') \<Longrightarrow> client_step C T (if early_ack w then [Early_ack] else []) w w'"
| limit: "mosquitto_max_inflight_messages_set n w = (r, w') \<Longrightarrow> client_step C T [Limit_set n] w w'"
| reconnect: "client_step C T [] w (message__reconnect_reset w)"
| below: "same_more w w' \<Longrightarrow> client_step C T [] w w'"

inductive client_run ::
    "('e, 'v) cbor_api \<Rightarrow> ('k, 'p) tom_api \<Rightarrow> ('p, 'z) mosquitto_scheme \<Rightarrow> client_event list \<Rightarrow>
     ('p, 'z) mosquitto_scheme \<Rightarrow> bool"
  for C T w where
  start: "client_run C T w [] w"
| step: "client_run C T w es v \<Longrightarrow> client_step C T e v u \<Longrightarrow> client_run C T w (es @ e) u"

lemma step_flow: "client_step C T e w w' \<Longrightarrow> e = [] \<Longrightarrow> flow_ok w \<Longrightarrow> flow_ok w'"
proof (induction rule: client_step.induct)
  case (packet w r w')
  then show ?case using flow_packet by (metis list.distinct(1))
qed (auto intro: flow_reset fl.keeps_publish [THEN keepsD] fl.keeps_requests(1) [THEN keepsD]
    fl.keeps_requests(2) [THEN keepsD] fl.keeps_requests(3) [THEN keepsD] simp: flow_more)

lemma run_flow: "client_run C T w es w' \<Longrightarrow> es = [] \<Longrightarrow> flow_ok w \<Longrightarrow> flow_ok w'"
  by (induction rule: client_run.induct) (auto intro: step_flow)

text \<open>The limits of a run are at most the bound.\<close>

definition limits_within :: "int option \<Rightarrow> client_event list \<Rightarrow> bool" where
  "limits_within L es \<longleftrightarrow> (\<forall>n l. Limit_set n \<in> set es \<longrightarrow> L = Some l \<longrightarrow> 0 < n \<and> n \<le> l)"

lemma step_slack:
  "client_step C T e w w' \<Longrightarrow> limits_within L e \<Longrightarrow> slack L k w \<Longrightarrow> slack L (k + count_list e Early_ack) w'"
proof (induction rule: client_step.induct)
  case (packet w r w')
  then show ?case using slack_packet [of L k w C T r w'] by (simp split: if_splits)
next
  case (limit n w r w')
  then show ?case using slack_limit [OF _ limit(1)] by (simp add: limits_within_def)
qed (auto intro: slack_reset slack_more lo.keeps_publish [THEN keepsD] lo.keeps_requests(1) [THEN keepsD]
    lo.keeps_requests(2) [THEN keepsD] lo.keeps_requests(3) [THEN keepsD])

lemma run_slack:
  "client_run C T w es w' \<Longrightarrow> limits_within L es \<Longrightarrow> slack L k w \<Longrightarrow> slack L (k + count_list es Early_ack) w'"
proof (induction rule: client_run.induct)
  case (step es v e u)
  have "limits_within L es" "limits_within L e" using step.prems(1) by (auto simp: limits_within_def)
  from step_slack [OF step.hyps(2) this(2) step.IH [OF this(1) step.prems(2)]] show ?case by (simp add: add.assoc)
qed simp

lemma flow_counts:
  assumes "flow_ok w"
  shows "inflight_messages w = int (length (filter in_flight (out_messages w))) \<and>
    (max_inflight_messages w \<noteq> 0 \<longrightarrow> inflight_messages w \<le> max_inflight_messages w) \<and>
    (filter waits (out_messages w) \<noteq> [] \<longrightarrow> inflight_messages w = max_inflight_messages w) \<and>
    out_queue_len w = length (filter in_flight (out_messages w)) + length (filter waits (out_messages w))"
proof -
  obtain a b where ab: "out_messages w = a @ b" "list_all in_flight a" "list_all waits b"
      "inflight_messages w = int (length a)" "0 \<le> max_inflight_messages w"
      "max_inflight_messages w \<noteq> 0 \<longrightarrow> int (length a) \<le> max_inflight_messages w"
      "b \<noteq> [] \<longrightarrow> max_inflight_messages w = int (length a) \<and> a \<noteq> []" "out_queue_len w = length (a @ b)"
    by (rule flow_okE [OF assms])
  have x: "in_flight m \<Longrightarrow> \<not> waits m" for m by (auto simp: in_flight_def waits_def)
  have "filter in_flight a = a" "filter in_flight b = []" "filter waits a = []" "filter waits b = b"
    using ab(2,3) x by (auto simp: list_all_iff filter_id_conv filter_empty_conv)
  then show ?thesis using ab by simp
qed

lemma slack_counts:
  assumes "slack L k w"
  shows "int (length (filter in_flight (out_messages w))) \<le> inflight_messages w + int k"
    and "out_queue_len w = length (filter in_flight (out_messages w)) + length (filter waits (out_messages w))"
    and "L = Some l \<Longrightarrow> inflight_messages w \<le> l"
proof -
  have "length ms = length (filter in_flight ms) + length (filter waits ms)"
    if "list_all (\<lambda>m. m_qos m \<in> {1, 2}) ms" for ms
    using that by (induction ms) (auto simp: in_flight_def waits_def)
  then show "out_queue_len w = length (filter in_flight (out_messages w)) + length (filter waits (out_messages w))"
    using assms by (simp add: slack_def)
qed (use assms in \<open>auto simp: slack_def bounded_by_def\<close>)

text \<open>C30: Flow control, in every run of a client that starts with nothing to send - whatever the user
  calls, whatever packets arrive, the network does, and whichever allocation or send fails. The queue's
  length is counted right, and at most as many messages more are in flight than counted as there were
  early acknowledgements (of messages still waiting, which the code does not reject). When the first
  limit and all that are set later are between 1 and \<open>l\<close>, the counter stays within \<open>l\<close>, so no more than
  \<open>l\<close> messages plus one per early acknowledgement are in flight. When there was no early
  acknowledgement and the limit was not changed, the counter is exactly the number of messages in
  flight, stays within the limit, and messages wait only while the limit is reached.\<close>

theorem client_flow_control:
  assumes run: "client_run C T w es w'" and "out_messages w = []" and "inflight_messages w = 0"
    and "out_queue_len w = 0" and "0 \<le> max_inflight_messages w"
  shows "out_queue_len w' = length (filter in_flight (out_messages w')) + length (filter waits (out_messages w')) \<and>
    int (length (filter in_flight (out_messages w'))) \<le> inflight_messages w' + int (count_list es Early_ack) \<and>
    (\<forall>l. (\<forall>n. n = max_inflight_messages w \<or> Limit_set n \<in> set es \<longrightarrow> 0 < n \<and> n \<le> l) \<longrightarrow> inflight_messages w' \<le> l) \<and>
    (es = [] \<longrightarrow> inflight_messages w' = int (length (filter in_flight (out_messages w'))) \<and>
       (max_inflight_messages w' \<noteq> 0 \<longrightarrow> inflight_messages w' \<le> max_inflight_messages w') \<and>
       (filter waits (out_messages w') \<noteq> [] \<longrightarrow> inflight_messages w' = max_inflight_messages w'))"
proof -
  have l: "slack L 0 w" if "L = None \<or> (\<exists>l. L = Some l \<and> 0 < max_inflight_messages w \<and> max_inflight_messages w \<le> l)" for L
    using that assms(2-4) by (auto simp: slack_def bounded_by_def)
  have n: "slack None (count_list es Early_ack) w'"
    using run_slack [OF run _ l, of None] by (simp add: limits_within_def)
  have b: "inflight_messages w' \<le> l"
    if h: "\<forall>n. n = max_inflight_messages w \<or> Limit_set n \<in> set es \<longrightarrow> 0 < n \<and> n \<le> l" for l
  proof -
    have "limits_within (Some l) es" using h by (auto simp: limits_within_def)
    from run_slack [OF run this l] show ?thesis using h slack_counts(3) by blast
  qed
  have e: "es = [] \<Longrightarrow> flow_ok w'"
    using run_flow [OF run] assms(2-5) by (simp add: flow_ok_def)
  show ?thesis using slack_counts(1,2) [OF n] b flow_counts [OF e] by blast
qed

definition sample_client :: "nat mosquitto" where
  "sample_client = connection.extend (sample_link 9 [2])
     (mosquitto.fields mosq_p_mqtt311 (cstr ''c'') None None None 0 [] [] 0 0 0 1)"

text \<open>Two publications with the limit 1, which is then raised to 3.\<close>

theorem client_flow_control_witness:
  "\<exists>r1 w1 r2 w2 r3 w3. mosquitto_publish rfc7049 sample_tom (Some (cstr ''t'' @ [0])) 1 [4] 2 False sample_client = (r1, w1) \<and>
    mosquitto_publish rfc7049 sample_tom (Some (cstr ''t'' @ [0])) 1 [5] 1 False w1 = (r2, w2) \<and>
    mosquitto_max_inflight_messages_set 3 w2 = (r3, w3) \<and>
    inflight_messages w2 = int (length (filter in_flight (out_messages w2))) \<and>
    (filter waits (out_messages w2) \<noteq> [] \<longrightarrow> inflight_messages w2 = max_inflight_messages w2) \<and>
    inflight_messages w3 \<le> 3 \<and> length (filter in_flight (out_messages w3)) \<le> 3"
proof -
  obtain r1 w1 where p1:
      "mosquitto_publish rfc7049 sample_tom (Some (cstr ''t'' @ [0])) 1 [4] 2 False sample_client = (r1, w1)"
    by fastforce
  obtain r2 w2 where p2: "mosquitto_publish rfc7049 sample_tom (Some (cstr ''t'' @ [0])) 1 [5] 1 False w1 = (r2, w2)"
    by fastforce
  obtain r3 w3 where p3: "mosquitto_max_inflight_messages_set 3 w2 = (r3, w3)" by fastforce
  have run1: "client_run rfc7049 sample_tom sample_client [] w1"
    using client_run.step [OF client_run.start client_step.publish [OF p1]] by simp
  have run2: "client_run rfc7049 sample_tom sample_client [] w2"
    using client_run.step [OF run1 client_step.publish [OF p2]] by simp
  have run3: "client_run rfc7049 sample_tom sample_client [Limit_set 3] w3"
    using client_run.step [OF run2 client_step.limit [OF p3]] by simp
  have c: "out_messages sample_client = []" "inflight_messages sample_client = 0"
    "out_queue_len sample_client = 0" "0 \<le> max_inflight_messages sample_client" "max_inflight_messages sample_client = 1"
    by (simp_all add: sample_client_def mosquitto.defs connection.defs)
  from client_flow_control [OF run3 c(1-4)] c(5)
  have "inflight_messages w3 \<le> 3" "int (length (filter in_flight (out_messages w3))) \<le> inflight_messages w3" by auto
  then show ?thesis using p1 p2 p3 client_flow_control [OF run2 c(1-4)] by auto
qed

section \<open>A PUBLISH, sent and read\<close>

lemma alloc_written:
  assumes "calm w" and "n < 2 ^ 28"
  obtains q where "packet__alloc (fresh_packet\<lparr>command := cmd, remaining_length := n, p_mid := mid\<rparr>) w = (Inr q, w)"
    and "written (cmd # remaining_bytes 0 n) q []" and "packet_length q = length (cmd # remaining_bytes 0 n) + n"
    and "command q = cmd"
proof -
  let ?h = "cmd # remaining_bytes 0 n"
  have l: "length (remaining_bytes 0 n) \<le> 4" by (rule frame_fits [OF assms(2)])
  have u: "u32 (Suc (n + length (remaining_bytes 0 n))) = length ?h + n" using assms(2) l by simp
  define q where "q = fresh_packet\<lparr>command := cmd, remaining_length := n, p_mid := mid,
      payload := Some (?h @ replicate n (w_junk w)), remaining_count := int (length (remaining_bytes 0 n)),
      packet_length := length ?h + n, pos := 1 + length (remaining_bytes 0 n), smp_payload := Null,
      mqttPacket := None, smp_remaining_mult := 1, smp_remaining_length := 0, smp_to_process := 0, smp_pos := 0,
      smp_remaining_count := 0\<rparr>"
  have "packet__alloc (fresh_packet\<lparr>command := cmd, remaining_length := n, p_mid := mid\<rparr>) w = (Inr q, w)"
    using assms(1) l u
    by (simp add: packet__alloc_def Let_def bindE_def ensure_def pure_res_def ok_def q_def fresh_packet_def poke_def)
  moreover have "written ?h q []"
    using assms(2) l unfolding written_def by (intro exI [of _ "replicate n (w_junk w)"]) (simp add: q_def)
  ultimately show thesis by (rule that) (simp_all add: q_def)
qed

text \<open>An acknowledgement goes out over an established session.\<close>

lemma ack_sends:
  fixes w :: "('p, 'z) connection_scheme"
  assumes laws: "cbor_law C" "tom_law T" and w: "sender (smp_peer rcv) w s key"
    and ty: "drop_bit 4 cmd \<in> set (control_types rcv)"
  shows "\<exists>w'. send__command_with_mid C T (smp_peer rcv) cmd mid False w = (Inr (), w') \<and>
    sender (smp_peer rcv) w' (s\<lparr>toBeSentMessageId := toBeSentMessageId s + 1\<rparr>) key"
proof -
  have calm: "calm w" using w by (simp add: sender_def established_def)
  obtain q where q: "packet__alloc (fresh_packet\<lparr>command := cmd, remaining_length := 2, p_mid := 0\<rparr>) w = (Inr q, w)"
      "written (cmd # remaining_bytes 0 2) q []" "packet_length q = length (cmd # remaining_bytes 0 2) + 2" "command q = cmd"
    by (rule alloc_written [where n = 2 and cmd = cmd and mid = 0, OF calm]) simp
  have rb: "remaining_bytes 0 2 = [2]" by (simp add: remaining_bytes_last)
  obtain room where r: "payload q = Some (cmd # 2 # room)" "pos q = 2" "length room = 2"
    using q(2,3) unfolding written_def rb by auto
  define p where "p = q\<lparr>payload := Some (cmd # 2 # [MOSQ_MSB mid, MOSQ_LSB mid])\<rparr>"
  have put: "put_mid mid q = (Inr (), p)"
    using r by (simp add: put_mid_def bindE_def asks_def pure_res_def modify_def poke_def p_def numeral_2_eq_2)
  have pk: "payload p = Some (cmd # 2 # [MOSQ_MSB mid, MOSQ_LSB mid])"
      "packet_length p = length (cmd # 2 # [MOSQ_MSB mid, MOSQ_LSB mid])" "command p = cmd"
    using q(3,4) rb by (simp_all add: p_def)
  obtain msg w' where "packet__queue C T (smp_peer rcv) p w = (Inr (), w')"
      "sender (smp_peer rcv) w' (s\<lparr>toBeSentMessageId := toBeSentMessageId s + 1\<rparr>) key"
    by (rule queue_sends [OF laws w refl pk(1,2)]) (use ty control_not_disconnect [OF ty] pk(3) in simp_all)
  then show ?thesis
    using calm q(1) put by (simp add: send__command_with_mid_def send_packet_def bindE_def fill_packet_def)
qed

definition publish_body :: "16 word \<Rightarrow> bytes \<Rightarrow> bytes \<Rightarrow> nat \<Rightarrow> bytes" where
  "publish_body mid topic data qos = enc_string topic @ (if 0 < qos then enc16 mid else []) @ data"

lemma publish_fields_written:
  assumes "length topic < 2 ^ 16" and w: "written h p []"
    and l: "packet_length p = length h + length (publish_body mid topic data qos)"
  shows "\<exists>q. publish_fields mid topic data qos p = (Inr (), q) \<and> refilled p q \<and>
    written h q (publish_body mid topic data qos)"
proof -
  let ?b = "enc_string topic" and ?m = "if 0 < qos then enc16 mid else []"
  have d: "\<exists>r. (if data \<noteq> [] then packet__write_bytes data else ok ()) q = (Inr (), r) \<and> refilled q r \<and>
      written h r ((?b @ ?m) @ data)"
    if "written h q (?b @ ?m)" "packet_length q = packet_length p" for q
    using write_block [OF that(1), of data] that l
    by (cases "data = []") (auto simp: ok_def publish_body_def)
  have m: "\<exists>r. bindE (if 0 < qos then packet__write_uint16 mid else ok ()) (\<lambda>_.
        if data \<noteq> [] then packet__write_bytes data else ok ()) q = (Inr (), r) \<and> refilled q r \<and>
      written h r (?b @ ?m @ data)"
    if q: "written h q ?b" "packet_length q = packet_length p" for q
  proof (cases "0 < qos")
    case True
    have "\<exists>r. bindE (packet__write_uint16 mid) (\<lambda>_. if data \<noteq> [] then packet__write_bytes data else ok ()) q
        = (Inr (), r) \<and> refilled q r \<and> written h r (?b @ enc16 mid @ data)"
    proof (rule uint16_field.write_then [OF TrueI q(1)])
      fix v assume "refilled q v" "written h v (?b @ enc16 mid)"
      then show "\<exists>r. (if data \<noteq> [] then packet__write_bytes data else ok ()) v = (Inr (), r) \<and> refilled v r \<and>
          written h r (?b @ enc16 mid @ data)"
        using d [of v] q(2) True refilled_fields [of q v] by simp
    qed (use l q(2) True in \<open>simp add: publish_body_def\<close>)
    then show ?thesis using True by simp
  next
    case False
    then show ?thesis using d [of q] q by (simp add: bindE_def ok_def)
  qed
  have "\<exists>r. publish_fields mid topic data qos p = (Inr (), r) \<and> refilled p r \<and> written h r ([] @ ?b @ ?m @ data)"
    unfolding publish_fields_def
  proof (rule string_field.write_then [OF assms(1) w])
    fix v assume "refilled p v" "written h v ([] @ ?b)"
    then show "\<exists>r. bindE (if 0 < qos then packet__write_uint16 mid else ok ()) (\<lambda>_.
        if data \<noteq> [] then packet__write_bytes data else ok ()) v = (Inr (), r) \<and> refilled v r \<and>
      written h r ([] @ ?b @ ?m @ data)"
      using m [of v] refilled_fields [of p v] by simp
  qed (use l in \<open>simp add: publish_body_def\<close>)
  then show ?thesis by (simp add: publish_body_def)
qed

lemma publish_flags:
  assumes "qos \<le> 2"
  shows "unat (drop_bit 1 (publish_command qos retain dup AND 0x06)) = qos"
    and "(publish_command qos retain dup AND 0x01 \<noteq> 0) = retain"
    and "(publish_command qos retain dup AND 0x08 \<noteq> 0) = dup"
proof -
  have q: "qos = 0 \<or> qos = 1 \<or> qos = 2" using assms by auto
  show "unat (drop_bit 1 (publish_command qos retain dup AND 0x06)) = qos"
    "(publish_command qos retain dup AND 0x01 \<noteq> 0) = retain" "(publish_command qos retain dup AND 0x08 \<noteq> 0) = dup"
    using q by (cases retain; cases dup; auto simp: publish_command_def PUBLISH_def)+
qed

lemma read_publish_body:
  fixes v :: "('p, 'z) mosquitto_scheme"
  assumes v: "calm v" "presents (in_packet v) (publish_command qos retain dup) (publish_body mid topic data qos)"
    and q: "qos \<le> 2" and t: "topic \<noteq> []" "length topic < 2 ^ 16"
    and l: "length (publish_body mid topic data qos) < 2 ^ 28"
  shows "read_publish v = (Inr \<lparr>m_mid = if 0 < qos then mid else 0, m_topic = topic, m_payload = data, m_qos = qos,
      m_retain = retain, m_timestamp = c_now v, m_state = mosq_ms_invalid, m_dup = dup\<rparr>,
      advanced (length (publish_body mid topic data qos)) v)"
proof -
  let ?m = "if 0 < qos then enc16 mid else []"
  have ne: "publish_body mid topic data qos \<noteq> []" by (simp add: publish_body_def enc_string_def enc16_def)
  have u: "unread (in_packet v) (enc_string topic @ ?m @ data)"
    using v(2) l ne unfolding unread_def by (intro exI [of _ "[]"]) (simp add: presents_def publish_body_def)
  have c: "command (in_packet v) = publish_command qos retain dup" using v(2) by (simp add: presents_def)
  let ?v1 = "advanced (length (enc_string topic)) v"
  have s: "packet__read_string v = (Inr topic, ?v1)" "unread (in_packet ?v1) (?m @ data)"
    using string_field.reads [OF t(2) v(1) u] unread_advanced [OF u] by simp_all
  let ?v2 = "advanced (length ?m) ?v1"
  have m: "(if 0 < qos then packet__read_uint16 else ok 0) ?v1 = (Inr (if 0 < qos then mid else 0), ?v2)"
    "unread (in_packet ?v2) data"
    using uint16_field.reads [OF TrueI _ , of ?v1 mid data] unread_advanced [OF s(2)] s(2) v(1)
    by (auto simp: ok_def)
  have d: "remaining_length (in_packet ?v2) - pos (in_packet ?v2) = length data" by (rule unread_length [OF m(2)])
  have r: "(if length data \<noteq> 0 then bindE (mosquitto__calloc MOSQ_ERR_NOMEM) (\<lambda>_. packet__read_bytes (length data))
      else ok []) ?v2 = (Inr data, advanced (length data) ?v2)"
    using read_block [of ?v2 data "[]"] m(2) v(1) by (auto simp: bindE_def ok_def)
  have a: "mosquitto__calloc MOSQ_ERR_NOMEM v = (Inr (), v)"
    "asks (command \<circ> in_packet) v = (Inr (publish_command qos retain dup) :: (mosq_err, byte) res, v)"
    "ok (unat (drop_bit 1 (publish_command qos retain dup AND 0x06))) v = (Inr qos :: (mosq_err, nat) res, v)"
    "ensure (length topic \<noteq> 0) (Code MOSQ_ERR_PROTOCOL) ?v1 = (Inr (), ?v1)"
    "asks (\<lambda>w. remaining_length (in_packet w) - pos (in_packet w)) ?v2 = (Inr (length data) :: (mosq_err, nat) res, ?v2)"
    "asks c_now (advanced (length data) ?v2) = (Inr (c_now v) :: (mosq_err, nat) res, advanced (length data) ?v2)"
    using v(1) c t(1) d publish_flags(1) [OF q, of retain dup]
    by (simp_all only: calm_malloc asks_def ok_def ensure_def o_apply advanced_simps length_0_conv if_True simp_thms)
  have e: "advanced (length data) ?v2 = advanced (length (publish_body mid topic data qos)) v"
    by (simp add: publish_body_def)
  show ?thesis
    unfolding read_publish_def e [symmetric]
    by (rule bindE_go, rule a(1), rule bindE_go, rule a(2), rule bindE_go, rule a(3), rule bindE_go, rule s(1),
        rule bindE_go, rule a(4), rule bindE_go, rule m(1), rule bindE_go, rule a(5), rule bindE_go, rule r,
        rule bindE_go, rule a(6)) (simp only: ok_def publish_flags(2,3) [OF q])
qed

lemma publish_type: "qos \<le> 2 \<Longrightarrow> drop_bit 4 (publish_command qos retain dup) = 3"
proof -
  assume "qos \<le> 2"
  then have "qos = 0 \<or> qos = 1 \<or> qos = 2" by auto
  then show ?thesis by (cases retain; cases dup; auto simp: publish_command_def PUBLISH_def)
qed

text \<open>C31: A PUBLISH is read back as it was sent: with memory at hand, \<open>send__real_publish\<close> queues
  one packet, which carries the MQTT packet that - once presented to the other side's handler -
  \<open>read_publish\<close> reads as the message given, with its id (0 for QoS 0), topic, payload, QoS, retain and
  DUP flags, and to its last byte.\<close>

theorem publish_packet_round_trip:
  assumes "calm w" and "qos \<le> 2" and "topic \<noteq> []" and "length topic < 2 ^ 16"
    and "length topic + length data + 200 < 2 ^ 28"
  shows "\<exists>p body. send__real_publish C T role mid topic data qos retain dup w = packet__queue C T role p w \<and>
    carries (smp_peer role) p (publish_command qos retain dup, body) \<and>
    (\<forall>v :: ('p, 'z) mosquitto_scheme. calm v \<longrightarrow> presents (in_packet v) (publish_command qos retain dup) body \<longrightarrow>
       (\<exists>v'. read_publish v = (Inr \<lparr>m_mid = if 0 < qos then mid else 0, m_topic = topic, m_payload = data,
          m_qos = qos, m_retain = retain, m_timestamp = c_now v, m_state = mosq_ms_invalid, m_dup = dup\<rparr>, v') \<and>
          pos (in_packet v') = remaining_length (in_packet v')))"
proof -
  let ?cmd = "publish_command qos retain dup" and ?b = "publish_body mid topic data qos"
  let ?n = "publish_length topic data qos"
  have n: "?n = length ?b" "length ?b < 2 ^ 28" "length ?b + 200 < 2 ^ 28 + 4"
    using assms(5) by (auto simp: publish_length_def publish_body_def)
  obtain q where q: "packet__alloc (fresh_packet\<lparr>command := ?cmd, remaining_length := ?n, p_mid := mid\<rparr>) w = (Inr q, w)"
      "written (?cmd # remaining_bytes 0 ?n) q []" "packet_length q = length (?cmd # remaining_bytes 0 ?n) + ?n"
      "command q = ?cmd"
    by (rule alloc_written [where n = ?n and cmd = ?cmd and mid = mid, OF assms(1)]) (use n in simp_all)
  obtain p where p: "publish_fields mid topic data qos q = (Inr (), p)" "refilled q p"
      "written (?cmd # remaining_bytes 0 ?n) p ?b"
    using publish_fields_written [OF assms(4) q(2), of mid data qos] q(3) n(1) by auto
  have "send__real_publish C T role mid topic data qos retain dup w = packet__queue C T role p w"
    using assms(1) q(1) p(1) by (simp add: send__real_publish_def send_packet_def bindE_def fill_packet_def)
  moreover have "carries (smp_peer role) p (?cmd, ?b)"
  proof -
    obtain room where r: "payload p = Some ((?cmd # remaining_bytes 0 ?n) @ ?b @ room)"
        "packet_length p = length ((?cmd # remaining_bytes 0 ?n) @ ?b @ room)"
      using p(3) unfolding written_def by blast
    have "packet_length p = length (?cmd # remaining_bytes 0 ?n) + ?n" using refilled_fields [OF p(2)] q(3) by simp
    then have "room = []" using r(2) n(1) by simp
    moreover have "length (remaining_bytes 0 ?n) \<le> 4" using n frame_fits by simp
    moreover have "3 \<in> set (control_types (smp_peer role))"
      by (cases role) (simp_all add: control_types_def allowed_types_def)
    ultimately show ?thesis
      using r q(4) refilled_fields [OF p(2)] n publish_type [OF assms(2), of retain dup]
      by (simp add: carries_def mqtt_packet_def)
  qed
  moreover have "\<exists>v'. read_publish v = (Inr \<lparr>m_mid = if 0 < qos then mid else 0, m_topic = topic, m_payload = data,
          m_qos = qos, m_retain = retain, m_timestamp = c_now v, m_state = mosq_ms_invalid, m_dup = dup\<rparr>, v') \<and>
          pos (in_packet v') = remaining_length (in_packet v')"
    if v: "calm v" "presents (in_packet v) ?cmd ?b" for v :: "('p, 'z) mosquitto_scheme"
    using read_publish_body [OF v assms(2-4) n(2)] v(2) by (auto simp: presents_def)
  ultimately show ?thesis by blast
qed

theorem publish_packet_round_trip_witness:
  "\<exists>p body. send__real_publish rfc7049 sample_tom SMP_MQTTS_CLIENT 5 (cstr ''t'') [9] 1 True False sample_client =
      packet__queue rfc7049 sample_tom SMP_MQTTS_CLIENT p sample_client \<and>
    carries (smp_peer SMP_MQTTS_CLIENT) p (publish_command 1 True False, body) \<and>
    (\<forall>v :: nat mosquitto. calm v \<longrightarrow> presents (in_packet v) (publish_command 1 True False) body \<longrightarrow>
       (\<exists>v'. read_publish v = (Inr \<lparr>m_mid = 5, m_topic = cstr ''t'', m_payload = [9],
          m_qos = 1, m_retain = True, m_timestamp = c_now v, m_state = mosq_ms_invalid, m_dup = False\<rparr>, v') \<and>
          pos (in_packet v') = remaining_length (in_packet v')))"
proof -
  have "calm sample_client"
    using sample_is_established [of 9 "[2]"]
    by (simp add: sample_client_def sample_link_def established_def calm_def smp_world.defs connection.defs mosquitto.defs)
  from publish_packet_round_trip [OF this, where topic = "cstr ''t''" and data = "[9]" and qos = 1 and mid = 5
      and retain = True and dup = False and role = SMP_MQTTS_CLIENT and C = rfc7049 and T = sample_tom, where 'p = nat and 'z = unit]
  show ?thesis by (simp add: cstr_def)
qed

section \<open>QoS 2 on the receiving side\<close>

text \<open>
  Messages of QoS 2 are compared by what the user gets of them. \<open>handed\<close>: those given to the user;
  \<open>held\<close>: those waiting for their PUBREL; \<open>received\<close>: the one a PUBLISH packet brings.
\<close>

type_synonym content = "bytes \<times> bytes \<times> bool"

definition content :: "mosquitto_message_all \<Rightarrow> content" where
  "content m = (m_topic m, m_payload m, m_retain m)"

fun qos2_event :: "mosq_event \<Rightarrow> content list" where
  "qos2_event (On_message t d q rt) = (if q = 2 then [(t, d, rt)] else [])"
| "qos2_event _ = []"

definition handed :: "('p, 'z) connection_scheme \<Rightarrow> content list" where
  "handed w = concat (map qos2_event (delivered w))"

definition held :: "('p, 'z) mosquitto_scheme \<Rightarrow> content list" where
  "held w = map content (in_messages w)"

definition all_qos2 :: "('p, 'z) mosquitto_scheme \<Rightarrow> bool" where
  "all_qos2 w \<longleftrightarrow> list_all (\<lambda>m. m_qos m = 2) (in_messages w)"

definition received :: "('p, 'z) mosquitto_scheme \<Rightarrow> content list" where
  "received w = (if command (in_packet w) AND 0xF0 = PUBLISH
     then case fst (read_publish w) of Inl _ \<Rightarrow> [] | Inr m \<Rightarrow> if m_qos m = 2 then [content m] else []
     else [])"

text \<open>What neither brings nor hands over a message of QoS 2.\<close>

definition same_in :: "('p, 'z) mosquitto_scheme \<Rightarrow> ('p, 'z) mosquitto_scheme \<Rightarrow> bool" where
  "same_in w w' \<longleftrightarrow> in_messages w' = in_messages w \<and> handed w' = handed w"

interpretation si: state_frame same_in
  by unfold_locales (auto simp: same_in_def)

lemma more_in: "frames same_more m \<Longrightarrow> frames same_in (m :: ('p, 'z, 'a) client_comp)"
  by (fastforce simp: frames_def same_in_def more_fields handed_def)

lemma in_event: "qos2_event e = [] \<Longrightarrow> frames same_in (modify (record_event e))"
  by (auto simp: frames_def modify_def record_event_def same_in_def handed_def delivered_def)

lemma in_update:
  "(\<And>w. in_messages (f w) = in_messages w \<and> c_events (f w) = c_events w) \<Longrightarrow> frames same_in (modify f)"
  by (simp add: frames_def modify_def same_in_def handed_def delivered_def)

lemma in_release:
  fixes C :: "('e, 'v) cbor_api"
  shows "frames same_in (release_from C T i ms)"
proof (induction ms arbitrary: i)
  case Nil
  show ?case by (simp, intro si.frame_rules)
next
  case (Cons m ms)
  show ?case unfolding release_from.simps
    by (intro si.frame_rules in_update more_in [OF more_publish(1)] Cons) simp
qed

lemma in_retry:
  fixes C :: "('e, 'v) cbor_api"
  shows "frames same_in (retry_from C T i ms)"
proof (induction ms arbitrary: i)
  case Nil
  show ?case by (simp, intro si.frame_rules)
next
  case (Cons m ms)
  show ?case unfolding retry_from.simps Let_def
    by (intro si.frame_rules in_update more_in [OF more_publish(1)] more_in [OF upper_more [OF upper_sends(4)]]
        more_in [OF upper_more [OF upper_sends(5)]] Cons) simp_all
qed

lemma in_codes: "frames same_in (read_codes n)"
proof (induction n)
  case 0
  show ?case by (simp, intro si.frame_rules)
next
  case (Suc n)
  show ?case unfolding read_codes.simps by (intro si.frame_rules more_in [OF more_reads(1)] Suc)
qed

lemma in_handlers:
  "frames same_in (handle__pubackcomp C T)" "frames same_in (handle__pubrec C T)" "frames same_in (handle__connack C T)"
  "frames same_in handle__suback" "frames same_in handle__unsuback" "frames same_in (handle__pingreq C T)"
  "frames same_in handle__pingresp"
  unfolding handle__pubackcomp_def handle__pubrec_def handle__connack_def handle__suback_def handle__unsuback_def
    handle__pingreq_def handle__pingresp_def message__delete_def message__remove_def message__out_update_def
    message__retry_check_def
  by (simp_all, (intro si.frame_rules more_in more_reads more_malloc in_codes in_release in_retry in_event in_update
      upper_more upper_sends; simp)+)

lemma in_calls:
  "frames same_in (mosquitto_publish C T topic n mem qos retain)" "frames same_in (mosquitto_subscribe C T sub sqos)"
  "frames same_in (mosquitto_unsubscribe C T sub)" "frames same_in (send__connect C T keepalive clean)"
proof -
  have q: "frames same_in (message__queue m mosq_md_out)" for m
    unfolding message__queue_def by (simp, intro si.frame_rules in_update; simp)
  have d: "frames same_in draw_mid"
    unfolding draw_mid_def by (intro si.frame_rules in_update) simp
  have s: "frames same_in (packet__alloc p)" "frames same_in (fill_packet wr p)" "frames same_in (packet__queue C T role p)" for p wr role
    by (intro more_in upper_more [OF upper_alloc] upper_more [OF upper_fill] upper_more [OF upper_queue])+
  note r = si.frame_rules more_in [OF more_malloc(1)] more_in [OF more_malloc(2)] more_in [OF more_publish(1)]
    more_in [OF more_publish(2)] q d s
  show "frames same_in (mosquitto_publish C T topic n mem qos retain)"
    unfolding mosquitto_publish_def queue_and_send_def by (intro r in_update) simp
  show "frames same_in (mosquitto_subscribe C T sub sqos)" "frames same_in (mosquitto_unsubscribe C T sub)"
    "frames same_in (send__connect C T keepalive clean)"
    unfolding mosquitto_subscribe_def mosquitto_unsubscribe_def check_filter_def send__subscribe_def
      send__unsubscribe_def send__connect_def
    by ((intro r in_update; simp)+)
qed

lemma held_extract:
  assumes "extract_mid mid ms = Some (m, rest)"
  shows "mset (map content ms) = add_mset (content m) (mset (map content rest))"
    and "list_all P ms \<Longrightarrow> P m \<and> list_all P rest"
  using assms by (induction ms arbitrary: rest) (auto split: if_splits option.splits)

lemma same_in_conserves:
  "same_in w w' \<Longrightarrow> handed w' = handed w \<and> held w' = held w \<and> all_qos2 w' = all_qos2 w"
  by (simp add: same_in_def held_def all_qos2_def)

lemma handed_on_message:
  "handed (on_message m w) = handed w @ (if m_qos m = 2 then [content m] else [])"
  by (simp add: handed_def delivered_def on_message_def record_event_def content_def)

lemma publish_conserves:
  fixes w :: "('p, 'z) mosquitto_scheme"
  assumes inv: "all_qos2 w" and run: "handle__publish C T w = (r, w')" and f: "r \<noteq> Inl Fault"
    and cmd: "command (in_packet w) AND 0xF0 = PUBLISH"
  shows "all_qos2 w' \<and> mset (handed w' @ held w') = mset (handed w @ held w @ received w)"
proof -
  obtain q u where q: "read_publish w = (q, u)" by fastforce
  have rp: "frames same_in read_publish"
    unfolding read_publish_def by (intro si.frame_rules more_in [OF more_reads(2)] more_in [OF more_reads(3)]
        more_in [OF more_reads(4)] more_in [OF more_malloc(2)])
  have u: "handed u = handed w" "held u = held w" "all_qos2 u = all_qos2 w"
    using same_in_conserves [OF framesD [OF rp q]] by auto
  show ?thesis
  proof (cases q)
    case (Inl e)
    then show ?thesis using run q u inv cmd by (simp add: handle__publish_def bindE_def received_def)
  next
    case (Inr m)
    have rec: "received w = (if m_qos m = 2 then [content m] else [])" using cmd q Inr by (simp add: received_def)
    have h: "held (on_message m v) = held v" "all_qos2 (on_message m v) = all_qos2 v" for v :: "('p, 'z) mosquitto_scheme"
      by (simp_all add: held_def all_qos2_def on_message_def record_event_def)
    consider (zero) "m_qos m = 0" | (one) "m_qos m = 1" | (two) "m_qos m = 2" | (bad) "2 < m_qos m" by linarith
    then show ?thesis
    proof cases
      case zero
      then have "w' = on_message m u" using run q Inr by (simp add: handle__publish_def bindE_def modify_def)
      then show ?thesis using u inv rec zero by (simp add: handed_on_message h)
    next
      case one
      obtain s v where v: "send__puback C T SMP_MQTTS_CLIENT (m_mid m) u = (s, v)" by fastforce
      have k: "handed v = handed u" "held v = held u" "all_qos2 v = all_qos2 u"
        using same_in_conserves [OF framesD [OF more_in [OF upper_more [OF upper_sends(3)]] v]] by auto
      have "w' = on_message m v"
        using run q Inr one v f by (auto simp: handle__publish_def bindE_def and_then_def split: sum.splits stop.splits)
      then show ?thesis using u k inv rec one by (simp add: handed_on_message h)
    next
      case two
      obtain s v where v: "send__pubrec C T SMP_MQTTS_CLIENT (m_mid m) u = (s, v)" by fastforce
      have k: "handed v = handed u" "held v = held u" "all_qos2 v = all_qos2 u"
        using same_in_conserves [OF framesD [OF more_in [OF upper_more [OF upper_sends(4)]] v]] by auto
      have "w' = v\<lparr>in_queue_len := in_queue_len v + 1, in_messages := in_messages v @ [m\<lparr>m_state := mosq_ms_wait_for_pubrel\<rparr>]\<rparr>"
        using run q Inr two v f
        by (auto simp: handle__publish_def bindE_def and_then_def message__queue_def modify_def ok_def
            split: sum.splits stop.splits)
      then show ?thesis
        using u k inv rec two by (simp add: handed_def delivered_def held_def all_qos2_def content_def)
    next
      case bad
      then have "w' = u" using run q Inr by (simp add: handle__publish_def bindE_def fail_def)
      then show ?thesis using u inv rec bad by simp
    qed
  qed
qed

lemma pubrel_conserves:
  fixes w :: "('p, 'z) mosquitto_scheme"
  assumes inv: "all_qos2 w" and run: "handle__pubrel C T w = (r, w')"
  shows "all_qos2 w' \<and> mset (handed w' @ held w') = mset (handed w @ held w)"
proof (cases "c_protocol w = mosq_p_mqtt311 \<and> command (in_packet w) AND 0x0F \<noteq> 0x02")
  case True
  then have "w' = w" using run by (auto simp: handle__pubrel_def bindE_def asks_def ensure_def)
  then show ?thesis using inv by simp
next
  case False
  obtain q :: "(mosq_err, 16 word) res" and u where q: "packet__read_uint16 w = (q, u)" by fastforce
  have u: "handed u = handed w" "held u = held w" "all_qos2 u = all_qos2 w"
    using same_in_conserves [OF framesD [OF more_in [OF more_reads(2)] q]] by auto
  show ?thesis
  proof (cases q)
    case (Inl e)
    then have "w' = u" using run q False by (auto simp: handle__pubrel_def bindE_def asks_def ensure_def)
    then show ?thesis using u inv by simp
  next
    case (Inr mid)
    define v where "v = (case extract_mid mid (in_messages u) of None \<Rightarrow> u
      | Some (m, rest) \<Rightarrow> on_message m (u\<lparr>in_messages := rest, in_queue_len := in_queue_len u - 1\<rparr>))"
    obtain s where s: "send__pubcomp C T SMP_MQTTS_CLIENT mid v = (s, w')"
      using run q Inr False
      by (cases "extract_mid mid (in_messages u)")
        (auto simp: handle__pubrel_def bindE_def asks_def ensure_def message__remove_def ignore_def fail_def modify_def
          ok_def v_def)
    have k: "handed w' = handed v" "held w' = held v" "all_qos2 w' = all_qos2 v"
      using same_in_conserves [OF framesD [OF more_in [OF upper_more [OF upper_sends(6)]] s]] by auto
    show ?thesis
    proof (cases "extract_mid mid (in_messages u)")
      case None
      then show ?thesis using k u inv by (simp add: v_def)
    next
      case (Some y)
      obtain m rest where y: "y = (m, rest)" by fastforce
      have e: "mset (map content (in_messages u)) = add_mset (content m) (mset (map content rest))"
        "m_qos m = 2 \<and> list_all (\<lambda>m. m_qos m = 2) rest"
        using held_extract [OF Some [unfolded y]] u(3) inv by (auto simp: all_qos2_def)
      define x where "x = u\<lparr>in_messages := rest, in_queue_len := in_queue_len u - 1\<rparr>"
      have x: "handed x = handed u" "in_messages x = rest" by (simp_all add: x_def handed_def delivered_def)
      have vx: "v = on_message m x" using Some y by (simp add: v_def x_def)
      have "in_messages v = in_messages x" by (simp add: vx on_message_def record_event_def)
      then have v: "handed v = handed u @ [content m]" "in_messages v = rest"
        using e(2) x by (simp_all add: vx handed_on_message)
      have "mset (held u) = add_mset (content m) (mset (map content rest))" by (simp only: held_def e(1))
      then have "mset (held w) = add_mset (content m) (mset (map content rest))" by (simp only: u(2))
      then show ?thesis using k u v e(2) by (simp add: held_def all_qos2_def)
    qed
  qed
qed

lemma handler_conserves:
  assumes inv: "all_qos2 w" and run: "handle__packet C T w = (r, w')" and f: "r \<noteq> Inl Fault"
  shows "all_qos2 w' \<and> mset (handed w' @ held w') = mset (handed w @ held w @ received w)"
proof -
  consider (publish) "command (in_packet w) AND 0xF0 = PUBLISH" "handle__publish C T w = (r, w')"
    | (pubrel) "command (in_packet w) AND 0xF0 \<noteq> PUBLISH" "handle__pubrel C T w = (r, w')"
    | (rest) "command (in_packet w) AND 0xF0 \<noteq> PUBLISH" "same_in w w'"
  proof -
    let ?c = "command (in_packet w) AND 0xF0"
    have ne: "PUBLISH \<noteq> PINGREQ" "PUBLISH \<noteq> PINGRESP" "PUBLISH \<noteq> PUBACK" "PUBLISH \<noteq> PUBCOMP" by (simp_all add: command_defs)
    show thesis
    proof (cases "?c = PUBLISH")
      case True
      then have "handle__publish C T w = (r, w')" using run ne by (simp add: handle__packet_def bindE_def asks_def)
      then show thesis using True publish by blast
    next
      case False
      then have d: "handle__pingreq C T w = (r, w') \<or> handle__pingresp w = (r, w') \<or> handle__pubackcomp C T w = (r, w') \<or>
          handle__pubrec C T w = (r, w') \<or> handle__pubrel C T w = (r, w') \<or> handle__connack C T w = (r, w') \<or>
          handle__suback w = (r, w') \<or> handle__unsuback w = (r, w') \<or> w' = w"
        using run by (simp add: handle__packet_def bindE_def asks_def fail_def split: if_splits)
      show thesis
        by (insert d, (elim disjE; (rule pubrel [OF False], assumption | rule rest [OF False], erule framesD [rotated], rule in_handlers
            | rule rest [OF False], simp add: si.R_refl)))
    qed
  qed
  then show ?thesis
  proof cases
    case publish
    then show ?thesis using publish_conserves [OF inv publish(2) f] by simp
  next
    case pubrel
    then show ?thesis using pubrel_conserves [OF inv pubrel(2)] by (simp add: received_def)
  next
    case rest
    then show ?thesis using same_in_conserves [OF rest(2)] inv by (simp add: received_def)
  qed
qed

lemma reset_in_qos2:
  "list_all (\<lambda>m. m_qos m = 2) ms \<Longrightarrow>
   map content (fst (reset_in b ms)) = map content ms \<and> list_all (\<lambda>m. m_qos m = 2) (fst (reset_in b ms))"
proof (induction ms arbitrary: b)
  case (Cons m ms)
  obtain rest n where r: "reset_in True ms = (rest, n)" by fastforce
  then show ?case using Cons.IH [of True] Cons.prems by (simp add: content_def)
qed simp

lemma reset_conserves:
  assumes "all_qos2 w"
  shows "all_qos2 (message__reconnect_reset w)" "held (message__reconnect_reset w) = held w"
    "handed (message__reconnect_reset w) = handed w"
proof -
  obtain ins k where i: "reset_in False (in_messages w) = (ins, k)" by fastforce
  obtain outs n where o: "reset_out (max_inflight_messages w) 0 (out_messages w) = (outs, n)" by fastforce
  show "all_qos2 (message__reconnect_reset w)" "held (message__reconnect_reset w) = held w"
    "handed (message__reconnect_reset w) = handed w"
    using reset_in_qos2 [of "in_messages w" False] assms i o
    by (simp_all add: message__reconnect_reset_def all_qos2_def held_def handed_def delivered_def)
qed

text \<open>A run of the client that collects the QoS 2 messages that came in.\<close>

inductive inbox_run ::
    "('e, 'v) cbor_api \<Rightarrow> ('k, 'p) tom_api \<Rightarrow> ('p, 'z) mosquitto_scheme \<Rightarrow> content list \<Rightarrow> ('p, 'z) mosquitto_scheme \<Rightarrow> bool"
  for C T w where
  empty: "inbox_run C T w [] w"
| handles: "inbox_run C T w ms v \<Longrightarrow> handle__packet C T v = (r, u) \<Longrightarrow> r \<noteq> Inl Fault \<Longrightarrow>
    inbox_run C T w (ms @ received v) u"
| publishes: "inbox_run C T w ms v \<Longrightarrow> mosquitto_publish C T topic n mem qos retain v = (r, u) \<Longrightarrow> inbox_run C T w ms u"
| subscribes: "inbox_run C T w ms v \<Longrightarrow> mosquitto_subscribe C T sub sqos v = (r, u) \<Longrightarrow> inbox_run C T w ms u"
| unsubscribes: "inbox_run C T w ms v \<Longrightarrow> mosquitto_unsubscribe C T sub v = (r, u) \<Longrightarrow> inbox_run C T w ms u"
| connects: "inbox_run C T w ms v \<Longrightarrow> send__connect C T keepalive clean v = (r, u) \<Longrightarrow> inbox_run C T w ms u"
| reconnects: "inbox_run C T w ms v \<Longrightarrow> inbox_run C T w ms (message__reconnect_reset v)"
| goes_on: "inbox_run C T w ms v \<Longrightarrow> same_more v u \<Longrightarrow> inbox_run C T w ms u"

lemma inbox_conserves:
  "inbox_run C T w ms w' \<Longrightarrow> all_qos2 w \<Longrightarrow>
   all_qos2 w' \<and> mset (handed w' @ held w') = mset (handed w @ held w @ ms)"
proof (induction rule: inbox_run.induct)
  case (handles ms v r u)
  then show ?case using handler_conserves by fastforce
next
  case (reconnects ms v)
  then show ?case using reset_conserves by fastforce
next
  case (goes_on ms v u)
  have "same_in v u" using more_fields [OF goes_on.hyps(2)] by (simp add: same_in_def handed_def)
  then show ?case using same_in_conserves goes_on by metis
next
  case (publishes ms v topic n mem qos retain r u)
  then show ?case using same_in_conserves [OF framesD [OF in_calls(1)]] by metis
next
  case (subscribes ms v sub sqos r u)
  then show ?case using same_in_conserves [OF framesD [OF in_calls(2)]] by metis
next
  case (unsubscribes ms v sub r u)
  then show ?case using same_in_conserves [OF framesD [OF in_calls(3)]] by metis
next
  case (connects ms v keepalive clean r u)
  then show ?case using same_in_conserves [OF framesD [OF in_calls(4)]] by metis
qed simp

text \<open>C32: No message of QoS 2 is lost, made up or handed over before its PUBREL: over every run of a
  client - with failing sends and allocations, any packets from the broker, calls of the user and
  reconnects - what the user has been given and what waits for a PUBREL are together exactly what
  arrived. A PUBLISH that arrives twice counts twice: the code does not look for a message id it
  already holds.\<close>

theorem qos2_messages_are_conserved:
  assumes "inbox_run C T w ms w'" and "in_messages w = []"
  shows "mset (handed w') + mset (held w') = mset (handed w) + mset ms"
  using inbox_conserves [OF assms(1)] assms(2) by (simp add: all_qos2_def held_def)

theorem qos2_messages_are_conserved_witness:
  "\<exists>w'. handle__packet rfc7049 sample_tom (sample_client\<lparr>in_packet := fresh_packet\<lparr>command := 0x34,
      remaining_length := 6, payload := Some [0, 1, 97, 0, 7, 42]\<rparr>\<rparr>) = (Inr (), w') \<and>
    mset (handed w') + mset (held w') = {# (cstr ''a'', [42], False) #}"
proof -
  let ?w = "sample_client\<lparr>in_packet := fresh_packet\<lparr>command := 0x34, remaining_length := 6,
      payload := Some [0, 1, 97, 0, 7, 42]\<rparr>\<rparr>"
  have e: "in_messages ?w = []" "handed ?w = []"
    by (simp_all add: sample_client_def sample_link_def mosquitto.defs smp_world.defs connection.defs handed_def delivered_def)
  have calm: "calm ?w"
    using sample_is_established [of 9 "[2]"]
    by (simp add: sample_client_def sample_link_def established_def calm_def smp_world.defs connection.defs mosquitto.defs)
  have p: "presents (in_packet ?w) (publish_command 2 False False) (publish_body 7 (cstr ''a'') [42] 2)"
    by (simp add: presents_def publish_command_def PUBLISH_def publish_body_def enc_string_def enc16_def cstr_def
        MOSQ_MSB_def MOSQ_LSB_def fresh_packet_def)
  obtain m u where m: "read_publish ?w = (Inr m, u)" "m_qos m = 2" "content m = (cstr ''a'', [42], False)" "m_mid m = 7"
      "u = advanced (length (publish_body 7 (cstr ''a'') [42] 2)) ?w"
    using read_publish_body [OF calm p] by (simp add: content_def cstr_def publish_body_def)
  have rec: "received ?w = [(cstr ''a'', [42], False)]" using m by (simp add: received_def PUBLISH_def)
  have "sender (smp_peer SMP_MQTTS_BROKER) u sample_session (replicate 32 9)"
    using sample_is_established [of 9 "[2]"]
    by (simp add: m(5) advanced_def sample_client_def sender_def sample_link_def smp_world.defs connection.defs
        mosquitto.defs queue_ok_def stays_open_def tx_ok_def established_def calm_def holds_key_def)
  from ack_sends [OF cbor_law_rfc7049 tom_law_sample this, of PUBREC 7]
  obtain v where v: "send__pubrec rfc7049 sample_tom SMP_MQTTS_CLIENT 7 u = (Inr (), v)"
    by (auto simp: send__pubrec_def PUBREC_def control_types_def allowed_types_def)
  obtain w' where w': "handle__packet rfc7049 sample_tom ?w = (Inr (), w')"
    using m(1,2,4) v by (simp add: handle__packet_def handle__publish_def bindE_def asks_def command_defs and_then_def)
  have "inbox_run rfc7049 sample_tom ?w ([] @ received ?w) w'"
    by (rule inbox_run.handles [OF inbox_run.empty w']) simp
  from qos2_messages_are_conserved [OF this e(1)] show ?thesis using e(2) rec w' by simp
qed

end
