(* ===== verification/Broker.thy ===== *)
theory Broker
  imports Client
begin

text \<open>
  The state of the broker (\<open>src/mosquitto_broker_internal.h\<close>): its clients, the stored messages, the
  subscription tree and the configuration.

  A client is a \<open>struct mosquitto\<close> in the broker's build, addressed by its number in \<open>contexts\<close>. Each
  has its own connection; files, random generator and the outcomes of library calls are the broker's,
  so a routine of the connection runs on the client with the broker's world put in (\<open>run_on\<close>). Stored
  messages are addressed in a heap: a freed one is no longer in it, and using it is a fault. The doubly
  linked list of stored messages is a list of addresses.

  The queues of a client are lists, with the pointer to the last entry (\<open>last_inflight_msg\<close>,
  \<open>last_queued_msg\<close>) at the end of the list, or NULL when it is empty. Where the code leaves the pointer
  behind - at an entry that was freed, or that went to another client - the client is marked
  (\<open>lost_inflight\<close>, \<open>lost_queued\<close>) until the code sets the pointer again; appending an entry through such
  a pointer is a fault.
\<close>

section \<open>Access control data\<close>

record acl =
  acl_topic :: bytes
  acl_access :: nat
  acl_ucount :: nat
  acl_ccount :: nat

record acl_user =
  au_username :: "bytes option"
  au_acl :: "acl list"

text \<open>An authentication plugin: not part of the broker, but called by it.\<close>

record auth_plugin =
  deny_special_chars :: bool
  plugin_version :: nat
  unpwd_check_plugin :: "bytes option \<Rightarrow> bytes \<Rightarrow> bytes option \<Rightarrow> mosq_err option"
  acl_check_plugin :: "nat \<Rightarrow> bytes option \<Rightarrow> bytes option \<Rightarrow> bytes \<Rightarrow> bytes \<Rightarrow> nat \<Rightarrow> bool \<Rightarrow> mosq_err option"

record security_options =
  sec_acl_list :: "acl_user list"
  sec_acl_patterns :: "acl list"
  sec_plugins :: "auth_plugin list"
  allow_anonymous :: bool
  allow_zero_length_clientid :: bool
  auto_id_prefix :: "bytes option"

record unpwd =
  up_username :: bytes
  up_password :: "bytes option"

record listener =
  mount_point :: "bytes option"
  use_username_as_clientid :: bool
  l_security :: security_options
  l_unpwd :: "unpwd list"

section \<open>Messages and clients\<close>

record msg_store =
  s_db_id :: nat
  s_source_id :: bytes
  s_dest_ids :: "bytes option list"
  s_ref_count :: int
  s_topic :: "bytes option"
  s_payload :: bytes
  s_source_mid :: "16 word"
  s_qos :: nat
  s_retain :: bool

record client_msg =
  cm_store :: nat
  cm_timestamp :: nat
  cm_mid :: "16 word"
  cm_qos :: nat
  cm_retain :: bool
  cm_direction :: msg_direction
  cm_state :: msg_state
  cm_dup :: bool

datatype start_type = bst_automatic | bst_lazy | bst_manual | bst_once

datatype bridge_direction = bd_out | bd_in | bd_both

record bridge_topic =
  bt_qos :: nat
  bt_direction :: bridge_direction
  bt_local_prefix :: "bytes option"
  bt_remote_prefix :: "bytes option"
  bt_local_topic :: "bytes option"
  bt_remote_topic :: "bytes option"

record bridge =
  br_topics :: "bridge_topic list"
  br_topic_remapping :: bool
  br_remote_clientid :: "bytes option"
  br_notification_topic :: "bytes option"
  br_notifications :: bool
  br_notifications_local_only :: bool
  br_attempt_unsubscribe :: bool
  br_start_type :: start_type
  br_threshold :: int
  br_lazy_reconnect :: bool

record 'p client_context = "'p connection" +
  k_protocol :: protocol
  k_id :: "bytes option"
  k_username :: "bytes option"
  k_password :: "bytes option"
  k_will :: "mosquitto_message option"
  k_clean_session :: bool
  k_last_mid :: "16 word"
  is_dropping :: bool
  k_bridge :: "bridge option"
  inflight_msgs :: "client_msg list"
  queued_msgs :: "client_msg list"
  msg_bytes :: "64 word"
  msg_bytes12 :: "64 word"
  msg_count :: int
  msg_count12 :: int
  k_acl_list :: "acl_user option"
  k_listener :: "listener option"
  k_subs :: "bytes list option list"
  lost_inflight :: bool
  lost_queued :: bool

text \<open>May an entry be linked behind the last one of the messages in flight, or of the waiting ones?\<close>

definition linked :: "bool \<Rightarrow> 'p client_context \<Rightarrow> bool" where
  "linked in_flight k \<longleftrightarrow> \<not> (if in_flight then lost_inflight k else lost_queued k)"

section \<open>The broker\<close>

text \<open>
  A node of the subscription tree with its children in the order of the hash table, which is the order
  they were added in; and the subscriptions at a node, in the order of the list.
\<close>

record subleaf =
  l_context :: nat
  l_qos :: nat

datatype subhier = Subhier (sh_topic: bytes) (sh_children: "subhier list") (sh_subs: "subleaf list")
  (sh_retained: "nat option")

record 'p broker = "'p world" +
  contexts :: "'p client_context list"
  hier :: "subhier list"
  heap :: "nat \<Rightarrow> msg_store option"
  next_addr :: nat
  msg_store_list :: "nat list"
  b_unpwd :: "unpwd list"
  disused :: "nat list"
  msg_store_count :: int
  msg_store_bytes :: "64 word"
  last_db_id :: nat
  subscription_count :: int
  retained_count :: int
  persistence_changes :: int
  msgs_dropped :: nat
  b_now :: nat
  max_inflight :: int
  max_inflight_bytes :: "64 word"
  max_queued :: int
  max_queued_bytes :: "64 word"
  allow_duplicate_messages :: bool
  queue_qos0_messages :: bool
  upgrade_outgoing_qos :: bool
  message_size_limit :: nat
  per_listener_settings :: bool
  clientid_prefixes :: "bytes option"
  security :: security_options

type_synonym ('p, 'a) broker_comp = "('p broker, mosq_err, 'a) comp"

text \<open>Reading and changing a client.\<close>

definition client_at :: "nat \<Rightarrow> ('p, 'p client_context) broker_comp" where
  "client_at c = bindE (asks contexts) (\<lambda>ks. pure_res (if c < length ks then Inr (ks ! c) else Inl Fault))"

definition upd_client :: "nat \<Rightarrow> ('p client_context \<Rightarrow> 'p client_context) \<Rightarrow> 'p broker \<Rightarrow> 'p broker" where
  "upd_client c f b = b\<lparr>contexts := (contexts b)[c := f (contexts b ! c)]\<rparr>"

text \<open>A routine of the connection, run on a client.\<close>

definition put_world :: "('p, 'y) world_scheme \<Rightarrow> ('p, 'z) world_scheme \<Rightarrow> ('p, 'z) world_scheme" where
  "put_world v w = w\<lparr>w_faults := w_faults v, w_junk := w_junk v, w_short := w_short v, w_files := w_files v,
     w_prng := w_prng v\<rparr>"

definition run_on :: "nat \<Rightarrow> ('p client_context, mosq_err, 'a) comp \<Rightarrow> ('p, 'a) broker_comp" where
  "run_on c m b =
     (if c < length (contexts b)
      then case m (put_world b (contexts b ! c)) of
             (r, k) \<Rightarrow> (r, (put_world k b)\<lparr>contexts := (contexts b)[c := k]\<rparr>)
      else (Inl Fault, b))"

text \<open>\<open>mosquitto__strdup\<close> with the test of its result; a length of \<open>n\<close> in a small-string union.\<close>

definition strdup :: "bytes \<Rightarrow> 'e \<Rightarrow> (('p, 'z) world_scheme, 'e, bytes) comp" where
  "strdup s e = bindE (mosquitto__malloc (length s + 1) e) (\<lambda>_. ok s)"

definition uhpa_alloc :: "nat \<Rightarrow> 'e \<Rightarrow> (('p, 'z) world_scheme, 'e, unit) comp" where
  "uhpa_alloc n e = (if 8 < n then bindE (mosquitto__malloc n e) (\<lambda>_. ok ()) else ok ())"

end
