(* ===== verification/Acl.thy ===== *)
theory Acl
  imports Broker
begin

text \<open>
  Access control: \<open>src/security_default.c\<close> (building the lists, the default check) and
  \<open>mosquitto_acl_check\<close> of \<open>src/security.c\<close>, which asks the plugins when the default check defers.
  Passwords, PSKs and the parsing of the files are left out. A string in the lists is given by its
  bytes before the NUL.
\<close>

definition MOSQ_ACL_READ :: nat where "MOSQ_ACL_READ = 1"
definition MOSQ_ACL_WRITE :: nat where "MOSQ_ACL_WRITE = 2"
definition MOSQ_ACL_SUBSCRIBE :: nat where "MOSQ_ACL_SUBSCRIBE = 4"

abbreviation PERCENT :: byte where "PERCENT \<equiv> 0x25"
abbreviation LETTER_c :: byte where "LETTER_c \<equiv> 0x63"
abbreviation LETTER_u :: byte where "LETTER_u \<equiv> 0x75"

section \<open>Building the lists\<close>

text \<open>
  The entry of a user is found, or made and put at the end. When the memory for the new rule cannot be
  had, the code frees the user's entry, also one that is in the list.
\<close>

fun add_rule :: "bytes option \<Rightarrow> acl \<Rightarrow> acl_user list \<Rightarrow> acl_user list" where
  "add_rule user r [] = [\<lparr>au_username = user, au_acl = [r]\<rparr>]"
| "add_rule user r (u # us) =
     (if au_username u = user then u\<lparr>au_acl := au_acl u @ [r]\<rparr> # us else u # add_rule user r us)"

definition add__acl ::
    "security_options \<Rightarrow> bytes option \<Rightarrow> bytes \<Rightarrow> nat \<Rightarrow>
     (('p, 'z) world_scheme, mosq_err, security_options) comp" where
  "add__acl opts user topic access =
     bindE (strdup topic MOSQ_ERR_NOMEM) (\<lambda>local_topic.
     bindE (ok (user \<in> au_username ` set (sec_acl_list opts))) (\<lambda>known.
     bindE (if known then ok () else bindE (mosquitto__malloc 24 MOSQ_ERR_NOMEM) (\<lambda>_.
       case user of None \<Rightarrow> ok () | Some u \<Rightarrow> bindE (strdup u MOSQ_ERR_NOMEM) (\<lambda>_. ok ()))) (\<lambda>_.
     bindE (on_error (\<lambda>e. if known then Dangling MOSQ_ERR_NOMEM else e) (mosquitto__malloc 32 MOSQ_ERR_NOMEM)) (\<lambda>_.
     ok (opts\<lparr>sec_acl_list := add_rule user
       \<lparr>acl_topic = local_topic, acl_access = access, acl_ucount = 0, acl_ccount = 0\<rparr> (sec_acl_list opts)\<rparr>)))))"

text \<open>\<open>strstr\<close> in a loop that goes on behind each hit.\<close>

fun count_pattern :: "byte \<Rightarrow> bytes \<Rightarrow> nat" where
  "count_pattern x [] = 0"
| "count_pattern x [a] = 0"
| "count_pattern x (a # b # s) = (if a = PERCENT \<and> b = x then Suc (count_pattern x s) else count_pattern x (b # s))"

definition add__acl_pattern ::
    "security_options \<Rightarrow> bytes \<Rightarrow> nat \<Rightarrow> (('p, 'z) world_scheme, mosq_err, security_options) comp" where
  "add__acl_pattern opts topic access =
     bindE (strdup topic MOSQ_ERR_NOMEM) (\<lambda>local_topic.
     bindE (mosquitto__malloc 32 MOSQ_ERR_NOMEM) (\<lambda>_.
     ok (opts\<lparr>sec_acl_patterns := sec_acl_patterns opts @
       [\<lparr>acl_topic = local_topic, acl_access = access, acl_ucount = count_pattern LETTER_u local_topic,
         acl_ccount = count_pattern LETTER_c local_topic\<rparr>]\<rparr>)))"

section \<open>The default check\<close>

text \<open>The result flag of the matching routine is false when it reports an error.\<close>

definition acl_matches :: "bytes \<Rightarrow> bytes \<Rightarrow> (mosq_err, bool) res" where
  "acl_matches pattern topic =
     (case mosquitto_topic_matches_sub (Some (pattern @ [0])) (Some (topic @ [0])) of
        Inr b \<Rightarrow> Inr b | Inl Fault \<Rightarrow> Inl Fault | Inl _ \<Rightarrow> Inr False)"

text \<open>The rules of the user, in order; \<open>True\<close> when one grants the access.\<close>

fun check_rules :: "bytes \<Rightarrow> nat \<Rightarrow> acl list \<Rightarrow> (mosq_err, bool) res" where
  "check_rules topic access [] = Inr False"
| "check_rules topic access (r # rs) =
     bindR (peek (topic @ [0]) 0) (\<lambda>t.
     bindR (peek (acl_topic r @ [0]) 0) (\<lambda>a.
     if t = DOLLAR \<and> a \<noteq> DOLLAR then check_rules topic access rs
     else bindR (acl_matches (acl_topic r) topic) (\<lambda>result.
       if result \<and> access AND acl_access r \<noteq> 0 then Inr True else check_rules topic access rs)))"

text \<open>
  The pattern with client id and user name put in, written to \<open>len + 1\<close> bytes: \<open>%u\<close> is left alone when
  there is no user name.
\<close>

fun expand :: "bytes \<Rightarrow> bytes option \<Rightarrow> bytes \<Rightarrow> bytes" where
  "expand cid user [] = []"
| "expand cid user [a] = [a]"
| "expand cid user (a # b # s) =
     (if a = PERCENT \<and> b = LETTER_c then cid @ expand cid user s
      else if a = PERCENT \<and> b = LETTER_u \<and> user \<noteq> None then the user @ expand cid user s
      else a # expand cid user (b # s))"

definition pattern_length :: "bytes \<Rightarrow> bytes option \<Rightarrow> acl \<Rightarrow> int" where
  "pattern_length cid user r =
     int (length (acl_topic r)) + int (acl_ccount r) * (int (length cid) - 2) +
     (case user of None \<Rightarrow> 0 | Some u \<Rightarrow> int (acl_ucount r) * (int (length u) - 2))"

fun check_patterns ::
    "bytes \<Rightarrow> bytes option \<Rightarrow> bytes \<Rightarrow> nat \<Rightarrow> acl list \<Rightarrow> (('p, 'z) world_scheme, mosq_err, unit) comp" where
  "check_patterns cid user topic access [] = fail (Code MOSQ_ERR_ACL_DENIED)"
| "check_patterns cid user topic access (r # rs) =
     (if acl_ucount r \<noteq> 0 \<and> user = None then check_patterns cid user topic access rs
      else bindE (mosquitto__malloc (nat (pattern_length cid user r) + 1) MOSQ_ERR_NOMEM) (\<lambda>_.
           bindE (ensure (int (length (expand cid user (acl_topic r))) = pattern_length cid user r) Fault) (\<lambda>_.
           bindE (pure_res (acl_matches (expand cid user (acl_topic r)) topic)) (\<lambda>result.
           if result \<and> access AND acl_access r \<noteq> 0 then ok () else check_patterns cid user topic access rs))))"

definition dangerous :: "bytes option \<Rightarrow> bool" where
  "dangerous s \<longleftrightarrow> (case s of None \<Rightarrow> False | Some s \<Rightarrow> PLUS \<in> set s \<or> HASH \<in> set s)"

definition mosquitto_acl_check_default :: "nat \<Rightarrow> bytes \<Rightarrow> nat \<Rightarrow> ('p, unit) broker_comp" where
  "mosquitto_acl_check_default c topic access =
     bindE (client_at c) (\<lambda>k.
     if k_bridge k \<noteq> None then ok ()
     else bindE (asks per_listener_settings) (\<lambda>per_listener.
     bindE (ensure (\<not> (per_listener \<and> k_listener k = None)) (Code MOSQ_ERR_ACL_DENIED)) (\<lambda>_.
     bindE (asks (\<lambda>b. if per_listener then l_security (the (k_listener k)) else security b)) (\<lambda>opts.
     bindE (ensure (sec_acl_list opts \<noteq> [] \<or> sec_acl_patterns opts \<noteq> []) (Code MOSQ_ERR_PLUGIN_DEFER)) (\<lambda>_.
     if access = MOSQ_ACL_SUBSCRIBE then ok ()
     else bindE (ensure (k_acl_list k \<noteq> None \<or> sec_acl_patterns opts \<noteq> []) (Code MOSQ_ERR_ACL_DENIED)) (\<lambda>_.
     bindE (pure_res (check_rules topic access (case k_acl_list k of None \<Rightarrow> [] | Some u \<Rightarrow> au_acl u))) (\<lambda>granted.
     if granted then ok ()
     else bindE (ensure (\<not> (sec_acl_patterns opts \<noteq> [] \<and> (dangerous (k_username k) \<or> dangerous (k_id k))))
            (Code MOSQ_ERR_ACL_DENIED)) (\<lambda>_.
     bindE (ensure (k_id k \<noteq> None) (Code MOSQ_ERR_ACL_DENIED)) (\<lambda>_.
     check_patterns (the (k_id k)) (k_username k) topic access (sec_acl_patterns opts))))))))))"

section \<open>The check with plugins (src/security.c)\<close>

definition acl__check_single ::
    "auth_plugin \<Rightarrow> 'p client_context \<Rightarrow> bytes \<Rightarrow> bytes \<Rightarrow> nat \<Rightarrow> bool \<Rightarrow> nat \<Rightarrow> mosq_err option" where
  "acl__check_single p k topic data qos retain access =
     (if deny_special_chars p \<and> (dangerous (k_username k) \<or> dangerous (k_id k)) then Some MOSQ_ERR_ACL_DENIED
      else if plugin_version p = 3 then acl_check_plugin p access (k_id k) (k_username k) topic data qos retain
      else if plugin_version p = 2
      then if access = MOSQ_ACL_SUBSCRIBE then None
           else acl_check_plugin p access (k_id k) (k_username k) topic data qos retain
      else Some MOSQ_ERR_INVAL)"

fun ask_plugins ::
    "auth_plugin list \<Rightarrow> 'p client_context \<Rightarrow> bytes \<Rightarrow> bytes \<Rightarrow> nat \<Rightarrow> bool \<Rightarrow> nat \<Rightarrow> mosq_err option \<Rightarrow> mosq_err option" where
  "ask_plugins [] k topic data qos retain access rc = rc"
| "ask_plugins (p # ps) k topic data qos retain access rc =
     (let rc = acl__check_single p k topic data qos retain access
      in if rc \<noteq> Some MOSQ_ERR_PLUGIN_DEFER then rc else ask_plugins ps k topic data qos retain access rc)"

definition mosquitto_acl_check ::
    "nat \<Rightarrow> bytes \<Rightarrow> bytes \<Rightarrow> nat \<Rightarrow> bool \<Rightarrow> nat \<Rightarrow> ('p, unit) broker_comp" where
  "mosquitto_acl_check c topic data qos retain access =
     bindE (client_at c) (\<lambda>k.
     bindE (ensure (k_id k \<noteq> None) (Code MOSQ_ERR_ACL_DENIED)) (\<lambda>_.
     rescue (mosquitto_acl_check_default c topic access) (\<lambda>e.
       if e \<noteq> Code MOSQ_ERR_PLUGIN_DEFER then fail e
       else bindE (asks per_listener_settings) (\<lambda>per_listener.
            bindE (asks (\<lambda>b. if per_listener then l_security (the (k_listener k)) else security b)) (\<lambda>opts.
            case ask_plugins (sec_plugins opts) k topic data qos retain access None of
              None \<Rightarrow> ok ()
            | Some MOSQ_ERR_PLUGIN_DEFER \<Rightarrow> fail (Code MOSQ_ERR_ACL_DENIED)
            | Some e \<Rightarrow> fail (Code e))))))"

end
