(* ===== verification/Database.thy ===== *)
theory Database
  imports Acl
begin

text \<open>
  Stored messages and the clients' message queues: \<open>src/database.c\<close>. A stored message is shared by the
  queues and the subscription tree and counts its references; it is freed with the last one.

  The result \<open>2\<close> of \<open>db__message_insert\<close> (the message waits, or was dropped) and \<open>0\<close> are values; \<open>1\<close> is
  the error \<open>MOSQ_ERR_NOMEM\<close>, which has that number.
\<close>

section \<open>Stored messages\<close>

definition store_at :: "nat \<Rightarrow> ('p, msg_store) broker_comp" where
  "store_at a = bindE (asks heap) (\<lambda>h. pure_res (case h a of None \<Rightarrow> Inl Fault | Some s \<Rightarrow> Inr s))"

definition put_store :: "nat \<Rightarrow> msg_store \<Rightarrow> 'p broker \<Rightarrow> 'p broker" where
  "put_store a s b = b\<lparr>heap := (heap b)(a := Some s)\<rparr>"

definition payload_words :: "msg_store \<Rightarrow> 64 word" where
  "payload_words s = word_of_nat (length (s_payload s))"

definition db__msg_store_add :: "nat \<Rightarrow> 'p broker \<Rightarrow> 'p broker" where
  "db__msg_store_add a b = b\<lparr>msg_store_list := a # msg_store_list b\<rparr>"

definition db__msg_store_remove :: "nat \<Rightarrow> ('p, unit) broker_comp" where
  "db__msg_store_remove a =
     bindE (store_at a) (\<lambda>s.
     modify (\<lambda>b. b\<lparr>msg_store_list := remove1 a (msg_store_list b), msg_store_count := msg_store_count b - 1,
       msg_store_bytes := msg_store_bytes b - payload_words s, heap := (heap b)(a := None)\<rparr>))"

definition db__msg_store_ref :: "nat \<Rightarrow> ('p, unit) broker_comp" where
  "db__msg_store_ref a =
     bindE (store_at a) (\<lambda>s. modify (put_store a (s\<lparr>s_ref_count := s_ref_count s + 1\<rparr>)))"

definition db__msg_store_deref :: "nat \<Rightarrow> ('p, unit) broker_comp" where
  "db__msg_store_deref a =
     bindE (store_at a) (\<lambda>s.
     bindE (modify (put_store a (s\<lparr>s_ref_count := s_ref_count s - 1\<rparr>))) (\<lambda>_.
     if s_ref_count s - 1 = 0 then db__msg_store_remove a else ok ()))"

fun remove_stores :: "nat list \<Rightarrow> ('p, unit) broker_comp" where
  "remove_stores [] = ok ()"
| "remove_stores (a # as) = bindE (db__msg_store_remove a) (\<lambda>_. remove_stores as)"

definition db__msg_store_clean :: "('p, unit) broker_comp" where
  "db__msg_store_clean = bindE (asks msg_store_list) remove_stores"

text \<open>A new stored message; \<open>store_id\<close> is 0 except when a saved one is restored.\<close>

definition db__message_store ::
    "bytes option \<Rightarrow> 16 word \<Rightarrow> bytes option \<Rightarrow> nat \<Rightarrow> bytes \<Rightarrow> bool \<Rightarrow> nat \<Rightarrow> ('p, nat) broker_comp" where
  "db__message_store source source_mid topic qos data retain store_id =
     bindE (mosquitto__malloc 104 MOSQ_ERR_NOMEM) (\<lambda>_.
     bindE (strdup (case source of None \<Rightarrow> [] | Some s \<Rightarrow> s) MOSQ_ERR_NOMEM) (\<lambda>source_id.
     bindE (asks next_addr) (\<lambda>a.
     bindE (asks (\<lambda>b. if store_id = 0 then last_db_id b + 1 else store_id)) (\<lambda>db_id.
     bindE (modify (\<lambda>b. db__msg_store_add a (put_store a
       \<lparr>s_db_id = db_id, s_source_id = source_id, s_dest_ids = [], s_ref_count = 0, s_topic = topic,
        s_payload = data, s_source_mid = source_mid, s_qos = qos, s_retain = retain\<rparr>
       (b\<lparr>next_addr := a + 1, msg_store_count := msg_store_count b + 1,
          msg_store_bytes := msg_store_bytes b + word_of_nat (length data),
          last_db_id := (if store_id = 0 then db_id else last_db_id b)\<rparr>)))) (\<lambda>_.
     ok a)))))"

fun find_stored :: "16 word \<Rightarrow> (nat \<Rightarrow> msg_store option) \<Rightarrow> client_msg list \<Rightarrow> (mosq_err, nat option) res" where
  "find_stored mid h [] = Inr None"
| "find_stored mid h (m # ms) =
     (case h (cm_store m) of None \<Rightarrow> Inl Fault
      | Some s \<Rightarrow> if s_source_mid s = mid \<and> cm_direction m = mosq_md_in then Inr (Some (cm_store m))
                 else find_stored mid h ms)"

definition db__message_store_find :: "nat \<Rightarrow> 16 word \<Rightarrow> ('p, nat option) broker_comp" where
  "db__message_store_find c mid =
     bindE (client_at c) (\<lambda>k.
     bindE (asks heap) (\<lambda>h.
     pure_res (find_stored mid h (inflight_msgs k @ queued_msgs k))))"

section \<open>Room in the queues\<close>

definition db__ready_for_flight :: "'p broker \<Rightarrow> 'p client_context \<Rightarrow> nat \<Rightarrow> bool" where
  "db__ready_for_flight b k qos =
     (if qos = 0 \<or> (max_inflight b = 0 \<and> max_inflight_bytes b = 0) then True
      else let valid_bytes = msg_bytes12 k < max_inflight_bytes b;
               valid_count = msg_count12 k < max_inflight b
           in if max_inflight b = 0 then valid_bytes
              else if max_inflight_bytes b = 0 then valid_count
              else valid_bytes \<and> valid_count)"

text \<open>The byte counts are \<open>unsigned long\<close>: the difference wraps around.\<close>

definition db__ready_for_queue :: "'p broker \<Rightarrow> 'p client_context \<Rightarrow> nat \<Rightarrow> bool" where
  "db__ready_for_queue b k qos =
     (if max_queued b = 0 \<and> max_queued_bytes b = 0 then True
      else let adjust_bytes = (if sock_open k then max_inflight_bytes b else 0);
               adjust_count = (if sock_open k then max_inflight b else 0);
               source_bytes = (if qos = 0 then msg_bytes k else msg_bytes12 k);
               source_count = (if qos = 0 then msg_count k else msg_count12 k);
               valid_bytes = source_bytes - adjust_bytes < max_queued_bytes b;
               valid_count = source_count - adjust_count < max_queued b
           in if max_queued_bytes b = 0 then valid_count
              else if max_queued b = 0 then valid_bytes
              else valid_bytes \<and> valid_count)"

section \<open>Inserting a message\<close>

definition count_in :: "client_msg \<Rightarrow> 64 word \<Rightarrow> 'p client_context \<Rightarrow> 'p client_context" where
  "count_in m n k = k\<lparr>msg_count := msg_count k + 1, msg_bytes := msg_bytes k + n,
     msg_count12 := (if 0 < cm_qos m then msg_count12 k + 1 else msg_count12 k),
     msg_bytes12 := (if 0 < cm_qos m then msg_bytes12 k + n else msg_bytes12 k)\<rparr>"

definition count_out :: "client_msg \<Rightarrow> 64 word \<Rightarrow> 'p client_context \<Rightarrow> 'p client_context" where
  "count_out m n k = k\<lparr>msg_count := msg_count k - 1, msg_bytes := msg_bytes k - n,
     msg_count12 := (if 0 < cm_qos m then msg_count12 k - 1 else msg_count12 k),
     msg_bytes12 := (if 0 < cm_qos m then msg_bytes12 k - n else msg_bytes12 k)\<rparr>"

definition publish_state :: "nat \<Rightarrow> msg_state" where
  "publish_state qos = (if qos = 0 then mosq_ms_publish_qos0 else if qos = 1 then mosq_ms_publish_qos1
                        else if qos = 2 then mosq_ms_publish_qos2 else mosq_ms_invalid)"

definition drop_message :: "nat \<Rightarrow> 'p broker \<Rightarrow> 'p broker" where
  "drop_message c b = (upd_client c (\<lambda>k. k\<lparr>is_dropping := True\<rparr>) b)\<lparr>msgs_dropped := msgs_dropped b + 1\<rparr>"

text \<open>
  Was the message sent to this client before? The list holds a NULL where the memory for an id could not
  be had.
\<close>

fun already_sent :: "bytes \<Rightarrow> bytes option list \<Rightarrow> (mosq_err, bool) res" where
  "already_sent cid [] = Inr False"
| "already_sent cid (None # ids) = Inl Fault"
| "already_sent cid (Some i # ids) = (if i = cid then Inr True else already_sent cid ids)"

definition add_dest :: "nat \<Rightarrow> bytes option \<Rightarrow> ('p, unit) broker_comp" where
  "add_dest a i = bindE (store_at a) (\<lambda>s. modify (put_store a (s\<lparr>s_dest_ids := s_dest_ids s @ [i]\<rparr>)))"

text \<open>
  The state a new message gets and the result; \<open>None\<close>: it is dropped. An incoming message of less than
  QoS 2 is an error.
\<close>

definition place_message ::
    "'p broker \<Rightarrow> 'p client_context \<Rightarrow> msg_direction \<Rightarrow> nat \<Rightarrow> (mosq_err, (msg_state \<times> nat) option) res" where
  "place_message b k dir qos =
     (if sock_open k
      then if db__ready_for_flight b k qos
           then if dir = mosq_md_out then Inr (Some (publish_state qos, 0))
                else if qos = 2 then Inr (Some (mosq_ms_wait_for_pubrel, 0))
                else Inl (Code MOSQ_ERR_NOMEM)
           else if db__ready_for_queue b k qos then Inr (Some (mosq_ms_queued, 2))
           else Inr None
      else if db__ready_for_queue b k qos then Inr (Some (mosq_ms_queued, 0))
      else Inr None)"

definition append_message :: "client_msg \<Rightarrow> 'p client_context \<Rightarrow> 'p client_context" where
  "append_message m k =
     (if cm_state m = mosq_ms_queued then k\<lparr>queued_msgs := queued_msgs k @ [m]\<rparr>
      else k\<lparr>inflight_msgs := inflight_msgs k @ [m]\<rparr>)"

definition wake_bridge :: "'p client_context \<Rightarrow> 'p client_context" where
  "wake_bridge k = (case k_bridge k of None \<Rightarrow> k
     | Some br \<Rightarrow> if br_start_type br = bst_lazy \<and> \<not> sock_open k \<and> br_threshold br \<le> msg_count k
                 then k\<lparr>k_bridge := Some (br\<lparr>br_lazy_reconnect := True\<rparr>)\<rparr> else k)"

definition db__message_insert ::
    "nat \<Rightarrow> 16 word \<Rightarrow> msg_direction \<Rightarrow> nat \<Rightarrow> bool \<Rightarrow> nat \<Rightarrow> ('p, nat) broker_comp" where
  "db__message_insert c mid dir qos retain a =
     bindE (client_at c) (\<lambda>k.
     case k_id k of None \<Rightarrow> ok 0
     | Some cid \<Rightarrow>
     bindE (store_at a) (\<lambda>s.
     bindE (asks (\<lambda>b. \<not> allow_duplicate_messages b \<and> dir = mosq_md_out \<and> \<not> retain)) (\<lambda>once.
     bindE (pure_res (if once then already_sent cid (s_dest_ids s) else Inr False)) (\<lambda>sent.
     if sent then ok 0
     else bindE (asks (\<lambda>b. \<not> sock_open k \<and> qos = 0 \<and> \<not> queue_qos0_messages b \<and>
            (case k_bridge k of None \<Rightarrow> True | Some br \<Rightarrow> br_start_type br \<noteq> bst_lazy))) (\<lambda>offline.
     if offline then ok 2
     else bindE (asks (\<lambda>b. place_message b k dir qos)) (\<lambda>pl. bindE (pure_res pl) (\<lambda>place.
     case place of None \<Rightarrow> bindE (modify (drop_message c)) (\<lambda>_. ok 2)
     | Some (state, rc) \<Rightarrow>
     bindE (ensure (state \<noteq> mosq_ms_invalid) Fault) (\<lambda>_.
     bindE (modify (\<lambda>b. if state = mosq_ms_queued then b\<lparr>persistence_changes := persistence_changes b + 1\<rparr> else b)) (\<lambda>_.
     bindE (mosquitto__malloc 40 MOSQ_ERR_NOMEM) (\<lambda>_.
     bindE (asks b_now) (\<lambda>now.
     bindE (ok \<lparr>cm_store = a, cm_timestamp = now, cm_mid = mid, cm_qos = qos, cm_retain = retain,
        cm_direction = dir, cm_state = state, cm_dup = False\<rparr>) (\<lambda>m.
     bindE (db__msg_store_ref a) (\<lambda>_.
     bindE (ensure (linked (state \<noteq> mosq_ms_queued) k) Fault) (\<lambda>_.
     bindE (modify (upd_client c (\<lambda>k. count_in m (payload_words s) (append_message m k)))) (\<lambda>_.
     bindE (if once
            then bindE (mosquitto__malloc (8 * (length (s_dest_ids s) + 1)) MOSQ_ERR_NOMEM) (\<lambda>_.
                 bindE (rescue (strdup cid MOSQ_ERR_NOMEM) (\<lambda>e. bindE (add_dest a None) (\<lambda>_. fail e))) (\<lambda>_.
                 add_dest a (Some cid)))
            else ok ()) (\<lambda>_.
     bindE (modify (upd_client c wake_bridge)) (\<lambda>_.
     ok rc)))))))))))))))))"

section \<open>Removing and releasing messages\<close>

text \<open>The counters and the stored message when a message leaves the list it is in.\<close>

definition db__message_remove :: "nat \<Rightarrow> client_msg \<Rightarrow> ('p, unit) broker_comp" where
  "db__message_remove c m =
     bindE (store_at (cm_store m)) (\<lambda>s.
     bindE (modify (upd_client c (count_out m (payload_words s)))) (\<lambda>_.
     db__msg_store_deref (cm_store m)))"

text \<open>
  The first waiting message goes to the end of the messages in flight, in a new state. The callers see to
  it that the end is there (\<open>linked\<close>).
\<close>

definition db__message_dequeue_first :: "(client_msg \<Rightarrow> client_msg) \<Rightarrow> 'p client_context \<Rightarrow> 'p client_context" where
  "db__message_dequeue_first f k =
     k\<lparr>queued_msgs := tl (queued_msgs k), inflight_msgs := inflight_msgs k @ [f (hd (queued_msgs k))]\<rparr>"

definition to_publish :: "nat \<Rightarrow> client_msg \<Rightarrow> client_msg" where
  "to_publish now m = m\<lparr>cm_timestamp := now,
     cm_state := (if cm_qos m \<le> 2 then publish_state (cm_qos m) else cm_state m)\<rparr>"

text \<open>
  The second loop of \<open>db__message_delete\<close> and \<open>db__message_release\<close>: waiting messages move up while
  fewer than the limit are counted. An incoming message of less than QoS 2 stays where it is, and the
  loop goes round until the count is reached: with no limit it does not end. \<open>n\<close> is the number of
  rounds that can still follow.
\<close>

fun move_up ::
    "('e, 'v) cbor_api \<Rightarrow> ('j, 'p) tom_api \<Rightarrow> nat \<Rightarrow> nat \<Rightarrow> nat \<Rightarrow> ('p, bool) broker_comp" where
  "move_up C T c 0 msg_index = ok False"
| "move_up C T c (Suc n) msg_index =
     bindE (client_at c) (\<lambda>k.
     bindE (asks max_inflight) (\<lambda>max_n.
     bindE (asks b_now) (\<lambda>now.
     case queued_msgs k of [] \<Rightarrow> ok True
     | m # _ \<Rightarrow>
       if \<not> (max_n = 0 \<or> int msg_index < max_n) then ok True
       else if cm_direction m = mosq_md_out
       then bindE (ensure (linked True k) Fault) (\<lambda>_.
            bindE (modify (upd_client c (db__message_dequeue_first (to_publish now)))) (\<lambda>_.
            move_up C T c n (Suc msg_index)))
       else if cm_qos m = 2
       then bindE (ignore (run_on c (send__pubrec C T SMP_MQTTS_BROKER (cm_mid m))) :: ('p, unit) broker_comp) (\<lambda>_.
            bindE (ensure (linked True k) Fault) (\<lambda>_.
            bindE (modify (upd_client c (db__message_dequeue_first
              (\<lambda>m. m\<lparr>cm_timestamp := now, cm_state := mosq_ms_wait_for_pubrel\<rparr>)))) (\<lambda>_.
            move_up C T c n (Suc msg_index))))
       else bindE (modify (upd_client c (\<lambda>k. k\<lparr>queued_msgs := m\<lparr>cm_timestamp := now\<rparr> # tl (queued_msgs k)\<rparr>))) (\<lambda>_.
            move_up C T c n (Suc msg_index)))))"

text \<open>
  The first loop of \<open>db__message_delete\<close>: the messages kept. When the last message of the list is removed,
  the pointer to the last message is set anew.
\<close>

fun delete_loop :: "nat \<Rightarrow> 16 word \<Rightarrow> msg_direction \<Rightarrow> client_msg list \<Rightarrow> ('p, client_msg list) broker_comp" where
  "delete_loop c mid dir [] = ok []"
| "delete_loop c mid dir (m # ms) =
     (if cm_mid m = mid \<and> cm_direction m = dir
      then bindE (db__message_remove c m) (\<lambda>_. delete_loop c mid dir ms)
      else bindE (delete_loop c mid dir ms) (\<lambda>kept. ok (m # kept)))"

definition db__message_delete ::
    "('e, 'v) cbor_api \<Rightarrow> ('j, 'p) tom_api \<Rightarrow> nat \<Rightarrow> nat \<Rightarrow> 16 word \<Rightarrow> msg_direction \<Rightarrow> ('p, bool) broker_comp" where
  "db__message_delete C T fuel c mid dir =
     bindE (client_at c) (\<lambda>k.
     bindE (delete_loop c mid dir (inflight_msgs k)) (\<lambda>kept.
     bindE (modify (upd_client c (\<lambda>k. k\<lparr>inflight_msgs := kept, lost_inflight := lost_inflight k \<and>
       \<not> (inflight_msgs k \<noteq> [] \<and> cm_mid (last (inflight_msgs k)) = mid \<and> cm_direction (last (inflight_msgs k)) = dir)\<rparr>))) (\<lambda>_.
     move_up C T c fuel (length kept))))"

fun update_msg :: "16 word \<Rightarrow> msg_direction \<Rightarrow> (client_msg \<Rightarrow> client_msg) \<Rightarrow> client_msg list \<Rightarrow> client_msg list option" where
  "update_msg mid dir f [] = None"
| "update_msg mid dir f (m # ms) =
     (if cm_mid m = mid \<and> cm_direction m = dir then Some (f m # ms) else map_option ((#) m) (update_msg mid dir f ms))"

definition db__message_update :: "nat \<Rightarrow> 16 word \<Rightarrow> msg_direction \<Rightarrow> msg_state \<Rightarrow> ('p, unit) broker_comp" where
  "db__message_update c mid dir state =
     bindE (client_at c) (\<lambda>k.
     bindE (asks b_now) (\<lambda>now.
     case update_msg mid dir (\<lambda>m. m\<lparr>cm_state := state, cm_timestamp := now\<rparr>) (inflight_msgs k) of
       None \<Rightarrow> fail (Code MOSQ_ERR_NOT_FOUND)
     | Some ms \<Rightarrow> modify (upd_client c (\<lambda>k. k\<lparr>inflight_msgs := ms\<rparr>))))"

fun deref_all :: "client_msg list \<Rightarrow> ('p, unit) broker_comp" where
  "deref_all [] = ok ()"
| "deref_all (m # ms) = bindE (db__msg_store_deref (cm_store m)) (\<lambda>_. deref_all ms)"

definition db__messages_delete :: "nat \<Rightarrow> ('p, unit) broker_comp" where
  "db__messages_delete c =
     bindE (client_at c) (\<lambda>k.
     bindE (deref_all (inflight_msgs k)) (\<lambda>_.
     bindE (modify (upd_client c (\<lambda>k. k\<lparr>inflight_msgs := [], lost_inflight := False\<rparr>))) (\<lambda>_.
     bindE (deref_all (queued_msgs k)) (\<lambda>_.
     modify (upd_client c (\<lambda>k. k\<lparr>queued_msgs := [], lost_queued := False, msg_bytes := 0, msg_bytes12 := 0, msg_count := 0,
       msg_count12 := 0\<rparr>))))))"

definition db__limits_set :: "int \<Rightarrow> 64 word \<Rightarrow> int \<Rightarrow> 64 word \<Rightarrow> 'p broker \<Rightarrow> 'p broker" where
  "db__limits_set inflight inflight_bytes queued queued_bytes b =
     b\<lparr>max_inflight := inflight, max_inflight_bytes := inflight_bytes, max_queued := queued,
       max_queued_bytes := queued_bytes\<rparr>"

section \<open>After a reconnect\<close>

text \<open>
  The messages in flight are counted again. An incoming one of less than QoS 2 is removed, and the loop
  goes on behind its successor without looking at it; when the successor is the last message, the pointer
  to the last message is left at the removed one (\<open>reset_loses\<close>).
\<close>

fun reset_loses :: "client_msg list \<Rightarrow> bool" where
  "reset_loses [] = False"
| "reset_loses (m # ms) =
     (if cm_direction m = mosq_md_out \<or> cm_qos m = 2 then reset_loses ms
      else case ms of [] \<Rightarrow> False | m2 # ms2 \<Rightarrow> ms2 = [] \<or> reset_loses ms2)"

definition resent :: "client_msg \<Rightarrow> client_msg" where
  "resent m = m\<lparr>cm_state := (if cm_qos m = 2 \<and> cm_state m = mosq_ms_wait_for_pubcomp then mosq_ms_resend_pubrel
     else if cm_qos m \<le> 2 then publish_state (cm_qos m) else cm_state m)\<rparr>"

fun reset_inflight :: "nat \<Rightarrow> client_msg list \<Rightarrow> ('p, client_msg list) broker_comp" where
  "reset_inflight c [] = ok []"
| "reset_inflight c (m # ms) =
     bindE (store_at (cm_store m)) (\<lambda>s.
     bindE (modify (upd_client c (count_in m (payload_words s)))) (\<lambda>_.
     if cm_direction m = mosq_md_out
     then bindE (reset_inflight c ms) (\<lambda>kept. ok (resent m # kept))
     else if cm_qos m \<noteq> 2
     then bindE (db__message_remove c m) (\<lambda>_.
          case ms of [] \<Rightarrow> ok [] | m2 # ms2 \<Rightarrow> bindE (reset_inflight c ms2) (\<lambda>kept. ok (m2 # kept)))
     else bindE (reset_inflight c ms) (\<lambda>kept. ok (m # kept))))"

text \<open>
  The waiting messages, from position \<open>i\<close>: one for which there is room gets its new state, the first of
  the list (whichever that is) moves up, and the loop starts again at the front. The loop sets the pointer
  to the last waiting message as it goes.
\<close>

function reset_queue :: "'p broker \<Rightarrow> nat \<Rightarrow> 'p client_context \<Rightarrow> (mosq_err, 'p client_context) res" where
  "reset_queue b i k =
     (if i < length (queued_msgs k)
      then let m = queued_msgs k ! i
           in case heap b (cm_store m) of None \<Rightarrow> Inl Fault
              | Some s \<Rightarrow>
                  let k1 = count_in m (payload_words s) k
                  in if db__ready_for_flight b k1 (cm_qos m)
                     then if \<not> linked True k1 then Inl Fault else reset_queue b 0 (db__message_dequeue_first id (k1\<lparr>queued_msgs := (queued_msgs k1)
                            [i := m\<lparr>cm_state := (if cm_qos m \<le> 2 then publish_state (cm_qos m) else cm_state m)\<rparr>]\<rparr>))
                     else reset_queue b (Suc i) k1
      else Inr k)"
  by pat_completeness auto
termination
  by (relation "measures [\<lambda>(b, i, k). length (queued_msgs k), \<lambda>(b, i, k). length (queued_msgs k) - i]")
    (auto simp: count_in_def db__message_dequeue_first_def)

declare reset_queue.simps [simp del]

definition db__message_reconnect_reset :: "nat \<Rightarrow> ('p, unit) broker_comp" where
  "db__message_reconnect_reset c =
     bindE (client_at c) (\<lambda>k.
     bindE (modify (upd_client c (\<lambda>k. k\<lparr>msg_bytes := 0, msg_bytes12 := 0, msg_count := 0, msg_count12 := 0\<rparr>))) (\<lambda>_.
     bindE (reset_inflight c (inflight_msgs k)) (\<lambda>kept.
     bindE (modify (upd_client c (\<lambda>k. k\<lparr>inflight_msgs := kept, lost_inflight :=
       (if inflight_msgs k = [] then lost_inflight k else reset_loses (inflight_msgs k))\<rparr>))) (\<lambda>_.
     bindE (client_at c) (\<lambda>k.
     bindE (asks (\<lambda>b. reset_queue b 0 (if queued_msgs k = [] then k else k\<lparr>lost_queued := False\<rparr>))) (\<lambda>r.
     bindE (pure_res r) (\<lambda>k'. modify (upd_client c (\<lambda>_. k')))))))))"

section \<open>Writing the messages in flight\<close>

text \<open>
  Position \<open>i\<close> of the list has a new value, or is gone; with the last position the pointer to the last
  message is set anew.
\<close>

definition set_msg :: "nat \<Rightarrow> (client_msg \<Rightarrow> client_msg) \<Rightarrow> 'p client_context \<Rightarrow> 'p client_context" where
  "set_msg i f k = k\<lparr>inflight_msgs := (inflight_msgs k)[i := f (inflight_msgs k ! i)]\<rparr>"

definition drop_msg :: "nat \<Rightarrow> 'p client_context \<Rightarrow> 'p client_context" where
  "drop_msg i k = k\<lparr>inflight_msgs := take i (inflight_msgs k) @ drop (Suc i) (inflight_msgs k),
     lost_inflight := lost_inflight k \<and> Suc i \<noteq> length (inflight_msgs k)\<rparr>"

text \<open>The prefix \<open>old\<close> of a topic, when it has it, is taken off, and \<open>new\<close> put in front.\<close>

definition exchange_prefix ::
    "bytes option \<Rightarrow> bytes option \<Rightarrow> bytes \<Rightarrow> (('p, 'z) world_scheme, mosq_err, bytes) comp" where
  "exchange_prefix old new topic =
     bindE (case old of None \<Rightarrow> ok topic
            | Some p \<Rightarrow> if take (length p) topic = p then strdup (drop (length p) topic) MOSQ_ERR_NOMEM
                       else ok topic) (\<lambda>topic.
     case new of None \<Rightarrow> ok topic
     | Some p \<Rightarrow> bindE (mosquitto__malloc (length topic + length p + 2) MOSQ_ERR_NOMEM) (\<lambda>_. ok (p @ topic)))"

text \<open>
  \<open>send__publish\<close> in the broker: the mount point of the client's listener is taken off the topic (a
  topic that is not longer is swallowed), and the first rule of a bridge that matches renames it.
\<close>

fun map_outgoing :: "bridge_topic list \<Rightarrow> bytes \<Rightarrow> (('p, 'z) world_scheme, mosq_err, bytes) comp" where
  "map_outgoing [] topic = ok topic"
| "map_outgoing (t # ts) topic =
     (if bt_direction t \<noteq> bd_in \<and> (bt_remote_prefix t \<noteq> None \<or> bt_local_prefix t \<noteq> None)
      then bindE (pure_res (mosquitto_topic_matches_sub (map_option (\<lambda>s. s @ [0]) (bt_local_topic t)) (Some (topic @ [0])))) (\<lambda>match.
           if match
           then bindE (strdup topic MOSQ_ERR_NOMEM) (exchange_prefix (bt_local_prefix t) (bt_remote_prefix t))
           else map_outgoing ts topic)
      else map_outgoing ts topic)"

definition send__publish_broker ::
    "('e, 'v) cbor_api \<Rightarrow> ('j, 'p) tom_api \<Rightarrow> 16 word \<Rightarrow> bytes \<Rightarrow> bytes \<Rightarrow> nat \<Rightarrow> bool \<Rightarrow> bool \<Rightarrow>
     ('p client_context, mosq_err, unit) comp" where
  "send__publish_broker C T mid topic data qos retain dup =
     bindE (asks id) (\<lambda>k.
     bindE (ensure (sock_open k) (Code MOSQ_ERR_NO_CONN)) (\<lambda>_.
     case (case k_listener k of None \<Rightarrow> Some topic
           | Some l \<Rightarrow> (case mount_point l of None \<Rightarrow> Some topic
                      | Some m \<Rightarrow> if length m < length topic then Some (drop (length m) topic) else None)) of
       None \<Rightarrow> ok ()
     | Some topic \<Rightarrow>
         bindE (case k_bridge k of None \<Rightarrow> ok topic
                | Some br \<Rightarrow> if br_topic_remapping br then map_outgoing (br_topics br) topic else ok topic) (\<lambda>topic.
         send__real_publish C T SMP_MQTTS_BROKER mid topic data qos retain dup)))"

definition publish_stored ::
    "('e, 'v) cbor_api \<Rightarrow> ('j, 'p) tom_api \<Rightarrow> nat \<Rightarrow> client_msg \<Rightarrow> msg_store \<Rightarrow> ('p, unit) broker_comp" where
  "publish_stored C T c m s =
     bindE (pure_res (case s_topic s of None \<Rightarrow> Inl Fault | Some t \<Rightarrow> Inr t)) (\<lambda>topic.
     run_on c (send__publish_broker C T (cm_mid m) topic (s_payload s) (cm_qos m) (cm_retain m) (cm_dup m)))"

definition after_publish :: "nat \<Rightarrow> msg_state \<Rightarrow> client_msg \<Rightarrow> client_msg" where
  "after_publish now state m = m\<lparr>cm_timestamp := now, cm_dup := True, cm_state := state\<rparr>"

fun write_inflight ::
    "('e, 'v) cbor_api \<Rightarrow> ('j, 'p) tom_api \<Rightarrow> nat \<Rightarrow> nat \<Rightarrow> client_msg list \<Rightarrow> ('p, unit) broker_comp" where
  "write_inflight C T c i [] = ok ()"
| "write_inflight C T c i (m # ms) =
     bindE (store_at (cm_store m)) (\<lambda>s.
     bindE (asks b_now) (\<lambda>now.
     if cm_state m = mosq_ms_publish_qos0
     then bindE (publish_stored C T c m s) (\<lambda>_. bindE (db__message_remove c m) (\<lambda>_.
          bindE (modify (upd_client c (drop_msg i))) (\<lambda>_. write_inflight C T c i ms)))
     else bindE
       (if cm_state m = mosq_ms_publish_qos1
        then bindE (publish_stored C T c m s) (\<lambda>_.
             modify (upd_client c (set_msg i (after_publish now mosq_ms_wait_for_puback))))
        else if cm_state m = mosq_ms_publish_qos2
        then bindE (publish_stored C T c m s) (\<lambda>_.
             modify (upd_client c (set_msg i (after_publish now mosq_ms_wait_for_pubrec))))
        else if cm_state m = mosq_ms_send_pubrec
        then bindE (run_on c (send__pubrec C T SMP_MQTTS_BROKER (cm_mid m))) (\<lambda>_.
             modify (upd_client c (set_msg i (\<lambda>m. m\<lparr>cm_state := mosq_ms_wait_for_pubrel\<rparr>))))
        else if cm_state m = mosq_ms_resend_pubrel
        then bindE (run_on c (send__pubrel C T SMP_MQTTS_BROKER (cm_mid m))) (\<lambda>_.
             modify (upd_client c (set_msg i (\<lambda>m. m\<lparr>cm_state := mosq_ms_wait_for_pubcomp\<rparr>))))
        else if cm_state m = mosq_ms_resend_pubcomp
        then bindE (run_on c (send__pubcomp C T SMP_MQTTS_BROKER (cm_mid m))) (\<lambda>_.
             modify (upd_client c (set_msg i (\<lambda>m. m\<lparr>cm_state := mosq_ms_wait_for_pubrel\<rparr>))))
        else ok ())
       (\<lambda>_. write_inflight C T c (Suc i) ms)))"

text \<open>The second loop; as in \<open>move_up\<close>, \<open>n\<close> rounds are made at most.\<close>

fun write_queue ::
    "('e, 'v) cbor_api \<Rightarrow> ('j, 'p) tom_api \<Rightarrow> nat \<Rightarrow> nat \<Rightarrow> nat \<Rightarrow> ('p, bool) broker_comp" where
  "write_queue C T c 0 count = ok False"
| "write_queue C T c (Suc n) count =
     bindE (client_at c) (\<lambda>k.
     bindE (asks max_inflight) (\<lambda>max_n.
     case queued_msgs k of [] \<Rightarrow> ok True
     | m # _ \<Rightarrow>
       if \<not> (max_n = 0 \<or> int count < max_n) then ok True
       else if cm_direction m = mosq_md_out
       then bindE (ensure (linked True k) Fault) (\<lambda>_.
            bindE (modify (upd_client c (db__message_dequeue_first
              (\<lambda>m. m\<lparr>cm_state := (if cm_qos m \<le> 2 then publish_state (cm_qos m) else cm_state m)\<rparr>)))) (\<lambda>_.
            write_queue C T c n (Suc count)))
       else if cm_qos m = 2
       then bindE (ensure (linked True k) Fault) (\<lambda>_.
            bindE (modify (upd_client c (db__message_dequeue_first (\<lambda>m. m\<lparr>cm_state := mosq_ms_send_pubrec\<rparr>)))) (\<lambda>_.
            bindE (run_on c (send__pubrec C T SMP_MQTTS_BROKER (cm_mid m))) (\<lambda>_.
            bindE (modify (upd_client c (\<lambda>k. set_msg (length (inflight_msgs k) - 1)
              (\<lambda>m. m\<lparr>cm_state := mosq_ms_wait_for_pubrel\<rparr>) k))) (\<lambda>_.
            write_queue C T c n (Suc count)))))
       else write_queue C T c n (Suc count)))"

definition db__message_write ::
    "('e, 'v) cbor_api \<Rightarrow> ('j, 'p) tom_api \<Rightarrow> nat \<Rightarrow> nat \<Rightarrow> ('p, bool) broker_comp" where
  "db__message_write C T fuel c =
     bindE (client_at c) (\<lambda>k.
     bindE (ensure (sock_open k \<and> \<not> (conn_state k = mosq_cs_connected \<and> k_id k = None)) (Code MOSQ_ERR_INVAL)) (\<lambda>_.
     if conn_state k \<noteq> mosq_cs_connected then ok True
     else bindE (write_inflight C T c 0 (inflight_msgs k)) (\<lambda>_.
          write_queue C T c fuel (length (inflight_msgs k)))))"

end
