(* ===== verification/Subs.thy ===== *)
theory Subs
  imports Database
begin

text \<open>
  The subscription tree: \<open>src/subs.c\<close>. A topic is cut at its slashes; a topic that does not start with
  a dollar sign gets an empty first token. The tree holds a node for each path of tokens, with the
  subscriptions to exactly that filter and the message retained for exactly that topic.

  A node a client remembers (\<open>context->subs\<close>) is given by its path. The routines that walk the tree
  take a node and return it changed, together with the new state of the broker.
\<close>

section \<open>Tokens\<close>

text \<open>\<open>sub__topic_append\<close>: a token costs one allocation, and a second one when it is long.\<close>

definition sub__topic_append :: "bytes \<Rightarrow> ('p, unit) broker_comp" where
  "sub__topic_append t = bindE (mosquitto__malloc 24 MOSQ_ERR_NOMEM) (\<lambda>_. uhpa_alloc (length t + 1) MOSQ_ERR_NOMEM)"

text \<open>The loop from \<open>i\<close> on: \<open>tok\<close> are the bytes since \<open>start\<close>.\<close>

fun tokenise_from :: "bytes \<Rightarrow> bytes \<Rightarrow> ('p, bytes list) broker_comp" where
  "tokenise_from tok [] =
     bindE (if tok \<noteq> [] then uhpa_alloc (length tok + 1) MOSQ_ERR_NOMEM else ok ()) (\<lambda>_.
     bindE (sub__topic_append tok) (\<lambda>_. ok [tok]))"
| "tokenise_from tok (x # xs) =
     (if x = SLASH
      then bindE (if tok \<noteq> [] then uhpa_alloc (length tok + 1) MOSQ_ERR_NOMEM else ok ()) (\<lambda>_.
           bindE (sub__topic_append tok) (\<lambda>_.
           bindE (tokenise_from [] xs) (\<lambda>ts. ok (tok # ts))))
      else tokenise_from (tok @ [x]) xs)"

definition sub__topic_tokenise :: "bytes \<Rightarrow> ('p, bytes list) broker_comp" where
  "sub__topic_tokenise subtopic =
     (let dollar = (subtopic \<noteq> [] \<and> hd subtopic = DOLLAR); slash = (subtopic \<noteq> [] \<and> hd subtopic = SLASH)
      in bindE (if dollar then ok [] else bindE (sub__topic_append []) (\<lambda>_. ok [[]])) (\<lambda>first.
         bindE (if slash then bindE (sub__topic_append []) (\<lambda>_. ok [[]]) else ok []) (\<lambda>second.
         bindE (tokenise_from [] (if slash then tl subtopic else subtopic)) (\<lambda>rest.
         ok (first @ second @ rest)))))"

section \<open>Nodes\<close>

fun find_child :: "bytes \<Rightarrow> subhier list \<Rightarrow> subhier option" where
  "find_child t [] = None"
| "find_child t (n # ns) = (if sh_topic n = t then Some n else find_child t ns)"

fun put_child :: "subhier \<Rightarrow> subhier list \<Rightarrow> subhier list" where
  "put_child n [] = [n]"
| "put_child n (m # ms) = (if sh_topic m = sh_topic n then n # ms else m # put_child n ms)"

fun drop_child :: "bytes \<Rightarrow> subhier list \<Rightarrow> subhier list" where
  "drop_child t [] = []"
| "drop_child t (n # ns) = (if sh_topic n = t then ns else n # drop_child t ns)"

definition set_children :: "subhier list \<Rightarrow> subhier \<Rightarrow> subhier" where
  "set_children cs n = Subhier (sh_topic n) cs (sh_subs n) (sh_retained n)"

definition set_subs :: "subleaf list \<Rightarrow> subhier \<Rightarrow> subhier" where
  "set_subs ls n = Subhier (sh_topic n) (sh_children n) ls (sh_retained n)"

definition set_retained :: "nat option \<Rightarrow> subhier \<Rightarrow> subhier" where
  "set_retained r n = Subhier (sh_topic n) (sh_children n) (sh_subs n) r"

definition bare :: "subhier \<Rightarrow> bool" where
  "bare n \<longleftrightarrow> sh_children n = [] \<and> sh_subs n = [] \<and> sh_retained n = None"

text \<open>\<open>sub__add_hier_entry\<close>: the new node; the caller puts it behind its siblings.\<close>

definition sub__add_hier_entry :: "bytes \<Rightarrow> ('p, subhier) broker_comp" where
  "sub__add_hier_entry topic =
     bindE (mosquitto__malloc 128 MOSQ_ERR_NOMEM) (\<lambda>_.
     bindE (uhpa_alloc (length topic + 1) MOSQ_ERR_NOMEM) (\<lambda>_. ok (Subhier topic [] [] None)))"

section \<open>Adding a subscription\<close>

text \<open>The results 0, -1 (a second subscription of an MQTT 3.1 client) and \<open>MOSQ_ERR_NOMEM\<close>.\<close>

datatype add_result = Add_done | Add_again | Add_nomem

text \<open>The first free place among the nodes the client remembers, or a new one.\<close>

fun remember :: "bytes list \<Rightarrow> bytes list option list \<Rightarrow> bytes list option list option" where
  "remember p [] = None"
| "remember p (None # ps) = Some (Some p # ps)"
| "remember p (Some q # ps) = map_option ((#) (Some q)) (remember p ps)"

fun renew_leaf :: "(nat \<Rightarrow> bytes option) \<Rightarrow> bytes \<Rightarrow> nat \<Rightarrow> subleaf list \<Rightarrow> subleaf list option" where
  "renew_leaf ids cid qos [] = None"
| "renew_leaf ids cid qos (l # ls) =
     (if ids (l_context l) = Some cid then Some (l\<lparr>l_qos := qos\<rparr> # ls)
      else map_option ((#) l) (renew_leaf ids cid qos ls))"

definition new_leaf :: "nat \<Rightarrow> nat \<Rightarrow> bytes list \<Rightarrow> ('p, unit) broker_comp" where
  "new_leaf c qos path =
     bindE (mosquitto__malloc 32 MOSQ_ERR_NOMEM) (\<lambda>_.
     bindE (client_at c) (\<lambda>k.
     case remember path (k_subs k) of
       Some ps \<Rightarrow> modify (upd_client c (\<lambda>k. k\<lparr>k_subs := ps\<rparr>))
     | None \<Rightarrow> bindE (mosquitto__malloc (8 * (length (k_subs k) + 1)) MOSQ_ERR_NOMEM) (\<lambda>_.
               modify (upd_client c (\<lambda>k. k\<lparr>k_subs := k_subs k @ [Some path]\<rparr>)))))"

text \<open>The client ids, by number.\<close>

definition client_ids :: "'p broker \<Rightarrow> nat \<Rightarrow> bytes option" where
  "client_ids b i = (if i < length (contexts b) then k_id (contexts b ! i) else None)"

definition add_leaf :: "nat option \<Rightarrow> nat \<Rightarrow> bytes list \<Rightarrow> subhier \<Rightarrow> ('p, add_result \<times> subhier) broker_comp" where
  "add_leaf context qos path node = (case context of
     None \<Rightarrow> ok (Add_done, node)
   | Some c \<Rightarrow>
     bindE (client_at c) (\<lambda>k.
     bindE (asks client_ids) (\<lambda>ids.
     case k_id k of
       None \<Rightarrow> ok (Add_done, node)
     | Some cid \<Rightarrow>
       (case renew_leaf ids cid qos (sh_subs node) of
          Some ls \<Rightarrow> ok (if k_protocol k = mosq_p_mqtt31 then Add_again else Add_done, set_subs ls node)
        | None \<Rightarrow>
            rescue
              (bindE (new_leaf c qos path) (\<lambda>_.
               bindE (modify (\<lambda>b. b\<lparr>subscription_count := subscription_count b + 1\<rparr>)) (\<lambda>_.
               ok (Add_done, set_subs (sh_subs node @ [\<lparr>l_context = c, l_qos = qos\<rparr>]) node))))
              (\<lambda>e. if e = Fault then fail Fault else ok (Add_nomem, node))))))"

fun sub__add_recurse ::
    "nat option \<Rightarrow> nat \<Rightarrow> bytes list \<Rightarrow> subhier \<Rightarrow> bytes list \<Rightarrow> ('p, add_result \<times> subhier) broker_comp" where
  "sub__add_recurse context qos path node [] = add_leaf context qos path node"
| "sub__add_recurse context qos path node (t # ts) =
     (case find_child t (sh_children node) of
        Some branch \<Rightarrow>
          bindE (sub__add_recurse context qos (path @ [t]) branch ts) (\<lambda>(rc, branch').
          ok (rc, set_children (put_child branch' (sh_children node)) node))
      | None \<Rightarrow>
          rescue
            (bindE (sub__add_hier_entry t) (\<lambda>branch.
             bindE (sub__add_recurse context qos (path @ [t]) branch ts) (\<lambda>(rc, branch').
             ok (rc, set_children (sh_children node @ [branch']) node))))
            (\<lambda>e. if e = Fault then fail Fault else ok (Add_nomem, node)))"

text \<open>The root of the tokens must be there: the code asserts it.\<close>

definition root_of :: "bytes list \<Rightarrow> ('p, subhier) broker_comp" where
  "root_of tokens =
     bindE (asks hier) (\<lambda>roots.
     pure_res (case find_child (hd tokens) roots of None \<Rightarrow> Inl Fault | Some n \<Rightarrow> Inr n))"

definition put_root :: "subhier \<Rightarrow> 'p broker \<Rightarrow> 'p broker" where
  "put_root n b = b\<lparr>hier := put_child n (hier b)\<rparr>"

definition sub__add :: "nat \<Rightarrow> bytes \<Rightarrow> nat \<Rightarrow> ('p, unit) broker_comp" where
  "sub__add c sub qos =
     bindE (on_error (as_code MOSQ_ERR_NOMEM) (sub__topic_tokenise sub)) (\<lambda>tokens.
     bindE (root_of tokens) (\<lambda>root.
     bindE (sub__add_recurse (Some c) qos [hd tokens] root tokens) (\<lambda>(rc, root').
     bindE (modify (put_root root')) (\<lambda>_.
     if rc = Add_nomem then fail (Code MOSQ_ERR_NOMEM) else ok ()))))"

section \<open>Removing subscriptions\<close>

fun drop_leaf :: "nat \<Rightarrow> subleaf list \<Rightarrow> subleaf list option" where
  "drop_leaf c [] = None"
| "drop_leaf c (l # ls) = (if l_context l = c then Some ls else map_option ((#) l) (drop_leaf c ls))"

fun forget :: "bytes list \<Rightarrow> bytes list option list \<Rightarrow> bytes list option list" where
  "forget p [] = []"
| "forget p (q # qs) = (if q = Some p then None # qs else q # forget p qs)"

fun sub__remove_recurse :: "nat \<Rightarrow> bytes list \<Rightarrow> subhier \<Rightarrow> bytes list \<Rightarrow> 'p broker \<Rightarrow> subhier \<times> 'p broker" where
  "sub__remove_recurse c path node [] b =
     (case drop_leaf c (sh_subs node) of
        None \<Rightarrow> (node, b)
      | Some ls \<Rightarrow> (set_subs ls node, upd_client c (\<lambda>k. k\<lparr>k_subs := forget path (k_subs k)\<rparr>)
                     (b\<lparr>subscription_count := subscription_count b - 1\<rparr>)))"
| "sub__remove_recurse c path node (t # ts) b =
     (case find_child t (sh_children node) of
        None \<Rightarrow> (node, b)
      | Some branch \<Rightarrow>
          (case sub__remove_recurse c (path @ [t]) branch ts b of (branch', b') \<Rightarrow>
             (set_children (if bare branch' then drop_child t (sh_children node)
                            else put_child branch' (sh_children node)) node, b')))"

definition sub__remove :: "nat \<Rightarrow> bytes \<Rightarrow> ('p, unit) broker_comp" where
  "sub__remove c sub =
     bindE (on_error (as_code MOSQ_ERR_NOMEM) (sub__topic_tokenise sub)) (\<lambda>tokens.
     bindE (root_of tokens) (\<lambda>root.
     modify (\<lambda>b. case sub__remove_recurse c [hd tokens] root tokens b of (root', b') \<Rightarrow> put_root root' b')))"

text \<open>
  \<open>sub__clean_session\<close>: each remembered node loses the client's subscription; a bare node is removed,
  and then its ancestors as long as they are bare. The roots have no parent and stay. A remembered
  node that is gone would be a dangling pointer.
\<close>

fun node_at :: "subhier list \<Rightarrow> bytes list \<Rightarrow> subhier option" where
  "node_at ns [] = None"
| "node_at ns [t] = find_child t ns"
| "node_at ns (t # ts) = (case find_child t ns of None \<Rightarrow> None | Some n \<Rightarrow> node_at (sh_children n) ts)"

text \<open>Take the client's subscription off the node at a path, and prune the path from below.\<close>

fun clean_path :: "nat \<Rightarrow> subhier \<Rightarrow> bytes list \<Rightarrow> subhier" where
  "clean_path c node [] = set_subs (case drop_leaf c (sh_subs node) of None \<Rightarrow> sh_subs node | Some ls \<Rightarrow> ls) node"
| "clean_path c node (t # ts) =
     (case find_child t (sh_children node) of
        None \<Rightarrow> node
      | Some branch \<Rightarrow>
          (let branch' = clean_path c branch ts
           in set_children (if bare branch' then drop_child t (sh_children node)
                            else put_child branch' (sh_children node)) node))"

fun clean_nodes :: "nat \<Rightarrow> bytes list option list \<Rightarrow> ('p, unit) broker_comp" where
  "clean_nodes c [] = ok ()"
| "clean_nodes c (None # ps) = clean_nodes c ps"
| "clean_nodes c (Some p # ps) =
     bindE (asks (\<lambda>b. node_at (hier b) p)) (\<lambda>n.
     bindE (pure_res (case n of None \<Rightarrow> Inl Fault | Some n \<Rightarrow> Inr n)) (\<lambda>node.
     bindE (root_of p) (\<lambda>root.
     bindE (modify (\<lambda>b. put_root (clean_path c root (tl p)) b)) (\<lambda>_.
     bindE (modify (\<lambda>b. if drop_leaf c (sh_subs node) = None then b
                        else b\<lparr>subscription_count := subscription_count b - 1\<rparr>)) (\<lambda>_.
     clean_nodes c ps)))))"

definition sub__clean_session :: "nat \<Rightarrow> ('p, unit) broker_comp" where
  "sub__clean_session c =
     bindE (client_at c) (\<lambda>k.
     bindE (clean_nodes c (k_subs k)) (\<lambda>_.
     modify (upd_client c (\<lambda>k. k\<lparr>k_subs := []\<rparr>))))"

section \<open>Publishing\<close>

definition draw_client_mid :: "nat \<Rightarrow> ('p, 16 word) broker_comp" where
  "draw_client_mid c =
     bindE (client_at c) (\<lambda>k.
     bindE (modify (upd_client c (\<lambda>k. k\<lparr>k_last_mid := snd (mosquitto__mid_generate (k_last_mid k))\<rparr>))) (\<lambda>_.
     ok (fst (mosquitto__mid_generate (k_last_mid k)))))"

text \<open>
  One subscription gets the message: \<open>Inr False\<close> is the result 0, \<open>Inr True\<close> the result 1 of the
  insertion; an error of the access check ends the loop.
\<close>

definition deliver ::
    "subleaf \<Rightarrow> bytes \<Rightarrow> bytes \<Rightarrow> nat \<Rightarrow> bool \<Rightarrow> nat \<Rightarrow> msg_store \<Rightarrow> ('p, unit) broker_comp" where
  "deliver leaf source_id topic qos retain a s =
     bindE (client_at (l_context leaf)) (\<lambda>k.
     if k_id k = None \<or> is_bridge k \<and> k_id k = Some source_id then ok ()
     else bindE (rescue (bindE (mosquitto_acl_check (l_context leaf) topic (s_payload s) (s_qos s) (s_retain s) MOSQ_ACL_READ)
              (\<lambda>_. ok True)) (\<lambda>e. if e = Code MOSQ_ERR_ACL_DENIED then ok False else fail e)) (\<lambda>allowed.
     if \<not> allowed then ok ()
     else bindE (asks upgrade_outgoing_qos) (\<lambda>upgrade.
     bindE (ok (if upgrade then l_qos leaf else min qos (l_qos leaf))) (\<lambda>msg_qos.
     bindE (if msg_qos \<noteq> 0 then draw_client_mid (l_context leaf) else ok 0) (\<lambda>mid.
     bindE (rescue (bindE (db__message_insert (l_context leaf) mid mosq_md_out msg_qos (is_bridge k \<and> retain) a) (\<lambda>_. ok ()))
       (\<lambda>e. if e = Fault then fail Fault else ok ())) (\<lambda>_. ok ()))))))"

fun deliver_all ::
    "subleaf list \<Rightarrow> bytes \<Rightarrow> bytes \<Rightarrow> nat \<Rightarrow> bool \<Rightarrow> nat \<Rightarrow> ('p, unit) broker_comp" where
  "deliver_all [] source_id topic qos retain a = ok ()"
| "deliver_all (l # ls) source_id topic qos retain a =
     bindE (store_at a) (\<lambda>s. bindE (deliver l source_id topic qos retain a s) (\<lambda>_.
     deliver_all ls source_id topic qos retain a))"

text \<open>The retained message of a node is replaced, or removed by an empty payload.\<close>

definition retain_here :: "subhier \<Rightarrow> bytes \<Rightarrow> nat \<Rightarrow> ('p, subhier) broker_comp" where
  "retain_here node topic a =
     bindE (modify (\<lambda>b. if take 4 topic \<noteq> cstr ''$SYS'' then b\<lparr>persistence_changes := persistence_changes b + 1\<rparr> else b)) (\<lambda>_.
     bindE (case sh_retained node of None \<Rightarrow> ok ()
            | Some old \<Rightarrow> bindE (db__msg_store_deref old) (\<lambda>_. modify (\<lambda>b. b\<lparr>retained_count := retained_count b - 1\<rparr>))) (\<lambda>_.
     bindE (store_at a) (\<lambda>s.
     if s_payload s \<noteq> []
     then bindE (db__msg_store_ref a) (\<lambda>_.
          bindE (modify (\<lambda>b. b\<lparr>retained_count := retained_count b + 1\<rparr>)) (\<lambda>_. ok (set_retained (Some a) node)))
     else ok (set_retained None node))))"

text \<open>
  \<open>subs__process\<close>. Its result is not looked at by the caller; an error of the access check, which ends
  the loop, is ended here.
\<close>

definition subs__process ::
    "bytes option \<Rightarrow> bytes \<Rightarrow> nat \<Rightarrow> bool \<Rightarrow> nat \<Rightarrow> bool \<Rightarrow> subhier \<Rightarrow> ('p, subhier) broker_comp" where
  "subs__process source_id topic qos retain a set_ret node =
     bindE (if retain \<and> set_ret then retain_here node topic a else ok node) (\<lambda>node'.
     bindE (case source_id of None \<Rightarrow> ok ()
            | Some src \<Rightarrow> (ignore (deliver_all (sh_subs node') src topic qos retain a) :: ('p, unit) broker_comp)) (\<lambda>_.
     ok node'))"

text \<open>
  \<open>sub__search\<close> over the children of a node. \<open>act\<close> is what is done to a node the topic leads to, given
  whether the path to it is free of \<open>+\<close>.
\<close>

function sub__search ::
    "(bool \<Rightarrow> subhier \<Rightarrow> ('s, 'e, subhier) comp) \<Rightarrow> bool \<Rightarrow> subhier list \<Rightarrow> bytes list \<Rightarrow> ('s, 'e, subhier list) comp" where
  "sub__search act set_ret [] tokens = ok []"
| "sub__search act set_ret (Subhier t cs ls r # rest) tokens =
     bindE
       (if tokens \<noteq> [] \<and> (t = hd tokens \<or> t = [PLUS])
        then bindE (sub__search act (set_ret \<and> t \<noteq> [PLUS]) cs (tl tokens)) (\<lambda>cs'.
             if tl tokens = [] then act (set_ret \<and> t \<noteq> [PLUS]) (Subhier t cs' ls r) else ok (Subhier t cs' ls r))
        else if t = [HASH] \<and> cs = [] then act False (Subhier t cs ls r)
        else ok (Subhier t cs ls r))
       (\<lambda>node. bindE (sub__search act set_ret rest tokens) (\<lambda>nodes. ok (node # nodes)))"
  by pat_completeness auto
termination by (relation "measure (\<lambda>(act, sr, ns, ts). size_list size ns)") auto

definition sub__messages_queue ::
    "bytes option \<Rightarrow> bytes \<Rightarrow> nat \<Rightarrow> bool \<Rightarrow> nat \<Rightarrow> ('p, unit) broker_comp" where
  "sub__messages_queue source_id topic qos retain a =
     bindE (on_error (as_code MOSQ_ERR_NOMEM) (sub__topic_tokenise topic)) (\<lambda>tokens.
     bindE (db__msg_store_ref a) (\<lambda>_.
     bindE (root_of tokens) (\<lambda>root.
     bindE (if retain then bindE (sub__add_recurse None 0 [hd tokens] root tokens) (\<lambda>(_, root'). ok root') else ok root) (\<lambda>root'.
     bindE (sub__search (subs__process source_id topic qos retain a) True (sh_children root') tokens) (\<lambda>cs.
     bindE (modify (put_root (set_children cs root'))) (\<lambda>_.
     db__msg_store_deref a))))))"

section \<open>The tree at the start and at the end\<close>

text \<open>
  The two trees \<open>db__open\<close> makes (reading a saved database is left out), and \<open>db__close\<close> with the
  walk of \<open>subhier_clean\<close>.
\<close>

definition db__open :: "('p, unit) broker_comp" where
  "db__open =
     bindE (modify (\<lambda>b. b\<lparr>last_db_id := 0, contexts := [], hier := []\<rparr>)) (\<lambda>_.
     bindE (sub__add_hier_entry []) (\<lambda>n.
     bindE (modify (\<lambda>b. b\<lparr>hier := hier b @ [n]\<rparr>)) (\<lambda>_.
     bindE (sub__add_hier_entry (cstr ''$SYS'')) (\<lambda>n.
     modify (\<lambda>b. b\<lparr>hier := hier b @ [n]\<rparr>)))))"

function subhier_clean :: "subhier list \<Rightarrow> ('p, unit) broker_comp" where
  "subhier_clean [] = ok ()"
| "subhier_clean (Subhier t cs ls r # ns) =
     bindE (case r of None \<Rightarrow> ok () | Some a \<Rightarrow> db__msg_store_deref a) (\<lambda>_.
     bindE (subhier_clean cs) (\<lambda>_. subhier_clean ns))"
  by pat_completeness auto
termination by (relation "measure (size_list size)") auto

definition db__close :: "('p, unit) broker_comp" where
  "db__close =
     bindE (asks hier) (\<lambda>ns.
     bindE (subhier_clean ns) (\<lambda>_.
     bindE (modify (\<lambda>b. b\<lparr>hier := []\<rparr>)) (\<lambda>_. db__msg_store_clean)))"

section \<open>Retained messages for a new subscription\<close>

definition retain__process :: "nat \<Rightarrow> nat \<Rightarrow> nat \<Rightarrow> ('p, unit) broker_comp" where
  "retain__process c sub_qos a =
     bindE (store_at a) (\<lambda>s.
     bindE (pure_res (case s_topic s of None \<Rightarrow> Inl (Code MOSQ_ERR_INVAL) | Some t \<Rightarrow> Inr t)) (\<lambda>topic.
     bindE (rescue (bindE (mosquitto_acl_check c topic (s_payload s) (s_qos s) (s_retain s) MOSQ_ACL_READ) (\<lambda>_. ok True))
       (\<lambda>e. if e = Code MOSQ_ERR_ACL_DENIED then ok False else fail e)) (\<lambda>allowed.
     if \<not> allowed then ok ()
     else bindE (asks upgrade_outgoing_qos) (\<lambda>upgrade.
          bindE (ok (if upgrade then sub_qos else min (s_qos s) sub_qos)) (\<lambda>qos.
          bindE (if 0 < qos then draw_client_mid c else ok 0) (\<lambda>mid.
          bindE (db__message_insert c mid mosq_md_out qos True a) (\<lambda>_. ok ())))))))"

text \<open>
  \<open>retain__search\<close> over the children of a node: the retained messages it hands to \<open>retain__process\<close>, in
  order, and the result of the last child (-1: \<open>True\<close>). \<open>last\<close> is the test \<open>!branch_tmp\<close>.
\<close>

function retain__search :: "bool \<Rightarrow> subhier list \<Rightarrow> bytes list \<Rightarrow> nat list \<times> bool" where
  "retain__search deep [] tokens = ([], False)"
| "retain__search deep (Subhier t cs ls r # rest) tokens =
     (let (found, flag) =
        (if tokens = [[HASH]]
         then ((case r of None \<Rightarrow> [] | Some a \<Rightarrow> [a]) @ fst (retain__search True cs tokens), True)
         else if t \<noteq> [PLUS] \<and> (t = hd tokens \<or> hd tokens = [PLUS])
         then if tl tokens \<noteq> []
              then (case retain__search True cs (tl tokens) of (below, hash) \<Rightarrow>
                      (below @ (if hash \<or> rest = [] \<and> hd (tl tokens) = [HASH] \<and> deep
                                then (case r of None \<Rightarrow> [] | Some a \<Rightarrow> [a]) else []), False))
              else (case r of None \<Rightarrow> [] | Some a \<Rightarrow> [a], False)
         else ([], False));
        (later, flag') = retain__search deep rest tokens
      in (found @ later, flag \<or> flag'))"
  by pat_completeness auto
termination by (relation "measure (\<lambda>(deep, ns, ts). size_list size ns)") auto

fun retain_all :: "nat \<Rightarrow> nat \<Rightarrow> nat list \<Rightarrow> ('p, unit) broker_comp" where
  "retain_all c sub_qos [] = ok ()"
| "retain_all c sub_qos (a # as) =
     bindE (ignore (retain__process c sub_qos a) :: ('p, unit) broker_comp) (\<lambda>_. retain_all c sub_qos as)"

definition sub__retain_queue :: "nat \<Rightarrow> bytes \<Rightarrow> nat \<Rightarrow> ('p, unit) broker_comp" where
  "sub__retain_queue c sub sub_qos =
     bindE (on_error (as_code MOSQ_ERR_NOMEM) (sub__topic_tokenise sub)) (\<lambda>tokens.
     bindE (root_of tokens) (\<lambda>root.
     retain_all c sub_qos (fst (retain__search False (sh_children root) tokens))))"

end
