(* ===== verification/BrokerHandle.thy ===== *)
theory BrokerHandle
  imports Subs
begin

text \<open>
  The broker's packet handlers: \<open>src/handle_publish.c\<close>, \<open>src/handle_subscribe.c\<close>,
  \<open>src/handle_unsubscribe.c\<close>, \<open>src/handle_connack.c\<close>, and the handlers of \<open>lib/handle_*.c\<close> in the
  broker's build; with \<open>db__messages_easy_queue\<close> and \<open>db__message_release\<close> of \<open>src/database.c\<close>.

  The handlers work on the packet in \<open>in_packet\<close> of client \<open>c\<close>. A plain \<open>1\<close> they return is the error
  \<open>MOSQ_ERR_NOMEM\<close>, which has that number.
\<close>

section \<open>Helpers\<close>

text \<open>The test \<open>if(f(..))\<close> on a result code: did the routine fail?\<close>

definition failed :: "('p, 'a) broker_comp \<Rightarrow> ('p, bool) broker_comp" where
  "failed m = rescue (bindE m (\<lambda>_. ok False)) (\<lambda>e. if e = Fault then fail Fault else ok True)"

text \<open>A call whose failure is answered by \<open>return 1\<close>.\<close>

definition or_1 :: "('p, 'a) broker_comp \<Rightarrow> ('p, 'a) broker_comp" where
  "or_1 m = on_error (as_code MOSQ_ERR_NOMEM) m"

text \<open>The access check, when a denial is no error.\<close>

definition allows :: "nat \<Rightarrow> bytes \<Rightarrow> bytes \<Rightarrow> nat \<Rightarrow> bool \<Rightarrow> nat \<Rightarrow> ('p, bool) broker_comp" where
  "allows c topic data qos retain access =
     rescue (bindE (mosquitto_acl_check c topic data qos retain access) (\<lambda>_. ok True))
       (\<lambda>e. if e = Code MOSQ_ERR_ACL_DENIED then ok False else fail e)"

text \<open>The topic under the mount point of the client's listener.\<close>

definition mounted :: "nat \<Rightarrow> bytes \<Rightarrow> ('p, bytes) broker_comp" where
  "mounted c s =
     bindE (client_at c) (\<lambda>k.
     case k_listener k of None \<Rightarrow> ok s
     | Some l \<Rightarrow> (case mount_point l of None \<Rightarrow> ok s
                | Some m \<Rightarrow> bindE (mosquitto__malloc (length m + length s + 2) MOSQ_ERR_NOMEM) (\<lambda>_. ok (m @ s))))"

text \<open>What is left to read of the packet.\<close>

definition bytes_left :: "nat \<Rightarrow> ('p, nat) broker_comp" where
  "bytes_left c = bindE (client_at c) (\<lambda>k. ok (remaining_length (in_packet k) - pos (in_packet k)))"

section \<open>Messages of the broker and released messages (src/database.c)\<close>

definition db__messages_easy_queue ::
    "bytes option \<Rightarrow> bytes \<Rightarrow> nat \<Rightarrow> bytes \<Rightarrow> bool \<Rightarrow> ('p, unit) broker_comp" where
  "db__messages_easy_queue client topic qos data retain =
     bindE (strdup topic MOSQ_ERR_INVAL) (\<lambda>topic_heap.
     bindE (uhpa_alloc (length data) MOSQ_ERR_NOMEM) (\<lambda>_.
     bindE (ok (case client of None \<Rightarrow> [] | Some i \<Rightarrow> i)) (\<lambda>source_id.
     bindE (or_1 (db__message_store (Some source_id) 0 (Some topic_heap) qos data retain 0)) (\<lambda>a.
     sub__messages_queue (Some source_id) topic_heap qos retain a))))"

text \<open>
  The first loop of \<open>db__message_release\<close> from position \<open>i\<close> on. It walks the list as it is, with the
  messages that the publication itself puts at its end; \<open>idx\<close> counts the rounds. \<open>None\<close>: \<open>n\<close> rounds
  were not enough. A message without a topic was refused when it came and is only taken off.
\<close>

fun release_loop ::
    "nat \<Rightarrow> nat \<Rightarrow> 16 word \<Rightarrow> msg_direction \<Rightarrow> nat \<Rightarrow> nat \<Rightarrow> bool \<Rightarrow> ('p, (nat \<times> bool) option) broker_comp" where
  "release_loop 0 c mid dir i idx deleted = ok None"
| "release_loop (Suc n) c mid dir i idx deleted =
     bindE (client_at c) (\<lambda>k.
     if \<not> i < length (inflight_msgs k) then ok (Some (idx, deleted))
     else bindE (ok (inflight_msgs k ! i)) (\<lambda>m.
       if cm_mid m = mid \<and> cm_direction m = dir
       then bindE (store_at (cm_store m)) (\<lambda>s.
            bindE (case s_topic s of None \<Rightarrow> ok ()
                   | Some topic \<Rightarrow> or_1 (sub__messages_queue (Some (s_source_id s)) topic (s_qos s) (cm_retain m) (cm_store m))) (\<lambda>_.
            bindE (db__message_remove c m) (\<lambda>_.
            bindE (modify (upd_client c (drop_msg i))) (\<lambda>_.
            release_loop n c mid dir i (Suc idx) True))))
       else release_loop n c mid dir (Suc i) (Suc idx) deleted))"

text \<open>The result \<open>False\<close>: \<open>fuel\<close> rounds were not enough for one of the two loops.\<close>

definition db__message_release ::
    "('e, 'v) cbor_api \<Rightarrow> ('j, 'p) tom_api \<Rightarrow> nat \<Rightarrow> nat \<Rightarrow> 16 word \<Rightarrow> msg_direction \<Rightarrow> ('p, bool) broker_comp" where
  "db__message_release C T fuel c mid dir =
     bindE (release_loop fuel c mid dir 0 0 False) (\<lambda>r.
     case r of None \<Rightarrow> ok False
     | Some (msg_index, deleted) \<Rightarrow>
         bindE (move_up C T c fuel msg_index) (\<lambda>ended.
         if \<not> ended then ok False
         else if deleted then ok True else fail (Code MOSQ_ERR_NOMEM)))"

section \<open>PUBLISH (src/handle_publish.c)\<close>

text \<open>The topic of a message from a bridge: the first rule whose remote topic matches renames it.\<close>

fun remap_topic :: "bridge_topic list \<Rightarrow> bytes \<Rightarrow> ('p, bytes) broker_comp" where
  "remap_topic [] topic = ok topic"
| "remap_topic (t # ts) topic =
     (if bt_direction t \<noteq> bd_out \<and> (bt_remote_prefix t \<noteq> None \<or> bt_local_prefix t \<noteq> None)
      then bindE (pure_res (mosquitto_topic_matches_sub (map_option (\<lambda>s. s @ [0]) (bt_remote_topic t)) (Some (topic @ [0])))) (\<lambda>match.
           if match
           then exchange_prefix (bt_remote_prefix t) (bt_local_prefix t) topic
           else remap_topic ts topic)
      else remap_topic ts topic)"

text \<open>
  A message that is too large or not allowed is answered as if it was taken, so that the client does not
  send it again; of one of QoS 2 an entry without a topic is kept. The result 2 of the insertion (the
  entry waits, or was dropped) is returned, and is \<open>MOSQ_ERR_PROTOCOL\<close> for the caller.
\<close>

definition process_bad_message ::
    "('e, 'v) cbor_api \<Rightarrow> ('j, 'p) tom_api \<Rightarrow> nat \<Rightarrow> nat \<Rightarrow> 16 word \<Rightarrow> ('p, unit) broker_comp" where
  "process_bad_message C T c qos mid =
     (if qos = 0 then ok ()
      else if qos = 1 then run_on c (send__puback C T SMP_MQTTS_BROKER mid)
      else bindE (client_at c) (\<lambda>k.
           bindE (db__message_store_find c mid) (\<lambda>found.
           bindE (case found of Some _ \<Rightarrow> ok 0
                  | None \<Rightarrow> bindE (or_1 (db__message_store (k_id k) mid None qos [] False 0)) (\<lambda>a.
                            db__message_insert c mid mosq_md_in qos False a)) (\<lambda>res.
           bindE (ensure (res = 0) (Code MOSQ_ERR_PROTOCOL)) (\<lambda>_.
           run_on c (send__pubrec C T SMP_MQTTS_BROKER mid))))))"

text \<open>
  A message that is taken. When one with this id is already stored, that one is used; its topic is
  missing when it was refused, and the code asserts a topic.
\<close>

definition take_message ::
    "('e, 'v) cbor_api \<Rightarrow> ('j, 'p) tom_api \<Rightarrow> nat \<Rightarrow> 16 word \<Rightarrow> bytes \<Rightarrow> nat \<Rightarrow> bool \<Rightarrow> bytes \<Rightarrow> ('p, unit) broker_comp" where
  "take_message C T c mid topic qos retain data =
     bindE (client_at c) (\<lambda>k.
     bindE (if 0 < qos then db__message_store_find c mid else ok None) (\<lambda>found.
     bindE (case found of Some a \<Rightarrow> ok a
            | None \<Rightarrow> or_1 (db__message_store (k_id k) mid (Some topic) qos data retain 0)) (\<lambda>a.
     if qos = 2
     then bindE (if found = None then db__message_insert c mid mosq_md_in qos retain a else ok 0) (\<lambda>res.
          if res = 0 then or_1 (run_on c (send__pubrec C T SMP_MQTTS_BROKER mid)) else ok ())
     else bindE (store_at a) (\<lambda>s.
          bindE (pure_res (case s_topic s of None \<Rightarrow> Inl Fault | Some t \<Rightarrow> Inr t)) (\<lambda>topic.
          bindE (failed (sub__messages_queue (k_id k) topic qos retain a)) (\<lambda>unsent.
          bindE (if qos = 1 then failed (run_on c (send__puback C T SMP_MQTTS_BROKER mid)) else ok False) (\<lambda>unacked.
          ensure (\<not> unsent \<and> \<not> unacked) (Code MOSQ_ERR_NOMEM))))))))"

definition handle__publish_broker ::
    "('e, 'v) cbor_api \<Rightarrow> ('j, 'p) tom_api \<Rightarrow> nat \<Rightarrow> ('p, unit) broker_comp" where
  "handle__publish_broker C T c =
     bindE (client_at c) (\<lambda>k.
     bindE (ok (command (in_packet k))) (\<lambda>header.
     bindE (ok (unat (drop_bit 1 (header AND 0x06)))) (\<lambda>qos.
     bindE (ensure (qos \<noteq> 3) (Code MOSQ_ERR_NOMEM)) (\<lambda>_.
     bindE (ok (header AND 0x01 \<noteq> 0)) (\<lambda>retain.
     bindE (or_1 (run_on c packet__read_string)) (\<lambda>topic.
     bindE (ensure (topic \<noteq> []) (Code MOSQ_ERR_NOMEM)) (\<lambda>_.
     bindE (or_1 (pure_res (mosquitto_validate_utf8 (Some (topic @ [0])) (int (length topic))))) (\<lambda>_.
     bindE (case k_bridge k of None \<Rightarrow> ok topic
            | Some br \<Rightarrow> if br_topic_remapping br then remap_topic (br_topics br) topic else ok topic) (\<lambda>topic.
     bindE (or_1 (pure_res (mosquitto_pub_topic_check (Some (topic @ [0]))))) (\<lambda>_.
     bindE (if 0 < qos then or_1 (run_on c packet__read_uint16) else ok 0) (\<lambda>mid.
     bindE (bytes_left c) (\<lambda>payloadlen.
     bindE (mounted c topic) (\<lambda>topic.
     bindE (asks (\<lambda>b. payloadlen \<noteq> 0 \<and> message_size_limit b \<noteq> 0 \<and> message_size_limit b < payloadlen)) (\<lambda>too_large.
     if too_large then process_bad_message C T c qos mid
     else bindE (if payloadlen \<noteq> 0
                 then bindE (uhpa_alloc (payloadlen + 1) MOSQ_ERR_NOMEM) (\<lambda>_. or_1 (run_on c (packet__read_bytes payloadlen)))
                 else ok []) (\<lambda>data.
          bindE (allows c topic data qos retain MOSQ_ACL_WRITE) (\<lambda>allowed.
          if allowed then take_message C T c mid topic qos retain data
          else process_bad_message C T c qos mid))))))))))))))))"

section \<open>SUBSCRIBE and UNSUBSCRIBE (src/handle_subscribe.c, src/handle_unsubscribe.c)\<close>

text \<open>The next filter of the packet, checked.\<close>

definition read_filter :: "nat \<Rightarrow> ('p, bytes) broker_comp" where
  "read_filter c =
     bindE (run_on c packet__read_string) (\<lambda>sub.
     bindE (ensure (sub \<noteq> []) (Code MOSQ_ERR_NOMEM)) (\<lambda>_.
     bindE (pure_res (mosquitto_sub_topic_check (Some (sub @ [0])))) (\<lambda>_.
     bindE (pure_res (mosquitto_validate_utf8 (Some (sub @ [0])) (int (length sub)))) (\<lambda>_.
     ok sub))))"

text \<open>
  One filter: the code to grant and the variable \<open>rc\<close>. The access check leaves its result there, also a
  denial; what an earlier filter left there is lost.
\<close>

definition subscribe_one :: "nat \<Rightarrow> mosq_err option \<Rightarrow> ('p, mosq_err option \<times> byte) broker_comp" where
  "subscribe_one c rc =
     bindE (or_1 (read_filter c)) (\<lambda>sub.
     bindE (or_1 (run_on c packet__read_byte)) (\<lambda>qos.
     bindE (ensure (unat qos \<le> 2) (Code MOSQ_ERR_NOMEM)) (\<lambda>_.
     bindE (mounted c sub) (\<lambda>sub.
     bindE (client_at c) (\<lambda>k.
     bindE (if k_protocol k = mosq_p_mqtt311
            then bindE (allows c sub [] (unat qos) False MOSQ_ACL_SUBSCRIBE) (\<lambda>a.
                 ok (if a then (None, qos) else (Some MOSQ_ERR_ACL_DENIED, 0x80)))
            else ok (rc, qos)) (\<lambda>(rc, code).
     bindE (if code \<noteq> 0x80
            then bindE (failed (sub__add c sub (unat code))) (\<lambda>unadded.
                 if unadded then ok (Some MOSQ_ERR_NOMEM)
                 else bindE (failed (sub__retain_queue c sub (unat code))) (\<lambda>unsent.
                      ok (if unsent then Some MOSQ_ERR_NOMEM else rc)))
            else ok rc) (\<lambda>rc.
     ok (rc, code))))))))"

text \<open>The loop over the filters, at most \<open>n\<close> of them (\<open>None\<close>: there are more): \<open>rc\<close> and the codes.\<close>

fun subscribe_loop ::
    "nat \<Rightarrow> nat \<Rightarrow> mosq_err option \<Rightarrow> bytes \<Rightarrow> ('p, (mosq_err option \<times> bytes) option) broker_comp" where
  "subscribe_loop n c rc codes =
     bindE (bytes_left c) (\<lambda>left.
     if left = 0 then ok (Some (rc, codes))
     else (case n of 0 \<Rightarrow> ok None
           | Suc n' \<Rightarrow>
               bindE (subscribe_one c rc) (\<lambda>(rc, code).
               bindE (mosquitto__malloc (length codes + 1) MOSQ_ERR_NOMEM) (\<lambda>_.
               subscribe_loop n' c rc (codes @ [code])))))"

declare subscribe_loop.simps [simp del]

text \<open>A filter takes at least a byte of the packet, so the bytes left bound the rounds.\<close>

definition handle__subscribe_broker ::
    "('e, 'v) cbor_api \<Rightarrow> ('j, 'p) tom_api \<Rightarrow> nat \<Rightarrow> ('p, unit) broker_comp" where
  "handle__subscribe_broker C T c =
     bindE (client_at c) (\<lambda>k.
     bindE (ensure (\<not> (k_protocol k = mosq_p_mqtt311 \<and> command (in_packet k) AND 0x0F \<noteq> 0x02)) (Code MOSQ_ERR_PROTOCOL)) (\<lambda>_.
     bindE (or_1 (run_on c packet__read_uint16)) (\<lambda>mid.
     bindE (subscribe_loop (remaining_length (in_packet k)) c None []) (\<lambda>r.
     bindE (pure_res (case r of None \<Rightarrow> Inl Fault | Some x \<Rightarrow> Inr x)) (\<lambda>(rc, codes).
     bindE (ensure (\<not> (k_protocol k = mosq_p_mqtt311 \<and> codes = [])) (Code MOSQ_ERR_PROTOCOL)) (\<lambda>_.
     bindE (failed (run_on c (send__suback C T SMP_MQTTS_BROKER mid codes))) (\<lambda>unsent.
     bindE (modify (\<lambda>b. b\<lparr>persistence_changes := persistence_changes b + 1\<rparr>)) (\<lambda>_.
     case (if unsent then Some MOSQ_ERR_NOMEM else rc) of None \<Rightarrow> ok () | Some e \<Rightarrow> fail (Code e)))))))))"

text \<open>The filter is removed as it is in the packet: no mount point is put in front of it.\<close>

fun unsubscribe_loop :: "nat \<Rightarrow> nat \<Rightarrow> ('p, bool) broker_comp" where
  "unsubscribe_loop n c =
     bindE (bytes_left c) (\<lambda>left.
     if left = 0 then ok True
     else (case n of 0 \<Rightarrow> ok False
           | Suc n' \<Rightarrow>
               bindE (or_1 (read_filter c)) (\<lambda>sub.
               bindE (ignore (sub__remove c sub) :: ('p, unit) broker_comp) (\<lambda>_.
               unsubscribe_loop n' c))))"

declare unsubscribe_loop.simps [simp del]

definition handle__unsubscribe_broker ::
    "('e, 'v) cbor_api \<Rightarrow> ('j, 'p) tom_api \<Rightarrow> nat \<Rightarrow> ('p, unit) broker_comp" where
  "handle__unsubscribe_broker C T c =
     bindE (client_at c) (\<lambda>k.
     bindE (ensure (\<not> (k_protocol k = mosq_p_mqtt311 \<and> command (in_packet k) AND 0x0F \<noteq> 0x02)) (Code MOSQ_ERR_PROTOCOL)) (\<lambda>_.
     bindE (or_1 (run_on c packet__read_uint16)) (\<lambda>mid.
     bindE (bytes_left c) (\<lambda>left.
     bindE (ensure (\<not> (k_protocol k = mosq_p_mqtt311 \<and> left = 0)) (Code MOSQ_ERR_PROTOCOL)) (\<lambda>_.
     bindE (unsubscribe_loop (remaining_length (in_packet k)) c) (\<lambda>ended.
     bindE (ensure ended Fault) (\<lambda>_.
     bindE (modify (\<lambda>b. b\<lparr>persistence_changes := persistence_changes b + 1\<rparr>)) (\<lambda>_.
     run_on c (send__command_with_mid C T SMP_MQTTS_BROKER UNSUBACK mid False)))))))))"

section \<open>Acknowledgements and pings (lib/handle_*.c in the broker)\<close>

text \<open>The result \<open>False\<close>: \<open>fuel\<close> rounds were not enough for the loops over the queues.\<close>

definition handle__pubackcomp_broker ::
    "('e, 'v) cbor_api \<Rightarrow> ('j, 'p) tom_api \<Rightarrow> nat \<Rightarrow> nat \<Rightarrow> ('p, bool) broker_comp" where
  "handle__pubackcomp_broker C T fuel c =
     bindE (run_on c packet__read_uint16) (\<lambda>mid.
     if mid \<noteq> 0 then db__message_delete C T fuel c mid mosq_md_out else ok True)"

definition handle__pubrec_broker ::
    "('e, 'v) cbor_api \<Rightarrow> ('j, 'p) tom_api \<Rightarrow> nat \<Rightarrow> ('p, unit) broker_comp" where
  "handle__pubrec_broker C T c =
     bindE (run_on c packet__read_uint16) (\<lambda>mid.
     bindE (rescue (db__message_update c mid mosq_md_out mosq_ms_wait_for_pubcomp)
       (\<lambda>e. if e = Code MOSQ_ERR_NOT_FOUND then ok () else fail e)) (\<lambda>_.
     run_on c (send__pubrel C T SMP_MQTTS_BROKER mid)))"

text \<open>Whatever the release returned, a PUBCOMP is sent.\<close>

definition handle__pubrel_broker ::
    "('e, 'v) cbor_api \<Rightarrow> ('j, 'p) tom_api \<Rightarrow> nat \<Rightarrow> nat \<Rightarrow> ('p, bool) broker_comp" where
  "handle__pubrel_broker C T fuel c =
     bindE (client_at c) (\<lambda>k.
     bindE (ensure (\<not> (k_protocol k = mosq_p_mqtt311 \<and> command (in_packet k) AND 0x0F \<noteq> 0x02)) (Code MOSQ_ERR_PROTOCOL)) (\<lambda>_.
     bindE (run_on c packet__read_uint16) (\<lambda>mid.
     bindE (rescue (db__message_release C T fuel c mid mosq_md_in) (\<lambda>e. if e = Fault then fail Fault else ok True)) (\<lambda>ended.
     if \<not> ended then ok False
     else bindE (run_on c (send__pubcomp C T SMP_MQTTS_BROKER mid)) (\<lambda>_. ok True)))))"

definition handle__pingreq_broker ::
    "('e, 'v) cbor_api \<Rightarrow> ('j, 'p) tom_api \<Rightarrow> nat \<Rightarrow> ('p, unit) broker_comp" where
  "handle__pingreq_broker C T c = run_on c (send__pingresp C T SMP_MQTTS_BROKER)"

definition handle__pingresp_broker :: "nat \<Rightarrow> ('p, unit) broker_comp" where
  "handle__pingresp_broker c = modify (upd_client c (\<lambda>k. k\<lparr>ping_t := 0\<rparr>))"

text \<open>The answers to a bridge: the codes of a SUBACK are read and not used.\<close>

fun read_granted :: "nat \<Rightarrow> (('p, 'z) connection_scheme, mosq_err, unit) comp" where
  "read_granted 0 = ok ()"
| "read_granted (Suc n) = bindE packet__read_byte (\<lambda>_. read_granted n)"

definition handle__suback_broker :: "nat \<Rightarrow> ('p, unit) broker_comp" where
  "handle__suback_broker c =
     bindE (run_on c packet__read_uint16) (\<lambda>_.
     bindE (bytes_left c) (\<lambda>qos_count.
     bindE (mosquitto__malloc (qos_count * 4) MOSQ_ERR_NOMEM) (\<lambda>_.
     run_on c (read_granted qos_count))))"

definition handle__unsuback_broker :: "nat \<Rightarrow> ('p, unit) broker_comp" where
  "handle__unsuback_broker c = bindE (run_on c packet__read_uint16) (\<lambda>_. ok ())"

end
