(* ===== verification/BrokerConnect.thy ===== *)
theory BrokerConnect
  imports BrokerHandle ClientHandle
begin

text \<open>
  Clients that come and go: \<open>src/context.c\<close>, \<open>do_disconnect\<close> of \<open>src/loop.c\<close>, the login of
  \<open>src/security.c\<close> and \<open>src/security_default.c\<close>, CONNECT and DISCONNECT (\<open>src/handle_connect.c\<close>),
  the CONNACK of a bridge (\<open>src/handle_connack.c\<close>), and the dispatch of \<open>src/read_handle.c\<close>.

  The build is without TLS. Strings are given by their bytes before the NUL. A client found by its id is
  the first in \<open>contexts\<close> that has it. The memory of a client is not taken back, and the counter of a
  listener's clients and the time of the disconnection are left out.
\<close>

section \<open>A client leaves (src/context.c, src/loop.c)\<close>

definition context__send_will :: "nat \<Rightarrow> ('p, unit) broker_comp" where
  "context__send_will c =
     bindE (client_at c) (\<lambda>k.
     bindE (case k_will k of None \<Rightarrow> ok ()
            | Some w \<Rightarrow>
                if conn_state k = mosq_cs_disconnecting then ok ()
                else bindE (failed (mosquitto_acl_check c (m_topic w) (m_payload w) (m_qos w) (m_retain w) MOSQ_ACL_WRITE)) (\<lambda>denied.
                     if denied then ok ()
                     else (ignore (db__messages_easy_queue (k_id k) (m_topic w) (m_qos w) (m_payload w) (m_retain w))
                            :: ('p, unit) broker_comp))) (\<lambda>_.
     modify (upd_client c (\<lambda>k. k\<lparr>k_will := None\<rparr>))))"

definition net__socket_close :: "'p client_context \<Rightarrow> 'p client_context" where
  "net__socket_close k = k\<lparr>sock_open := False, k_listener := None\<rparr>"

definition context__disconnect :: "nat \<Rightarrow> ('p, unit) broker_comp" where
  "context__disconnect c = bindE (context__send_will c) (\<lambda>_. modify (upd_client c net__socket_close))"

definition context__add_to_disused :: "nat \<Rightarrow> 'p broker \<Rightarrow> 'p broker" where
  "context__add_to_disused c b = b\<lparr>disused := c # disused b\<rparr>"

definition do_disconnect :: "nat \<Rightarrow> ('p, unit) broker_comp" where
  "do_disconnect c =
     bindE (client_at c) (\<lambda>k.
     if conn_state k = mosq_cs_disconnected then ok ()
     else bindE (context__disconnect c) (\<lambda>_.
          bindE (client_at c) (\<lambda>k.
          bindE (if k_clean_session k \<and> k_bridge k = None
                 then bindE (modify (context__add_to_disused c)) (\<lambda>_. modify (upd_client c (\<lambda>k. k\<lparr>k_id := None\<rparr>)))
                 else ok ()) (\<lambda>_.
          modify (upd_client c (\<lambda>k. k\<lparr>conn_state := mosq_cs_disconnected\<rparr>))))))"

text \<open>What \<open>context__cleanup\<close> frees of the client itself.\<close>

definition clean_login :: "'p client_context \<Rightarrow> 'p client_context" where
  "clean_login k = k\<lparr>smpSession := WCL_SESSION_INVALID, k_username := None, k_password := None,
     k_bridge := map_option (\<lambda>br. br\<lparr>br_remote_clientid := None\<rparr>) (k_bridge k)\<rparr>"

definition clean_packets :: "'p client_context \<Rightarrow> 'p client_context" where
  "clean_packets k = k\<lparr>k_id := None, in_packet := packet__cleanup (in_packet k), current_out_packet := None, out_packet := []\<rparr>"

definition drop_messages :: "nat \<Rightarrow> ('p, unit) broker_comp" where
  "drop_messages c =
     bindE (client_at c) (\<lambda>k.
     bindE (deref_all (inflight_msgs k)) (\<lambda>_.
     bindE (modify (upd_client c (\<lambda>k. k\<lparr>inflight_msgs := [], lost_inflight := False\<rparr>))) (\<lambda>_.
     bindE (deref_all (queued_msgs k)) (\<lambda>_.
     modify (upd_client c (\<lambda>k. k\<lparr>queued_msgs := [], lost_queued := False\<rparr>))))))"

definition context__cleanup :: "nat \<Rightarrow> bool \<Rightarrow> ('p, unit) broker_comp" where
  "context__cleanup c do_free =
     bindE (client_at c) (\<lambda>k.
     bindE (if smpSession k \<noteq> WCL_SESSION_INVALID then run_on c (ignore (wclSmpClose (smpSession k))) else ok ()) (\<lambda>_.
     bindE (modify (upd_client c clean_login)) (\<lambda>_.
     bindE (modify (upd_client c net__socket_close)) (\<lambda>_.
     bindE (if do_free \<or> k_clean_session k
            then bindE (sub__clean_session c) (\<lambda>_. db__messages_delete c) else ok ()) (\<lambda>_.
     bindE (context__send_will c) (\<lambda>_.
     bindE (modify (upd_client c clean_packets)) (\<lambda>_.
     if do_free \<or> k_clean_session k then drop_messages c else ok ())))))))"

fun cleanup_all :: "nat list \<Rightarrow> ('p, unit) broker_comp" where
  "cleanup_all [] = ok ()"
| "cleanup_all (c # cs) = bindE (context__cleanup c True) (\<lambda>_. cleanup_all cs)"

definition context__free_disused :: "('p, unit) broker_comp" where
  "context__free_disused =
     bindE (asks disused) (\<lambda>cs. bindE (cleanup_all cs) (\<lambda>_. modify (\<lambda>b. b\<lparr>disused := []\<rparr>)))"

definition handle__disconnect_broker :: "nat \<Rightarrow> ('p, unit) broker_comp" where
  "handle__disconnect_broker c =
     bindE (client_at c) (\<lambda>k.
     bindE (ensure (remaining_length (in_packet k) = 0) (Code MOSQ_ERR_PROTOCOL)) (\<lambda>_.
     if k_protocol k = mosq_p_mqtt311 \<and> command (in_packet k) AND 0x0F \<noteq> 0
     then bindE (do_disconnect c) (\<lambda>_. fail (Code MOSQ_ERR_PROTOCOL))
     else bindE (modify (upd_client c (\<lambda>k. k\<lparr>conn_state := mosq_cs_disconnecting\<rparr>))) (\<lambda>_. do_disconnect c)))"

section \<open>The login (src/security_default.c, src/security.c)\<close>

text \<open>The security options of a client: of its listener, or of the broker.\<close>

definition options_of :: "'p client_context \<Rightarrow> ('p, security_options) broker_comp" where
  "options_of k =
     bindE (asks per_listener_settings) (\<lambda>per_listener.
     if per_listener then pure_res (case k_listener k of None \<Rightarrow> Inl Fault | Some l \<Rightarrow> Inr (l_security l))
     else asks security)"

fun check_unpwd :: "bytes \<Rightarrow> bytes option \<Rightarrow> unpwd list \<Rightarrow> (mosq_err, unit) res" where
  "check_unpwd user pass [] = Inl (Code MOSQ_ERR_AUTH)"
| "check_unpwd user pass (u # us) =
     (if up_username u = user
      then case up_password u of None \<Rightarrow> Inr ()
           | Some p \<Rightarrow> (case pass of None \<Rightarrow> Inl (Code MOSQ_ERR_AUTH)
                      | Some q \<Rightarrow> if p = c_string q then Inr () else check_unpwd user pass us)
      else check_unpwd user pass us)"

definition mosquitto_unpwd_check_default :: "nat \<Rightarrow> bytes \<Rightarrow> bytes option \<Rightarrow> ('p, unit) broker_comp" where
  "mosquitto_unpwd_check_default c user pass =
     bindE (client_at c) (\<lambda>k.
     bindE (asks per_listener_settings) (\<lambda>per_listener.
     if per_listener \<and> k_bridge k \<noteq> None then ok ()
     else bindE (ensure (\<not> (per_listener \<and> k_listener k = None)) (Code MOSQ_ERR_INVAL)) (\<lambda>_.
          bindE (asks (\<lambda>b. if per_listener then l_unpwd (the (k_listener k)) else b_unpwd b)) (\<lambda>us.
          bindE (ensure (us \<noteq> []) (Code MOSQ_ERR_PLUGIN_DEFER)) (\<lambda>_.
          pure_res (check_unpwd user pass us))))))"

definition unpwd__check_single ::
    "auth_plugin \<Rightarrow> bytes option \<Rightarrow> bytes \<Rightarrow> bytes option \<Rightarrow> mosq_err option" where
  "unpwd__check_single p cid user pass =
     (if plugin_version p = 3 \<or> plugin_version p = 2 then unpwd_check_plugin p cid user pass
      else Some MOSQ_ERR_INVAL)"

fun ask_login :: "auth_plugin list \<Rightarrow> bytes option \<Rightarrow> bytes \<Rightarrow> bytes option \<Rightarrow> mosq_err option \<Rightarrow> mosq_err option" where
  "ask_login [] cid user pass rc = rc"
| "ask_login (p # ps) cid user pass rc =
     (let rc = unpwd__check_single p cid user pass
      in if rc \<noteq> Some MOSQ_ERR_PLUGIN_DEFER then rc else ask_login ps cid user pass rc)"

definition mosquitto_unpwd_check :: "nat \<Rightarrow> bytes \<Rightarrow> bytes option \<Rightarrow> ('p, unit) broker_comp" where
  "mosquitto_unpwd_check c user pass =
     rescue (mosquitto_unpwd_check_default c user pass) (\<lambda>e.
       if e \<noteq> Code MOSQ_ERR_PLUGIN_DEFER then fail e
       else bindE (client_at c) (\<lambda>k.
            bindE (options_of k) (\<lambda>opts.
            case ask_login (sec_plugins opts) (k_id k) user pass None of
              None \<Rightarrow> ok ()
            | Some MOSQ_ERR_PLUGIN_DEFER \<Rightarrow> fail (Code MOSQ_ERR_AUTH)
            | Some e \<Rightarrow> fail (Code e))))"

section \<open>Reading a CONNECT (src/handle_connect.c)\<close>

text \<open>A refusal is sent, and the handler returns an error.\<close>

definition connect_refused ::
    "('e, 'v) cbor_api \<Rightarrow> ('j, 'p) tom_api \<Rightarrow> nat \<Rightarrow> byte \<Rightarrow> mosq_err \<Rightarrow> ('p, 'a) broker_comp" where
  "connect_refused C T c result e =
     bindE (ignore (run_on c (send__connack C T SMP_MQTTS_BROKER 0 result)) :: ('p, unit) broker_comp) (\<lambda>_. fail (Code e))"

text \<open>Protocol name and version; names are compared up to a NUL. The result is the version byte.\<close>

definition read_protocol ::
    "('e, 'v) cbor_api \<Rightarrow> ('j, 'p) tom_api \<Rightarrow> nat \<Rightarrow> ('p, byte) broker_comp" where
  "read_protocol C T c =
     bindE (or_1 (run_on c packet__read_uint16)) (\<lambda>slen.
     bindE (ensure (unat slen = 4 \<or> unat slen = 6) (Code MOSQ_ERR_PROTOCOL)) (\<lambda>_.
     bindE (on_error (as_code MOSQ_ERR_PROTOCOL) (run_on c (packet__read_bytes (unat slen)))) (\<lambda>name.
     bindE (or_1 (run_on c packet__read_byte)) (\<lambda>version.
     bindE (client_at c) (\<lambda>k.
     if c_string name = PROTOCOL_NAME_v31
     then if version AND 0x7F \<noteq> 3 then connect_refused C T c 1 MOSQ_ERR_PROTOCOL
          else bindE (modify (upd_client c (\<lambda>k. k\<lparr>k_protocol := mosq_p_mqtt31\<rparr>))) (\<lambda>_. ok version)
     else if c_string name = PROTOCOL_NAME_v311
     then if version AND 0x7F \<noteq> 4 then connect_refused C T c 1 MOSQ_ERR_PROTOCOL
          else bindE (ensure (command (in_packet k) AND 0x0F = 0) (Code MOSQ_ERR_PROTOCOL)) (\<lambda>_.
               bindE (modify (upd_client c (\<lambda>k. k\<lparr>k_protocol := mosq_p_mqtt311\<rparr>))) (\<lambda>_. ok version))
     else fail (Code MOSQ_ERR_PROTOCOL))))))"

text \<open>The id the broker makes: a prefix and a UUID, which the library \<open>libuuid\<close> gives.\<close>

definition client_id_gen :: "bytes \<Rightarrow> bytes option \<Rightarrow> (('p, 'z) world_scheme, mosq_err, bytes) comp" where
  "client_id_gen uuid prefix =
     bindE (mosquitto__calloc MOSQ_ERR_NOMEM) (\<lambda>_. ok ((case prefix of None \<Rightarrow> [] | Some p \<Rightarrow> p) @ uuid))"

definition read_client_id ::
    "('e, 'v) cbor_api \<Rightarrow> ('j, 'p) tom_api \<Rightarrow> bytes \<Rightarrow> nat \<Rightarrow> bool \<Rightarrow> ('p, bytes) broker_comp" where
  "read_client_id C T uuid c clean =
     bindE (or_1 (run_on c packet__read_string)) (\<lambda>cid.
     bindE (client_at c) (\<lambda>k.
     bindE (if cid \<noteq> [] then ok cid
            else if k_protocol k = mosq_p_mqtt31 then connect_refused C T c 2 MOSQ_ERR_PROTOCOL
            else bindE (options_of k) (\<lambda>opts.
                 if \<not> clean \<or> \<not> allow_zero_length_clientid opts then connect_refused C T c 2 MOSQ_ERR_PROTOCOL
                 else client_id_gen uuid (auto_id_prefix opts))) (\<lambda>cid.
     bindE (asks clientid_prefixes) (\<lambda>prefixes.
     bindE (case prefixes of None \<Rightarrow> ok ()
            | Some p \<Rightarrow> if take (length p) (c_string cid) = p then ok () else connect_refused C T c 5 MOSQ_ERR_NOMEM) (\<lambda>_.
     bindE (or_1 (pure_res (mosquitto_validate_utf8 (Some (cid @ [0])) (int (length cid))))) (\<lambda>_.
     ok cid))))))"

definition read_will :: "nat \<Rightarrow> byte \<Rightarrow> ('p, mosquitto_message option) broker_comp" where
  "read_will c flags =
     bindE (client_at c) (\<lambda>k.
     if flags AND 0x04 \<noteq> 0
     then bindE (mosquitto__calloc MOSQ_ERR_NOMEM) (\<lambda>_.
          bindE (or_1 (run_on c packet__read_string)) (\<lambda>topic.
          bindE (ensure (topic \<noteq> []) (Code MOSQ_ERR_NOMEM)) (\<lambda>_.
          bindE (or_1 (pure_res (mosquitto_validate_utf8 (Some (topic @ [0])) (int (length topic))))) (\<lambda>_.
          bindE (mounted c topic) (\<lambda>topic.
          bindE (or_1 (pure_res (mosquitto_pub_topic_check (Some (topic @ [0]))))) (\<lambda>_.
          bindE (or_1 (run_on c packet__read_uint16)) (\<lambda>len.
          bindE (if len \<noteq> 0
                 then bindE (or_1 (mosquitto__malloc (unat len) MOSQ_ERR_NOMEM)) (\<lambda>_. or_1 (run_on c (packet__read_bytes (unat len))))
                 else ok []) (\<lambda>data.
          ok (Some \<lparr>m_mid = 0, m_topic = topic, m_payload = data, m_qos = unat (drop_bit 3 (flags AND 0x18)),
            m_retain = (flags AND 0x20 = 0x20)\<rparr>)))))))))
     else bindE (ensure (\<not> (k_protocol k = mosq_p_mqtt311 \<and> (flags AND 0x18 \<noteq> 0 \<or> flags AND 0x20 = 0x20))) (Code MOSQ_ERR_PROTOCOL)) (\<lambda>_.
          ok None))"

text \<open>A call whose result code is looked at.\<close>

definition attempt :: "('p, 'a) broker_comp \<Rightarrow> ('p, mosq_err stop + 'a) broker_comp" where
  "attempt m = rescue (bindE m (\<lambda>x. ok (Inr x))) (\<lambda>e. if e = Fault then fail Fault else ok (Inl e))"

text \<open>User name and password; an MQTT 3.1 client may announce them and leave them out.\<close>

definition read_password :: "nat \<Rightarrow> bool \<Rightarrow> ('p, bytes option) broker_comp" where
  "read_password c lenient =
     bindE (attempt (run_on c packet__read_string)) (\<lambda>r.
     case r of Inr p \<Rightarrow> ok (Some p)
     | Inl e \<Rightarrow> if e = Code MOSQ_ERR_PROTOCOL \<and> lenient then ok None else fail e)"

definition read_login :: "nat \<Rightarrow> byte \<Rightarrow> ('p, bytes option \<times> bytes option) broker_comp" where
  "read_login c flags =
     bindE (client_at c) (\<lambda>k.
     bindE (ok (k_protocol k = mosq_p_mqtt31)) (\<lambda>lenient.
     if flags AND 0x80 \<noteq> 0
     then bindE (attempt (run_on c packet__read_string)) (\<lambda>r.
          case r of
            Inr user \<Rightarrow>
              bindE (on_error (as_code MOSQ_ERR_PROTOCOL)
                (pure_res (mosquitto_validate_utf8 (Some (user @ [0])) (int (length user))))) (\<lambda>_.
              bindE (if flags AND 0x40 \<noteq> 0 then read_password c lenient else ok None) (\<lambda>pass.
              ok (Some user, pass)))
          | Inl e \<Rightarrow> if e = Code MOSQ_ERR_NOMEM then fail e
                     else if lenient then ok (None, None) else fail (Code MOSQ_ERR_PROTOCOL))
     else bindE (ensure (\<not> (k_protocol k = mosq_p_mqtt311 \<and> flags AND 0x40 \<noteq> 0)) (Code MOSQ_ERR_PROTOCOL)) (\<lambda>_.
          ok (None, None))))"

section \<open>Accepting a CONNECT\<close>

text \<open>For the check the code puts id and user name into the client and takes them out again.\<close>

definition check_login ::
    "('e, 'v) cbor_api \<Rightarrow> ('j, 'p) tom_api \<Rightarrow> nat \<Rightarrow> bytes \<Rightarrow> bytes option \<Rightarrow> bytes option \<Rightarrow> ('p, unit) broker_comp" where
  "check_login C T c cid user pass =
     (case user of
        Some u \<Rightarrow>
          bindE (modify (upd_client c (\<lambda>k. k\<lparr>k_id := Some cid, k_username := Some u\<rparr>))) (\<lambda>_.
          bindE (attempt (mosquitto_unpwd_check c u pass)) (\<lambda>r.
          bindE (modify (upd_client c (\<lambda>k. k\<lparr>k_id := None, k_username := None\<rparr>))) (\<lambda>_.
          case r of
            Inr _ \<Rightarrow> modify (upd_client c (\<lambda>k. k\<lparr>k_username := Some u, k_password := pass\<rparr>))
          | Inl e \<Rightarrow>
              bindE (if e = Code MOSQ_ERR_AUTH
                     then (ignore (run_on c (send__connack C T SMP_MQTTS_BROKER 0 5)) :: ('p, unit) broker_comp) else ok ()) (\<lambda>_.
              bindE (context__disconnect c) (\<lambda>_. fail (Code MOSQ_ERR_NOMEM))))))
      | None \<Rightarrow>
          bindE (client_at c) (\<lambda>k.
          bindE (options_of k) (\<lambda>opts.
          if allow_anonymous opts then ok () else connect_refused C T c 5 MOSQ_ERR_NOMEM)))"

definition find_client :: "bytes \<Rightarrow> 'p client_context list \<Rightarrow> nat option" where
  "find_client cid ks = map_option fst (find (\<lambda>(_, k). k_id k = Some cid) (enumerate 0 ks))"

text \<open>The subscriptions of client \<open>f\<close> at the nodes it remembers become those of client \<open>c\<close>.\<close>

fun retarget_path :: "nat \<Rightarrow> nat \<Rightarrow> subhier \<Rightarrow> bytes list \<Rightarrow> subhier" where
  "retarget_path f c node [] = set_subs (map (\<lambda>l. if l_context l = f then l\<lparr>l_context := c\<rparr> else l) (sh_subs node)) node"
| "retarget_path f c node (t # ts) =
     (case find_child t (sh_children node) of
        None \<Rightarrow> node
      | Some branch \<Rightarrow> set_children (put_child (retarget_path f c branch ts) (sh_children node)) node)"

fun retarget_nodes :: "nat \<Rightarrow> nat \<Rightarrow> bytes list option list \<Rightarrow> ('p, unit) broker_comp" where
  "retarget_nodes f c [] = ok ()"
| "retarget_nodes f c (None # ps) = retarget_nodes f c ps"
| "retarget_nodes f c (Some p # ps) =
     bindE (asks (\<lambda>b. node_at (hier b) p)) (\<lambda>n.
     bindE (ensure (n \<noteq> None) Fault) (\<lambda>_.
     bindE (root_of p) (\<lambda>root.
     bindE (modify (\<lambda>b. put_root (retarget_path f c root (tl p)) b)) (\<lambda>_.
     retarget_nodes f c ps))))"

text \<open>
  A client with this id is there: its session is taken over, and it is disconnected. Its pointers to the
  last messages stay where they are, at messages that now are the other client's.
\<close>

definition take_messages :: "nat \<Rightarrow> nat \<Rightarrow> ('p, unit) broker_comp" where
  "take_messages c f =
     bindE (client_at f) (\<lambda>found.
     if inflight_msgs found = [] \<and> queued_msgs found = [] then ok ()
     else bindE (modify (upd_client c (\<lambda>k. k\<lparr>inflight_msgs := inflight_msgs found, queued_msgs := queued_msgs found\<rparr>))) (\<lambda>_.
          bindE (modify (upd_client f (\<lambda>k. k\<lparr>inflight_msgs := [], queued_msgs := [],
            lost_inflight := lost_inflight k \<or> inflight_msgs k \<noteq> [], lost_queued := lost_queued k \<or> queued_msgs k \<noteq> []\<rparr>))) (\<lambda>_.
          (ignore (db__message_reconnect_reset c) :: ('p, unit) broker_comp))))"

definition take_over :: "nat \<Rightarrow> bool \<Rightarrow> nat \<Rightarrow> ('p, byte) broker_comp" where
  "take_over c clean f =
     bindE (client_at c) (\<lambda>k.
     bindE (client_at f) (\<lambda>found.
     bindE (modify (upd_client c (\<lambda>k. k\<lparr>k_clean_session := clean\<rparr>))) (\<lambda>_.
     bindE (if \<not> clean \<and> \<not> k_clean_session found
            then bindE (take_messages c f) (\<lambda>_.
                 bindE (modify (upd_client c (\<lambda>k. k\<lparr>k_subs := k_subs found, k_last_mid := k_last_mid found\<rparr>))) (\<lambda>_.
                 bindE (modify (upd_client f (\<lambda>k. k\<lparr>k_subs := []\<rparr>))) (\<lambda>_.
                 retarget_nodes f c (k_subs found))))
            else ok ()) (\<lambda>_.
     bindE (modify (upd_client f (\<lambda>k. k\<lparr>k_clean_session := True, conn_state := mosq_cs_duplicate\<rparr>))) (\<lambda>_.
     bindE (do_disconnect f) (\<lambda>_.
     ok (if k_protocol k = mosq_p_mqtt311 \<and> \<not> clean then 1 else 0)))))))"

text \<open>
  Messages in flight, or waiting ones, that the client may no longer read are removed. The counters are left
  as they are, and so is the pointer to the last message: when that is removed, the pointer is lost.
\<close>

definition lose :: "bool \<Rightarrow> 'p client_context \<Rightarrow> 'p client_context" where
  "lose in_flight k = (if in_flight then k\<lparr>lost_inflight := True\<rparr> else k\<lparr>lost_queued := True\<rparr>)"

fun connection_check_acl :: "nat \<Rightarrow> bool \<Rightarrow> client_msg list \<Rightarrow> ('p, client_msg list) broker_comp" where
  "connection_check_acl c in_flight [] = ok []"
| "connection_check_acl c in_flight (m # ms) =
     bindE (if cm_direction m = mosq_md_out
            then bindE (store_at (cm_store m)) (\<lambda>s.
                 bindE (pure_res (case s_topic s of None \<Rightarrow> Inl Fault | Some t \<Rightarrow> Inr t)) (\<lambda>topic.
                 failed (mosquitto_acl_check c topic (s_payload s) (s_qos s) (s_retain s) MOSQ_ACL_READ)))
            else ok False) (\<lambda>denied.
     if denied
     then bindE (db__msg_store_deref (cm_store m)) (\<lambda>_.
          bindE (modify (upd_client c (\<lambda>k. if ms = [] then lose in_flight k else k))) (\<lambda>_.
          connection_check_acl c in_flight ms))
     else bindE (connection_check_acl c in_flight ms) (\<lambda>kept. ok (m # kept)))"

definition find_user :: "security_options \<Rightarrow> 'p client_context \<Rightarrow> 'p client_context" where
  "find_user opts k =
     (if sec_acl_list opts = [] then k\<lparr>k_acl_list := None\<rparr>
      else case find (\<lambda>u. au_username u = k_username k) (sec_acl_list opts) of
             None \<Rightarrow> k | Some u \<Rightarrow> k\<lparr>k_acl_list := Some u\<rparr>)"

definition finish_connect ::
    "('e, 'v) cbor_api \<Rightarrow> ('j, 'p) tom_api \<Rightarrow> nat \<Rightarrow> bytes \<Rightarrow> byte \<Rightarrow> bool \<Rightarrow> mosquitto_message option \<Rightarrow> byte \<Rightarrow>
     ('p, unit) broker_comp" where
  "finish_connect C T c cid version clean wl ack =
     bindE (client_at c) (\<lambda>k.
     bindE (asks per_listener_settings) (\<lambda>per_listener.
     bindE (ensure (\<not> (per_listener \<and> k_listener k = None)) (Code MOSQ_ERR_NOMEM)) (\<lambda>_.
     bindE (options_of k) (\<lambda>opts.
     bindE (modify (upd_client c (find_user opts))) (\<lambda>_.
     bindE (modify (upd_client c (\<lambda>k. k\<lparr>k_will := (if wl = None then k_will k else wl), k_id := Some cid,
       k_clean_session := clean, ping_t := 0, is_dropping := False,
       is_bridge := (is_bridge k \<or> version AND 0x80 = 0x80)\<rparr>))) (\<lambda>_.
     bindE (client_at c) (\<lambda>k.
     bindE (connection_check_acl c True (inflight_msgs k)) (\<lambda>kept.
     bindE (modify (upd_client c (\<lambda>k. k\<lparr>inflight_msgs := kept\<rparr>))) (\<lambda>_.
     bindE (connection_check_acl c False (queued_msgs k)) (\<lambda>kept.
     bindE (modify (upd_client c (\<lambda>k. k\<lparr>queued_msgs := kept\<rparr>))) (\<lambda>_.
     bindE (modify (\<lambda>b. if clean then b else b\<lparr>persistence_changes := persistence_changes b + 1\<rparr>)) (\<lambda>_.
     bindE (modify (upd_client c (\<lambda>k. k\<lparr>conn_state := mosq_cs_connected\<rparr>))) (\<lambda>_.
     run_on c (send__connack C T SMP_MQTTS_BROKER ack 0))))))))))))))"

text \<open>The id is the user name where the listener says so.\<close>

definition username_as_id ::
    "('e, 'v) cbor_api \<Rightarrow> ('j, 'p) tom_api \<Rightarrow> nat \<Rightarrow> bytes \<Rightarrow> ('p, bytes) broker_comp" where
  "username_as_id C T c cid =
     bindE (client_at c) (\<lambda>k.
     case k_listener k of None \<Rightarrow> ok cid
     | Some l \<Rightarrow> if \<not> use_username_as_clientid l then ok cid
                else (case k_username k of Some u \<Rightarrow> strdup u MOSQ_ERR_NOMEM
                      | None \<Rightarrow> connect_refused C T c 5 MOSQ_ERR_NOMEM))"

definition handle__connect ::
    "('e, 'v) cbor_api \<Rightarrow> ('j, 'p) tom_api \<Rightarrow> bytes \<Rightarrow> nat \<Rightarrow> ('p, unit) broker_comp" where
  "handle__connect C T uuid c =
     bindE (client_at c) (\<lambda>k.
     bindE (ensure (k_listener k \<noteq> None) (Code MOSQ_ERR_INVAL)) (\<lambda>_.
     bindE (ensure (conn_state k = mosq_cs_new) (Code MOSQ_ERR_PROTOCOL)) (\<lambda>_.
     bindE (read_protocol C T c) (\<lambda>version.
     bindE (or_1 (run_on c packet__read_byte)) (\<lambda>flags.
     bindE (client_at c) (\<lambda>k.
     bindE (ensure (\<not> (k_protocol k = mosq_p_mqtt311 \<and> flags AND 0x01 \<noteq> 0)) (Code MOSQ_ERR_PROTOCOL)) (\<lambda>_.
     bindE (ok (flags AND 0x02 \<noteq> 0)) (\<lambda>clean.
     bindE (ensure (flags AND 0x18 \<noteq> 0x18) (Code MOSQ_ERR_PROTOCOL)) (\<lambda>_.
     bindE (or_1 (run_on c packet__read_uint16)) (\<lambda>keepalive.
     bindE (modify (upd_client c (\<lambda>k. k\<lparr>c_keepalive := keepalive\<rparr>))) (\<lambda>_.
     bindE (read_client_id C T uuid c clean) (\<lambda>cid.
     bindE (read_will c flags) (\<lambda>wl.
     bindE (read_login c flags) (\<lambda>(user, pass).
     bindE (client_at c) (\<lambda>k.
     bindE (ensure (pos (in_packet k) = remaining_length (in_packet k)) (Code MOSQ_ERR_PROTOCOL)) (\<lambda>_.
     bindE (check_login C T c cid user pass) (\<lambda>_.
     bindE (username_as_id C T c cid) (\<lambda>cid.
     bindE (asks (\<lambda>b. find_client cid (contexts b))) (\<lambda>found.
     bindE (case found of None \<Rightarrow> ok 0 | Some f \<Rightarrow> take_over c clean f) (\<lambda>ack.
     finish_connect C T c cid version clean wl ack))))))))))))))))))))"

section \<open>The CONNACK of a bridge (src/handle_connack.c)\<close>

definition send__subscribe_broker ::
    "('e, 'v) cbor_api \<Rightarrow> ('j, 'p) tom_api \<Rightarrow> nat \<Rightarrow> bytes \<Rightarrow> byte \<Rightarrow> ('p, unit) broker_comp" where
  "send__subscribe_broker C T c topic qos =
     bindE (mosquitto__calloc MOSQ_ERR_NOMEM) (\<lambda>_.
     bindE (packet__alloc (fresh_packet\<lparr>command := SUBSCRIBE OR push_bit 1 1,
       remaining_length := u32 (2 + 2 + length topic + 1)\<rparr>)) (\<lambda>p.
     bindE (draw_client_mid c) (\<lambda>mid.
     bindE (fill_packet (subscribe_fields mid topic qos) p) (\<lambda>q.
     run_on c (packet__queue C T SMP_MQTTS_BROKER q)))))"

definition send__unsubscribe_broker ::
    "('e, 'v) cbor_api \<Rightarrow> ('j, 'p) tom_api \<Rightarrow> nat \<Rightarrow> bytes \<Rightarrow> ('p, unit) broker_comp" where
  "send__unsubscribe_broker C T c topic =
     bindE (mosquitto__calloc MOSQ_ERR_NOMEM) (\<lambda>_.
     bindE (packet__alloc (fresh_packet\<lparr>command := UNSUBSCRIBE OR push_bit 1 1,
       remaining_length := u32 (2 + 2 + length topic)\<rparr>)) (\<lambda>p.
     bindE (draw_client_mid c) (\<lambda>mid.
     bindE (fill_packet (unsubscribe_fields mid topic) p) (\<lambda>q.
     run_on c (packet__queue C T SMP_MQTTS_BROKER q)))))"

text \<open>The notification that the bridge is up.\<close>

definition notify_up ::
    "('e, 'v) cbor_api \<Rightarrow> ('j, 'p) tom_api \<Rightarrow> nat \<Rightarrow> bridge \<Rightarrow> ('p, unit) broker_comp" where
  "notify_up C T c br =
     bindE (client_at c) (\<lambda>k.
     bindE (case br_notification_topic br of Some t \<Rightarrow> ok t
            | None \<Rightarrow> bindE (pure_res (case br_remote_clientid br of None \<Rightarrow> Inl Fault | Some i \<Rightarrow> Inr i)) (\<lambda>i.
                      bindE (mosquitto__malloc (length i + 30) MOSQ_ERR_NOMEM) (\<lambda>_.
                      ok (cstr ''$SYS/broker/connection/'' @ i @ cstr ''/state'')))) (\<lambda>topic.
     bindE (if br_notifications_local_only br then ok ()
            else bindE (draw_client_mid c) (\<lambda>mid.
                 or_1 (run_on c (send__real_publish C T SMP_MQTTS_BROKER mid topic (cstr ''1'') 1 True False)))) (\<lambda>_.
     (ignore (db__messages_easy_queue (k_id k) topic 1 (cstr ''1'') True) :: ('p, unit) broker_comp))))"

fun subscribe_remote ::
    "('e, 'v) cbor_api \<Rightarrow> ('j, 'p) tom_api \<Rightarrow> nat \<Rightarrow> bool \<Rightarrow> bridge_topic list \<Rightarrow> ('p, unit) broker_comp" where
  "subscribe_remote C T c unsub [] = ok ()"
| "subscribe_remote C T c unsub (t # ts) =
     bindE (if bt_direction t = bd_out \<and> \<not> unsub then ok ()
            else bindE (pure_res (case bt_remote_topic t of None \<Rightarrow> Inl Fault | Some s \<Rightarrow> Inr s)) (\<lambda>topic.
                 or_1 (if bt_direction t \<noteq> bd_out then send__subscribe_broker C T c topic (word_of_nat (bt_qos t))
                       else send__unsubscribe_broker C T c topic))) (\<lambda>_.
     subscribe_remote C T c unsub ts)"

text \<open>Any client's CONNACK is taken: only what is sent in answer depends on being a bridge.\<close>

definition handle__connack_broker ::
    "('e, 'v) cbor_api \<Rightarrow> ('j, 'p) tom_api \<Rightarrow> nat \<Rightarrow> ('p, unit) broker_comp" where
  "handle__connack_broker C T c =
     bindE (or_1 (run_on c packet__read_byte)) (\<lambda>_.
     bindE (or_1 (run_on c packet__read_byte)) (\<lambda>result.
     bindE (ensure (result = 0) (Code MOSQ_ERR_NOMEM)) (\<lambda>_.
     bindE (client_at c) (\<lambda>k.
     bindE (case k_bridge k of None \<Rightarrow> ok ()
            | Some br \<Rightarrow> bindE (if br_notifications br then notify_up C T c br else ok ()) (\<lambda>_.
                        subscribe_remote C T c (br_attempt_unsubscribe br) (br_topics br))) (\<lambda>_.
     modify (upd_client c (\<lambda>k. k\<lparr>conn_state := mosq_cs_connected\<rparr>)))))))"

section \<open>The dispatch (src/read_handle.c)\<close>

definition ended :: "('p, unit) broker_comp \<Rightarrow> ('p, bool) broker_comp" where
  "ended m = bindE m (\<lambda>_. ok True)"

definition handle__packet_broker ::
    "('e, 'v) cbor_api \<Rightarrow> ('j, 'p) tom_api \<Rightarrow> bytes \<Rightarrow> nat \<Rightarrow> nat \<Rightarrow> ('p, bool) broker_comp" where
  "handle__packet_broker C T uuid fuel c =
     bindE (client_at c) (\<lambda>k.
     bindE (ok (command (in_packet k) AND 0xF0)) (\<lambda>cmd.
     if cmd = PINGREQ then ended (handle__pingreq_broker C T c)
     else if cmd = PINGRESP then ended (handle__pingresp_broker c)
     else if cmd = PUBACK \<or> cmd = PUBCOMP then handle__pubackcomp_broker C T fuel c
     else if cmd = PUBLISH then ended (handle__publish_broker C T c)
     else if cmd = PUBREC then ended (handle__pubrec_broker C T c)
     else if cmd = PUBREL then handle__pubrel_broker C T fuel c
     else if cmd = CONNECT then ended (handle__connect C T uuid c)
     else if cmd = DISCONNECT then ended (handle__disconnect_broker c)
     else if cmd = SUBSCRIBE then ended (handle__subscribe_broker C T c)
     else if cmd = UNSUBSCRIBE then ended (handle__unsubscribe_broker C T c)
     else if cmd = CONNACK then ended (handle__connack_broker C T c)
     else if cmd = SUBACK then ended (handle__suback_broker c)
     else if cmd = UNSUBACK then ended (handle__unsuback_broker c)
     else fail (Code MOSQ_ERR_PROTOCOL)))"

end
