(* ===== verification/SubsFacts.thy ===== *)
theory SubsFacts
  imports Subs Frames
begin

text \<open>
  The subscription tree as a map from filters to subscriptions: tokens, the nodes of a tree with their
  paths, which of them a search visits, and what adding and removing does to the map.
\<close>

section \<open>Tokens are levels\<close>

definition tokens :: "bytes \<Rightarrow> bytes list" where
  "tokens s = (if s \<noteq> [] \<and> hd s = DOLLAR then levels s else [] # levels s)"

definition tree_path :: "bytes \<Rightarrow> bytes list" where
  "tree_path s = hd (tokens s) # tokens s"

lemma tokens_ne [simp]: "tokens s \<noteq> []"
  by (simp add: tokens_def)

lemma tokenise_from_levels:
  "tokenise_from tok s b = (Inr ts, b') \<Longrightarrow> ts = (tok @ hd (levels s)) # tl (levels s)"
proof (induction tok s arbitrary: ts b b' rule: tokenise_from.induct)
  case (1 tok)
  then show ?case by (auto simp: bindE_eq_Inr ok_eq_Inr)
next
  case (2 tok x xs)
  show ?case
  proof (cases "x = SLASH")
    case True
    then obtain us v where "tokenise_from [] xs v = (Inr us, b')" "ts = tok # us"
      using "2.prems" by (fastforce simp: bindE_eq_Inr ok_eq_Inr)
    then show ?thesis using "2.IH"(1) [OF True] True by simp
  next
    case False
    then have "tokenise_from (tok @ [x]) xs b = (Inr ts, b')" using "2.prems" by simp
    from "2.IH"(2) [OF False this] show ?thesis using False by (cases "levels xs") auto
  qed
qed

lemma hd_tl_levels: "hd (levels s) # tl (levels s) = levels s"
  by (cases "levels s") auto

lemma case_levels: "(case levels s of [] \<Rightarrow> [[c]] | l # ls \<Rightarrow> (c # l) # ls) = (c # hd (levels s)) # tl (levels s)"
  by (cases "levels s") auto

lemma tokenise_tokens: "sub__topic_tokenise s b = (Inr ts, b') \<Longrightarrow> ts = tokens s"
  by (cases s) (auto simp: sub__topic_tokenise_def Let_def tokens_def bindE_eq_Inr ok_eq_Inr hd_tl_levels case_levels
      split: if_splits dest!: tokenise_from_levels)

lemma calm_uhpa [simp]: "calm w \<Longrightarrow> uhpa_alloc n e w = (Inr (), w)"
  by (simp add: uhpa_alloc_def bindE_def ok_def)

lemma calm_append [simp]: "calm b \<Longrightarrow> sub__topic_append t b = (Inr (), b)"
  by (simp add: sub__topic_append_def bindE_def)

lemma calm_tokenise_from: "calm b \<Longrightarrow> \<exists>ts. tokenise_from tok s b = (Inr ts, b)"
  by (induction tok s rule: tokenise_from.induct) (auto simp: bindE_def ok_def)

lemma calm_tokenise: "calm b \<Longrightarrow> sub__topic_tokenise s b = (Inr (tokens s), b)"
proof -
  assume c: "calm b"
  obtain ts us where "tokenise_from [] s b = (Inr ts, b)" "tokenise_from [] (tl s) b = (Inr us, b)"
    using calm_tokenise_from [OF c] by blast
  then have "\<exists>ts. sub__topic_tokenise s b = (Inr ts, b)"
    using c by (auto simp: sub__topic_tokenise_def Let_def bindE_def ok_def)
  then show ?thesis using tokenise_tokens by blast
qed

section \<open>Nodes and their paths\<close>

lemma size_children [termination_simp]: "size_list size (sh_children n) < Suc (size n + k)"
  by (cases n) simp

fun nodes :: "subhier list \<Rightarrow> (bytes list \<times> subhier) list" where
  "nodes [] = []"
| "nodes (n # ns) = ([sh_topic n], n) # map (\<lambda>(p, m). (sh_topic n # p, m)) (nodes (sh_children n)) @ nodes ns"

text \<open>Siblings have different topics, and nothing is below a \<open>#\<close>.\<close>

fun tree_ok :: "subhier list \<Rightarrow> bool" where
  "tree_ok [] \<longleftrightarrow> True"
| "tree_ok (n # ns) \<longleftrightarrow> sh_topic n \<notin> sh_topic ` set ns \<and> (sh_topic n = [HASH] \<longrightarrow> sh_children n = []) \<and>
     tree_ok (sh_children n) \<and> tree_ok ns"

lemma find_child_Some: "find_child t ns = Some n \<Longrightarrow> n \<in> set ns \<and> sh_topic n = t"
  by (induction ns) (auto split: if_splits)

lemma find_child_None: "find_child t ns = None \<longleftrightarrow> t \<notin> sh_topic ` set ns"
  by (induction ns) auto

lemma find_put [simp]: "find_child t (put_child n ns) = (if t = sh_topic n then Some n else find_child t ns)"
  by (induction ns) auto

lemma find_append [simp]:
  "find_child t (ns @ [n]) = (case find_child t ns of Some m \<Rightarrow> Some m | None \<Rightarrow> if t = sh_topic n then Some n else None)"
  by (induction ns) auto

lemma find_drop: "tree_ok ns \<Longrightarrow> find_child t (drop_child u ns) = (if t = u then None else find_child t ns)"
  by (induction ns) (auto simp: find_child_None)

lemma tree_ok_find: "tree_ok ns \<Longrightarrow> n \<in> set ns \<Longrightarrow> find_child (sh_topic n) ns = Some n"
  by (induction ns) auto

lemma tree_ok_child: "tree_ok ns \<Longrightarrow> n \<in> set ns \<Longrightarrow> tree_ok (sh_children n) \<and> (sh_topic n = [HASH] \<longrightarrow> sh_children n = [])"
  by (induction ns) auto

lemma topics_put: "sh_topic ` set (put_child n ns) = insert (sh_topic n) (sh_topic ` set ns)"
  by (induction ns) auto

lemma topics_drop: "sh_topic ` set (drop_child t ns) \<subseteq> sh_topic ` set ns"
  by (induction ns) auto

lemma tree_ok_put:
  "tree_ok ns \<Longrightarrow> tree_ok (sh_children n) \<Longrightarrow> (sh_topic n = [HASH] \<Longrightarrow> sh_children n = []) \<Longrightarrow> tree_ok (put_child n ns)"
  by (induction ns) (auto simp: topics_put)

lemma tree_ok_drop: "tree_ok ns \<Longrightarrow> tree_ok (drop_child t ns)"
proof (induction ns)
  case (Cons n ns)
  then show ?case using topics_drop [of t ns] by auto
qed simp

lemma put_new: "t \<notin> sh_topic ` set ns \<Longrightarrow> sh_topic n = t \<Longrightarrow> put_child n ns = ns @ [n]"
  by (induction ns) auto

lemma nodes_node_at:
  "tree_ok ns \<Longrightarrow> (p, n) \<in> set (nodes ns) \<longleftrightarrow> p \<noteq> [] \<and> node_at ns p = Some n"
proof (induction ns arbitrary: p n rule: nodes.induct)
  case 1
  show ?case by (cases p rule: remdups_adj.cases) auto
next
  case (2 m ns)
  consider "p = []" | t where "p = [t]" | t u p' where "p = t # u # p'" by (cases p rule: remdups_adj.cases) auto
  then show ?case
  proof cases
    case 1
    then show ?thesis using 2 by auto
  next
    case (2 t)
    have "(\<exists>q. (q, n) \<in> set (nodes (sh_children m)) \<and> [t] = sh_topic m # q) \<longleftrightarrow> False"
      using "2.IH"(1) "2.prems" by auto
    then have "(p, n) \<in> set (nodes (m # ns)) \<longleftrightarrow> t = sh_topic m \<and> n = m \<or> node_at ns [t] = Some n"
      using "2.IH"(2) [of p] "2.prems" 2 by auto
    moreover have "find_child (sh_topic m) ns = None" using "2.prems" by (simp add: find_child_None)
    ultimately show ?thesis using 2 by auto
  next
    case (3 t u p')
    have "(p, n) \<in> set (nodes (m # ns)) \<longleftrightarrow>
        t = sh_topic m \<and> node_at (sh_children m) (u # p') = Some n \<or> node_at ns p = Some n"
      using "2.IH"(1) [of "u # p'"] "2.IH"(2) [of p] "2.prems" 3 by auto
    moreover have "find_child (sh_topic m) ns = None" using "2.prems" by (simp add: find_child_None)
    ultimately show ?thesis using 3 by (auto split: option.splits)
  qed
qed

section \<open>What a search visits\<close>

fun visits :: "bool \<Rightarrow> subhier list \<Rightarrow> bytes list \<Rightarrow> (bool \<times> subhier) list" where
  "visits set_ret [] ts = []"
| "visits set_ret (n # ns) ts =
     (if ts \<noteq> [] \<and> (sh_topic n = hd ts \<or> sh_topic n = [PLUS])
      then visits (set_ret \<and> sh_topic n \<noteq> [PLUS]) (sh_children n) (tl ts) @
           (if tl ts = [] then [(set_ret \<and> sh_topic n \<noteq> [PLUS], n)] else [])
      else if sh_topic n = [HASH] \<and> sh_children n = [] then [(False, n)] else []) @ visits set_ret ns ts"

section \<open>A search runs its action on the nodes it visits\<close>

text \<open>The tree without its retained messages, which are all a search changes in it.\<close>

fun strip :: "subhier \<Rightarrow> subhier" where
  "strip (Subhier t cs ls r) = Subhier t (map strip cs) ls None"

lemma strip_fields [simp]:
  "sh_topic (strip n) = sh_topic n" "sh_subs (strip n) = sh_subs n" "sh_children (strip n) = map strip (sh_children n)"
  by (cases n; simp)+

lemma strip_set_retained [simp]: "strip (set_retained r n) = strip n"
  by (cases n) (simp add: set_retained_def)

lemma find_strip: "find_child t (map strip ns) = map_option strip (find_child t ns)"
  by (induction ns) auto

lemma node_at_strip: "node_at (map strip ns) p = map_option strip (node_at ns p)"
  by (induction ns p rule: node_at.induct) (auto simp: find_strip split: option.splits)

lemma tree_ok_strip: "tree_ok (map strip ns) = tree_ok ns"
  by (induction ns rule: tree_ok.induct) (auto simp: image_iff)

locale node_action =
  fixes act :: "bool \<Rightarrow> subhier \<Rightarrow> ('s, 'e, subhier) comp"
    and eff :: "bool \<Rightarrow> subleaf list \<Rightarrow> nat option \<Rightarrow> ('s, 'e, nat option) comp"
  assumes act_eff: "act sr n = bindE (eff sr (sh_subs n) (sh_retained n)) (\<lambda>r. ok (set_retained r n))"
begin

fun visit_all :: "(bool \<times> subhier) list \<Rightarrow> ('s, 'e, unit) comp" where
  "visit_all [] = ok ()"
| "visit_all ((sr, n) # vs) = bindE (eff sr (sh_subs n) (sh_retained n)) (\<lambda>_. visit_all vs)"

lemma visit_append: "visit_all (vs @ ws) s = bindE (visit_all vs) (\<lambda>_. visit_all ws) s"
  by (induction vs arbitrary: s) (auto simp: ok_def bindE_def split: prod.splits sum.splits)

definition goes_as :: "('s, 'e, subhier list) comp \<Rightarrow> (bool \<times> subhier) list \<Rightarrow> subhier list \<Rightarrow> bool" where
  "goes_as m vs ns \<longleftrightarrow> (\<forall>s. case visit_all vs s of (Inl e, s') \<Rightarrow> m s = (Inl e, s')
     | (Inr _, s') \<Rightarrow> (\<exists>ms. m s = (Inr ms, s') \<and> map strip ms = map strip ns))"

lemma goes_seq:
  assumes "goes_as m vs ns" and "\<And>ms. map strip ms = map strip ns \<Longrightarrow> goes_as (k ms) ws us"
  shows "goes_as (bindE m k) (vs @ ws) us"
  unfolding goes_as_def
proof
  fix s
  obtain q t where q: "visit_all vs s = (q, t)" by fastforce
  show "case visit_all (vs @ ws) s of (Inl e, s') \<Rightarrow> bindE m k s = (Inl e, s')
     | (Inr _, s') \<Rightarrow> (\<exists>ms. bindE m k s = (Inr ms, s') \<and> map strip ms = map strip us)"
  proof (cases q)
    case (Inl e)
    then have "m s = (Inl e, t)" using assms(1) q by (auto simp: goes_as_def dest: spec [of _ s])
    then show ?thesis using q Inl by (simp add: visit_append bindE_def)
  next
    case (Inr u)
    have "case visit_all vs s of (Inl e, s') \<Rightarrow> m s = (Inl e, s')
        | (Inr _, s') \<Rightarrow> (\<exists>ms. m s = (Inr ms, s') \<and> map strip ms = map strip ns)"
      by (rule spec [OF assms(1) [unfolded goes_as_def]])
    then obtain ms where "m s = (Inr ms, t)" "map strip ms = map strip ns"
      using q Inr by auto
    then have k: "bindE m k s = k ms t" "goes_as (k ms) ws us" using assms(2) by (simp_all add: bindE_def)
    have v: "visit_all (vs @ ws) s = visit_all ws t" using q Inr by (simp add: visit_append bindE_def)
    show ?thesis unfolding k(1) v by (rule spec [OF k(2) [unfolded goes_as_def]])
  qed
qed

lemma goes_ok: "map strip ms = map strip ns \<Longrightarrow> goes_as (ok ms) [] ns"
  by (simp add: goes_as_def ok_def)

lemma goes_act:
  assumes "strip n' = strip n" and "sh_retained n' = sh_retained n"
  shows "goes_as (bindE (act sr n') (\<lambda>m. ok [m])) [(sr, n)] [n]"
proof -
  have "sh_subs n' = sh_subs n" using assms(1) by (metis strip_fields(2))
  then show ?thesis
    using assms by (auto simp: goes_as_def act_eff bindE_def ok_def split: prod.splits sum.splits)
qed

lemma search_as_step:
  assumes "goes_as (bindE m (\<lambda>n. ok [n])) vs [x]" and "goes_as m' ws ns"
  shows "goes_as (bindE m (\<lambda>n. bindE m' (\<lambda>nodes. ok (n # nodes)))) (vs @ ws) (x # ns)"
proof -
  have e: "bindE m (\<lambda>n. bindE m' (\<lambda>nodes. ok (n # nodes))) =
      bindE (bindE m (\<lambda>n. ok [n])) (\<lambda>ns1. bindE m' (\<lambda>nodes. ok (hd ns1 # nodes)))"
    by (rule ext) (auto simp: bindE_def ok_def split: prod.splits sum.splits)
  show ?thesis
    unfolding e
  proof (rule goes_seq [OF assms(1)])
    fix ms assume ms: "map strip ms = map strip [x]"
    have "goes_as (bindE m' (\<lambda>nodes. ok (hd ms # nodes))) (ws @ []) (x # ns)"
      by (rule goes_seq [OF assms(2)], rule goes_ok) (use ms in auto)
    then show "goes_as (bindE m' (\<lambda>nodes. ok (hd ms # nodes))) ws (x # ns)" by simp
  qed
qed

lemma search_goes: "goes_as (sub__search act sr ns ts) (visits sr ns ts) ns"
proof (induction sr ns ts rule: visits.induct)
  case (1 sr ts)
  show ?case by (simp add: goes_ok)
next
  case (2 sr n rest ts)
  obtain t cs ls r where n: "n = Subhier t cs ls r" by (cases n)
  have assoc: "bindE (bindE m k) f = bindE m (\<lambda>x. bindE (k x) f)" for m :: "('s, 'e, 'x) comp" and k :: "'x \<Rightarrow> ('s, 'e, 'y) comp"
      and f :: "'y \<Rightarrow> ('s, 'e, 'w) comp"
    by (rule ext) (auto simp: bindE_def split: prod.splits sum.splits)
  have st: "strip (Subhier t ms ls r) = strip n" if "map strip ms = map strip cs" for ms
    using that n by simp
  show ?case
  proof (cases "ts \<noteq> [] \<and> (t = hd ts \<or> t = [PLUS])")
    case True
    let ?sr = "sr \<and> t \<noteq> [PLUS]"
    have below: "goes_as (sub__search act ?sr cs (tl ts)) (visits ?sr cs (tl ts)) cs"
      using "2.IH"(1) True n by simp
    have act: "goes_as (bindE (if tl ts = [] then act ?sr (Subhier t ms ls r) else ok (Subhier t ms ls r)) (\<lambda>m. ok [m]))
        (if tl ts = [] then [(?sr, n)] else []) [n]" if ms: "map strip ms = map strip cs" for ms
    proof (cases "tl ts = []")
      case True
      then show ?thesis using goes_act [OF st [OF ms], of ?sr] n by simp
    next
      case False
      have "bindE (ok (Subhier t ms ls r)) (\<lambda>m. ok [m]) = (ok [Subhier t ms ls r] :: ('s, 'e, subhier list) comp)"
        by (rule ext) (simp add: bindE_def ok_def)
      then show ?thesis using False goes_ok [of "[Subhier t ms ls r]" "[n]"] st [OF ms] by simp
    qed
    have "goes_as (bindE (bindE (sub__search act ?sr cs (tl ts)) (\<lambda>cs'.
        if tl ts = [] then act ?sr (Subhier t cs' ls r) else ok (Subhier t cs' ls r))) (\<lambda>m. ok [m]))
      (visits ?sr cs (tl ts) @ (if tl ts = [] then [(?sr, n)] else [])) [n]"
      unfolding assoc by (rule goes_seq [OF below act])
    from search_as_step [OF this "2.IH"(2)] show ?thesis
      by (simp only: n sub__search.simps visits.simps subhier.sel if_P [OF True])
  next
    case False
    have "goes_as (bindE (if t = [HASH] \<and> cs = [] then act False n else ok n) (\<lambda>m. ok [m]))
        (if t = [HASH] \<and> cs = [] then [(False, n)] else []) [n]"
    proof (cases "t = [HASH] \<and> cs = []")
      case True
      then show ?thesis using goes_act [of n n False] by simp
    next
      case False
      have "bindE (ok n) (\<lambda>m. ok [m]) = (ok [n] :: ('s, 'e, subhier list) comp)"
        by (rule ext) (simp add: bindE_def ok_def)
      then show ?thesis using goes_ok [of "[n]" "[n]"] by (simp only: if_not_P [OF False])
    qed
    from search_as_step [OF this "2.IH"(2)] show ?thesis
      by (simp only: n sub__search.simps visits.simps subhier.sel if_not_P [OF False])
  qed
qed

end

text \<open>The action of the broker.\<close>

definition process_effect ::
    "bytes option \<Rightarrow> bytes \<Rightarrow> nat \<Rightarrow> bool \<Rightarrow> nat \<Rightarrow> bool \<Rightarrow> subleaf list \<Rightarrow> nat option \<Rightarrow> ('p, nat option) broker_comp" where
  "process_effect source_id topic qos retain a set_ret ls r =
     bindE (if retain \<and> set_ret then bindE (retain_here (Subhier [] [] [] r) topic a) (\<lambda>n. ok (sh_retained n)) else ok r) (\<lambda>r'.
     bindE (case source_id of None \<Rightarrow> ok ()
            | Some src \<Rightarrow> (ignore (deliver_all ls src topic qos retain a) :: ('p, unit) broker_comp)) (\<lambda>_.
     ok r'))"

lemma retain_here_retained:
  "retain_here (Subhier t cs ls r) topic a b =
     (case retain_here (Subhier [] [] [] r) topic a b of (Inl e, b') \<Rightarrow> (Inl e, b')
      | (Inr n, b') \<Rightarrow> (Inr (Subhier t cs ls (sh_retained n)), b'))"
  by (cases r) (simp_all add: retain_here_def set_retained_def bindE_def ok_def modify_def split: prod.split sum.split)

interpretation publish: node_action "subs__process source_id topic qos retain a" "process_effect source_id topic qos retain a"
proof
  fix sr and n :: subhier
  obtain t cs ls r where n: "n = Subhier t cs ls r" by (cases n)
  show "subs__process source_id topic qos retain a sr n =
      bindE (process_effect source_id topic qos retain a sr (sh_subs n) (sh_retained n)) (\<lambda>r. ok (set_retained r n))"
  proof (rule ext)
    fix b
    obtain q b1 where q: "retain_here (Subhier [] [] [] r) topic a b = (q, b1)" by fastforce
    show "subs__process source_id topic qos retain a sr n b =
      bindE (process_effect source_id topic qos retain a sr (sh_subs n) (sh_retained n)) (\<lambda>r. ok (set_retained r n)) b"
    proof (cases "retain \<and> sr")
      case True
      show ?thesis
        unfolding n subs__process_def process_effect_def if_P [OF True]
        by (cases q; cases source_id)
          (simp_all add: q retain_here_retained [of t cs ls] bindE_def ok_def set_retained_def split: prod.split sum.split)
    next
      case False
      show ?thesis
        unfolding n subs__process_def process_effect_def if_not_P [OF False]
        by (cases source_id) (simp_all add: bindE_def ok_def set_retained_def split: prod.split sum.split)
    qed
  qed
qed

section \<open>The tree as a map\<close>

text \<open>The subscriptions below a node: at itself, or at the end of a path.\<close>

definition below :: "subhier \<Rightarrow> bytes list \<Rightarrow> subleaf list" where
  "below n ts = (if ts = [] then sh_subs n else case node_at (sh_children n) ts of None \<Rightarrow> [] | Some m \<Rightarrow> sh_subs m)"

lemma below_Nil [simp]: "below n [] = sh_subs n"
  by (simp add: below_def)

lemma below_Cons: "below n (t # ts) = (case find_child t (sh_children n) of None \<Rightarrow> [] | Some m \<Rightarrow> below m ts)"
  by (cases ts) (auto simp: below_def split: option.splits)

lemma node_parts [simp]:
  "sh_topic (set_children cs n) = sh_topic n" "sh_subs (set_children cs n) = sh_subs n"
  "sh_children (set_children cs n) = cs" "sh_retained (set_children cs n) = sh_retained n"
  "sh_topic (set_subs ls n) = sh_topic n" "sh_subs (set_subs ls n) = ls"
  "sh_children (set_subs ls n) = sh_children n" "sh_retained (set_subs ls n) = sh_retained n"
  by (simp_all add: set_children_def set_subs_def)

lemma below_fresh: "sh_children n = [] \<Longrightarrow> sh_subs n = [] \<Longrightarrow> below n ts = []"
  by (cases ts) (auto simp: below_Cons)

lemma below_bare: "bare n \<Longrightarrow> below n ts = []"
  by (rule below_fresh) (simp_all add: bare_def)

text \<open>A child is replaced, added or dropped.\<close>

lemma below_put:
  "below (set_children (put_child m (sh_children n)) n) ts =
     (case ts of [] \<Rightarrow> sh_subs n | t # us \<Rightarrow> if t = sh_topic m then below m us else below n ts)"
  by (cases ts) (auto simp: below_Cons)

lemma below_drop:
  "tree_ok (sh_children n) \<Longrightarrow> below (set_children (drop_child u (sh_children n)) n) ts =
     (case ts of [] \<Rightarrow> sh_subs n | t # us \<Rightarrow> if t = u then [] else below n ts)"
  by (cases ts) (auto simp: below_Cons find_drop)

text \<open>What subscribing does to the list at a filter.\<close>

definition subscribe_leaf :: "(nat \<Rightarrow> bytes option) \<Rightarrow> nat \<Rightarrow> nat \<Rightarrow> subleaf list \<Rightarrow> subleaf list" where
  "subscribe_leaf ids c qos ls = (case ids c of None \<Rightarrow> ls
     | Some cid \<Rightarrow> (case renew_leaf ids cid qos ls of Some ls' \<Rightarrow> ls' | None \<Rightarrow> ls @ [\<lparr>l_context = c, l_qos = qos\<rparr>]))"

definition unsubscribe_leaf :: "nat \<Rightarrow> subleaf list \<Rightarrow> subleaf list" where
  "unsubscribe_leaf c ls = (case drop_leaf c ls of None \<Rightarrow> ls | Some ls' \<Rightarrow> ls')"

text \<open>
  What most routines leave alone: the ids of the clients, the tree, and what the stored messages say
  (which may be freed).
\<close>

definition stored_kept :: "(nat \<Rightarrow> msg_store option) \<Rightarrow> (nat \<Rightarrow> msg_store option) \<Rightarrow> bool" where
  "stored_kept h h' \<longleftrightarrow> (\<forall>a s'. h' a = Some s' \<longrightarrow> (\<exists>s. h a = Some s \<and> s_payload s' = s_payload s \<and> s_topic s' = s_topic s))"

definition same_clients :: "'p broker \<Rightarrow> 'p broker \<Rightarrow> bool" where
  "same_clients b b' \<longleftrightarrow> map k_id (contexts b') = map k_id (contexts b) \<and> hier b' = hier b \<and> stored_kept (heap b) (heap b')"

lemma stored_kept_refl [simp]: "stored_kept h h"
  by (simp add: stored_kept_def)

lemma stored_kept_trans: "stored_kept h h' \<Longrightarrow> stored_kept h' h'' \<Longrightarrow> stored_kept h h''"
  by (fastforce simp: stored_kept_def)

interpretation sc: read_frame same_clients
  by unfold_locales (auto simp: same_clients_def libc_call_def intro: stored_kept_trans)

lemma sc_malloc: "frames same_clients (mosquitto__malloc n e)"
  by (auto simp: frames_def mosquitto__malloc_def split: prod.splits bool.splits dest!: sc.R_libc)

lemma sc_alloc: "frames same_clients (uhpa_alloc n e)" "frames same_clients (sub__add_hier_entry t)"
  "frames same_clients (sub__topic_append t)"
  unfolding uhpa_alloc_def sub__add_hier_entry_def sub__topic_append_def by (intro sc.frame_rules sc_malloc)+

lemma sc_tokenise_from: "frames same_clients (tokenise_from tok s)"
proof (induction tok s rule: tokenise_from.induct)
  case (1 tok)
  show ?case by (simp, intro conjI impI sc.frame_rules sc_alloc)
next
  case (2 tok x xs)
  then show ?case by (auto intro!: sc.frame_rules sc_alloc)
qed

lemma sc_tokenise: "frames same_clients (sub__topic_tokenise s)"
  unfolding sub__topic_tokenise_def Let_def by (intro sc.frame_rules sc_alloc sc_tokenise_from)

lemma sc_upd: "(\<And>k. k_id (f k) = k_id k) \<Longrightarrow> same_clients b (upd_client c f b)"
  by (auto simp: upd_client_def same_clients_def map_update list_update_id)
    (metis (no_types, lifting) length_map list_update_beyond list_update_id linorder_not_less nth_map)

lemma sc_client: "(\<And>k. k_id (f k) = k_id k) \<Longrightarrow> frames same_clients (modify (upd_client c f))"
  by (auto simp: frames_def modify_def intro: sc_upd)

lemma sc_client_at: "frames same_clients (client_at c)"
  unfolding client_at_def by (intro sc.frame_rules)

lemma sc_new_leaf: "frames same_clients (new_leaf c qos path)"
  unfolding new_leaf_def by (intro sc.frame_rules sc_malloc sc_client sc_client_at) simp_all

lemma sc_ids: "same_clients b b' \<Longrightarrow> client_ids b' = client_ids b"
  unfolding same_clients_def client_ids_def by (metis (no_types, lifting) length_map nth_map)

lemma sc_length: "same_clients b b' \<Longrightarrow> length (contexts b') = length (contexts b)"
  unfolding same_clients_def by (metis length_map)

section \<open>Adding\<close>

lemma add_leaf_subs:
  fixes b :: "'p broker"
  assumes run: "add_leaf (Some c) qos path node b = (Inr (rc, node'), b')" and "rc \<noteq> Add_nomem" and c: "c < length (contexts b)"
  shows "node' = set_subs (subscribe_leaf (client_ids b) c qos (sh_subs node)) node \<and> same_clients b b'"
proof -
  have k: "client_at c b = (Inr (contexts b ! c), b)" using c by (simp add: client_at_def bindE_def asks_def pure_res_def)
  have ss: "set_subs (sh_subs node) node = node" by (cases node) (simp add: set_subs_def)
  have sub: "frames same_clients (modify (\<lambda>b. b\<lparr>subscription_count := subscription_count b + 1\<rparr>))"
    by (auto simp: frames_def modify_def same_clients_def)
  show ?thesis
  proof (cases "k_id (contexts b ! c)")
    case None
    then show ?thesis using run k c ss by (simp add: add_leaf_def bindE_def asks_def ok_def subscribe_leaf_def client_ids_def
        sc.R_refl)
  next
    case (Some cid)
    show ?thesis
    proof (cases "renew_leaf (client_ids b) cid qos (sh_subs node)")
      case (Some ls)
      then show ?thesis using run k c \<open>k_id (contexts b ! c) = Some cid\<close>
        by (simp add: add_leaf_def bindE_def asks_def ok_def subscribe_leaf_def sc.R_refl)
          (simp add: client_ids_def)
    next
      case None
      let ?m = "(bindE (new_leaf c qos path) (\<lambda>_. bindE (modify (\<lambda>b. b\<lparr>subscription_count := subscription_count b + 1\<rparr>)) (\<lambda>_.
               ok (Add_done, set_subs (sh_subs node @ [\<lparr>l_context = c, l_qos = qos\<rparr>]) node)))) :: ('p, add_result \<times> subhier) broker_comp"
      have r: "(rescue ?m (\<lambda>e. if e = Fault then fail Fault else ok (Add_nomem, node)) :: ('p, add_result \<times> subhier) broker_comp) b = (Inr (rc, node'), b')"
        using run k None \<open>k_id (contexts b ! c) = Some cid\<close> by (simp add: add_leaf_def bindE_def [of "client_at c"] bindE_def [of "asks client_ids"] asks_def)
      have "?m b = (Inr (rc, node'), b')"
        using r assms(2) by (auto simp: rescue_def ok_def fail_def split: prod.splits sum.splits if_splits)
      note m = this
      have "frames same_clients ?m" by (intro sc.frame_rules sc_new_leaf sub)
      from framesD [OF this m] have "same_clients b b'" .
      moreover have "node' = set_subs (sh_subs node @ [\<lparr>l_context = c, l_qos = qos\<rparr>]) node"
        using m by (auto simp: bindE_eq_Inr ok_eq_Inr)
      ultimately have "same_clients b b'" "node' = set_subs (sh_subs node @ [\<lparr>l_context = c, l_qos = qos\<rparr>]) node"
        by simp_all
      then show ?thesis using None \<open>k_id (contexts b ! c) = Some cid\<close> c
        by (simp add: subscribe_leaf_def) (simp add: client_ids_def)
    qed
  qed
qed

lemma add_below:
  fixes b :: "'p broker"
  assumes "sub__add_recurse (Some c) qos path node ts b = (Inr (rc, node'), b')" and "rc \<noteq> Add_nomem"
    and "tree_ok (sh_children node)" and "filter_ok ts" and "c < length (contexts b)"
  shows "sh_topic node' = sh_topic node \<and> sh_retained node' = sh_retained node \<and> tree_ok (sh_children node') \<and>
    (ts = [] \<longrightarrow> sh_children node' = sh_children node) \<and> same_clients b b' \<and>
    (\<forall>us. below node' us = (if us = ts then subscribe_leaf (client_ids b) c qos (below node us) else below node us))"
  using assms
proof (induction ts arbitrary: path node b rc node' b')
  case Nil
  then have "node' = set_subs (subscribe_leaf (client_ids b) c qos (sh_subs node)) node \<and> same_clients b b'"
    using add_leaf_subs by simp
  then show ?case using Nil.prems(3) by (auto simp: below_Cons neq_Nil_conv)
next
  case (Cons t ts)
  have f: "filter_ok ts" using Cons.prems(4) by simp
  have hash: "t = [HASH] \<Longrightarrow> ts = []" using Cons.prems(4) by (auto simp: plain_def)
  show ?case
  proof (cases "find_child t (sh_children node)")
    case (Some br)
    obtain br' where r: "sub__add_recurse (Some c) qos (path @ [t]) br ts b = (Inr (rc, br'), b')"
        "node' = set_children (put_child br' (sh_children node)) node"
      using Cons.prems(1) Some by (auto simp: bindE_eq_Inr ok_eq_Inr)
    have br: "sh_topic br = t" "tree_ok (sh_children br)" "t = [HASH] \<Longrightarrow> sh_children br = []"
      using find_child_Some [OF Some] tree_ok_child [OF Cons.prems(3)] by auto
    note ih = Cons.IH [OF r(1) Cons.prems(2) br(2) f Cons.prems(5)]
    have t: "tree_ok (put_child br' (sh_children node))"
      by (rule tree_ok_put) (use Cons.prems(3) ih br hash in auto)
    have "below node' us = (if us = t # ts then subscribe_leaf (client_ids b) c qos (below node us) else below node us)" for us
      unfolding r(2) below_put using ih br(1) Some by (cases us) (auto simp: below_Cons)
    then show ?thesis using ih r(2) t by simp
  next
    case None
    let ?m = "(bindE (sub__add_hier_entry t) (\<lambda>branch. bindE (sub__add_recurse (Some c) qos (path @ [t]) branch ts)
        (\<lambda>(rc, branch'). ok (rc, set_children (sh_children node @ [branch']) node)))) :: ('p, add_result \<times> subhier) broker_comp"
    have "(rescue ?m (\<lambda>e. if e = Fault then fail Fault else ok (Add_nomem, node)) :: ('p, add_result \<times> subhier) broker_comp) b = (Inr (rc, node'), b')"
      using Cons.prems(1) None by simp
    then have "?m b = (Inr (rc, node'), b')"
      using Cons.prems(2) by (auto simp: rescue_def ok_def fail_def split: prod.splits sum.splits if_splits)
    then obtain br b1 br' where h: "sub__add_hier_entry t b = (Inr br, b1)"
        "sub__add_recurse (Some c) qos (path @ [t]) br ts b1 = (Inr (rc, br'), b')"
        "node' = set_children (sh_children node @ [br']) node"
      by (auto simp: bindE_eq_Inr ok_eq_Inr)
    have br: "br = Subhier t [] [] None" using h(1) by (auto simp: sub__add_hier_entry_def bindE_eq_Inr ok_eq_Inr)
    have b1: "same_clients b b1" by (rule framesD [OF sc_alloc(2) h(1)])
    have ih: "sh_topic br' = t" "tree_ok (sh_children br')" "ts = [] \<Longrightarrow> sh_children br' = []" "same_clients b1 b'"
      "\<And>us. below br' us = (if us = ts then subscribe_leaf (client_ids b) c qos (below br us) else below br us)"
      using Cons.IH [OF h(2) Cons.prems(2) _ f] Cons.prems(5) sc_length [OF b1] sc_ids [OF b1] br by auto
    have put: "sh_children node @ [br'] = put_child br' (sh_children node)"
      using put_new [of t "sh_children node" br'] None ih(1) by (simp add: find_child_None)
    have t: "tree_ok (put_child br' (sh_children node))"
      by (rule tree_ok_put) (use Cons.prems(3) ih hash in auto)
    have fresh: "below br us = []" for us by (rule below_fresh) (simp_all add: br)
    have "below node' us = (if us = t # ts then subscribe_leaf (client_ids b) c qos (below node us) else below node us)" for us
      unfolding h(3) put below_put using ih(1,5) fresh None by (cases us) (auto simp: below_Cons)
    then show ?thesis using ih(4) b1 h(3) t put sc.R_trans by auto
  qed
qed

section \<open>Removing\<close>

lemma remove_clients: "sub__remove_recurse c path node ts b = (node', b') \<Longrightarrow> same_clients b b'"
proof (induction ts arbitrary: path node node')
  case Nil
  have "same_clients b (upd_client c (\<lambda>k. k\<lparr>k_subs := forget path (k_subs k)\<rparr>) (b\<lparr>subscription_count := subscription_count b - 1\<rparr>))"
    using sc_upd [of "\<lambda>k. k\<lparr>k_subs := forget path (k_subs k)\<rparr>" "b\<lparr>subscription_count := subscription_count b - 1\<rparr>" c]
    by (simp add: same_clients_def)
  then show ?case using Nil by (auto simp: sc.R_refl split: option.splits)
next
  case (Cons t ts)
  then show ?case by (auto simp: sc.R_refl split: option.splits prod.splits)
qed

lemma remove_below:
  assumes "sub__remove_recurse c path node ts b = (node', b')" and "tree_ok (sh_children node)"
  shows "sh_topic node' = sh_topic node \<and> sh_retained node' = sh_retained node \<and> tree_ok (sh_children node') \<and>
    (sh_children node = [] \<longrightarrow> sh_children node' = []) \<and>
    (\<forall>us. below node' us = (if us = ts then unsubscribe_leaf c (below node us) else below node us))"
  using assms
proof (induction ts arbitrary: path node b node' b')
  case Nil
  then show ?case
    by (auto simp: unsubscribe_leaf_def below_Cons neq_Nil_conv split: option.splits)
next
  case (Cons t ts)
  show ?case
  proof (cases "find_child t (sh_children node)")
    case None
    then show ?thesis using Cons.prems by (auto simp: below_Cons unsubscribe_leaf_def)
  next
    case (Some br)
    obtain br' b1 where r: "sub__remove_recurse c (path @ [t]) br ts b = (br', b1)" by fastforce
    have n: "node' = set_children (if bare br' then drop_child t (sh_children node) else put_child br' (sh_children node)) node"
      using Cons.prems(1) Some r by simp
    have br: "sh_topic br = t" "tree_ok (sh_children br)" "t = [HASH] \<Longrightarrow> sh_children br = []"
      using find_child_Some [OF Some] tree_ok_child [OF Cons.prems(2)] by auto
    note ih = Cons.IH [OF r br(2)]
    have ne: "sh_children node \<noteq> []" using Some by auto
    have t: "tree_ok (if bare br' then drop_child t (sh_children node) else put_child br' (sh_children node))"
      using tree_ok_drop [OF Cons.prems(2)] tree_ok_put [OF Cons.prems(2), of br'] ih br by auto
    have "below node' us = (if us = t # ts then unsubscribe_leaf c (below node us) else below node us)" for us
    proof (cases "bare br'")
      case True
      have z: "below br' vs = []" for vs by (rule below_bare [OF True])
      have s: "below br' vs = (if vs = ts then unsubscribe_leaf c (below br vs) else below br vs)" for vs
        using ih by blast
      have u: "unsubscribe_leaf c (below br ts) = []" "vs \<noteq> ts \<Longrightarrow> below br vs = []" for vs
        using s [of ts] s [of vs] z by simp_all
      show ?thesis unfolding n if_P [OF True] below_drop [OF Cons.prems(2)]
        using Some u by (cases us) (auto simp: below_Cons)
    next
      case False
      show ?thesis unfolding n if_not_P [OF False] below_put
        using ih br(1) Some by (cases us) (auto simp: below_Cons)
    qed
    then show ?thesis using n ih t ne by simp
  qed
qed

end
