(* ===== verification/RefFacts.thy ===== *)
theory RefFacts
  imports BrokerConnect ClientFacts SubsFacts "HOL-Library.Multiset" "HOL-Library.Sublist"
begin

text \<open>
  References to stored messages. Every queue entry and every retained message is a reference; the
  lemmas say of each routine how it changes the references and the counts, as triples: from a state
  with \<open>P\<close> a run ends in one with \<open>Q\<close> for its value, or with \<open>E\<close> for its error code. A run that
  faults is not spoken of.
\<close>

section \<open>Triples\<close>

definition triple :: "('s \<Rightarrow> bool) \<Rightarrow> ('s, 'e, 'a) comp \<Rightarrow> ('a \<Rightarrow> 's \<Rightarrow> bool) \<Rightarrow> ('s \<Rightarrow> bool) \<Rightarrow> bool" where
  "triple P m Q E \<longleftrightarrow> (\<forall>s. P s \<longrightarrow> (case m s of (Inr x, t) \<Rightarrow> Q x t | (Inl e, t) \<Rightarrow> e \<noteq> Fault \<longrightarrow> E t))"

abbreviation keeps :: "('s \<Rightarrow> bool) \<Rightarrow> ('s, 'e, 'a) comp \<Rightarrow> bool" where
  "keeps I m \<equiv> triple I m (\<lambda>_. I) I"

lemma tripleI: "(\<And>s. P s \<Longrightarrow> case m s of (Inr x, t) \<Rightarrow> Q x t | (Inl e, t) \<Rightarrow> e \<noteq> Fault \<longrightarrow> E t) \<Longrightarrow> triple P m Q E"
  by (simp add: triple_def)

lemma tripleD: "triple P m Q E \<Longrightarrow> P s \<Longrightarrow> m s = (Inr x, t) \<Longrightarrow> Q x t"
  by (fastforce simp: triple_def)

lemma tripleE: "triple P m Q E \<Longrightarrow> P s \<Longrightarrow> m s = (Inl e, t) \<Longrightarrow> e \<noteq> Fault \<Longrightarrow> E t"
  by (fastforce simp: triple_def)

lemma triple_weaken:
  "triple P m Q E \<Longrightarrow> (\<And>s. P' s \<Longrightarrow> P s) \<Longrightarrow> (\<And>x s. Q x s \<Longrightarrow> Q' x s) \<Longrightarrow> (\<And>s. E s \<Longrightarrow> E' s) \<Longrightarrow> triple P' m Q' E'"
  by (fastforce simp: triple_def split: prod.splits sum.splits)

lemma triple_leaf:
  "triple I (ok x) (\<lambda>_. I) E" "triple E (fail e) Q E" "triple I (ensure b e) (\<lambda>_. I) I" "triple I (asks f) (\<lambda>_. I) E"
  "triple I (pure_res r) (\<lambda>_. I) I"
  by (auto simp: triple_def ok_def fail_def ensure_def asks_def pure_res_def split: sum.splits)

lemma triple_ok: "(\<And>s. P s \<Longrightarrow> Q x s) \<Longrightarrow> triple P (ok x) Q E"
  by (simp add: triple_def ok_def)

lemma triple_ensure: "(b \<Longrightarrow> triple P (k ()) Q E) \<Longrightarrow> (\<And>s. P s \<Longrightarrow> E s) \<Longrightarrow> triple P (bindE (ensure b e) k) Q E"
  by (simp add: triple_def bindE_def ensure_def)

lemma triple_guard: "(b \<Longrightarrow> triple P (k ()) Q E) \<Longrightarrow> triple P (bindE (ensure b Fault) k) Q E"
  by (simp add: triple_def bindE_def ensure_def)

lemma triple_bindE: "triple P m R E \<Longrightarrow> (\<And>x. triple (R x) (k x) Q E) \<Longrightarrow> triple P (bindE m k) Q E"
  unfolding triple_def bindE_def by (fastforce split: prod.splits sum.splits)

lemma triple_rescue:
  assumes "triple P m Q F" and "\<And>e. e \<noteq> Fault \<Longrightarrow> triple F (h e) Q E" and "\<And>s. fst (h Fault s) = Inl Fault"
  shows "triple P (rescue m h) Q E"
proof (rule tripleI)
  fix s assume s: "P s"
  obtain r t where m: "m s = (r, t)" by fastforce
  show "case rescue m h s of (Inr x, t) \<Rightarrow> Q x t | (Inl e, t) \<Rightarrow> e \<noteq> Fault \<longrightarrow> E t"
  proof (cases r)
    case (Inr x)
    then show ?thesis using tripleD [OF assms(1) s] m by (simp add: rescue_def)
  next
    case (Inl e)
    show ?thesis
    proof (cases "e = Fault")
      case True
      then show ?thesis using m Inl assms(3) [of t] by (cases "h Fault t") (simp add: rescue_def)
    next
      case False
      have "F t" using tripleE [OF assms(1) s, of e t] m Inl False by simp
      then show ?thesis using assms(2) [OF False] m Inl by (simp add: rescue_def triple_def)
    qed
  qed
qed

lemma triple_on_error: "triple P m Q E \<Longrightarrow> h Fault = Fault \<Longrightarrow> triple P (on_error h m) Q E"
  by (fastforce simp: triple_def on_error_def split: prod.splits sum.splits)

lemma triple_ignore: "triple P m (\<lambda>_. Q) Q \<Longrightarrow> triple P (ignore m) (\<lambda>_. Q) E"
  by (fastforce simp: triple_def ignore_def split: prod.splits sum.splits stop.splits)

lemma triple_if: "(b \<Longrightarrow> triple P m Q E) \<Longrightarrow> (\<not> b \<Longrightarrow> triple P m' Q E) \<Longrightarrow> triple P (if b then m else m') Q E"
  by simp

lemma triple_option:
  "(v = None \<Longrightarrow> triple P m Q E) \<Longrightarrow> (\<And>x. v = Some x \<Longrightarrow> triple P (k x) Q E) \<Longrightarrow> triple P (case v of None \<Rightarrow> m | Some x \<Rightarrow> k x) Q E"
  by (cases v) simp_all

lemma triple_list:
  "(v = [] \<Longrightarrow> triple P m Q E) \<Longrightarrow> (\<And>x xs. v = x # xs \<Longrightarrow> triple P (k x xs) Q E) \<Longrightarrow>
   triple P (case v of [] \<Rightarrow> m | x # xs \<Rightarrow> k x xs) Q E"
  by (cases v) simp_all

lemma triple_sum:
  "(\<And>x. v = Inl x \<Longrightarrow> triple P (m x) Q E) \<Longrightarrow> (\<And>x. v = Inr x \<Longrightarrow> triple P (k x) Q E) \<Longrightarrow>
   triple P (case v of Inl x \<Rightarrow> m x | Inr x \<Rightarrow> k x) Q E"
  by (cases v) simp_all

lemma triple_prod: "(\<And>x y. v = (x, y) \<Longrightarrow> triple P (k x y) Q E) \<Longrightarrow> triple P (case v of (x, y) \<Rightarrow> k x y) Q E"
  by (cases v) simp_all

lemma triple_modify: "(\<And>s. P s \<Longrightarrow> Q () (f s)) \<Longrightarrow> triple P (modify f) Q E"
  by (simp add: triple_def modify_def)

lemma triple_conj: "(b \<Longrightarrow> triple P m Q E) \<Longrightarrow> triple (\<lambda>s. b \<and> P s) m Q E"
  by (simp add: triple_def)

lemma triple_ex: "(\<And>x. triple (P x) m Q E) \<Longrightarrow> triple (\<lambda>s. \<exists>x. P x s) m Q E"
  unfolding triple_def
proof (intro allI impI)
  fix s
  assume all: "\<And>x. \<forall>s. P x s \<longrightarrow> (case m s of (Inr x, t) \<Rightarrow> Q x t | (Inl e, t) \<Rightarrow> e \<noteq> Fault \<longrightarrow> E t)" and "\<exists>x. P x s"
  then obtain x where "P x s" by blast
  then show "case m s of (Inr x, t) \<Rightarrow> Q x t | (Inl e, t) \<Rightarrow> e \<noteq> Fault \<longrightarrow> E t" using spec [OF all [of x], of s] by simp
qed

lemma keeps_frames: "frames R m \<Longrightarrow> (\<And>s t. R s t \<Longrightarrow> I s \<Longrightarrow> I t) \<Longrightarrow> keeps I m"
  by (fastforce simp: triple_def frames_def split: prod.splits sum.splits)

lemma bindE_ok [simp]: "bindE (ok x) k = k x"
  by (rule ext) (simp add: bindE_def ok_def)

lemma keepsE: "keeps I m \<Longrightarrow> (\<And>s. I s \<Longrightarrow> E s) \<Longrightarrow> triple I m (\<lambda>_. I) E"
  by (erule triple_weaken)

lemma triple_step:
  assumes "keeps I m" and "\<And>s. I s \<Longrightarrow> E s" and "\<And>x. triple I (k x) Q E"
  shows "triple I (bindE m k) Q E"
  by (rule triple_bindE [OF keepsE [OF assms(1,2)] assms(3)])

text \<open>The rules for what keeps a property of the state.\<close>

lemma keeps_bindE: "keeps I m \<Longrightarrow> (\<And>x. keeps I (k x)) \<Longrightarrow> keeps I (bindE m k)"
  by (rule triple_bindE)

lemma keeps_rescue:
  "keeps I m \<Longrightarrow> (\<And>e. e \<noteq> Fault \<Longrightarrow> keeps I (h e)) \<Longrightarrow> (\<And>s. fst (h Fault s) = Inl Fault) \<Longrightarrow> keeps I (rescue m h)"
  by (rule triple_rescue)

lemma keeps_leaf: "keeps I (ok x)" "keeps I (fail e)" "keeps I (ensure b e)" "keeps I (asks f)" "keeps I (pure_res r)"
  by (rule triple_leaf)+

lemma fault_first [simp]: "fst (fail Fault s) = Inl Fault"
  by (simp add: fail_def)

lemmas keep_rules = keeps_leaf keeps_bindE keeps_rescue triple_on_error triple_ignore triple_if triple_option
  triple_prod triple_list triple_sum

lemma keeps_wrap: "keeps I m \<Longrightarrow> keeps I (failed m)" "keeps I m \<Longrightarrow> keeps I (or_1 m)" "keeps I m' \<Longrightarrow> keeps I (attempt m')"
  "keeps I m'' \<Longrightarrow> keeps I (ended m'')"
  unfolding failed_def or_1_def attempt_def ended_def by (intro keep_rules; simp)+

section \<open>References and counts\<close>

text \<open>The queues of the clients, with the clients' ids.\<close>

type_synonym queues = "(client_msg list \<times> client_msg list \<times> bytes option) list"

definition view :: "'p client_context \<Rightarrow> client_msg list \<times> client_msg list \<times> bytes option" where
  "view k = (inflight_msgs k, queued_msgs k, k_id k)"

definition queues :: "'p broker \<Rightarrow> queues" where
  "queues b = map view (contexts b)"

definition msg_refs :: "client_msg list \<Rightarrow> nat multiset" where
  "msg_refs ms = mset (map cm_store ms)"

definition queue_refs :: "queues \<Rightarrow> nat multiset" where
  "queue_refs qs = (\<Sum>(i, q, _)\<leftarrow>qs. msg_refs i + msg_refs q)"

fun tree_refs :: "subhier list \<Rightarrow> nat multiset" where
  "tree_refs [] = {#}"
| "tree_refs (n # ns) = (case sh_retained n of None \<Rightarrow> {#} | Some a \<Rightarrow> {#a#}) + tree_refs (sh_children n) + tree_refs ns"

text \<open>The heap holds exactly the listed messages, and the totals are right.\<close>

definition store_ok :: "'p broker \<Rightarrow> bool" where
  "store_ok b \<longleftrightarrow> distinct (msg_store_list b) \<and> set (msg_store_list b) = dom (heap b) \<and>
     (\<forall>a\<in>dom (heap b). a < next_addr b) \<and> msg_store_count b = int (length (msg_store_list b)) \<and>
     msg_store_bytes b = (\<Sum>a\<leftarrow>msg_store_list b. payload_words (the (heap b a)))"

definition counted :: "nat multiset \<Rightarrow> (nat \<Rightarrow> msg_store option) \<Rightarrow> bool" where
  "counted H h \<longleftrightarrow> (\<forall>a. int (count H a) = (case h a of None \<Rightarrow> 0 | Some s \<Rightarrow> s_ref_count s))"

text \<open>A client that has not connected has no id and no messages.\<close>

definition new_ok :: "'p client_context \<Rightarrow> bool" where
  "new_ok k \<longleftrightarrow> (conn_state k = mosq_cs_new \<and> k_listener k \<noteq> None \<longrightarrow> k_id k = None \<and> inflight_msgs k = [] \<and> queued_msgs k = [])"

text \<open>
  The state with the tree \<open>h\<close>, the queues \<open>qs\<close> and \<open>H\<close> as the references the counts stand for;
  \<open>X\<close> is the client that is just connecting, if any.
\<close>

definition st :: "nat option \<Rightarrow> subhier list \<Rightarrow> queues \<Rightarrow> nat multiset \<Rightarrow> 'p broker \<Rightarrow> bool" where
  "st X h qs H b \<longleftrightarrow> hier b = h \<and> queues b = qs \<and> store_ok b \<and> counted H (heap b) \<and>
     (\<forall>i<length (contexts b). X \<noteq> Some i \<longrightarrow> new_ok (contexts b ! i))"

definition refs_ok :: "'p broker \<Rightarrow> bool" where
  "refs_ok b \<longleftrightarrow> st None (hier b) (queues b) (queue_refs (queues b) + tree_refs (hier b)) b"

lemma stD: "st X h qs H b \<Longrightarrow> hier b = h \<and> queues b = qs"
  by (simp add: st_def)

lemma st_length: "st X h qs H b \<Longrightarrow> length (contexts b) = length qs"
  by (auto simp: st_def queues_def)

lemma st_counted: "st X h qs H b \<Longrightarrow> counted H (heap b)" and st_store: "st X h qs H b \<Longrightarrow> store_ok b"
  by (simp_all add: st_def)

lemma st_refs: "st X h qs H b \<Longrightarrow> c < length qs \<Longrightarrow> view (contexts b ! c) = qs ! c"
  by (auto simp: st_def queues_def)

section \<open>Routines that change no reference\<close>

text \<open>The parts of the broker that the property is about.\<close>

definition unchanged :: "'p broker \<Rightarrow> 'p broker \<Rightarrow> bool" where
  "unchanged b b' \<longleftrightarrow> contexts b' = contexts b \<and> hier b' = hier b \<and> heap b' = heap b \<and> next_addr b' = next_addr b \<and>
     msg_store_list b' = msg_store_list b \<and> msg_store_count b' = msg_store_count b \<and> msg_store_bytes b' = msg_store_bytes b"

interpretation un: read_frame unchanged
  by unfold_locales (auto simp: unchanged_def libc_call_def)

lemma unchanged_st: "unchanged b b' \<Longrightarrow> st X h qs H b \<Longrightarrow> st X h qs H b'"
  by (simp add: unchanged_def st_def queues_def store_ok_def)

lemma un_malloc: "frames unchanged (mosquitto__malloc n e)" "frames unchanged (mosquitto__calloc e)"
  by (auto simp: frames_def mosquitto__malloc_def mosquitto__calloc_def split: prod.splits bool.splits dest!: un.R_libc)

lemma un_alloc: "frames unchanged (uhpa_alloc n e)" "frames unchanged (strdup s e)" "frames unchanged (sub__add_hier_entry t)"
  "frames unchanged (sub__topic_append t)" "frames unchanged (client_id_gen u p)"
  unfolding uhpa_alloc_def strdup_def sub__add_hier_entry_def sub__topic_append_def client_id_gen_def
  by (intro un.frame_rules un_malloc)+

lemma un_packet: "frames unchanged (packet__alloc pk)"
  unfolding packet__alloc_def Let_def by (intro un.frame_rules un_malloc)

lemma un_tokenise_from: "frames unchanged (tokenise_from tok s)"
proof (induction tok s rule: tokenise_from.induct)
  case (1 tok)
  show ?case by (simp, intro conjI impI un.frame_rules un_alloc)
next
  case (2 tok x xs)
  then show ?case by (auto intro!: un.frame_rules un_alloc)
qed

lemma un_tokenise: "frames unchanged (sub__topic_tokenise s)"
  unfolding sub__topic_tokenise_def Let_def by (intro un.frame_rules un_alloc un_tokenise_from)

lemma un_client_at: "frames unchanged (client_at c)"
  unfolding client_at_def by (intro un.frame_rules)

lemma un_store_at: "frames unchanged (store_at a)"
  unfolding store_at_def by (intro un.frame_rules)

lemma un_patterns: "frames unchanged (check_patterns cid user topic access rs)"
  by (induction cid user topic access rs rule: check_patterns.induct) (auto intro!: un.frame_rules un_malloc)

lemma un_acl_default: "frames unchanged (mosquitto_acl_check_default c topic access)"
  unfolding mosquitto_acl_check_default_def by (intro un.frame_rules un_client_at un_patterns)

lemma un_answer: "frames unchanged (case r of None \<Rightarrow> ok () | Some MOSQ_ERR_PLUGIN_DEFER \<Rightarrow> fail e | Some e \<Rightarrow> fail (Code e))"
  by (cases r) (auto intro!: un.frame_rules split: mosq_err.split)

lemma un_acl: "frames unchanged (mosquitto_acl_check c topic data qos retain access)"
  unfolding mosquitto_acl_check_def by (intro un.frame_rules un_client_at un_acl_default un_answer)

lemma un_login: "frames unchanged (mosquitto_unpwd_check c user pass)"
  unfolding mosquitto_unpwd_check_def mosquitto_unpwd_check_default_def options_of_def
  by (intro un.frame_rules un_client_at un_answer)

lemma un_failed: "frames unchanged m \<Longrightarrow> frames unchanged (failed m)" "frames unchanged m \<Longrightarrow> frames unchanged (or_1 m)"
  "frames unchanged m' \<Longrightarrow> frames unchanged (attempt m')"
  unfolding failed_def or_1_def attempt_def by (intro un.frame_rules; assumption)+

lemma un_reading: "frames unchanged (allows c topic data qos retain access)" "frames unchanged (mounted c s)"
  "frames unchanged (bytes_left c)" "frames unchanged (options_of k)" "frames unchanged (exchange_prefix old new t)"
  unfolding allows_def mounted_def bytes_left_def options_of_def exchange_prefix_def
  by (intro un.frame_rules un_client_at un_acl un_malloc un_alloc)+

lemma un_remap: "frames unchanged (remap_topic ts topic)"
  by (induction ts) (auto intro!: un.frame_rules un_reading)

lemma un_root: "frames unchanged (root_of ts)"
  unfolding root_of_def by (intro un.frame_rules)

lemma un_find: "frames unchanged (db__message_store_find c mid)"
  unfolding db__message_store_find_def by (intro un.frame_rules un_client_at)

lemma un_fields: "unchanged b (b\<lparr>subscription_count := i\<rparr>)" "unchanged b (b\<lparr>retained_count := i\<rparr>)"
  "unchanged b (b\<lparr>persistence_changes := i\<rparr>)" "unchanged b (b\<lparr>msgs_dropped := n\<rparr>)" "unchanged b (b\<lparr>disused := cs\<rparr>)"
  by (simp_all add: unchanged_def)

lemmas un_rules = un_malloc un_alloc un_packet un_tokenise un_client_at un_store_at un_acl un_login un_reading un_remap un_root un_find

lemma keeps_un: "frames unchanged m \<Longrightarrow> keeps (st X h qs H) m"
  by (erule keeps_frames) (rule unchanged_st)

lemma keeps_fields: "(\<And>b. unchanged b (f b)) \<Longrightarrow> keeps (st X h qs H) (modify f)"
  by (rule triple_modify) (rule unchanged_st)

lemmas st_rules = un_rules [THEN keeps_un]

section \<open>Clients\<close>

text \<open>A change of a client, in its queues and otherwise.\<close>

lemma queues_upd: "queues (upd_client c f b) =
    (if c < length (contexts b) then (queues b)[c := view (f (contexts b ! c))] else queues b)"
  by (auto simp: queues_def upd_client_def map_update list_update_beyond)

lemma st_client:
  assumes "st X h qs H b" and "c < length qs \<Longrightarrow> Some c \<noteq> X \<Longrightarrow> new_ok (f (contexts b ! c))"
  shows "st X h (if c < length qs then qs[c := view (f (contexts b ! c))] else qs) H (upd_client c f b)"
proof -
  have "new_ok (contexts (upd_client c f b) ! i)" if "i < length (contexts b)" "X \<noteq> Some i" for i
    using assms that st_length [OF assms(1)]
    by (cases "i = c") (auto simp: upd_client_def st_def)
  moreover have "queues b = qs" "length (contexts b) = length qs" using assms(1) st_length [OF assms(1)] by (auto simp: st_def)
  ultimately show ?thesis
    using assms(1) by (auto simp: st_def queues_upd store_ok_def) (auto simp: upd_client_def)
qed

text \<open>A client whose queues and id stay, and that does not become new.\<close>

definition same_messages :: "'p client_context \<Rightarrow> 'p client_context \<Rightarrow> bool" where
  "same_messages k k' \<longleftrightarrow> view k' = view k \<and> (new_ok k \<longrightarrow> new_ok k')"

lemma st_same:
  assumes "st X h qs H b" and "same_messages (contexts b ! c) (f (contexts b ! c))"
  shows "st X h qs H (upd_client c f b)"
proof -
  have "new_ok (f (contexts b ! c))" if "c < length qs" "Some c \<noteq> X"
    using assms that st_length [OF assms(1)] by (auto simp: st_def same_messages_def)
  from st_client [of X h qs H b c f, OF assms(1) this] show ?thesis
    using assms(2) st_refs [OF assms(1), of c] by (auto simp: same_messages_def list_update_id split: if_splits)
qed

lemma keeps_client: "(\<And>k. same_messages k (f k)) \<Longrightarrow> keeps (st X h qs H) (modify (upd_client c f))"
  by (rule triple_modify) (rule st_same)

lemma same_record:
  "inflight_msgs (f k) = inflight_msgs k \<Longrightarrow> queued_msgs (f k) = queued_msgs k \<Longrightarrow> conn_state (f k) = conn_state k \<Longrightarrow>
   k_listener (f k) = k_listener k \<Longrightarrow> k_id (f k) = k_id k \<Longrightarrow> same_messages k (f k)"
  by (simp add: same_messages_def new_ok_def view_def)

lemma same_put_world [simp]: "same_messages (put_world b k) k' = same_messages k k'"
proof -
  have "new_ok (put_world b k) = new_ok k" by (simp only: new_ok_def) (simp add: put_world_def)
  moreover have "view (put_world b k) = view k" by (simp add: view_def put_world_def)
  ultimately show ?thesis by (simp add: same_messages_def)
qed

text \<open>A routine of the connection, run on a client.\<close>

definition same_client :: "('p, 'z) connection_scheme \<Rightarrow> ('p, 'z) connection_scheme \<Rightarrow> bool" where
  "same_client k k' \<longleftrightarrow> connection.more k' = connection.more k \<and> conn_state k' = conn_state k"

interpretation sa: session_frame same_client
  by unfold_locales (auto simp: same_client_def libc_call_def)

lemma same_client_messages: "same_client k k' \<Longrightarrow> same_messages k k'"
  by (cases k, cases k') (simp add: same_client_def same_messages_def new_ok_def view_def)

lemma upper_same: "frames upper m \<Longrightarrow> frames same_client m"
  by (auto simp: frames_def upper_def same_client_def)

lemma same_malloc: "frames same_client (mosquitto__malloc n e)" "frames same_client (mosquitto__calloc e)"
  by (rule upper_same [OF upper_malloc(1)], rule upper_same [OF upper_malloc(2)])

lemma same_reads:
  "frames same_client packet__read_byte" "frames same_client packet__read_uint16"
  "frames same_client packet__read_string" "frames same_client (packet__read_bytes n)"
proof -
  have m: "frames same_client (modify (in_pos f))" for f
    by (auto simp: frames_def modify_def in_pos_def same_client_def)
  have p: "frames same_client (in_payload i n)" for i n
    unfolding in_payload_def by (intro sa.frame_rules)
  show u: "frames same_client packet__read_uint16"
    unfolding packet__read_uint16_def by (intro sa.frame_rules m p)
  show "frames same_client packet__read_byte" "frames same_client packet__read_string"
    "frames same_client (packet__read_bytes n)"
    unfolding packet__read_byte_def packet__read_string_def packet__read_bytes_def
    by (intro sa.frame_rules m p u same_malloc)+
qed

lemma same_granted: "frames same_client (read_granted n)"
  by (induction n) (auto intro!: sa.frame_rules same_reads)

lemma same_map: "frames same_client (map_outgoing ts topic)"
  by (induction ts) (auto intro!: sa.frame_rules same_malloc simp: exchange_prefix_def strdup_def)

lemma same_sends:
  "frames same_client (send__puback C T role mid)" "frames same_client (send__pubrec C T role mid)"
  "frames same_client (send__pubrel C T role mid)" "frames same_client (send__pubcomp C T role mid)"
  "frames same_client (send__pingresp C T role)" "frames same_client (send__command_with_mid C T role cmd mid dup)"
  "frames same_client (send__real_publish C T role mid topic data qos retain dup)"
  "frames same_client (send__connack C T role ack result)" "frames same_client (send__suback C T role mid codes)"
  "frames same_client (packet__queue C T role p)"
  unfolding send__connack_def send__suback_def
  by (intro upper_same upper_sends upper_send_packet upper_queue)+

lemma same_publish: "frames same_client (send__publish_broker C T mid topic data qos retain dup)"
  unfolding send__publish_broker_def by (intro sa.frame_rules same_map same_sends)

lemma st_run:
  assumes "frames same_client m" and "st X h qs H b" and "run_on c m b = (r, b')" and "r \<noteq> Inl Fault"
  shows "st X h qs H b'"
proof (cases "c < length (contexts b)")
  case False
  then show ?thesis using assms by (auto simp: run_on_def)
next
  case True
  obtain k where k: "m (put_world b (contexts b ! c)) = (r, k)" "b' = (put_world k b)\<lparr>contexts := (contexts b)[c := k]\<rparr>"
    using assms(3) True by (auto simp: run_on_def split: prod.splits)
  have "same_messages (put_world b (contexts b ! c)) k" by (rule same_client_messages [OF framesD [OF assms(1) k(1)]])
  then have s: "same_messages (contexts b ! c) k" by simp
  have "unchanged (upd_client c (\<lambda>_. k) b) b'"
    by (simp add: k(2) unchanged_def upd_client_def put_world_def)
  moreover have "st X h qs H (upd_client c (\<lambda>_. k) b)" by (rule st_same [OF assms(2)]) (rule s)
  ultimately show ?thesis by (rule unchanged_st)
qed

lemma keeps_run: "frames same_client m \<Longrightarrow> keeps (st X h qs H) (run_on c m)"
  unfolding triple_def using st_run by (auto split: prod.splits sum.splits) blast+

lemmas run_rules = same_sends [THEN keeps_run] same_reads [THEN keeps_run] same_granted [THEN keeps_run] same_publish [THEN keeps_run]

lemma triple_client_at:
  assumes "\<And>k. c < length qs \<Longrightarrow> view k = qs ! c \<Longrightarrow> triple (st X h qs H) (f k) Q E"
  shows "triple (st X h qs H) (bindE (client_at c) f) Q E"
proof (rule tripleI)
  fix b :: "'a broker" assume b: "st X h qs H b"
  show "case bindE (client_at c) f b of (Inr x, t) \<Rightarrow> Q x t | (Inl e, t) \<Rightarrow> e \<noteq> Fault \<longrightarrow> E t"
  proof (cases "c < length (contexts b)")
    case True
    then have "triple (st X h qs H) (f (contexts b ! c)) Q E"
      using assms st_length [OF b] st_refs [OF b] by auto
    then show ?thesis using b True by (auto simp: triple_def client_at_def bindE_def asks_def pure_res_def)
  next
    case False
    then show ?thesis by (simp add: client_at_def bindE_def asks_def pure_res_def)
  qed
qed

end
