(* ===== verification/RefQueues.thy ===== *)
theory RefQueues
  imports RefFacts
begin

text \<open>
  The references through the routines of \<open>src/database.c\<close>: taking and giving up a reference, putting
  messages into queues, moving them and taking them out.
\<close>

section \<open>The counts\<close>

lemma counted_put:
  "counted H h \<Longrightarrow> h a = Some s \<Longrightarrow> s_ref_count s' = s_ref_count s + 1 \<Longrightarrow> counted (add_mset a H) (h(a \<mapsto> s'))"
  "counted (add_mset a H) h \<Longrightarrow> h a = Some s \<Longrightarrow> s_ref_count s' = s_ref_count s - 1 \<Longrightarrow> counted H (h(a \<mapsto> s'))"
  "counted H h \<Longrightarrow> h a = Some s \<Longrightarrow> s_ref_count s' = s_ref_count s \<Longrightarrow> counted H (h(a \<mapsto> s'))"
  unfolding counted_def by (auto dest: spec [where x = a] split: if_splits)

lemma counted_gone: "counted H h \<Longrightarrow> h a = Some s \<Longrightarrow> s_ref_count s = 0 \<Longrightarrow> counted H (h(a := None))"
  unfolding counted_def by (auto dest: spec [where x = a])

lemma counted_new: "counted H h \<Longrightarrow> h a = None \<Longrightarrow> s_ref_count s = 0 \<Longrightarrow> counted H (h(a \<mapsto> s))"
  unfolding counted_def by (auto dest: spec [where x = a])

lemma counted_stored:
  assumes "counted H h" and "a \<in># H"
  shows "\<exists>s. h a = Some s"
proof (cases "h a")
  case None
  then have "count H a = 0" using spec [OF assms(1) [unfolded counted_def], of a] by simp
  then show ?thesis using assms(2) by (simp add: count_eq_zero_iff)
qed simp

lemma store_ok_put:
  assumes "store_ok b" and "heap b a = Some s" and "s_payload s' = s_payload s"
  shows "store_ok (put_store a s' b)"
proof -
  have "payload_words (the (((heap b)(a \<mapsto> s')) x)) = payload_words (the (heap b x))" for x
    using assms(2,3) by (simp add: payload_words_def)
  moreover have "dom ((heap b)(a \<mapsto> s')) = dom (heap b)" using assms(2) by auto
  ultimately show ?thesis using assms(1) by (simp only: store_ok_def put_store_def broker.simps) simp
qed

lemma store_ok_remove:
  assumes "store_ok b" and "heap b a = Some s"
  shows "store_ok (b\<lparr>msg_store_list := remove1 a (msg_store_list b), msg_store_count := msg_store_count b - 1,
       msg_store_bytes := msg_store_bytes b - payload_words s, heap := (heap b)(a := None)\<rparr>)"
proof -
  have d: "distinct (msg_store_list b)" "a \<in> set (msg_store_list b)" using assms by (auto simp: store_ok_def)
  have "(\<Sum>x\<leftarrow>remove1 a (msg_store_list b). payload_words (the (((heap b)(a := None)) x))) =
      (\<Sum>x\<leftarrow>remove1 a (msg_store_list b). payload_words (the (heap b x)))"
    by (rule arg_cong [where f = sum_list], rule map_cong) (use d in auto)
  moreover have "(\<Sum>x\<leftarrow>msg_store_list b. payload_words (the (heap b x))) =
      payload_words s + (\<Sum>x\<leftarrow>remove1 a (msg_store_list b). payload_words (the (heap b x)))"
    using sum_list_map_remove1 [OF d(2), of "\<lambda>x. payload_words (the (heap b x))"] assms(2) by simp
  ultimately have bytes: "(\<Sum>x\<leftarrow>remove1 a (msg_store_list b). payload_words (the (((heap b)(a := None)) x))) = msg_store_bytes b - payload_words s"
    using assms(1) by (simp add: store_ok_def)
  have n: "int (length (remove1 a (msg_store_list b))) = int (length (msg_store_list b)) - 1"
    using d(2) by (simp add: length_remove1 of_nat_diff) (metis One_nat_def Suc_leI length_pos_if_in_set of_nat_1 of_nat_diff)
  have "set (remove1 a (msg_store_list b)) = dom ((heap b)(a := None))"
    using d assms(1) by (auto simp: store_ok_def)
  then show ?thesis using assms(1) d(1) bytes n by (simp add: store_ok_def)
qed

lemma store_ok_new:
  assumes "store_ok b" and a: "a = next_addr b" and w: "w = payload_words s"
  shows "store_ok (db__msg_store_add a (put_store a s
       (b\<lparr>next_addr := a + 1, msg_store_count := msg_store_count b + 1, msg_store_bytes := msg_store_bytes b + w, last_db_id := i\<rparr>)))"
proof -
  have new: "a \<notin> dom (heap b)" "a \<notin> set (msg_store_list b)" using assms by (auto simp: store_ok_def)
  have "(\<Sum>x\<leftarrow>msg_store_list b. payload_words (the (((heap b)(a \<mapsto> s)) x))) =
      (\<Sum>x\<leftarrow>msg_store_list b. payload_words (the (heap b x)))"
    by (rule arg_cong [where f = sum_list], rule map_cong) (use new in auto)
  then show ?thesis
    using assms new by (auto simp: store_ok_def db__msg_store_add_def put_store_def less_Suc_eq)
qed

lemma st_put:
  "st X h qs H b \<Longrightarrow> heap b a = Some s \<Longrightarrow> s_payload s' = s_payload s \<Longrightarrow> counted H' ((heap b)(a \<mapsto> s')) \<Longrightarrow>
   st X h qs H' (put_store a s' b)"
  using store_ok_put [of b a s s'] by (simp add: st_def) (simp add: put_store_def queues_def)

lemma st_count:
  "st X h qs H b \<Longrightarrow> heap b a = Some s \<Longrightarrow> s_payload s' = s_payload s \<Longrightarrow> s_ref_count s' = s_ref_count s + 1 \<Longrightarrow>
   st X h qs (add_mset a H) (put_store a s' b)"
  "st X h qs (add_mset a H) b \<Longrightarrow> heap b a = Some s \<Longrightarrow> s_payload s' = s_payload s \<Longrightarrow> s_ref_count s' = s_ref_count s - 1 \<Longrightarrow>
   st X h qs H (put_store a s' b)"
  "st X h qs H b \<Longrightarrow> heap b a = Some s \<Longrightarrow> s_payload s' = s_payload s \<Longrightarrow> s_ref_count s' = s_ref_count s \<Longrightarrow>
   st X h qs H (put_store a s' b)"
  by (blast intro: st_put counted_put(1) dest: st_counted, blast intro: st_put counted_put(2) dest: st_counted,
      blast intro: st_put counted_put(3) dest: st_counted)

lemma triple_store_at:
  assumes "\<And>s. triple (\<lambda>b. st X h qs H b \<and> heap b a = Some s) (f s) Q E"
  shows "triple (st X h qs H) (bindE (store_at a) f) Q E"
proof (rule tripleI)
  fix b :: "'a broker" assume b: "st X h qs H b"
  show "case bindE (store_at a) f b of (Inr x, t) \<Rightarrow> Q x t | (Inl e, t) \<Rightarrow> e \<noteq> Fault \<longrightarrow> E t"
  proof (cases "heap b a")
    case None
    then show ?thesis by (simp add: store_at_def bindE_def asks_def pure_res_def)
  next
    case (Some s)
    then show ?thesis using assms [of s] b by (simp add: triple_def store_at_def bindE_def asks_def pure_res_def)
  qed
qed

text \<open>Forgetting what was read.\<close>

lemma triple_drop: "triple P m Q E \<Longrightarrow> triple (\<lambda>b. P b \<and> R b) m Q E"
  by (simp add: triple_def)

lemma triple_store_at': "(\<And>s. triple (st X h qs H) (f s) Q E) \<Longrightarrow> triple (st X h qs H) (bindE (store_at a) f) Q E"
  by (rule triple_store_at) (rule triple_drop)

lemma triple_ref: "triple (st X h qs H) (db__msg_store_ref a) (\<lambda>_. st X h qs (add_mset a H)) E"
  unfolding db__msg_store_ref_def
proof (rule triple_store_at, rule triple_modify)
  fix s b
  assume b: "st X h qs H b \<and> heap b a = Some s"
  then show "st X h qs (add_mset a H) (put_store a (s\<lparr>s_ref_count := s_ref_count s + 1\<rparr>) b)"
    by (auto intro: st_count(1))
qed

lemma keeps_update_store:
  assumes "\<And>s :: msg_store. s_ref_count (f s) = s_ref_count s \<and> s_payload (f s) = s_payload s"
  shows "triple (st X h qs H) (bindE (store_at a) (\<lambda>s. modify (put_store a (f s)))) (\<lambda>_. st X h qs H) E"
proof (rule triple_store_at, rule triple_modify)
  fix s :: msg_store and b
  assume b: "st X h qs H b \<and> heap b a = Some s"
  then show "st X h qs H (put_store a (f s) b)"
    using assms by (auto intro: st_count(3))
qed

lemma triple_remove_store:
  assumes "s_ref_count s = 0"
  shows "triple (\<lambda>b. st X h qs H b \<and> heap b a = Some s) (db__msg_store_remove a) (\<lambda>_. st X h qs H) E"
proof (rule tripleI)
  fix b :: "'a broker"
  assume b: "st X h qs H b \<and> heap b a = Some s"
  then have "counted H ((heap b)(a := None))" using counted_gone [OF st_counted] assms by blast
  moreover have "store_ok (b\<lparr>msg_store_list := remove1 a (msg_store_list b), msg_store_count := msg_store_count b - 1,
       msg_store_bytes := msg_store_bytes b - payload_words s, heap := (heap b)(a := None)\<rparr>)"
    by (rule store_ok_remove) (use b st_store in auto)
  ultimately show "case db__msg_store_remove a b of (Inr x, t) \<Rightarrow> st X h qs H t | (Inl e, t) \<Rightarrow> e \<noteq> Fault \<longrightarrow> E t"
    using b by (simp add: db__msg_store_remove_def store_at_def bindE_def asks_def pure_res_def modify_def st_def queues_def)
qed

lemma triple_deref: "triple (st X h qs (add_mset a H)) (db__msg_store_deref a) (\<lambda>_. st X h qs H) E"
  unfolding db__msg_store_deref_def
proof (rule triple_store_at)
  fix s :: msg_store
  let ?s = "s\<lparr>s_ref_count := s_ref_count s - 1\<rparr>"
  show "triple (\<lambda>b. st X h qs (add_mset a H) b \<and> heap b a = Some s)
      (bindE (modify (put_store a ?s)) (\<lambda>_. if s_ref_count s - 1 = 0 then db__msg_store_remove a else ok ())) (\<lambda>_. st X h qs H) E"
  proof (rule triple_bindE)
    show "triple (\<lambda>b. st X h qs (add_mset a H) b \<and> heap b a = Some s) (modify (put_store a ?s))
        (\<lambda>_ b. st X h qs H b \<and> heap b a = Some ?s) E"
    proof (rule triple_modify)
      fix b
      assume b: "st X h qs (add_mset a H) b \<and> heap b a = Some s"
      then have "st X h qs H (put_store a ?s b)" by (auto intro: st_count(2))
      then show "st X h qs H (put_store a ?s b) \<and> heap (put_store a ?s b) a = Some ?s" by (simp add: put_store_def)
    qed
    show "triple (\<lambda>b. st X h qs H b \<and> heap b a = Some ?s) (if s_ref_count s - 1 = 0 then db__msg_store_remove a else ok ()) (\<lambda>_. st X h qs H) E" for x
      by (rule triple_if [OF triple_remove_store triple_ok]) simp_all
  qed
qed

lemma keeps_add_dest: "triple (st X h qs H) (add_dest a i) (\<lambda>_. st X h qs H) E"
  unfolding add_dest_def by (rule keeps_update_store) simp

lemma keeps_message_store: "keeps (st X h qs H) (db__message_store source mid topic qos data retain i)"
proof -
  let ?new = "\<lambda>source_id db_id a (b :: 'a broker). db__msg_store_add a (put_store a
       \<lparr>s_db_id = db_id, s_source_id = source_id, s_dest_ids = [], s_ref_count = 0, s_topic = topic,
        s_payload = data, s_source_mid = mid, s_qos = qos, s_retain = retain\<rparr>
       (b\<lparr>next_addr := a + 1, msg_store_count := msg_store_count b + 1,
          msg_store_bytes := msg_store_bytes b + word_of_nat (length data),
          last_db_id := (if i = 0 then db_id else last_db_id b)\<rparr>))"
  have new: "st X h qs H (?new src d (next_addr b) b)" if b: "st X h qs H b" for b :: "'a broker" and src d
  proof -
    have n: "heap b (next_addr b) = None" using st_store [OF b] by (force simp: store_ok_def)
    have "store_ok (?new src d (next_addr b) b)"
      by (rule store_ok_new [OF st_store [OF b] refl]) (simp add: payload_words_def)
    moreover have "counted H ((heap b)(next_addr b \<mapsto> s))" if "s_ref_count s = 0" for s
      by (rule counted_new [OF st_counted [OF b] n that])
    ultimately show ?thesis using b by (simp add: st_def) (simp add: queues_def db__msg_store_add_def put_store_def)
  qed
  have asked: "triple (st X h qs H) (bindE (asks next_addr) (\<lambda>a. bindE (asks g) (\<lambda>d. bindE (modify (?new src d a)) (\<lambda>_. ok a))))
      (\<lambda>_. st X h qs H) (st X h qs H)" for src and g :: "'a broker \<Rightarrow> nat"
    using new by (auto simp: triple_def bindE_def asks_def modify_def ok_def)
  show ?thesis
    unfolding db__message_store_def by (rule triple_bindE [OF st_rules(1)], rule triple_bindE [OF keeps_un [OF un_alloc(2)]], rule asked)
qed

section \<open>Putting a message into a queue\<close>

text \<open>Messages are put at the end of what a client has in flight.\<close>

definition grown :: "queues \<Rightarrow> queues \<Rightarrow> bool" where
  "grown qs qs' \<longleftrightarrow> length qs' = length qs \<and>
     (\<forall>c<length qs. prefix (fst (qs ! c)) (fst (qs' ! c)) \<and> snd (snd (qs' ! c)) = snd (snd (qs ! c)))"

lemma grown_refl [simp]: "grown qs qs"
  by (simp add: grown_def)

lemma grown_trans: "grown qs qs' \<Longrightarrow> grown qs' qs'' \<Longrightarrow> grown qs qs''"
  by (auto simp: grown_def intro: prefix_order.trans)

text \<open>The state with the tree \<open>h\<close>, grown queues, and the references in the queues and in \<open>T\<close>.\<close>

definition held :: "nat option \<Rightarrow> queues \<Rightarrow> subhier list \<Rightarrow> nat multiset \<Rightarrow> 'p broker \<Rightarrow> bool" where
  "held X q0 h T b \<longleftrightarrow> (\<exists>qs. grown q0 qs \<and> st X h qs (queue_refs qs + T) b)"

lemma triple_held:
  assumes "\<And>qs. grown q0 qs \<Longrightarrow> triple (st X h qs (queue_refs qs + T)) m Q E"
  shows "triple (held X q0 h T) m Q E"
  unfolding held_def by (rule triple_ex, rule triple_conj, rule assms)

lemma st_held: "st X h qs (queue_refs qs + T) b \<Longrightarrow> grown q0 qs \<Longrightarrow> held X q0 h T b"
  by (auto simp: held_def)

lemma held_grown: "held X qs h T b \<Longrightarrow> grown q0 qs \<Longrightarrow> held X q0 h T b"
  unfolding held_def by (blast intro: grown_trans)

lemma keeps_held:
  assumes "\<And>qs H. keeps (st X h qs H) m"
  shows "keeps (held X q0 h T) m"
  by (rule triple_held, rule triple_weaken [OF assms]) (auto simp: held_def)

lemma msg_refs_simps [simp]: "msg_refs [] = {#}" "msg_refs (m # ms) = add_mset (cm_store m) (msg_refs ms)"
  "msg_refs (ms @ ms') = msg_refs ms + msg_refs ms'"
  by (simp_all add: msg_refs_def)

lemma queue_refs_upd:
  assumes "c < length qs"
  shows "queue_refs (qs[c := v]) + (msg_refs (fst (qs ! c)) + msg_refs (fst (snd (qs ! c)))) =
    queue_refs qs + (msg_refs (fst v) + msg_refs (fst (snd v)))"
  using assms
proof (induction qs arbitrary: c)
  case (Cons q qs)
  show ?case
  proof (cases c)
    case 0
    then show ?thesis by (cases q; cases v) (simp add: queue_refs_def)
  next
    case (Suc i)
    then show ?thesis using Cons.IH [of i] Cons.prems by (cases q) (simp add: queue_refs_def ac_simps)
  qed
qed simp

lemma queue_refs_less:
  assumes "c < length qs"
  shows "msg_refs (fst (qs ! c)) + msg_refs (fst (snd (qs ! c))) \<subseteq># queue_refs qs"
  using queue_refs_upd [OF assms, of "([], [], None)"] by (metis add.right_neutral fst_conv mset_subset_eq_add_right msg_refs_simps(1) snd_conv)

text \<open>The message that is appended takes over the reference.\<close>

lemma triple_append:
  assumes c: "c < length qs" and i: "snd (snd (qs ! c)) \<noteq> None"
  shows "triple (st X h qs (add_mset (cm_store m) (queue_refs qs + T)))
      (modify (upd_client c (\<lambda>k. count_in m n (append_message m k)))) (\<lambda>_. held X qs h T) E"
proof (rule triple_modify)
  fix b :: "'a broker"
  let ?f = "\<lambda>k. count_in m n (append_message m k)" and ?k = "contexts b ! c" and ?H = "add_mset (cm_store m) (queue_refs qs + T)"
  assume b: "st X h qs ?H b"
  have v: "view ?k = qs ! c" by (rule st_refs [OF b c])
  have f: "view (?f ?k) = (if cm_state m = mosq_ms_queued then (fst (qs ! c), fst (snd (qs ! c)) @ [m], snd (snd (qs ! c)))
      else (fst (qs ! c) @ [m], snd (qs ! c)))"
    by (simp add: v [symmetric] view_def count_in_def append_message_def)
  have "new_ok (?f ?k)" if "Some c \<noteq> X"
  proof -
    have "new_ok ?k" using b that c st_length [OF b] by (auto simp: st_def)
    moreover have "k_id ?k \<noteq> None" using i by (simp add: v [symmetric] view_def)
    ultimately show ?thesis by (auto simp: new_ok_def count_in_def append_message_def)
  qed
  from st_client [of X h qs ?H b c ?f, OF b this]
  have s: "st X h (qs[c := view (?f ?k)]) ?H (upd_client c ?f b)" using c by simp
  have "queue_refs (qs[c := view (?f ?k)]) = add_mset (cm_store m) (queue_refs qs)"
    using queue_refs_upd [OF c, of "view (?f ?k)"] by (simp add: f split: if_splits)
  then have r: "queue_refs (qs[c := view (?f ?k)]) + T = ?H" by simp
  have g: "grown qs (qs[c := view (?f ?k)])"
    using c by (auto simp: grown_def f nth_list_update)
  show "held X qs h T (upd_client c ?f b)"
    by (rule st_held [OF _ g]) (use s r in simp)
qed

lemma held_st [simp]: "st X h qs (queue_refs qs + T) b \<Longrightarrow> held X qs h T b"
  by (rule st_held [OF _ grown_refl])

lemma held_unchanged: "unchanged b b' \<Longrightarrow> held X q0 h T b \<Longrightarrow> held X q0 h T b'"
  unfolding held_def using unchanged_st by blast

lemma held_un: "frames unchanged m \<Longrightarrow> keeps (held X q0 h T) m"
  by (erule keeps_frames) (rule held_unchanged)

lemma held_client: "(\<And>k. same_messages k (f k)) \<Longrightarrow> keeps (held X q0 h T) (modify (upd_client c f))"
  by (rule keeps_held) (rule keeps_client)

lemma wake_same: "same_messages k (wake_bridge k)"
  by (cases "k_bridge k") (auto simp: wake_bridge_def same_messages_def view_def new_ok_def)

lemma drop_same: "st X h qs H b \<Longrightarrow> st X h qs H (drop_message c b)"
proof -
  assume "st X h qs H b"
  then have "st X h qs H (upd_client c (\<lambda>k. k\<lparr>is_dropping := True\<rparr>) b)" by (rule st_same) (rule same_record; simp)
  then show ?thesis unfolding drop_message_def by (rule unchanged_st [OF un_fields(4)])
qed

lemma held_add_dest: "keeps (held X q0 h T) (add_dest a i)"
  by (rule keeps_held) (rule keeps_add_dest)

lemma keeps_drop: "keeps (st X h qs H) (modify (drop_message c))"
  by (rule triple_modify) (rule drop_same)

lemma keeps_count_change: "keeps (st X h qs H) (modify (\<lambda>b. if P then b\<lparr>persistence_changes := persistence_changes b + 1\<rparr> else b))"
  by (rule keeps_fields) (simp add: un.R_refl un_fields)

lemma insert_dest: "keeps (held X qs h T)
   (if once
    then bindE (mosquitto__malloc n MOSQ_ERR_NOMEM) (\<lambda>_.
         bindE (rescue (strdup cid MOSQ_ERR_NOMEM) (\<lambda>e. bindE (add_dest a None) (\<lambda>_. fail e))) (\<lambda>_.
         add_dest a (Some cid)))
    else ok ())"
proof -
  have "fst (bindE (add_dest a None) (\<lambda>_. fail Fault) b) = Inl Fault" for b :: "'a broker"
    by (simp add: bindE_def add_dest_def store_at_def asks_def pure_res_def modify_def fail_def split: option.split)
  then show ?thesis by (intro keep_rules held_un un_malloc un_alloc held_add_dest)
qed

lemma triple_insert_body:
  assumes c: "c < length qs" and i: "snd (snd (qs ! c)) \<noteq> None" and a: "cm_store m = a"
  shows "triple (st X h qs (queue_refs qs + T))
    (bindE (db__msg_store_ref a) (\<lambda>_.
     bindE (ensure good Fault) (\<lambda>_.
     bindE (modify (upd_client c (\<lambda>k. count_in m n (append_message m k)))) (\<lambda>_.
     bindE (if once
            then bindE (mosquitto__malloc n' MOSQ_ERR_NOMEM) (\<lambda>_.
                 bindE (rescue (strdup cid MOSQ_ERR_NOMEM) (\<lambda>e. bindE (add_dest a None) (\<lambda>_. fail e))) (\<lambda>_.
                 add_dest a (Some cid)))
            else ok ()) (\<lambda>_.
     bindE (modify (upd_client c wake_bridge)) (\<lambda>_.
     ok rc)))))) (\<lambda>_. held X qs h T) (held X qs h T)"
proof (rule triple_bindE [OF triple_ref], rule triple_guard)
  show "triple (st X h qs (add_mset a (queue_refs qs + T)))
    (bindE (modify (upd_client c (\<lambda>k. count_in m n (append_message m k)))) (\<lambda>_.
     bindE (if once
            then bindE (mosquitto__malloc n' MOSQ_ERR_NOMEM) (\<lambda>_.
                 bindE (rescue (strdup cid MOSQ_ERR_NOMEM) (\<lambda>e. bindE (add_dest a None) (\<lambda>_. fail e))) (\<lambda>_.
                 add_dest a (Some cid)))
            else ok ()) (\<lambda>_.
     bindE (modify (upd_client c wake_bridge)) (\<lambda>_.
     ok rc)))) (\<lambda>_. held X qs h T) (held X qs h T)" for u
  proof (rule triple_bindE [OF triple_append [OF c i, of X h m T, unfolded a]])
    show "keeps (held X qs h T) (bindE (if once
            then bindE (mosquitto__malloc n' MOSQ_ERR_NOMEM) (\<lambda>_.
                 bindE (rescue (strdup cid MOSQ_ERR_NOMEM) (\<lambda>e. bindE (add_dest a None) (\<lambda>_. fail e))) (\<lambda>_.
                 add_dest a (Some cid)))
            else ok ()) (\<lambda>_. bindE (modify (upd_client c wake_bridge)) (\<lambda>_. ok rc)))" for u
      by (intro keeps_bindE insert_dest held_client wake_same keeps_leaf)
  qed
qed

text \<open>Leaving the exactly known queues.\<close>

lemma insert_step:
  "keeps (st X h qs (queue_refs qs + T)) m \<Longrightarrow>
   (\<And>x. triple (st X h qs (queue_refs qs + T)) (k x) (\<lambda>_. held X qs h T) (held X qs h T)) \<Longrightarrow>
   triple (st X h qs (queue_refs qs + T)) (bindE m k) (\<lambda>_. held X qs h T) (held X qs h T)"
  by (rule triple_step) simp_all

lemma insert_ok: "triple (st X h qs (queue_refs qs + T)) (ok x) (\<lambda>_. held X qs h T) (held X qs h T)"
  by (rule triple_ok) simp

lemma triple_insert:
  "triple (st X h qs (queue_refs qs + T)) (db__message_insert c mid dir qos retain a) (\<lambda>_. held X qs h T) (held X qs h T)"
  unfolding db__message_insert_def
proof (rule triple_client_at, rule triple_option)
  fix k :: "'a client_context" and cid
  assume c: "c < length qs" and v: "view k = qs ! c" and i: "k_id k = Some cid"
  have n: "snd (snd (qs ! c)) \<noteq> None" using i by (simp add: v [symmetric] view_def)
  note body = triple_insert_body [OF c n]
  show "triple (st X h qs (queue_refs qs + T)) (bindE (store_at a) (\<lambda>s.
     bindE (asks (\<lambda>b. \<not> allow_duplicate_messages b \<and> dir = mosq_md_out \<and> \<not> retain)) (\<lambda>once.
     bindE (pure_res (if once then already_sent cid (s_dest_ids s) else Inr False)) (\<lambda>sent.
     if sent then ok 0
     else bindE (asks (\<lambda>b. \<not> sock_open k \<and> qos = 0 \<and> \<not> queue_qos0_messages b \<and>
            (case k_bridge k of None \<Rightarrow> True | Some br \<Rightarrow> br_start_type br \<noteq> bst_lazy))) (\<lambda>offline.
     if offline then ok 2
     else bindE (asks (\<lambda>b. place_message b k dir qos)) (\<lambda>pl. bindE (pure_res pl) (\<lambda>place.
     case place of None \<Rightarrow> bindE (modify (drop_message c)) (\<lambda>_. ok 2)
     | Some (state, rc) \<Rightarrow>
     bindE (ensure (state \<noteq> mosq_ms_invalid) Fault) (\<lambda>_.
     bindE (modify (\<lambda>b. if state = mosq_ms_queued then b\<lparr>persistence_changes := persistence_changes b + 1\<rparr> else b)) (\<lambda>_.
     bindE (mosquitto__malloc 40 MOSQ_ERR_NOMEM) (\<lambda>_.
     bindE (asks b_now) (\<lambda>now.
     bindE (ok \<lparr>cm_store = a, cm_timestamp = now, cm_mid = mid, cm_qos = qos, cm_retain = retain,
        cm_direction = dir, cm_state = state, cm_dup = False\<rparr>) (\<lambda>m.
     bindE (db__msg_store_ref a) (\<lambda>_.
     bindE (ensure (linked (state \<noteq> mosq_ms_queued) k) Fault) (\<lambda>_.
     bindE (modify (upd_client c (\<lambda>k. count_in m (payload_words s) (append_message m k)))) (\<lambda>_.
     bindE (if once
            then bindE (mosquitto__malloc (8 * (length (s_dest_ids s) + 1)) MOSQ_ERR_NOMEM) (\<lambda>_.
                 bindE (rescue (strdup cid MOSQ_ERR_NOMEM) (\<lambda>e. bindE (add_dest a None) (\<lambda>_. fail e))) (\<lambda>_.
                 add_dest a (Some cid)))
            else ok ()) (\<lambda>_.
     bindE (modify (upd_client c wake_bridge)) (\<lambda>_.
     ok rc))))))))))))))))) (\<lambda>_. held X qs h T) (held X qs h T)"
    unfolding bindE_ok
    by (intro insert_step triple_if triple_option triple_prod insert_ok body keeps_leaf st_rules keeps_drop
        keeps_count_change) simp_all
qed (rule insert_ok)

end
