(* ===== verification/RefTree.thy ===== *)
theory RefTree
  imports RefQueues
begin

text \<open>
  The references through the routines of the subscription tree (\<open>src/subs.c\<close>): deliveries, retained
  messages, subscribing, unsubscribing and publishing.
\<close>

section \<open>Deliveries\<close>

lemma held_insert: "keeps (held X q0 h T) (db__message_insert c mid dir qos retain a)"
proof (rule triple_held)
  fix qs assume g: "grown q0 qs"
  show "triple (st X h qs (queue_refs qs + T)) (db__message_insert c mid dir qos retain a) (\<lambda>_. held X q0 h T) (held X q0 h T)"
    by (rule triple_weaken [OF triple_insert [where qs = qs]]) (auto intro: held_grown [OF _ g])
qed

lemma same_mid: "same_messages k (k\<lparr>k_last_mid := m\<rparr>)"
  by (rule same_record [where f = "\<lambda>k. k\<lparr>k_last_mid := m\<rparr>"]) simp_all

lemma held_draw: "keeps (held X q0 h T) (draw_client_mid c)"
  unfolding draw_client_mid_def
  by (intro keep_rules held_un un_client_at held_client same_record) simp_all

lemmas held_un_rules = un_rules [THEN held_un]

lemma held_deliver: "keeps (held X q0 h T) (deliver l src topic qos retain a s)"
  unfolding deliver_def by (intro keep_rules held_un_rules held_insert held_draw) simp_all

lemma held_deliver_all: "keeps (held X q0 h T) (deliver_all ls src topic qos retain a)"
  by (induction ls) (auto intro!: keep_rules held_un_rules held_deliver)

lemma held_retain_process: "keeps (held X q0 h T) (retain__process c sub_qos a)"
  unfolding retain__process_def by (intro keep_rules held_un_rules held_insert held_draw) simp_all

lemma held_retain_all: "keeps (held X q0 h T) (retain_all c sub_qos as)"
  by (induction "as") (auto intro!: keep_rules held_retain_process)

lemma held_retain_queue: "keeps (held X q0 h T) (sub__retain_queue c sub sub_qos)"
  unfolding sub__retain_queue_def by (intro keep_rules held_un_rules held_retain_all) simp_all

section \<open>Retained messages\<close>

lemma held_ref: "triple (held X q0 h T) (db__msg_store_ref a) (\<lambda>_. held X q0 h (add_mset a T)) E"
proof (rule triple_held)
  fix qs assume g: "grown q0 qs"
  show "triple (st X h qs (queue_refs qs + T)) (db__msg_store_ref a) (\<lambda>_. held X q0 h (add_mset a T)) E"
    by (rule triple_weaken [OF triple_ref]) (auto intro: st_held [OF _ g])
qed

lemma held_deref: "triple (held X q0 h (add_mset a T)) (db__msg_store_deref a) (\<lambda>_. held X q0 h T) E"
proof (rule triple_held)
  fix qs assume g: "grown q0 qs"
  show "triple (st X h qs (queue_refs qs + add_mset a T)) (db__msg_store_deref a) (\<lambda>_. held X q0 h T) E"
    by (rule triple_weaken [OF triple_deref [of X h qs a "queue_refs qs + T"]]) (auto intro: st_held [OF _ g])
qed

lemma held_fields: "(\<And>b. unchanged b (f b)) \<Longrightarrow> triple (held X q0 h T) (modify f) (\<lambda>_. held X q0 h T) E"
  by (rule triple_modify) (rule held_unchanged)

lemma held_retain_here:
  "triple (held X q0 h (tree_refs [n] + T)) (retain_here n topic a) (\<lambda>n'. held X q0 h (tree_refs [n'] + T)) (\<lambda>_. False)"
proof -
  let ?T = "tree_refs (sh_children n) + T"
  have old: "triple (held X q0 h (tree_refs [n] + T))
      (case sh_retained n of None \<Rightarrow> ok ()
       | Some old \<Rightarrow> bindE (db__msg_store_deref old) (\<lambda>_. modify (\<lambda>b. b\<lparr>retained_count := retained_count b - 1\<rparr>)))
      (\<lambda>_. held X q0 h ?T) (\<lambda>_. False)"
  proof (cases "sh_retained n")
    case None
    then show ?thesis by (auto intro: triple_ok)
  next
    case (Some old)
    have "triple (held X q0 h (add_mset old ?T)) (bindE (db__msg_store_deref old) (\<lambda>_. modify (\<lambda>b. b\<lparr>retained_count := retained_count b - 1\<rparr>)))
      (\<lambda>_. held X q0 h ?T) (\<lambda>_. False)"
      by (rule triple_bindE [OF held_deref held_fields]) (simp add: un_fields)
    then show ?thesis using Some by simp
  qed
  have new: "triple (held X q0 h ?T) (bindE (store_at a) (\<lambda>s.
     if s_payload s \<noteq> []
     then bindE (db__msg_store_ref a) (\<lambda>_.
          bindE (modify (\<lambda>b. b\<lparr>retained_count := retained_count b + 1\<rparr>)) (\<lambda>_. ok (set_retained (Some a) n)))
     else ok (set_retained None n))) (\<lambda>n'. held X q0 h (tree_refs [n'] + T)) (\<lambda>_. False)"
    (is "triple _ (bindE _ ?k) _ _")
  proof (rule triple_bindE)
    show "triple (held X q0 h ?T) (store_at a) (\<lambda>_. held X q0 h ?T) (\<lambda>_. False)"
      by (auto simp: triple_def store_at_def bindE_def asks_def pure_res_def split: option.split)
    show "triple (held X q0 h ?T) (?k s) (\<lambda>n'. held X q0 h (tree_refs [n'] + T)) (\<lambda>_. False)" for s
    proof (rule triple_if)
      show "triple (held X q0 h ?T) (ok (set_retained None n)) (\<lambda>n'. held X q0 h (tree_refs [n'] + T)) (\<lambda>_. False)"
        by (rule triple_ok) (simp add: set_retained_def)
      show "triple (held X q0 h ?T) (bindE (db__msg_store_ref a) (\<lambda>_.
          bindE (modify (\<lambda>b. b\<lparr>retained_count := retained_count b + 1\<rparr>)) (\<lambda>_. ok (set_retained (Some a) n))))
          (\<lambda>n'. held X q0 h (tree_refs [n'] + T)) (\<lambda>_. False)"
        by (rule triple_bindE [OF held_ref], rule triple_bindE [OF held_fields triple_ok])
          (simp_all add: un_fields set_retained_def)
    qed
  qed
  have "triple (held X q0 h (tree_refs [n] + T))
      (modify (\<lambda>b. if take 4 topic \<noteq> cstr ''$SYS'' then b\<lparr>persistence_changes := persistence_changes b + 1\<rparr> else b))
      (\<lambda>_. held X q0 h (tree_refs [n] + T)) (\<lambda>_. False)"
    by (rule held_fields) (simp add: un.R_refl un_fields)
  from triple_bindE [OF this triple_bindE [OF old new]] show ?thesis
    unfolding retain_here_def .
qed

lemma held_process:
  "triple (held X q0 h (tree_refs [n] + T)) (subs__process src topic qos retain a sr n) (\<lambda>n'. held X q0 h (tree_refs [n'] + T)) (\<lambda>_. False)"
  unfolding subs__process_def
proof (rule triple_bindE)
  show "triple (held X q0 h (tree_refs [n] + T)) (if retain \<and> sr then retain_here n topic a else ok n)
      (\<lambda>n'. held X q0 h (tree_refs [n'] + T)) (\<lambda>_. False)"
    by (rule triple_if [OF held_retain_here triple_ok])
  show "triple (held X q0 h (tree_refs [n'] + T)) (bindE
      (case src of None \<Rightarrow> ok () | Some src \<Rightarrow> ignore (deliver_all (sh_subs n') src topic qos retain a)) (\<lambda>_. ok n'))
      (\<lambda>n'. held X q0 h (tree_refs [n'] + T)) (\<lambda>_. False)" for n'
    by (rule triple_bindE [OF triple_option triple_ok], rule triple_leaf, rule triple_ignore, rule held_deliver_all)
qed

lemma held_search:
  assumes act: "\<And>sr n T. triple (held X q0 h (tree_refs [n] + T)) (act sr n) (\<lambda>n'. held X q0 h (tree_refs [n'] + T)) (\<lambda>_. False)"
  shows "triple (held X q0 h (tree_refs ns + T)) (sub__search act sr ns ts) (\<lambda>ns'. held X q0 h (tree_refs ns' + T)) (\<lambda>_. False)"
  using act
proof (induction act sr ns ts arbitrary: T rule: sub__search.induct)
  case (1 act sr ts)
  show ?case by (simp add: triple_ok)
next
  case (2 act sr t cs ls r rest ts)
  let ?n = "Subhier t cs ls r" and ?R = "tree_refs rest + T"
  let ?mid = "\<lambda>n. held X q0 h (tree_refs [n] + ?R)"
  let ?step = "if ts \<noteq> [] \<and> (t = hd ts \<or> t = [PLUS])
        then bindE (sub__search act (sr \<and> t \<noteq> [PLUS]) cs (tl ts)) (\<lambda>cs'.
             if tl ts = [] then act (sr \<and> t \<noteq> [PLUS]) (Subhier t cs' ls r) else ok (Subhier t cs' ls r))
        else if t = [HASH] \<and> cs = [] then act False ?n else ok ?n"
  have step: "triple (held X q0 h (tree_refs [?n] + ?R)) ?step ?mid (\<lambda>_. False)"
  proof (cases "ts \<noteq> [] \<and> (t = hd ts \<or> t = [PLUS])")
    case True
    let ?O = "(case r of None \<Rightarrow> {#} | Some a \<Rightarrow> {#a#}) + ?R"
    have ih: "triple (held X q0 h (tree_refs cs + ?O)) (sub__search act (sr \<and> t \<noteq> [PLUS]) cs (tl ts))
        (\<lambda>cs'. held X q0 h (tree_refs cs' + ?O)) (\<lambda>_. False)"
      by (rule "2.IH"(1) [OF True "2.prems"])
    have act: "triple (held X q0 h (tree_refs cs' + ?O)) (if tl ts = [] then act (sr \<and> t \<noteq> [PLUS]) (Subhier t cs' ls r) else ok (Subhier t cs' ls r))
        ?mid (\<lambda>_. False)" for cs'
      using "2.prems" [of "Subhier t cs' ls r" ?R "sr \<and> t \<noteq> [PLUS]"] by (auto simp: ac_simps intro!: triple_ok)
    have e: "tree_refs [?n] + ?R = tree_refs cs + ?O" by (simp add: ac_simps)
    show ?thesis unfolding if_P [OF True] e by (rule triple_bindE [OF ih act])
  next
    case False
    show ?thesis unfolding if_not_P [OF False]
      by (rule triple_if [OF "2.prems" triple_ok])
  qed
  have later: "triple (?mid n) (bindE (sub__search act sr rest ts) (\<lambda>ns'. ok (n # ns')))
      (\<lambda>ns'. held X q0 h (tree_refs ns' + T)) (\<lambda>_. False)" for n
  proof -
    have a: "triple (held X q0 h (tree_refs rest + (tree_refs [n] + T))) (sub__search act sr rest ts)
        (\<lambda>ns'. held X q0 h (tree_refs ns' + (tree_refs [n] + T))) (\<lambda>_. False)"
      by (rule "2.IH"(2) [OF "2.prems"])
    have b: "triple (held X q0 h (tree_refs ns' + (tree_refs [n] + T))) (ok (n # ns')) (\<lambda>ns'. held X q0 h (tree_refs ns' + T)) (\<lambda>_. False)" for ns'
      by (rule triple_ok) (simp add: ac_simps)
    have e: "tree_refs [n] + ?R = tree_refs rest + (tree_refs [n] + T)" by (simp only: ac_simps)
    show ?thesis unfolding e by (rule triple_bindE [OF a b])
  qed
  have e: "tree_refs (?n # rest) + T = tree_refs [?n] + ?R" by simp
  show ?case unfolding sub__search.simps e by (rule triple_bindE [OF step later])
qed

section \<open>Changing the tree\<close>

lemma tree_refs_put:
  "find_child (sh_topic n) ns = Some m \<Longrightarrow> tree_refs (put_child n ns) + tree_refs [m] = tree_refs ns + tree_refs [n]"
  by (induction ns) (auto simp: ac_simps split: if_splits)

lemma tree_refs_append [simp]: "tree_refs (ns @ ms) = tree_refs ns + tree_refs ms"
  by (induction ns) simp_all

lemma tree_refs_drop: "find_child t ns = Some m \<Longrightarrow> tree_refs (drop_child t ns) + tree_refs [m] = tree_refs ns"
  by (induction ns) (auto simp: ac_simps split: if_splits)

lemma tree_refs_bare: "bare n \<Longrightarrow> tree_refs [n] = {#}"
  by (simp add: bare_def)

lemma tree_refs_set [simp]: "tree_refs [set_subs ls n] = tree_refs [n]"
  "tree_refs [set_children cs n] + tree_refs (sh_children n) = tree_refs [n] + tree_refs cs"
  by (simp_all add: set_subs_def set_children_def)

lemma tree_refs_child:
  assumes "find_child t (sh_children n) = Some m" and "sh_topic m' = t" and "tree_refs [m'] = tree_refs [m]"
  shows "tree_refs [set_children (put_child m' (sh_children n)) n] = tree_refs [n]"
    "bare m' \<Longrightarrow> tree_refs [set_children (drop_child t (sh_children n)) n] = tree_refs [n]"
  using tree_refs_set(2) [of _ n] tree_refs_put [of m' "sh_children n" m] tree_refs_drop [OF assms(1)] tree_refs_bare [of m'] assms
  by (metis add_right_cancel, metis add.right_neutral add_right_cancel)

text \<open>The references in the queues, in the tree as it is, and in \<open>T\<close>.\<close>

definition tree_held :: "nat option \<Rightarrow> queues \<Rightarrow> nat multiset \<Rightarrow> 'p broker \<Rightarrow> bool" where
  "tree_held X q0 T b \<longleftrightarrow> held X q0 (hier b) (tree_refs (hier b) + T) b"

lemma held_hier: "held X q0 h T b \<Longrightarrow> hier b = h"
  by (auto simp: held_def st_def)

lemma held_tree: "held X q0 h (tree_refs h + T) b \<Longrightarrow> tree_held X q0 T b"
  using held_hier [of X q0 h "tree_refs h + T" b] by (simp add: tree_held_def)

lemma triple_tree:
  assumes "\<And>h. triple (held X q0 h (tree_refs h + T)) m Q E"
  shows "triple (tree_held X q0 T) m Q E"
proof (rule tripleI)
  fix b :: "'a broker" assume "tree_held X q0 T b"
  then show "case m b of (Inr x, t) \<Rightarrow> Q x t | (Inl e, t) \<Rightarrow> e \<noteq> Fault \<longrightarrow> E t"
    using assms [of "hier b"] by (simp add: triple_def tree_held_def)
qed

lemma keeps_tree:
  assumes "\<And>h T. keeps (held X q0 h T) m"
  shows "keeps (tree_held X q0 T) m"
  by (rule triple_tree, rule triple_weaken [OF assms]) (auto intro: held_tree)

lemma held_root: "triple (held X q0 h T) (root_of ts) (\<lambda>n b. find_child (hd ts) h = Some n \<and> held X q0 h T b) E"
  by (auto simp: triple_def root_of_def bindE_def asks_def pure_res_def dest: held_hier split: option.split)

lemma held_put_root: "held X q0 h T b \<Longrightarrow> held X q0 (put_child n h) T (put_root n b)"
  by (auto simp: held_def st_def put_root_def queues_def store_ok_def)

lemma held_new_leaf: "keeps (held X q0 h T) (new_leaf c qos path)"
  unfolding new_leaf_def by (intro keep_rules held_un_rules held_client same_record) simp_all

lemma held_add_leaf:
  "triple (held X q0 h T) (add_leaf ctx qos path n)
     (\<lambda>(_, n') b. sh_topic n' = sh_topic n \<and> tree_refs [n'] = tree_refs [n] \<and> held X q0 h T b) E"
proof (cases ctx)
  case None
  then show ?thesis by (simp add: add_leaf_def triple_ok)
next
  case (Some c)
  let ?Q = "\<lambda>(_, n') b. sh_topic n' = sh_topic n \<and> tree_refs [n'] = tree_refs [n] \<and> held X q0 h T b"
  have at: "triple (held X q0 h T) (client_at c) (\<lambda>_. held X q0 h T) E"
    by (auto simp: triple_def client_at_def bindE_def asks_def pure_res_def)
  have new: "triple (held X q0 h T) (rescue
              (bindE (new_leaf c qos path) (\<lambda>_.
               bindE (modify (\<lambda>b. b\<lparr>subscription_count := subscription_count b + 1\<rparr>)) (\<lambda>_.
               ok (Add_done, set_subs (sh_subs n @ [\<lparr>l_context = c, l_qos = qos\<rparr>]) n))))
              (\<lambda>e. if e = Fault then fail Fault else ok (Add_nomem, n))) ?Q E"
    by (rule triple_rescue [where F = "held X q0 h T"], rule triple_bindE [OF held_new_leaf],
        rule triple_bindE [OF held_fields triple_ok]) (auto simp: un_fields set_subs_def intro: triple_ok)
  show ?thesis
    unfolding add_leaf_def Some option.case
    by (rule triple_bindE [OF at], rule triple_bindE [OF triple_leaf(4)], rule triple_option, rule triple_ok, simp,
        rule triple_option, rule new, rule triple_ok) (simp add: set_subs_def)
qed

lemma held_add:
  "triple (held X q0 h T :: 'p broker \<Rightarrow> bool) (sub__add_recurse ctx qos path n ts)
     (\<lambda>(_, n') b. sh_topic n' = sh_topic n \<and> tree_refs [n'] = tree_refs [n] \<and> held X q0 h T b) (\<lambda>_. False)"
proof (induction ts arbitrary: path n)
  case Nil
  show ?case unfolding sub__add_recurse.simps by (rule held_add_leaf)
next
  case (Cons t ts)
  show ?case
  proof (cases "find_child t (sh_children n)")
    case (Some br)
    have t: "sh_topic br = t" using find_child_Some [OF Some] by simp
    have k: "triple (\<lambda>b. sh_topic br' = sh_topic br \<and> tree_refs [br'] = tree_refs [br] \<and> held X q0 h T b)
        (ok (rc, set_children (put_child br' (sh_children n)) n))
        (\<lambda>(_, n') b. sh_topic n' = sh_topic n \<and> tree_refs [n'] = tree_refs [n] \<and> held X q0 h T b) (\<lambda>_. False)" for rc :: add_result and br'
      using tree_refs_child(1) [OF Some] t by (intro triple_ok) auto
    have "triple (held X q0 h T :: 'p broker \<Rightarrow> bool) (bindE (sub__add_recurse ctx qos (path @ [t]) br ts)
        (\<lambda>(rc, br'). ok (rc, set_children (put_child br' (sh_children n)) n)))
        (\<lambda>(_, n') b. sh_topic n' = sh_topic n \<and> tree_refs [n'] = tree_refs [n] \<and> held X q0 h T b) (\<lambda>_. False)"
      by (rule triple_bindE [OF Cons.IH]) (use k in \<open>auto split: prod.split\<close>)
    then show ?thesis unfolding sub__add_recurse.simps Some option.case .
  next
    case None
    let ?Q = "\<lambda>(_, n') b. sh_topic n' = sh_topic n \<and> tree_refs [n'] = tree_refs [n] \<and> held X q0 h T b"
    have e: "triple (held X q0 h T :: 'p broker \<Rightarrow> bool) (sub__add_hier_entry t) (\<lambda>br b. br = Subhier t [] [] None \<and> held X q0 h T b) (held X q0 h T)"
      unfolding sub__add_hier_entry_def
      by (rule triple_step [OF held_un_rules(1)], simp, rule triple_step [OF held_un_rules(3)], simp, rule triple_ok) simp
    have k: "triple (\<lambda>b. sh_topic br' = sh_topic br \<and> tree_refs [br'] = tree_refs [br] \<and> held X q0 h T b)
        (ok (rc, set_children (sh_children n @ [br']) n)) ?Q F" if "br = Subhier t [] [] None" for rc :: add_result and br br' F
      using tree_refs_set(2) [of "sh_children n @ [br']" n] that by (intro triple_ok) auto
    have ih: "triple (held X q0 h T :: 'p broker \<Rightarrow> bool) (sub__add_recurse ctx qos (path @ [t]) br ts)
        (\<lambda>(_, n') b. sh_topic n' = sh_topic br \<and> tree_refs [n'] = tree_refs [br] \<and> held X q0 h T b) (held X q0 h T)" for br
      by (rule triple_weaken [OF Cons.IH]) auto
    have r: "triple (\<lambda>b :: 'p broker. br = Subhier t [] [] None \<and> held X q0 h T b) (bindE (sub__add_recurse ctx qos (path @ [t]) br ts)
        (\<lambda>(rc, br'). ok (rc, set_children (sh_children n @ [br']) n))) ?Q (held X q0 h T)" for br
    proof (rule triple_conj)
      assume br: "br = Subhier t [] [] None"
      show "triple (held X q0 h T :: 'p broker \<Rightarrow> bool) (bindE (sub__add_recurse ctx qos (path @ [t]) br ts)
        (\<lambda>(rc, br'). ok (rc, set_children (sh_children n @ [br']) n))) ?Q (held X q0 h T)"
        by (rule triple_bindE [OF ih]) (use k [OF br] in \<open>auto split: prod.split\<close>)
    qed
    have "triple (held X q0 h T :: 'p broker \<Rightarrow> bool) (rescue
            (bindE (sub__add_hier_entry t) (\<lambda>branch.
             bindE (sub__add_recurse ctx qos (path @ [t]) branch ts) (\<lambda>(rc, branch').
             ok (rc, set_children (sh_children n @ [branch']) n))))
            (\<lambda>e. if e = Fault then fail Fault else ok (Add_nomem, n))) ?Q (\<lambda>_. False)"
      by (rule triple_rescue [OF triple_bindE [OF e r]]) (auto intro: triple_ok)
    then show ?thesis unfolding sub__add_recurse.simps None option.case .
  qed
qed

lemma held_add':
  "triple (held X q0 h T) (sub__add_recurse ctx qos path n ts)
     (\<lambda>(_, n') b. sh_topic n' = sh_topic n \<and> tree_refs [n'] = tree_refs [n] \<and> held X q0 h T b) E"
  by (rule triple_weaken [OF held_add]) auto

lemma put_root_held:
  assumes "find_child (sh_topic n) h = Some m" and "tree_refs [n] = tree_refs [m]" and "held X q0 h (tree_refs h + T) b"
  shows "tree_held X q0 T (put_root n b)"
proof -
  have "tree_refs (put_child n h) = tree_refs h" using tree_refs_put [OF assms(1)] assms(2) by simp
  then have "held X q0 (put_child n h) (tree_refs (put_child n h) + T) (put_root n b)"
    using held_put_root [OF assms(3)] by simp
  then show ?thesis by (rule held_tree)
qed

lemma tree_add: "keeps (tree_held X q0 T) (sub__add c sub qos)"
  unfolding sub__add_def
proof (rule keeps_bindE)
  show "keeps (tree_held X q0 T) (on_error (as_code MOSQ_ERR_NOMEM) (sub__topic_tokenise sub) :: ('p, _) broker_comp)"
    by (intro triple_on_error keeps_tree held_un_rules) simp
  show "keeps (tree_held X q0 T) (bindE (root_of ts) (\<lambda>root. bindE (sub__add_recurse (Some c) qos [hd ts] root ts) (\<lambda>(rc, root').
     bindE (modify (put_root root')) (\<lambda>_. if rc = Add_nomem then fail (Code MOSQ_ERR_NOMEM) else ok ()))) :: ('p, _) broker_comp)" for ts
  proof (rule triple_tree)
    fix h
    let ?I = "held X q0 h (tree_refs h + T) :: 'p broker \<Rightarrow> bool"
    have last: "triple (\<lambda>b. sh_topic n' = sh_topic n \<and> tree_refs [n'] = tree_refs [n] \<and> ?I b)
        (bindE (modify (put_root n')) (\<lambda>_. if rc = Add_nomem then fail (Code MOSQ_ERR_NOMEM) else ok ()))
        (\<lambda>_. tree_held X q0 T) (tree_held X q0 T)" if n: "find_child (hd ts) h = Some n" for rc n n'
    proof (rule triple_bindE)
      show "triple (\<lambda>b. sh_topic n' = sh_topic n \<and> tree_refs [n'] = tree_refs [n] \<and> ?I b) (modify (put_root n'))
          (\<lambda>_. tree_held X q0 T) (tree_held X q0 T)"
        using n find_child_Some [OF n] by (intro triple_modify) (auto intro!: put_root_held [where T = T])
      show "keeps (tree_held X q0 T :: 'p broker \<Rightarrow> bool) (if rc = Add_nomem then fail (Code MOSQ_ERR_NOMEM) else ok ())" for u
        by (intro keep_rules)
    qed
    have "triple (\<lambda>b. find_child (hd ts) h = Some n \<and> ?I b) (bindE (sub__add_recurse (Some c) qos [hd ts] n ts) (\<lambda>(rc, root').
       bindE (modify (put_root root')) (\<lambda>_. if rc = Add_nomem then fail (Code MOSQ_ERR_NOMEM) else ok ())))
       (\<lambda>_. tree_held X q0 T) (tree_held X q0 T)" for n
    proof (rule triple_conj)
      assume n: "find_child (hd ts) h = Some n"
      show "triple ?I (bindE (sub__add_recurse (Some c) qos [hd ts] n ts) (\<lambda>(rc, root').
         bindE (modify (put_root root')) (\<lambda>_. if rc = Add_nomem then fail (Code MOSQ_ERR_NOMEM) else ok ())))
         (\<lambda>_. tree_held X q0 T) (tree_held X q0 T)"
        by (rule triple_bindE [OF held_add']) (use last [OF n] in \<open>auto split: prod.split\<close>)
    qed
    from triple_bindE [OF held_root this] show "triple ?I (bindE (root_of ts) (\<lambda>root. bindE (sub__add_recurse (Some c) qos [hd ts] root ts) (\<lambda>(rc, root').
     bindE (modify (put_root root')) (\<lambda>_. if rc = Add_nomem then fail (Code MOSQ_ERR_NOMEM) else ok ()))))
      (\<lambda>_. tree_held X q0 T) (tree_held X q0 T)" .
  qed
qed

text \<open>Removing.\<close>

lemma upd_held: "held X q0 h T b \<Longrightarrow> (\<And>k. same_messages k (f k)) \<Longrightarrow> held X q0 h T (upd_client c f b)"
  unfolding held_def using st_same by blast

lemma held_remove:
  "sub__remove_recurse c path n ts b = (n', b') \<Longrightarrow> held X q0 h T b \<Longrightarrow>
   sh_topic n' = sh_topic n \<and> tree_refs [n'] = tree_refs [n] \<and> held X q0 h T b'"
proof (induction ts arbitrary: path n n' b b')
  case Nil
  have "held X q0 h T (upd_client c (\<lambda>k. k\<lparr>k_subs := forget path (k_subs k)\<rparr>) (b\<lparr>subscription_count := subscription_count b - 1\<rparr>))"
    by (rule upd_held [OF held_unchanged [OF un_fields(1) Nil.prems(2)]]) (rule same_record; simp)
  then show ?case using Nil by (auto simp: set_subs_def split: option.splits)
next
  case (Cons t ts)
  show ?case
  proof (cases "find_child t (sh_children n)")
    case None
    then show ?thesis using Cons.prems by simp
  next
    case (Some br)
    obtain br' b1 where r: "sub__remove_recurse c (path @ [t]) br ts b = (br', b1)" by fastforce
    have ih: "sh_topic br' = sh_topic br \<and> tree_refs [br'] = tree_refs [br] \<and> held X q0 h T b1"
      by (rule Cons.IH [OF r Cons.prems(2)])
    have "sh_topic br = t" using find_child_Some [OF Some] by simp
    then show ?thesis
      using Cons.prems(1) Some r ih tree_refs_child [OF Some, of br'] by (auto split: if_splits)
  qed
qed

lemma tree_remove: "keeps (tree_held X q0 T) (sub__remove c sub)"
  unfolding sub__remove_def
proof (rule keeps_bindE)
  show "keeps (tree_held X q0 T) (on_error (as_code MOSQ_ERR_NOMEM) (sub__topic_tokenise sub) :: ('p, _) broker_comp)"
    by (intro triple_on_error keeps_tree held_un_rules) simp
  fix ts
  show "keeps (tree_held X q0 T) (bindE (root_of ts) (\<lambda>root.
     modify (\<lambda>b. case sub__remove_recurse c [hd ts] root ts b of (root', b') \<Rightarrow> put_root root' b')) :: ('p, _) broker_comp)"
  proof (rule triple_tree, rule triple_bindE [OF held_root], rule triple_conj, rule triple_modify)
    fix h n and b :: "'p broker"
    assume n: "find_child (hd ts) h = Some n" and b: "held X q0 h (tree_refs h + T) b"
    obtain n' b' where r: "sub__remove_recurse c [hd ts] n ts b = (n', b')" by fastforce
    then show "tree_held X q0 T (case sub__remove_recurse c [hd ts] n ts b of (root', b') \<Rightarrow> put_root root' b')"
      using held_remove [OF r b] n find_child_Some [OF n] by (auto intro: put_root_held)
  qed
qed

lemma clean_refs: "sh_topic (clean_path c n ts) = sh_topic n \<and> tree_refs [clean_path c n ts] = tree_refs [n]"
proof (induction ts arbitrary: n)
  case Nil
  then show ?case by (simp add: set_subs_def)
next
  case (Cons t ts)
  show ?case
  proof (cases "find_child t (sh_children n)")
    case (Some br)
    have "sh_topic br = t" using find_child_Some [OF Some] by simp
    then show ?thesis using Some Cons.IH [of br] tree_refs_child [OF Some, of "clean_path c br ts"]
      by (auto simp: Let_def)
  qed simp
qed

lemma retarget_refs: "sh_topic (retarget_path f c n ts) = sh_topic n \<and> tree_refs [retarget_path f c n ts] = tree_refs [n]"
proof (induction ts arbitrary: n)
  case Nil
  then show ?case by (simp add: set_subs_def)
next
  case (Cons t ts)
  show ?case
  proof (cases "find_child t (sh_children n)")
    case (Some br)
    have "sh_topic br = t" using find_child_Some [OF Some] by simp
    then show ?thesis using Some Cons.IH [of br] tree_refs_child(1) [OF Some, of "retarget_path f c br ts"] by simp
  qed simp
qed

text \<open>A root is replaced by one with the same references.\<close>

lemma tree_put_root:
  assumes "\<And>n. sh_topic (g n) = sh_topic n \<and> tree_refs [g n] = tree_refs [n]" and "\<And>u. keeps (tree_held X q0 T) (m u)"
  shows "keeps (tree_held X q0 T) (bindE (root_of ts) (\<lambda>root. bindE (modify (put_root (g root))) m))"
proof (rule triple_tree, rule triple_bindE [OF held_root], rule triple_conj)
  fix h n
  assume n: "find_child (hd ts) h = Some n"
  have "triple (held X q0 h (tree_refs h + T)) (modify (put_root (g n))) (\<lambda>_. tree_held X q0 T) (tree_held X q0 T)"
    using n find_child_Some [OF n] assms(1) [of n] by (intro triple_modify) (auto intro: put_root_held)
  from triple_bindE [OF this assms(2)]
  show "triple (held X q0 h (tree_refs h + T)) (bindE (modify (put_root (g n))) m) (\<lambda>_. tree_held X q0 T) (tree_held X q0 T)" .
qed

lemma tree_un: "frames unchanged m \<Longrightarrow> keeps (tree_held X q0 T) m"
  by (intro keeps_tree held_un)

lemma tree_fields: "(\<And>b. unchanged b (f b)) \<Longrightarrow> keeps (tree_held X q0 T) (modify f)"
  by (intro keeps_tree held_fields)

lemma tree_client: "(\<And>k. same_messages k (f k)) \<Longrightarrow> keeps (tree_held X q0 T) (modify (upd_client c f))"
  by (intro keeps_tree held_client)

lemmas tree_un_rules = un_rules [THEN tree_un]

lemma tree_clean_nodes: "keeps (tree_held X q0 T) (clean_nodes c ps)"
  by (induction c ps rule: clean_nodes.induct) (auto intro!: keep_rules tree_put_root tree_fields simp: clean_refs un_fields un.R_refl simp del: tree_refs.simps(2))

lemma tree_clean_session: "keeps (tree_held X q0 T) (sub__clean_session c)"
  unfolding sub__clean_session_def
  by (intro keep_rules tree_un_rules tree_clean_nodes tree_client same_record) simp_all

lemma tree_retarget: "keeps (tree_held X q0 T) (retarget_nodes f c ps)"
  by (induction f c ps rule: retarget_nodes.induct) (auto intro!: keep_rules tree_put_root simp: retarget_refs simp del: tree_refs.simps(2))

section \<open>Publishing\<close>

text \<open>The search works on the children of a root, which is put back afterwards.\<close>

lemma tree_search_put:
  assumes "find_child (sh_topic n) h = Some m" and "tree_refs [n] = tree_refs [m]"
  shows "triple (held X q0 h (add_mset a (tree_refs h + T)))
    (bindE (sub__search (subs__process src topic qos retain a) True (sh_children n) ts) (\<lambda>cs.
     bindE (modify (put_root (set_children cs n))) (\<lambda>_. db__msg_store_deref a))) (\<lambda>_. tree_held X q0 T) (\<lambda>_. False)"
proof -
  let ?O = "tree_refs [set_children [] n] + add_mset a (tree_refs (drop_child (sh_topic n) h) + T)"
  have rest: "tree_refs (drop_child (sh_topic n) h) + tree_refs [n] = tree_refs h"
    using tree_refs_drop [OF assms(1)] assms(2) by simp
  have n: "tree_refs [set_children cs n] = tree_refs [set_children [] n] + tree_refs cs" for cs
    by (simp add: set_children_def)
  have e: "tree_refs (sh_children n) + ?O = add_mset a (tree_refs h + T)"
    using rest n [of "sh_children n"] by (simp add: set_children_def [of "sh_children n"] ac_simps)
  have put: "held X q0 (put_child (set_children cs n) h) (add_mset a (tree_refs (put_child (set_children cs n) h) + T)) (put_root (set_children cs n) b)"
    if b: "held X q0 h (tree_refs cs + ?O) b" for cs and b :: "'p broker"
  proof -
    have "tree_refs (put_child (set_children cs n) h) + tree_refs [n] = tree_refs h + tree_refs [set_children cs n]"
      using tree_refs_put [of "set_children cs n" h m] assms by simp
    also have "\<dots> = (tree_refs (drop_child (sh_topic n) h) + tree_refs [set_children cs n]) + tree_refs [n]"
      unfolding rest [symmetric] by (simp only: ac_simps)
    finally have "tree_refs (put_child (set_children cs n) h) = tree_refs (drop_child (sh_topic n) h) + tree_refs [set_children cs n]"
      by (simp only: add_right_cancel)
    then have e2: "tree_refs cs + ?O = add_mset a (tree_refs (put_child (set_children cs n) h) + T)"
      by (simp only: n [of cs]) (simp add: ac_simps)
    show ?thesis using held_put_root [OF b, of "set_children cs n"] unfolding e2 .
  qed
  have last: "triple (held X q0 h (tree_refs cs + ?O) :: 'p broker \<Rightarrow> bool)
      (bindE (modify (put_root (set_children cs n))) (\<lambda>_. db__msg_store_deref a)) (\<lambda>_. tree_held X q0 T) (\<lambda>_. False)" for cs
  proof (rule triple_bindE)
    show "triple (held X q0 h (tree_refs cs + ?O) :: 'p broker \<Rightarrow> bool) (modify (put_root (set_children cs n)))
        (\<lambda>_. held X q0 (put_child (set_children cs n) h) (add_mset a (tree_refs (put_child (set_children cs n) h) + T))) (\<lambda>_. False)"
      by (rule triple_modify) (rule put)
    show "triple (held X q0 (put_child (set_children cs n) h) (add_mset a (tree_refs (put_child (set_children cs n) h) + T)))
        (db__msg_store_deref a) (\<lambda>_. tree_held X q0 T) (\<lambda>_. False)" for u
      by (rule triple_weaken [OF held_deref]) (auto intro: held_tree)
  qed
  from triple_bindE [OF held_search [OF held_process] last] show ?thesis
    unfolding e [symmetric] .
qed

lemma tree_publish: "keeps (tree_held X q0 T) (sub__messages_queue src topic qos retain a)"
  unfolding sub__messages_queue_def
proof (rule keeps_bindE)
  show "keeps (tree_held X q0 T) (on_error (as_code MOSQ_ERR_NOMEM) (sub__topic_tokenise topic) :: ('p, _) broker_comp)"
    by (intro triple_on_error keeps_tree held_un_rules) simp
  fix ts
  show "keeps (tree_held X q0 T) (bindE (db__msg_store_ref a) (\<lambda>_.
     bindE (root_of ts) (\<lambda>root.
     bindE (if retain then bindE (sub__add_recurse None 0 [hd ts] root ts) (\<lambda>(_, root'). ok root') else ok root) (\<lambda>root'.
     bindE (sub__search (subs__process src topic qos retain a) True (sh_children root') ts) (\<lambda>cs.
     bindE (modify (put_root (set_children cs root'))) (\<lambda>_.
     db__msg_store_deref a))))) :: ('p, unit) broker_comp)"
  proof (rule triple_tree, rule triple_bindE [OF held_ref], rule triple_bindE [OF held_root], rule triple_conj)
    fix h n
    assume n: "find_child (hd ts) h = Some n"
    let ?I = "held X q0 h (add_mset a (tree_refs h + T)) :: 'p broker \<Rightarrow> bool"
    have made: "triple ?I (if retain then bindE (sub__add_recurse None 0 [hd ts] n ts) (\<lambda>(_, root'). ok root') else ok n)
        (\<lambda>n' b. (sh_topic n' = sh_topic n \<and> tree_refs [n'] = tree_refs [n]) \<and> ?I b) (tree_held X q0 T)"
    proof (rule triple_if)
      show "triple ?I (bindE (sub__add_recurse None 0 [hd ts] n ts) (\<lambda>(_, root'). ok root'))
        (\<lambda>n' b. (sh_topic n' = sh_topic n \<and> tree_refs [n'] = tree_refs [n]) \<and> ?I b) (tree_held X q0 T)"
        by (rule triple_bindE [OF held_add']) (auto simp del: tree_refs.simps(2) intro: triple_ok split: prod.split)
    qed (rule triple_ok, simp)
    have "triple ?I (bindE (sub__search (subs__process src topic qos retain a) True (sh_children n') ts) (\<lambda>cs.
        bindE (modify (put_root (set_children cs n'))) (\<lambda>_. db__msg_store_deref a))) (\<lambda>_. tree_held X q0 T) (tree_held X q0 T)"
      if "sh_topic n' = sh_topic n \<and> tree_refs [n'] = tree_refs [n]" for n'
      by (rule triple_weaken [OF tree_search_put]) (use that n find_child_Some [OF n] in auto)
    then show "triple ?I (bindE (if retain then bindE (sub__add_recurse None 0 [hd ts] n ts) (\<lambda>(_, root'). ok root') else ok n) (\<lambda>root'.
     bindE (sub__search (subs__process src topic qos retain a) True (sh_children root') ts) (\<lambda>cs.
     bindE (modify (put_root (set_children cs root'))) (\<lambda>_. db__msg_store_deref a)))) (\<lambda>_. tree_held X q0 T) (tree_held X q0 T)"
      by (intro triple_bindE [OF made] triple_conj)
  qed
qed

end
