(* ===== verification/RefMoves.thy ===== *)
theory RefMoves
  imports RefTree
begin

text \<open>
  The references when messages are moved between the queues of a client or taken out of them: deletion,
  release, the reset after a reconnect, and writing.
\<close>

section \<open>Changing the queues of a client\<close>

text \<open>As \<open>held\<close>, but nothing said about the queues.\<close>

definition loose :: "nat option \<Rightarrow> subhier list \<Rightarrow> nat multiset \<Rightarrow> 'p broker \<Rightarrow> bool" where
  "loose X h T b \<longleftrightarrow> (\<exists>qs. st X h qs (queue_refs qs + T) b)"

lemma looseI: "st X h qs H b \<Longrightarrow> H = queue_refs qs + T \<Longrightarrow> loose X h T b"
  by (auto simp: loose_def)

lemma triple_loose: "(\<And>qs. triple (st X h qs (queue_refs qs + T)) m Q E) \<Longrightarrow> triple (loose X h T) m Q E"
  unfolding loose_def by (rule triple_ex)

lemma keeps_loose:
  assumes "\<And>q0. keeps (held X q0 h T) m"
  shows "keeps (loose X h T) m"
proof (rule triple_loose)
  fix qs
  show "triple (st X h qs (queue_refs qs + T)) m (\<lambda>_. loose X h T) (loose X h T)"
    by (rule triple_weaken [OF assms [of qs]]) (auto simp: held_def loose_def intro: grown_refl)
qed

lemma loose_un: "frames unchanged m \<Longrightarrow> keeps (loose X h T) m"
  by (intro keeps_loose held_un)

lemma loose_client: "(\<And>k. same_messages k (f k)) \<Longrightarrow> keeps (loose X h T) (modify (upd_client c f))"
  by (intro keeps_loose held_client)

lemma loose_run: "frames same_client m \<Longrightarrow> keeps (loose X h T) (run_on c m)"
  by (intro keeps_loose keeps_held keeps_run)

lemmas loose_rules = un_rules [THEN loose_un]

lemmas loose_runs = same_sends [THEN loose_run] same_reads [THEN loose_run] same_granted [THEN loose_run] same_publish [THEN loose_run]

text \<open>New queues; a client without messages has none after it.\<close>

definition moved :: "client_msg list \<times> client_msg list \<times> bytes option \<Rightarrow> client_msg list \<times> client_msg list \<times> bytes option \<Rightarrow> bool" where
  "moved v v' \<longleftrightarrow> snd (snd v') = snd (snd v) \<and> (fst v = [] \<and> fst (snd v) = [] \<longrightarrow> fst v' = [] \<and> fst (snd v') = [])"

lemma st_move:
  assumes "st X h qs H b" and c: "c < length qs" and v: "\<And>k. view k = qs ! c \<Longrightarrow> view (f k) = v \<and> conn_state (f k) = conn_state k \<and> k_listener (f k) = k_listener k"
    and "moved (qs ! c) v"
  shows "st X h (qs[c := v]) H (upd_client c f b)"
proof -
  have k: "view (contexts b ! c) = qs ! c" by (rule st_refs [OF assms(1) c])
  have "new_ok (f (contexts b ! c))" if "Some c \<noteq> X"
  proof -
    have "new_ok (contexts b ! c)" using assms(1) that c st_length [OF assms(1)] by (auto simp: st_def)
    moreover have "moved (view (contexts b ! c)) (view (f (contexts b ! c)))" using v [OF k] assms(4) k by simp
    ultimately show ?thesis using v [OF k] by (auto simp: new_ok_def moved_def view_def)
  qed
  from st_client [of X h qs H b c f, OF assms(1) this] show ?thesis using v [OF k] c by simp
qed

lemma triple_move:
  assumes "c < length qs" and "\<And>k. view k = qs ! c \<Longrightarrow> view (f k) = v \<and> conn_state (f k) = conn_state k \<and> k_listener (f k) = k_listener k"
    and "moved (qs ! c) v"
  shows "triple (st X h qs H) (modify (upd_client c f)) (\<lambda>_. st X h (qs[c := v]) H) E"
  by (rule triple_modify, rule st_move) (use assms in auto)

text \<open>The references of the other clients.\<close>

definition others :: "nat \<Rightarrow> queues \<Rightarrow> nat multiset" where
  "others c qs = queue_refs (qs[c := ([], [], None)])"

lemma queue_refs_at: "c < length qs \<Longrightarrow> queue_refs qs = msg_refs (fst (qs ! c)) + msg_refs (fst (snd (qs ! c))) + others c qs"
  using queue_refs_upd [of c qs "([], [], None)"] by (simp add: others_def ac_simps)

lemma others_upd [simp]: "others c (qs[c := v]) = others c qs"
  by (simp add: others_def)

section \<open>Taking messages out\<close>

lemma same_count [simp]: "same_messages k (count_in m n k)" "same_messages k (count_out m n k)"
  by (simp_all add: same_messages_def new_ok_def view_def count_in_def count_out_def)

lemma triple_message_remove:
  "triple (st X h qs (add_mset (cm_store m) H)) (db__message_remove c m) (\<lambda>_. st X h qs H) E"
  unfolding db__message_remove_def
proof (rule triple_store_at')
  fix s
  have "triple (st X h qs (add_mset (cm_store m) H)) (modify (upd_client c (count_out m (payload_words s))))
      (\<lambda>_. st X h qs (add_mset (cm_store m) H)) E"
    by (rule triple_modify, rule st_same) simp_all
  from triple_bindE [OF this triple_deref]
  show "triple (st X h qs (add_mset (cm_store m) H))
      (bindE (modify (upd_client c (count_out m (payload_words s)))) (\<lambda>_. db__msg_store_deref (cm_store m))) (\<lambda>_. st X h qs H) E" .
qed

text \<open>A loop over a list that gives up the references of the messages it does not keep.\<close>

definition sheds :: "nat option \<Rightarrow> subhier list \<Rightarrow> queues \<Rightarrow> nat multiset \<Rightarrow> client_msg list \<Rightarrow> ('p, client_msg list) broker_comp \<Rightarrow> bool" where
  "sheds X h qs H ms m \<longleftrightarrow> triple (st X h qs (msg_refs ms + H)) m
     (\<lambda>kept b. length kept \<le> length ms \<and> st X h qs (msg_refs kept + H) b) (\<lambda>_. False)"

lemma sheds_Nil: "sheds X h qs H [] (ok [])"
  unfolding sheds_def by (rule triple_ok) simp

lemma sheds_keep:
  assumes "sheds X h qs (add_mset (cm_store m) H) ms l" and "cm_store m' = cm_store m"
  shows "sheds X h qs H (m # ms) (bindE l (\<lambda>kept. ok (m' # kept)))"
proof -
  have "triple (\<lambda>b. length kept \<le> length ms \<and> st X h qs (msg_refs kept + add_mset (cm_store m) H) b) (ok (m' # kept))
      (\<lambda>kept b. length kept \<le> length (m # ms) \<and> st X h qs (msg_refs kept + H) b) (\<lambda>_. False)" for kept
    by (rule triple_ok) (simp add: assms(2))
  from triple_bindE [OF assms(1) [unfolded sheds_def] this] show ?thesis by (simp add: sheds_def)
qed

lemma sheds_drop:
  assumes "sheds X h qs H ms l"
  shows "sheds X h qs H (m # ms) (bindE (db__message_remove c m) (\<lambda>_. l))"
proof -
  have "triple (st X h qs (msg_refs ms + H)) l (\<lambda>kept b. length kept \<le> length (m # ms) \<and> st X h qs (msg_refs kept + H) b) (\<lambda>_. False)"
    by (rule triple_weaken [OF assms [unfolded sheds_def]]) auto
  from triple_bindE [OF triple_message_remove this] show ?thesis by (simp add: sheds_def)
qed

lemma sheds_delete: "sheds X h qs H ms (delete_loop c mid dir ms)"
  by (induction ms arbitrary: H) (auto intro: sheds_Nil sheds_keep sheds_drop)

lemma triple_failed: "keeps I m \<Longrightarrow> triple I (failed m) (\<lambda>_. I) E"
  unfolding failed_def
  by (rule triple_rescue [where F = I]) (auto intro!: keeps_bindE triple_leaf)

lemma lose_same [simp]: "same_messages k (lose fl k)"
  by (cases fl) (simp_all add: lose_def same_messages_def view_def new_ok_def)

lemma sheds_acl: "sheds X h qs H ms (connection_check_acl c fl ms :: ('p, _) broker_comp)"
proof (induction ms arbitrary: H)
  case Nil
  show ?case unfolding connection_check_acl.simps by (rule sheds_Nil)
next
  case (Cons m ms)
  have f: "triple (st X h qs (msg_refs (m # ms) + H) :: 'p broker \<Rightarrow> bool) (if cm_direction m = mosq_md_out
            then bindE (store_at (cm_store m)) (\<lambda>s.
                 bindE (pure_res (case s_topic s of None \<Rightarrow> Inl Fault | Some t \<Rightarrow> Inr t)) (\<lambda>topic.
                 failed (mosquitto_acl_check c topic (s_payload s) (s_qos s) (s_retain s) MOSQ_ACL_READ)))
            else ok False) (\<lambda>_. st X h qs (msg_refs (m # ms) + H)) (\<lambda>_. False)" (is "triple ?I _ _ _")
  proof (rule triple_if [OF triple_store_at' triple_leaf(1)])
    fix s
    show "triple ?I (bindE (pure_res (case s_topic s of None \<Rightarrow> Inl Fault | Some t \<Rightarrow> Inr t)) (\<lambda>topic.
        failed (mosquitto_acl_check c topic (s_payload s) (s_qos s) (s_retain s) MOSQ_ACL_READ))) (\<lambda>_. ?I) (\<lambda>_. False)"
      by (rule triple_bindE [OF _ triple_failed [OF keeps_un [OF un_acl]]]) (auto simp: triple_def pure_res_def split: option.split)
  qed
  have "triple (st X h qs (msg_refs (m # ms) + H) :: 'p broker \<Rightarrow> bool)
      (if denied then bindE (db__msg_store_deref (cm_store m)) (\<lambda>_.
          bindE (modify (upd_client c (\<lambda>k. if ms = [] then lose fl k else k))) (\<lambda>_. connection_check_acl c fl ms))
       else bindE (connection_check_acl c fl ms) (\<lambda>kept. ok (m # kept)))
      (\<lambda>kept b. length kept \<le> length (m # ms) \<and> st X h qs (msg_refs kept + H) b) (\<lambda>_. False)" for denied
  proof (rule triple_if)
    show "triple (st X h qs (msg_refs (m # ms) + H) :: 'p broker \<Rightarrow> bool) (bindE (connection_check_acl c fl ms) (\<lambda>kept. ok (m # kept)))
        (\<lambda>kept b. length kept \<le> length (m # ms) \<and> st X h qs (msg_refs kept + H) b) (\<lambda>_. False)"
      using sheds_keep [OF Cons.IH refl, of H m] unfolding sheds_def .
    have next_triple: "triple (st X h qs (msg_refs ms + H) :: 'p broker \<Rightarrow> bool) (connection_check_acl c fl ms)
        (\<lambda>kept b. length kept \<le> length (m # ms) \<and> st X h qs (msg_refs kept + H) b) (\<lambda>_. False)"
      by (rule triple_weaken [OF Cons.IH [unfolded sheds_def]]) auto
    have "triple (st X h qs (msg_refs ms + H) :: 'p broker \<Rightarrow> bool) (modify (upd_client c (\<lambda>k. if ms = [] then lose fl k else k)))
        (\<lambda>_. st X h qs (msg_refs ms + H)) (\<lambda>_. False)"
      by (rule triple_modify, rule st_same) (auto simp: same_messages_def [of k k for k])
    from triple_bindE [OF triple_deref triple_bindE [OF this next_triple]]
    show "triple (st X h qs (msg_refs (m # ms) + H) :: 'p broker \<Rightarrow> bool) (bindE (db__msg_store_deref (cm_store m)) (\<lambda>_.
          bindE (modify (upd_client c (\<lambda>k. if ms = [] then lose fl k else k))) (\<lambda>_. connection_check_acl c fl ms)))
        (\<lambda>kept b. length kept \<le> length (m # ms) \<and> st X h qs (msg_refs kept + H) b) (\<lambda>_. False)"
      by simp
  qed
  from triple_bindE [OF f this] show ?case unfolding sheds_def connection_check_acl.simps .
qed

lemma triple_deref_all: "triple (st X h qs (msg_refs ms + H)) (deref_all ms) (\<lambda>_. st X h qs H) E"
proof (induction ms)
  case Nil
  show ?case by (simp add: triple_ok)
next
  case (Cons m ms)
  from triple_bindE [OF triple_deref Cons.IH] show ?case by simp
qed

text \<open>An incoming message of less than QoS 2 is dropped, and the next one is passed over.\<close>

lemma sheds_count:
  assumes "\<And>s. sheds X h qs H ms (l s)"
  shows "sheds X h qs H ms (bindE (store_at a) (\<lambda>s. bindE (modify (upd_client c (count_in m (payload_words s)))) (\<lambda>_. l s)))"
  unfolding sheds_def
proof (rule triple_store_at', rule triple_bindE)
  fix s
  show "triple (st X h qs (msg_refs ms + H)) (modify (upd_client c (count_in m (payload_words s)))) (\<lambda>_. st X h qs (msg_refs ms + H)) (\<lambda>_. False)"
    by (rule triple_modify, rule st_same) simp_all
  show "triple (st X h qs (msg_refs ms + H)) (l s) (\<lambda>kept b. length kept \<le> length ms \<and> st X h qs (msg_refs kept + H) b) (\<lambda>_. False)" for u
    using assms by (simp add: sheds_def)
qed

lemma resent_store [simp]: "cm_store (resent m) = cm_store m"
  by (simp add: resent_def)

lemma sheds_reset: "sheds X h qs H ms (reset_inflight c ms :: ('p, _) broker_comp)"
proof (induction "length ms" arbitrary: H ms rule: less_induct)
  case less
  show ?case
  proof (cases ms)
    case Nil
    show ?thesis unfolding Nil reset_inflight.simps by (rule sheds_Nil)
  next
    case (Cons m rest)
    have rest: "sheds X h qs H' rest (reset_inflight c rest :: ('p, _) broker_comp)" for H'
      by (rule less) (simp add: Cons)
    have past: "sheds X h qs H' rest
        ((case rest of [] \<Rightarrow> ok [] | m2 # ms2 \<Rightarrow> bindE (reset_inflight c ms2) (\<lambda>kept. ok (m2 # kept))) :: ('p, _) broker_comp)" for H'
    proof (cases rest)
      case Nil
      then show ?thesis by (simp add: sheds_Nil)
    next
      case (Cons m2 ms2)
      have "sheds X h qs (add_mset (cm_store m2) H') ms2 (reset_inflight c ms2 :: ('p, _) broker_comp)"
        by (rule less) (simp add: \<open>ms = m # rest\<close> Cons)
      then show ?thesis using sheds_keep [OF _ refl] Cons by simp
    qed
    show ?thesis
      unfolding Cons reset_inflight.simps
      by (intro sheds_count) (simp add: sheds_keep rest sheds_drop [OF past])
  qed
qed

section \<open>The lists of a client\<close>

text \<open>New lists for client \<open>c\<close>: the counts already stand for them.\<close>

lemma triple_relist:
  assumes c: "c < length qs"
    and v: "\<And>k. view k = qs ! c \<Longrightarrow> view (f k) = (i, q, snd (snd (qs ! c))) \<and> conn_state (f k) = conn_state k \<and> k_listener (f k) = k_listener k"
    and e: "fst (qs ! c) = [] \<and> fst (snd (qs ! c)) = [] \<Longrightarrow> i = [] \<and> q = []"
    and H: "H = msg_refs i + (msg_refs q + (others c qs + T))"
  shows "triple (st X h qs H) (modify (upd_client c f)) (\<lambda>_. st X h (qs[c := (i, q, snd (snd (qs ! c)))])
    (queue_refs (qs[c := (i, q, snd (snd (qs ! c)))]) + T)) E"
proof -
  have "queue_refs (qs[c := (i, q, snd (snd (qs ! c)))]) + T = H"
    using queue_refs_at [of c "qs[c := (i, q, snd (snd (qs ! c)))]"] c by (simp add: H)
  moreover have "triple (st X h qs H) (modify (upd_client c f)) (\<lambda>_. st X h (qs[c := (i, q, snd (snd (qs ! c)))]) H) E"
    using e by (intro triple_move [OF c v]) (auto simp: moved_def)
  ultimately show ?thesis by simp
qed

lemma loose_st [simp]: "st X h qs (queue_refs qs + T) b \<Longrightarrow> loose X h T b"
  by (auto simp: loose_def)

lemma triple_relist_loose:
  assumes "c < length qs"
    and "\<And>k. view k = qs ! c \<Longrightarrow> view (f k) = (i, q, snd (snd (qs ! c))) \<and> conn_state (f k) = conn_state k \<and> k_listener (f k) = k_listener k"
    and "fst (qs ! c) = [] \<and> fst (snd (qs ! c)) = [] \<Longrightarrow> i = [] \<and> q = []"
    and "H = msg_refs i + (msg_refs q + (others c qs + T))"
  shows "triple (st X h qs H) (modify (upd_client c f)) (\<lambda>_. loose X h T) E"
  by (rule triple_weaken [OF triple_relist [OF assms, of X h E]]) auto

text \<open>Lists from which messages were taken.\<close>

lemma sheds_inflight_exact:
  assumes c: "c < length qs" and k: "qs ! c = (ms, q, d)" and l: "\<And>H. sheds X h qs H ms l"
    and f: "\<And>kept k. view (f kept k) = (kept, snd (view k)) \<and> conn_state (f kept k) = conn_state k \<and> k_listener (f kept k) = k_listener k"
    and r: "\<And>kept. (ms = [] \<Longrightarrow> kept = []) \<Longrightarrow> triple (st X h (qs[c := (kept, q, d)]) (queue_refs (qs[c := (kept, q, d)]) + T)) (rest kept) Q E"
  shows "triple (st X h qs (queue_refs qs + T))
    (bindE l (\<lambda>kept. bindE (modify (upd_client c (f kept))) (\<lambda>_. rest kept))) Q E"
proof -
  let ?H = "msg_refs q + (others c qs + T)"
  have e: "queue_refs qs + T = msg_refs ms + ?H" using queue_refs_at [OF c] by (simp add: k ac_simps)
  have l': "triple (st X h qs (queue_refs qs + T)) l (\<lambda>kept b. length kept \<le> length ms \<and> st X h qs (msg_refs kept + ?H) b) E"
    using l [of ?H] unfolding e sheds_def by (rule triple_weaken) auto
  have m: "triple (\<lambda>b. length kept \<le> length ms \<and> st X h qs (msg_refs kept + ?H) b)
      (bindE (modify (upd_client c (f kept))) (\<lambda>_. rest kept)) Q E" for kept
    by (rule triple_conj, rule triple_bindE [OF triple_relist [OF c, where i = kept and q = q, unfolded k snd_conv] r])
      (auto simp: f)
  show ?thesis by (rule triple_bindE [OF l' m])
qed

lemma sheds_queued_exact:
  assumes c: "c < length qs" and k: "qs ! c = (ms, q, d)" and l: "\<And>H. sheds X h qs H q l"
    and r: "\<And>kept. triple (loose X h T) (rest kept) Q E"
  shows "triple (st X h qs (queue_refs qs + T))
    (bindE l (\<lambda>kept. bindE (modify (upd_client c (\<lambda>k. k\<lparr>queued_msgs := kept\<rparr>))) (\<lambda>_. rest kept))) Q E"
proof -
  let ?H = "msg_refs ms + (others c qs + T)"
  have e: "queue_refs qs + T = msg_refs q + ?H" using queue_refs_at [OF c] by (simp add: k ac_simps)
  have l': "triple (st X h qs (queue_refs qs + T)) l (\<lambda>kept b. length kept \<le> length q \<and> st X h qs (msg_refs kept + ?H) b) E"
    using l [of ?H] unfolding e sheds_def by (rule triple_weaken) auto
  have m: "triple (\<lambda>b. length kept \<le> length q \<and> st X h qs (msg_refs kept + ?H) b)
      (modify (upd_client c (\<lambda>k. k\<lparr>queued_msgs := kept\<rparr>))) (\<lambda>_. loose X h T) E" for kept
    by (rule triple_conj, rule triple_relist_loose [OF c, where i = ms and q = kept, unfolded k snd_conv])
      (auto simp: view_def ac_simps)
  show ?thesis by (rule triple_bindE [OF l' triple_bindE [OF m r]])
qed

lemma sheds_inflight:
  assumes "c < length qs" and "view k = qs ! c" and "\<And>H. sheds X h qs H (inflight_msgs k) l"
    and f: "\<And>kept k. view (f kept k) = (kept, snd (view k)) \<and> conn_state (f kept k) = conn_state k \<and> k_listener (f kept k) = k_listener k"
    and r: "\<And>kept. triple (loose X h T) (rest kept) Q E"
  shows "triple (st X h qs (queue_refs qs + T))
    (bindE l (\<lambda>kept. bindE (modify (upd_client c (f kept))) (\<lambda>_. rest kept))) Q E"
proof (rule sheds_inflight_exact [OF assms(1) assms(2) [unfolded view_def, symmetric] assms(3) f])
  show "triple (st X h (qs[c := (kept, queued_msgs k, k_id k)]) (queue_refs (qs[c := (kept, queued_msgs k, k_id k)]) + T)) (rest kept) Q E" for kept
    by (rule triple_weaken [OF r]) auto
qed

section \<open>Moving up and deleting\<close>

text \<open>A list with the same stored messages.\<close>

lemma triple_same_refs:
  assumes "c < length qs"
    and "\<And>k. view k = qs ! c \<Longrightarrow> view (f k) = (i, q, snd (snd (qs ! c))) \<and> conn_state (f k) = conn_state k \<and> k_listener (f k) = k_listener k"
    and "fst (qs ! c) = [] \<and> fst (snd (qs ! c)) = [] \<Longrightarrow> i = [] \<and> q = []"
    and "msg_refs i + msg_refs q = msg_refs (fst (qs ! c)) + msg_refs (fst (snd (qs ! c)))"
  shows "triple (st X h qs (queue_refs qs + T)) (modify (upd_client c f)) (\<lambda>_. loose X h T) E"
  by (rule triple_relist_loose [OF assms(1,2,3)]) (use assms(4) queue_refs_at [OF assms(1)] in \<open>auto simp: add.assoc [symmetric]\<close>)

lemma triple_dequeue:
  assumes "c < length qs" and k: "view k = qs ! c" and q: "queued_msgs k = m # ms" and f: "cm_store (f m) = cm_store m"
  shows "triple (st X h qs (queue_refs qs + T)) (modify (upd_client c (db__message_dequeue_first f))) (\<lambda>_. loose X h T) E"
  by (rule triple_same_refs [OF assms(1), where i = "inflight_msgs k @ [f m]" and q = ms])
    (use q f in \<open>auto simp: k [symmetric] view_def db__message_dequeue_first_def\<close>)

lemma triple_requeue:
  assumes "c < length qs" and k: "view k = qs ! c" and q: "queued_msgs k = m # ms" and f: "cm_store m' = cm_store m"
  shows "triple (st X h qs (queue_refs qs + T)) (modify (upd_client c (\<lambda>k. k\<lparr>queued_msgs := m' # tl (queued_msgs k)\<rparr>))) (\<lambda>_. loose X h T) E"
  by (rule triple_same_refs [OF assms(1), where i = "inflight_msgs k" and q = "m' # ms"])
    (use q f in \<open>auto simp: k [symmetric] view_def\<close>)

text \<open>From exactly known queues into the loose state.\<close>

lemma loose_step:
  assumes "keeps (st X h qs (queue_refs qs + T)) m" and "\<And>x. triple (st X h qs (queue_refs qs + T)) (k x) Q (loose X h T)"
  shows "triple (st X h qs (queue_refs qs + T)) (bindE m k) Q (loose X h T)"
  by (rule triple_step [OF assms(1) _ assms(2)]) simp

lemma loose_ok: "triple (st X h qs (queue_refs qs + T)) (ok x) (\<lambda>_. loose X h T) (loose X h T)"
  by (rule triple_ok) simp

lemma loose_move_up: "keeps (loose X h T :: 'p broker \<Rightarrow> bool) (move_up C U c n i)"
proof (induction n arbitrary: i)
  case 0
  show ?case unfolding move_up.simps by (rule keeps_leaf)
next
  case (Suc n)
  show ?case
    unfolding move_up.simps
  proof (rule triple_loose, rule triple_client_at)
    fix qs and k :: "'p client_context"
    assume c: "c < length qs" and k: "view k = qs ! c"
    note deq = triple_bindE [OF triple_dequeue [OF c k] Suc.IH] and req = triple_bindE [OF triple_requeue [OF c k] Suc.IH]
    have i: "keeps (st X h qs (queue_refs qs + T)) (ignore m)" if "keeps (st X h qs (queue_refs qs + T)) m"
      for m :: "('p, unit) broker_comp"
      by (rule triple_ignore [OF that])
    show "triple (st X h qs (queue_refs qs + T)) (bindE (asks max_inflight) (\<lambda>max_n.
        bindE (asks b_now) (\<lambda>now.
        case queued_msgs k of [] \<Rightarrow> ok True
        | m # _ \<Rightarrow>
          if \<not> (max_n = 0 \<or> int i < max_n) then ok True
          else if cm_direction m = mosq_md_out
          then bindE (ensure (linked True k) Fault) (\<lambda>_.
               bindE (modify (upd_client c (db__message_dequeue_first (to_publish now)))) (\<lambda>_. move_up C U c n (Suc i)))
          else if cm_qos m = 2
          then bindE (ignore (run_on c (send__pubrec C U SMP_MQTTS_BROKER (cm_mid m))) :: ('p, unit) broker_comp) (\<lambda>_.
               bindE (ensure (linked True k) Fault) (\<lambda>_.
               bindE (modify (upd_client c (db__message_dequeue_first
                 (\<lambda>m. m\<lparr>cm_timestamp := now, cm_state := mosq_ms_wait_for_pubrel\<rparr>)))) (\<lambda>_. move_up C U c n (Suc i))))
          else bindE (modify (upd_client c (\<lambda>k. k\<lparr>queued_msgs := m\<lparr>cm_timestamp := now\<rparr> # tl (queued_msgs k)\<rparr>))) (\<lambda>_.
               move_up C U c n (Suc i)))))
        (\<lambda>_. loose X h T) (loose X h T)"
      by (intro triple_guard deq loose_step triple_list triple_if loose_ok keeps_leaf req i run_rules; (assumption | simp add: to_publish_def)?)
  qed
qed

lemma loose_delete: "keeps (loose X h T) (db__message_delete C U fuel c mid dir)"
  unfolding db__message_delete_def
  apply (rule triple_loose)
  apply (rule triple_client_at)
  apply (rule sheds_inflight)
  apply assumption
  apply assumption
  apply (rule sheds_delete)
  apply (simp add: view_def)
  apply (rule loose_move_up)
  done

lemma update_msg_stores:
  "update_msg mid dir f ms = Some ms' \<Longrightarrow> (\<And>m. cm_store (f m) = cm_store m) \<Longrightarrow> map cm_store ms' = map cm_store ms"
  by (induction ms arbitrary: ms') (auto split: if_splits)

lemma msg_refs_map: "map cm_store ms' = map cm_store ms \<Longrightarrow> msg_refs ms' = msg_refs ms"
  by (simp add: msg_refs_def)

lemma loose_update: "keeps (loose X h T :: 'p broker \<Rightarrow> bool) (db__message_update c mid dir state)"
  unfolding db__message_update_def
proof (rule triple_loose, rule triple_client_at, rule loose_step [OF keeps_leaf(4)], rule triple_option)
  fix qs now ms and k :: "'p client_context"
  assume c: "c < length qs" and k: "view k = qs ! c"
    and u: "update_msg mid dir (\<lambda>m. m\<lparr>cm_state := state, cm_timestamp := now\<rparr>) (inflight_msgs k) = Some ms"
  have v: "qs ! c = (inflight_msgs k, queued_msgs k, k_id k)" using k by (simp add: view_def)
  have m: "map cm_store ms = map cm_store (inflight_msgs k)" by (rule update_msg_stores [OF u]) simp
  then have e: "inflight_msgs k = [] \<Longrightarrow> ms = []" by simp
  show "triple (st X h qs (queue_refs qs + T)) (modify (upd_client c (\<lambda>k. k\<lparr>inflight_msgs := ms\<rparr>))) (\<lambda>_. loose X h T) (loose X h T)"
    by (rule triple_same_refs [OF c, where i = ms and q = "queued_msgs k"])
      (simp_all add: v view_def e msg_refs_map [OF m])
qed (rule triple_weaken [OF triple_leaf(2)], simp_all)

text \<open>All messages are given up.\<close>

lemma triple_clear:
  assumes c: "c < length qs" and k: "view k = qs ! c"
    and f: "\<And>k. inflight_msgs (f k) = inflight_msgs k \<and> queued_msgs (f k) = [] \<and> k_id (f k) = k_id k \<and>
      conn_state (f k) = conn_state k \<and> k_listener (f k) = k_listener k"
  shows "triple (st X h qs (queue_refs qs + T)) (bindE (deref_all (inflight_msgs k)) (\<lambda>_.
     bindE (modify (upd_client c (\<lambda>k. k\<lparr>inflight_msgs := [], lost_inflight := False\<rparr>))) (\<lambda>_.
     bindE (deref_all (queued_msgs k)) (\<lambda>_. modify (upd_client c f))))) (\<lambda>_. loose X h T) E"
proof -
  let ?i = "k_id k" and ?q = "queued_msgs k"
  let ?qs = "qs[c := ([], ?q, ?i)]"
  have v: "qs ! c = (inflight_msgs k, ?q, ?i)" using k by (simp add: view_def)
  have e: "queue_refs qs + T = msg_refs (inflight_msgs k) + (msg_refs ?q + (others c qs + T))"
    using queue_refs_at [OF c] by (simp add: v ac_simps)
  have 1: "triple (st X h qs (msg_refs ?q + (others c qs + T))) (modify (upd_client c (\<lambda>k. k\<lparr>inflight_msgs := [], lost_inflight := False\<rparr>)))
      (\<lambda>_. st X h ?qs (queue_refs ?qs + T)) E"
    by (rule triple_relist [OF c, where i = "[]" and q = ?q, unfolded v snd_conv]) (auto simp: view_def)
  have e': "queue_refs ?qs + T = msg_refs ?q + (others c qs + T)"
    using queue_refs_at [of c ?qs] c by (simp add: ac_simps)
  have 2: "triple (st X h ?qs (others c qs + T)) (modify (upd_client c f)) (\<lambda>_. loose X h T) E"
    by (rule triple_relist_loose [where i = "[]" and q = "[]"]) (use c f in \<open>simp_all add: view_def\<close>)
  have 3: "triple (st X h ?qs (queue_refs ?qs + T)) (bindE (deref_all ?q) (\<lambda>_. modify (upd_client c f))) (\<lambda>_. loose X h T) E"
    unfolding e' by (rule triple_bindE [OF triple_deref_all 2])
  show ?thesis unfolding e by (rule triple_bindE [OF triple_deref_all triple_bindE [OF 1 3]])
qed

lemma loose_messages_delete: "triple (loose X h T) (db__messages_delete c) (\<lambda>_. loose X h T) E"
  unfolding db__messages_delete_def by (intro triple_loose triple_client_at triple_clear) simp_all

lemma loose_drop_messages: "triple (loose X h T) (drop_messages c) (\<lambda>_. loose X h T) E"
  unfolding drop_messages_def by (intro triple_loose triple_client_at triple_clear) simp_all

section \<open>The reset after a reconnect\<close>

lemma count_in_fields [simp]: "queued_msgs (count_in m n k) = queued_msgs k" "inflight_msgs (count_in m n k) = inflight_msgs k"
  "k_id (count_in m n k) = k_id k" "conn_state (count_in m n k) = conn_state k" "k_listener (count_in m n k) = k_listener k"
  by (simp_all add: count_in_def)

definition same_refs :: "'p client_context \<Rightarrow> 'p client_context \<Rightarrow> bool" where
  "same_refs k k' \<longleftrightarrow> msg_refs (inflight_msgs k') + msg_refs (queued_msgs k') = msg_refs (inflight_msgs k) + msg_refs (queued_msgs k) \<and>
     k_id k' = k_id k \<and> conn_state k' = conn_state k \<and> k_listener k' = k_listener k"

lemma same_refs_trans: "same_refs k k' \<Longrightarrow> same_refs k' k'' \<Longrightarrow> same_refs k k''"
  by (simp add: same_refs_def)

lemma same_refs_dequeue:
  assumes "i < length (queued_msgs k)" and "cm_store m = cm_store (queued_msgs k ! i)"
  shows "same_refs k (db__message_dequeue_first id (k\<lparr>queued_msgs := (queued_msgs k)[i := m]\<rparr>))"
proof -
  have "map cm_store ((queued_msgs k)[i := m]) = map cm_store (queued_msgs k)"
    using assms by (simp add: map_update) (metis list_update_id nth_map)
  then have r: "msg_refs ((queued_msgs k)[i := m]) = msg_refs (queued_msgs k)" by (rule msg_refs_map)
  have "(queued_msgs k)[i := m] \<noteq> []" using assms(1) by auto
  then have "msg_refs ((queued_msgs k)[i := m]) = add_mset (cm_store (hd ((queued_msgs k)[i := m]))) (msg_refs (tl ((queued_msgs k)[i := m])))"
    by (cases "(queued_msgs k)[i := m]") simp_all
  then show ?thesis using r by (simp add: same_refs_def db__message_dequeue_first_def)
qed

lemma reset_queue_refs: "reset_queue b i k = Inr k' \<Longrightarrow> same_refs k k'"
proof (induction b i k arbitrary: k' rule: reset_queue.induct)
  case (1 b i k)
  let ?m = "queued_msgs k ! i"
  show ?case
  proof (cases "i < length (queued_msgs k)")
    case False
    then show ?thesis using "1.prems" reset_queue.simps [of b i k] by (simp add: same_refs_def)
  next
    case True
    obtain s where s: "heap b (cm_store ?m) = Some s"
      using "1.prems" reset_queue.simps [of b i k] True by (cases "heap b (cm_store ?m)") (auto simp: Let_def)
    let ?k1 = "count_in ?m (payload_words s) k"
    let ?m' = "?m\<lparr>cm_state := (if cm_qos ?m \<le> 2 then publish_state (cm_qos ?m) else cm_state ?m)\<rparr>"
    have k1: "same_refs k ?k1" by (simp add: same_refs_def)
    show ?thesis
    proof (cases "db__ready_for_flight b ?k1 (cm_qos ?m)")
      case ready: True
      have r: "linked True ?k1" "reset_queue b 0 (db__message_dequeue_first id (?k1\<lparr>queued_msgs := (queued_msgs ?k1)[i := ?m']\<rparr>)) = Inr k'"
        using "1.prems" reset_queue.simps [of b i k] True s ready by (simp_all add: Let_def split: if_splits)
      have "same_refs ?k1 (db__message_dequeue_first id (?k1\<lparr>queued_msgs := (queued_msgs ?k1)[i := ?m']\<rparr>))"
        by (rule same_refs_dequeue) (simp_all add: True)
      from same_refs_trans [OF same_refs_trans [OF k1 this] "1.IH"(1) [OF True refl s refl ready _ r(2)]] r(1) show ?thesis by blast
    next
      case not: False
      have r: "reset_queue b (Suc i) ?k1 = Inr k'"
        using "1.prems" reset_queue.simps [of b i k] True s not by (simp add: Let_def)
      from same_refs_trans [OF k1 "1.IH"(2) [OF True refl s refl not r]] show ?thesis .
    qed
  qed
qed

lemma loose_same_refs:
  assumes "st X h qs (queue_refs qs + T) b" and "same_refs (contexts b ! c) k'"
  shows "loose X h T (upd_client c (\<lambda>_. k') b)"
proof (cases "c < length qs")
  case False
  then have "upd_client c (\<lambda>_. k') b = b"
    using st_length [OF assms(1)] by (simp add: upd_client_def list_update_beyond)
  then show ?thesis using assms(1) by simp
next
  case True
  let ?k = "contexts b ! c"
  have v: "view ?k = qs ! c" by (rule st_refs [OF assms(1) True])
  have empty: "inflight_msgs k' = [] \<and> queued_msgs k' = []" if "inflight_msgs ?k = [] \<and> queued_msgs ?k = []"
    using assms(2) that by (simp add: same_refs_def msg_refs_def)
  have "new_ok k'" if "Some c \<noteq> X"
  proof -
    have "new_ok ?k" using assms(1) that True st_length [OF assms(1)] by (auto simp: st_def)
    then show ?thesis using assms(2) empty by (auto simp: new_ok_def same_refs_def)
  qed
  then have s: "st X h (qs[c := view k']) (queue_refs qs + T) (upd_client c (\<lambda>_. k') b)"
    using st_client [OF assms(1), of c "\<lambda>_. k'"] True by simp
  have "queue_refs (qs[c := view k']) = queue_refs qs"
    using queue_refs_upd [OF True, of "view k'"] assms(2) by (simp add: v [symmetric] same_refs_def) (simp add: view_def)
  then show ?thesis using s by (metis loose_st)
qed

lemma loose_reset_queue:
  "keeps (loose X h T) (bindE (client_at c) (\<lambda>k. bindE (asks (\<lambda>b. reset_queue b 0 (if queued_msgs k = [] then k else k\<lparr>lost_queued := False\<rparr>))) (\<lambda>r.
     bindE (pure_res r) (\<lambda>k'. modify (upd_client c (\<lambda>_. k'))))))"
proof (rule triple_loose, rule tripleI)
  fix qs and b :: "'a broker"
  assume b: "st X h qs (queue_refs qs + T) b"
  let ?k = "contexts b ! c"
  have unmark: "same_refs k k'" if "same_refs (if queued_msgs k = [] then k else k\<lparr>lost_queued := False\<rparr>) k'" for k k' :: "'a client_context"
    using that by (simp add: same_refs_def split: if_splits)
  show "case bindE (client_at c) (\<lambda>k. bindE (asks (\<lambda>b. reset_queue b 0 (if queued_msgs k = [] then k else k\<lparr>lost_queued := False\<rparr>))) (\<lambda>r.
     bindE (pure_res r) (\<lambda>k'. modify (upd_client c (\<lambda>_. k'))))) b of
     (Inr x, t) \<Rightarrow> loose X h T t | (Inl e, t) \<Rightarrow> e \<noteq> Fault \<longrightarrow> loose X h T t"
    using loose_same_refs [OF b unmark [OF reset_queue_refs [of b 0 "if queued_msgs ?k = [] then ?k else ?k\<lparr>lost_queued := False\<rparr>"]]] b
    by (auto simp: client_at_def bindE_def asks_def pure_res_def modify_def split: sum.splits)
qed

lemma loose_reset: "keeps (loose X h T) (db__message_reconnect_reset c)"
  unfolding db__message_reconnect_reset_def
proof (rule triple_loose, rule triple_client_at, rule triple_bindE)
  fix qs and k :: "'a client_context"
  assume c: "c < length qs" and k: "view k = qs ! c"
  show "triple (st X h qs (queue_refs qs + T)) (modify (upd_client c (\<lambda>k. k\<lparr>msg_bytes := 0, msg_bytes12 := 0, msg_count := 0, msg_count12 := 0\<rparr>)))
      (\<lambda>_. st X h qs (queue_refs qs + T)) (loose X h T)"
    by (rule triple_modify, rule st_same) (simp_all add: same_messages_def view_def new_ok_def)
  show "triple (st X h qs (queue_refs qs + T)) (bindE (reset_inflight c (inflight_msgs k)) (\<lambda>kept.
     bindE (modify (upd_client c (\<lambda>k. k\<lparr>inflight_msgs := kept, lost_inflight :=
       (if inflight_msgs k = [] then lost_inflight k else reset_loses (inflight_msgs k))\<rparr>))) (\<lambda>_.
     bindE (client_at c) (\<lambda>k.
     bindE (asks (\<lambda>b. reset_queue b 0 (if queued_msgs k = [] then k else k\<lparr>lost_queued := False\<rparr>))) (\<lambda>r.
     bindE (pure_res r) (\<lambda>k'. modify (upd_client c (\<lambda>_. k')))))))) (\<lambda>_. loose X h T) (loose X h T)" for u
    by (rule sheds_inflight [OF c k sheds_reset _ loose_reset_queue]) (simp add: view_def)
qed

section \<open>Writing and releasing\<close>

text \<open>A change of one message that keeps its place.\<close>

lemma set_msg_stores: "(\<And>m. cm_store (f m) = cm_store m) \<Longrightarrow> map cm_store (inflight_msgs (set_msg i f k)) = map cm_store (inflight_msgs k)"
  by (cases "i < length (inflight_msgs k)") (simp_all add: set_msg_def map_update list_update_beyond, metis list_update_id length_map nth_map)

lemma set_msg_fields [simp]: "queued_msgs (set_msg i f k) = queued_msgs k" "k_id (set_msg i f k) = k_id k"
  "conn_state (set_msg i f k) = conn_state k" "k_listener (set_msg i f k) = k_listener k"
  by (simp_all add: set_msg_def)

lemma st_stores:
  assumes b: "st X h qs (queue_refs qs + T) b" and c: "c < length qs"
    and f: "map cm_store (inflight_msgs (f (contexts b ! c))) = map cm_store (inflight_msgs (contexts b ! c))"
      "queued_msgs (f (contexts b ! c)) = queued_msgs (contexts b ! c)" "k_id (f (contexts b ! c)) = k_id (contexts b ! c)"
      "conn_state (f (contexts b ! c)) = conn_state (contexts b ! c)" "k_listener (f (contexts b ! c)) = k_listener (contexts b ! c)"
  shows "\<exists>qs'. st X h qs' (queue_refs qs' + T) (upd_client c f b) \<and> length qs' = length qs \<and>
    map cm_store (fst (qs' ! c)) = map cm_store (fst (qs ! c))"
proof -
  let ?k = "contexts b ! c"
  have v: "view ?k = qs ! c" by (rule st_refs [OF b c])
  have e: "inflight_msgs ?k = [] \<Longrightarrow> inflight_msgs (f ?k) = []" using f(1) by simp
  have "new_ok (f ?k)" if "Some c \<noteq> X"
  proof -
    have "new_ok ?k" using b that c st_length [OF b] by (auto simp: st_def)
    then show ?thesis using f(2-) e by (auto simp: new_ok_def)
  qed
  then have s: "st X h (qs[c := view (f ?k)]) (queue_refs qs + T) (upd_client c f b)"
    using st_client [OF b, of c f] c by simp
  have m: "map cm_store (fst (view (f ?k))) = map cm_store (fst (qs ! c))" using f(1) by (simp add: v [symmetric] view_def)
  have "queue_refs (qs[c := view (f ?k)]) = queue_refs qs"
    using queue_refs_upd [OF c, of "view (f ?k)"] msg_refs_map [OF m] f(2) by (simp add: v [symmetric]) (simp add: view_def)
  then show ?thesis using s m c by (intro exI [of _ "qs[c := view (f ?k)]"]) simp
qed

text \<open>A change that leaves the lists, whatever the id.\<close>

lemma loose_lists:
  assumes f: "\<And>k. inflight_msgs (f k) = inflight_msgs k \<and> queued_msgs (f k) = queued_msgs k" "\<And>k. Some c \<noteq> X \<Longrightarrow> new_ok k \<Longrightarrow> new_ok (f k)"
  shows "triple (loose X h T) (modify (upd_client c f)) (\<lambda>_. loose X h T) E"
proof (rule triple_loose, rule triple_modify)
  fix qs and b :: "'a broker"
  assume b: "st X h qs (queue_refs qs + T) b"
  show "loose X h T (upd_client c f b)"
  proof (cases "c < length qs")
    case False
    then have "upd_client c f b = b" using st_length [OF b] by (simp add: upd_client_def list_update_beyond)
    then show ?thesis using b by simp
  next
    case True
    let ?k = "contexts b ! c"
    have v: "view ?k = qs ! c" by (rule st_refs [OF b True])
    have "new_ok (f ?k)" if "Some c \<noteq> X" using b that True f(2) st_length [OF b] by (auto simp: st_def)
    then have s: "st X h (qs[c := view (f ?k)]) (queue_refs qs + T) (upd_client c f b)" using st_client [OF b, of c f] True by simp
    have "queue_refs (qs[c := view (f ?k)]) = queue_refs qs"
      using queue_refs_upd [OF True, of "view (f ?k)"] f(1) [of ?k] by (simp add: v [symmetric]) (simp add: view_def)
    then show ?thesis using s by (metis loose_st)
  qed
qed

lemma loose_set:
  assumes f: "\<And>m. cm_store (f m) = cm_store m"
  shows "triple (loose X h T) (modify (upd_client c (\<lambda>k. set_msg (g k) f k))) (\<lambda>_. loose X h T) E"
proof (rule triple_loose, rule triple_modify)
  fix qs and b :: "'a broker"
  assume b: "st X h qs (queue_refs qs + T) b"
  show "loose X h T (upd_client c (\<lambda>k. set_msg (g k) f k) b)"
  proof (cases "c < length qs")
    case False
    then have "upd_client c (\<lambda>k. set_msg (g k) f k) b = b"
      using st_length [OF b] by (simp add: upd_client_def list_update_beyond)
    then show ?thesis using b by simp
  next
    case True
    from st_stores [OF b this, of "\<lambda>k. set_msg (g k) f k"] show ?thesis using f by (auto simp: set_msg_stores)
  qed
qed

lemma loose_write_queue: "keeps (loose X h T :: 'p broker \<Rightarrow> bool) (write_queue C U c n i)"
proof (induction n arbitrary: i)
  case 0
  show ?case unfolding write_queue.simps by (rule keeps_leaf)
next
  case (Suc n)
  show ?case
    unfolding write_queue.simps
  proof (rule triple_loose, rule triple_client_at)
    fix qs and k :: "'p client_context"
    assume c: "c < length qs" and k: "view k = qs ! c"
    note deq = triple_bindE [OF triple_dequeue [OF c k]]
    have on: "triple (st X h qs (queue_refs qs + T) :: 'p broker \<Rightarrow> bool) (write_queue C U c n (Suc i)) (\<lambda>_. loose X h T) (loose X h T)"
      by (rule triple_weaken [OF Suc.IH]) simp_all
    show "triple (st X h qs (queue_refs qs + T)) (bindE (asks max_inflight) (\<lambda>max_n.
        case queued_msgs k of [] \<Rightarrow> ok True
        | m # _ \<Rightarrow>
          if \<not> (max_n = 0 \<or> int i < max_n) then ok True
          else if cm_direction m = mosq_md_out
          then bindE (ensure (linked True k) Fault) (\<lambda>_.
               bindE (modify (upd_client c (db__message_dequeue_first
                 (\<lambda>m. m\<lparr>cm_state := (if cm_qos m \<le> 2 then publish_state (cm_qos m) else cm_state m)\<rparr>)))) (\<lambda>_. write_queue C U c n (Suc i)))
          else if cm_qos m = 2
          then bindE (ensure (linked True k) Fault) (\<lambda>_.
               bindE (modify (upd_client c (db__message_dequeue_first (\<lambda>m. m\<lparr>cm_state := mosq_ms_send_pubrec\<rparr>)))) (\<lambda>_.
               bindE (run_on c (send__pubrec C U SMP_MQTTS_BROKER (cm_mid m))) (\<lambda>_.
               bindE (modify (upd_client c (\<lambda>k. set_msg (length (inflight_msgs k) - 1)
                 (\<lambda>m. m\<lparr>cm_state := mosq_ms_wait_for_pubrel\<rparr>) k))) (\<lambda>_. write_queue C U c n (Suc i)))))
          else write_queue C U c n (Suc i)))
        (\<lambda>_. loose X h T) (loose X h T)"
      by (intro triple_guard deq loose_step triple_list triple_if loose_ok keeps_leaf on keeps_bindE loose_runs loose_set Suc.IH; (assumption | simp)?)
  qed
qed

text \<open>The message at position \<open>i\<close> is taken off.\<close>

lemma triple_take_off:
  assumes c: "c < length qs" and i: "i < length (fst (qs ! c))" and m: "cm_store (fst (qs ! c) ! i) = cm_store m"
  shows "triple (st X h qs (queue_refs qs + T))
    (bindE (db__message_remove c m) (\<lambda>_. modify (upd_client c (drop_msg i))))
    (\<lambda>_ b. \<exists>qs'. st X h qs' (queue_refs qs' + T) b \<and> length qs' = length qs \<and>
      fst (qs' ! c) = take i (fst (qs ! c)) @ drop (Suc i) (fst (qs ! c))) E"
proof -
  obtain ms q d where v: "qs ! c = (ms, q, d)" by (cases "qs ! c") auto
  let ?ms = "take i ms @ drop (Suc i) ms"
  let ?qs = "qs[c := (?ms, q, d)]"
  have i': "i < length ms" using i v by simp
  have "msg_refs ms = msg_refs (take i ms @ ms ! i # drop (Suc i) ms)" using i' by (simp add: id_take_nth_drop [symmetric])
  then have r: "msg_refs ms = add_mset (cm_store m) (msg_refs ?ms)" using m v by simp
  have e: "queue_refs qs + T = add_mset (cm_store m) (msg_refs ?ms + (msg_refs q + (others c qs + T)))"
    using queue_refs_at [OF c] r by (simp add: v)
  have d: "triple (st X h qs (msg_refs ?ms + (msg_refs q + (others c qs + T)))) (modify (upd_client c (drop_msg i)))
      (\<lambda>_. st X h ?qs (queue_refs ?qs + T)) E"
    by (rule triple_relist [OF c, where i = ?ms and q = q, unfolded v snd_conv]) (use i' in \<open>auto simp: view_def drop_msg_def\<close>)
  have w: "triple (st X h qs (msg_refs ?ms + (msg_refs q + (others c qs + T)))) (modify (upd_client c (drop_msg i)))
      (\<lambda>_ b. \<exists>qs'. st X h qs' (queue_refs qs' + T) b \<and> length qs' = length qs \<and> fst (qs' ! c) = ?ms) E"
    by (rule triple_weaken [OF d]) (use c in \<open>auto intro!: exI [of _ ?qs]\<close>)
  show ?thesis unfolding e unfolding v fst_conv by (rule triple_bindE [OF triple_message_remove w])
qed

lemma st_publish_stored: "keeps (st X h qs H) (publish_stored C U c m s)"
  unfolding publish_stored_def by (intro keep_rules run_rules)

text \<open>The rest of the list from position \<open>i\<close> on holds the stored messages of \<open>ms\<close>.\<close>

definition at_msg :: "nat option \<Rightarrow> subhier list \<Rightarrow> nat multiset \<Rightarrow> nat \<Rightarrow> nat \<Rightarrow> client_msg list \<Rightarrow> 'p broker \<Rightarrow> bool" where
  "at_msg X h T c i ms b \<longleftrightarrow> (\<exists>qs. (c < length qs \<and> map cm_store (drop i (fst (qs ! c))) = map cm_store ms) \<and> st X h qs (queue_refs qs + T) b)"

lemma at_msg_loose: "at_msg X h T c i ms b \<Longrightarrow> loose X h T b"
  by (auto simp: at_msg_def)

lemma triple_at:
  "(\<And>qs. c < length qs \<Longrightarrow> map cm_store (drop i (fst (qs ! c))) = map cm_store ms \<Longrightarrow>
     triple (st X h qs (queue_refs qs + T)) m Q E) \<Longrightarrow> triple (at_msg X h T c i ms) m Q E"
  unfolding at_msg_def by (intro triple_ex triple_conj) blast

lemma at_step:
  assumes "\<And>qs H. keeps (st X h qs H) m" and "\<And>x. triple (at_msg X h T c i ms) (k x) Q (loose X h T)"
  shows "triple (at_msg X h T c i ms) (bindE m k) Q (loose X h T)"
proof (rule triple_bindE [OF _ assms(2)], rule triple_at)
  fix qs :: queues
  assume "c < length qs" "map cm_store (drop i (fst (qs ! c))) = map cm_store ms"
  then show "triple (st X h qs (queue_refs qs + T)) m (\<lambda>_. at_msg X h T c i ms) (loose X h T)"
    by (intro triple_weaken [OF assms(1)]) (auto simp: at_msg_def)
qed

lemma at_off:
  "triple (at_msg X h T c i (m # ms)) (bindE (db__message_remove c m) (\<lambda>_. modify (upd_client c (drop_msg i))))
     (\<lambda>_. at_msg X h T c i ms) E"
proof (rule triple_at)
  fix qs :: queues
  assume c: "c < length qs" and d: "map cm_store (drop i (fst (qs ! c))) = map cm_store (m # ms)"
  have i: "i < length (fst (qs ! c))" using d by (cases "i < length (fst (qs ! c))") simp_all
  then have "drop i (fst (qs ! c)) = fst (qs ! c) ! i # drop (Suc i) (fst (qs ! c))" by (simp add: Cons_nth_drop_Suc)
  then have e: "cm_store (fst (qs ! c) ! i) = cm_store m" "map cm_store (drop (Suc i) (fst (qs ! c))) = map cm_store ms"
    using d by simp_all
  have at: "at_msg X h T c i ms b" if off: "\<exists>qs'. st X h qs' (queue_refs qs' + T) b \<and> length qs' = length qs \<and>
      fst (qs' ! c) = take i (fst (qs ! c)) @ drop (Suc i) (fst (qs ! c))" for b :: "'a broker"
  proof -
    obtain qs' where q: "st X h qs' (queue_refs qs' + T) b" "length qs' = length qs"
      "fst (qs' ! c) = take i (fst (qs ! c)) @ drop (Suc i) (fst (qs ! c))" using off by blast
    then show ?thesis unfolding at_msg_def using c i e(2) by (intro exI [of _ qs']) simp
  qed
  show "triple (st X h qs (queue_refs qs + T)) (bindE (db__message_remove c m) (\<lambda>_. modify (upd_client c (drop_msg i))))
      (\<lambda>_. at_msg X h T c i ms) E"
    by (rule triple_weaken [OF triple_take_off [OF c i e(1)]]) (use at in simp_all)
qed

lemma at_next: "map cm_store (drop i xs) = map cm_store (m # ms) \<Longrightarrow> map cm_store (drop (Suc i) xs) = map cm_store ms"
  by (metis drop_Suc list.sel(3) map_tl tl_drop)

lemma at_set:
  assumes f: "\<And>m. cm_store (f m) = cm_store m"
  shows "triple (at_msg X h T c i (m # ms)) (modify (upd_client c (set_msg i f))) (\<lambda>_. at_msg X h T c (Suc i) ms) E"
proof (rule triple_at, rule triple_modify)
  fix qs :: queues and b :: "'a broker"
  assume c: "c < length qs" and d: "map cm_store (drop i (fst (qs ! c))) = map cm_store (m # ms)"
    and b: "st X h qs (queue_refs qs + T) b"
  from st_stores [OF b c, of "set_msg i f"] f obtain qs' where
    q: "st X h qs' (queue_refs qs' + T) (upd_client c (set_msg i f) b)" "length qs' = length qs"
      "map cm_store (fst (qs' ! c)) = map cm_store (fst (qs ! c))" by (auto simp: set_msg_stores)
  have "map cm_store (drop (Suc i) (fst (qs' ! c))) = map cm_store ms"
    using at_next [OF d] q(3) by (simp add: drop_map [symmetric])
  then show "at_msg X h T c (Suc i) ms (upd_client c (set_msg i f) b)" 
    unfolding at_msg_def using q(1,2) c by (intro exI [of _ qs']) simp
qed

lemma at_skip: "at_msg X h T c i (m # ms) b \<Longrightarrow> at_msg X h T c (Suc i) ms b"
  unfolding at_msg_def using at_next by fastforce

text \<open>A step that publishes or acknowledges, and puts the message in its new state.\<close>

lemma at_sent:
  assumes "\<And>qs H. keeps (st X h qs H) m" and "\<And>m. cm_store (f m) = cm_store m"
  shows "triple (at_msg X h T c i (m0 # ms)) (bindE m (\<lambda>_. modify (upd_client c (set_msg i f)))) (\<lambda>_. at_msg X h T c (Suc i) ms) (loose X h T)"
  by (rule at_step [OF assms(1) at_set [OF assms(2)]])

lemma triple_assoc: "triple P (bindE (bindE m k) l) Q E \<Longrightarrow> triple P (bindE m (\<lambda>x. bindE (k x) l)) Q E"
  by (simp add: triple_def bindE_def split: prod.splits sum.splits)

lemma loose_write_inflight: "triple (at_msg X h T c i ms :: 'p broker \<Rightarrow> bool) (write_inflight C U c i ms) (\<lambda>_. loose X h T) (loose X h T)"
proof (induction ms arbitrary: i)
  case Nil
  show ?case unfolding write_inflight.simps by (rule triple_ok) (rule at_msg_loose)
next
  case (Cons m ms)
  have skip: "triple (at_msg X h T c i (m # ms)) (ok ()) (\<lambda>_. at_msg X h T c (Suc i) ms) (loose X h T)"
    by (rule triple_ok) (rule at_skip)
  have off: "triple (at_msg X h T c i (m # ms)) (bindE (publish_stored C U c m s) (\<lambda>_. bindE (db__message_remove c m) (\<lambda>_.
      bindE (modify (upd_client c (drop_msg i))) (\<lambda>_. write_inflight C U c i ms)))) (\<lambda>_. loose X h T) (loose X h T)" for s
    by (rule at_step [OF st_publish_stored], rule triple_assoc, rule triple_bindE [OF at_off Cons.IH])
  show ?case
    unfolding write_inflight.simps
    by (rule at_step [OF keeps_un [OF un_store_at]], rule at_step [OF keeps_leaf(4)], rule triple_if [OF off],
      rule triple_bindE [OF _ Cons.IH], intro triple_if at_sent st_publish_stored run_rules skip)
      (simp_all add: after_publish_def)
qed

lemma loose_write: "keeps (loose X h T :: 'p broker \<Rightarrow> bool) (db__message_write C U fuel c)"
  unfolding db__message_write_def
proof (rule triple_loose, rule triple_client_at, rule loose_step [OF keeps_leaf(3)], rule triple_if)
  fix qs :: queues and k :: "'p client_context"
  assume c: "c < length qs" and k: "view k = qs ! c"
  have "fst (qs ! c) = inflight_msgs k" by (simp add: k [symmetric] view_def)
  then have "at_msg X h T c 0 (inflight_msgs k) b" if "st X h qs (queue_refs qs + T) b" for b :: "'p broker"
    using that c unfolding at_msg_def by (intro exI [of _ qs]) simp
  then show "triple (st X h qs (queue_refs qs + T)) (bindE (write_inflight C U c 0 (inflight_msgs k)) (\<lambda>_.
      write_queue C U c fuel (length (inflight_msgs k)))) (\<lambda>_. loose X h T) (loose X h T)"
    by (intro triple_weaken [OF triple_bindE [OF loose_write_inflight loose_write_queue]]) simp_all
qed (rule loose_ok)

end
