(* ===== verification/RefSteps.thy ===== *)
theory RefSteps
  imports RefMoves
begin

text \<open>
  The references through whole packets: the handlers of \<open>BrokerHandle\<close> and \<open>BrokerConnect\<close> keep the
  counts equal to the references.
\<close>

section \<open>The counts are right\<close>

text \<open>\<open>refs_ok\<close>, except that nothing is said of the client \<open>X\<close> that is just connecting.\<close>

definition refs :: "nat option \<Rightarrow> 'p broker \<Rightarrow> bool" where
  "refs X b \<longleftrightarrow> (\<exists>h. loose X h (tree_refs h) b)"

lemma triple_refs:
  "(\<And>h qs. triple (st X h qs (queue_refs qs + tree_refs h)) m Q E) \<Longrightarrow> triple (refs X) m Q E"
  unfolding refs_def by (intro triple_ex triple_loose)

lemma st_refs_ok: "st X h qs (queue_refs qs + tree_refs h) b \<Longrightarrow> refs X b"
  unfolding refs_def by (rule exI [of _ h]) simp

lemma refs_weaken: "triple (refs X) m Q E \<Longrightarrow> triple (st X h qs (queue_refs qs + tree_refs h)) m Q E"
  by (erule triple_weaken) (auto intro: st_refs_ok)

lemma refs_iff: "refs None b \<longleftrightarrow> refs_ok b"
proof
  assume "refs None b"
  then obtain h qs where s: "st None h qs (queue_refs qs + tree_refs h) b" by (auto simp: refs_def loose_def)
  then have "hier b = h" "queues b = qs" by (simp_all add: st_def)
  then show "refs_ok b" using s by (simp add: refs_ok_def)
qed (auto simp: refs_ok_def intro: st_refs_ok)

lemma tree_held_refs: "tree_held X q0 {#} b \<Longrightarrow> refs X b"
  unfolding tree_held_def held_def by (auto intro: st_refs_ok)

lemma st_tree_held: "st X h qs (queue_refs qs + tree_refs h) b \<Longrightarrow> tree_held X qs {#} b"
  unfolding tree_held_def held_def by (rule exI [of _ qs]) (auto dest: stD)

lemma refs_tree: "(\<And>q0. keeps (tree_held X q0 {#}) m) \<Longrightarrow> keeps (refs X) m"
proof (rule triple_refs)
  fix h qs
  assume "\<And>q0. keeps (tree_held X q0 {#}) m"
  from this [of qs] show "triple (st X h qs (queue_refs qs + tree_refs h)) m (\<lambda>_. refs X) (refs X)"
    by (rule triple_weaken) (auto intro: st_tree_held tree_held_refs)
qed

lemma refs_loose':
  assumes "\<And>h. triple (loose X h (tree_refs h)) m (\<lambda>_. loose X h (tree_refs h)) E"
  shows "triple (refs X) m (\<lambda>_. refs X) E"
  unfolding refs_def by (rule triple_ex, rule triple_weaken [OF assms]) auto

lemma refs_loose:
  assumes "\<And>h. keeps (loose X h (tree_refs h)) m"
  shows "keeps (refs X) m"
  unfolding refs_def by (rule triple_ex, rule triple_weaken [OF assms]) auto

lemma refs_un: "frames unchanged m \<Longrightarrow> keeps (refs X) m"
  by (intro refs_loose loose_un)

lemma refs_run: "frames same_client m \<Longrightarrow> keeps (refs X) (run_on c m)"
  by (intro refs_loose loose_run)

lemma refs_client: "(\<And>k. same_messages k (f k)) \<Longrightarrow> triple (refs X) (modify (upd_client c f)) (\<lambda>_. refs X) E"
proof (rule triple_refs, rule triple_modify)
  fix h qs and b :: "'a broker"
  assume "\<And>k. same_messages k (f k)" and "st X h qs (queue_refs qs + tree_refs h) b"
  then show "refs X (upd_client c f b)" by (blast intro: st_same st_refs_ok)
qed

lemma refs_lists:
  "(\<And>k. inflight_msgs (f k) = inflight_msgs k \<and> queued_msgs (f k) = queued_msgs k) \<Longrightarrow>
   (\<And>k. Some c \<noteq> X \<Longrightarrow> new_ok k \<Longrightarrow> new_ok (f k)) \<Longrightarrow> triple (refs X) (modify (upd_client c f)) (\<lambda>_. refs X) E"
  by (intro refs_loose' loose_lists)

lemma refs_fields: "(\<And>b. unchanged b (f b)) \<Longrightarrow> triple (refs X) (modify f) (\<lambda>_. refs X) E"
  unfolding refs_def loose_def using unchanged_st by (intro triple_modify) blast

lemmas refs_un_rules = un_rules [THEN refs_un]

lemmas refs_runs = same_sends [THEN refs_run] same_reads [THEN refs_run] same_granted [THEN refs_run] same_publish [THEN refs_run]

section \<open>Routines\<close>

lemma refs_message_store: "keeps (refs X) (db__message_store source mid topic qos data retain i)"
  by (rule refs_tree) (intro keeps_tree keeps_held keeps_message_store)

lemma refs_insert: "keeps (refs X) (db__message_insert c mid dir qos retain a)"
  by (rule refs_tree) (intro keeps_tree held_insert)

lemma refs_publish: "keeps (refs X) (sub__messages_queue src topic qos retain a)"
  by (rule refs_tree) (rule tree_publish)

lemma refs_add: "keeps (refs X) (sub__add c sub qos)"
  by (rule refs_tree) (rule tree_add)

lemma refs_remove: "keeps (refs X) (sub__remove c sub)"
  by (rule refs_tree) (rule tree_remove)

lemma refs_retain_queue: "keeps (refs X) (sub__retain_queue c sub qos)"
  by (rule refs_tree) (intro keeps_tree held_retain_queue)

lemma refs_draw: "keeps (refs X) (draw_client_mid c)"
  by (rule refs_tree) (intro keeps_tree held_draw)

lemma refs_clean_session: "keeps (refs X) (sub__clean_session c)"
  by (rule refs_tree) (rule tree_clean_session)

lemma refs_retarget: "keeps (refs X) (retarget_nodes f c ps)"
  by (rule refs_tree) (rule tree_retarget)

lemmas refs_routines = refs_message_store refs_insert refs_publish refs_add refs_remove refs_retain_queue refs_draw
  refs_clean_session refs_retarget

lemma refs_move_up: "keeps (refs X) (move_up C U c n i)"
  by (intro refs_loose loose_move_up)

lemma refs_delete: "keeps (refs X) (db__message_delete C U fuel c mid dir)"
  by (intro refs_loose loose_delete)

lemma refs_update: "keeps (refs X) (db__message_update c mid dir state)"
  by (intro refs_loose loose_update)

lemma refs_write: "keeps (refs X) (db__message_write C U fuel c)"
  by (intro refs_loose loose_write)

lemma refs_clear: "triple (refs X) (db__messages_delete c) (\<lambda>_. refs X) E" "triple (refs X) (drop_messages c) (\<lambda>_. refs X) E"
  by (intro refs_loose' loose_messages_delete, intro refs_loose' loose_drop_messages)

lemma refs_easy_queue: "keeps (refs X) (db__messages_easy_queue client topic qos data retain)"
  unfolding db__messages_easy_queue_def by (intro keep_rules keeps_wrap refs_routines refs_un_rules)

section \<open>Releasing a message\<close>

text \<open>Publishing only adds to the queues, so the message is still at its position.\<close>

lemma refs_take_off:
  assumes "c < length q0" and "i < length (fst (q0 ! c))" and "fst (q0 ! c) ! i = m"
  shows "triple (tree_held X q0 {#}) (bindE (db__message_remove c m) (\<lambda>_. modify (upd_client c (drop_msg i)))) (\<lambda>_. refs X) E"
  unfolding tree_held_def held_def
proof (rule triple_ex)
  fix qs and b0 :: "'a broker"
  show "triple (\<lambda>b. grown q0 qs \<and> st X (hier b) qs (queue_refs qs + (tree_refs (hier b) + {#})) b)
      (bindE (db__message_remove c m) (\<lambda>_. modify (upd_client c (drop_msg i)))) (\<lambda>_. refs X) E"
  proof (rule triple_conj)
    assume g: "grown q0 qs"
    have c: "c < length qs" using g assms(1) by (simp add: grown_def)
    have p: "prefix (fst (q0 ! c)) (fst (qs ! c))" using g assms(1) by (simp add: grown_def)
    have i: "i < length (fst (qs ! c))" and m: "cm_store (fst (qs ! c) ! i) = cm_store m"
      using p assms(2,3) by (auto simp: prefix_def nth_append)
    have "triple (\<lambda>b. \<exists>h. st X h qs (queue_refs qs + tree_refs h) b) (bindE (db__message_remove c m) (\<lambda>_. modify (upd_client c (drop_msg i))))
        (\<lambda>_. refs X) E"
    proof (rule triple_ex)
      fix h
      show "triple (st X h qs (queue_refs qs + tree_refs h)) (bindE (db__message_remove c m) (\<lambda>_. modify (upd_client c (drop_msg i))))
          (\<lambda>_. refs X) E"
        by (rule triple_weaken [OF triple_take_off [OF c i m]]) (auto intro: st_refs_ok)
    qed
    then show "triple (\<lambda>b. st X (hier b) qs (queue_refs qs + (tree_refs (hier b) + {#})) b)
        (bindE (db__message_remove c m) (\<lambda>_. modify (upd_client c (drop_msg i)))) (\<lambda>_. refs X) E"
      by (rule triple_weaken) auto
  qed
qed

lemma tree_refs_step:
  assumes "\<And>q0. keeps (tree_held X q0 {#}) m" and "triple (tree_held X qs {#}) rest Q (refs X)"
  shows "triple (st X h qs (queue_refs qs + tree_refs h)) (bindE m (\<lambda>_. rest)) Q (refs X)"
  by (rule triple_bindE [OF triple_weaken [OF assms(1) [of qs]] assms(2)]) (auto intro: st_tree_held tree_held_refs)

lemma refs_release_loop: "keeps (refs X :: 'p broker \<Rightarrow> bool) (release_loop n c mid dir i idx deleted)"
proof (induction n arbitrary: i idx deleted)
  case 0
  show ?case unfolding release_loop.simps by (rule keeps_leaf)
next
  case (Suc n)
  show ?case
    unfolding release_loop.simps
  proof (rule triple_refs, rule triple_client_at)
    fix h qs and k :: "'p client_context"
    assume c: "c < length qs" and k: "view k = qs ! c"
    have f: "fst (qs ! c) = inflight_msgs k" by (simp add: k [symmetric] view_def)
    let ?m = "inflight_msgs k ! i"
    have off: "triple (st X h qs (queue_refs qs + tree_refs h) :: 'p broker \<Rightarrow> bool) (bindE (store_at (cm_store ?m)) (\<lambda>s.
          bindE (case s_topic s of None \<Rightarrow> ok ()
                 | Some topic \<Rightarrow> or_1 (sub__messages_queue (Some (s_source_id s)) topic (s_qos s) (cm_retain ?m) (cm_store ?m))) (\<lambda>_.
          bindE (db__message_remove c ?m) (\<lambda>_.
          bindE (modify (upd_client c (drop_msg i))) (\<lambda>_.
          release_loop n c mid dir i (Suc idx) True)))))
        (\<lambda>_. refs X) (refs X)" if i: "i < length (inflight_msgs k)"
      by (rule triple_store_at', rule tree_refs_step, intro keep_rules keeps_wrap tree_publish, rule triple_assoc,
        rule triple_bindE [OF refs_take_off Suc.IH]) (use c i f in simp_all)
    show "triple (st X h qs (queue_refs qs + tree_refs h) :: 'p broker \<Rightarrow> bool) (if \<not> i < length (inflight_msgs k) then ok (Some (idx, deleted))
       else bindE (ok ?m) (\<lambda>m.
         if cm_mid m = mid \<and> cm_direction m = dir
         then bindE (store_at (cm_store m)) (\<lambda>s.
              bindE (case s_topic s of None \<Rightarrow> ok ()
                     | Some topic \<Rightarrow> or_1 (sub__messages_queue (Some (s_source_id s)) topic (s_qos s) (cm_retain m) (cm_store m))) (\<lambda>_.
              bindE (db__message_remove c m) (\<lambda>_.
              bindE (modify (upd_client c (drop_msg i))) (\<lambda>_.
              release_loop n c mid dir i (Suc idx) True))))
         else release_loop n c mid dir (Suc i) (Suc idx) deleted))
        (\<lambda>_. refs X) (refs X)"
      unfolding bindE_ok
      by (intro triple_if off refs_weaken [OF keeps_leaf(1)] refs_weaken [OF Suc.IH]) simp
  qed
qed

lemma refs_release: "keeps (refs X) (db__message_release C U fuel c mid dir)"
  unfolding db__message_release_def by (intro keep_rules refs_release_loop refs_move_up)

section \<open>The packet handlers\<close>

lemma refs_check_acl: "keeps (refs X) (failed (mosquitto_acl_check c topic data qos retain access))"
  by (intro keeps_wrap refs_un_rules)

lemma refs_bad_message: "keeps (refs X) (process_bad_message C U c qos mid)"
  unfolding process_bad_message_def by (intro keep_rules keeps_wrap refs_routines refs_un_rules refs_runs)

lemma refs_take_message: "keeps (refs X) (take_message C U c mid topic qos retain data)"
  unfolding take_message_def by (intro keep_rules keeps_wrap refs_routines refs_un_rules refs_runs)

lemma refs_handle_publish: "keeps (refs X) (handle__publish_broker C U c)"
  unfolding handle__publish_broker_def
  by (intro keep_rules keeps_wrap refs_un_rules refs_runs refs_bad_message refs_take_message)

lemma refs_filter: "keeps (refs X) (read_filter c)"
  unfolding read_filter_def by (intro keep_rules refs_runs)

lemma refs_subscribe_one: "keeps (refs X) (subscribe_one c rc)"
  unfolding subscribe_one_def by (intro keep_rules keeps_wrap refs_filter refs_routines refs_un_rules refs_runs)

lemma refs_subscribe_loop: "keeps (refs X) (subscribe_loop n c rc codes)"
proof (induction n arbitrary: rc codes)
  case 0
  show ?case unfolding subscribe_loop.simps [of 0] nat.case by (intro keep_rules refs_un_rules)
next
  case (Suc n)
  show ?case unfolding subscribe_loop.simps [of "Suc n"] nat.case
    by (intro keep_rules refs_un_rules refs_subscribe_one Suc.IH)
qed

lemma refs_handle_subscribe: "keeps (refs X) (handle__subscribe_broker C U c)"
  unfolding handle__subscribe_broker_def
  by (intro keep_rules keeps_wrap refs_un_rules refs_runs refs_subscribe_loop refs_fields) (simp_all add: un_fields)

lemma refs_unsubscribe_loop: "keeps (refs X) (unsubscribe_loop n c)"
proof (induction n)
  case 0
  show ?case unfolding unsubscribe_loop.simps [of 0] nat.case by (intro keep_rules refs_un_rules)
next
  case (Suc n)
  show ?case unfolding unsubscribe_loop.simps [of "Suc n"] nat.case
    by (intro keep_rules keeps_wrap refs_un_rules refs_filter refs_routines Suc.IH)
qed

lemma refs_handle_unsubscribe: "keeps (refs X) (handle__unsubscribe_broker C U c)"
  unfolding handle__unsubscribe_broker_def
  by (intro keep_rules keeps_wrap refs_un_rules refs_runs refs_unsubscribe_loop refs_fields) (simp_all add: un_fields)

lemma refs_handle_acks: "keeps (refs X) (handle__pubackcomp_broker C U fuel c)" "keeps (refs X) (handle__pubrec_broker C U c)"
  "keeps (refs X) (handle__pubrel_broker C U fuel c)" "keeps (refs X) (handle__pingreq_broker C U c)"
  "keeps (refs X) (handle__suback_broker c)" "keeps (refs X) (handle__unsuback_broker c)"
  unfolding handle__pubackcomp_broker_def handle__pubrec_broker_def handle__pubrel_broker_def handle__pingreq_broker_def
    handle__suback_broker_def handle__unsuback_broker_def
  by (intro keep_rules refs_un_rules refs_runs refs_delete refs_update refs_release; simp)+

lemma refs_handle_pingresp: "keeps (refs X) (handle__pingresp_broker c)"
  unfolding handle__pingresp_broker_def by (intro refs_client same_record) simp_all

section \<open>Clients leave\<close>

text \<open>A routine that keeps the references and has no error of its own.\<close>

definition sure :: "nat option \<Rightarrow> ('p, 'a) broker_comp \<Rightarrow> bool" where
  "sure X m \<longleftrightarrow> triple (refs X) m (\<lambda>_. refs X) (\<lambda>_. False)"

lemma sureI: "(\<And>E. triple (refs X) m (\<lambda>_. refs X) E) \<Longrightarrow> sure X m"
  by (simp add: sure_def)

lemma sureD: "sure X m \<Longrightarrow> triple (refs X) m (\<lambda>_. refs X) E"
  unfolding sure_def by (erule triple_weaken) simp_all

lemma sure_keeps: "sure X m \<Longrightarrow> keeps (refs X) m"
  by (rule sureD)

lemma sure_bindE: "sure X m \<Longrightarrow> (\<And>x. sure X (k x)) \<Longrightarrow> sure X (bindE m k)"
  unfolding sure_def by (rule triple_bindE)

lemma sure_if: "sure X m \<Longrightarrow> sure X m' \<Longrightarrow> sure X (if b then m else m')"
  by simp

lemma sure_option: "(v = None \<Longrightarrow> sure X m) \<Longrightarrow> (\<And>x. v = Some x \<Longrightarrow> sure X (k x)) \<Longrightarrow> sure X (case v of None \<Rightarrow> m | Some x \<Rightarrow> k x)"
  by (cases v) simp_all

lemma sure_leaf: "sure X (ok x)" "sure X (asks f)"
  by (rule sureI, rule triple_leaf)+

lemma sure_client_at: "sure X (client_at c)"
  unfolding sure_def by (auto simp: triple_def client_at_def bindE_def asks_def pure_res_def)

lemma sure_ignore: "keeps (refs X) m \<Longrightarrow> sure X (ignore m)"
  by (rule sureI) (rule triple_ignore)

lemma sure_failed: "keeps (refs X) m \<Longrightarrow> sure X (failed m)"
  by (rule sureI) (rule triple_failed)

lemma sure_client: "(\<And>k. same_messages k (f k)) \<Longrightarrow> sure X (modify (upd_client c f))"
  by (intro sureI refs_client)

lemma sure_lists:
  "(\<And>k. inflight_msgs (f k) = inflight_msgs k \<and> queued_msgs (f k) = queued_msgs k) \<Longrightarrow>
   (\<And>k. Some c \<noteq> X \<Longrightarrow> new_ok k \<Longrightarrow> new_ok (f k)) \<Longrightarrow> sure X (modify (upd_client c f))"
  by (intro sureI refs_lists)

lemma sure_fields: "(\<And>b. unchanged b (f b)) \<Longrightarrow> sure X (modify f)"
  by (intro sureI refs_fields)

lemmas sure_rules = sure_bindE sure_if sure_option sure_leaf sure_client_at sure_ignore sure_failed

lemma sure_will: "sure X (context__send_will c)"
  unfolding context__send_will_def
  by (intro sure_rules refs_un_rules refs_easy_queue sure_client same_record) simp_all

lemma close_same: "same_messages k (net__socket_close k)"
  by (simp add: same_messages_def view_def new_ok_def net__socket_close_def)

lemma sure_disconnect: "sure X (context__disconnect c)"
  unfolding context__disconnect_def by (intro sure_rules sure_will sure_client close_same)

lemma sure_do_disconnect: "sure X (do_disconnect c)"
  unfolding do_disconnect_def
  by (intro sure_rules sure_disconnect sure_lists sure_fields) (simp_all add: context__add_to_disused_def un_fields new_ok_def)

lemma same_close: "frames same_client (ignore (wclSmpClose session))"
proof -
  have "frames same_client wosStorageTerminate" "frames same_client (modify (\<lambda>w. w\<lparr>smp_ctx := None\<rparr>))"
    by (auto simp: wosStorageTerminate_def frames_def modify_def ok_def same_client_def)
  then show ?thesis
    unfolding wclSmpClose_def smpDeleteSessionCredentials_def
    by (intro sa.read_rules sa.frame_rules sa.frames_prng sa.frames_updates sa.frames_storage)
qed

lemma clean_same: "same_messages k (clean_login k)"
  by (simp add: same_messages_def view_def new_ok_def clean_login_def)

lemma refs_clean_packets: "triple (refs X) (modify (upd_client c clean_packets)) (\<lambda>_. refs X) E"
  by (rule refs_lists) (simp_all add: clean_packets_def new_ok_def)

lemma refs_cleanup: "keeps (refs X) (context__cleanup c do_free)"
  unfolding context__cleanup_def
  by (intro keep_rules refs_un_rules refs_run same_close refs_clean_packets refs_clear refs_clean_session
      refs_client [OF close_same] refs_client [OF clean_same] sure_keeps [OF sure_will])

lemma refs_cleanup_all: "keeps (refs X) (cleanup_all cs)"
  by (induction cs) (auto intro!: keep_rules refs_cleanup)

lemma refs_free_disused: "keeps (refs X) context__free_disused"
  unfolding context__free_disused_def by (intro keep_rules refs_cleanup_all refs_fields) (simp add: un_fields)

lemma refs_handle_disconnect: "keeps (refs X) (handle__disconnect_broker c)"
  unfolding handle__disconnect_broker_def
  by (intro keep_rules refs_un_rules sure_keeps [OF sure_do_disconnect] refs_lists) (simp_all add: new_ok_def)

end
