(* ===== verification/RefConnect.thy ===== *)
theory RefConnect
  imports RefSteps
begin

text \<open>
  The references through CONNECT and through every packet. While a client connects it has no id and no
  messages until it takes over those of an older session.
\<close>

section \<open>A client without id and messages\<close>

definition blank :: "nat \<Rightarrow> 'p broker \<Rightarrow> bool" where
  "blank c b \<longleftrightarrow> (\<exists>h qs. (c < length qs \<and> qs ! c = ([], [], None)) \<and> st (Some c) h qs (queue_refs qs + tree_refs h) b)"

lemma triple_blank:
  "(\<And>h qs. c < length qs \<Longrightarrow> qs ! c = ([], [], None) \<Longrightarrow> triple (st (Some c) h qs (queue_refs qs + tree_refs h)) m Q E) \<Longrightarrow>
   triple (blank c) m Q E"
  unfolding blank_def by (intro triple_ex triple_conj) blast

lemma st_blank: "st (Some c) h qs (queue_refs qs + tree_refs h) b \<Longrightarrow> c < length qs \<Longrightarrow> qs ! c = ([], [], None) \<Longrightarrow> blank c b"
  unfolding blank_def by (intro exI [of _ h] exI [of _ qs]) simp

lemma st_forget: "st None h qs H b \<Longrightarrow> st X h qs H b"
  by (simp add: st_def)

lemma blank_some: "blank c b \<Longrightarrow> refs (Some c) b"
  unfolding blank_def by (auto intro: st_refs_ok)

text \<open>The client that was connecting is as the others are.\<close>

lemma st_known: "st (Some c) h qs H b \<Longrightarrow> (c < length (contexts b) \<Longrightarrow> new_ok (contexts b ! c)) \<Longrightarrow> st None h qs H b"
  unfolding st_def by (metis option.sel)

lemma blank_refs: "blank c b \<Longrightarrow> refs None b"
proof -
  assume "blank c b"
  then obtain h qs where c: "c < length qs" "qs ! c = ([], [], None)" and s: "st (Some c) h qs (queue_refs qs + tree_refs h) b"
    by (auto simp: blank_def)
  have "new_ok (contexts b ! c)" using st_refs [OF s c(1)] c(2) by (simp add: view_def new_ok_def)
  then show "refs None b" using st_known [OF s] by (blast intro: st_refs_ok)
qed

lemma keeps_blank:
  assumes "\<And>h qs H. keeps (st (Some c) h qs H) m"
  shows "keeps (blank c) m"
  by (rule triple_blank, rule triple_weaken [OF assms]) (auto intro: st_blank)

lemma blank_un: "frames unchanged m \<Longrightarrow> keeps (blank c) m"
  by (intro keeps_blank keeps_un)

lemma blank_run: "frames same_client m \<Longrightarrow> keeps (blank c) (run_on c m)"
  by (intro keeps_blank keeps_run)

lemma blank_client: "(\<And>k. same_messages k (f k)) \<Longrightarrow> keeps (blank c) (modify (upd_client c f))"
  by (intro keeps_blank keeps_client)

lemmas blank_un_rules = un_rules [THEN blank_un]

lemmas blank_runs = same_sends [THEN blank_run] same_reads [THEN blank_run]

lemma blank_refused: "keeps (blank c) (connect_refused C U c result e)"
  unfolding connect_refused_def by (intro keep_rules blank_runs)

lemma blank_read_protocol: "keeps (blank c) (read_protocol C U c)"
  unfolding read_protocol_def
  by (intro keep_rules keeps_wrap blank_runs blank_un_rules blank_refused blank_client same_record) simp_all

lemma blank_read_id: "keeps (blank c) (read_client_id C U uuid c clean)"
  unfolding read_client_id_def by (intro keep_rules keeps_wrap blank_runs blank_un_rules blank_refused)

lemma blank_read_will: "keeps (blank c) (read_will c flags)"
  unfolding read_will_def by (intro keep_rules keeps_wrap blank_runs blank_un_rules)

lemma blank_read_password: "keeps (blank c) (read_password c lenient)"
  unfolding read_password_def by (intro keep_rules keeps_wrap blank_runs)

lemma blank_read_login: "keeps (blank c) (read_login c flags)"
  unfolding read_login_def by (intro keep_rules keeps_wrap blank_runs blank_un_rules blank_read_password) simp_all

lemma blank_username: "keeps (blank c) (username_as_id C U c cid)"
  unfolding username_as_id_def by (intro keep_rules blank_un_rules blank_refused)

text \<open>The id that is there during the login is taken out again.\<close>

lemma blank_with_id:
  assumes "frames unchanged (m :: ('p, 'v) broker_comp)"
  shows "triple (blank c) (bindE (modify (upd_client c (\<lambda>k. k\<lparr>k_id := Some cid, k_username := u\<rparr>))) (\<lambda>_.
    bindE (attempt m) (\<lambda>r. bindE (modify (upd_client c (\<lambda>k. k\<lparr>k_id := None, k_username := None\<rparr>))) (\<lambda>_. ok r)))) (\<lambda>_. blank c) (\<lambda>_. False)"
proof (rule triple_blank)
  fix h and qs :: queues
  assume c: "c < length qs" and v: "qs ! c = ([], [], None)"
  let ?q = "qs[c := ([], [], Some cid)]" and ?H = "queue_refs qs + tree_refs h"
  have restored: "?q[c := ([], [], None)] = qs" using c v by (metis list_update_id list_update_overwrite)
  have set: "st (Some c) h (qs'[c := view (f (contexts b ! c))]) ?H (upd_client c f b)"
    if "st (Some c) h qs' ?H b" "c < length qs'" for qs' f and b :: "'p broker"
    using st_client [OF that(1), of c f] that(2) by simp
  have 1: "triple (st (Some c) h qs ?H :: 'p broker \<Rightarrow> bool) (modify (upd_client c (\<lambda>k. k\<lparr>k_id := Some cid, k_username := u\<rparr>))) (\<lambda>_. st (Some c) h ?q ?H) (\<lambda>_. False)"
  proof (rule triple_modify)
    fix b :: "'p broker" assume b: "st (Some c) h qs ?H b"
    have "view (contexts b ! c) = qs ! c" by (rule st_refs [OF b c])
    then have "view ((contexts b ! c)\<lparr>k_id := Some cid, k_username := u\<rparr>) = ([], [], Some cid)" by (simp add: v view_def)
    then show "st (Some c) h ?q ?H (upd_client c (\<lambda>k. k\<lparr>k_id := Some cid, k_username := u\<rparr>) b)"
      using set [OF b c, of "\<lambda>k. k\<lparr>k_id := Some cid, k_username := u\<rparr>"] by simp
  qed
  have 2: "triple (st (Some c) h ?q ?H :: 'p broker \<Rightarrow> bool) (modify (upd_client c (\<lambda>k. k\<lparr>k_id := None, k_username := None\<rparr>))) (\<lambda>_. blank c) (\<lambda>_. False)"
  proof (rule triple_modify)
    fix b :: "'p broker" assume b: "st (Some c) h ?q ?H b"
    have "view (contexts b ! c) = ?q ! c" by (rule st_refs [OF b]) (simp add: c)
    then have "view ((contexts b ! c)\<lparr>k_id := None, k_username := None\<rparr>) = ([], [], None)" using c by (simp add: view_def)
    then have "st (Some c) h qs ?H (upd_client c (\<lambda>k. k\<lparr>k_id := None, k_username := None\<rparr>) b)"
      using set [OF b, of "\<lambda>k. k\<lparr>k_id := None, k_username := None\<rparr>"] c restored by simp
    then show "blank c (upd_client c (\<lambda>k. k\<lparr>k_id := None, k_username := None\<rparr>) b)" using c v by (rule st_blank)
  qed
  have a: "triple (st (Some c) h ?q ?H) (attempt m) (\<lambda>_. st (Some c) h ?q ?H) (\<lambda>_. False)"
    unfolding attempt_def
    by (rule triple_rescue [where F = "st (Some c) h ?q ?H"], rule triple_bindE [OF keeps_un [OF assms] triple_leaf(1)])
      (auto intro: triple_ok)
  show "triple (st (Some c) h qs ?H) (bindE (modify (upd_client c (\<lambda>k. k\<lparr>k_id := Some cid, k_username := u\<rparr>))) (\<lambda>_.
    bindE (attempt m) (\<lambda>r. bindE (modify (upd_client c (\<lambda>k. k\<lparr>k_id := None, k_username := None\<rparr>))) (\<lambda>_. ok r)))) (\<lambda>_. blank c) (\<lambda>_. False)"
    by (rule triple_bindE [OF 1 triple_bindE [OF a triple_bindE [OF 2 triple_leaf(1)]]])
qed

text \<open>From blank on, whatever fails, the counts are right.\<close>

lemma blank_step:
  assumes "keeps (blank c) m" and "\<And>x. triple (blank c) (k x) Q (refs None)"
  shows "triple (blank c) (bindE m k) Q (refs None)"
  by (rule triple_step [OF assms(1) blank_refs assms(2)])

lemma blank_weaken: "triple (refs None) m Q (refs None) \<Longrightarrow> triple (blank c) m Q (refs None)"
  by (erule triple_weaken) (auto intro: blank_refs)

lemma triple_rebind: "triple P (bindE m (\<lambda>x. ok (g x))) R E \<Longrightarrow> (\<And>x. triple (R (g x)) (k x) Q E) \<Longrightarrow> triple P (bindE m k) Q E"
  unfolding triple_def bindE_def ok_def by (fastforce split: prod.splits sum.splits)

lemma triple_regroup:
  assumes "triple P (bindE m (\<lambda>_. bindE n (\<lambda>r. bindE l (\<lambda>_. ok r)))) (\<lambda>_. R) (\<lambda>_. False)" and "\<And>r. triple R (k r) Q E"
  shows "triple P (bindE m (\<lambda>_. bindE n (\<lambda>r. bindE l (\<lambda>_. k r)))) Q E"
proof -
  have "bindE m (\<lambda>_. bindE n (\<lambda>r. bindE l (\<lambda>_. k r))) = bindE (bindE m (\<lambda>_. bindE n (\<lambda>r. bindE l (\<lambda>_. ok r)))) k"
    by (rule ext) (simp add: bindE_def ok_def split: prod.splits sum.splits)
  moreover have "triple P (bindE m (\<lambda>_. bindE n (\<lambda>r. bindE l (\<lambda>_. ok r)))) (\<lambda>_. R) E"
    by (rule triple_weaken [OF assms(1)]) simp_all
  ultimately show ?thesis using triple_bindE assms(2) by metis
qed

lemma blank_errors: "keeps (blank c) m \<Longrightarrow> triple (blank c) m (\<lambda>_. blank c) (refs None)"
  by (erule triple_weaken) (auto intro: blank_refs)

lemma blank_login: "triple (blank c :: 'p broker \<Rightarrow> bool) (check_login C U c cid user pass) (\<lambda>_. blank c) (refs None)"
  unfolding check_login_def
proof (rule triple_option)
  show "triple (blank c :: 'p broker \<Rightarrow> bool) (bindE (client_at c) (\<lambda>k. bindE (options_of k) (\<lambda>opts.
          if allow_anonymous opts then ok () else connect_refused C U c 5 MOSQ_ERR_NOMEM))) (\<lambda>_. blank c) (refs None)"
    by (rule blank_errors) (intro keep_rules blank_un_rules blank_refused)
  fix u
  have left: "triple (refs None :: 'p broker \<Rightarrow> bool) (bindE (context__disconnect c) (\<lambda>_. fail (Code MOSQ_ERR_NOMEM))) (\<lambda>_. blank c) (refs None)"
    by (rule triple_bindE [OF sureD [OF sure_disconnect] triple_leaf(2)])
  have after: "triple (blank c :: 'p broker \<Rightarrow> bool) (case r of
            Inr _ \<Rightarrow> modify (upd_client c (\<lambda>k. k\<lparr>k_username := Some u, k_password := pass\<rparr>))
          | Inl e \<Rightarrow>
              bindE (if e = Code MOSQ_ERR_AUTH
                     then (ignore (run_on c (send__connack C U SMP_MQTTS_BROKER 0 5)) :: ('p, unit) broker_comp) else ok ()) (\<lambda>_.
              bindE (context__disconnect c) (\<lambda>_. fail (Code MOSQ_ERR_NOMEM)))) (\<lambda>_. blank c) (refs None)" for r :: "mosq_err stop + unit"
  proof (rule triple_sum)
    show "triple (blank c :: 'p broker \<Rightarrow> bool) (modify (upd_client c (\<lambda>k. k\<lparr>k_username := Some u, k_password := pass\<rparr>))) (\<lambda>_. blank c) (refs None)"
      by (rule blank_errors, rule blank_client, rule same_record) simp_all
    show "triple (blank c :: 'p broker \<Rightarrow> bool) (bindE (if e = Code MOSQ_ERR_AUTH
                     then (ignore (run_on c (send__connack C U SMP_MQTTS_BROKER 0 5)) :: ('p, unit) broker_comp) else ok ()) (\<lambda>_.
              bindE (context__disconnect c) (\<lambda>_. fail (Code MOSQ_ERR_NOMEM)))) (\<lambda>_. blank c) (refs None)" for e
      by (rule blank_step [OF _ blank_weaken [OF left]]) (intro keep_rules blank_runs)
  qed
  show "triple (blank c :: 'p broker \<Rightarrow> bool) (bindE (modify (upd_client c (\<lambda>k. k\<lparr>k_id := Some cid, k_username := Some u\<rparr>))) (\<lambda>_.
          bindE (attempt (mosquitto_unpwd_check c u pass)) (\<lambda>r.
          bindE (modify (upd_client c (\<lambda>k. k\<lparr>k_id := None, k_username := None\<rparr>))) (\<lambda>_.
          case r of
            Inr _ \<Rightarrow> modify (upd_client c (\<lambda>k. k\<lparr>k_username := Some u, k_password := pass\<rparr>))
          | Inl e \<Rightarrow>
              bindE (if e = Code MOSQ_ERR_AUTH
                     then (ignore (run_on c (send__connack C U SMP_MQTTS_BROKER 0 5)) :: ('p, unit) broker_comp) else ok ()) (\<lambda>_.
              bindE (context__disconnect c) (\<lambda>_. fail (Code MOSQ_ERR_NOMEM))))))) (\<lambda>_. blank c) (refs None)"
    by (rule triple_regroup [OF blank_with_id [OF un_login] after])
qed

section \<open>Taking over a session\<close>

text \<open>The messages of client \<open>f\<close> go to the blank client \<open>c\<close>.\<close>

lemma refs_take_messages: "triple (blank c) (take_messages c f) (\<lambda>_. refs (Some c)) E"
  unfolding take_messages_def
proof (rule triple_blank, rule triple_client_at, rule triple_if)
  fix h qs and k :: "'a client_context"
  assume c: "c < length qs" and v: "qs ! c = ([], [], None)" and f: "f < length qs" and k: "view k = qs ! f"
  show "triple (st (Some c) h qs (queue_refs qs + tree_refs h)) (ok ()) (\<lambda>_. refs (Some c)) E"
    by (rule triple_ok) (rule st_refs_ok)
  assume some: "\<not> (inflight_msgs k = [] \<and> queued_msgs k = [])"
  have cf: "c \<noteq> f" using some k v by (auto simp: view_def)
  have w: "qs ! f = (inflight_msgs k, queued_msgs k, k_id k)" using k by (simp add: view_def)
  let ?H = "queue_refs qs + tree_refs h"
  let ?q1 = "qs[c := (inflight_msgs k, queued_msgs k, None)]"
  let ?q2 = "?q1[f := ([], [], k_id k)]"
  have 1: "triple (st (Some c) h qs ?H :: 'a broker \<Rightarrow> bool)
      (modify (upd_client c (\<lambda>kk. kk\<lparr>inflight_msgs := inflight_msgs k, queued_msgs := queued_msgs k\<rparr>)))
      (\<lambda>_. st (Some c) h ?q1 ?H) E"
  proof (rule triple_modify)
    fix b :: "'a broker" assume b: "st (Some c) h qs ?H b"
    have "view (contexts b ! c) = qs ! c" by (rule st_refs [OF b c])
    then show "st (Some c) h ?q1 ?H (upd_client c (\<lambda>kk. kk\<lparr>inflight_msgs := inflight_msgs k, queued_msgs := queued_msgs k\<rparr>) b)"
      using st_client [OF b, of c "\<lambda>kk. kk\<lparr>inflight_msgs := inflight_msgs k, queued_msgs := queued_msgs k\<rparr>"] c
      by (simp add: v view_def)
  qed
  have 2: "triple (st (Some c) h ?q1 ?H :: 'a broker \<Rightarrow> bool)
      (modify (upd_client f (\<lambda>kk. kk\<lparr>inflight_msgs := [], queued_msgs := [], lost_inflight := lost_inflight kk \<or> inflight_msgs kk \<noteq> [], lost_queued := lost_queued kk \<or> queued_msgs kk \<noteq> []\<rparr>))) (\<lambda>_. st (Some c) h ?q2 ?H) E"
  proof (rule triple_modify)
    fix b :: "'a broker" assume b: "st (Some c) h ?q1 ?H b"
    have e: "view (contexts b ! f) = (inflight_msgs k, queued_msgs k, k_id k)"
      using st_refs [OF b, of f] f cf w by simp
    let ?f = "\<lambda>kk :: 'a client_context. kk\<lparr>inflight_msgs := [], queued_msgs := [],
      lost_inflight := lost_inflight kk \<or> inflight_msgs kk \<noteq> [], lost_queued := lost_queued kk \<or> queued_msgs kk \<noteq> []\<rparr>"
    have "new_ok (contexts b ! f)" using b f cf st_length [OF b] by (auto simp: st_def)
    then have "new_ok (?f (contexts b ! f))" by (simp add: new_ok_def)
    then show "st (Some c) h ?q2 ?H (upd_client f ?f b)"
      using st_client [OF b, of f ?f] f e by (simp add: view_def)
  qed
  have r: "queue_refs ?q2 = queue_refs qs"
  proof -
    have "queue_refs ?q1 = queue_refs qs + (msg_refs (inflight_msgs k) + msg_refs (queued_msgs k))"
      using queue_refs_upd [OF c, of "(inflight_msgs k, queued_msgs k, None)"] by (simp add: v)
    moreover have "queue_refs ?q2 + (msg_refs (inflight_msgs k) + msg_refs (queued_msgs k)) = queue_refs ?q1"
      using queue_refs_upd [of f ?q1 "([], [], k_id k)"] f cf w by simp
    ultimately show ?thesis by simp
  qed
  have 3: "triple (st (Some c) h ?q2 ?H :: 'a broker \<Rightarrow> bool) (ignore (db__message_reconnect_reset c) :: ('a, unit) broker_comp) (\<lambda>_. refs (Some c)) E"
    unfolding r [symmetric] by (rule triple_ignore, rule refs_weaken, intro refs_loose loose_reset)
  show "triple (st (Some c) h qs ?H :: 'a broker \<Rightarrow> bool)
      (bindE (modify (upd_client c (\<lambda>kk. kk\<lparr>inflight_msgs := inflight_msgs k, queued_msgs := queued_msgs k\<rparr>))) (\<lambda>_.
       bindE (modify (upd_client f (\<lambda>kk. kk\<lparr>inflight_msgs := [], queued_msgs := [],
         lost_inflight := lost_inflight kk \<or> inflight_msgs kk \<noteq> [], lost_queued := lost_queued kk \<or> queued_msgs kk \<noteq> []\<rparr>))) (\<lambda>_.
       (ignore (db__message_reconnect_reset c) :: ('a, unit) broker_comp)))) (\<lambda>_. refs (Some c)) E"
    by (rule triple_bindE [OF 1 triple_bindE [OF 2 3]])
qed

text \<open>Moving the subscriptions has no error of its own.\<close>

definition faults :: "('s, 'e, 'a) comp \<Rightarrow> bool" where
  "faults m \<longleftrightarrow> triple (\<lambda>_. True) m (\<lambda>_ _. True) (\<lambda>_. False)"

lemma faultsI: "(\<And>s. case m s of (Inr x, t) \<Rightarrow> True | (Inl e, t) \<Rightarrow> e = Fault) \<Longrightarrow> faults m"
  by (fastforce simp: faults_def triple_def split: prod.splits sum.splits)

lemma faults_leaf: "faults (ok x)" "faults (asks g)" "faults (modify u)" "faults (ensure b Fault)" "faults (root_of ts)" "faults (client_at c)"
  by (auto simp: ok_def asks_def modify_def ensure_def root_of_def client_at_def pure_res_def bindE_def
    split: option.splits if_splits intro!: faultsI)

lemma faults_bindE: "faults m \<Longrightarrow> (\<And>x. faults (k x)) \<Longrightarrow> faults (bindE m k)"
  unfolding faults_def by (rule triple_bindE)

lemma faults_retarget: "faults (retarget_nodes f c ps)"
  by (induction f c ps rule: retarget_nodes.induct) (auto intro!: faults_leaf faults_bindE)

lemma triple_faults:
  assumes "keeps I m" and "faults m"
  shows "triple I m (\<lambda>_. I) E"
proof (rule tripleI)
  fix s assume s: "I s"
  obtain r t where m: "m s = (r, t)" by fastforce
  have "e = Fault" if "r = Inl e" for e
    using tripleE [OF assms(2) [unfolded faults_def] TrueI m [unfolded that]] by blast
  then show "case m s of (Inr x, t) \<Rightarrow> I t | (Inl e, t) \<Rightarrow> e \<noteq> Fault \<longrightarrow> E t"
    using tripleD [OF assms(1) s] m by (cases r) simp_all
qed

lemma sure_faults: "keeps (refs X) m \<Longrightarrow> faults m \<Longrightarrow> sure X m"
  unfolding sure_def by (rule triple_faults)

lemma duplicate_same: "same_messages k (k\<lparr>k_clean_session := b, conn_state := mosq_cs_duplicate\<rparr>)"
  by (simp add: same_messages_def view_def new_ok_def)

lemma sure_after_messages: "sure X (bindE (modify (upd_client c (\<lambda>k. k\<lparr>k_subs := subs, k_last_mid := mid\<rparr>))) (\<lambda>_.
     bindE (modify (upd_client f (\<lambda>k. k\<lparr>k_subs := []\<rparr>))) (\<lambda>_. retarget_nodes f c ps)))"
  by (intro sure_rules sure_faults faults_retarget refs_retarget sure_client same_record) simp_all

lemma blank_faults: "keeps (blank c) m \<Longrightarrow> faults m \<Longrightarrow> (\<And>x. triple (blank c) (k x) Q E) \<Longrightarrow> triple (blank c) (bindE m k) Q E"
  by (rule triple_bindE [OF triple_faults])

lemma refs_take_over: "triple (blank c :: 'p broker \<Rightarrow> bool) (take_over c clean f) (\<lambda>_. refs (Some c)) E"
  unfolding take_over_def
proof (rule blank_faults [OF blank_un [OF un_client_at] faults_leaf(6)], rule blank_faults [OF blank_un [OF un_client_at] faults_leaf(6)],
    rule blank_faults [OF blank_client faults_leaf(3)])
  show "same_messages k (k\<lparr>k_clean_session := clean\<rparr>)" for k :: "'p client_context"
    by (simp add: same_messages_def view_def new_ok_def)
  fix k found :: "'p client_context"
  have a: "triple (blank c :: 'p broker \<Rightarrow> bool) (if \<not> clean \<and> \<not> k_clean_session found
            then bindE (take_messages c f) (\<lambda>_.
                 bindE (modify (upd_client c (\<lambda>k. k\<lparr>k_subs := k_subs found, k_last_mid := k_last_mid found\<rparr>))) (\<lambda>_.
                 bindE (modify (upd_client f (\<lambda>k. k\<lparr>k_subs := []\<rparr>))) (\<lambda>_.
                 retarget_nodes f c (k_subs found))))
            else ok ()) (\<lambda>_. refs (Some c)) E"
    by (rule triple_if [OF triple_bindE [OF refs_take_messages sureD [OF sure_after_messages]] triple_ok]) (rule blank_some)
  have b: "triple (refs (Some c) :: 'p broker \<Rightarrow> bool) (bindE (modify (upd_client f (\<lambda>k. k\<lparr>k_clean_session := True, conn_state := mosq_cs_duplicate\<rparr>))) (\<lambda>_.
     bindE (do_disconnect f) (\<lambda>_.
     ok (if k_protocol k = mosq_p_mqtt311 \<and> \<not> clean then 1 else 0 :: byte)))) (\<lambda>_. refs (Some c)) E"
    by (rule sureD, intro sure_rules sure_client duplicate_same sure_do_disconnect)
  from triple_bindE [OF a b] show "triple (blank c :: 'p broker \<Rightarrow> bool) (bindE (if \<not> clean \<and> \<not> k_clean_session found
            then bindE (take_messages c f) (\<lambda>_.
                 bindE (modify (upd_client c (\<lambda>k. k\<lparr>k_subs := k_subs found, k_last_mid := k_last_mid found\<rparr>))) (\<lambda>_.
                 bindE (modify (upd_client f (\<lambda>k. k\<lparr>k_subs := []\<rparr>))) (\<lambda>_.
                 retarget_nodes f c (k_subs found))))
            else ok ()) (\<lambda>_.
     bindE (modify (upd_client f (\<lambda>k. k\<lparr>k_clean_session := True, conn_state := mosq_cs_duplicate\<rparr>))) (\<lambda>_.
     bindE (do_disconnect f) (\<lambda>_.
     ok (if k_protocol k = mosq_p_mqtt311 \<and> \<not> clean then 1 else 0 :: byte))))) (\<lambda>_. refs (Some c)) E" .
qed

section \<open>CONNECT\<close>

lemma connected_known: "triple (refs (Some c)) (modify (upd_client c (\<lambda>k. k\<lparr>conn_state := mosq_cs_connected\<rparr>))) (\<lambda>_. refs None) E"
proof (rule triple_refs, rule triple_modify)
  fix h qs and b :: "'a broker"
  let ?f = "\<lambda>k :: 'a client_context. k\<lparr>conn_state := mosq_cs_connected\<rparr>"
  assume b: "st (Some c) h qs (queue_refs qs + tree_refs h) b"
  have "st (Some c) h qs (queue_refs qs + tree_refs h) (upd_client c ?f b)"
    by (rule st_same [OF b]) (simp add: same_messages_def view_def new_ok_def)
  moreover have "new_ok (contexts (upd_client c ?f b) ! c)" if "c < length (contexts b)"
    using that by (simp add: upd_client_def new_ok_def)
  ultimately have "st None h qs (queue_refs qs + tree_refs h) (upd_client c ?f b)"
    by (rule st_known) (simp add: upd_client_def)
  then show "refs None (upd_client c ?f b)" by (rule st_refs_ok)
qed

text \<open>A client without a listener needs no more.\<close>

lemma refs_listener:
  assumes "\<And>k x. triple (refs (Some c)) (g k x) Q (refs None)"
  shows "triple (refs (Some c)) (bindE (client_at c) (\<lambda>k. bindE (asks f) (\<lambda>x.
    bindE (ensure (\<not> (p x \<and> k_listener k = None)) e) (\<lambda>_. g k x)))) Q (refs None)"
proof (rule triple_refs, rule tripleI)
  fix h qs and b :: "'a broker"
  assume b: "st (Some c) h qs (queue_refs qs + tree_refs h) b"
  let ?k = "contexts b ! c"
  have known: "refs None b" if "k_listener ?k = None"
    using st_known [OF b] that by (auto simp: new_ok_def intro: st_refs_ok)
  have "refs (Some c) b" using b by (rule st_refs_ok)
  then show "case bindE (client_at c) (\<lambda>k. bindE (asks f) (\<lambda>x.
    bindE (ensure (\<not> (p x \<and> k_listener k = None)) e) (\<lambda>_. g k x))) b of (Inr x, t) \<Rightarrow> Q x t | (Inl e, t) \<Rightarrow> e \<noteq> Fault \<longrightarrow> refs None t"
    using assms [of ?k "f b"] known \<open>refs (Some c) b\<close>
    by (auto simp: triple_def client_at_def bindE_def asks_def pure_res_def ensure_def)
qed

lemma find_user_same: "inflight_msgs (find_user opts k) = inflight_msgs k \<and> queued_msgs (find_user opts k) = queued_msgs k"
  by (simp add: find_user_def split: option.split)

lemma sure_options: "sure X (options_of k)"
proof (rule sure_faults)
  show "faults (options_of k)"
    unfolding options_of_def
    by (rule faultsI) (auto simp: bindE_def asks_def pure_res_def split: option.split)
qed (rule refs_un_rules)

text \<open>The lists after the access checks.\<close>

lemma refs_filtered:
  assumes "triple (refs (Some c)) rest Q E"
  shows "triple (refs (Some c)) (bindE (client_at c) (\<lambda>k.
     bindE (connection_check_acl c True (inflight_msgs k)) (\<lambda>kept.
     bindE (modify (upd_client c (\<lambda>k. k\<lparr>inflight_msgs := kept\<rparr>))) (\<lambda>_.
     bindE (connection_check_acl c False (queued_msgs k)) (\<lambda>kept.
     bindE (modify (upd_client c (\<lambda>k. k\<lparr>queued_msgs := kept\<rparr>))) (\<lambda>_. rest)))))) Q E"
proof (rule triple_refs, rule triple_client_at)
  fix h and qs :: queues and k
  assume c: "c < length qs" and k: "view k = qs ! c"
  have v: "qs ! c = (inflight_msgs k, queued_msgs k, k_id k)" using k by (simp add: view_def)
  have r: "triple (loose (Some c) h (tree_refs h)) rest Q E"
    by (rule triple_weaken [OF assms]) (auto simp: refs_def)
  show "triple (st (Some c) h qs (queue_refs qs + tree_refs h)) (bindE (connection_check_acl c True (inflight_msgs k)) (\<lambda>kept.
     bindE (modify (upd_client c (\<lambda>k. k\<lparr>inflight_msgs := kept\<rparr>))) (\<lambda>_.
     bindE (connection_check_acl c False (queued_msgs k)) (\<lambda>kept.
     bindE (modify (upd_client c (\<lambda>k. k\<lparr>queued_msgs := kept\<rparr>))) (\<lambda>_. rest))))) Q E"
    by (rule sheds_inflight_exact [OF c v sheds_acl, where f = "\<lambda>kept k. k\<lparr>inflight_msgs := kept\<rparr>"], simp add: view_def, rule sheds_queued_exact [OF _ _ sheds_acl r]) (simp_all add: c)
qed

lemma refs_finish: "triple (refs (Some c) :: 'p broker \<Rightarrow> bool) (finish_connect C U c cid version clean wl ack) (\<lambda>_. refs None) (refs None)"
  unfolding finish_connect_def
proof (rule refs_listener)
  fix k :: "'p client_context" and per_listener
  have last: "triple (refs None :: 'p broker \<Rightarrow> bool) (run_on c (send__connack C U SMP_MQTTS_BROKER ack 0)) (\<lambda>_. refs None) (refs None)"
    by (intro refs_runs)
  have conn: "triple (refs (Some c) :: 'p broker \<Rightarrow> bool) (bindE (modify (\<lambda>b. if clean then b else b\<lparr>persistence_changes := persistence_changes b + 1\<rparr>)) (\<lambda>_.
     bindE (modify (upd_client c (\<lambda>k. k\<lparr>conn_state := mosq_cs_connected\<rparr>))) (\<lambda>_.
     run_on c (send__connack C U SMP_MQTTS_BROKER ack 0)))) (\<lambda>_. refs None) (refs None)"
    by (rule triple_bindE [OF refs_fields triple_bindE [OF connected_known last]]) (simp add: un_fields un.R_refl)
  have user: "sure (Some c) (modify (upd_client c (find_user opts)) :: ('p, unit) broker_comp)" for opts
    by (rule sure_lists [OF find_user_same]) simp
  have will: "sure (Some c) (modify (upd_client c (\<lambda>k. k\<lparr>k_will := (if wl = None then k_will k else wl), k_id := Some cid,
       k_clean_session := clean, ping_t := 0, is_dropping := False,
       is_bridge := (is_bridge k \<or> version AND 0x80 = 0x80)\<rparr>)) :: ('p, unit) broker_comp)"
    by (rule sure_lists) simp_all
  show "triple (refs (Some c) :: 'p broker \<Rightarrow> bool) (bindE (options_of k) (\<lambda>opts.
     bindE (modify (upd_client c (find_user opts))) (\<lambda>_.
     bindE (modify (upd_client c (\<lambda>k. k\<lparr>k_will := (if wl = None then k_will k else wl), k_id := Some cid,
       k_clean_session := clean, ping_t := 0, is_dropping := False,
       is_bridge := (is_bridge k \<or> version AND 0x80 = 0x80)\<rparr>))) (\<lambda>_.
     bindE (client_at c) (\<lambda>k.
     bindE (connection_check_acl c True (inflight_msgs k)) (\<lambda>kept.
     bindE (modify (upd_client c (\<lambda>k. k\<lparr>inflight_msgs := kept\<rparr>))) (\<lambda>_.
     bindE (connection_check_acl c False (queued_msgs k)) (\<lambda>kept.
     bindE (modify (upd_client c (\<lambda>k. k\<lparr>queued_msgs := kept\<rparr>))) (\<lambda>_.
     bindE (modify (\<lambda>b. if clean then b else b\<lparr>persistence_changes := persistence_changes b + 1\<rparr>)) (\<lambda>_.
     bindE (modify (upd_client c (\<lambda>k. k\<lparr>conn_state := mosq_cs_connected\<rparr>))) (\<lambda>_.
     run_on c (send__connack C U SMP_MQTTS_BROKER ack 0)))))))))))) (\<lambda>_. refs None) (refs None)"
    by (rule triple_bindE [OF sureD [OF sure_options]], rule triple_bindE [OF sureD [OF user]],
      rule triple_bindE [OF sureD [OF will]], rule refs_filtered [OF conn])
qed

text \<open>A client that may connect is blank.\<close>

lemma refs_new_client:
  assumes "triple (blank c) m Q (refs None)"
  shows "triple (refs None) (bindE (client_at c) (\<lambda>k. bindE (ensure (k_listener k \<noteq> None) e) (\<lambda>_.
    bindE (ensure (conn_state k = mosq_cs_new) e') (\<lambda>_. m)))) Q (refs None)"
proof (rule triple_refs, rule tripleI)
  fix h and qs :: queues and b :: "'a broker"
  assume b: "st None h qs (queue_refs qs + tree_refs h) b"
  let ?k = "contexts b ! c"
  have ok: "refs None b" using b by (rule st_refs_ok)
  have blank: "blank c b" if "c < length (contexts b)" "k_listener ?k \<noteq> None" "conn_state ?k = mosq_cs_new"
  proof -
    have c: "c < length qs" using that(1) st_length [OF b] by simp
    have "new_ok ?k" using b that(1) by (simp add: st_def)
    then have "view ?k = ([], [], None)" using that by (simp add: new_ok_def view_def)
    then show ?thesis using st_blank [OF st_forget [OF b] c] st_refs [OF b c] by simp
  qed
  show "case bindE (client_at c) (\<lambda>k. bindE (ensure (k_listener k \<noteq> None) e) (\<lambda>_.
    bindE (ensure (conn_state k = mosq_cs_new) e') (\<lambda>_. m))) b of (Inr x, t) \<Rightarrow> Q x t | (Inl e, t) \<Rightarrow> e \<noteq> Fault \<longrightarrow> refs None t"
    using assms blank ok by (auto simp: triple_def client_at_def bindE_def asks_def pure_res_def ensure_def)
qed

lemma refs_connect: "keeps (refs None :: 'p broker \<Rightarrow> bool) (handle__connect C U uuid c)"
  unfolding handle__connect_def
proof (rule refs_new_client)
  have keepalive: "keeps (blank c) (modify (upd_client c (\<lambda>k. k\<lparr>c_keepalive := x\<rparr>)) :: ('p, unit) broker_comp)" for x
    by (intro blank_client same_record) simp_all
  have found: "triple (blank c :: 'p broker \<Rightarrow> bool) (case v of None \<Rightarrow> ok 0 | Some f \<Rightarrow> take_over c clean f) (\<lambda>_. refs (Some c)) (refs None)" for v clean
    by (rule triple_option [OF triple_ok refs_take_over]) (rule blank_some)
  have accept: "triple (blank c :: 'p broker \<Rightarrow> bool) (bindE (check_login C U c cid user pass) (\<lambda>_.
     bindE (username_as_id C U c cid) (\<lambda>cid.
     bindE (asks (\<lambda>b. find_client cid (contexts b))) (\<lambda>found.
     bindE (case found of None \<Rightarrow> ok 0 | Some f \<Rightarrow> take_over c clean f) (\<lambda>ack.
     finish_connect C U c cid version clean wl ack))))) (\<lambda>_. refs None) (refs None)" for cid user pass clean version wl
    by (rule triple_bindE [OF blank_login], rule blank_step [OF blank_username], rule blank_step [OF keeps_leaf(4)],
      rule triple_bindE [OF found refs_finish])
  note read = blank_read_protocol blank_read_id blank_read_will blank_read_login blank_username keepalive
    blank_un_rules blank_runs keeps_leaf keeps_wrap(2)
  show "triple (blank c :: 'p broker \<Rightarrow> bool) (bindE (read_protocol C U c) (\<lambda>version.
     bindE (or_1 (run_on c packet__read_byte)) (\<lambda>flags.
     bindE (client_at c) (\<lambda>k.
     bindE (ensure (\<not> (k_protocol k = mosq_p_mqtt311 \<and> flags AND 0x01 \<noteq> 0)) (Code MOSQ_ERR_PROTOCOL)) (\<lambda>_.
     bindE (ok (flags AND 0x02 \<noteq> 0)) (\<lambda>clean.
     bindE (ensure (flags AND 0x18 \<noteq> 0x18) (Code MOSQ_ERR_PROTOCOL)) (\<lambda>_.
     bindE (or_1 (run_on c packet__read_uint16)) (\<lambda>keepalive.
     bindE (modify (upd_client c (\<lambda>k. k\<lparr>c_keepalive := keepalive\<rparr>))) (\<lambda>_.
     bindE (read_client_id C U uuid c clean) (\<lambda>cid.
     bindE (read_will c flags) (\<lambda>wl.
     bindE (read_login c flags) (\<lambda>(user, pass).
     bindE (client_at c) (\<lambda>k.
     bindE (ensure (pos (in_packet k) = remaining_length (in_packet k)) (Code MOSQ_ERR_PROTOCOL)) (\<lambda>_.
     bindE (check_login C U c cid user pass) (\<lambda>_.
     bindE (username_as_id C U c cid) (\<lambda>cid.
     bindE (asks (\<lambda>b. find_client cid (contexts b))) (\<lambda>found.
     bindE (case found of None \<Rightarrow> ok 0 | Some f \<Rightarrow> take_over c clean f) (\<lambda>ack.
     finish_connect C U c cid version clean wl ack)))))))))))))))))) (\<lambda>_. refs None) (refs None)"
    unfolding bindE_ok
    by (rule blank_step, (intro read)?)+ (rule triple_prod, rule blank_step, intro read, rule blank_step, intro read, rule accept)
qed

text \<open>The CONNACK of a bridge.\<close>

lemma un_fill: "frames unchanged (fill_packet wr p)"
  by (auto simp: frames_def fill_packet_def un.R_refl split: prod.splits sum.splits)

lemma refs_subscribe_remote: "keeps (refs X) (subscribe_remote C U c unsub ts)"
  by (induction ts)
    (auto simp: send__subscribe_broker_def send__unsubscribe_broker_def
      intro!: keep_rules keeps_wrap refs_runs refs_un_rules refs_draw refs_un [OF un_fill])

lemma refs_notify: "keeps (refs X) (notify_up C U c br)"
  unfolding notify_up_def by (intro keep_rules keeps_wrap refs_runs refs_un_rules refs_draw refs_easy_queue)

lemma refs_connack: "keeps (refs X) (handle__connack_broker C U c)"
  unfolding handle__connack_broker_def
  by (intro keep_rules keeps_wrap refs_runs refs_un_rules refs_notify refs_subscribe_remote refs_lists) (simp_all add: new_ok_def)

section \<open>Every packet\<close>

lemma refs_packet: "keeps (refs None) (handle__packet_broker C U uuid fuel c)"
  unfolding handle__packet_broker_def
  by (intro keep_rules keeps_wrap refs_un_rules refs_handle_acks refs_handle_pingresp refs_handle_publish refs_connect
      refs_handle_disconnect refs_handle_subscribe refs_handle_unsubscribe refs_connack)

end
