(* ===== verification/SubsMap.thy ===== *)
theory SubsMap
  imports SubsFacts
begin

text \<open>
  The subscriptions of the broker as a map from filters: the filter a path stands for, the invariant of
  the tree, and the run of a publication over the filters that match.
\<close>

section \<open>Paths and filters\<close>

fun join :: "bytes list \<Rightarrow> bytes" where
  "join [] = []"
| "join [l] = l"
| "join (l # ls) = l @ SLASH # join ls"

definition name_of :: "bytes list \<Rightarrow> bytes" where
  "name_of p = (if p \<noteq> [] \<and> hd p = [] then join (tl p) else join p)"

lemma join_levels: "join (levels s) = s"
proof (induction s rule: levels.induct)
  case (2 c cs)
  then show ?case by (cases "levels cs" rule: join.cases) auto
qed simp

lemma hd_levels_dollar: "s \<noteq> [] \<Longrightarrow> hd s = DOLLAR \<Longrightarrow> hd (levels s) \<noteq> []"
  by (cases s) (auto simp: case_levels)

lemma name_of_tokens [simp]: "name_of (tokens s) = s"
  by (auto simp: name_of_def tokens_def join_levels dest: hd_levels_dollar)

lemma tokens_inj: "tokens s = tokens t \<longleftrightarrow> s = t"
  by (metis name_of_tokens)

lemma hd_tokens: "hd (tokens g) = [] \<longleftrightarrow> \<not> (g \<noteq> [] \<and> hd g = DOLLAR)"
  by (auto simp: tokens_def dest: hd_levels_dollar)

lemma level_match_tokens:
  assumes "hd (tokens f) = hd (tokens s)" and "f \<noteq> []" and "s \<noteq> []"
  shows "level_match (tokens f) (tokens s) \<longleftrightarrow> topic_match f s"
proof -
  have "hd f = DOLLAR \<longleftrightarrow> hd s = DOLLAR" using assms hd_tokens [of f] hd_tokens [of s] by auto
  then show ?thesis using assms(2,3) by (auto simp: topic_match_def tokens_def)
qed

text \<open>Different roots hold nothing that matches, but for names that start with a dollar.\<close>

lemma match_same_root:
  assumes "topic_match f s" and "f \<noteq> []" and "s \<noteq> []" and "filter_ok (levels f)"
  shows "hd (tokens f) = hd (tokens s)"
proof (cases "hd f = DOLLAR")
  case False
  then show ?thesis using assms by (simp add: topic_match_def tokens_def)
next
  case True
  obtain l ls where l: "levels f = l # ls" using levels_ne by (metis neq_Nil_conv)
  have "hd l = DOLLAR" using True assms(2) l by (cases f) (auto simp: case_levels split: if_splits)
  then have "l \<noteq> [HASH]" "l \<noteq> [PLUS]" by auto
  then have "hd (levels s) = l" using assms(1) l by (cases "levels s") (auto simp: topic_match_def)
  then show ?thesis using assms True l by (simp add: topic_match_def tokens_def)
qed

section \<open>The invariant of the tree\<close>

text \<open>
  There are the two roots; siblings differ and nothing is below a \<open>#\<close>; and only the nodes at the path of
  a valid filter carry subscriptions.
\<close>

definition filter_path :: "bytes list \<Rightarrow> bool" where
  "filter_path p \<longleftrightarrow> p \<noteq> [] \<and> name_of p \<noteq> [] \<and> filter_ok (levels (name_of p)) \<and> tokens (name_of p) = p"

definition root_ok :: "subhier \<Rightarrow> bool" where
  "root_ok n \<longleftrightarrow> tree_ok (sh_children n) \<and> sh_subs n = [] \<and>
     (\<forall>(p, m) \<in> set (nodes (sh_children n)). sh_subs m = [] \<or> filter_path p \<and> hd p = sh_topic n)"

definition subs_ok :: "'p broker \<Rightarrow> bool" where
  "subs_ok b \<longleftrightarrow> map sh_topic (hier b) = [[], cstr ''$SYS''] \<and> (\<forall>n \<in> set (hier b). root_ok n)"

text \<open>The subscriptions to a filter.\<close>

definition leaves_at :: "'p broker \<Rightarrow> bytes \<Rightarrow> subleaf list" where
  "leaves_at b f = (case find_child (hd (tokens f)) (hier b) of None \<Rightarrow> [] | Some n \<Rightarrow> below n (tokens f))"

lemma below_nodes:
  "tree_ok (sh_children n) \<Longrightarrow> below n p = ls \<Longrightarrow> ls \<noteq> [] \<Longrightarrow> p \<noteq> [] \<Longrightarrow> \<exists>m. (p, m) \<in> set (nodes (sh_children n)) \<and> sh_subs m = ls"
  by (auto simp: below_def nodes_node_at split: option.splits)

lemma nodes_below: "tree_ok (sh_children n) \<Longrightarrow> (p, m) \<in> set (nodes (sh_children n)) \<Longrightarrow> below n p = sh_subs m"
  by (simp add: below_def nodes_node_at)

lemma root_ok_below:
  "root_ok n \<longleftrightarrow> tree_ok (sh_children n) \<and> (\<forall>p. below n p = [] \<or> filter_path p \<and> hd p = sh_topic n)" (is "?l \<longleftrightarrow> ?r")
proof
  assume l: ?l
  have "below n p = [] \<or> filter_path p \<and> hd p = sh_topic n" for p
  proof (cases "p = [] \<or> below n p = []")
    case True
    then show ?thesis using l by (auto simp: root_ok_def)
  next
    case False
    then obtain m where "(p, m) \<in> set (nodes (sh_children n))" "sh_subs m = below n p"
      using below_nodes l unfolding root_ok_def by blast
    then show ?thesis using l False unfolding root_ok_def by fastforce
  qed
  then show ?r using l by (simp add: root_ok_def)
next
  assume r: ?r
  have "sh_subs n = []" using spec [OF conjunct2 [OF r], of "[]"] by (simp add: filter_path_def)
  moreover have "sh_subs m = [] \<or> filter_path p \<and> hd p = sh_topic n" if "(p, m) \<in> set (nodes (sh_children n))" for p m
    using r nodes_below [OF _ that] by metis
  ultimately show ?l using r by (auto simp: root_ok_def)
qed

lemma subs_ok_root:
  assumes "subs_ok b" and "find_child t (hier b) = Some n"
  shows "root_ok n" "sh_topic n = t" "t = [] \<or> t = cstr ''$SYS''"
proof -
  have n: "n \<in> set (hier b)" "sh_topic n = t" using find_child_Some [OF assms(2)] by simp_all
  then show "root_ok n" "sh_topic n = t" using assms(1) by (simp_all add: subs_ok_def)
  have "sh_topic n \<in> set (map sh_topic (hier b))" using n(1) unfolding set_map by (rule imageI)
  moreover have "map sh_topic (hier b) = [[], cstr ''$SYS'']" using assms(1) by (simp add: subs_ok_def)
  ultimately have "sh_topic n \<in> set [[], cstr ''$SYS'']" by simp
  then show "t = [] \<or> t = cstr ''$SYS''" using n by simp
qed

lemma leaves_valid:
  assumes "subs_ok b" and "leaves_at b f \<noteq> []"
  shows "f \<noteq> []" "filter_ok (levels f)"
proof -
  obtain n where n: "find_child (hd (tokens f)) (hier b) = Some n" "below n (tokens f) \<noteq> []"
    using assms(2) by (auto simp: leaves_at_def split: option.splits)
  have "filter_path (tokens f)" using subs_ok_root(1) [OF assms(1) n(1)] n(2) by (auto simp: root_ok_below)
  then show "f \<noteq> []" "filter_ok (levels f)" by (auto simp: filter_path_def)
qed

text \<open>One root is replaced by one that differs at the path of one filter.\<close>

lemma find_put_root: "find_child t (hier (put_root n b)) = (if t = sh_topic n then Some n else find_child t (hier b))"
  by (simp add: put_root_def)

lemma topics_put_child: "sh_topic n \<in> sh_topic ` set ns \<Longrightarrow> map sh_topic (put_child n ns) = map sh_topic ns"
  by (induction ns) auto

lemma set_put: "set (put_child n ns) \<subseteq> insert n (set ns)"
  by (induction ns) auto

lemma subs_ok_put:
  assumes ok: "subs_ok b" and n: "find_child (hd (tokens f)) (hier b) = Some n" and "f \<noteq> []" and "filter_ok (levels f)"
    and t: "sh_topic n' = sh_topic n" "tree_ok (sh_children n')"
    and up: "\<And>us. below n' us = (if us = tokens f then g (below n us) else below n us)"
  shows "subs_ok (put_root n' b)" and "leaves_at (put_root n' b) h = (if h = f then g (leaves_at b h) else leaves_at b h)"
proof -
  note r = subs_ok_root [OF ok n]
  have "filter_path (tokens f)" using assms(3,4) by (simp add: filter_path_def)
  then have "root_ok n'" using r t up by (auto simp: root_ok_below)
  moreover have "sh_topic n' \<in> sh_topic ` set (hier b)" using find_child_Some [OF n] t by force
  ultimately show "subs_ok (put_root n' b)"
    using ok set_put [of n' "hier b"] by (auto simp: subs_ok_def put_root_def topics_put_child)
  show "leaves_at (put_root n' b) h = (if h = f then g (leaves_at b h) else leaves_at b h)"
    using n up t r(2) by (cases "hd (tokens h) = hd (tokens f)") (auto simp: leaves_at_def find_put_root tokens_inj)
qed

lemma same_clients_leaves: "same_clients b b' \<Longrightarrow> leaves_at b' = leaves_at b" "same_clients b b' \<Longrightarrow> subs_ok b' = subs_ok b"
  by (auto simp: same_clients_def leaves_at_def subs_ok_def fun_eq_iff)

lemma leaves_put_same: "same_clients b b' \<Longrightarrow> leaves_at (put_root n b') = leaves_at (put_root n b)"
  "same_clients b b' \<Longrightarrow> subs_ok (put_root n b') = subs_ok (put_root n b)"
  by (auto simp: same_clients_def leaves_at_def subs_ok_def fun_eq_iff put_root_def)

section \<open>The nodes a publication visits, with their paths\<close>

fun pvisits :: "bool \<Rightarrow> subhier list \<Rightarrow> bytes list \<Rightarrow> (bytes list \<times> bool \<times> subhier) list" where
  "pvisits set_ret [] ts = []"
| "pvisits set_ret (n # ns) ts =
     (if ts \<noteq> [] \<and> (sh_topic n = hd ts \<or> sh_topic n = [PLUS])
      then map (\<lambda>(p, v). (sh_topic n # p, v)) (pvisits (set_ret \<and> sh_topic n \<noteq> [PLUS]) (sh_children n) (tl ts)) @
           (if tl ts = [] then [([sh_topic n], set_ret \<and> sh_topic n \<noteq> [PLUS], n)] else [])
      else if sh_topic n = [HASH] \<and> sh_children n = [] then [([sh_topic n], False, n)] else []) @ pvisits set_ret ns ts"

lemma visits_pvisits: "visits sr ns ts = map snd (pvisits sr ns ts)"
  by (induction sr ns ts rule: pvisits.induct) (auto simp: comp_def case_prod_unfold)

lemma pvisits_nodes: "(p, sr', n) \<in> set (pvisits sr ns ts) \<Longrightarrow> (p, n) \<in> set (nodes ns)"
  by (induction sr ns ts arbitrary: p sr' rule: pvisits.induct) (fastforce split: if_splits)+

lemma nodes_ne: "(p, x) \<in> set (nodes ms) \<Longrightarrow> p \<noteq> []"
  by (induction ms rule: nodes.induct) auto

lemma pvisits_distinct: "tree_ok ns \<Longrightarrow> distinct (map fst (pvisits sr ns ts))"
proof (induction sr ns ts rule: pvisits.induct)
  case (2 sr n ns ts)
  have hd: "hd p \<in> sh_topic ` set ms" if "(p, x) \<in> set (nodes ms)" for p x ms
    using that by (induction ms rule: nodes.induct) auto
  have rest: "(p, x) \<notin> set (pvisits sr ns ts)" if "hd p = sh_topic n" for p x
    using that "2.prems" hd [of p "snd x" ns] pvisits_nodes [of p "fst x" "snd x" sr ns ts] by auto
  have below: "([], x) \<notin> set (pvisits sr' (sh_children n) (tl ts))" for x sr'
    using nodes_ne pvisits_nodes by (metis surj_pair)
  have c: "map fst (map (\<lambda>(p, v). (sh_topic n # p, v)) vs) = map ((#) (sh_topic n)) (map fst vs)" for vs :: "(bytes list \<times> bool \<times> subhier) list"
    by (induction vs) auto
  have d: "distinct (map ((#) (sh_topic n)) ps) = distinct ps" for ps by (simp add: distinct_map)
  show ?case
    using 2 rest below unfolding pvisits.simps map_append distinct_append set_append
    by (auto simp: c d simp flip: map_map)
qed simp

lemma pvisits_matching:
  assumes "tree_ok ns" and "[HASH] \<notin> set ts"
  shows "(\<exists>sr'. (p, sr', n) \<in> set (pvisits sr ns ts)) \<longleftrightarrow> (p, n) \<in> set (nodes ns) \<and> level_match p ts"
  using assms
proof (induction sr ns ts arbitrary: p rule: pvisits.induct)
  case (1 sr ts)
  show ?case by simp
next
  case (2 sr m ns ts)
  have rest: "(\<exists>sr'. (p, sr', n) \<in> set (pvisits sr ns ts)) \<longleftrightarrow> (p, n) \<in> set (nodes ns) \<and> level_match p ts"
    using "2.IH"(2) "2.prems" by simp
  have here: "(\<exists>sr'. (p, sr', n) \<in> set (if ts \<noteq> [] \<and> (sh_topic m = hd ts \<or> sh_topic m = [PLUS])
        then map (\<lambda>(p, v). (sh_topic m # p, v)) (pvisits (sr \<and> sh_topic m \<noteq> [PLUS]) (sh_children m) (tl ts)) @
           (if tl ts = [] then [([sh_topic m], sr \<and> sh_topic m \<noteq> [PLUS], m)] else [])
        else if sh_topic m = [HASH] \<and> sh_children m = [] then [([sh_topic m], False, m)] else [])) \<longleftrightarrow>
      (p = [sh_topic m] \<and> n = m \<or> (\<exists>q. p = sh_topic m # q \<and> (q, n) \<in> set (nodes (sh_children m)))) \<and> level_match p ts"
  proof (cases "ts \<noteq> [] \<and> (sh_topic m = hd ts \<or> sh_topic m = [PLUS])")
    case True
    then obtain t us where ts: "ts = t # us" by (cases ts) auto
    have h: "sh_topic m \<noteq> [HASH]" using True ts "2.prems"(2) by auto
    have c: "(\<exists>sr'. (q, sr', n) \<in> set (pvisits (sr \<and> sh_topic m \<noteq> [PLUS]) (sh_children m) (tl ts))) \<longleftrightarrow>
        (q, n) \<in> set (nodes (sh_children m)) \<and> level_match q (tl ts)" for q
      using "2.IH"(1) [OF True, of q] "2.prems" ts by simp
    have "(\<exists>sr'. (p, sr', n) \<in> (\<lambda>(p, v). (sh_topic m # p, v)) ` set (pvisits (sr \<and> sh_topic m \<noteq> [PLUS]) (sh_children m) (tl ts))) \<longleftrightarrow>
        (\<exists>q. p = sh_topic m # q \<and> (\<exists>sr'. (q, sr', n) \<in> set (pvisits (sr \<and> sh_topic m \<noteq> [PLUS]) (sh_children m) (tl ts))))"
      by force
    then show ?thesis unfolding if_P [OF True] set_append Un_iff set_map c ex_disj_distrib
      using True h ts by auto
  next
    case False
    have nn: "sh_children m = [] \<Longrightarrow> nodes (sh_children m) = []" by simp
    have "sh_topic m = [HASH] \<Longrightarrow> sh_children m = []" using "2.prems"(1) by simp
    then show ?thesis using False nn nodes_ne by (auto split: list.splits)
  qed
  have "(p, n) \<in> set (nodes (m # ns)) \<and> level_match p ts \<longleftrightarrow>
      (p = [sh_topic m] \<and> n = m \<or> (\<exists>q. p = sh_topic m # q \<and> (q, n) \<in> set (nodes (sh_children m)))) \<and> level_match p ts \<or>
      (p, n) \<in> set (nodes ns) \<and> level_match p ts"
    by (auto simp del: level_match.simps)
  then show ?case using here rest unfolding pvisits.simps set_append Un_iff ex_disj_distrib by blast
qed

section \<open>A publication, filter by filter\<close>

text \<open>The deliveries to the subscriptions of several filters, one filter after the other.\<close>

fun publish_to ::
    "bytes \<Rightarrow> bytes \<Rightarrow> nat \<Rightarrow> bool \<Rightarrow> nat \<Rightarrow> subleaf list list \<Rightarrow> ('p, unit) broker_comp" where
  "publish_to src topic qos retain a [] = ok ()"
| "publish_to src topic qos retain a (ls # lss) =
     bindE (ignore (deliver_all ls src topic qos retain a) :: ('p, unit) broker_comp) (\<lambda>_.
     publish_to src topic qos retain a lss)"

lemma bind_assoc: "bindE (bindE m k) f = bindE m (\<lambda>x. bindE (k x) f)"
  by (rule ext) (auto simp: bindE_def split: prod.splits sum.splits)

lemma bind_ok [simp]: "bindE (ok x) k = k x"
  by (rule ext) (simp add: bindE_def ok_def)

lemma bind_unit: "bindE m ok = m"
  by (rule ext) (auto simp: bindE_def ok_def split: prod.splits sum.splits)

lemma ignore_ok [simp]: "ignore (ok ()) = ok ()"
  by (rule ext) (simp add: ignore_def ok_def)

lemma publish_to_nonempty:
  "publish_to src topic qos retain a (filter (\<lambda>ls. ls \<noteq> []) lss) = (publish_to src topic qos retain a lss :: ('p, unit) broker_comp)"
  by (induction lss) auto

lemma visit_publish:
  "publish.visit_all (Some src) topic qos False a vs =
     (publish_to src topic qos False a (map (\<lambda>v. sh_subs (snd v)) vs) :: ('p, unit) broker_comp)"
proof (induction vs)
  case (Cons v vs)
  obtain sr n where v: "v = (sr, n)" by (cases v)
  show ?case
    unfolding v publish.visit_all.simps Cons.IH by (simp add: process_effect_def bind_assoc)
qed simp

text \<open>An action that leaves its node as it is leaves the tree as it is.\<close>

lemma search_same:
  fixes act :: "bool \<Rightarrow> subhier \<Rightarrow> ('s, 'e, subhier) comp"
  assumes same: "\<And>sr n s m t. act sr n s = (Inr m, t) \<Longrightarrow> m = n"
  shows "sub__search act sr ns ts s = (Inr ms, t) \<Longrightarrow> ms = ns"
proof (induction sr ns ts arbitrary: s ms t rule: visits.induct)
  case (2 sr n rest ts)
  obtain t' cs ls r where n: "n = Subhier t' cs ls r" by (cases n)
  obtain m s1 ms' where m: "(if ts \<noteq> [] \<and> (t' = hd ts \<or> t' = [PLUS])
        then bindE (sub__search act (sr \<and> t' \<noteq> [PLUS]) cs (tl ts)) (\<lambda>cs'.
             if tl ts = [] then act (sr \<and> t' \<noteq> [PLUS]) (Subhier t' cs' ls r) else ok (Subhier t' cs' ls r))
        else if t' = [HASH] \<and> cs = [] then act False (Subhier t' cs ls r)
        else ok (Subhier t' cs ls r)) s = (Inr m, s1)" "sub__search act sr rest ts s1 = (Inr ms', t)" "ms = m # ms'"
    using "2.prems" unfolding n sub__search.simps bindE_eq_Inr [of _ "\<lambda>node. bindE (sub__search act sr rest ts) (\<lambda>nodes. ok (node # nodes))"]
    by (auto simp: bindE_eq_Inr ok_eq_Inr)
  have "m = n"
  proof (cases "ts \<noteq> [] \<and> (t' = hd ts \<or> t' = [PLUS])")
    case True
    then obtain cs' s2 where "sub__search act (sr \<and> t' \<noteq> [PLUS]) cs (tl ts) s = (Inr cs', s2)"
        "(if tl ts = [] then act (sr \<and> t' \<noteq> [PLUS]) (Subhier t' cs' ls r) else ok (Subhier t' cs' ls r)) s2 = (Inr m, s1)"
      using m(1) unfolding if_P [OF True] bindE_eq_Inr by blast
    then show ?thesis using "2.IH"(1) [of s cs' s2] True n by (auto simp: ok_eq_Inr dest: same split: if_splits)
  next
    case False
    then show ?thesis using m(1) n unfolding if_not_P [OF False] by (auto simp: ok_eq_Inr dest: same split: if_splits)
  qed
  then show ?case using "2.IH"(2) [OF m(2)] m(3) by simp
qed (auto simp: ok_def)

lemma process_same: "subs__process src topic qos False a sr n b = (Inr m, b') \<Longrightarrow> m = n"
  by (auto simp: subs__process_def bindE_eq_Inr ok_eq_Inr)

text \<open>Delivering changes neither the tree nor the ids of the clients.\<close>

lemma sc_world [intro]:
  "(\<And>b. hier (f b) = hier b) \<Longrightarrow> (\<And>b. contexts (f b) = contexts b) \<Longrightarrow> (\<And>b. stored_kept (heap b) (heap (f b))) \<Longrightarrow>
   frames same_clients (modify f)"
  by (auto simp: frames_def modify_def same_clients_def)

lemma sc_store_at: "frames same_clients (store_at a)"
  unfolding store_at_def by (intro sc.frame_rules)

lemma sc_update_store:
  assumes keeps: "\<And>s. s_payload (g s) = s_payload s" "\<And>s. s_topic (g s) = s_topic s"
    and k: "\<And>s. frames same_clients (k s)"
  shows "frames same_clients (bindE (store_at a) (\<lambda>s. bindE (modify (put_store a (g s))) (\<lambda>_. k s)))"
  unfolding frames_def
proof (intro allI impI)
  fix b b' and r
  assume run: "bindE (store_at a) (\<lambda>s. bindE (modify (put_store a (g s))) (\<lambda>_. k s)) b = (r, b')"
  show "same_clients b b'"
  proof (cases "heap b a")
    case None
    then show ?thesis using run sc.R_refl by (simp add: store_at_def bindE_def asks_def pure_res_def)
  next
    case (Some s)
    then have "k s (put_store a (g s) b) = (r, b')" using run by (simp add: store_at_def bindE_def asks_def pure_res_def modify_def)
    moreover have "same_clients b (put_store a (g s) b)"
      using Some keeps by (auto simp: same_clients_def put_store_def stored_kept_def)
    ultimately show ?thesis using framesD [OF k] sc.R_trans by blast
  qed
qed

lemma sc_update_store':
  "(\<And>s. s_payload (g s) = s_payload s) \<Longrightarrow> (\<And>s. s_topic (g s) = s_topic s) \<Longrightarrow>
   frames same_clients (bindE (store_at a) (\<lambda>s. modify (put_store a (g s))))"
  using sc_update_store [of g "\<lambda>_. ok ()" a, OF _ _ sc.frames_leaf(1)] by (simp add: bind_unit)

lemma sc_ref: "frames same_clients (db__msg_store_ref a)"
  unfolding db__msg_store_ref_def by (rule sc_update_store') simp_all

lemma sc_remove_store: "frames same_clients (db__msg_store_remove a)"
  unfolding db__msg_store_remove_def
  by (intro sc.frame_rules sc_store_at sc_world) (simp_all add: stored_kept_def)

lemma sc_deref: "frames same_clients (db__msg_store_deref a)"
  unfolding db__msg_store_deref_def by (intro sc_update_store sc.frame_rules sc_remove_store) simp_all

lemma sc_patterns: "frames same_clients (check_patterns cid user topic access rs)"
  by (induction rs) (auto intro!: sc.frame_rules sc_malloc)

lemma sc_acl_default: "frames same_clients (mosquitto_acl_check_default c topic access)"
  unfolding mosquitto_acl_check_default_def by (intro sc.frame_rules sc_client_at sc_patterns)

lemma sc_acl: "frames same_clients (mosquitto_acl_check c topic data qos retain access)"
proof -
  have e: "frames same_clients (case r of None \<Rightarrow> ok () | Some MOSQ_ERR_PLUGIN_DEFER \<Rightarrow> fail (Code MOSQ_ERR_ACL_DENIED)
      | Some e \<Rightarrow> fail (Code e))" for r :: "mosq_err option"
    by (cases r) (auto intro!: sc.frame_rules split: mosq_err.split)
  show ?thesis
    unfolding mosquitto_acl_check_def by (intro sc.frame_rules sc_client_at sc_acl_default e)
qed

lemma sc_add_dest: "frames same_clients (add_dest a i)"
  unfolding add_dest_def by (rule sc_update_store') simp_all

lemma sc_strdup: "frames same_clients (strdup t e)"
  unfolding strdup_def by (intro sc.frame_rules sc_malloc)

lemma wake_id [simp]: "k_id (wake_bridge k) = k_id k"
  by (simp add: wake_bridge_def split: option.split)

lemma sc_drop_message: "frames same_clients (modify (drop_message c) :: ('p, unit) broker_comp)"
proof -
  have "same_clients b (drop_message c b)" for b :: "'p broker"
    using sc_upd [of "\<lambda>k. k\<lparr>is_dropping := True\<rparr>" b c] by (simp add: same_clients_def drop_message_def)
  then show ?thesis by (simp add: frames_def modify_def)
qed

lemma sc_insert: "frames same_clients (db__message_insert c mid dir qos retain a)"
  unfolding db__message_insert_def
  by (intro sc.frame_rules sc_client_at sc_store_at sc_drop_message sc_malloc sc_ref sc_client sc_strdup sc_add_dest sc_world)
    (simp_all add: count_in_def append_message_def)

lemma sc_deliver: "frames same_clients (deliver l src topic qos retain a s)"
  unfolding deliver_def draw_client_mid_def
  by (intro sc.frame_rules sc_client_at sc_acl sc_insert sc_client) simp_all

lemma sc_deliver_all: "frames same_clients (deliver_all ls src topic qos retain a)"
  by (induction ls) (auto intro!: sc.frame_rules sc_store_at sc_deliver)

lemma sc_publish_to: "frames same_clients (publish_to src topic qos retain a lss)"
  by (induction lss) (auto intro!: sc.frame_rules sc_deliver_all)

text \<open>
  Publishing runs the deliveries to the filters that match, each once, and changes nothing else but the
  reference it holds meanwhile.
\<close>

lemma levels_subset: "l \<in> set (levels s) \<Longrightarrow> set l \<subseteq> set s"
proof (induction s arbitrary: l rule: levels.induct)
  case (2 c cs)
  then show ?case by (cases "levels cs") (fastforce split: if_splits)+
qed simp

lemma nodes_visited:
  assumes ok: "subs_ok b" and n: "find_child (hd (tokens topic)) (hier b) = Some n"
    and t: "topic \<noteq> []" "plain topic"
  obtains fs where "distinct fs" and "set fs = {f. leaves_at b f \<noteq> [] \<and> topic_match f topic}"
    and "filter (\<lambda>ls. ls \<noteq> []) (map (\<lambda>v. sh_subs (snd v)) (visits True (sh_children n) (tokens topic))) = map (leaves_at b) fs"
proof
  note r = subs_ok_root [OF ok n]
  have tree: "tree_ok (sh_children n)" and empty: "sh_subs n = []" using r(1) by (simp_all add: root_ok_def)
  have hash: "[HASH] \<notin> set (tokens topic)"
  proof -
    have "[HASH] \<notin> set (levels topic)" using t(2) levels_subset by (fastforce simp: plain_def)
    then show ?thesis by (auto simp: tokens_def)
  qed
  define vs where "vs = filter (\<lambda>(p, sr, m). sh_subs m \<noteq> []) (pvisits True (sh_children n) (tokens topic))"
  have mem: "(\<exists>sr. (p, sr, m) \<in> set vs) \<longleftrightarrow> (p, m) \<in> set (nodes (sh_children n)) \<and> level_match p (tokens topic) \<and> sh_subs m \<noteq> []" for p m
    using pvisits_matching [OF tree hash, of p m True] by (auto simp: vs_def)
  have path: "filter_path p \<and> hd p = sh_topic n \<and> leaves_at b (name_of p) = sh_subs m" if "(p, sr, m) \<in> set vs" for p sr m
  proof -
    have m: "(p, m) \<in> set (nodes (sh_children n))" "sh_subs m \<noteq> []" using mem that by blast+
    then have fp: "filter_path p" "hd p = sh_topic n" using r(1) by (auto simp: root_ok_def)
    then have "leaves_at b (name_of p) = below n p" using n r(2) by (simp add: leaves_at_def filter_path_def)
    then show ?thesis using fp nodes_below [OF tree m(1)] by simp
  qed
  have d: "distinct (map fst vs)" unfolding vs_def by (rule distinct_map_filter) (rule pvisits_distinct [OF tree])
  have inj: "name_of p = name_of q \<Longrightarrow> p = q" if "filter_path p" "filter_path q" for p q
    using that by (metis filter_path_def)
  let ?fs = "map (name_of \<circ> fst) vs"
  have "inj_on name_of (set (map fst vs))" using path inj by (fastforce simp: inj_on_def)
  then have "distinct (map name_of (map fst vs))" using d by (simp only: distinct_map)
  then show "distinct ?fs" by simp
  show "set ?fs = {f. leaves_at b f \<noteq> [] \<and> topic_match f topic}" (is "?S = ?M")
  proof (intro set_eqI iffI)
    fix f assume "f \<in> ?S"
    then obtain p sr m where v: "(p, sr, m) \<in> set vs" "f = name_of p" by auto
    have fp: "tokens f = p" "f \<noteq> []" "hd p = sh_topic n" "leaves_at b f = sh_subs m"
      using path [OF v(1)] v(2) by (auto simp: filter_path_def)
    have "level_match p (tokens topic)" "sh_subs m \<noteq> []" using v(1) mem by blast+
    then show "f \<in> ?M" using level_match_tokens [of f topic] fp r(2) t(1) by simp
  next
    fix f assume f: "f \<in> ?M"
    have v: "f \<noteq> []" "filter_ok (levels f)" using leaves_valid [OF ok] f by auto
    have h: "hd (tokens f) = hd (tokens topic)" using match_same_root [of f topic] f v t(1) by simp
    have ls: "leaves_at b f = below n (tokens f)" using n h by (simp add: leaves_at_def)
    then obtain m where m: "(tokens f, m) \<in> set (nodes (sh_children n))" "sh_subs m = leaves_at b f"
      using below_nodes [OF tree, of "tokens f" "leaves_at b f"] f by auto
    have "level_match (tokens f) (tokens topic)" using level_match_tokens [OF h v(1) t(1)] f by simp
    then obtain sr where "(tokens f, sr, m) \<in> set vs" using m f mem by fastforce
    then show "f \<in> ?S" by force
  qed
  have "map (leaves_at b) ?fs = map (\<lambda>v. sh_subs (snd (snd v))) vs"
    using path by (auto simp: comp_def)
  also have "\<dots> = filter (\<lambda>ls. ls \<noteq> []) (map (\<lambda>v. sh_subs (snd v)) (visits True (sh_children n) (tokens topic)))"
    unfolding vs_def visits_pvisits by (induction "pvisits True (sh_children n) (tokens topic)") (auto simp: filter_map comp_def case_prod_unfold)
  finally show "filter (\<lambda>ls. ls \<noteq> []) (map (\<lambda>v. sh_subs (snd v)) (visits True (sh_children n) (tokens topic))) = map (leaves_at b) ?fs"
    by simp
qed

lemma put_same: "find_child (sh_topic n) ns = Some n \<Longrightarrow> put_child n ns = ns"
  by (induction ns) (auto split: if_splits)

lemma set_same [simp]: "set_children (sh_children n) n = n"
  by (cases n) (simp add: set_children_def)

definition has_root :: "bytes \<Rightarrow> bool" where
  "has_root s \<longleftrightarrow> (s \<noteq> [] \<and> hd s = DOLLAR \<longrightarrow> hd (levels s) = cstr ''$SYS'')"

lemma root_found:
  assumes "subs_ok b" and "has_root s"
  obtains n where "find_child (hd (tokens s)) (hier b) = Some n" "sh_topic n = hd (tokens s)"
proof -
  have "hd (tokens s) \<in> set [[], cstr ''$SYS'']" using assms(2) by (auto simp: has_root_def tokens_def)
  also have "\<dots> = sh_topic ` set (hier b)" using assms(1) unfolding subs_ok_def by (metis set_map)
  finally obtain n where "find_child (hd (tokens s)) (hier b) = Some n"
    by (cases "find_child (hd (tokens s)) (hier b)") (auto simp: find_child_None)
  then show ?thesis using that find_child_Some by blast
qed

lemma root_missing:
  assumes "subs_ok b" and "\<not> has_root s"
  shows "find_child (hd (tokens s)) (hier b) = None"
proof -
  have "hd (tokens s) \<notin> set [[], cstr ''$SYS'']" using assms(2) hd_levels_dollar by (auto simp: has_root_def tokens_def)
  also have "set [[], cstr ''$SYS''] = sh_topic ` set (hier b)" using assms(1) unfolding subs_ok_def by (metis set_map)
  finally show ?thesis by (simp add: find_child_None)
qed

lemma search_publishes:
  fixes b :: "'p broker"
  assumes n: "find_child (sh_topic n) (hier b) = Some n"
  shows "bindE (sub__search (subs__process (Some src) topic qos False a) True (sh_children n) ts)
           (\<lambda>cs. bindE (modify (put_root (set_children cs n))) (\<lambda>_. k)) b =
         bindE (publish_to src topic qos False a (map (\<lambda>v. sh_subs (snd v)) (visits True (sh_children n) ts))) (\<lambda>_. k) b"
proof -
  let ?act = "subs__process (Some src) topic qos False a :: bool \<Rightarrow> subhier \<Rightarrow> ('p, subhier) broker_comp"
  let ?vs = "visits True (sh_children n) ts"
  let ?lss = "map (\<lambda>v. sh_subs (snd v)) ?vs"
  have g: "case publish.visit_all (Some src) topic qos False a ?vs b of
      (Inl e, s') \<Rightarrow> sub__search ?act True (sh_children n) ts b = (Inl e, s')
    | (Inr _, s') \<Rightarrow> (\<exists>ms. sub__search ?act True (sh_children n) ts b = (Inr ms, s') \<and> map strip ms = map strip (sh_children n))"
    by (rule spec [OF publish.search_goes [unfolded publish.goes_as_def]])
  obtain r b2 where r: "publish_to src topic qos False a ?lss b = (r, b2)" by fastforce
  have h: "hier b2 = hier b" using framesD [OF sc_publish_to r] by (simp add: same_clients_def)
  show ?thesis
  proof (cases r)
    case (Inl e)
    then have "sub__search ?act True (sh_children n) ts b = (Inl e, b2)" using g r by (simp add: visit_publish)
    then show ?thesis using r Inl by (simp add: bindE_Inl)
  next
    case (Inr u)
    then obtain cs where cs: "sub__search ?act True (sh_children n) ts b = (Inr cs, b2)" using g r by (auto simp: visit_publish)
    have "cs = sh_children n" by (rule search_same [OF process_same cs])
    moreover have "put_root n b2 = b2" using n h by (simp add: put_root_def put_same)
    ultimately show ?thesis using r Inr cs by (simp add: bindE_def modify_def)
  qed
qed

lemma messages_queue_run:
  fixes b :: "'p broker"
  assumes "calm b" and ok: "subs_ok b" and "has_root topic" and "topic \<noteq> []" and "plain topic"
  shows "\<exists>fs. distinct fs \<and> set fs = {f. leaves_at b f \<noteq> [] \<and> topic_match f topic} \<and>
    sub__messages_queue (Some src) topic qos False a b =
      bindE (db__msg_store_ref a) (\<lambda>_. bindE (publish_to src topic qos False a (map (leaves_at b) fs)) (\<lambda>_.
      db__msg_store_deref a)) b"
proof -
  obtain n where n: "find_child (hd (tokens topic)) (hier b) = Some n" "sh_topic n = hd (tokens topic)"
    using root_found [OF ok assms(3)] .
  obtain fs where fs: "distinct fs" "set fs = {f. leaves_at b f \<noteq> [] \<and> topic_match f topic}"
    "filter (\<lambda>ls. ls \<noteq> []) (map (\<lambda>v. sh_subs (snd v)) (visits True (sh_children n) (tokens topic))) = map (leaves_at b) fs"
    using nodes_visited [OF ok n(1) assms(4,5)] .
  have p: "publish_to src topic qos False a (map (leaves_at b) fs) =
      (publish_to src topic qos False a (map (\<lambda>v. sh_subs (snd v)) (visits True (sh_children n) (tokens topic))) :: ('p, unit) broker_comp)"
    unfolding fs(3) [symmetric] by (rule publish_to_nonempty)
  obtain r b1 where r: "db__msg_store_ref a b = (r, b1)" by fastforce
  have h: "hier b1 = hier b" using framesD [OF sc_ref r] by (simp add: same_clients_def)
  have root: "root_of (tokens topic) b1 = (Inr n, b1)" using n h by (simp add: root_of_def bindE_def asks_def pure_res_def)
  have s: "find_child (sh_topic n) (hier b1) = Some n" using n h by simp
  have tok: "bindE (on_error (as_code MOSQ_ERR_NOMEM) (sub__topic_tokenise topic)) k b = k (tokens topic) b"
    for k :: "bytes list \<Rightarrow> ('p, unit) broker_comp"
    by (simp add: bindE_def on_error_def calm_tokenise [OF assms(1)])
  have root': "bindE (root_of (tokens topic)) k b1 = k n b1" for k :: "subhier \<Rightarrow> ('p, unit) broker_comp"
    using root by (simp add: bindE_def)
  have "sub__messages_queue (Some src) topic qos False a b =
      bindE (db__msg_store_ref a) (\<lambda>_. bindE (publish_to src topic qos False a (map (leaves_at b) fs)) (\<lambda>_. db__msg_store_deref a)) b"
  proof (cases r)
    case (Inl e)
    then show ?thesis using r by (simp add: sub__messages_queue_def tok bindE_Inl)
  next
    case (Inr u)
    show ?thesis
      using r Inr search_publishes [OF s, of src topic qos a "tokens topic" "db__msg_store_deref a"]
      by (simp add: sub__messages_queue_def tok bindE_Inr [of _ _ u b1] root' p)
  qed
  then show ?thesis using fs by blast
qed

section \<open>Subscribing and unsubscribing\<close>

lemma ids_put_root [simp]: "client_ids (put_root n b) = client_ids b"
  by (simp add: client_ids_def put_root_def fun_eq_iff)

lemma add_run:
  assumes ok: "subs_ok b" and f: "f \<noteq> []" "filter_ok (levels f)" and c: "c < length (contexts b)"
    and run: "sub__add c f qos b = (Inr (), b')"
  shows "subs_ok b' \<and> client_ids b' = client_ids b \<and>
    leaves_at b' g = (if g = f then subscribe_leaf (client_ids b) c qos (leaves_at b g) else leaves_at b g)"
proof -
  obtain ts b1 n rc n' b2 where r: "sub__topic_tokenise f b = (Inr ts, b1)" "root_of ts b1 = (Inr n, b1)"
      "sub__add_recurse (Some c) qos [hd ts] n ts b1 = (Inr (rc, n'), b2)" "rc \<noteq> Add_nomem" "b' = put_root n' b2"
    using run by (fastforce simp: sub__add_def root_of_def succeeds fail_def split: if_splits)
  have ts: "ts = tokens f" by (rule tokenise_tokens [OF r(1)])
  have b1: "same_clients b b1" by (rule framesD [OF sc_tokenise r(1)])
  have ok1: "subs_ok b1" using ok same_clients_leaves(2) [OF b1] by simp
  have n: "find_child (hd (tokens f)) (hier b1) = Some n" using r(2) ts by (auto simp: root_of_def succeeds split: option.splits)
  have root: "root_ok n" by (rule subs_ok_root(1) [OF ok1 n])
  have ft: "filter_ok (tokens f)" using f by (auto simp: tokens_def plain_def)
  have below: "sh_topic n' = sh_topic n" "tree_ok (sh_children n')" "same_clients b1 b2"
    "\<And>us. below n' us = (if us = ts then subscribe_leaf (client_ids b1) c qos (below n us) else below n us)"
    using add_below [OF r(3,4) _ _] root ft ts c sc_length [OF b1] by (auto simp: root_ok_def)
  note put = subs_ok_put [OF ok1 n f below(1,2) below(4) [unfolded ts]]
  have ids: "client_ids b1 = client_ids b" "client_ids b' = client_ids b"
    using sc_ids [OF b1] sc_ids [OF below(3)] r(5) by simp_all
  show ?thesis
    using put leaves_put_same [OF below(3)] same_clients_leaves(1) [OF b1] ids r(5) by simp
qed

lemma remove_run:
  assumes ok: "subs_ok b" and f: "f \<noteq> []" "filter_ok (levels f)"
    and run: "sub__remove c f b = (Inr (), b')"
  shows "subs_ok b' \<and> client_ids b' = client_ids b \<and>
    leaves_at b' g = (if g = f then unsubscribe_leaf c (leaves_at b g) else leaves_at b g)"
proof -
  obtain ts b1 n where r: "sub__topic_tokenise f b = (Inr ts, b1)" "root_of ts b1 = (Inr n, b1)"
      "b' = (case sub__remove_recurse c [hd ts] n ts b1 of (n', b2) \<Rightarrow> put_root n' b2)"
    using run by (fastforce simp: sub__remove_def root_of_def succeeds)
  obtain n' b2 where rem: "sub__remove_recurse c [hd ts] n ts b1 = (n', b2)" by fastforce
  have ts: "ts = tokens f" by (rule tokenise_tokens [OF r(1)])
  have b1: "same_clients b b1" by (rule framesD [OF sc_tokenise r(1)])
  have ok1: "subs_ok b1" using ok same_clients_leaves(2) [OF b1] by simp
  have n: "find_child (hd (tokens f)) (hier b1) = Some n" using r(2) ts by (auto simp: root_of_def succeeds split: option.splits)
  have root: "root_ok n" by (rule subs_ok_root(1) [OF ok1 n])
  have below: "sh_topic n' = sh_topic n" "tree_ok (sh_children n')"
    "\<And>us. below n' us = (if us = ts then unsubscribe_leaf c (below n us) else below n us)"
    using remove_below [OF rem] root by (auto simp: root_ok_def)
  have b2: "same_clients b1 b2" by (rule remove_clients [OF rem])
  note put = subs_ok_put [OF ok1 n f below(1,2) below(3) [unfolded ts]]
  have ids: "client_ids b' = client_ids b"
    using sc_ids [OF b1] sc_ids [OF b2] r(3) rem by simp
  show ?thesis
    using put leaves_put_same [OF b2] same_clients_leaves(1) [OF b1] ids r(3) rem by simp
qed

end
