(* ===== verification/RetainFacts.thy ===== *)
theory RetainFacts
  imports SubsMap
begin

text \<open>
  Retained messages: the topics they are kept under, which of them the search for a new subscription
  finds, and what a retained publication changes.
\<close>

section \<open>The retained messages of a tree\<close>

definition kept :: "subhier list \<Rightarrow> bytes list \<Rightarrow> nat option" where
  "kept ns p = (case node_at ns p of None \<Rightarrow> None | Some n \<Rightarrow> sh_retained n)"

definition topic_path :: "bytes list \<Rightarrow> bool" where
  "topic_path p \<longleftrightarrow> p \<noteq> [] \<and> name_of p \<noteq> [] \<and> plain (name_of p) \<and> tokens (name_of p) = p"

text \<open>Only the nodes at the path of a topic name carry a retained message.\<close>

definition retained_ok :: "subhier \<Rightarrow> bool" where
  "retained_ok n \<longleftrightarrow> (\<forall>(p, m) \<in> set (nodes (sh_children n)). sh_retained m = None \<or> topic_path p \<and> hd p = sh_topic n)"

definition retain_ok :: "'p broker \<Rightarrow> bool" where
  "retain_ok b \<longleftrightarrow> (\<forall>n \<in> set (hier b). retained_ok n)"

definition retained_at :: "'p broker \<Rightarrow> bytes \<Rightarrow> nat option" where
  "retained_at b t = (case find_child (hd (tokens t)) (hier b) of None \<Rightarrow> None | Some n \<Rightarrow> kept (sh_children n) (tokens t))"

section \<open>What the search for a new subscription finds\<close>

fun last_child :: "subhier list \<Rightarrow> bytes list \<Rightarrow> bool" where
  "last_child ns [] = False"
| "last_child ns [t] = (ns \<noteq> [] \<and> sh_topic (last ns) = t)"
| "last_child ns (t # ts) = (case find_child t ns of None \<Rightarrow> False | Some n \<Rightarrow> last_child (sh_children n) ts)"

text \<open>
  A filter \<open>l/#\<close> also matches the topic \<open>l\<close>, but the search sees the message kept there only when the
  node has children, or is the last of its siblings below the first level.
\<close>

definition seen :: "bool \<Rightarrow> subhier list \<Rightarrow> bytes list \<Rightarrow> bytes list \<Rightarrow> subhier \<Rightarrow> bool" where
  "seen deep ns ts p n \<longleftrightarrow> level_match ts p \<and>
     (last ts = [HASH] \<and> length ts = Suc (length p) \<longrightarrow>
        sh_children n \<noteq> [] \<or> last_child ns p \<and> (deep \<or> length p \<noteq> 1))"

definition no_wild :: "subhier list \<Rightarrow> bool" where
  "no_wild ns \<longleftrightarrow> (\<forall>(p, n) \<in> set (nodes ns). sh_retained n \<noteq> None \<longrightarrow> [PLUS] \<notin> set p \<and> [HASH] \<notin> set p)"

lemma no_wild_Cons:
  assumes "no_wild (n # ns)"
  shows "no_wild ns" "no_wild (sh_children n)"
    "sh_retained n \<noteq> None \<Longrightarrow> sh_topic n \<noteq> [PLUS] \<and> sh_topic n \<noteq> [HASH]"
    "(p, m) \<in> set (nodes (sh_children n)) \<Longrightarrow> sh_retained m \<noteq> None \<Longrightarrow> sh_topic n \<noteq> [PLUS]"
proof -
  have w: "[PLUS] \<notin> set p \<and> [HASH] \<notin> set p" if "(p, m) \<in> set (nodes (n # ns))" "sh_retained m \<noteq> None" for p m
    using bspec [OF assms [unfolded no_wild_def] that(1)] that(2) by simp
  show "no_wild ns" using w by (auto simp: no_wild_def)
  have c: "(sh_topic n # p, m) \<in> set (nodes (n # ns))" if "(p, m) \<in> set (nodes (sh_children n))" for p m
    using that by force
  show "no_wild (sh_children n)" using w [OF c] by (auto simp: no_wild_def)
  show "sh_retained n \<noteq> None \<Longrightarrow> sh_topic n \<noteq> [PLUS] \<and> sh_topic n \<noteq> [HASH]" using w [of "[sh_topic n]" n] by auto
  show "(p, m) \<in> set (nodes (sh_children n)) \<Longrightarrow> sh_retained m \<noteq> None \<Longrightarrow> sh_topic n \<noteq> [PLUS]"
    using w [of "sh_topic n # p" m] c [of p m] by auto
qed

lemma search_flag: "snd (retain__search deep ns ts) \<longleftrightarrow> ts = [[HASH]] \<and> ns \<noteq> []"
proof (induction ns)
  case (Cons n ns)
  have "snd (retain__search deep (n # ns) ts) \<longleftrightarrow> ts = [[HASH]] \<or> snd (retain__search deep ns ts)"
    by (cases n) (simp add: Let_def split: prod.split)
  then show ?case using Cons by auto
qed simp

lemma nodes_head: "(p, m) \<in> set (nodes ns) \<Longrightarrow> hd p \<in> sh_topic ` set ns"
  by (induction ns rule: nodes.induct) auto

text \<open>The search over one child and the rest.\<close>

definition here :: "bool \<Rightarrow> bool \<Rightarrow> subhier \<Rightarrow> bytes list \<Rightarrow> nat list" where
  "here deep final n ts =
     (let own = (case sh_retained n of None \<Rightarrow> [] | Some a \<Rightarrow> [a])
      in if ts = [[HASH]] then own @ fst (retain__search True (sh_children n) ts)
         else if sh_topic n \<noteq> [PLUS] \<and> (sh_topic n = hd ts \<or> hd ts = [PLUS])
         then if tl ts \<noteq> []
              then fst (retain__search True (sh_children n) (tl ts)) @
                   (if tl ts = [[HASH]] \<and> sh_children n \<noteq> [] \<or> final \<and> hd (tl ts) = [HASH] \<and> deep then own else [])
              else own
         else [])"

lemma search_Cons:
  "fst (retain__search deep (n # ns) ts) = here deep (ns = []) n ts @ fst (retain__search deep ns ts)"
  by (cases n) (simp add: here_def Let_def case_prod_unfold search_flag)

lemma last_child_Cons:
  "tree_ok (n # ns) \<Longrightarrow> last_child (n # ns) (sh_topic n # p) = (if p = [] then ns = [] else last_child (sh_children n) p)"
proof (cases p)
  case Nil
  assume "tree_ok (n # ns)"
  then have "sh_topic (last ns) \<noteq> sh_topic n" if "ns \<noteq> []" 
  proof -
    have "sh_topic (last ns) \<in> sh_topic ` set ns" using that by simp
    then show ?thesis using \<open>tree_ok (n # ns)\<close> by auto
  qed
  then show ?thesis using Nil by auto
qed auto

lemma last_child_other:
  "hd p \<in> sh_topic ` set ns \<Longrightarrow> hd p \<noteq> sh_topic n \<Longrightarrow> p \<noteq> [] \<Longrightarrow> last_child (n # ns) p = last_child ns p"
  by (cases p rule: remdups_adj.cases) auto

lemma search_finds:
  assumes "tree_ok ns" and "no_wild ns" and "filter_ok ts" and "ts \<noteq> []"
  shows "a \<in> set (fst (retain__search deep ns ts)) \<longleftrightarrow>
    (\<exists>(p, n) \<in> set (nodes ns). sh_retained n = Some a \<and> seen deep ns ts p n)"
  using assms
proof (induction ns arbitrary: deep ts rule: nodes.induct)
  case 1
  show ?case by simp
next
  case (2 n ns)
  have rest: "a \<in> set (fst (retain__search deep ns ts)) \<longleftrightarrow>
      (\<exists>(p, m) \<in> set (nodes ns). sh_retained m = Some a \<and> seen deep (n # ns) ts p m)"
  proof -
    have "last_child (n # ns) p = last_child ns p" if "(p, m) \<in> set (nodes ns)" for p m
    proof (rule last_child_other)
      show h: "hd p \<in> sh_topic ` set ns" by (rule nodes_head [OF that])
      show "hd p \<noteq> sh_topic n" using h "2.prems"(1) by auto
      show "p \<noteq> []" by (rule nodes_ne [OF that])
    qed
    then have "seen deep (n # ns) ts p m = seen deep ns ts p m" if "(p, m) \<in> set (nodes ns)" for p m
      using that by (simp add: seen_def)
    then show ?thesis using "2.IH"(2) [of ts deep] "2.prems" no_wild_Cons(1) by fastforce
  qed
  have below: "a \<in> set (fst (retain__search True (sh_children n) us)) \<longleftrightarrow>
      (\<exists>(p, m) \<in> set (nodes (sh_children n)). sh_retained m = Some a \<and> seen True (sh_children n) us p m)"
    if "filter_ok us" "us \<noteq> []" for us
    using "2.IH"(1) [of us True] that "2.prems" no_wild_Cons(2) by simp
  have down: "seen True (sh_children n) us p m \<longleftrightarrow> seen deep (n # ns) (t # us) (sh_topic n # p) m"
    if "p \<noteq> []" "us \<noteq> []" "t = [PLUS] \<or> t = sh_topic n" "t \<noteq> [HASH]" for us p m t
    using that last_child_Cons [OF "2.prems"(1), of p] by (auto simp: seen_def)
  have "a \<in> set (here deep (ns = []) n ts) \<longleftrightarrow>
      (\<exists>(p, m) \<in> set (([sh_topic n], n) # map (\<lambda>(p, m). (sh_topic n # p, m)) (nodes (sh_children n))).
         sh_retained m = Some a \<and> seen deep (n # ns) ts p m)" (is "_ \<longleftrightarrow> ?R")
  proof -
  have R: "?R \<longleftrightarrow> sh_retained n = Some a \<and> seen deep (n # ns) ts [sh_topic n] n \<or>
      (\<exists>(p, m) \<in> set (nodes (sh_children n)). sh_retained m = Some a \<and> seen deep (n # ns) ts (sh_topic n # p) m)"
    by auto
  show ?thesis
  proof (cases "ts = [[HASH]]")
    case True
    have s: "seen d ns' ts p m" if "p \<noteq> []" for d ns' p m using that True by (simp add: seen_def)
    have "(\<exists>(p, m) \<in> set (nodes (sh_children n)). sh_retained m = Some a \<and> seen True (sh_children n) ts p m) \<longleftrightarrow>
        (\<exists>(p, m) \<in> set (nodes (sh_children n)). sh_retained m = Some a \<and> seen deep (n # ns) ts (sh_topic n # p) m)"
      by (rule bex_cong [OF refl]) (use s nodes_ne in auto)
    moreover have "a \<in> set (here deep (ns = []) n ts) \<longleftrightarrow>
        sh_retained n = Some a \<or> a \<in> set (fst (retain__search True (sh_children n) ts))"
      unfolding here_def Let_def if_P [OF True] by (cases "sh_retained n") auto
    ultimately show ?thesis unfolding R using below [of ts] "2.prems"(3,4) s [of "[sh_topic n]"] by simp
  next
    case False
    then obtain t us where ts: "ts = t # us" using "2.prems"(4) by (cases ts) auto
    have f: "filter_ok us" "t \<noteq> [HASH]" using "2.prems"(3) ts False by (auto simp: plain_def)
    have fh: "us \<noteq> [] \<Longrightarrow> hd us = [HASH] \<longleftrightarrow> us = [[HASH]]"
      using f(1) by (cases us) (auto simp: plain_def)
    show ?thesis
    proof (cases "sh_topic n \<noteq> [PLUS] \<and> (sh_topic n = t \<or> t = [PLUS])")
      case False
      have nm: "seen deep (n # ns) ts (sh_topic n # p) m \<Longrightarrow> sh_topic n = [PLUS]" for p m
        using False ts f(2) by (auto simp: seen_def)
      have "\<not> (sh_retained n = Some a \<and> seen deep (n # ns) ts [sh_topic n] n)"
        using no_wild_Cons(3) [OF "2.prems"(2)] nm by auto
      moreover have "\<not> (sh_retained m = Some a \<and> seen deep (n # ns) ts (sh_topic n # p) m)"
        if "(p, m) \<in> set (nodes (sh_children n))" for p m
        using no_wild_Cons(4) [OF "2.prems"(2) that] nm by auto
      ultimately have "\<not> ?R" unfolding R by auto
      moreover have "here deep (ns = []) n ts = []"
        unfolding here_def Let_def if_not_P [OF \<open>ts \<noteq> [[HASH]]\<close>] by (simp only: ts list.sel if_not_P [OF False])
      ultimately show ?thesis by simp
    next
      case True
      note head = True
      show ?thesis
      proof (cases "us = []")
        case True
        have "seen deep (n # ns) ts [sh_topic n] n" using ts True f(2) head by (auto simp: seen_def)
        moreover have "\<not> seen deep (n # ns) ts (sh_topic n # p) m" if "(p, m) \<in> set (nodes (sh_children n))" for p m
          using ts True f(2) nodes_ne [OF that] by (auto simp: seen_def)
        ultimately have "?R \<longleftrightarrow> sh_retained n = Some a" unfolding R by auto
        moreover have "here deep (ns = []) n ts = (case sh_retained n of None \<Rightarrow> [] | Some a \<Rightarrow> [a])"
          unfolding here_def Let_def if_not_P [OF \<open>ts \<noteq> [[HASH]]\<close>] by (simp add: ts True head)
        ultimately show ?thesis by (auto split: option.split)
      next
        case False
        have own: "seen deep (n # ns) ts [sh_topic n] n \<longleftrightarrow> us = [[HASH]] \<and> (sh_children n \<noteq> [] \<or> ns = [] \<and> deep)"
        proof -
          have "level_match us [] \<longleftrightarrow> us = [[HASH]]" using False by (cases us) auto
          then show ?thesis using ts f(2) head last_child_Cons [OF "2.prems"(1), of "[]"]
            by (auto simp: seen_def)
        qed
        have below': "a \<in> set (fst (retain__search True (sh_children n) us)) \<longleftrightarrow>
          (\<exists>(p, m) \<in> set (nodes (sh_children n)). sh_retained m = Some a \<and> seen deep (n # ns) ts (sh_topic n # p) m)"
          unfolding below [OF f(1) False] by (rule bex_cong [OF refl]) (use down [of _ us t] False head f(2) ts nodes_ne in auto)
        have opt: "x \<in> set (if c then case v of None \<Rightarrow> [] | Some a \<Rightarrow> [a] else []) \<longleftrightarrow> c \<and> v = Some x" for x :: nat and c v
          by (cases c; cases v) auto
        have h: "here deep (ns = []) n ts = fst (retain__search True (sh_children n) us) @
            (if us = [[HASH]] \<and> (sh_children n \<noteq> [] \<or> ns = [] \<and> deep) then case sh_retained n of None \<Rightarrow> [] | Some a \<Rightarrow> [a] else [])"
          unfolding here_def Let_def if_not_P [OF \<open>ts \<noteq> [[HASH]]\<close>] using head fh [OF False] by (auto simp: ts False)
        have "a \<in> set (here deep (ns = []) n ts) \<longleftrightarrow> a \<in> set (fst (retain__search True (sh_children n) us)) \<or>
            (us = [[HASH]] \<and> (sh_children n \<noteq> [] \<or> ns = [] \<and> deep)) \<and> sh_retained n = Some a"
          unfolding h by (simp only: set_append Un_iff opt)
        then show ?thesis unfolding R below' own by blast
      qed
    qed
  qed
  qed
  then show ?case using rest unfolding search_Cons by auto
qed

section \<open>The search over the whole tree\<close>

text \<open>The retained messages a subscription to \<open>f\<close> should get but does not.\<close>

definition missed :: "'p broker \<Rightarrow> bytes \<Rightarrow> bytes \<Rightarrow> bool" where
  "missed b f t \<longleftrightarrow> last (levels f) = [HASH] \<and> length (levels f) = Suc (length (levels t)) \<and>
     (case find_child (hd (tokens t)) (hier b) of None \<Rightarrow> False | Some r \<Rightarrow>
        (case node_at (sh_children r) (tokens t) of None \<Rightarrow> False | Some n \<Rightarrow>
           sh_children n = [] \<and> \<not> (last_child (sh_children r) (tokens t) \<and> length (tokens t) \<noteq> 1)))"

lemma topic_path_plain: "topic_path p \<Longrightarrow> [PLUS] \<notin> set p \<and> [HASH] \<notin> set p"
proof -
  assume p: "topic_path p"
  have "l \<in> set p \<Longrightarrow> l = [] \<or> l \<in> set (levels (name_of p))" for l
    using p unfolding topic_path_def tokens_def by (metis set_ConsD)
  moreover have "[PLUS] \<notin> set (levels (name_of p))" "[HASH] \<notin> set (levels (name_of p))"
    using p levels_subset unfolding topic_path_def plain_def by fastforce+
  ultimately show ?thesis by blast
qed

lemma tokens_last [simp]: "last (tokens s) = last (levels s)"
  by (simp add: tokens_def)

lemma tokens_lengths:
  "hd (tokens f) = hd (tokens t) \<Longrightarrow> length (tokens f) = Suc (length (tokens t)) \<longleftrightarrow> length (levels f) = Suc (length (levels t))"
  using hd_tokens [of f] hd_tokens [of t] by (auto simp: tokens_def)

lemma filter_ok_tokens: "filter_ok (levels f) \<Longrightarrow> filter_ok (tokens f)"
  by (simp add: tokens_def plain_def)

lemma retained_found:
  assumes ok: "subs_ok b" "retain_ok b" and f: "f \<noteq> []" "filter_ok (levels f)"
    and n: "find_child (hd (tokens f)) (hier b) = Some n"
  shows "set (fst (retain__search False (sh_children n) (tokens f))) =
    {a. \<exists>t. t \<noteq> [] \<and> retained_at b t = Some a \<and> topic_match f t \<and> \<not> missed b f t}" (is "?L = ?M")
proof (intro set_eqI)
  fix a
  note r = subs_ok_root [OF ok(1) n]
  have tree: "tree_ok (sh_children n)" using r(1) by (simp add: root_ok_def)
  have ret: "retained_ok n" using ok(2) find_child_Some [OF n] by (simp add: retain_ok_def)
  then have wild: "no_wild (sh_children n)"
    using topic_path_plain unfolding retained_ok_def no_wild_def by fastforce
  have at: "seen False (sh_children n) (tokens f) (tokens t) m \<longleftrightarrow> topic_match f t \<and> \<not> missed b f t"
    if t: "t \<noteq> []" "hd (tokens t) = sh_topic n" "node_at (sh_children n) (tokens t) = Some m" for t m
  proof -
    have h: "hd (tokens f) = hd (tokens t)" using t(2) r(2) by simp
    show ?thesis
      using level_match_tokens [OF h f(1) t(1)] tokens_lengths [OF h] n t(2,3) r(2)
      by (auto simp: seen_def missed_def)
  qed
  have "a \<in> ?L \<longleftrightarrow> (\<exists>(p, m) \<in> set (nodes (sh_children n)). sh_retained m = Some a \<and> seen False (sh_children n) (tokens f) p m)"
    by (rule search_finds [OF tree wild filter_ok_tokens [OF f(2)] tokens_ne])
  also have "\<dots> \<longleftrightarrow> a \<in> ?M"
  proof
    assume "\<exists>(p, m) \<in> set (nodes (sh_children n)). sh_retained m = Some a \<and> seen False (sh_children n) (tokens f) p m"
    then obtain p m where m: "(p, m) \<in> set (nodes (sh_children n))" "sh_retained m = Some a" "seen False (sh_children n) (tokens f) p m"
      by auto
    have tp: "topic_path p" "hd p = sh_topic n" using bspec [OF ret [unfolded retained_ok_def] m(1)] m(2) by auto
    have np: "node_at (sh_children n) p = Some m" using m(1) nodes_node_at [OF tree] by simp
    let ?t = "name_of p"
    have t: "?t \<noteq> []" "tokens ?t = p" using tp(1) by (simp_all add: topic_path_def)
    have "retained_at b ?t = Some a" using n r(2) tp(2) t np m(2) by (simp add: retained_at_def kept_def)
    moreover have "topic_match f ?t \<and> \<not> missed b f ?t" using at [of ?t m] t tp(2) np m(3) by simp
    ultimately show "a \<in> ?M" using t(1) by blast
  next
    assume "a \<in> ?M"
    then obtain t where t: "t \<noteq> []" "retained_at b t = Some a" "topic_match f t" "\<not> missed b f t" by blast
    have h: "hd (tokens f) = hd (tokens t)" by (rule match_same_root [OF t(3) f(1) t(1) f(2)])
    have "kept (sh_children n) (tokens t) = Some a" using t(2) n h by (simp add: retained_at_def)
    then obtain m where m: "node_at (sh_children n) (tokens t) = Some m" "sh_retained m = Some a"
      by (auto simp: kept_def split: option.splits)
    have "(tokens t, m) \<in> set (nodes (sh_children n))" using m(1) nodes_node_at [OF tree] by simp
    moreover have "seen False (sh_children n) (tokens f) (tokens t) m" using at [OF t(1) _ m(1)] h r(2) t(3,4) by simp
    ultimately show "\<exists>(p, m) \<in> set (nodes (sh_children n)). sh_retained m = Some a \<and> seen False (sh_children n) (tokens f) p m"
      using m(2) by blast
  qed
  finally show "a \<in> ?L \<longleftrightarrow> a \<in> ?M" .
qed

lemma retain_queue_run:
  assumes "calm b" and "subs_ok b" "retain_ok b" and "f \<noteq> []" "filter_ok (levels f)" "has_root f"
  shows "\<exists>as. set as = {a. \<exists>t. t \<noteq> [] \<and> retained_at b t = Some a \<and> topic_match f t \<and> \<not> missed b f t} \<and>
    sub__retain_queue c f qos b = retain_all c qos as b"
proof -
  obtain n where n: "find_child (hd (tokens f)) (hier b) = Some n" using root_found [OF assms(2,6)] .
  have "sub__retain_queue c f qos b = retain_all c qos (fst (retain__search False (sh_children n) (tokens f))) b"
    using n by (simp add: sub__retain_queue_def on_error_def calm_tokenise [OF assms(1)] root_of_def bindE_def asks_def pure_res_def)
  then show ?thesis using retained_found [OF assms(2,3,4,5) n] by blast
qed

section \<open>Setting the retained message of a topic\<close>

fun mark :: "nat option \<Rightarrow> subhier list \<Rightarrow> bytes list \<Rightarrow> subhier list" where
  "mark v [] ts = []"
| "mark v (n # ns) ts =
     (if ts \<noteq> [] \<and> sh_topic n = hd ts
      then (let n' = set_children (mark v (sh_children n) (tl ts)) n in if tl ts = [] then set_retained v n' else n')
      else n) # mark v ns ts"

lemma strip_children: "map strip cs = map strip (sh_children n) \<Longrightarrow> strip (set_children cs n) = strip n"
  by (cases n) (simp add: set_children_def)

lemma strip_mark: "map strip (mark v ns ts) = map strip ns"
  by (induction v ns ts rule: mark.induct) (auto simp: Let_def strip_children)

lemma mark_Nil [simp]: "mark v ns [] = ns"
  by (induction ns) auto

lemma parts_retained [simp]: "sh_topic (set_retained v n) = sh_topic n" "sh_children (set_retained v n) = sh_children n"
  "sh_subs (set_retained v n) = sh_subs n" "sh_retained (set_retained v n) = v"
  by (simp_all add: set_retained_def)

lemma topics_mark: "sh_topic ` set (mark v ns ts) = sh_topic ` set ns"
  by (induction v ns ts rule: mark.induct) (auto simp: Let_def)

lemma find_mark:
  "find_child t (mark v ns ts) = map_option (\<lambda>n. if ts \<noteq> [] \<and> t = hd ts
     then (let n' = set_children (mark v (sh_children n) (tl ts)) n in if tl ts = [] then set_retained v n' else n') else n) (find_child t ns)"
  by (induction ns) (auto simp: Let_def)

lemma kept_Cons: "kept ns (t # ts) = (case find_child t ns of None \<Rightarrow> None
    | Some n \<Rightarrow> if ts = [] then sh_retained n else kept (sh_children n) ts)"
  by (cases ts) (auto simp: kept_def split: option.split)

lemma node_at_Cons: "node_at ns (t # ts) = (case find_child t ns of None \<Rightarrow> None
    | Some n \<Rightarrow> if ts = [] then Some n else node_at (sh_children n) ts)"
  by (cases ts) (auto split: option.split)

lemma kept_mark:
  "p \<noteq> [] \<Longrightarrow> kept (mark v ns ts) p = (if p = ts \<and> node_at ns p \<noteq> None then v else kept ns p)"
proof (induction p arbitrary: ns ts)
  case (Cons t p)
  show ?case
    using Cons.IH [of "sh_children (the (find_child t ns))" "tl ts"]
    by (cases ts) (auto simp: kept_Cons node_at_Cons find_mark Let_def split: option.split)
qed simp

lemma search_marks:
  fixes act :: "bool \<Rightarrow> subhier \<Rightarrow> ('s, 'e, subhier) comp"
  assumes plain: "\<And>n s m t. act False n s = (Inr m, t) \<Longrightarrow> Q s \<Longrightarrow> m = n \<and> Q t"
    and sets: "\<And>n s m t. act True n s = (Inr m, t) \<Longrightarrow> Q s \<Longrightarrow> m = set_retained v n \<and> Q t"
  shows "sub__search act sr ns ts s = (Inr ms, t) \<Longrightarrow> Q s \<Longrightarrow> [PLUS] \<notin> set ts \<Longrightarrow> ms = (if sr then mark v ns ts else ns) \<and> Q t"
proof (induction sr ns ts arbitrary: s ms t rule: visits.induct)
  case (2 sr n rest ts)
  obtain t' cs ls r where n: "n = Subhier t' cs ls r" by (cases n)
  obtain m s1 ms' where m: "(if ts \<noteq> [] \<and> (t' = hd ts \<or> t' = [PLUS])
        then bindE (sub__search act (sr \<and> t' \<noteq> [PLUS]) cs (tl ts)) (\<lambda>cs'.
             if tl ts = [] then act (sr \<and> t' \<noteq> [PLUS]) (Subhier t' cs' ls r) else ok (Subhier t' cs' ls r))
        else if t' = [HASH] \<and> cs = [] then act False (Subhier t' cs ls r)
        else ok (Subhier t' cs ls r)) s = (Inr m, s1)" "sub__search act sr rest ts s1 = (Inr ms', t)" "ms = m # ms'"
    using "2.prems" unfolding n sub__search.simps bindE_eq_Inr [of _ "\<lambda>node. bindE (sub__search act sr rest ts) (\<lambda>nodes. ok (node # nodes))"]
    by (auto simp: bindE_eq_Inr ok_eq_Inr)
  have "m = (if sr then hd (mark v [n] ts) else n) \<and> Q s1"
  proof (cases "ts \<noteq> [] \<and> (t' = hd ts \<or> t' = [PLUS])")
    case True
    let ?sr = "sr \<and> t' \<noteq> [PLUS]"
    have hp: "t' = hd ts \<longleftrightarrow> t' \<noteq> [PLUS]" using True "2.prems"(3) by (cases ts) auto
    obtain cs' s2 where cs: "sub__search act ?sr cs (tl ts) s = (Inr cs', s2)"
        "(if tl ts = [] then act ?sr (Subhier t' cs' ls r) else ok (Subhier t' cs' ls r)) s2 = (Inr m, s1)"
      using m(1) unfolding if_P [OF True] bindE_eq_Inr by blast
    have tl: "[PLUS] \<notin> set (tl ts)" using "2.prems"(3) True by (cases ts) auto
    have cs': "cs' = (if ?sr then mark v cs (tl ts) else cs)" "Q s2"
      using "2.IH"(1) [of s cs' s2] True n cs(1) "2.prems"(2) tl by auto
    show ?thesis
    proof (cases "?sr")
      case sr: True
      then show ?thesis using cs(2) cs' sets [of "Subhier t' cs' ls r" s2 m s1] n True hp
        by (auto simp: Let_def set_children_def ok_eq_Inr split: if_splits)
    next
      case sr: False
      have e: "?sr = False" using sr by simp
      have "m = n \<and> Q s1"
        using cs(2) cs' plain [of n s2 m s1] n unfolding e by (cases "tl ts = []") (simp_all add: ok_eq_Inr)
      then show ?thesis using sr n hp True by auto
    qed
  next
    case False
    then have "m = n \<and> Q s1" using m(1) "2.prems"(2) n plain [of n s m s1] unfolding if_not_P [OF False]
      by (auto simp: ok_eq_Inr split: if_splits)
    then show ?thesis using False n by auto
  qed
  then show ?case using "2.IH"(2) [OF m(2)] "2.prems"(3) m(3) by auto
qed (auto simp: ok_def)

section \<open>A retained publication\<close>

text \<open>The path of the topic is made; nothing else changes.\<close>

lemma kept_put:
  "ts \<noteq> [] \<Longrightarrow> kept (put_child m ns) ts = (if hd ts = sh_topic m then (if tl ts = [] then sh_retained m else kept (sh_children m) (tl ts)) else kept ns ts)"
  by (cases ts) (auto simp: kept_Cons)

lemma node_at_put:
  "node_at (put_child m ns) (sh_topic m # ts) = (if ts = [] then Some m else node_at (sh_children m) ts)"
  by (simp add: node_at_Cons)

definition made :: "subhier \<Rightarrow> bytes list \<Rightarrow> subhier \<Rightarrow> bool" where
  "made n ts n' \<longleftrightarrow> sh_topic n' = sh_topic n \<and> sh_retained n' = sh_retained n \<and> tree_ok (sh_children n') \<and> (ts = [] \<longrightarrow> n' = n) \<and>
     (\<forall>us. below n' us = below n us) \<and> (\<forall>us. us \<noteq> [] \<longrightarrow> kept (sh_children n') us = kept (sh_children n) us) \<and>
     (ts \<noteq> [] \<longrightarrow> node_at (sh_children n') ts \<noteq> None)"

lemma add_none:
  fixes b :: "'p broker"
  assumes "calm b" and "tree_ok (sh_children n)" and "filter_ok ts"
  shows "\<exists>n'. sub__add_recurse None qos path n ts b = (Inr (Add_done, n'), b) \<and> made n ts n'"
  using assms(2,3)
proof (induction ts arbitrary: path n)
  case Nil
  then show ?case by (simp add: add_leaf_def ok_def made_def)
next
  case (Cons t ts)
  have f: "filter_ok ts" "t = [HASH] \<Longrightarrow> ts = []" using Cons.prems(2) by (auto simp: plain_def)
  define m where "m = (case find_child t (sh_children n) of Some br \<Rightarrow> br | None \<Rightarrow> Subhier t [] [] None)"
  have m: "sh_topic m = t" "tree_ok (sh_children m)" "t = [HASH] \<Longrightarrow> sh_children m = []"
  proof -
    have "sh_topic m = t \<and> tree_ok (sh_children m) \<and> (t = [HASH] \<longrightarrow> sh_children m = [])"
    proof (cases "find_child t (sh_children n)")
      case (Some br)
      note br = find_child_Some [OF Some]
      have "m = br" by (simp add: m_def Some)
      then show ?thesis using br tree_ok_child [OF Cons.prems(1) conjunct1 [OF br]] by simp
    next
      case None
      then have "m = Subhier t [] [] None" by (simp add: m_def)
      then show ?thesis by simp
    qed
    then show "sh_topic m = t" "tree_ok (sh_children m)" "t = [HASH] \<Longrightarrow> sh_children m = []" by simp_all
  qed
  obtain m' where m': "sub__add_recurse None qos (path @ [t]) m ts b = (Inr (Add_done, m'), b)" "made m ts m'"
    using Cons.IH [OF m(2) f(1), of "path @ [t]"] by blast
  have r: "sub__add_recurse None qos (path @ [t]) m ts b = (Inr (Add_done, m'), b)" "sh_topic m' = t"
      "sh_retained m' = sh_retained m" "tree_ok (sh_children m')" "ts = [] \<Longrightarrow> m' = m" "\<And>us. below m' us = below m us"
      "\<And>us. us \<noteq> [] \<Longrightarrow> kept (sh_children m') us = kept (sh_children m) us" "ts \<noteq> [] \<Longrightarrow> node_at (sh_children m') ts \<noteq> None"
    using m' m(1) by (simp_all add: made_def)
  let ?n = "set_children (put_child m' (sh_children n)) n"
  have "sub__add_recurse None qos path n (t # ts) b = (Inr (Add_done, ?n), b)"
  proof (cases "find_child t (sh_children n)")
    case None
    have e: "sub__add_hier_entry t b = (Inr (Subhier t [] [] None), b)"
      using assms(1) by (simp add: sub__add_hier_entry_def bindE_def ok_def)
    have "m = Subhier t [] [] None" using None by (simp add: m_def)
    moreover have "sh_children n @ [m'] = put_child m' (sh_children n)"
      using put_new [of t "sh_children n" m'] None r(2) by (simp add: find_child_None)
    ultimately show ?thesis using None e r(1) by (simp add: bindE_def rescue_def ok_def)
  next
    case (Some br)
    then show ?thesis using r(1) by (simp add: m_def bindE_def ok_def)
  qed
  moreover have "tree_ok (put_child m' (sh_children n))"
    by (rule tree_ok_put [OF Cons.prems(1) r(4)]) (use f(2) m(3) r(2,5) in auto)
  moreover have "below ?n us = below n us" for us
    using r(2,6) m(1) unfolding below_put
    by (cases us) (auto simp: below_Cons m_def below_fresh split: option.splits)
  moreover have "kept (put_child m' (sh_children n)) us = kept (sh_children n) us" if "us \<noteq> []" for us
  proof -
    have none: "kept [] vs = None" for vs by (cases vs rule: remdups_adj.cases) (auto simp: kept_def)
    show ?thesis using that r(2,3,7) unfolding kept_put [OF that]
      by (cases us) (auto simp: kept_Cons m_def none split: option.splits)
  qed
  moreover have "node_at (put_child m' (sh_children n)) (t # ts) \<noteq> None"
    using node_at_put [of m' "sh_children n" ts] r(2,8) by simp
  ultimately show ?case by (simp add: made_def)
qed

text \<open>The action sets the new message where the path is free of \<open>+\<close>.\<close>

definition says :: "nat \<Rightarrow> bytes \<Rightarrow> 'p broker \<Rightarrow> bool" where
  "says a data b \<longleftrightarrow> (\<forall>s. heap b a = Some s \<longrightarrow> s_payload s = data)"

lemma says_kept: "same_clients b b' \<Longrightarrow> says a data b \<Longrightarrow> says a data b'"
  by (fastforce simp: same_clients_def stored_kept_def says_def)

lemma sc_source:
  "frames same_clients (case source_id of None \<Rightarrow> ok () | Some src \<Rightarrow> (ignore (deliver_all ls src topic qos retain a) :: ('p, unit) broker_comp))"
  by (intro sc.frame_rules sc_deliver_all)

lemma sc_retain_here: "frames same_clients (retain_here n topic a)"
  unfolding retain_here_def by (intro sc.frame_rules sc_deref sc_store_at sc_ref sc_world) simp_all

lemma sc_process: "frames same_clients (subs__process source_id topic qos retain a sr n)"
  unfolding subs__process_def by (intro sc.frame_rules sc_deliver_all sc_retain_here)

lemma sc_search:
  fixes act :: "bool \<Rightarrow> subhier \<Rightarrow> ('p, subhier) broker_comp"
  assumes "\<And>sr n. frames same_clients (act sr n)"
  shows "frames same_clients (sub__search act sr ns ts)"
proof (induction sr ns ts rule: visits.induct)
  case (2 sr n rest ts)
  obtain t cs ls r where n: "n = Subhier t cs ls r" by (cases n)
  have below: "frames same_clients (sub__search act (sr \<and> t \<noteq> [PLUS]) cs (tl ts))" if "ts \<noteq> [] \<and> (t = hd ts \<or> t = [PLUS])"
    using "2.IH"(1) that n by simp
  show ?case
  proof (cases "ts \<noteq> [] \<and> (t = hd ts \<or> t = [PLUS])")
    case True
    show ?thesis unfolding n sub__search.simps if_P [OF True]
      by (intro sc.frame_rules assms below [OF True] "2.IH"(2))
  next
    case False
    show ?thesis unfolding n sub__search.simps if_not_P [OF False]
      by (intro sc.frame_rules assms "2.IH"(2))
  qed
qed (simp add: sc.frame_rules)

lemma process_plain:
  assumes "subs__process source_id topic qos True a False n b = (Inr m, b')" and "says a data b"
  shows "m = n \<and> says a data b'"
proof -
  have "says a data b'" by (rule says_kept [OF framesD [OF sc_process assms(1)] assms(2)])
  then show ?thesis using assms(1) by (auto simp: subs__process_def bindE_eq_Inr ok_eq_Inr)
qed

lemma process_sets:
  fixes b :: "'p broker"
  assumes run: "subs__process source_id topic qos True a True n b = (Inr m, b')" and says: "says a data b"
  shows "m = set_retained (if data \<noteq> [] then Some a else None) n \<and> says a data b'"
proof -
  obtain b1 where b1: "retain_here n topic a b = (Inr m, b1)"
    using run by (auto simp: subs__process_def bindE_eq_Inr ok_eq_Inr)
  have "says a data b'" by (rule says_kept [OF framesD [OF sc_process run] says])
  let ?pre = "bindE (modify (\<lambda>b. if take 4 topic \<noteq> cstr ''$SYS'' then b\<lparr>persistence_changes := persistence_changes b + 1\<rparr> else b)) (\<lambda>_.
     case sh_retained n of None \<Rightarrow> ok ()
            | Some old \<Rightarrow> bindE (db__msg_store_deref old) (\<lambda>_. modify (\<lambda>b. b\<lparr>retained_count := retained_count b - 1\<rparr>)))
     :: ('p, unit) broker_comp"
  have "retain_here n topic a = bindE ?pre (\<lambda>_. bindE (store_at a) (\<lambda>s.
     if s_payload s \<noteq> []
     then bindE (db__msg_store_ref a) (\<lambda>_.
          bindE (modify (\<lambda>b. b\<lparr>retained_count := retained_count b + 1\<rparr>)) (\<lambda>_. ok (set_retained (Some a) n)))
     else ok (set_retained None n)))"
    by (simp add: retain_here_def bind_assoc)
  then obtain b2 s where p: "?pre b = (Inr (), b2)" "store_at a b2 = (Inr s, b2)"
      "m = set_retained (if s_payload s \<noteq> [] then Some a else None) n"
    using b1 by (fastforce simp: bindE_eq_Inr ok_eq_Inr store_at_def asks_eq_Inr pure_res_eq_Inr split: if_splits)
  have "frames same_clients ?pre" by (intro sc.frame_rules sc_deref sc_world) simp_all
  from says_kept [OF framesD [OF this p(1)] says] p(2) have "s_payload s = data"
    by (auto simp: says_def store_at_def bindE_eq_Inr asks_eq_Inr pure_res_eq_Inr split: option.splits)
  then show ?thesis using p(3) \<open>says a data b'\<close> by simp
qed

lemma retained_ok_kept:
  "tree_ok (sh_children n) \<Longrightarrow> retained_ok n \<longleftrightarrow> (\<forall>p. p \<noteq> [] \<longrightarrow> kept (sh_children n) p = None \<or> topic_path p \<and> hd p = sh_topic n)"
proof
  assume tree: "tree_ok (sh_children n)"
  assume r: "retained_ok n"
  show "\<forall>p. p \<noteq> [] \<longrightarrow> kept (sh_children n) p = None \<or> topic_path p \<and> hd p = sh_topic n"
  proof (intro allI impI)
    fix p :: "bytes list" assume "p \<noteq> []"
    show "kept (sh_children n) p = None \<or> topic_path p \<and> hd p = sh_topic n"
    proof (cases "node_at (sh_children n) p")
      case (Some m)
      then have "(p, m) \<in> set (nodes (sh_children n))" using \<open>p \<noteq> []\<close> nodes_node_at [OF tree] by simp
      from bspec [OF r [unfolded retained_ok_def] this] show ?thesis using Some by (simp add: kept_def)
    qed (simp add: kept_def)
  qed
next
  assume tree: "tree_ok (sh_children n)"
  assume r: "\<forall>p. p \<noteq> [] \<longrightarrow> kept (sh_children n) p = None \<or> topic_path p \<and> hd p = sh_topic n"
  have "sh_retained m = None \<or> topic_path p \<and> hd p = sh_topic n" if "(p, m) \<in> set (nodes (sh_children n))" for p m
  proof -
    have "p \<noteq> []" "kept (sh_children n) p = sh_retained m" using that nodes_node_at [OF tree] by (auto simp: kept_def)
    then show ?thesis using r by metis
  qed
  then show "retained_ok n" unfolding retained_ok_def by (intro ballI case_prodI2) blast
qed

lemma below_strip: "map strip (sh_children m) = map strip (sh_children n) \<Longrightarrow> sh_subs m = sh_subs n \<Longrightarrow> below m us = below n us"
proof -
  assume e: "map strip (sh_children m) = map strip (sh_children n)" "sh_subs m = sh_subs n"
  have "map_option strip (node_at (sh_children m) us) = map_option strip (node_at (sh_children n) us)"
    using node_at_strip [of "sh_children m" us] node_at_strip [of "sh_children n" us] e(1) by simp
  then show ?thesis using e(2) unfolding below_def by (auto split: option.splits) (metis strip_fields(2))
qed

lemma plain_filter: "plain s \<Longrightarrow> filter_ok (levels s)"
proof -
  have "\<forall>l \<in> set ls. plain l \<Longrightarrow> filter_ok ls" for ls by (induction ls) auto
  moreover assume "plain s"
  ultimately show ?thesis using levels_subset unfolding plain_def by blast
qed

lemma retain_queue_sets:
  fixes b :: "'p broker"
  assumes calm: "calm b" and ok: "subs_ok b" "retain_ok b" and t: "topic \<noteq> []" "plain topic" "has_root topic"
    and s: "heap b a = Some s" and run: "sub__messages_queue source_id topic qos True a b = (Inr (), b')"
  shows "subs_ok b' \<and> retain_ok b' \<and> leaves_at b' = leaves_at b \<and>
    retained_at b' = (retained_at b)(topic := if s_payload s \<noteq> [] then Some a else None)"
proof -
  let ?ts = "tokens topic"
  let ?v = "if s_payload s \<noteq> [] then Some a else None"
  obtain n where n: "find_child (hd ?ts) (hier b) = Some n" "sh_topic n = hd ?ts" using root_found [OF ok(1) t(3)] .
  have tree: "tree_ok (sh_children n)" using subs_ok_root(1) [OF ok(1) n(1)] by (simp add: root_ok_def)
  have fo: "filter_ok ?ts" by (rule filter_ok_tokens [OF plain_filter [OF t(2)]])
  have tp: "topic_path ?ts" using t by (simp add: topic_path_def)
  obtain b1 n' cs b2 b3 where r: "db__msg_store_ref a b = (Inr (), b1)"
      "find_child (hd ?ts) (hier b1) = Some n" "sub__add_recurse None 0 [hd ?ts] n ?ts b1 = (Inr (Add_done, n'), b1)"
      "sub__search (subs__process source_id topic qos True a) True (sh_children n') ?ts b1 = (Inr cs, b2)"
      "db__msg_store_deref a (put_root (set_children cs n') b2) = (Inr (), b')"
      and n': "sh_topic n' = sh_topic n" "sh_retained n' = sh_retained n" "tree_ok (sh_children n')" "\<And>us. below n' us = below n us"
      "\<And>us. us \<noteq> [] \<Longrightarrow> kept (sh_children n') us = kept (sh_children n) us" "node_at (sh_children n') ?ts \<noteq> None"
  proof -
    obtain b1 where b1: "db__msg_store_ref a b = (Inr (), b1)"
      using s by (simp add: db__msg_store_ref_def store_at_def bindE_def asks_def pure_res_def modify_def)
    then have c1: "calm b1" "hier b1 = hier b"
      using calm s by (auto simp: db__msg_store_ref_def store_at_def bindE_def asks_def pure_res_def modify_def put_store_def calm_def)
    from add_none [OF c1(1) tree fo, of 0 "[hd ?ts]"] obtain n' where
      a: "sub__add_recurse None 0 [hd ?ts] n ?ts b1 = (Inr (Add_done, n'), b1)" "sh_topic n' = sh_topic n" "sh_retained n' = sh_retained n"
        "tree_ok (sh_children n')" "\<And>us. below n' us = below n us"
        "\<And>us. us \<noteq> [] \<Longrightarrow> kept (sh_children n') us = kept (sh_children n) us" "node_at (sh_children n') ?ts \<noteq> None"
      unfolding made_def by auto
    have "bindE (sub__search (subs__process source_id topic qos True a) True (sh_children n') ?ts) (\<lambda>cs.
        bindE (modify (put_root (set_children cs n'))) (\<lambda>_. db__msg_store_deref a)) b1 = (Inr (), b')"
      using run b1 c1(2) n(1) a(1)
      by (simp add: sub__messages_queue_def on_error_def calm_tokenise [OF calm] root_of_def bindE_def asks_def pure_res_def ok_def)
    then show ?thesis using that b1 c1(2) n(1) a by (auto simp: bindE_eq_Inr modify_eq_Inr)
  qed
  have b1: "same_clients b b1" by (rule framesD [OF sc_ref r(1)])
  have "says a (s_payload s) b1" by (rule says_kept [OF b1]) (simp add: says_def s)
  moreover have "[PLUS] \<notin> set ?ts" using topic_path_plain [OF tp] by simp
  ultimately have cs: "cs = mark ?v (sh_children n') ?ts"
    using search_marks [where Q = "says a (s_payload s)" and act = "subs__process source_id topic qos True a" and v = ?v,
      OF process_plain process_sets r(4)] by simp
  let ?n = "set_children cs n'"
  have b2: "same_clients b b2" using framesD [OF sc_search [OF sc_process] r(4)] b1 sc.R_trans by blast
  have n2: "find_child (hd ?ts) (hier b2) = Some n" and ok2: "subs_ok b2" and lv: "leaves_at b2 = leaves_at b" and h2: "hier b2 = hier b"
    using n(1) ok(1) b2 same_clients_leaves [OF b2] by (simp_all add: same_clients_def)
  have st: "map strip (sh_children ?n) = map strip (sh_children n')" unfolding cs by (simp add: strip_mark)
  have top: "sh_topic ?n = sh_topic n" using n'(1) by simp
  have tree': "tree_ok (sh_children ?n)" using n'(3) st tree_ok_strip by metis
  have below: "below ?n us = (if us = ?ts then below n us else below n us)" for us
    using below_strip [OF st] n'(4) by simp
  note put = subs_ok_put [OF ok2 n2 t(1) plain_filter [OF t(2)] top tree', where g = "\<lambda>ls. ls", OF below]
  have kept: "kept (sh_children ?n) p = (if p = ?ts then ?v else kept (sh_children n) p)" if "p \<noteq> []" for p
    unfolding cs using kept_mark [OF that, of ?v "sh_children n'" ?ts] n'(5) [OF that] n'(6) by auto
  have rn: "retained_ok ?n"
    unfolding retained_ok_kept [OF tree']
  proof (intro allI impI)
    fix p :: "bytes list" assume p: "p \<noteq> []"
    have "retained_ok n" using ok(2) find_child_Some [OF n(1)] by (simp add: retain_ok_def)
    then have "kept (sh_children n) p = None \<or> topic_path p \<and> hd p = sh_topic n"
      using p unfolding retained_ok_kept [OF tree] by blast
    then show "kept (sh_children ?n) p = None \<or> topic_path p \<and> hd p = sh_topic ?n"
      unfolding kept [OF p] top using tp n(2) by auto
  qed
  let ?b = "put_root ?n b2"
  have ret: "retain_ok ?b"
    using rn ok(2) set_put [of ?n "hier b2"] h2 by (auto simp: retain_ok_def put_root_def)
  have ra: "retained_at ?b u = ((retained_at b)(topic := ?v)) u" for u
    using kept [OF tokens_ne, of u] top n h2 by (auto simp: retained_at_def find_put_root tokens_inj split: option.split)
  have b': "same_clients ?b b'" by (rule framesD [OF sc_deref r(5)])
  have "hier b' = hier ?b" using b' by (simp add: same_clients_def)
  then have "retain_ok b' = retain_ok ?b" "retained_at b' = retained_at ?b"
    by (simp_all add: retain_ok_def retained_at_def fun_eq_iff)
  moreover have "leaves_at ?b = leaves_at b" using put(2) lv by (simp add: fun_eq_iff)
  ultimately show ?thesis using put(1) ret ra same_clients_leaves [OF b'] by (simp add: fun_eq_iff)
qed

end
