(* ===== verification/SubsProps.thy ===== *)
theory SubsProps
  imports RetainFacts ClientProps
begin

text \<open>
  The properties of the broker's subscription tree: what subscriptions are there after a sequence of
  requests, whom a message reaches, and which retained messages a new subscription gets.
\<close>

section \<open>Requests succeed in a calm broker\<close>

lemma calm_broker [simp]:
  "calm (upd_client c f b) = calm b" "calm (put_root n b) = calm b" "calm (put_store a s b) = calm b"
  "calm (b\<lparr>subscription_count := i\<rparr>) = calm b"
  by (simp_all add: calm_def upd_client_def put_root_def put_store_def)

lemma contexts_broker [simp]:
  "length (contexts (upd_client c f b)) = length (contexts b)" "contexts (put_root n b) = contexts b"
  by (simp_all add: upd_client_def put_root_def)

lemma calm_new_leaf:
  "calm b \<Longrightarrow> c < length (contexts b) \<Longrightarrow> \<exists>b'. new_leaf c qos path b = (Inr (), b') \<and> calm b' \<and> length (contexts b') = length (contexts b)"
  by (auto simp: new_leaf_def client_at_def bindE_def asks_def pure_res_def modify_def split: option.split)

lemma calm_add_leaf:
  assumes "calm b" and "c < length (contexts b)"
  shows "\<exists>rc n' b'. add_leaf (Some c) qos path n b = (Inr (rc, n'), b') \<and> rc \<noteq> Add_nomem \<and> calm b' \<and> length (contexts b') = length (contexts b)"
proof -
  obtain b' where "new_leaf c qos path b = (Inr (), b')" "calm b'" "length (contexts b') = length (contexts b)"
    using calm_new_leaf [OF assms] by blast
  then show ?thesis using assms
    by (auto simp: add_leaf_def client_at_def bindE_def asks_def pure_res_def rescue_def modify_def ok_def split: option.split)
qed

lemma calm_add_recurse:
  assumes "calm b" and "c < length (contexts b)"
  shows "\<exists>rc n' b'. sub__add_recurse (Some c) qos path n ts b = (Inr (rc, n'), b') \<and> rc \<noteq> Add_nomem \<and> calm b' \<and> length (contexts b') = length (contexts b)"
  using assms
proof (induction ts arbitrary: path n)
  case Nil
  then show ?case using calm_add_leaf by simp
next
  case (Cons t ts)
  have e: "sub__add_hier_entry t b = (Inr (Subhier t [] [] None), b)"
    using Cons.prems by (simp add: sub__add_hier_entry_def bindE_def ok_def)
  obtain m where m: "m = (case find_child t (sh_children n) of Some br \<Rightarrow> br | None \<Rightarrow> Subhier t [] [] None)" by simp
  obtain rc n' b' where "sub__add_recurse (Some c) qos (path @ [t]) m ts b = (Inr (rc, n'), b')" "rc \<noteq> Add_nomem" "calm b'"
      "length (contexts b') = length (contexts b)"
    using Cons.IH [OF Cons.prems] by blast
  then show ?case using e m by (auto simp: bindE_def rescue_def ok_def split: option.splits)
qed

lemma calm_add:
  assumes "calm b" and "c < length (contexts b)" and "subs_ok b" and "has_root f"
  shows "\<exists>b'. sub__add c f qos b = (Inr (), b') \<and> calm b' \<and> length (contexts b') = length (contexts b)"
proof -
  obtain n where n: "find_child (hd (tokens f)) (hier b) = Some n" using root_found [OF assms(3,4)] .
  obtain rc n' b' where "sub__add_recurse (Some c) qos [hd (tokens f)] n (tokens f) b = (Inr (rc, n'), b')" "rc \<noteq> Add_nomem" "calm b'"
      "length (contexts b') = length (contexts b)"
    using calm_add_recurse [OF assms(1,2)] by blast
  then show ?thesis using n
    by (simp add: sub__add_def on_error_def calm_tokenise [OF assms(1)] root_of_def bindE_def asks_def pure_res_def modify_def ok_def)
qed

lemma remove_calm: "sub__remove_recurse c path n ts b = (n', b') \<Longrightarrow> calm b' = calm b \<and> length (contexts b') = length (contexts b)"
  by (induction ts arbitrary: path n n') (auto split: option.splits prod.splits)

lemma calm_remove:
  assumes "calm b" and "subs_ok b" and "has_root f"
  shows "\<exists>b'. sub__remove c f b = (Inr (), b') \<and> calm b' \<and> length (contexts b') = length (contexts b)"
proof -
  obtain n where n: "find_child (hd (tokens f)) (hier b) = Some n" using root_found [OF assms(2,3)] .
  obtain n' b' where r: "sub__remove_recurse c [hd (tokens f)] n (tokens f) b = (n', b')" by fastforce
  then show ?thesis using n remove_calm [OF r] assms(1)
    by (simp add: sub__remove_def on_error_def calm_tokenise [OF assms(1)] root_of_def bindE_def asks_def pure_res_def modify_def)
qed

section \<open>A sequence of requests\<close>

datatype sub_request = Subscribe nat bytes nat | Unsubscribe nat bytes

fun serve :: "sub_request \<Rightarrow> ('p, unit) broker_comp" where
  "serve (Subscribe c f qos) = sub__add c f qos"
| "serve (Unsubscribe c f) = sub__remove c f"

fun serve_all :: "sub_request list \<Rightarrow> ('p, unit) broker_comp" where
  "serve_all [] = ok ()"
| "serve_all (r # rs) = bindE (serve r) (\<lambda>_. serve_all rs)"

text \<open>What it means: a map from filters to subscriptions is updated at one filter.\<close>

fun served :: "(nat \<Rightarrow> bytes option) \<Rightarrow> sub_request \<Rightarrow> (bytes \<Rightarrow> subleaf list) \<Rightarrow> bytes \<Rightarrow> subleaf list" where
  "served ids (Subscribe c f qos) m = m(f := subscribe_leaf ids c qos (m f))"
| "served ids (Unsubscribe c f) m = m(f := unsubscribe_leaf c (m f))"

fun request_ok :: "nat \<Rightarrow> sub_request \<Rightarrow> bool" where
  "request_ok n (Subscribe c f qos) \<longleftrightarrow> c < n \<and> f \<noteq> [] \<and> filter_ok (levels f) \<and> has_root f"
| "request_ok n (Unsubscribe c f) \<longleftrightarrow> f \<noteq> [] \<and> filter_ok (levels f) \<and> has_root f"

lemma serve_run:
  assumes "calm b" and "subs_ok b" and "request_ok (length (contexts b)) r"
  obtains b' where "serve r b = (Inr (), b')" and "calm b'" and "length (contexts b') = length (contexts b)"
    and "subs_ok b'" and "client_ids b' = client_ids b" and "leaves_at b' = served (client_ids b) r (leaves_at b)"
proof (cases r)
  case (Subscribe c f qos)
  have p: "c < length (contexts b)" "f \<noteq> []" "filter_ok (levels f)" "has_root f" using assms(3) Subscribe by simp_all
  obtain b' where b': "sub__add c f qos b = (Inr (), b')" "calm b'" "length (contexts b') = length (contexts b)"
    using calm_add [OF assms(1) p(1) assms(2) p(4)] by blast
  show ?thesis using that [of b'] b' add_run [OF assms(2) p(2,3,1) b'(1)] Subscribe by (simp add: fun_eq_iff)
next
  case (Unsubscribe c f)
  have p: "f \<noteq> []" "filter_ok (levels f)" "has_root f" using assms(3) Unsubscribe by simp_all
  obtain b' where b': "sub__remove c f b = (Inr (), b')" "calm b'" "length (contexts b') = length (contexts b)"
    using calm_remove [OF assms(1,2) p(3)] by blast
  show ?thesis using that [of b'] b' remove_run [OF assms(2) p(1,2) b'(1)] Unsubscribe by (simp add: fun_eq_iff)
qed

text \<open>C34: The tree refines a map from filters to subscriptions: in a calm broker any sequence of valid
  subscribe and unsubscribe requests succeeds, keeps the invariant of the tree, and leaves at every
  filter exactly the subscriptions the sequence leaves in the map - however the filters share levels,
  and however nodes are made and pruned on the way.\<close>

theorem subscriptions_refine_map:
  assumes "calm b" and "subs_ok b" and "\<forall>r \<in> set rs. request_ok (length (contexts b)) r"
  shows "\<exists>b'. serve_all rs b = (Inr (), b') \<and> subs_ok b' \<and> client_ids b' = client_ids b \<and>
    leaves_at b' = fold (served (client_ids b)) rs (leaves_at b)"
  using assms
proof (induction rs arbitrary: b)
  case Nil
  then show ?case by (simp add: ok_def)
next
  case (Cons r rs)
  obtain b1 where b1: "serve r b = (Inr (), b1)" "calm b1" "length (contexts b1) = length (contexts b)"
    "subs_ok b1" "client_ids b1 = client_ids b" "leaves_at b1 = served (client_ids b) r (leaves_at b)"
    using serve_run [OF Cons.prems(1,2), of r] Cons.prems(3) by auto
  obtain b' where "serve_all rs b1 = (Inr (), b')" "subs_ok b'" "client_ids b' = client_ids b1"
      "leaves_at b' = fold (served (client_ids b1)) rs (leaves_at b1)"
    using Cons.IH [OF b1(2,4)] Cons.prems(3) b1(3) by auto
  then show ?case using b1 by (simp add: bindE_def)
qed


text \<open>A broker with two clients and three subscriptions, for the examples.\<close>

definition sample_context :: "bytes \<Rightarrow> nat client_context" where
  "sample_context cid = connection.extend (sample_link 9 [2])
     (client_context.fields mosq_p_mqtt311 (Some cid) None None None True 0 False None [] [] 0 0 0 0 None None [] False False)"

definition sample_broker :: "subhier list \<Rightarrow> (nat \<Rightarrow> msg_store option) \<Rightarrow> nat broker" where
  "sample_broker ns h = world.extend (sample_world 0)
     (broker.fields [sample_context (cstr ''c0''), sample_context (cstr ''c1'')]
        [Subhier [] [Subhier [] ns [] None] [] None, Subhier (cstr ''$SYS'') [] [] None]
        h 9 [7] [] [] 1 1 1 0 0 0 0 0 20 0 100 0 False False False 0 False None
        \<lparr>sec_acl_list = [], sec_acl_patterns = [], sec_plugins = [], allow_anonymous = True,
          allow_zero_length_clientid = True, auto_id_prefix = None\<rparr>)"

definition sample_tree :: "subhier list" where
  "sample_tree = [Subhier (cstr ''a'') [Subhier [PLUS] [] [\<lparr>l_context = 0, l_qos = 1\<rparr>] None,
      Subhier [HASH] [] [\<lparr>l_context = 1, l_qos = 2\<rparr>] None] [] (Some 7),
     Subhier (cstr ''b'') [] [\<lparr>l_context = 1, l_qos = 0\<rparr>] (Some 8), Subhier (cstr ''c'') [] [] (Some 6)]"

lemma calm_sample_broker [simp]: "calm (sample_broker ns h)"
  using calm_sample_world [of 0] by (simp add: sample_broker_def calm_def world.defs)

lemma sample_fields [simp]:
  "hier (sample_broker ns h) = [Subhier [] [Subhier [] ns [] None] [] None, Subhier (cstr ''$SYS'') [] [] None]"
  "heap (sample_broker ns h) = h" "length (contexts (sample_broker ns h)) = 2"
  by (simp_all add: sample_broker_def broker.defs world.defs)

lemmas paths = filter_path_def topic_path_def name_of_def tokens_def plain_def cstr_def

lemma sample_ok: "subs_ok (sample_broker sample_tree h)" "retain_ok (sample_broker sample_tree h)"
  by (simp_all add: subs_ok_def root_ok_def retain_ok_def retained_ok_def sample_tree_def paths)


theorem subscriptions_refine_map_witness:
  "\<exists>b'. serve_all [Subscribe 0 (cstr ''a/b'') 1, Subscribe 1 (cstr ''a/#'') 2, Unsubscribe 0 (cstr ''a/b'')] (sample_broker [] (\<lambda>_. None)) = (Inr (), b') \<and>
    subs_ok b' \<and> leaves_at b' (cstr ''a/b'') = [] \<and> leaves_at b' (cstr ''a/#'') = [\<lparr>l_context = 1, l_qos = 2\<rparr>]"
proof -
  let ?b = "sample_broker [] (\<lambda>_. None)"
  have ids: "client_ids ?b 0 = Some (cstr ''c0'')" "client_ids ?b 1 = Some (cstr ''c1'')"
    by (simp_all add: client_ids_def sample_broker_def broker.defs world.defs sample_context_def client_context.defs connection.defs)
  have ok: "subs_ok ?b" by (simp add: subs_ok_def root_ok_def)
  have at: "leaves_at ?b (cstr ''a/b'') = []" "leaves_at ?b (cstr ''a/#'') = []"
    by (simp_all add: leaves_at_def below_def paths)
  obtain b' where b': "serve_all [Subscribe 0 (cstr ''a/b'') 1, Subscribe 1 (cstr ''a/#'') 2, Unsubscribe 0 (cstr ''a/b'')] ?b = (Inr (), b')"
      "subs_ok b'" "leaves_at b' = fold (served (client_ids ?b)) [Subscribe 0 (cstr ''a/b'') 1, Subscribe 1 (cstr ''a/#'') 2,
        Unsubscribe 0 (cstr ''a/b'')] (leaves_at ?b)"
    using subscriptions_refine_map [OF calm_sample_broker ok, of "[Subscribe 0 (cstr ''a/b'') 1, Subscribe 1 (cstr ''a/#'') 2,
      Unsubscribe 0 (cstr ''a/b'')]"] by (auto simp: paths has_root_def)
  have "cstr ''a/b'' \<noteq> cstr ''a/#''" by (simp add: cstr_def)
  then show ?thesis using b' ids at by (simp add: subscribe_leaf_def unsubscribe_leaf_def)
qed

section \<open>Publishing\<close>

text \<open>C33: A publication reaches exactly the subscriptions whose filter matches its topic: in a calm
  broker the search of the tree is the same as delivering to the subscriptions at a list of filters in
  which every matching filter with subscriptions occurs exactly once, and no other one. (Matching is
  what \<open>mosquitto_topic_matches_sub\<close> decides for the same filters.)\<close>

theorem publish_reaches_matching_filters:
  fixes b :: "'p broker"
  assumes "calm b" and "subs_ok b" and "topic \<noteq> []" and "plain topic" and "has_root topic"
  shows "\<exists>fs. distinct fs \<and> set fs = {f. leaves_at b f \<noteq> [] \<and> topic_match f topic} \<and>
    sub__messages_queue (Some src) topic qos False a b =
      bindE (db__msg_store_ref a) (\<lambda>_. bindE (publish_to src topic qos False a (map (leaves_at b) fs)) (\<lambda>_.
      db__msg_store_deref a)) b"
  using messages_queue_run [OF assms(1,2,5,3,4)] .

lemma sample_leaves:
  "leaves_at (sample_broker sample_tree h) (cstr ''a/+'') = [\<lparr>l_context = 0, l_qos = 1\<rparr>]"
  "leaves_at (sample_broker sample_tree h) (cstr ''a/#'') = [\<lparr>l_context = 1, l_qos = 2\<rparr>]"
  "leaves_at (sample_broker sample_tree h) (cstr ''b'') = [\<lparr>l_context = 1, l_qos = 0\<rparr>]"
  by (simp_all add: leaves_at_def below_def sample_tree_def paths)

theorem publish_reaches_matching_filters_witness:
  "\<exists>fs. distinct fs \<and> cstr ''a/+'' \<in> set fs \<and> cstr ''a/#'' \<in> set fs \<and> cstr ''b'' \<notin> set fs \<and>
    sub__messages_queue (Some (cstr ''c0'')) (cstr ''a/x'') 1 False 7 (sample_broker sample_tree (\<lambda>_. None)) =
      bindE (db__msg_store_ref 7) (\<lambda>_. bindE (publish_to (cstr ''c0'') (cstr ''a/x'') 1 False 7
        (map (leaves_at (sample_broker sample_tree (\<lambda>_. None))) fs)) (\<lambda>_. db__msg_store_deref 7)) (sample_broker sample_tree (\<lambda>_. None))"
proof -
  have t: "cstr ''a/x'' \<noteq> []" "plain (cstr ''a/x'')" "has_root (cstr ''a/x'')" by (simp_all add: paths has_root_def)
  obtain fs where fs: "distinct fs"
      "set fs = {f. leaves_at (sample_broker sample_tree (\<lambda>_. None)) f \<noteq> [] \<and> topic_match f (cstr ''a/x'')}"
      "sub__messages_queue (Some (cstr ''c0'')) (cstr ''a/x'') 1 False 7 (sample_broker sample_tree (\<lambda>_. None)) =
      bindE (db__msg_store_ref 7) (\<lambda>_. bindE (publish_to (cstr ''c0'') (cstr ''a/x'') 1 False 7
        (map (leaves_at (sample_broker sample_tree (\<lambda>_. None))) fs)) (\<lambda>_. db__msg_store_deref 7)) (sample_broker sample_tree (\<lambda>_. None))"
    using publish_reaches_matching_filters [OF calm_sample_broker sample_ok(1) t] by blast
  have "topic_match (cstr ''a/+'') (cstr ''a/x'')" "topic_match (cstr ''a/#'') (cstr ''a/x'')"
    "\<not> topic_match (cstr ''b'') (cstr ''a/x'')" by (simp_all add: topic_match_def cstr_def)
  then show ?thesis using fs sample_leaves by (intro exI [of _ fs]) auto
qed

section \<open>Topics without a root\<close>

text \<open>C35: There is no tree for names that start with a dollar sign other than \<open>$SYS\<close>: a subscription to
  one, its removal, the search for its retained messages and a publication to one all run into the
  broken assertion on the root, which ends the broker.\<close>

theorem dollar_topics_abort_the_broker:
  assumes "calm b" and "subs_ok b" and "\<not> has_root s"
  shows "sub__add c s qos b = (Inl Fault, b) \<and> sub__remove c s b = (Inl Fault, b) \<and>
    sub__retain_queue c s qos b = (Inl Fault, b) \<and> fst (sub__messages_queue source_id s qos retain a b) = Inl Fault"
proof -
  note none = root_missing [OF assms(2,3)]
  have tok: "on_error (as_code MOSQ_ERR_NOMEM) (sub__topic_tokenise s) b = (Inr (tokens s), b)"
    by (simp add: on_error_def calm_tokenise [OF assms(1)])
  have root: "root_of (tokens s) b1 = (Inl Fault, b1)" if "hier b1 = hier b" for b1
    using none that by (simp add: root_of_def bindE_def asks_def pure_res_def)
  obtain r b1 where r: "db__msg_store_ref a b = (r, b1)" by fastforce
  have h: "hier b1 = hier b" using framesD [OF sc_ref r] by (simp add: same_clients_def)
  have e: "e = Fault" if "r = Inl e" for e
    using r that by (auto simp: db__msg_store_ref_def store_at_def bindE_def asks_def pure_res_def modify_def split: option.splits)
  have "fst (sub__messages_queue source_id s qos retain a b) = Inl Fault"
    using tok r root [OF h] e by (cases r) (simp_all add: sub__messages_queue_def bindE_def)
  then show ?thesis
    using tok root [OF refl] by (simp add: sub__add_def sub__remove_def sub__retain_queue_def bindE_def)
qed

theorem dollar_topics_abort_the_broker_witness:
  "fst (sub__add 0 (cstr ''$x'') 0 (sample_broker sample_tree (\<lambda>_. None))) = Inl Fault"
  using dollar_topics_abort_the_broker [OF calm_sample_broker sample_ok(1), where s = "cstr ''$x''" and c = 0 and qos = 0]
  by (simp add: has_root_def cstr_def)

section \<open>Retained messages\<close>

lemma retained_node:
  assumes "subs_ok b" and "retained_at b t = Some a"
  shows "\<exists>n m. n \<in> set (hier b) \<and> (tokens t, m) \<in> set (nodes (sh_children n)) \<and> sh_retained m = Some a"
proof -
  obtain n m where n: "find_child (hd (tokens t)) (hier b) = Some n" "node_at (sh_children n) (tokens t) = Some m" "sh_retained m = Some a"
    using assms(2) by (auto simp: retained_at_def kept_def split: option.splits)
  have "tree_ok (sh_children n)" using subs_ok_root(1) [OF assms(1) n(1)] by (simp add: root_ok_def)
  then have "(tokens t, m) \<in> set (nodes (sh_children n))" using n(2) nodes_node_at by simp
  then show ?thesis using n find_child_Some [OF n(1)] by blast
qed

text \<open>C36: A new subscription is offered the retained messages of the topics its filter matches, and no
  others - but not all of them: a filter that ends in \<open>/#\<close> also matches the topic one level up, and
  the message retained there is left out when that node has no children and is not the last of its
  siblings.\<close>

theorem retained_messages_for_a_subscription:
  assumes "calm b" and "subs_ok b" and "retain_ok b" and "f \<noteq> []" and "filter_ok (levels f)" and "has_root f"
  shows "\<exists>as. set as = {a. \<exists>t. t \<noteq> [] \<and> retained_at b t = Some a \<and> topic_match f t \<and> \<not> missed b f t} \<and>
    sub__retain_queue c f qos b = retain_all c qos as b"
  using retain_queue_run [OF assms] .

theorem retained_messages_for_a_subscription_witness:
  "retained_at (sample_broker sample_tree (\<lambda>_. None)) (cstr ''b'') = Some 8 \<and> topic_match (cstr ''+/#'') (cstr ''b'') \<and>
   (\<exists>as. 7 \<in> set as \<and> 6 \<in> set as \<and> 8 \<notin> set as \<and>
     sub__retain_queue 0 (cstr ''+/#'') 0 (sample_broker sample_tree (\<lambda>_. None)) =
       retain_all 0 0 as (sample_broker sample_tree (\<lambda>_. None)))"
proof -
  let ?b = "sample_broker sample_tree (\<lambda>_. None)"
  have f: "cstr ''+/#'' \<noteq> []" "filter_ok (levels (cstr ''+/#''))" "has_root (cstr ''+/#'')" by (simp_all add: paths has_root_def)
  obtain as where as: "set as = {a. \<exists>t. t \<noteq> [] \<and> retained_at ?b t = Some a \<and> topic_match (cstr ''+/#'') t \<and> \<not> missed ?b (cstr ''+/#'') t}"
      "sub__retain_queue 0 (cstr ''+/#'') 0 ?b = retain_all 0 0 as ?b"
    using retained_messages_for_a_subscription [OF calm_sample_broker sample_ok f] by blast
  have r: "retained_at ?b (cstr ''a'') = Some 7" "retained_at ?b (cstr ''b'') = Some 8" "retained_at ?b (cstr ''c'') = Some 6"
    by (simp_all add: retained_at_def kept_def sample_tree_def paths)
  have m: "topic_match (cstr ''+/#'') (cstr ''a'')" "topic_match (cstr ''+/#'') (cstr ''b'')" "topic_match (cstr ''+/#'') (cstr ''c'')"
    by (simp_all add: topic_match_def cstr_def)
  have miss: "\<not> missed ?b (cstr ''+/#'') (cstr ''a'')" "missed ?b (cstr ''+/#'') (cstr ''b'')" "\<not> missed ?b (cstr ''+/#'') (cstr ''c'')"
    by (simp_all add: missed_def sample_tree_def paths)
  have "t = cstr ''b''" if "retained_at ?b t = Some 8" for t
  proof -
    obtain n m where "n \<in> set (hier ?b)" "(tokens t, m) \<in> set (nodes (sh_children n))" "sh_retained m = Some 8"
      using retained_node [OF sample_ok(1) \<open>retained_at ?b t = Some 8\<close>] by blast
    then have "tokens t = tokens (cstr ''b'')" by (auto simp: sample_tree_def paths)
    then show ?thesis by (simp add: tokens_inj)
  qed
  moreover have "cstr ''a'' \<noteq> []" "cstr ''c'' \<noteq> []" by (simp_all add: cstr_def)
  ultimately have "7 \<in> set as" "6 \<in> set as" "8 \<notin> set as" unfolding as(1) mem_Collect_eq using r m miss by blast+
  then show ?thesis using as(2) r m by blast
qed

text \<open>C37: A retained publication replaces the message kept for its topic - an empty one removes it -
  and changes no other retained message and no subscription.\<close>

theorem retained_publication_updates_one_topic:
  fixes b :: "'p broker"
  assumes "calm b" and "subs_ok b" and "retain_ok b" and "topic \<noteq> []" and "plain topic" and "has_root topic"
    and "heap b a = Some s" and "sub__messages_queue source_id topic qos True a b = (Inr (), b')"
  shows "subs_ok b' \<and> retain_ok b' \<and> leaves_at b' = leaves_at b \<and>
    retained_at b' = (retained_at b)(topic := if s_payload s \<noteq> [] then Some a else None)"
  using retain_queue_sets [OF assms] .


definition sample_store :: msg_store where
  "sample_store = \<lparr>s_db_id = 1, s_source_id = cstr ''c0'', s_dest_ids = [], s_ref_count = 0, s_topic = Some (cstr ''d''),
     s_payload = [42], s_source_mid = 0, s_qos = 0, s_retain = True\<rparr>"

definition small_tree :: "subhier list" where
  "small_tree = [Subhier (cstr ''a'') [] [] (Some 7), Subhier (cstr ''d'') [] [] None]"

theorem retained_publication_updates_one_topic_witness:
  "\<exists>b'. sub__messages_queue None (cstr ''d'') 0 True 5 (sample_broker small_tree [5 \<mapsto> sample_store]) = (Inr (), b') \<and>
    retained_at b' (cstr ''d'') = Some 5 \<and> retained_at b' (cstr ''a'') = Some 7"
proof -
  let ?b = "sample_broker small_tree [5 \<mapsto> sample_store]"
  have t: "cstr ''d'' \<noteq> []" "plain (cstr ''d'')" "has_root (cstr ''d'')" by (simp_all add: paths has_root_def)
  have s: "heap ?b 5 = Some sample_store" by simp
  have ok: "subs_ok ?b" "retain_ok ?b"
    by (simp_all add: subs_ok_def root_ok_def retain_ok_def retained_ok_def small_tree_def paths)
  obtain b' where b': "sub__messages_queue None (cstr ''d'') 0 True 5 ?b = (Inr (), b')"
  proof -
    have "\<exists>b'. sub__messages_queue None (cstr ''d'') 0 True 5 ?b = (Inr (), b')"
      by (simp add: sub__messages_queue_def on_error_def calm_tokenise bindE_def root_of_def asks_def pure_res_def ok_def modify_def
        db__msg_store_ref_def db__msg_store_deref_def store_at_def put_store_def small_tree_def paths sample_store_def
        subs__process_def retain_here_def set_children_def set_retained_def add_leaf_def put_root_def)
    then show ?thesis using that by blast
  qed
  have "retained_at ?b (cstr ''a'') = Some 7" by (simp add: retained_at_def kept_def small_tree_def paths)
  moreover have "cstr ''a'' \<noteq> cstr ''d''" "s_payload sample_store \<noteq> []" by (simp_all add: cstr_def sample_store_def)
  ultimately show ?thesis
    using retained_publication_updates_one_topic [OF calm_sample_broker ok t s b'] b' by auto
qed

end
