(* ===== verification/RefProps.thy ===== *)
theory RefProps
  imports RefConnect SubsProps
begin

text \<open>
  The broker as a machine whose steps are the calls its main loop makes, and what holds of the
  references to stored messages over all its runs.
\<close>

section \<open>The steps of the broker\<close>

text \<open>
  A packet is handled; the messages in flight of a client are written; a client is disconnected; the
  clients that left are freed; the broker publishes a message of its own. Between these a connection is
  accepted, what a client's connection has read or is to send changes, and so does what has nothing to
  do with clients and messages (the clock, the allocator, files, settings, counters).

  A run that ends in a fault has no next state.
\<close>

inductive broker_step :: "('e, 'v) cbor_api \<Rightarrow> ('j, 'p) tom_api \<Rightarrow> 'p broker \<Rightarrow> 'p broker \<Rightarrow> bool" for C T where
  packet: "handle__packet_broker C T uuid fuel c b = (r, b') \<Longrightarrow> r \<noteq> Inl Fault \<Longrightarrow> broker_step C T b b'"
| written: "db__message_write C T fuel c b = (r, b') \<Longrightarrow> r \<noteq> Inl Fault \<Longrightarrow> broker_step C T b b'"
| closed: "do_disconnect c b = (r, b') \<Longrightarrow> r \<noteq> Inl Fault \<Longrightarrow> broker_step C T b b'"
| freed: "context__free_disused b = (r, b') \<Longrightarrow> r \<noteq> Inl Fault \<Longrightarrow> broker_step C T b b'"
| published: "db__messages_easy_queue i topic qos data retain b = (r, b') \<Longrightarrow> r \<noteq> Inl Fault \<Longrightarrow> broker_step C T b b'"
| accepted: "view k = ([], [], None) \<Longrightarrow> linked True k \<Longrightarrow> linked False k \<Longrightarrow> broker_step C T b (b\<lparr>contexts := contexts b @ [k]\<rparr>)"
| moved_on: "same_client (contexts b ! c) k \<Longrightarrow> broker_step C T b (upd_client c (\<lambda>_. k) b)"
| elsewhere: "unchanged b b' \<Longrightarrow> broker_step C T b b'"

lemma keeps_step: "keeps I m \<Longrightarrow> I b \<Longrightarrow> m b = (r, b') \<Longrightarrow> r \<noteq> Inl Fault \<Longrightarrow> I b'"
  by (cases r) (auto dest: tripleD tripleE)

lemma refs_accepted:
  assumes "refs_ok b" and k: "view k = ([], [], None)"
  shows "refs_ok (b\<lparr>contexts := contexts b @ [k]\<rparr>)"
proof -
  let ?b = "b\<lparr>contexts := contexts b @ [k]\<rparr>"
  have q: "queues ?b = queues b @ [([], [], None)]" using k by (simp add: queues_def)
  have r: "queue_refs (queues ?b) = queue_refs (queues b)" by (simp add: q queue_refs_def)
  have "new_ok k" using k by (simp add: view_def new_ok_def)
  then show ?thesis
    using assms(1) unfolding refs_ok_def r by (auto simp: st_def store_ok_def nth_append)
qed

lemma refs_same: "refs X b \<Longrightarrow> same_messages (contexts b ! c) (f (contexts b ! c)) \<Longrightarrow> refs X (upd_client c f b)"
  unfolding refs_def loose_def using st_same by blast

lemma refs_unchanged: "refs X b \<Longrightarrow> unchanged b b' \<Longrightarrow> refs X b'"
  unfolding refs_def loose_def using unchanged_st by blast

lemma step_keeps_refs: "broker_step C T b b' \<Longrightarrow> refs_ok b \<Longrightarrow> refs_ok b'"
proof (induction rule: broker_step.induct)
  case (moved_on b c k)
  then show ?case using refs_same [of None b c "\<lambda>_. k"] same_client_messages by (auto simp flip: refs_iff)
next
  case (elsewhere b b')
  then show ?case using refs_unchanged by (auto simp flip: refs_iff)
qed (auto simp: refs_accepted [folded refs_iff] simp flip: refs_iff
  intro: keeps_step [OF refs_packet] keeps_step [OF refs_write] keeps_step [OF sure_keeps [OF sure_do_disconnect]]
    keeps_step [OF refs_free_disused] keeps_step [OF refs_easy_queue])

lemma run_keeps_refs: "(broker_step C T)\<^sup>*\<^sup>* b b' \<Longrightarrow> refs_ok b \<Longrightarrow> refs_ok b'"
  by (induction rule: rtranclp_induct) (auto intro: step_keeps_refs)

text \<open>What is referred to is there, and counted.\<close>

lemma refs_stored:
  assumes "refs_ok b" and "a \<in># queue_refs (queues b) + tree_refs (hier b)"
  shows "\<exists>s. heap b a = Some s \<and> 0 < s_ref_count s"
proof -
  have c: "counted (queue_refs (queues b) + tree_refs (hier b)) (heap b)" using assms(1) by (simp add: refs_ok_def st_def)
  obtain s where s: "heap b a = Some s" using counted_stored [OF c assms(2)] by blast
  moreover have "0 < count (queue_refs (queues b) + tree_refs (hier b)) a" using assms(2) by (simp only: count_greater_zero_iff)
  then have "0 < s_ref_count s" using spec [OF c [unfolded counted_def], of a] s by (simp del: count_union, linarith)
  ultimately show ?thesis by blast
qed

lemma queued_refs:
  assumes "c < length (contexts b)" and "m \<in> set (inflight_msgs (contexts b ! c)) \<union> set (queued_msgs (contexts b ! c))"
  shows "cm_store m \<in># queue_refs (queues b)"
proof -
  have "cm_store m \<in># msg_refs (inflight_msgs (contexts b ! c)) + msg_refs (queued_msgs (contexts b ! c))"
    using assms(2) by (auto simp: msg_refs_def)
  moreover have "msg_refs (fst (queues b ! c)) + msg_refs (fst (snd (queues b ! c))) \<subseteq># queue_refs (queues b)"
    by (rule queue_refs_less) (simp add: queues_def assms(1))
  ultimately show ?thesis using assms(1) by (auto simp: queues_def view_def dest: mset_subset_eqD)
qed

text \<open>C38: Over every run of the broker, up to the first step that ends in a fault, the reference count of
  each stored message is the number of queue entries and retained messages that refer to it, the totals
  of the store are right, and no queue entry refers to a message that was freed. Linking a new entry
  behind a last one that was freed (C40) is such a fault. A broker without clients' messages and retained
  messages can start a run.\<close>

theorem stored_messages_outlive_their_references:
  assumes "(broker_step C T)\<^sup>*\<^sup>* b b'" and "refs_ok b"
  shows "refs_ok b' \<and> (\<forall>a\<in>set (msg_store_list b').
      s_ref_count (the (heap b' a)) = int (count (queue_refs (queues b') + tree_refs (hier b')) a)) \<and>
    (\<forall>c<length (contexts b'). \<forall>m\<in>set (inflight_msgs (contexts b' ! c)) \<union> set (queued_msgs (contexts b' ! c)).
      \<exists>s. heap b' (cm_store m) = Some s \<and> 0 < s_ref_count s)"
proof (intro conjI ballI allI impI)
  show r: "refs_ok b'" by (rule run_keeps_refs [OF assms])
  show "s_ref_count (the (heap b' a)) = int (count (queue_refs (queues b') + tree_refs (hier b')) a)"
    if "a \<in> set (msg_store_list b')" for a
  proof -
    have "a \<in> dom (heap b')" using r that by (simp add: refs_ok_def st_def store_ok_def)
    then obtain s where "heap b' a = Some s" by blast
    moreover have "counted (queue_refs (queues b') + tree_refs (hier b')) (heap b')" using r by (simp add: refs_ok_def st_def)
    ultimately show ?thesis unfolding counted_def by (auto dest!: spec [of _ a])
  qed
  show "\<exists>s. heap b' (cm_store m) = Some s \<and> 0 < s_ref_count s"
    if "c < length (contexts b')" "m \<in> set (inflight_msgs (contexts b' ! c)) \<union> set (queued_msgs (contexts b' ! c))" for c m
    using refs_stored [OF r, of "cm_store m"] queued_refs [OF that] by simp
qed

definition idle_broker :: "nat broker" where
  "idle_broker = (sample_broker [Subhier (cstr ''d'') [] [] None] Map.empty)\<lparr>msg_store_list := [], msg_store_count := 0, msg_store_bytes := 0\<rparr>"

lemma idle_fields [simp]:
  "hier idle_broker = [Subhier [] [Subhier [] [Subhier (cstr ''d'') [] [] None] [] None] [] None, Subhier (cstr ''$SYS'') [] [] None]"
  "heap idle_broker = Map.empty" "next_addr idle_broker = 9" "msg_store_list idle_broker = []" "msg_store_count idle_broker = 0"
  "msg_store_bytes idle_broker = 0" "contexts idle_broker = [sample_context (cstr ''c0''), sample_context (cstr ''c1'')]"
  by (simp_all add: idle_broker_def) (simp_all add: sample_broker_def broker.defs world.defs)

lemma calm_idle [simp]: "calm idle_broker"
  using calm_sample_broker [of "[Subhier (cstr ''d'') [] [] None]" Map.empty] by (simp add: idle_broker_def calm_def)

lemma idle_refs: "refs_ok idle_broker"
proof -
  have k: "view (sample_context i) = ([], [], Some i)" "new_ok (sample_context i)" for i
    by (simp_all add: sample_context_def client_context.defs connection.defs view_def new_ok_def)
  then show ?thesis
    by (auto simp: refs_ok_def st_def store_ok_def counted_def queues_def queue_refs_def less_Suc_eq)
qed

text \<open>The broker after it has stored a message.\<close>

definition stored_broker :: "nat broker" where
  "stored_broker = snd (db__message_store (Some []) 0 (Some (cstr ''d'')) 0 [42] True 0 idle_broker)"

lemma stored_run: "db__message_store (Some []) 0 (Some (cstr ''d'')) 0 [42] True 0 idle_broker = (Inr 9, stored_broker)"
  by (simp add: stored_broker_def db__message_store_def bindE_def strdup_def asks_def modify_def ok_def)

lemma stored_fields [simp]:
  "hier stored_broker = hier idle_broker" "msg_store_list stored_broker = [9]" "calm stored_broker"
  "heap stored_broker = [9 \<mapsto> \<lparr>s_db_id = last_db_id idle_broker + 1, s_source_id = [], s_dest_ids = [], s_ref_count = 0,
     s_topic = Some (cstr ''d''), s_payload = [42], s_source_mid = 0, s_qos = 0, s_retain = True\<rparr>]"
  using calm_idle by (simp_all add: stored_broker_def db__message_store_def bindE_def strdup_def asks_def modify_def ok_def
    db__msg_store_add_def put_store_def calm_def)

lemma stored_publishes: "\<exists>b'. sub__messages_queue (Some []) (cstr ''d'') 0 True 9 stored_broker = (Inr (), b') \<and> msg_store_list b' = [9] \<and>
    s_ref_count (the (heap b' 9)) = 1"
  by (simp add: sub__messages_queue_def on_error_def calm_tokenise bindE_def root_of_def asks_def pure_res_def ok_def modify_def
    db__msg_store_ref_def db__msg_store_deref_def store_at_def put_store_def paths
    subs__process_def retain_here_def set_children_def set_retained_def add_leaf_def put_root_def ignore_def)

lemma idle_publishes: "\<exists>b'. db__messages_easy_queue None (cstr ''d'') 0 [42] True idle_broker = (Inr (), b') \<and> msg_store_list b' = [9] \<and>
    s_ref_count (the (heap b' 9)) = 1"
  using stored_publishes
  by (simp add: db__messages_easy_queue_def strdup_def or_1_def on_error_def stored_run bindE_def ok_def)

theorem stored_messages_outlive_their_references_witness:
  "\<exists>b'. (broker_step rfc7049 sample_tom)\<^sup>*\<^sup>* idle_broker b' \<and> msg_store_list b' = [9] \<and> refs_ok b' \<and>
    count (queue_refs (queues b') + tree_refs (hier b')) 9 = 1"
proof -
  obtain b' where b': "db__messages_easy_queue None (cstr ''d'') 0 [42] True idle_broker = (Inr (), b')" "msg_store_list b' = [9]"
    "s_ref_count (the (heap b' 9)) = 1" using idle_publishes by blast
  have run: "(broker_step rfc7049 sample_tom)\<^sup>*\<^sup>* idle_broker b'"
    by (rule r_into_rtranclp, rule broker_step.published [OF b'(1)]) simp
  show ?thesis using stored_messages_outlive_their_references [OF run idle_refs] run b'(2,3) by (intro exI [of _ b']) simp
qed

end
