(* ===== verification/HandleProps.thy ===== *)
theory HandleProps
  imports RefProps ClientProps
begin

text \<open>
  Properties of the broker's packet handlers: what a refused message of QoS 2 does to the next message
  with its id, and what removing the last message of a list for want of access does to the next one that
  belongs there. The lemmas say what storing (\<open>store_refused\<close>), queueing (\<open>insert_incoming\<close>,
  \<open>insert_unlinked\<close>), answering (\<open>pubrec_sent\<close>) and checking (\<open>check_acl_last\<close>) leave of the state.
\<close>

section \<open>A message that was refused\<close>

lemma find_stored_append:
  "find_stored mid h xs = Inr None \<Longrightarrow> find_stored mid h (xs @ ys) = find_stored mid h ys"
  by (induction xs) (auto split: option.splits if_splits)

lemma find_stored_split: "find_stored mid h (xs @ ys) = Inr None \<Longrightarrow> find_stored mid h xs = Inr None \<and> find_stored mid h ys = Inr None"
  by (induction xs) (auto split: option.splits if_splits)

lemma find_stored_new: "find_stored mid h ms = Inr None \<Longrightarrow> h a = None \<Longrightarrow> find_stored mid (h(a \<mapsto> s)) ms = Inr None"
  by (induction ms) (auto split: option.splits if_splits)

text \<open>The entry that was made is found by its id.\<close>

lemma find_inserted:
  assumes "find_stored mid h (i @ q) = Inr None" and "h a = None" and "s_source_mid s = mid" and m: "cm_store m = a" "cm_direction m = mosq_md_in"
    and "i' = i @ [m] \<and> q' = q \<or> i' = i \<and> q' = q @ [m]"
  shows "find_stored mid (h(a \<mapsto> s)) (i' @ q') = Inr (Some a)"
proof -
  note n = find_stored_split [OF find_stored_new [OF assms(1,2), of s]]
  have "find_stored mid (h(a \<mapsto> s)) [m] = Inr (Some a)" "find_stored mid (h(a \<mapsto> s)) (m # q) = Inr (Some a)"
    using assms(3) m by simp_all
  then show ?thesis using assms(6) n find_stored_append [of mid "h(a \<mapsto> s)"] by auto
qed

text \<open>An incoming message of QoS 2 for which there is room.\<close>

lemma insert_incoming:
  fixes b :: "'p broker"
  assumes "calm b" and c: "c < length (contexts b)" and "k_id (contexts b ! c) \<noteq> None" and "sock_open (contexts b ! c)"
    and "db__ready_for_flight b (contexts b ! c) 2" and "linked True (contexts b ! c)" and "heap b a = Some s"
  obtains m n where "cm_store m = a" and "cm_direction m = mosq_md_in" and "cm_state m = mosq_ms_wait_for_pubrel"
    and "db__message_insert c mid mosq_md_in 2 retain a b =
      (Inr 0, upd_client c wake_bridge (upd_client c (\<lambda>k. count_in m n (append_message m k))
        (put_store a (s\<lparr>s_ref_count := s_ref_count s + 1\<rparr>) b)))"
proof -
  let ?m = "\<lparr>cm_store = a, cm_timestamp = b_now b, cm_mid = mid, cm_qos = 2, cm_retain = retain,
        cm_direction = mosq_md_in, cm_state = mosq_ms_wait_for_pubrel, cm_dup = False\<rparr>"
  obtain cid where "k_id (contexts b ! c) = Some cid" using assms(3) by blast
  then have "db__message_insert c mid mosq_md_in 2 retain a b =
      (Inr 0, upd_client c wake_bridge (upd_client c (\<lambda>k. count_in ?m (payload_words s) (append_message ?m k))
        (put_store a (s\<lparr>s_ref_count := s_ref_count s + 1\<rparr>) b)))"
    using assms by (simp add: db__message_insert_def bindE_def client_at_def asks_def pure_res_def store_at_def place_message_def
      ensure_def modify_def ok_def db__msg_store_ref_def)
  then show thesis using that [of ?m "payload_words s"] by simp
qed

lemma sender_fields [simp]:
  "sender role (put_world w (wake_bridge k)) = sender role (put_world w k)"
  "sender role (put_world w (count_in m n k)) = sender role (put_world w k)"
  "sender role (put_world w (append_message m k)) = sender role (put_world w k)"
  for k :: "'p client_context"
  by (auto simp: sender_def established_def put_world_def wake_bridge_def count_in_def append_message_def calm_def holds_key_def
    queue_ok_def stays_open_def tx_ok_def fun_eq_iff split: option.splits)

lemma sender_moved [simp]: "sender role (put_world (upd_client c f b) k) = sender role (put_world b k)"
  "sender role (put_world (put_store a s b) k) = sender role (put_world b k)"
  for b :: "'p broker"
  by (simp_all add: put_world_def upd_client_def put_store_def)

lemma queued_there [simp]:
  "inflight_msgs (wake_bridge (count_in m n (append_message m k))) = (if cm_state m = mosq_ms_queued then inflight_msgs k else inflight_msgs k @ [m])"
  "queued_msgs (wake_bridge (count_in m n (append_message m k))) = (if cm_state m = mosq_ms_queued then queued_msgs k @ [m] else queued_msgs k)"
  by (auto simp: wake_bridge_def count_in_def append_message_def split: option.splits)

text \<open>The message that is stored for a refused one: it has no topic.\<close>

lemma store_refused:
  fixes b :: "'p broker"
  assumes "calm b"
  obtains s b' where "db__message_store source mid None 2 [] False 0 b = (Inr (next_addr b), b')"
    and "heap b' = (heap b)(next_addr b \<mapsto> s)" and "s_topic s = None" and "s_source_mid s = mid"
    and "contexts b' = contexts b" and "calm b'"
    and "\<And>k. db__ready_for_flight b' k 2 = db__ready_for_flight b k 2"
    and "\<And>role (k :: 'p client_context) key s. sender role (put_world b' k) s key = sender role (put_world b k) s key"
proof -
  show thesis
    by (rule that [of "snd (db__message_store source mid None 2 [] False 0 b)"
          "\<lparr>s_db_id = last_db_id b + 1, s_source_id = (case source of None \<Rightarrow> [] | Some x \<Rightarrow> x), s_dest_ids = [], s_ref_count = 0,
             s_topic = None, s_payload = [], s_source_mid = mid, s_qos = 2, s_retain = False\<rparr>"])
      (use assms in \<open>simp_all add: db__message_store_def bindE_def strdup_def asks_def modify_def ok_def db__msg_store_add_def put_store_def
        calm_def db__ready_for_flight_def put_world_def\<close>)
qed

text \<open>The answer to the client leaves its messages and the store alone.\<close>

lemma pubrec_sent:
  fixes b :: "'p broker"
  assumes laws: "cbor_law C" "tom_law T" and c: "c < length (contexts b)"
    and w: "sender SMP_MQTTS_BROKER (put_world b (contexts b ! c)) s key"
  obtains b' where "run_on c (send__pubrec C T SMP_MQTTS_BROKER mid) b = (Inr (), b')" and "heap b' = heap b"
    and "length (contexts b') = length (contexts b)"
    and "inflight_msgs (contexts b' ! c) = inflight_msgs (contexts b ! c)" and "queued_msgs (contexts b' ! c) = queued_msgs (contexts b ! c)"
proof -
  obtain w' where w': "send__pubrec C T SMP_MQTTS_BROKER mid (put_world b (contexts b ! c)) = (Inr (), w')"
    using ack_sends [OF laws, of SMP_MQTTS_CLIENT "put_world b (contexts b ! c)" s key PUBREC mid] w
    by (auto simp: send__pubrec_def PUBREC_def control_types_def allowed_types_def)
  have "same_client (put_world b (contexts b ! c)) w'" by (rule framesD [OF same_sends(2) w'])
  then have "view w' = view (put_world b (contexts b ! c))"
    using same_client_messages by (auto simp: same_messages_def)
  then have q: "inflight_msgs w' = inflight_msgs (contexts b ! c)" "queued_msgs w' = queued_msgs (contexts b ! c)"
    by (simp_all add: view_def put_world_def)
  show thesis
    by (rule that [of "(put_world w' b)\<lparr>contexts := (contexts b)[c := w']\<rparr>"])
      (use c w' q in \<open>simp_all add: run_on_def put_world_def\<close>)
qed

section \<open>A pointer that was lost\<close>

lemma check_acl_last:
  "connection_check_acl c flight (ms @ [m]) b = (Inr left, b1) \<Longrightarrow>
   (\<exists>ks. left = ks @ [m]) \<or> (\<exists>b'. b1 = upd_client c (lose flight) b')"
proof (induction ms arbitrary: b left)
  case Nil
  then show ?case by (auto simp: succeeds modify_def split: if_splits)
next
  case (Cons x ms)
  then obtain b0 rest where r: "connection_check_acl c flight (ms @ [m]) b0 = (Inr rest, b1)" "left = rest \<or> left = x # rest"
    by (auto simp: succeeds modify_def split: if_splits)
  then show ?case using Cons.IH [OF r(1)] by auto
qed

lemma lost_link: "c < length (contexts b) \<Longrightarrow> \<not> linked flight (contexts (upd_client c (lose flight) b) ! c)"
  by (simp add: linked_def lose_def upd_client_def)

text \<open>An entry is linked last of all; where the pointer is lost, that is the end.\<close>

lemma insert_unlinked:
  fixes b :: "'p broker"
  assumes "calm b" and c: "c < length (contexts b)" and "k_id (contexts b ! c) = Some cid" and "heap b a = Some s"
    and "sock_open (contexts b ! c)"
    and "\<not> allow_duplicate_messages b \<and> dir = mosq_md_out \<and> \<not> retain \<Longrightarrow> already_sent cid (s_dest_ids s) = Inr False"
    and "place_message b (contexts b ! c) dir qos = Inr (Some (state, rc))" and "state \<noteq> mosq_ms_invalid"
    and "\<not> linked (state \<noteq> mosq_ms_queued) (contexts b ! c)"
  shows "fst (db__message_insert c mid dir qos retain a b) = Inl Fault"
proof -
  have p: "calm (b\<lparr>persistence_changes := n\<rparr>)" for n using assms(1) by (simp add: calm_def)
  show ?thesis
    using assms p
    by (cases "allow_duplicate_messages b"; cases dir; cases retain; cases "state = mosq_ms_queued")
      (simp_all add: db__message_insert_def bindE_def client_at_def asks_def pure_res_def store_at_def ensure_def modify_def ok_def
        db__msg_store_ref_def)
qed

section \<open>Properties\<close>

text \<open>C39: A refused message of QoS 2 arms a fault. When the broker refuses such a message (too large, or
  denied by the access control) from a connected client that has room for it, whose pointer to its last
  message in flight is in place (C40) and whose queues hold no message with its id, it answers PUBREC and
  keeps an entry without a topic; every PUBLISH of QoS 1 with the same id that the broker then takes from
  this client, whatever its topic, finds the entry and ends the broker in the assertion on its missing
  topic.\<close>

theorem refused_id_aborts_the_broker:
  fixes b :: "'p broker"
  assumes laws: "cbor_law C" "tom_law T" and "calm b" and refs: "refs_ok b" and c: "c < length (contexts b)"
    and "k_id (contexts b ! c) \<noteq> None" and w: "sender SMP_MQTTS_BROKER (put_world b (contexts b ! c)) s key"
    and ready: "db__ready_for_flight b (contexts b ! c) 2" and linked: "linked True (contexts b ! c)"
    and new: "find_stored mid (heap b) (inflight_msgs (contexts b ! c) @ queued_msgs (contexts b ! c)) = Inr None"
  shows "\<exists>b1. process_bad_message C T c 2 mid b = (Inr (), b1) \<and>
    (\<forall>topic retain data. fst (take_message C T c mid topic 1 retain data b1) = Inl Fault)"
proof -
  let ?a = "next_addr b" and ?k = "contexts b ! c"
  have free: "heap b ?a = None"
    using st_store [OF refs [unfolded refs_ok_def]] by (auto simp: store_ok_def dom_def)
  obtain s' b' where s: "db__message_store (k_id ?k) mid None 2 [] False 0 b = (Inr ?a, b')" "heap b' = (heap b)(?a \<mapsto> s')"
      "s_topic s' = None" "s_source_mid s' = mid" "contexts b' = contexts b" "calm b'"
      "\<And>k. db__ready_for_flight b' k 2 = db__ready_for_flight b k 2"
      "\<And>role (k :: 'p client_context) key s. sender role (put_world b' k) s key = sender role (put_world b k) s key"
    using store_refused [OF \<open>calm b\<close>] by metis
  have so: "sock_open ?k" using w by (auto simp: sender_def stays_open_def put_world_def)
  obtain m n where m: "cm_store m = ?a" "cm_direction m = mosq_md_in" "cm_state m = mosq_ms_wait_for_pubrel"
      "db__message_insert c mid mosq_md_in 2 False ?a b' =
       (Inr 0, upd_client c wake_bridge (upd_client c (\<lambda>k. count_in m n (append_message m k))
         (put_store ?a (s'\<lparr>s_ref_count := s_ref_count s' + 1\<rparr>) b')))" (is "_ = (_, ?b'')")
    using insert_incoming [OF s(6), of c ?a s'] s c ready so linked assms(6) by simp metis
  let ?s = "s'\<lparr>s_ref_count := s_ref_count s' + 1\<rparr>"
  have b'': "contexts ?b'' ! c = wake_bridge (count_in m n (append_message m ?k))" "length (contexts ?b'') = length (contexts b)"
      "heap ?b'' = (heap b)(?a \<mapsto> ?s)"
    using c s(2,5) by (simp_all add: upd_client_def put_store_def)
  have "sender SMP_MQTTS_BROKER (put_world ?b'' (contexts ?b'' ! c)) s key"
    using w s(8) by (simp add: b''(1))
  then obtain b1 where
      b1: "run_on c (send__pubrec C T SMP_MQTTS_BROKER mid) ?b'' = (Inr (), b1)" "heap b1 = (heap b)(?a \<mapsto> ?s)"
      "length (contexts b1) = length (contexts b)"
      "inflight_msgs (contexts b1 ! c) = inflight_msgs ?k @ [m]" "queued_msgs (contexts b1 ! c) = queued_msgs ?k"
    by (rule pubrec_sent [OF laws, rotated]) (use c b'' m(3) in simp_all)
  have found: "find_stored mid (heap b1) (inflight_msgs (contexts b1 ! c) @ queued_msgs (contexts b1 ! c)) = Inr (Some ?a)"
    unfolding b1(2,4,5) by (rule find_inserted [OF new free]) (use m s(4) in simp_all)
  have "process_bad_message C T c 2 mid b = (Inr (), b1)"
    using c new s(1) m(4) b1(1) by (simp add: process_bad_message_def client_at_def db__message_store_find_def bindE_def asks_def
        pure_res_def ok_def ensure_def or_1_def on_error_def)
  moreover have "fst (take_message C T c mid topic 1 retain data b1) = Inl Fault" for topic retain data
    using c b1(2,3) found s(3) by (simp add: take_message_def client_at_def db__message_store_find_def bindE_def asks_def
        pure_res_def ok_def store_at_def)
  ultimately show ?thesis by blast
qed

text \<open>It happens to a client that has just connected.\<close>

definition ready_broker :: "nat broker" where
  "ready_broker = put_world (sample_link 9 [2]) idle_broker"

lemma ready_broker_facts:
  "calm ready_broker" "refs_ok ready_broker"
  "sender SMP_MQTTS_BROKER (put_world ready_broker (sample_context cid)) sample_session (replicate 32 9)"
  "db__ready_for_flight ready_broker (sample_context cid) 2" "linked True (sample_context cid)"
  "contexts ready_broker = [sample_context (cstr ''c0''), sample_context (cstr ''c1'')]"
proof -
  show "calm ready_broker"
    using sample_is_established [of 9 "[2]"]
    by (simp add: ready_broker_def put_world_def calm_def established_def sample_link_def smp_world.defs connection.defs)
  have "unchanged idle_broker ready_broker"
    by (simp add: unchanged_def ready_broker_def put_world_def)
  then show "refs_ok ready_broker"
    using idle_refs unchanged_st [of idle_broker ready_broker] by (metis refs_ok_def stD)
  show "sender SMP_MQTTS_BROKER (put_world ready_broker (sample_context cid)) sample_session (replicate 32 9)"
    using sample_is_established [of 9 "[2]"]
    by (simp add: ready_broker_def sample_context_def put_world_def sender_def sample_link_def smp_world.defs connection.defs
        client_context.defs queue_ok_def stays_open_def tx_ok_def established_def calm_def holds_key_def)
  show "db__ready_for_flight ready_broker (sample_context cid) 2"
    by (simp add: ready_broker_def idle_broker_def sample_broker_def put_world_def db__ready_for_flight_def sample_context_def
        broker.defs world.defs client_context.defs connection.defs)
  show "linked True (sample_context cid)"
    by (simp add: linked_def sample_context_def client_context.defs connection.defs)
  show "contexts ready_broker = [sample_context (cstr ''c0''), sample_context (cstr ''c1'')]"
    by (simp add: ready_broker_def put_world_def)
qed

theorem refused_id_aborts_the_broker_witness:
  "\<exists>b1. process_bad_message rfc7049 sample_tom 0 2 5 ready_broker = (Inr (), b1) \<and>
    fst (take_message rfc7049 sample_tom 0 5 (cstr ''t'') 1 False [42] b1) = Inl Fault"
proof -
  have "contexts ready_broker ! 0 = sample_context (cstr ''c0'')" by (simp add: ready_broker_facts)
  moreover have "k_id (sample_context (cstr ''c0'')) \<noteq> None" "inflight_msgs (sample_context (cstr ''c0'')) = []"
      "queued_msgs (sample_context (cstr ''c0'')) = []"
    by (simp_all add: sample_context_def client_context.defs connection.defs)
  ultimately show ?thesis
    using refused_id_aborts_the_broker [OF cbor_law_rfc7049 tom_law_sample ready_broker_facts(1,2), of 0 sample_session "replicate 32 9" 5]
      ready_broker_facts(3-5) [of "cstr ''c0''"] ready_broker_facts(6)
    by auto
qed

text \<open>C40: Removing the last message of a list for want of access loses the end of the list. When a client
  reconnects and \<open>connection_check_acl\<close> removes the last of its messages in flight, or of its waiting
  ones, the pointer to the last message is left on the freed entry; as long as nothing has set it again,
  the next message that the connected client should get in this list, or that it sends and that belongs
  there, is linked through freed memory (when no allocation fails before).\<close>

theorem denied_last_message_breaks_queue:
  fixes b b1 b2 :: "'p broker"
  assumes acl: "connection_check_acl c flight (ms @ [m]) b = (Inr left, b1)" and denied: "left = [] \<or> last left \<noteq> m"
    and c: "c < length (contexts b1)" and same: "linked flight (contexts b2 ! c) = linked flight (contexts b1 ! c)"
    and "calm b2" and "c < length (contexts b2)" and "k_id (contexts b2 ! c) = Some cid" and "heap b2 a = Some s"
    and "sock_open (contexts b2 ! c)"
    and new: "\<not> allow_duplicate_messages b2 \<and> dir = mosq_md_out \<and> \<not> retain \<Longrightarrow> already_sent cid (s_dest_ids s) = Inr False"
    and "place_message b2 (contexts b2 ! c) dir qos = Inr (Some (state, rc))" and "state \<noteq> mosq_ms_invalid"
    and list: "flight \<longleftrightarrow> state \<noteq> mosq_ms_queued"
  shows "fst (db__message_insert c mid dir qos retain a b2) = Inl Fault"
proof -
  obtain b' where "b1 = upd_client c (lose flight) b'" using check_acl_last [OF acl] denied by auto
  then have "\<not> linked flight (contexts b1 ! c)" using lost_link [of c b'] c by (simp add: upd_client_def)
  then have "\<not> linked (state \<noteq> mosq_ms_queued) (contexts b2 ! c)" using same list by simp
  then show ?thesis
    by (intro insert_unlinked [where cid = cid and s = s and state = state and rc = rc]) (use assms(5-9,11,12) new in auto)
qed

text \<open>
  The first client of this broker has one message in flight and no rule that lets it read it. When it
  then sends a message of QoS 2, the broker is lost.
\<close>

definition denied_entry :: client_msg where
  "denied_entry = \<lparr>cm_store = 9, cm_timestamp = 0, cm_mid = 1, cm_qos = 1, cm_retain = False,
     cm_direction = mosq_md_out, cm_state = mosq_ms_wait_for_puback, cm_dup = False\<rparr>"

definition denying_broker :: "nat broker" where
  "denying_broker = ready_broker\<lparr>
     heap := [9 \<mapsto> \<lparr>s_db_id = 1, s_source_id = [], s_dest_ids = [], s_ref_count = 2, s_topic = Some (cstr ''d''), s_payload = [42],
       s_source_mid = 0, s_qos = 1, s_retain = False\<rparr>],
     contexts := [sample_context (cstr ''c0'')\<lparr>inflight_msgs := [denied_entry]\<rparr>],
     security := security ready_broker\<lparr>sec_acl_list := [\<lparr>au_username = Some (cstr ''u''), au_acl = []\<rparr>]\<rparr>\<rparr>"

theorem denied_last_message_breaks_queue_witness:
  "\<exists>b1. connection_check_acl 0 True [denied_entry] denying_broker = (Inr [], b1) \<and>
    fst (db__message_insert 0 5 mosq_md_in 2 False 9 (upd_client 0 (\<lambda>k. k\<lparr>inflight_msgs := []\<rparr>) b1)) = Inl Fault"
proof -
  define b1 where "b1 = upd_client 0 (lose True) (put_store 9 ((the (heap denying_broker 9))\<lparr>s_ref_count := 1\<rparr>) denying_broker)"
  let ?b = "upd_client 0 (\<lambda>k. k\<lparr>inflight_msgs := []\<rparr>) b1"
  have k: "k_id (sample_context i) = Some i" "k_bridge (sample_context i) = None" "k_acl_list (sample_context i) = None"
      "sock_open (sample_context i)" for i
    by (simp_all add: sample_context_def client_context.defs connection.defs sample_link_def smp_world.defs)
  have sec: "sec_acl_patterns (security ready_broker) = []" "\<not> per_listener_settings ready_broker"
    by (simp_all add: ready_broker_def idle_broker_def sample_broker_def put_world_def broker.defs world.defs)
  have acl: "connection_check_acl 0 True ([] @ [denied_entry]) denying_broker = (Inr [], b1)"
    using k sec
    by (simp add: b1_def denying_broker_def denied_entry_def bindE_def store_at_def pure_res_def failed_def mosquitto_acl_check_def
        mosquitto_acl_check_default_def client_at_def asks_def ensure_def rescue_def ok_def fail_def modify_def db__msg_store_deref_def
        MOSQ_ACL_READ_def MOSQ_ACL_SUBSCRIBE_def)
  have f: "calm ?b" "length (contexts ?b) = 1" "k_id (contexts ?b ! 0) = Some (cstr ''c0'')" "heap ?b 9 \<noteq> None"
      "sock_open (contexts ?b ! 0)" "db__ready_for_flight ?b (contexts ?b ! 0) 2"
    using ready_broker_facts(1) ready_broker_facts(4) [of "cstr ''c0''"] k
    by (simp_all add: b1_def denying_broker_def upd_client_def put_store_def calm_def lose_def db__ready_for_flight_def Let_def split: if_splits)
  then obtain s where s: "heap ?b 9 = Some s" by blast
  have "fst (db__message_insert 0 5 mosq_md_in 2 False 9 ?b) = Inl Fault"
    by (rule denied_last_message_breaks_queue [OF acl, where ?b2.0 = ?b and cid = "cstr ''c0''" and s = s and state = mosq_ms_wait_for_pubrel
          and rc = 0]) (use f s in \<open>simp_all add: place_message_def linked_def upd_client_def\<close>)
  then show ?thesis using acl by auto
qed

end
