(* ===== verification/Spec2Isabelle.thy ===== *)
theory Spec2Isabelle
  imports ServiceProps TopicProps ClientProps RefProps HandleProps
begin

text \<open>
  weeveMQ: MQTT over the weeve Secure Messaging Protocol (SMP).

  The program has two parts. \<^bold>\<open>The weeve client library\<close> (\<open>src/WeeveClientLibrary\<close>,
  \<open>src/WeeveCommon\<close>) authenticates two devices by certificate chains, agrees on a key, and secures each
  MQTT control packet as one SMP message. \<^bold>\<open>mosquitto 1.5.2\<close> (\<open>src/WeeveMQTTSClient\<close>) is the MQTT
  client library and broker, changed to send and receive every packet through the weeve library
  (\<open>WITH_WEEVE_SMP\<close>). A packet goes down from the calls and handlers of mosquitto to its packet layer,
  through the SMP session to the socket, and up again on the other side.

  \<^bold>\<open>How the code is modelled.\<close> A C routine is a computation in \<open>('s, 'e, 'a) comp\<close> (Prelude): from a
  state to an outcome and a new state, on error paths too. The outcome is the value, an error code, or
  \<open>Fault\<close> for a run that left the defined behaviour of C. States are records that extend one another the
  way the components are stacked: \<open>world\<close> (files, fault stream, random generator), \<open>smp_world\<close> (the
  session), \<open>connection\<close> (socket and packets), \<open>mosquitto\<close> (the client's queues). Every allocation and
  every stdio call may fail, as the world's fault stream says; \<open>calm\<close> worlds are those without failures.
  Integers are words of their width, or natural numbers with the reduction to 32 bits written out (\<open>u32\<close>).
  Linked lists are lists, walked in the order the code walks them. The broker's pointers to the last
  message of a client's list are kept apart from the list where the code can leave them on a freed entry
  (\<open>lost_inflight\<close>, \<open>lost_queued\<close>); linking through such a pointer is a \<open>Fault\<close>.

  \<^bold>\<open>The weeve client library.\<close>
  \<^item> WosBase: memory, strings and buffers (\<open>wosMemoryLibC.c\<close>, \<open>wosStringLibC.c\<close>, \<open>wosCommon.h\<close>).
  \<^item> Storage: the key-value storage over files (\<open>wosStorageFile.c\<close>); the locale \<open>keyed_storage\<close> is its
    contract.
  \<^item> Crypto: keys, signatures, authenticated encryption (\<open>wosCryptoLibtom.c\<close>) over the calls of
    libtomcrypt, a parameter (\<open>tom_api\<close>, laws \<open>tom_law\<close>); TomSample is an instance.
  \<^item> CborApi, MsgCborUtils: the calls of tinycbor, a parameter (\<open>cbor_api\<close>, laws \<open>cbor_law\<close>), and the
    helpers over them (\<open>msgCborUtils.c\<close>); Rfc7049 is an instance written from the RFC.
  \<^item> MsgSmp, CborCert: the formats of SMP messages and certificates (\<open>wosMsgSmp.c\<close>, \<open>wosCborCert.c\<close>).
  \<^item> Cert: building and validating certificate chains (\<open>wosCert.c\<close>).
  \<^item> SmpCreds, SmpSession, SmpApi: credentials, the session and its messages, the library's interface
    (\<open>smpGlobalCreds.c\<close>, \<open>smpInternal.c\<close>, \<open>smpInternalUtils.c\<close>, \<open>smp.c\<close>, \<open>wclCommon.c\<close>).
  \<^item> Frames, SmpFrames: what each routine leaves alone on every path, as locales over a relation of
    states (\<open>read_frame\<close>, \<open>prng_frame\<close>, \<open>session_frame\<close>), and that a session whose private key is gone
    takes no second establishment message (\<open>sealed\<close>). SmpSessionFacts: what each operation does in a calm world. Samples: concrete machines.
  \<^item> SmpProps, CodecProps, ServiceProps: the properties. The handshake agrees on a key; secured messages
    come back as they were and only authentic ones are accepted; counters only grow and errors keep the
    session; an accepted handshake is not repeated; every failed encryption frees its buffers twice;
    certificate validation decides exactly the valid chains; formats round-trip; the storage is a map, up to
    data that \<open>fclose\<close> loses; keys, encryption and credentials do what they promise.

  \<^bold>\<open>mosquitto, the library.\<close>
  \<^item> MosqBase, Utf8, Topics (\<open>utf8_mosq.c\<close>, \<open>util_mosq.c\<close>), with TopicProps: the UTF-8 check accepts
    exactly RFC 3629 strings without NUL, the filter check exactly the well-formed filters, and the
    character loop of \<open>mosquitto_topic_matches_sub2\<close> decides matching level by level.
  \<^item> Packet, PacketIo (\<open>packet_mosq.c\<close>): packets, their fields, queueing, writing, and reading SMP frames
    and the packets in them. PacketFacts, PacketLink: the remaining length, and the two ends of a
    connection (locales \<open>state_frame\<close>, \<open>read_frame\<close>). PacketProps: packets arrive complete and in order;
    the writer keeps the byte stream and gets on.
  \<^item> Send (\<open>send_*.c\<close>) and PacketFields: the packets that are built; the locale \<open>field_codec\<close> states that a
    field is read as it was written, and is interpreted on bytes, numbers, strings and blocks.
  \<^item> Client, ClientHandle (\<open>messages_mosq.c\<close>, \<open>actions.c\<close>, \<open>handle_*.c\<close>, \<open>read_handle.c\<close>): the queues of
    unfinished messages, the user's calls, the handlers. LinkFrames, ClientFacts: what each of them keeps;
    the locale \<open>out_invariant\<close> states what a predicate of the outgoing messages needs to survive all calls
    and handlers, and is interpreted on the exact flow control (\<open>flow_ok\<close>) and on what early
    acknowledgements and new limits leave of it (\<open>slack\<close>). ClientProps: flow control over all runs, the
    PUBLISH packet is read as it was sent, messages of QoS 2 are conserved.

  \<^bold>\<open>mosquitto, the broker.\<close>
  \<^item> Broker (\<open>mosquitto_broker_internal.h\<close>): the state \<open>broker\<close>, a \<open>world\<close> with the clients, the tree, the
    heap of stored messages and the configuration. Each client has a connection of its own; a routine of
    the connection is run on a client with \<open>run_on\<close>.
  \<^item> Acl (\<open>security_default.c\<close>, \<open>security.c\<close>): access lists, patterns, the check, the plugins (a parameter).
  \<^item> Database (\<open>database.c\<close>): stored messages with reference counts - using a freed one is a \<open>Fault\<close> - and
    the queues of the clients.
  \<^item> Subs (\<open>subs.c\<close>): the subscription tree, publishing, retained messages. SubsFacts, SubsMap: the tree as
    a map from filters; the locale \<open>node_action\<close> states that a search runs its action on the nodes it
    visits. RetainFacts: what the search for retained messages finds and what a retained publication
    changes. SubsProps: publishing reaches exactly the matching filters, requests refine a map, topics
    without a root, retained messages.
  \<^item> BrokerHandle (\<open>handle_publish.c\<close>, \<open>handle_subscribe.c\<close>, \<open>handle_unsubscribe.c\<close>, \<open>lib/handle_*.c\<close> in
    the broker's build) and BrokerConnect (\<open>context.c\<close>, \<open>handle_connect.c\<close>, \<open>handle_connack.c\<close>,
    \<open>do_disconnect\<close>, the login of \<open>security.c\<close>, the dispatch of \<open>read_handle.c\<close>): what the broker does
    with each packet, and how clients come, take over a session, and leave. A handler reads the packet
    in \<open>in_packet\<close> of its client; files read before the login and the password file are data of the state.
  \<^item> RefFacts, RefQueues, RefTree, RefMoves, RefSteps, RefConnect: every queue entry and every retained
    message is a reference to a stored message. The lemmas are triples (\<open>triple P m Q E\<close>: from a state with
    \<open>P\<close> a run ends with \<open>Q\<close> for its value or with \<open>E\<close> for its error) that follow the references through
    the routines: the counts (\<open>counted\<close>), the queues (\<open>held\<close>, \<open>loose\<close>), the tree (\<open>tree_held\<close>), whole packets
    (\<open>refs\<close>). RefProps: over all runs of the broker the counts are the numbers of references, and no
    reference is to a freed message. HandleProps: what a refused message of QoS 2 does to the next one
    with its id, and what a last message removed for want of access does to the next one in its list.

  \<^bold>\<open>Bounds and fuel.\<close> Loops are structural recursions or have a measure: the bytes left for the
  remaining length (at most five), the events the socket still has for reading and writing. The loops that
  move waiting messages up (\<open>move_up\<close>, \<open>write_queue\<close>) may not end in the code, and the loop that releases a
  message (\<open>release_loop\<close>) walks a list that grows while it publishes; they run on fuel and return
  \<open>False\<close> when it is used up. The loops over the filters of a SUBSCRIBE and an UNSUBSCRIBE make as many
  rounds as the packet has bytes; each filter takes at least two.

  \<^bold>\<open>Not modelled.\<close> The operating system's side of sockets, TLS, websockets and name resolution, logging,
  the Redis storage (a second implementation behind hiredis), configuration parsing, the start of
  bridges, saving and loading the database, the command-line tools and the C++ wrapper: input and output
  around libraries that are not in the repository. The broker's main loop and the accepting of sockets:
  \<open>broker_step\<close> lets the calls the loop makes come in any order. The memory of a client that left is not
  used again. Mutexes: every routine runs alone.
\<close>

end
